(* ===== verification/Prelude.thy ===== *)
theory Prelude
  imports Main "HOL-Library.Word" "HOL-Library.AList" "HOL-Library.List_Lexorder" "HOL-Library.Multiset"
begin

text \<open>
  Shared vocabulary of the development: the error values the TypeScript code throws and the
  result type that carries them, the sequencing of fallible computations, byte arrays with the
  two textual and ordering helpers that almost every source file of the extension redefines
  (\<open>key\<close>/\<open>hex\<close> and \<open>compareBytes\<close>), the JavaScript \<open>Map\<close> as an
  insertion-ordered association list, and \<open>Array.prototype.sort\<close> with a comparator.
  The locales \<open>comparator_order\<close> and \<open>key_map\<close> state what clients may rely on;
  both are interpreted here on the definitions of the code.
\<close>

named_theorems res_simps "evaluation of fallible computations"
named_theorems cmp_simps "comparators of the code as linear orders"

section \<open>Errors as values\<close>

text \<open>The JavaScript exception classes the modelled code throws, with the message.\<close>

datatype js_error =
    TypeError string
  | RangeError string
  | CanonicalValueError string
  | CodedError string string
  | DOMException string

type_synonym 'a res = "js_error + 'a"

abbreviation ok :: "'a \<Rightarrow> 'a res" where "ok \<equiv> Inr"
abbreviation throw :: "js_error \<Rightarrow> 'a res" where "throw \<equiv> Inl"

definition and_then :: "'a res \<Rightarrow> ('a \<Rightarrow> 'b res) \<Rightarrow> 'b res" where
  "and_then m f = (case m of Inl e \<Rightarrow> Inl e | Inr x \<Rightarrow> f x)"

definition guard_not :: "bool \<Rightarrow> js_error \<Rightarrow> unit res" where
  "guard_not b e = (if b then Inl e else Inr ())"

lemma and_then_Inr [simp, res_simps]: "and_then (Inr x) f = f x"
  by (simp add: and_then_def)

lemma and_then_Inl [simp, res_simps]: "and_then (Inl e) f = Inl e"
  by (simp add: and_then_def)

lemma and_then_eq_Inr [res_simps]: "and_then m f = Inr y \<longleftrightarrow> (\<exists>x. m = Inr x \<and> f x = Inr y)"
  by (auto simp: and_then_def split: sum.splits)

lemma and_then_eq_Inl [res_simps]:
  "and_then m f = Inl e \<longleftrightarrow> m = Inl e \<or> (\<exists>x. m = Inr x \<and> f x = Inl e)"
  by (auto simp: and_then_def split: sum.splits)

lemma and_then_cong [fundef_cong]:
  "m = m' \<Longrightarrow> (\<And>x. m' = Inr x \<Longrightarrow> f x = f' x) \<Longrightarrow> and_then m f = and_then m' f'"
  by (cases m') auto

lemma guard_not_eq_Inr [simp, res_simps]: "guard_not b e = Inr u \<longleftrightarrow> \<not> b"
  by (simp add: guard_not_def)

lemma guard_not_eq_Inl [simp, res_simps]: "guard_not b e = Inl e' \<longleftrightarrow> b \<and> e' = e"
  by (auto simp: guard_not_def)

lemma guard_not_simps [simp, res_simps]:
  "guard_not True e = Inl e" "guard_not False e = Inr ()"
  by (simp_all add: guard_not_def)

text \<open>
  \<open>Array.prototype.map\<close>, \<open>forEach\<close> and \<open>for\<close> loops whose body may throw: the first
  exception ends the loop. \<open>each_i\<close> and \<open>traverse_i\<close> also pass the index, as the
  callbacks of the source receive it.
\<close>

primrec traverse_i :: "(nat \<Rightarrow> 'a \<Rightarrow> 'b res) \<Rightarrow> nat \<Rightarrow> 'a list \<Rightarrow> 'b list res" where
  "traverse_i f i [] = Inr []"
| "traverse_i f i (x # xs) =
     and_then (f i x) (\<lambda>y. and_then (traverse_i f (Suc i) xs) (\<lambda>ys. Inr (y # ys)))"

definition traverse :: "('a \<Rightarrow> 'b res) \<Rightarrow> 'a list \<Rightarrow> 'b list res" where
  "traverse f xs = traverse_i (\<lambda>_. f) 0 xs"

primrec foldM :: "('s \<Rightarrow> 'a \<Rightarrow> 's res) \<Rightarrow> 's \<Rightarrow> 'a list \<Rightarrow> 's res" where
  "foldM f s [] = Inr s"
| "foldM f s (x # xs) = and_then (f s x) (\<lambda>s'. foldM f s' xs)"

lemma traverse_i_irrelevant: "traverse_i (\<lambda>_. f) i xs = traverse_i (\<lambda>_. f) j xs"
proof (induction xs arbitrary: i j)
  case (Cons x xs)
  have "traverse_i (\<lambda>_. f) (Suc i) xs = traverse_i (\<lambda>_. f) (Suc j) xs" by (rule Cons.IH)
  then show ?case by simp
qed simp

lemma traverse_simps [simp, res_simps]:
  "traverse f [] = Inr []"
  "traverse f (x # xs) = and_then (f x) (\<lambda>y. and_then (traverse f xs) (\<lambda>ys. Inr (y # ys)))"
  using traverse_i_irrelevant[of f "Suc 0" xs 0] by (simp_all add: traverse_def)

lemma traverse_i_eq_Inr:
  "traverse_i f i xs = Inr ys \<longleftrightarrow>
     length ys = length xs \<and> (\<forall>k < length xs. f (i + k) (xs ! k) = Inr (ys ! k))"
proof (induction xs arbitrary: i ys)
  case Nil
  then show ?case by auto
next
  case (Cons x xs)
  show ?case
  proof (cases ys)
    case Nil
    then show ?thesis by (simp add: and_then_eq_Inr)
  next
    case [simp]: (Cons y zs)
    have "(\<forall>k < length (x # xs). f (i + k) ((x # xs) ! k) = Inr ((y # zs) ! k)) \<longleftrightarrow>
        f i x = Inr y \<and> (\<forall>k < length xs. f (Suc i + k) (xs ! k) = Inr (zs ! k))"
      by (auto simp: All_less_Suc2)
    then show ?thesis
      using Cons.IH[of "Suc i" zs] by (simp add: and_then_eq_Inr) blast
  qed
qed

lemma traverse_eq_Inr:
  "traverse f xs = Inr ys \<longleftrightarrow> list_all2 (\<lambda>x y. f x = Inr y) xs ys"
  by (auto simp: traverse_def traverse_i_eq_Inr list_all2_conv_all_nth)

lemma traverse_length: "traverse f xs = Inr ys \<Longrightarrow> length ys = length xs"
  by (auto simp: traverse_eq_Inr dest: list_all2_lengthD)

lemma traverse_i_id:
  assumes "traverse_i f i xs = Inr ys" and "\<And>k x y. f k x = Inr y \<Longrightarrow> y = x"
  shows "ys = xs"
proof (rule nth_equalityI)
  show "length ys = length xs" using assms(1) by (simp add: traverse_i_eq_Inr)
  fix k assume "k < length ys"
  then show "ys ! k = xs ! k" using assms by (auto simp: traverse_i_eq_Inr)
qed

lemma foldM_append: "foldM f s (xs @ ys) = and_then (foldM f s xs) (\<lambda>s'. foldM f s' ys)"
proof (induction xs arbitrary: s)
  case (Cons x xs)
  then show ?case by (cases "f s x") simp_all
qed simp

lemma foldM_invariant:
  assumes "foldM f s xs = Inr t" and "I s"
    and "\<And>s x s'. x \<in> set xs \<Longrightarrow> I s \<Longrightarrow> f s x = Inr s' \<Longrightarrow> I s'"
  shows "I t"
  using assms
proof (induction xs arbitrary: s)
  case (Cons x xs)
  then obtain s' where "f s x = Inr s'" and "foldM f s' xs = Inr t"
    by (auto simp: and_then_eq_Inr)
  moreover have "I s'" using Cons.prems(2,3) calculation(1) by (meson list.set_intros(1))
  ultimately show ?case using Cons.IH[of s'] Cons.prems(3) by (meson list.set_intros(2))
qed simp

section \<open>Text helpers\<close>

definition digit_char :: "nat \<Rightarrow> char" where
  "digit_char n = ''0123456789abcdef'' ! n"

fun nat_str :: "nat \<Rightarrow> string" where
  "nat_str n = (if n < 10 then [digit_char n] else nat_str (n div 10) @ [digit_char (n mod 10)])"

declare nat_str.simps [simp del]

definition int_str :: "int \<Rightarrow> string" where
  "int_str i = (if i < 0 then ''-'' @ nat_str (nat (- i)) else nat_str (nat i))"

section \<open>Byte arrays\<close>

type_synonym byte = "8 word"
type_synonym bytes = "byte list"

text \<open>\<open>bytesEqual\<close> of \<open>domain/hash.ts\<close>: a constant-time comparison that ors the differences.\<close>

unbundle bit_operations_syntax

fun bytes_difference :: "bytes \<Rightarrow> bytes \<Rightarrow> byte \<Rightarrow> byte" where
  "bytes_difference (a # as) (b # bs) d = bytes_difference as bs (d OR (a XOR b))"
| "bytes_difference as bs d = d"

definition bytesEqual :: "bytes \<Rightarrow> bytes \<Rightarrow> bool" where
  "bytesEqual left right =
     (if length left \<noteq> length right then False else bytes_difference left right 0 = 0)"

lemma xor_eq_zero_iff: "(a XOR b = (0 :: byte)) \<longleftrightarrow> a = b"
  by (auto simp: bit_eq_iff bit_xor_iff)

lemma bytes_difference_zero:
  "length as = length bs \<Longrightarrow> bytes_difference as bs d = 0 \<longleftrightarrow> d = 0 \<and> as = bs"
proof (induction as bs d rule: bytes_difference.induct)
  case (1 a as b bs d)
  then show ?case by (auto simp: or_eq_0_iff xor_eq_zero_iff)
qed auto

lemma bytesEqual_iff [simp, code]: "bytesEqual a b \<longleftrightarrow> a = b"
  by (auto simp: bytesEqual_def bytes_difference_zero)

text \<open>
  \<open>key\<close> (also called \<open>hex\<close>): two lower-case hexadecimal digits per byte, the string the
  code uses as the identity of an identifier in its maps and sets.
\<close>

definition hex_byte :: "byte \<Rightarrow> string" where
  "hex_byte b = [digit_char (unat b div 16), digit_char (unat b mod 16)]"

definition key :: "bytes \<Rightarrow> string" where
  "key bs = concat (map hex_byte bs)"

lemma digit_char_inj: "m < 16 \<Longrightarrow> n < 16 \<Longrightarrow> digit_char m = digit_char n \<longleftrightarrow> m = n"
  unfolding digit_char_def by (rule nth_eq_iff_index_eq) simp_all

lemma hex_byte_inj: "hex_byte a = hex_byte b \<longleftrightarrow> a = b"
proof
  assume h: "hex_byte a = hex_byte b"
  have *: "unat a < 256" "unat b < 256" using unsigned_less[of a] unsigned_less[of b] by simp_all
  then have "unat a div 16 = unat b div 16" "unat a mod 16 = unat b mod 16"
    using h by (auto simp: hex_byte_def digit_char_inj)
  then have "unat a = unat b" by (metis div_mult_mod_eq)
  then show "a = b" by (rule unsigned_word_eqI)
qed simp

lemma key_Nil [simp]: "key [] = []" and key_Cons: "key (b # bs) = hex_byte b @ key bs"
  by (simp_all add: key_def)

lemma key_inject [simp]: "key a = key b \<longleftrightarrow> a = b"
proof (induction a arbitrary: b)
  case Nil
  then show ?case by (cases b) (simp_all add: key_Cons hex_byte_def)
next
  case (Cons x xs)
  then show ?case
    using hex_byte_inj
    by (cases b) (auto simp: key_Cons append_eq_append_conv hex_byte_def[of x]
        hex_byte_def)
qed

lemma inj_key: "inj key"
  by (simp add: inj_on_def)

lemma key_image_mem [simp]: "key x \<in> key ` A \<longleftrightarrow> x \<in> A"
  by (auto simp: inj_image_mem_iff[OF inj_key])

text \<open>Keys that join several parts with a colon determine the parts.\<close>

lemma digit_not_colon:
  assumes "n < 16" shows "digit_char n \<noteq> CHR '':''"
proof -
  have "digit_char n \<in> set ''0123456789abcdef''"
    unfolding digit_char_def by (rule nth_mem) (use assms in simp)
  then show ?thesis by auto
qed

lemma key_no_colon: "CHR '':'' \<notin> set (key b)"
proof -
  have "CHR '':'' \<notin> set (hex_byte x)" for x
  proof -
    have "unat x < 256" using unsigned_less[of x, where 'a = nat] by simp
    then have "digit_char (unat x div 16) \<noteq> CHR '':''" "digit_char (unat x mod 16) \<noteq> CHR '':''"
      by (simp_all add: digit_not_colon)
    then show ?thesis by (auto simp: hex_byte_def)
  qed
  then show ?thesis by (simp add: key_def)
qed

lemma split_at_separator:
  assumes "c \<notin> set p" "c \<notin> set q"
  shows "p @ c # xs = q @ c # ys \<longleftrightarrow> p = q \<and> xs = ys"
proof -
  have "takeWhile (\<lambda>x. x \<noteq> c) (p @ c # xs) = p" "takeWhile (\<lambda>x. x \<noteq> c) (q @ c # ys) = q"
    using assms by (auto simp: takeWhile_append)
  then show ?thesis by (metis list.inject same_append_eq)
qed

lemma nat_str_no_colon: "CHR '':'' \<notin> set (nat_str n)"
proof (induction n rule: nat_str.induct)
  case (1 n)
  have "n < 10 \<Longrightarrow> digit_char n \<noteq> CHR '':''" "digit_char (n mod 10) \<noteq> CHR '':''"
    by (simp_all add: digit_not_colon)
  then show ?case using 1 by (subst nat_str.simps) auto
qed

lemma nat_str_nonempty: "nat_str n \<noteq> []" "[] \<noteq> nat_str n"
  by (subst nat_str.simps, simp)+

lemma nat_str_inject [simp]: "nat_str m = nat_str n \<longleftrightarrow> m = n"
proof
  show "nat_str m = nat_str n \<Longrightarrow> m = n"
  proof (induction m arbitrary: n rule: nat_str.induct)
    case (1 m)
    have m: "nat_str m = (if m < 10 then [digit_char m] else nat_str (m div 10) @ [digit_char (m mod 10)])"
      and n: "nat_str n = (if n < 10 then [digit_char n] else nat_str (n div 10) @ [digit_char (n mod 10)])"
      by (rule nat_str.simps)+
    show ?case
    proof (cases "m < 10 \<or> n < 10")
      case True
      then show ?thesis
        using 1(2) m n nat_str_nonempty digit_char_inj[of m n] by (auto split: if_splits)
    next
      case False
      then have "nat_str (m div 10) = nat_str (n div 10)" "digit_char (m mod 10) = digit_char (n mod 10)"
        using 1(2) m n by simp_all
      then have "m div 10 = n div 10" "m mod 10 = n mod 10"
        using 1(1) False digit_char_inj[of "m mod 10" "n mod 10"] by simp_all
      then show ?thesis by (metis div_mult_mod_eq)
    qed
  qed
qed simp

section \<open>Comparators and sorting\<close>

text \<open>
  A comparator returns a negative, zero or positive number. \<open>Array.prototype.sort\<close> and
  \<open>toSorted\<close> are stable, which insertion from the right models.
\<close>

type_synonym 'a comparer = "'a \<Rightarrow> 'a \<Rightarrow> int"

fun compareBytes :: "bytes comparer" where
  "compareBytes (a # as) (b # bs) =
     (if uint a - uint b \<noteq> 0 then uint a - uint b else compareBytes as bs)"
| "compareBytes as bs = int (length as) - int (length bs)"

fun insert_by :: "'a comparer \<Rightarrow> 'a \<Rightarrow> 'a list \<Rightarrow> 'a list" where
  "insert_by cmp x [] = [x]"
| "insert_by cmp x (y # ys) = (if cmp x y \<le> 0 then x # y # ys else y # insert_by cmp x ys)"

definition sort_by :: "'a comparer \<Rightarrow> 'a list \<Rightarrow> 'a list" where
  "sort_by cmp xs = foldr (insert_by cmp) xs []"

lemma sort_by_simps [simp]:
  "sort_by cmp [] = []" "sort_by cmp (x # xs) = insert_by cmp x (sort_by cmp xs)"
  by (simp_all add: sort_by_def)

lemma mset_insert_by [simp]: "mset (insert_by cmp x xs) = add_mset x (mset xs)"
  by (induction xs) simp_all

lemma mset_sort_by [simp]: "mset (sort_by cmp xs) = mset xs"
  by (induction xs) simp_all

lemma set_sort_by [simp]: "set (sort_by cmp xs) = set xs"
  by (metis mset_sort_by set_mset_mset)

lemma length_sort_by [simp]: "length (sort_by cmp xs) = length xs"
  by (metis mset_sort_by size_mset)

lemma distinct_sort_by [simp]: "distinct (sort_by cmp xs) = distinct xs"
  by (metis mset_sort_by mset_eq_imp_distinct_iff)

lemma filter_eq_permutation:
  assumes "mset xs = mset ys" and "inj_on f (set xs)" and "k \<in> set xs"
  shows "filter (\<lambda>x. f k = f x) xs = filter (\<lambda>x. f k = f x) ys"
proof -
  have eq: "filter (\<lambda>x. f k = f x) zs = filter ((=) k) zs" if "set zs = set xs" for zs
    using assms(2,3) that by (intro filter_cong) (auto dest: inj_onD)
  have "filter ((=) k) xs = replicate (count (mset xs) k) k"
    "filter ((=) k) ys = replicate (count (mset ys) k) k"
    by (metis (mono_tags) count_mset replicate_length_filter count_list_eq_length_filter)+
  then show ?thesis using assms(1) eq mset_eq_setD[OF assms(1)] by simp
qed

lemma sort_key_permutation:
  fixes f :: "'a \<Rightarrow> 'b :: linorder"
  assumes "mset xs = mset ys" and "inj_on f (set xs)"
  shows "sort_key f xs = sort_key f ys"
proof (rule properties_for_sort_key)
  show "mset (sort_key f ys) = mset xs" using assms(1) by simp
  show "sorted (map f (sort_key f ys))" by simp
  fix k assume "k \<in> set (sort_key f ys)"
  then have "k \<in> set xs" using mset_eq_setD[OF assms(1)] by simp
  then show "filter (\<lambda>x. f k = f x) (sort_key f ys) = filter (\<lambda>x. f k = f x) xs"
    using filter_eq_permutation[of xs "sort_key f ys" f k] assms by simp
qed

text \<open>
  What a caller of \<open>sort\<close> relies on: the comparator is the comparison of a linearly ordered
  attribute of the elements (here its image under \<open>rank\<close>), for the elements that satisfy
  \<open>good\<close>.
\<close>

locale comparator_order =
  fixes cmp :: "'a comparer" and rank :: "'a \<Rightarrow> 'b :: linorder" and good :: "'a \<Rightarrow> bool"
  assumes cmp_less: "good x \<Longrightarrow> good y \<Longrightarrow> cmp x y < 0 \<longleftrightarrow> rank x < rank y"
    and cmp_zero: "good x \<Longrightarrow> good y \<Longrightarrow> cmp x y = 0 \<longleftrightarrow> rank x = rank y"
begin

lemma cmp_le: "good x \<Longrightarrow> good y \<Longrightarrow> cmp x y \<le> 0 \<longleftrightarrow> rank x \<le> rank y"
  using cmp_less[of x y] cmp_zero[of x y] by (auto simp: le_less)

lemma insert_by_insort_key:
  "good x \<Longrightarrow> \<forall>y \<in> set ys. good y \<Longrightarrow> insert_by cmp x ys = insort_key rank x ys"
  by (induction ys) (simp_all add: cmp_le)

lemma sort_by_sort_key: "\<forall>x \<in> set xs. good x \<Longrightarrow> sort_by cmp xs = sort_key rank xs"
  by (induction xs) (simp_all add: insert_by_insort_key)

lemma sorted_sort_by: "\<forall>x \<in> set xs. good x \<Longrightarrow> sorted (map rank (sort_by cmp xs))"
  by (simp add: sort_by_sort_key)

lemma sort_by_permutation:
  assumes "mset xs = mset ys" and "inj_on rank (set xs)" and "\<forall>x \<in> set xs. good x"
  shows "sort_by cmp xs = sort_by cmp ys"
proof -
  have "set xs = set ys" using assms(1) by (rule mset_eq_setD)
  then have "sort_by cmp xs = sort_key rank xs" "sort_by cmp ys = sort_key rank ys"
    using assms(3) by (auto intro!: sort_by_sort_key)
  moreover have "sort_key rank xs = sort_key rank ys"
    using assms(1,2) by (rule sort_key_permutation)
  ultimately show ?thesis by simp
qed

lemma hd_sort_by_least:
  assumes "\<forall>x \<in> set xs. good x" and "y \<in> set xs"
  shows "rank (hd (sort_by cmp xs)) \<le> rank y"
proof -
  have "y \<in> set (sort_by cmp xs)" using assms(2) by simp
  then obtain z zs where zs: "sort_by cmp xs = z # zs" by (cases "sort_by cmp xs") auto
  have "sorted (map rank (z # zs))" using sorted_sort_by[OF assms(1)] zs by simp
  moreover have "y \<in> set (z # zs)" using zs assms(2) set_sort_by[of cmp xs] by simp
  ultimately show ?thesis using zs by auto
qed

end

lemma compareBytes_less: "compareBytes a b < 0 \<longleftrightarrow> a < b"
proof (induction a b rule: compareBytes.induct, goal_cases)
  case (1 a as b bs)
  have "uint a = uint b \<longleftrightarrow> a = b" by (auto intro: unsigned_word_eqI)
  then show ?case using 1 by (auto simp: word_less_def)
next
  case (2 bs)
  then show ?case by (cases bs) auto
next
  case (3 as)
  then show ?case by (cases as) auto
qed

lemma compareBytes_zero: "compareBytes a b = 0 \<longleftrightarrow> a = b"
proof (induction a b rule: compareBytes.induct)
  case (1 a as b bs)
  have "uint a = uint b \<longleftrightarrow> a = b" by (auto intro: unsigned_word_eqI)
  then show ?case using 1 by auto
qed auto

interpretation cb: comparator_order compareBytes "\<lambda>b. b" "\<lambda>_. True"
  by unfold_locales (simp_all add: compareBytes_less compareBytes_zero)

lemma compareBytes_on: "comparator_order (\<lambda>x y. compareBytes (f x) (f y)) f (\<lambda>_. True)"
  by unfold_locales (simp_all add: compareBytes_less compareBytes_zero)

lemmas sort_compareBytes = comparator_order.sort_by_sort_key[OF compareBytes_on, simplified]

text \<open>
  \<open>compareIds\<close> of \<open>reducers.ts\<close> compares exactly the first 32 positions, reading a
  missing byte as 0.
\<close>

definition byte_at :: "bytes \<Rightarrow> nat \<Rightarrow> int" where
  "byte_at bs i = (if i < length bs then uint (bs ! i) else 0)"

fun compare_from :: "nat \<Rightarrow> nat \<Rightarrow> bytes comparer" where
  "compare_from i 0 left right = 0"
| "compare_from i (Suc n) left right =
     (if byte_at left i - byte_at right i \<noteq> 0 then byte_at left i - byte_at right i
      else compare_from (Suc i) n left right)"

definition compareIds :: "bytes comparer" where
  "compareIds left right = compare_from 0 32 left right"

lemma compare_from_drop:
  "length left = i + n \<Longrightarrow> length right = i + n \<Longrightarrow>
     compare_from i n left right = compareBytes (drop i left) (drop i right)"
proof (induction n arbitrary: i)
  case (Suc n)
  then have "drop i left = left ! i # drop (Suc i) left"
    "drop i right = right ! i # drop (Suc i) right"
    by (simp_all add: Cons_nth_drop_Suc)
  with Suc show ?case by (simp add: byte_at_def)
qed simp

abbreviation id32 :: "bytes \<Rightarrow> bool" where "id32 b \<equiv> length b = 32"

lemma compareIds_compareBytes: "id32 a \<Longrightarrow> id32 b \<Longrightarrow> compareIds a b = compareBytes a b"
  by (simp add: compareIds_def compare_from_drop[of _ 0 32, simplified])

interpretation ci: comparator_order compareIds "\<lambda>b. b" id32
  by unfold_locales (simp_all add: compareIds_compareBytes compareBytes_less compareBytes_zero)

lemma compareIds_on: "comparator_order (\<lambda>x y. compareIds (f x) (f y)) f (\<lambda>x. id32 (f x))"
  by unfold_locales (simp_all add: ci.cmp_less ci.cmp_zero)

section \<open>JavaScript maps\<close>

text \<open>
  A \<open>Map\<close> iterates in insertion order and \<open>set\<close> on a present key keeps its place, so it is
  an association list with \<^const>\<open>AList.update\<close>.
\<close>

type_synonym ('k, 'v) jmap = "('k \<times> 'v) list"

abbreviation mapGet :: "('k, 'v) jmap \<Rightarrow> 'k \<Rightarrow> 'v option" where "mapGet \<equiv> map_of"
abbreviation mapSet :: "('k, 'v) jmap \<Rightarrow> 'k \<Rightarrow> 'v \<Rightarrow> ('k, 'v) jmap" where
  "mapSet m k v \<equiv> AList.update k v m"
definition mapHas :: "('k, 'v) jmap \<Rightarrow> 'k \<Rightarrow> bool" where
  "mapHas m k = (k \<in> set (map fst m))"
abbreviation mapKeys :: "('k, 'v) jmap \<Rightarrow> 'k list" where "mapKeys m \<equiv> map fst m"
abbreviation mapValues :: "('k, 'v) jmap \<Rightarrow> 'v list" where "mapValues m \<equiv> map snd m"

lemma mapHas_iff: "mapHas m k \<longleftrightarrow> mapGet m k \<noteq> None"
  by (simp add: mapHas_def map_of_eq_None_iff)

lemma mapHas_simps [simp]:
  "mapHas [] k = False" "mapHas ((a, b) # m) k = (k = a \<or> mapHas m k)"
  by (auto simp: mapHas_def)

text \<open>The interface of a map of the code: what a read returns after a write.\<close>

locale key_map =
  fixes empty :: 'm and get :: "'m \<Rightarrow> 'k \<Rightarrow> 'v option" and set_at :: "'m \<Rightarrow> 'k \<Rightarrow> 'v \<Rightarrow> 'm"
    and keys_of :: "'m \<Rightarrow> 'k list"
  assumes get_empty: "get empty k = None"
    and get_set: "get (set_at m k v) k' = (if k' = k then Some v else get m k')"
    and keys_get: "k \<in> set (keys_of m) \<longleftrightarrow> get m k \<noteq> None"
    and keys_empty: "keys_of empty = []"
    and keys_set: "keys_of (set_at m k v) = (if k \<in> set (keys_of m) then keys_of m else keys_of m @ [k])"
begin

definition set_all :: "'m \<Rightarrow> ('k \<times> 'v) list \<Rightarrow> 'm" where
  "set_all m xs = foldl (\<lambda>m (k, v). set_at m k v) m xs"

lemma set_all_simps [simp]:
  "set_all m [] = m" "set_all m (x # xs) = set_all (set_at m (fst x) (snd x)) xs"
  by (simp_all add: set_all_def case_prod_beta)

lemma distinct_keys_set_all: "distinct (keys_of m) \<Longrightarrow> distinct (keys_of (set_all m xs))"
  by (induction xs arbitrary: m) (auto simp: keys_set)

lemma keys_set_all: "set (keys_of (set_all m xs)) = set (keys_of m) \<union> fst ` set xs"
  by (induction xs arbitrary: m) (auto simp: keys_set)

lemma get_set_all: "get (set_all m xs) k = (case map_of (rev xs) k of None \<Rightarrow> get m k | Some v \<Rightarrow> Some v)"
  by (induction xs arbitrary: m)
    (auto simp: get_set map_add_def split: option.splits)

end

lemma mapKeys_mapSet:
  "mapKeys (mapSet m k v) = (if k \<in> set (mapKeys m) then mapKeys m else mapKeys m @ [k])"
  by (simp add: update_keys)

interpretation jm: key_map "[]" "map_of :: ('k \<times> 'v) list \<Rightarrow> 'k \<Rightarrow> 'v option"
  "\<lambda>m k v. AList.update k v m" "map fst"
  by unfold_locales (auto simp: update_conv' map_of_eq_None_iff mapKeys_mapSet)

text \<open>\<open>new Map(values.map((v) => [key(v), v]))\<close>\<close>

definition mapFrom :: "('k \<times> 'v) list \<Rightarrow> ('k, 'v) jmap" where
  "mapFrom xs = foldl (\<lambda>m (k, v). AList.update k v m) [] xs"

lemma mapFrom_keys: "set (mapKeys (mapFrom xs)) = fst ` set xs"
  using jm.keys_set_all[of "[]" xs] by (simp add: mapFrom_def jm.set_all_def)

lemma mapFrom_distinct: "distinct (mapKeys (mapFrom xs))"
  using jm.distinct_keys_set_all[of "[]" xs] by (simp add: mapFrom_def jm.set_all_def)

lemma mapFrom_get: "mapGet (mapFrom xs) k = map_of (rev xs) k"
  using jm.get_set_all[of "[]" xs k] by (simp add: mapFrom_def jm.set_all_def split: option.splits)

lemma mapFrom_subset: "set (mapFrom xs) \<subseteq> set xs"
proof
  fix p assume "p \<in> set (mapFrom xs)"
  then have "mapGet (mapFrom xs) (fst p) = Some (snd p)"
    by (metis map_of_is_SomeI mapFrom_distinct prod.collapse)
  then show "p \<in> set xs" unfolding mapFrom_get by (metis map_of_SomeD prod.collapse set_rev)
qed

lemma update_fresh: "k \<notin> fst ` set m \<Longrightarrow> AList.update k v m = m @ [(k, v)]"
  by (induction m) auto

text \<open>The two loops that build an index and throw on a repeated key.\<close>

lemma foldM_index:
  assumes "\<And>m x. f m x = (if mapHas m (k x) then throw e else ok (mapSet m (k x) x))"
  shows "foldM f m xs = ok m' \<longleftrightarrow>
     distinct (map k xs) \<and> (\<forall>x \<in> set xs. \<not> mapHas m (k x)) \<and> m' = m @ map (\<lambda>x. (k x, x)) xs"
proof (induction xs arbitrary: m)
  case (Cons x xs)
  have "foldM f m (x # xs) = ok m' \<longleftrightarrow> \<not> mapHas m (k x) \<and> foldM f (m @ [(k x, x)]) xs = ok m'"
    using assms by (auto simp: mapHas_def update_fresh)
  then show ?case unfolding Cons.IH mapHas_def by (auto simp: image_iff eq_commute[of "k x"])
qed auto

lemma foldM_seen:
  assumes "\<And>seen x. f seen x = (if k x \<in> set seen then throw e else ok (k x # seen))"
  shows "foldM f seen xs = ok out \<longleftrightarrow>
     distinct (map k xs) \<and> (\<forall>x \<in> set xs. k x \<notin> set seen) \<and> out = rev (map k xs) @ seen"
proof (induction xs arbitrary: seen)
  case (Cons x xs)
  have "foldM f seen (x # xs) = ok out \<longleftrightarrow> k x \<notin> set seen \<and> foldM f (k x # seen) xs = ok out"
    using assms by auto
  then show ?case unfolding Cons.IH by (auto simp: image_iff eq_commute[of "k x"])
qed auto

end
