(* ===== verification/Transcript.thy ===== *)
theory Transcript
  imports Prelude
begin

text \<open>
  Model of \<open>domain/canonical/transcript.ts\<close>: the byte string that is hashed or signed wherever
  the extension derives an identifier or a signature. A transcript is a label, a zero byte, the
  number of parts and each part behind its 64-bit length. The main result is that a transcript
  determines its label and its parts (domain separation and no ambiguity between parts).
\<close>

section \<open>Definitions\<close>

text \<open>
  A JavaScript string is represented by its (generalised) UTF-8 bytes, so \<open>TextEncoder.encode\<close>
  only changes the type. Integers of the code are a \<open>number\<close> or a \<open>bigint\<close>.
\<close>

definition utf8 :: "string \<Rightarrow> bytes" where
  "utf8 s = map (\<lambda>c. word_of_nat (of_char c)) s"

datatype js_integer = JNumber int | JBigInt int

definition isSafeInteger :: "int \<Rightarrow> bool" where
  "isSafeInteger n = (- (2 ^ 53 - 1) \<le> n \<and> n \<le> 2 ^ 53 - 1)"

definition buffer_set :: "bytes \<Rightarrow> bytes \<Rightarrow> nat \<Rightarrow> bytes" where
  "buffer_set output part offset = take offset output @ part @ drop (offset + length part) output"

fun concat_loop :: "bytes \<Rightarrow> nat \<Rightarrow> bytes list \<Rightarrow> bytes" where
  "concat_loop output offset [] = output"
| "concat_loop output offset (part # parts) =
     concat_loop (buffer_set output part offset) (offset + length part) parts"

definition concatBytes :: "bytes list \<Rightarrow> bytes" where
  "concatBytes parts =
     concat_loop (replicate (sum_list (map length parts)) 0) 0 parts"

definition big_endian :: "nat \<Rightarrow> int \<Rightarrow> bytes" where
  "big_endian n v = map (\<lambda>i. word_of_int (v div 256 ^ (n - 1 - i))) [0..<n]"

definition uint8 :: "int \<Rightarrow> bytes res" where
  "uint8 v =
     (if \<not> isSafeInteger v \<or> v < 0 \<or> v > 0xff
      then throw (RangeError ''Value does not fit uint8'')
      else ok [word_of_int v])"

definition uint32be :: "int \<Rightarrow> bytes res" where
  "uint32be v =
     (if \<not> isSafeInteger v \<or> v < 0 \<or> v > 0xffffffff
      then throw (RangeError ''Value does not fit uint32'')
      else ok (big_endian 4 v))"

definition uint64be :: "js_integer \<Rightarrow> bytes res" where
  "uint64be value =
     (let i = (case value of JNumber n \<Rightarrow> n | JBigInt n \<Rightarrow> n);
          unsafe = (case value of JNumber n \<Rightarrow> \<not> isSafeInteger n | JBigInt n \<Rightarrow> False)
      in if unsafe \<or> i < 0 \<or> i > 0xffffffffffffffff
         then throw (RangeError ''Value does not fit uint64'')
         else ok (big_endian 8 i))"

text \<open>The regular expression \<open>/^awsm:[a-z0-9:-]+:v1$/u\<close>.\<close>

definition label_char :: "char \<Rightarrow> bool" where
  "label_char c = (c \<in> set ''abcdefghijklmnopqrstuvwxyz0123456789:-'')"

definition label_ok :: "string \<Rightarrow> bool" where
  "label_ok s =
     (length s \<ge> 9 \<and> take 5 s = ''awsm:'' \<and> drop (length s - 3) s = '':v1'' \<and>
      list_all label_char (take (length s - 8) (drop 5 s)))"

definition transcript_part :: "bytes \<Rightarrow> bytes list res" where
  "transcript_part part =
     and_then (uint64be (JNumber (int (length part)))) (\<lambda>len. ok [len, part])"

definition transcript :: "string \<Rightarrow> bytes list \<Rightarrow> bytes res" where
  "transcript label parts =
     (if \<not> label_ok label then throw (TypeError ''Invalid transcript label'')
      else if int (length parts) > 0xffffffff
      then throw (RangeError ''Too many transcript parts'')
      else and_then (uint32be (int (length parts))) (\<lambda>count.
           and_then (traverse transcript_part parts) (\<lambda>framed.
           ok (concatBytes ([utf8 label, [0], count] @ concat framed)))))"

section \<open>Concatenation\<close>

lemma concat_loop_eq:
  "offset + length (concat parts) = length output \<Longrightarrow>
     concat_loop output offset parts = take offset output @ concat parts"
proof (induction "output" offset parts rule: concat_loop.induct)
  case (2 out offset part parts)
  then show ?case by (simp add: buffer_set_def)
qed simp

lemma concatBytes_concat [simp]: "concatBytes parts = concat parts"
  unfolding concatBytes_def by (subst concat_loop_eq) (simp_all add: length_concat)

section \<open>Fixed-width integers\<close>

lemma length_big_endian [simp]: "length (big_endian n v) = n"
  by (simp add: big_endian_def)

lemma big_endian_Suc:
  "big_endian (Suc n) v = big_endian n (v div 256) @ [word_of_int v]"
proof -
  have "map (\<lambda>i. word_of_int (v div 256 ^ (n - i)) :: byte) [0..<n] =
      map (\<lambda>i. word_of_int (v div 256 div 256 ^ (n - 1 - i))) [0..<n]"
  proof (rule map_cong)
    fix i assume "i \<in> set [0..<n]"
    then have "n - i = Suc (n - 1 - i)" by auto
    then have "v div 256 ^ (n - i) = v div 256 div 256 ^ (n - 1 - i)"
      by (simp add: zdiv_zmult2_eq)
    then show "(word_of_int (v div 256 ^ (n - i)) :: byte) =
        word_of_int (v div 256 div 256 ^ (n - 1 - i))" by simp
  qed simp
  then show ?thesis by (simp add: big_endian_def)
qed

lemma big_endian_inj:
  assumes "0 \<le> v" "v < 256 ^ n" "0 \<le> w" "w < 256 ^ n" "big_endian n v = big_endian n w"
  shows "v = w"
  using assms
proof (induction n arbitrary: v w)
  case (Suc n)
  have *: "v div 256 < 256 ^ n" "w div 256 < 256 ^ n" using Suc.prems by auto
  have "big_endian n (v div 256) = big_endian n (w div 256)"
    and "(word_of_int v :: byte) = word_of_int w"
    using Suc.prems(5) by (simp_all add: big_endian_Suc)
  then have "v div 256 = w div 256"
    using Suc.IH[of "v div 256" "w div 256"] Suc.prems * by simp
  moreover have "v mod 256 = w mod 256"
  proof -
    have "uint (word_of_int v :: byte) = uint (word_of_int w :: byte)"
      using \<open>word_of_int v = word_of_int w\<close> by simp
    then show ?thesis by (simp add: uint_word_of_int)
  qed
  ultimately show ?case by (metis div_mult_mod_eq)
qed simp

lemma uint32be_ok: "0 \<le> v \<Longrightarrow> v \<le> 0xffffffff \<Longrightarrow> uint32be v = ok (big_endian 4 v)"
  by (simp add: uint32be_def isSafeInteger_def)

lemma uint64be_ok: "isSafeInteger v \<Longrightarrow> 0 \<le> v \<Longrightarrow> uint64be (JNumber v) = ok (big_endian 8 v)"
  by (simp add: uint64be_def isSafeInteger_def)

lemma uint64be_D:
  "uint64be (JNumber v) = ok b \<Longrightarrow> 0 \<le> v \<and> v < 256 ^ 8 \<and> b = big_endian 8 v"
  by (auto simp: uint64be_def Let_def split: if_splits)

section \<open>The shape of a transcript\<close>

definition framed_part :: "bytes \<Rightarrow> bytes" where
  "framed_part part = big_endian 8 (int (length part)) @ part"

lemma transcript_part_D:
  "transcript_part part = ok fs \<Longrightarrow>
     int (length part) < 256 ^ 8 \<and> concat fs = framed_part part"
  by (auto simp: transcript_part_def framed_part_def and_then_eq_Inr dest: uint64be_D)

lemma traverse_transcript_part:
  "traverse transcript_part parts = ok framed \<Longrightarrow>
     (\<forall>p \<in> set parts. int (length p) < 256 ^ 8) \<and>
     concat (concat framed) = concat (map framed_part parts)"
proof (induction parts arbitrary: framed)
  case (Cons p ps)
  then show ?case by (auto simp: and_then_eq_Inr dest!: transcript_part_D)
qed simp

lemma transcript_D:
  assumes "transcript label parts = ok b"
  shows "label_ok label \<and> int (length parts) < 256 ^ 4 \<and>
     (\<forall>p \<in> set parts. int (length p) < 256 ^ 8) \<and>
     b = utf8 label @ [0] @ big_endian 4 (int (length parts)) @ concat (map framed_part parts)"
proof -
  obtain count framed where
    h: "label_ok label" "\<not> int (length parts) > 0xffffffff"
      "uint32be (int (length parts)) = ok count" "traverse transcript_part parts = ok framed"
      "b = utf8 label @ 0 # count @ concat (concat framed)"
    using assms by (auto simp: transcript_def and_then_eq_Inr split: if_splits)
  have "count = big_endian 4 (int (length parts))"
    using h(2,3) uint32be_ok[of "int (length parts)"] by simp
  then show ?thesis using h traverse_transcript_part[OF h(4)] by simp
qed

lemma framed_part_append_inj:
  assumes "int (length p) < 256 ^ 8" "int (length q) < 256 ^ 8"
    and "framed_part p @ xs = framed_part q @ ys"
  shows "p = q \<and> xs = ys"
proof -
  have "big_endian 8 (int (length p)) = big_endian 8 (int (length q))" and *: "p @ xs = q @ ys"
    using assms(3) by (simp_all add: framed_part_def)
  then have "length p = length q"
    using big_endian_inj[of "int (length p)" 8 "int (length q)"] assms(1,2) by simp
  with * show ?thesis by simp
qed

lemma framed_parts_inj:
  assumes "\<forall>p \<in> set ps. int (length p) < 256 ^ 8" "\<forall>q \<in> set qs. int (length q) < 256 ^ 8"
    and "length ps = length qs" "concat (map framed_part ps) = concat (map framed_part qs)"
  shows "ps = qs"
  using assms(3,1,2,4)
proof (induction ps qs rule: list_induct2)
  case (Cons p ps q qs)
  then have "framed_part p @ concat (map framed_part ps) =
      framed_part q @ concat (map framed_part qs)"
    by simp
  then have "p = q \<and> concat (map framed_part ps) = concat (map framed_part qs)"
    by (intro framed_part_append_inj) (use Cons.prems in auto)
  then show ?case using Cons by simp
qed simp

lemma unat_char_byte [simp]: "unat (word_of_nat (of_char c) :: byte) = of_char c"
  by (simp add: unsigned_of_nat take_bit_eq_mod)

lemma utf8_inj [simp]: "utf8 s = utf8 t \<longleftrightarrow> s = t"
proof -
  have "inj (\<lambda>c. word_of_nat (of_char c) :: byte)"
  proof (rule injI)
    fix c d :: char
    assume "(word_of_nat (of_char c) :: byte) = word_of_nat (of_char d)"
    then have "(of_char c :: nat) = of_char d" using unat_char_byte by metis
    then show "c = d" by simp
  qed
  then show ?thesis by (simp add: utf8_def inj_map_eq_map)
qed

lemma label_ok_split:
  assumes "label_ok s"
  obtains m where "s = ''awsm:'' @ m @ '':v1''" and "list_all label_char m"
proof
  show "list_all label_char (take (length s - 8) (drop 5 s))"
    using assms by (simp add: label_ok_def)
  have "s = take 5 s @ take (length s - 8) (drop 5 s) @ drop (length s - 8) (drop 5 s)"
    by (metis append_take_drop_id)
  moreover have "drop (length s - 8) (drop 5 s) = drop (length s - 3) s"
    using assms by (simp add: label_ok_def)
  ultimately show "s = ''awsm:'' @ take (length s - 8) (drop 5 s) @ '':v1''"
    using assms by (metis label_ok_def)
qed

lemma label_ok_chars: "label_ok s \<Longrightarrow> list_all label_char s"
  by (erule label_ok_split) (simp add: label_char_def)

lemma label_char_nonzero: "label_char c \<Longrightarrow> (of_char c :: nat) \<noteq> 0"
  by (auto simp: label_char_def)

lemma label_no_zero: "label_ok s \<Longrightarrow> 0 \<notin> set (utf8 s)"
proof
  assume ok: "label_ok s" and "0 \<in> set (utf8 s)"
  then obtain c where c: "c \<in> set s" "(word_of_nat (of_char c) :: byte) = 0"
    by (auto simp: utf8_def)
  then have "(of_char c :: nat) = 0" by (metis unat_char_byte unat_0)
  moreover have "label_char c" using c(1) label_ok_chars[OF ok] by (simp add: list_all_iff)
  ultimately show False using label_char_nonzero by simp
qed

lemma takeWhile_nonzero: "0 \<notin> set a \<Longrightarrow> takeWhile (\<lambda>w. w \<noteq> (0 :: byte)) (a @ 0 # xs) = a"
  by (induction a) auto

lemma append_zero_inj:
  assumes "0 \<notin> set a" "0 \<notin> set b" "a @ 0 # xs = b @ 0 # (ys :: bytes)"
  shows "a = b \<and> xs = ys"
proof -
  have "a = b" using takeWhile_nonzero[OF assms(1)] takeWhile_nonzero[OF assms(2)] assms(3) by metis
  with assms(3) show ?thesis by simp
qed

lemma transcript_shape_inj:
  assumes "transcript l ps = ok b" and "transcript l' ps' = ok b"
  shows "l = l' \<and> ps = ps'"
proof -
  note t = transcript_D[OF assms(1)] and t' = transcript_D[OF assms(2)]
  have "utf8 l @ 0 # (big_endian 4 (int (length ps)) @ concat (map framed_part ps)) =
      utf8 l' @ 0 # (big_endian 4 (int (length ps')) @ concat (map framed_part ps'))"
    using t t' by simp
  then have l: "utf8 l = utf8 l'" and
    r: "big_endian 4 (int (length ps)) @ concat (map framed_part ps) =
      big_endian 4 (int (length ps')) @ concat (map framed_part ps')"
    using append_zero_inj label_no_zero t t' by blast+
  then have "int (length ps) = int (length ps')"
    using big_endian_inj[of "int (length ps)" 4 "int (length ps')"] t t' by simp
  with r l show ?thesis using framed_parts_inj[of ps ps'] t t' by simp
qed

section \<open>Properties\<close>

text \<open>
  C1. A transcript determines its label and its parts: whenever two calls of \<open>transcript\<close>
  return the same bytes they were given the same label and the same list of parts, so no hash or
  signature made for one purpose (or with parts split differently) can be replayed for another.
\<close>

theorem transcript_injective:
  assumes "transcript l ps = ok b" and "transcript l' ps' = ok b"
  shows "l = l' \<and> ps = ps'"
  using assms by (rule transcript_shape_inj)

theorem transcript_injective_witness:
  "(\<exists>b. transcript ''awsm:vault-record-id:v1'' [[1, 2]] = ok b) \<and>
   transcript ''awsm:vault-record-id:v1'' [[1, 2]] \<noteq> transcript ''awsm:vault-record-id:v1'' [[1], [2]]"
proof -
  obtain b where b: "transcript ''awsm:vault-record-id:v1'' [[1, 2]] = ok b"
    by (simp add: transcript_def transcript_part_def label_ok_def label_char_def uint32be_def
        uint64be_def isSafeInteger_def)
  have "transcript ''awsm:vault-record-id:v1'' [[1], [2]] \<noteq> ok b"
    using transcript_injective[OF b, of "''awsm:vault-record-id:v1''" "[[1], [2]]"] by force
  with b show ?thesis by simp
qed

end
