(* ===== verification/Canonical_Value.thy ===== *)
theory Canonical_Value
  imports Transcript
begin

text \<open>
  Model of \<open>domain/canonical/value.ts\<close>: the restricted CBOR values every Vault Record, Object
  and checkpoint is made of, the validator \<open>assertCanonicalValue\<close>, the encoder and the strict
  decoder around the \<open>cborg\<close> package, canonical sets and canonical maps.
  Code outside the repository enters as fields of the record \<open>platform\<close>, an argument of
  every definition that uses it.
\<close>

section \<open>Values\<close>

text \<open>
  \<open>CanonicalMapKey\<close> and \<open>CanonicalValue\<close>, extended by what an \<open>unknown\<close> value
  can also be: \<open>CReal\<close>/\<open>KReal\<close> is a \<open>number\<close> with no integer value (a
  fraction, NaN or an infinity), \<open>COther\<close>/\<open>KOther\<close> anything of another type
  (\<open>undefined\<close>, a plain object, a function). Text is kept as UTF-8.
\<close>

datatype ckey = KNum int | KReal | KBigInt int | KText string | KOther

datatype cvalue =
    CNull
  | CBool bool
  | CNum int
  | CReal
  | CBigInt int
  | CText string
  | CBytes bytes
  | CArray "cvalue list"
  | CMap "(ckey \<times> cvalue) list"
  | COther

type_synonym cmap = "(ckey, cvalue) jmap"

text \<open>
  What the code calls outside the repository: \<open>cborg\<close>'s \<open>encode\<close> with
  \<open>rfc8949EncodeOptions\<close> and its strict \<open>decode\<close> (an error message on malformed input),
  \<open>sha256\<close> of \<open>@noble/hashes\<close>, Unicode normalisation, the WHATWG \<open>URL\<close> parser (the
  hash and the serialisation of a parsed URL) and libsodium's detached Ed25519 signatures.
\<close>

record platform =
  cbor_encode :: "cvalue \<Rightarrow> bytes"
  cbor_decode :: "bytes \<Rightarrow> string + cvalue"
  sha256 :: "bytes \<Rightarrow> bytes"
  nfc :: "string \<Rightarrow> string"
  parse_url :: "string \<Rightarrow> (string \<times> string) option"
  sign_detached :: "bytes \<Rightarrow> bytes \<Rightarrow> bytes"
  verify_detached :: "bytes \<Rightarrow> bytes \<Rightarrow> bytes \<Rightarrow> bool"

definition MIN_CBOR_INTEGER :: int where "MIN_CBOR_INTEGER = - (2 ^ 64)"
definition MAX_CBOR_INTEGER :: int where "MAX_CBOR_INTEGER = 2 ^ 64 - 1"

section \<open>Scoped keys\<close>

definition lower_letter :: "char \<Rightarrow> bool" where
  "lower_letter c = (97 \<le> (of_char c :: nat) \<and> (of_char c :: nat) \<le> 122)"

definition lower_alnum :: "char \<Rightarrow> bool" where
  "lower_alnum c = (lower_letter c \<or> (48 \<le> (of_char c :: nat) \<and> (of_char c :: nat) \<le> 57))"

definition key_separator :: "char \<Rightarrow> bool" where
  "key_separator c = (c = CHR ''.'' \<or> c = CHR ''_'' \<or> c = CHR ''-'')"

text \<open>\<open>/^[a-z](?:[a-z0-9]|[._-](?=[a-z0-9])){0,127}$/u\<close>\<close>

fun scoped_tail :: "string \<Rightarrow> bool" where
  "scoped_tail [] = True"
| "scoped_tail (c # cs) =
     ((lower_alnum c \<or> (key_separator c \<and> (case cs of [] \<Rightarrow> False | d # _ \<Rightarrow> lower_alnum d))) \<and>
      scoped_tail cs)"

definition SCOPED_KEY :: "string \<Rightarrow> bool" where
  "SCOPED_KEY s =
     (case s of [] \<Rightarrow> False | c # cs \<Rightarrow> lower_letter c \<and> length cs \<le> 127 \<and> scoped_tail cs)"

text \<open>\<open>String.prototype.includes\<close>\<close>

fun includes_text :: "string \<Rightarrow> string \<Rightarrow> bool" where
  "includes_text [] sub = (sub = [])"
| "includes_text (c # cs) sub = (take (length sub) (c # cs) = sub \<or> includes_text cs sub)"

definition assertCanonicalScopedKey :: "string \<Rightarrow> string res" where
  "assertCanonicalScopedKey value =
     (if \<not> SCOPED_KEY value \<or>
         \<not> includes_text value ''.'' \<or>
         includes_text value ''..'' \<or>
         includes_text value ''._'' \<or>
         includes_text value ''.-'' \<or>
         includes_text value ''_.'' \<or>
         includes_text value ''__'' \<or>
         includes_text value ''_-'' \<or>
         includes_text value ''-.'' \<or>
         includes_text value ''-_'' \<or>
         includes_text value ''--''
      then throw (CanonicalValueError ''Invalid canonical scoped key'')
      else ok value)"

section \<open>Validation\<close>

definition assertInteger :: "js_integer \<Rightarrow> string \<Rightarrow> unit res" where
  "assertInteger value field =
     (case value of
        JNumber n \<Rightarrow>
          (if \<not> isSafeInteger n
           then throw (CanonicalValueError (field @ '' must be a safe integer'')) else ok ())
      | JBigInt n \<Rightarrow>
          (if n < MIN_CBOR_INTEGER \<or> n > MAX_CBOR_INTEGER
           then throw (CanonicalValueError (field @ '' is outside the canonical 64-bit CBOR range''))
           else ok ()))"

definition unsignedKey :: "int \<Rightarrow> unit res" where
  "unsignedKey n =
     (if n < 0 then throw (CanonicalValueError ''Canonical numeric map keys must be unsigned'')
      else ok ())"

text \<open>A key that is a non-integral number fails \<open>Number.isSafeInteger\<close>.\<close>

fun assertMapKey :: "ckey \<Rightarrow> unit res" where
  "assertMapKey (KText s) = and_then (assertCanonicalScopedKey s) (\<lambda>_. ok ())"
| "assertMapKey (KNum n) = and_then (assertInteger (JNumber n) ''Map key'') (\<lambda>_. unsignedKey n)"
| "assertMapKey (KBigInt n) = and_then (assertInteger (JBigInt n) ''Map key'') (\<lambda>_. unsignedKey n)"
| "assertMapKey KReal = throw (CanonicalValueError ''Map key must be a safe integer'')"
| "assertMapKey KOther = throw (CanonicalValueError ''unsupported map key type'')"

fun key_str :: "ckey \<Rightarrow> string" where
  "key_str (KNum n) = int_str n"
| "key_str (KBigInt n) = int_str n"
| "key_str (KText s) = s"
| "key_str _ = []"

fun assertCanonicalValue :: "platform \<Rightarrow> string \<Rightarrow> cvalue \<Rightarrow> unit res"
  and assertElements :: "platform \<Rightarrow> string \<Rightarrow> nat \<Rightarrow> cvalue list \<Rightarrow> unit res"
  and assertEntries :: "platform \<Rightarrow> string \<Rightarrow> (ckey \<times> cvalue) list \<Rightarrow> unit res"
where
  "assertCanonicalValue P path CNull = ok ()"
| "assertCanonicalValue P path (CBool b) = ok ()"
| "assertCanonicalValue P path (CNum n) = assertInteger (JNumber n) path"
| "assertCanonicalValue P path CReal =
     throw (CanonicalValueError (path @ '' must be a safe integer''))"
| "assertCanonicalValue P path (CBigInt n) = assertInteger (JBigInt n) path"
| "assertCanonicalValue P path (CText s) =
     (if nfc P s \<noteq> s then throw (CanonicalValueError (path @ '' text must be Unicode NFC''))
      else ok ())"
| "assertCanonicalValue P path (CBytes bs) = ok ()"
| "assertCanonicalValue P path (CArray vs) = assertElements P path 0 vs"
| "assertCanonicalValue P path (CMap es) = assertEntries P path es"
| "assertCanonicalValue P path COther =
     throw (CanonicalValueError (path @ '' contains a prohibited canonical CBOR value''))"
| "assertElements P path i [] = ok ()"
| "assertElements P path i (v # vs) =
     and_then (assertCanonicalValue P (path @ ''['' @ nat_str i @ '']'') v) (\<lambda>_.
     assertElements P path (Suc i) vs)"
| "assertEntries P path [] = ok ()"
| "assertEntries P path ((k, v) # es) =
     (if k = KOther then throw (CanonicalValueError (path @ '' has an unsupported map key type''))
      else and_then (assertMapKey k) (\<lambda>_.
           and_then (assertCanonicalValue P (path @ ''['' @ key_str k @ '']'') v) (\<lambda>_.
           assertEntries P path es)))"

section \<open>Encoding and decoding\<close>

definition encodeCanonicalValue :: "platform \<Rightarrow> cvalue \<Rightarrow> bytes res" where
  "encodeCanonicalValue P value =
     and_then (assertCanonicalValue P ''value'' value) (\<lambda>_. ok (cbor_encode P value))"

definition decodeCanonicalValue :: "platform \<Rightarrow> bytes \<Rightarrow> cvalue res" where
  "decodeCanonicalValue P bs =
     (case cbor_decode P bs of
        Inl message \<Rightarrow>
          throw (CanonicalValueError (''Invalid restricted canonical CBOR: '' @ message))
      | Inr decoded \<Rightarrow>
          and_then (assertCanonicalValue P ''value'' decoded) (\<lambda>_.
          and_then (encodeCanonicalValue P decoded) (\<lambda>encoded.
          if \<not> bytesEqual bs encoded
          then throw (CanonicalValueError ''CBOR bytes are not in the one canonical representation'')
          else ok decoded)))"

section \<open>Canonical sets and maps\<close>

fun adjacentEqual :: "bytes list \<Rightarrow> bool" where
  "adjacentEqual (a # b # rest) = (bytesEqual a b \<or> adjacentEqual (b # rest))"
| "adjacentEqual _ = False"

definition canonicalSet :: "platform \<Rightarrow> cvalue list \<Rightarrow> cvalue list res" where
  "canonicalSet P values =
     and_then (traverse (\<lambda>value. and_then (encodeCanonicalValue P value) (\<lambda>b. ok (b, value))) values)
       (\<lambda>entries.
         let sorted_entries = sort_by (\<lambda>left right. compareBytes (fst left) (fst right)) entries
         in if adjacentEqual (map fst sorted_entries)
            then throw (CanonicalValueError ''Canonical set contains a duplicate value'')
            else ok (map snd sorted_entries))"

definition canonicalMap :: "(int \<times> cvalue) list \<Rightarrow> cmap res" where
  "canonicalMap entries =
     foldM (\<lambda>m (k, v).
       if \<not> isSafeInteger k \<or> k < 0 \<or> mapHas m (KNum k)
       then throw (CanonicalValueError ''Canonical map contains an invalid or duplicate numeric key'')
       else ok (mapSet m (KNum k) v)) [] entries"

section \<open>Which values are canonical\<close>

text \<open>The specification the validator is compared with.\<close>

fun canonical_key :: "ckey \<Rightarrow> bool" where
  "canonical_key (KNum n) = (0 \<le> n \<and> n \<le> 2 ^ 53 - 1)"
| "canonical_key (KBigInt n) = (0 \<le> n \<and> n \<le> 2 ^ 64 - 1)"
| "canonical_key (KText s) = (SCOPED_KEY s \<and> CHR ''.'' \<in> set s)"
| "canonical_key _ = False"

fun canonical :: "platform \<Rightarrow> cvalue \<Rightarrow> bool" where
  "canonical P (CNum n) = isSafeInteger n"
| "canonical P (CBigInt n) = (- (2 ^ 64) \<le> n \<and> n \<le> 2 ^ 64 - 1)"
| "canonical P (CText s) = (nfc P s = s)"
| "canonical P (CArray vs) = list_all (canonical P) vs"
| "canonical P (CMap es) = list_all (\<lambda>e. canonical_key (fst e) \<and> canonical P (snd e)) es"
| "canonical P CReal = False"
| "canonical P COther = False"
| "canonical P _ = True"

abbreviation canonical_all :: "platform \<Rightarrow> cvalue list \<Rightarrow> bool" where
  "canonical_all P vs \<equiv> list_all (canonical P) vs"

lemma includes_two:
  "includes_text s [a, b] \<longleftrightarrow> (\<exists>i. Suc i < length s \<and> s ! i = a \<and> s ! Suc i = b)"
proof (induction s)
  case (Cons c cs)
  have "take (length [a, b]) (c # cs) = [a, b] \<longleftrightarrow> cs \<noteq> [] \<and> c = a \<and> cs ! 0 = b"
    by (cases cs) auto
  moreover have "(\<exists>i. Suc i < length (c # cs) \<and> (c # cs) ! i = a \<and> (c # cs) ! Suc i = b) \<longleftrightarrow>
      (cs \<noteq> [] \<and> c = a \<and> cs ! 0 = b) \<or> (\<exists>i. Suc i < length cs \<and> cs ! i = a \<and> cs ! Suc i = b)"
    by (auto simp: less_Suc_eq_0_disj Ex_less_Suc2 split: nat.splits) (metis nth_Cons_0 nth_Cons_Suc
        Suc_less_eq length_greater_0_conv not0_implies_Suc)+
  ultimately show ?case using Cons by simp
qed simp

lemma includes_one: "includes_text s [c] \<longleftrightarrow> c \<in> set s"
  by (induction s) auto

lemma scoped_tail_separator:
  "scoped_tail s \<Longrightarrow> Suc i < length s \<Longrightarrow> key_separator (s ! i) \<Longrightarrow> lower_alnum (s ! Suc i)"
proof (induction s arbitrary: i)
  case (Cons c cs)
  then show ?case
    by (cases i; cases cs) (auto simp: lower_alnum_def lower_letter_def key_separator_def)
qed simp

lemma separator_not_alnum: "key_separator c \<Longrightarrow> \<not> lower_alnum c"
  by (auto simp: lower_alnum_def lower_letter_def key_separator_def)

lemma SCOPED_KEY_no_double:
  assumes "SCOPED_KEY s" "key_separator a" "key_separator b"
  shows "\<not> includes_text s [a, b]"
proof
  assume "includes_text s [a, b]"
  then obtain i where i: "Suc i < length s" "s ! i = a" "s ! Suc i = b"
    by (auto simp: includes_two)
  obtain c cs where s: "s = c # cs" "lower_letter c" "scoped_tail cs"
    using assms(1) by (auto simp: SCOPED_KEY_def split: list.splits)
  show False
  proof (cases i)
    case 0
    then have "lower_alnum a" using i s by (simp add: lower_alnum_def)
    then show False using assms(2) separator_not_alnum by blast
  next
    case (Suc j)
    then have "lower_alnum b" using i s assms(2) scoped_tail_separator[of cs j] by simp
    then show False using assms(3) separator_not_alnum by blast
  qed
qed

lemma assertCanonicalScopedKey_ok [res_simps]:
  "assertCanonicalScopedKey v = ok w \<longleftrightarrow> w = v \<and> SCOPED_KEY v \<and> CHR ''.'' \<in> set v"
proof -
  have "SCOPED_KEY v \<Longrightarrow> \<not> includes_text v [a, b]"
    if "a \<in> {CHR ''.'', CHR ''_'', CHR ''-''}" "b \<in> {CHR ''.'', CHR ''_'', CHR ''-''}" for a b
    using SCOPED_KEY_no_double[of v a b] that by (auto simp: key_separator_def)
  then show ?thesis
    by (auto simp: assertCanonicalScopedKey_def includes_one)
qed

lemma assertMapKey_ok: "assertMapKey k = ok u \<longleftrightarrow> canonical_key k"
  by (cases k)
    (auto simp: and_then_eq_Inr assertInteger_def unsignedKey_def isSafeInteger_def
      MIN_CBOR_INTEGER_def MAX_CBOR_INTEGER_def assertCanonicalScopedKey_ok)

lemma assertCanonicalValue_ok [res_simps]:
  "assertCanonicalValue P path v = ok u \<longleftrightarrow> canonical P v"
  "assertElements P path i vs = ok u \<longleftrightarrow> canonical_all P vs"
  "assertEntries P path es = ok u \<longleftrightarrow>
     list_all (\<lambda>e. canonical_key (fst e) \<and> canonical P (snd e)) es"
  by (induction P path v and P path i vs and P path es
      rule: assertCanonicalValue_assertElements_assertEntries.induct)
    (auto simp: and_then_eq_Inr assertInteger_def isSafeInteger_def MIN_CBOR_INTEGER_def
      MAX_CBOR_INTEGER_def assertMapKey_ok)

lemma encodeCanonicalValue_ok [res_simps]:
  "encodeCanonicalValue P v = ok b \<longleftrightarrow> canonical P v \<and> b = cbor_encode P v"
  by (auto simp: encodeCanonicalValue_def and_then_eq_Inr assertCanonicalValue_ok)

lemma decodeCanonicalValue_ok [res_simps]:
  "decodeCanonicalValue P bs = ok v \<longleftrightarrow>
     cbor_decode P bs = Inr v \<and> canonical P v \<and> cbor_encode P v = bs"
  by (auto simp: decodeCanonicalValue_def and_then_eq_Inr assertCanonicalValue_ok
      encodeCanonicalValue_ok split: sum.splits if_splits)

section \<open>Canonical sets\<close>

lemma sorted_adjacentEqual: "sorted xs \<Longrightarrow> adjacentEqual xs \<longleftrightarrow> \<not> distinct xs"
  by (induction xs rule: adjacentEqual.induct) auto

lemma traverse_encoded:
  "traverse (\<lambda>v. and_then (encodeCanonicalValue P v) (\<lambda>b. ok (b, v))) vs = ok es \<longleftrightarrow>
     canonical_all P vs \<and> es = map (\<lambda>v. (cbor_encode P v, v)) vs"
  by (induction vs arbitrary: es) (auto simp: and_then_eq_Inr encodeCanonicalValue_ok)

lemma sort_key_decorate: "sort_key fst (map (\<lambda>v. (f v, v)) vs) = map (\<lambda>v. (f v, v)) (sort_key f vs)"
proof (induction vs)
  case (Cons v vs)
  have "insort_key fst (f v, v) (map (\<lambda>v. (f v, v)) ws) = map (\<lambda>v. (f v, v)) (insort_key f v ws)" for ws
    by (induction ws) auto
  with Cons show ?case by simp
qed simp

lemma canonicalSet_ok [res_simps]:
  "canonicalSet P vs = ok ws \<longleftrightarrow>
     canonical_all P vs \<and> distinct (map (cbor_encode P) vs) \<and> ws = sort_key (cbor_encode P) vs"
proof -
  let ?f = "cbor_encode P" and ?es = "map (\<lambda>v. (cbor_encode P v, v)) vs"
  have sorted: "sort_by (\<lambda>l r. compareBytes (fst l) (fst r)) ?es = map (\<lambda>v. (?f v, v)) (sort_key ?f vs)"
    by (simp only: sort_compareBytes sort_key_decorate)
  have keys: "map fst (map (\<lambda>v. (?f v, v)) (sort_key ?f vs)) = map ?f (sort_key ?f vs)"
    by simp
  have "adjacentEqual (map ?f (sort_key ?f vs)) \<longleftrightarrow> \<not> distinct (map ?f (sort_key ?f vs))"
    by (rule sorted_adjacentEqual) simp
  also have "distinct (map ?f (sort_key ?f vs)) \<longleftrightarrow> distinct (map ?f vs)"
    by (metis mset_map mset_sort mset_eq_imp_distinct_iff)
  finally have "adjacentEqual (map ?f (sort_key ?f vs)) \<longleftrightarrow> \<not> distinct (map ?f vs)" .
  then show ?thesis
    unfolding canonicalSet_def and_then_eq_Inr traverse_encoded
    by (auto simp: Let_def sorted keys comp_def)
qed

lemma canonicalSet_strict:
  assumes "canonicalSet P vs = ok ws"
  shows "sorted_wrt (<) (map (cbor_encode P) ws)" and "mset ws = mset vs"
proof -
  have *: "distinct (map (cbor_encode P) vs)" and ws: "ws = sort_key (cbor_encode P) vs"
    using assms by (auto simp: canonicalSet_ok)
  have "distinct (map (cbor_encode P) ws)"
    unfolding ws using * by (metis mset_map mset_sort mset_eq_imp_distinct_iff)
  then show "sorted_wrt (<) (map (cbor_encode P) ws)"
    unfolding ws by (simp add: strict_sorted_iff)
  show "mset ws = mset vs" unfolding ws by simp
qed

section \<open>Canonical maps\<close>

lemma mapSet_fresh: "\<not> mapHas m k \<Longrightarrow> mapSet m k v = m @ [(k, v)]"
  by (induction m) auto

lemma canonicalMap_ok [res_simps]:
  "canonicalMap es = ok m \<longleftrightarrow>
     (\<forall>e \<in> set es. 0 \<le> fst e \<and> isSafeInteger (fst e)) \<and> distinct (map fst es) \<and>
     m = map (\<lambda>e. (KNum (fst e), snd e)) es"
proof -
  let ?step = "\<lambda>m (k, v). if \<not> isSafeInteger k \<or> k < 0 \<or> mapHas m (KNum k)
       then throw (CanonicalValueError ''Canonical map contains an invalid or duplicate numeric key'')
       else ok (mapSet m (KNum k) v)"
  have "foldM ?step acc es = ok m \<longleftrightarrow>
      (\<forall>e \<in> set es. 0 \<le> fst e \<and> isSafeInteger (fst e) \<and> \<not> mapHas acc (KNum (fst e))) \<and>
      distinct (map fst es) \<and> m = acc @ map (\<lambda>e. (KNum (fst e), snd e)) es" for acc
  proof (induction es arbitrary: acc)
    case (Cons e es)
    obtain k v where e: "e = (k, v)" by force
    show ?case
    proof (cases "\<not> isSafeInteger k \<or> k < 0 \<or> mapHas acc (KNum k)")
      case True
      then show ?thesis by (auto simp: e)
    next
      case False
      then have "mapSet acc (KNum k) v = acc @ [(KNum k, v)]" by (simp add: mapSet_fresh)
      with False Cons[of "acc @ [(KNum k, v)]"] show ?thesis
        by (auto simp: e mapHas_def image_iff)
    qed
  qed auto
  from this[of "[]"] show ?thesis by (simp add: canonicalMap_def)
qed

section \<open>A reference platform\<close>

text \<open>
  A concrete platform to evaluate the definitions on: the deterministic encoding of RFC 8949
  (section 4.2.1), which is what \<open>cborg\<close> documents for \<open>rfc8949EncodeOptions\<close>, text
  already in NFC, and simple stand-ins for hashing, signing and URL parsing. Lengths of \<open>2 ^ 64\<close> and
  more, which RFC 8949 cannot express, get a unary code. No theorem about the
  code depends on it; the witnesses instantiate the parameter with it.
\<close>

definition cbor_head :: "nat \<Rightarrow> nat \<Rightarrow> bytes" where
  "cbor_head major n =
     (let m = 32 * int major; v = int n
      in if n < 24 then [word_of_int (m + v)]
         else if n < 2 ^ 8 then word_of_int (m + 24) # big_endian 1 v
         else if n < 2 ^ 16 then word_of_int (m + 25) # big_endian 2 v
         else if n < 2 ^ 32 then word_of_int (m + 26) # big_endian 4 v
         else if n < 2 ^ 64 then word_of_int (m + 27) # big_endian 8 v
         else word_of_int (m + 28) # replicate n 1 @ [0])"

definition cbor_int :: "int \<Rightarrow> bytes" where
  "cbor_int n = (if 0 \<le> n then cbor_head 0 (nat n) else cbor_head 1 (nat (- 1 - n)))"

text \<open>The same on integers, so that evaluation does not count up a large number in unary.\<close>

definition int_head :: "int \<Rightarrow> int \<Rightarrow> bytes" where
  "int_head m v =
     (if v < 24 then [word_of_int (m + v)]
      else if v < 256 then word_of_int (m + 24) # big_endian 1 v
      else if v < 65536 then word_of_int (m + 25) # big_endian 2 v
      else if v < 4294967296 then word_of_int (m + 26) # big_endian 4 v
      else if v < 18446744073709551616 then word_of_int (m + 27) # big_endian 8 v
      else word_of_int (m + 28) # replicate (nat v) 1 @ [0])"

lemma cbor_int_code [code]: "cbor_int n = (if 0 \<le> n then int_head 0 n else int_head 32 (- 1 - n))"
  by (simp add: cbor_int_def cbor_head_def int_head_def Let_def nat_less_iff)

fun cbor_key :: "ckey \<Rightarrow> bytes" where
  "cbor_key (KNum n) = cbor_int n"
| "cbor_key (KBigInt n) = cbor_int n"
| "cbor_key (KText s) = cbor_head 3 (length s) @ utf8 s"
| "cbor_key _ = []"

fun cbor_reference :: "cvalue \<Rightarrow> bytes" where
  "cbor_reference CNull = [0xf6]"
| "cbor_reference (CBool b) = [if b then 0xf5 else 0xf4]"
| "cbor_reference (CNum n) = cbor_int n"
| "cbor_reference (CBigInt n) = cbor_int n"
| "cbor_reference (CText s) = cbor_head 3 (length s) @ utf8 s"
| "cbor_reference (CBytes bs) = cbor_head 2 (length bs) @ bs"
| "cbor_reference (CArray vs) = cbor_head 4 (length vs) @ concat (map cbor_reference vs)"
| "cbor_reference (CMap es) = cbor_head 5 (length es) @
     concat (map (\<lambda>e. fst e @ snd e)
       (sort_by (\<lambda>l r. compareBytes (fst l) (fst r))
         (map (\<lambda>e. (cbor_key (fst e), cbor_reference (snd e))) es)))"
| "cbor_reference _ = []"

definition ref_platform :: platform where
  "ref_platform =
     \<lparr>cbor_encode = cbor_reference,
      cbor_decode = (\<lambda>bs. if bs = [0x01] then Inr (CNum 1) else Inl ''unsupported''),
      sha256 = (\<lambda>bs. take 32 (bs @ replicate 32 1)),
      nfc = (\<lambda>s. s),
      parse_url = (\<lambda>s. Some ([], s)),
      sign_detached = (\<lambda>message key. take 64 (message @ replicate 64 0)),
      verify_detached = (\<lambda>signature message key. signature = take 64 (message @ replicate 64 0))\<rparr>"

lemma ref_platform_simps [simp]:
  "cbor_encode ref_platform = cbor_reference"
  "nfc ref_platform = (\<lambda>s. s)"
  "sha256 ref_platform = (\<lambda>bs. take 32 (bs @ replicate 32 1))"
  by (simp_all add: ref_platform_def)

section \<open>Properties\<close>

text \<open>
  C2. One canonical representation: a byte string that \<open>decodeCanonicalValue\<close> accepts is exactly
  the encoding of the value it returns, so two accepted byte strings that decode to the same
  value are equal, whatever the CBOR library does.
\<close>

theorem decode_one_representation:
  assumes "decodeCanonicalValue P b = ok v" and "decodeCanonicalValue P b' = ok v"
  shows "encodeCanonicalValue P v = ok b \<and> b = b'"
  using assms by (auto simp: res_simps)

theorem decode_one_representation_witness:
  "decodeCanonicalValue ref_platform [0x01] = ok (CNum 1) \<and>
   encodeCanonicalValue ref_platform (CNum 1) = ok [0x01]"
proof -
  have d: "decodeCanonicalValue ref_platform [0x01] = ok (CNum 1)"
    by (simp add: decodeCanonicalValue_ok isSafeInteger_def cbor_int_def cbor_head_def)
      (simp add: ref_platform_def)
  with decode_one_representation[OF d d] show ?thesis by simp
qed

text \<open>
  C3. \<open>canonicalSet\<close> is insensitive to the order of its input: any permutation of the values
  of a successful call gives the same list, which is strictly increasing in the encodings and
  holds exactly the given values.
\<close>

theorem canonicalSet_permutation:
  assumes "canonicalSet P xs = ok zs" and "mset xs = mset ys"
  shows "canonicalSet P ys = ok zs \<and> mset zs = mset ys \<and> sorted_wrt (<) (map (cbor_encode P) zs)"
proof -
  have xs: "canonical_all P xs" "distinct (map (cbor_encode P) xs)" "zs = sort_key (cbor_encode P) xs"
    using assms(1) by (auto simp: canonicalSet_ok)
  then have "sort_key (cbor_encode P) ys = zs"
    using sort_key_permutation[OF assms(2), of "cbor_encode P"] by (simp add: distinct_map)
  moreover have "distinct (map (cbor_encode P) ys)"
    using xs(2) assms(2) by (metis mset_map mset_eq_imp_distinct_iff)
  moreover have "canonical_all P ys"
    using xs(1) mset_eq_setD[OF assms(2)] by (simp add: list_all_iff)
  ultimately show ?thesis
    using canonicalSet_strict[OF assms(1)] assms(2) by (simp add: canonicalSet_ok)
qed

theorem canonicalSet_permutation_witness:
  "canonicalSet ref_platform [CNum 2, CNum 1] = ok [CNum 1, CNum 2] \<and>
   canonicalSet ref_platform [CNum 1, CNum 2] = ok [CNum 1, CNum 2]"
proof -
  have "canonicalSet ref_platform [CNum 2, CNum 1] = ok [CNum 1, CNum 2]"
    by (simp add: canonicalSet_ok isSafeInteger_def cbor_int_def cbor_head_def)
  with canonicalSet_permutation[of ref_platform "[CNum 2, CNum 1]" _ "[CNum 1, CNum 2]"]
  show ?thesis by simp
qed

text \<open>
  The validator accepts exactly the canonical values, on any path: integers in the safe or
  64-bit range, NFC text, byte strings, arrays and maps of such values whose keys are unsigned
  integers or scoped keys; the nine substring tests of \<open>assertCanonicalScopedKey\<close> add nothing
  to its regular expression.
\<close>

theorem assertCanonicalValue_correct:
  "(assertCanonicalValue P path v = ok () \<longleftrightarrow> canonical P v) \<and>
   (assertCanonicalScopedKey s = ok s \<longleftrightarrow> SCOPED_KEY s \<and> CHR ''.'' \<in> set s)"
  by (simp add: assertCanonicalValue_ok assertCanonicalScopedKey_ok)

end
