(* ===== verification/Causal_Graph.thy ===== *)
theory Causal_Graph
  imports Prelude
begin

text \<open>
  Model of the class \<open>CausalGraph\<close> of \<open>domain/canonical/reducers.ts\<close>: the parents of every
  known Vault Record and, for the causes summarised by a Baseline, the Baseline that stands for
  them. \<open>isAncestor\<close> is a depth-first search with a stack and a visited set; it is shown to
  compute reachability, and to be a strict partial order on every graph the operations can build.
  The locale \<open>causal_order\<close> is what the reducers rely on.
\<close>

section \<open>State and operations\<close>

record causal_graph =
  parents :: "(string, bytes list) jmap"
  baselineRootByCause :: "(string, string) jmap"

definition new_graph :: causal_graph where
  "new_graph = \<lparr>parents = [], baselineRootByCause = []\<rparr>"

definition parents_of :: "(string, bytes list) jmap \<Rightarrow> string \<Rightarrow> bytes list" where
  "parents_of ps k = (case mapGet ps k of None \<Rightarrow> [] | Some ids \<Rightarrow> ids)"

text \<open>Every identifier the search can meet: those pending and those named as a parent.\<close>

definition walk_universe :: "(string, bytes list) jmap \<Rightarrow> bytes list \<Rightarrow> string set" where
  "walk_universe ps pending = key ` (set pending \<union> (\<Union>ids \<in> set (mapValues ps). set ids))"

lemma parents_of_subset: "set (parents_of ps k) \<subseteq> (\<Union>ids \<in> set (mapValues ps). set ids)"
proof (cases "mapGet ps k")
  case (Some ids)
  then have "(k, ids) \<in> set ps" by (rule map_of_SomeD)
  then have "ids \<in> set (mapValues ps)" by force
  then show ?thesis using Some by (auto simp: parents_of_def)
qed (simp add: parents_of_def)

function walk :: "(string, bytes list) jmap \<Rightarrow> string \<Rightarrow> bytes list \<Rightarrow> string set \<Rightarrow> bool" where
  "walk ps target pending visited =
     (if pending = [] then False
      else
        let current = last pending; rest = butlast pending; currentKey = key current
        in if currentKey = target then True
           else if currentKey \<in> visited then walk ps target rest visited
           else walk ps target (rest @ parents_of ps currentKey) (insert currentKey visited))"
  by pat_completeness auto
termination
proof (relation "measures
    [\<lambda>(ps, target, pending, visited). card (walk_universe ps pending - visited),
     \<lambda>(ps, target, pending, visited). length pending]", goal_cases)
  case (2 ps target pending visited current rest currentKey)
  have fin: "finite (walk_universe ps pending - visited)" by (simp add: walk_universe_def)
  have "walk_universe ps rest - visited \<subseteq> walk_universe ps pending - visited"
    using 2 by (auto simp: walk_universe_def dest: in_set_butlastD)
  then have "card (walk_universe ps rest - visited) \<le> card (walk_universe ps pending - visited)"
    using fin by (rule card_mono[rotated])
  then show ?case using 2 by (auto simp: le_less)
next
  case (3 ps target pending visited current rest currentKey)
  have fin: "finite (walk_universe ps pending - visited)" by (simp add: walk_universe_def)
  have "walk_universe ps (rest @ parents_of ps currentKey) - insert currentKey visited
      \<subseteq> walk_universe ps pending - visited"
    using 3 parents_of_subset[of ps currentKey]
    by (auto simp: walk_universe_def dest: in_set_butlastD)
  moreover have "currentKey \<in> walk_universe ps pending - visited"
    using 3 by (simp add: walk_universe_def)
  ultimately have "walk_universe ps (rest @ parents_of ps currentKey) - insert currentKey visited
      \<subset> walk_universe ps pending - visited"
    by blast
  then show ?case using fin by (simp add: psubset_card_mono)
qed simp

declare walk.simps [simp del]

definition causal_target :: "causal_graph \<Rightarrow> bytes \<Rightarrow> string" where
  "causal_target g ancestorId =
     (case mapGet (baselineRootByCause g) (key ancestorId) of None \<Rightarrow> key ancestorId | Some root \<Rightarrow> root)"

definition isAncestor :: "causal_graph \<Rightarrow> bytes \<Rightarrow> bytes \<Rightarrow> bool" where
  "isAncestor g ancestorId descendantId =
     (if bytesEqual ancestorId descendantId then False
      else
        let target = causal_target g ancestorId
        in if target = key descendantId \<and> mapHas (baselineRootByCause g) (key ancestorId) then True
           else walk (parents g) target (parents_of (parents g) (key descendantId)) {})"

definition has_record :: "causal_graph \<Rightarrow> bytes \<Rightarrow> bool" where
  "has_record g recordId =
     (mapHas (parents g) (key recordId) \<or> mapHas (baselineRootByCause g) (key recordId))"

definition sameIdSet :: "bytes list \<Rightarrow> bytes list \<Rightarrow> bool" where
  "sameIdSet left right =
     (if length left \<noteq> length right then False
      else list_all (\<lambda>i. key i \<in> key ` set left) right)"

definition add_record :: "causal_graph \<Rightarrow> bytes \<Rightarrow> bytes list \<Rightarrow> causal_graph res" where
  "add_record g recordId parentRecordIds =
     (let recordKey = key recordId in
      if mapHas (baselineRootByCause g) recordKey
      then throw (TypeError ''A Record ID collides with a Baseline Cause ID'')
      else case mapGet (parents g) recordKey of
        Some existing \<Rightarrow>
          (if \<not> sameIdSet existing parentRecordIds
           then throw (TypeError ''One Record ID cannot claim two causal parent sets'')
           else ok g)
      | None \<Rightarrow>
          (if list_ex (\<lambda>parentId. bytesEqual parentId recordId \<or> isAncestor g recordId parentId)
                parentRecordIds
           then throw (TypeError ''A Record cannot create a causal cycle'')
           else ok (g\<lparr>parents := mapSet (parents g) recordKey parentRecordIds\<rparr>)))"

definition cause_collides :: "causal_graph \<Rightarrow> string \<Rightarrow> bytes \<Rightarrow> bool" where
  "cause_collides g baselineKey causeId =
     (key causeId = baselineKey \<or> mapHas (parents g) (key causeId) \<or>
      (mapHas (baselineRootByCause g) (key causeId) \<and>
       mapGet (baselineRootByCause g) (key causeId) \<noteq> Some baselineKey))"

definition addBaseline :: "causal_graph \<Rightarrow> bytes \<Rightarrow> bytes list \<Rightarrow> causal_graph res" where
  "addBaseline g baselineId causeIds =
     (let baselineKey = key baselineId in
      if length causeIds \<noteq> card (key ` set causeIds)
      then throw (TypeError ''A Baseline cannot repeat a Baseline Cause ID'')
      else if list_ex (cause_collides g baselineKey) causeIds
      then throw (TypeError ''A Baseline Cause ID collides with another causal identity'')
      else and_then (add_record g baselineId []) (\<lambda>g'.
           ok (g'\<lparr>baselineRootByCause :=
                foldl (\<lambda>m causeId. mapSet m (key causeId) baselineKey) (baselineRootByCause g') causeIds\<rparr>)))"

text \<open>A graph evolves by these two operations; a call that throws leaves it unchanged.\<close>

inductive graph_step :: "causal_graph \<Rightarrow> causal_graph \<Rightarrow> bool" where
  record_added: "add_record g r ps = ok g' \<Longrightarrow> graph_step g g'"
| baseline_added: "addBaseline g b cs = ok g' \<Longrightarrow> graph_step g g'"

inductive reachable_graph :: "causal_graph \<Rightarrow> bool" where
  start: "reachable_graph new_graph"
| step: "reachable_graph g \<Longrightarrow> graph_step g g' \<Longrightarrow> reachable_graph g'"

section \<open>The search computes reachability\<close>

definition parent_rel :: "causal_graph \<Rightarrow> (string \<times> string) set" where
  "parent_rel g = {(key p, k) | p k. p \<in> set (parents_of (parents g) k)}"

definition parent_edges :: "(string, bytes list) jmap \<Rightarrow> (string \<times> string) set" where
  "parent_edges ps = {(key p, k) | p k. p \<in> set (parents_of ps k)}"

lemma parent_rel_edges: "parent_rel g = parent_edges (parents g)"
  by (simp add: parent_rel_def parent_edges_def)

lemma walk_correct:
  assumes "\<forall>v \<in> visited. v \<noteq> target \<and> (\<forall>p. (p, v) \<in> parent_edges ps \<longrightarrow> p \<in> visited \<union> key ` set pending)"
  shows "walk ps target pending visited \<longleftrightarrow>
     (\<exists>k \<in> visited \<union> key ` set pending. (target, k) \<in> (parent_edges ps)\<^sup>*)"
  using assms
proof (induction ps target pending visited rule: walk.induct)
  case (1 ps target pending visited)
  show ?case
  proof (cases "pending = []")
    case True
    have "(target, k) \<notin> (parent_edges ps)\<^sup>*" if "k \<in> visited" for k
    proof
      assume "(target, k) \<in> (parent_edges ps)\<^sup>*"
      then have "target \<in> visited"
        using that by (induction rule: converse_rtrancl_induct) (use 1(3) True in auto)
      then show False using 1(3) by blast
    qed
    then show ?thesis using True by (auto simp: walk.simps)
  next
    case False
    let ?c = "key (last pending)" and ?rest = "butlast pending"
    have pend: "key ` set pending = insert ?c (key ` set ?rest)"
      using False by (metis append_butlast_last_id image_insert list.simps(15) rotate1.simps(2)
          set_rotate1 snoc_eq_iff_butlast)
    consider "?c = target" | "?c \<noteq> target" "?c \<in> visited" | "?c \<noteq> target" "?c \<notin> visited"
      by blast
    then show ?thesis
    proof cases
      case 1
      then show ?thesis using False pend by (auto simp: walk.simps)
    next
      case 2
      have "walk ps target ?rest visited \<longleftrightarrow>
          (\<exists>k \<in> visited \<union> key ` set ?rest. (target, k) \<in> (parent_edges ps)\<^sup>*)"
        using 1(1)[OF False refl refl refl] 2 1(3) pend by auto
      moreover have "walk ps target pending visited = walk ps target ?rest visited"
        using False 2 by (simp add: walk.simps[of ps target pending])
      ultimately show ?thesis using pend 2 by auto
    next
      case 3
      let ?pending' = "?rest @ parents_of ps ?c" and ?visited' = "insert ?c visited"
      have edges: "(p, ?c) \<in> parent_edges ps \<longleftrightarrow> p \<in> key ` set (parents_of ps ?c)" for p
        by (auto simp: parent_edges_def)
      have "walk ps target ?pending' ?visited' \<longleftrightarrow>
          (\<exists>k \<in> ?visited' \<union> key ` set ?pending'. (target, k) \<in> (parent_edges ps)\<^sup>*)"
        using 1(2)[OF False refl refl refl] 3 1(3) pend edges by fastforce
      moreover have "walk ps target pending visited = walk ps target ?pending' ?visited'"
        using False 3 by (simp add: walk.simps[of ps target pending] Let_def)
      moreover have "(\<exists>k \<in> key ` set (parents_of ps ?c). (target, k) \<in> (parent_edges ps)\<^sup>*) \<Longrightarrow>
          (target, ?c) \<in> (parent_edges ps)\<^sup>*"
        using edges by (meson rtrancl.rtrancl_into_rtrancl)
      ultimately show ?thesis using pend by auto
    qed
  qed
qed

lemma walk_from_start:
  "walk ps target (parents_of ps k) {} \<longleftrightarrow> (target, k) \<in> (parent_edges ps)\<^sup>+"
proof -
  have "walk ps target (parents_of ps k) {} \<longleftrightarrow>
      (\<exists>p \<in> key ` set (parents_of ps k). (target, p) \<in> (parent_edges ps)\<^sup>*)"
    using walk_correct[of "{}" target ps "parents_of ps k"] by simp
  also have "\<dots> \<longleftrightarrow> (\<exists>p. (target, p) \<in> (parent_edges ps)\<^sup>* \<and> (p, k) \<in> parent_edges ps)"
    by (auto simp: parent_edges_def)
  also have "\<dots> \<longleftrightarrow> (target, k) \<in> (parent_edges ps)\<^sup>+"
    by (auto intro: rtrancl_into_trancl1 dest: tranclD2)
  finally show ?thesis .
qed

lemma isAncestor_reach:
  "isAncestor g a d \<longleftrightarrow> a \<noteq> d \<and>
     (mapHas (baselineRootByCause g) (key a) \<and> causal_target g a = key d \<or>
      (causal_target g a, key d) \<in> (parent_rel g)\<^sup>+)"
  by (auto simp: isAncestor_def Let_def walk_from_start parent_rel_edges)

section \<open>The invariant of the operations\<close>

definition graph_inv :: "causal_graph \<Rightarrow> bool" where
  "graph_inv g \<longleftrightarrow> acyclic (parent_rel g) \<and>
     (\<forall>k r. mapGet (baselineRootByCause g) k = Some r \<longrightarrow>
        \<not> mapHas (parents g) k \<and> mapHas (parents g) r)"

lemma graph_inv_start: "graph_inv new_graph"
  by (auto simp: graph_inv_def new_graph_def parent_rel_def parents_of_def acyclic_def
      intro: wf_acyclic)

lemma rtrancl_from_sink:
  assumes "(r, y) \<in> (E \<union> A \<times> {r})\<^sup>*" shows "(r, y) \<in> E\<^sup>*"
  using assms by (induction rule: rtrancl_induct) (auto intro: rtrancl_into_rtrancl)

lemma trancl_into_sink:
  assumes "(x, y) \<in> (E \<union> A \<times> {r})\<^sup>+"
  shows "(x, y) \<in> E\<^sup>+ \<or> (\<exists>a \<in> A. (x, a) \<in> (E \<union> A \<times> {r})\<^sup>* \<and> (r, y) \<in> E\<^sup>*)"
  using assms
proof (induction rule: trancl_induct)
  case (step y z)
  show ?case
  proof (cases "(y, z) \<in> E")
    case True
    then show ?thesis using step.IH by (blast intro: trancl_into_trancl rtrancl_into_rtrancl)
  next
    case False
    then have "y \<in> A" "z = r" using step.hyps(2) by auto
    then show ?thesis using step.hyps(1) by (blast intro: trancl_into_rtrancl)
  qed
qed blast

lemma acyclic_into_sink:
  "acyclic (E \<union> A \<times> {r}) \<longleftrightarrow> acyclic E \<and> (\<forall>a \<in> A. (r, a) \<notin> E\<^sup>*)"
proof
  assume l: "acyclic (E \<union> A \<times> {r})"
  then have "acyclic E" by (rule acyclic_subset) simp
  moreover have "(r, a) \<notin> E\<^sup>*" if a: "a \<in> A" for a
  proof
    assume "(r, a) \<in> E\<^sup>*"
    then have "(r, a) \<in> (E \<union> A \<times> {r})\<^sup>*" by (rule rtrancl_mono[THEN subsetD, rotated]) simp
    then have "(r, r) \<in> (E \<union> A \<times> {r})\<^sup>+" using a by (auto intro: rtrancl_into_trancl1)
    then show False using l by (simp add: acyclic_def)
  qed
  ultimately show "acyclic E \<and> (\<forall>a \<in> A. (r, a) \<notin> E\<^sup>*)" by blast
next
  assume r: "acyclic E \<and> (\<forall>a \<in> A. (r, a) \<notin> E\<^sup>*)"
  show "acyclic (E \<union> A \<times> {r})"
    unfolding acyclic_def
  proof (intro allI notI)
    fix x assume c: "(x, x) \<in> (E \<union> A \<times> {r})\<^sup>+"
    have "(x, x) \<notin> E\<^sup>+" using r by (simp add: acyclic_def)
    then obtain a where a: "a \<in> A" "(x, a) \<in> (E \<union> A \<times> {r})\<^sup>*" "(r, x) \<in> E\<^sup>*"
      using trancl_into_sink[OF c] by blast
    have "(r, x) \<in> (E \<union> A \<times> {r})\<^sup>*"
      using a(3) by (rule rtrancl_mono[THEN subsetD, rotated]) simp
    then have "(r, a) \<in> (E \<union> A \<times> {r})\<^sup>*" using a(2) by (rule rtrancl_trans)
    then have "(r, a) \<in> E\<^sup>*" by (rule rtrancl_from_sink)
    then show False using r a(1) by simp
  qed
qed

lemma parent_rel_iff: "(x, k) \<in> parent_rel g \<longleftrightarrow> x \<in> key ` set (parents_of (parents g) k)"
  by (auto simp: parent_rel_def)

lemma parents_of_set: "parents_of (mapSet m r ps) k = (if k = r then ps else parents_of m k)"
  by (simp add: parents_of_def update_conv')

lemma parents_of_unknown: "\<not> mapHas m k \<Longrightarrow> parents_of m k = []"
  by (simp add: parents_of_def mapHas_iff)

lemma parent_rel_set:
  assumes "\<not> mapHas (parents g) (key r)"
  shows "parent_rel (g\<lparr>parents := mapSet (parents g) (key r) ps\<rparr>) =
     parent_rel g \<union> key ` set ps \<times> {key r}"
  using parents_of_unknown[OF assms]
  by (auto simp: parent_rel_iff parents_of_set split: if_splits)

lemma parent_rel_target: "(p, k) \<in> parent_rel g \<Longrightarrow> mapHas (parents g) k"
  using parents_of_unknown by (fastforce simp: parent_rel_iff)

lemma parent_path_target: "(p, k) \<in> (parent_rel g)\<^sup>+ \<Longrightarrow> mapHas (parents g) k"
  by (meson parent_rel_target tranclD2)

lemma not_cause_target: "\<not> mapHas (baselineRootByCause g) (key a) \<Longrightarrow> causal_target g a = key a"
  by (simp add: causal_target_def mapHas_iff)

lemma record_ancestor:
  assumes "\<not> mapHas (baselineRootByCause g) (key r)"
  shows "p = r \<or> isAncestor g r p \<longleftrightarrow> (key r, key p) \<in> (parent_rel g)\<^sup>*"
  using assms by (auto simp: isAncestor_reach not_cause_target rtrancl_eq_or_trancl)

lemma sameIdSet_Nil: "sameIdSet xs [] \<longleftrightarrow> xs = []"
  by (simp add: sameIdSet_def)

text \<open>What \<open>add\<close> does on each of its paths.\<close>

lemma add_record_fresh:
  assumes "\<not> has_record g r"
  shows "add_record g r ps =
     (if acyclic (parent_rel g) \<and> \<not> acyclic (parent_rel (g\<lparr>parents := mapSet (parents g) (key r) ps\<rparr>))
        \<or> \<not> acyclic (parent_rel g) \<and> (\<exists>p \<in> set ps. (key r, key p) \<in> (parent_rel g)\<^sup>*)
      then throw (TypeError ''A Record cannot create a causal cycle'')
      else ok (g\<lparr>parents := mapSet (parents g) (key r) ps\<rparr>))"
proof -
  have f: "\<not> mapHas (parents g) (key r)" "\<not> mapHas (baselineRootByCause g) (key r)"
    using assms by (auto simp: has_record_def)
  have e: "list_ex (\<lambda>p. bytesEqual p r \<or> isAncestor g r p) ps \<longleftrightarrow>
      (\<exists>p \<in> set ps. (key r, key p) \<in> (parent_rel g)\<^sup>*)"
    by (simp add: list_ex_iff record_ancestor[OF f(2)])
  have "add_record g r ps =
      (if \<exists>p \<in> set ps. (key r, key p) \<in> (parent_rel g)\<^sup>*
       then throw (TypeError ''A Record cannot create a causal cycle'')
       else ok (g\<lparr>parents := mapSet (parents g) (key r) ps\<rparr>))"
    using f by (simp only: add_record_def e Let_def) (simp add: mapHas_iff)
  then show ?thesis using f(1) by (auto simp: parent_rel_set acyclic_into_sink)
qed

lemma add_record_ok:
  assumes "add_record g r ps = ok g'"
  shows "\<not> mapHas (baselineRootByCause g) (key r)"
    "g' = g \<and> mapHas (parents g) (key r) \<or>
     \<not> has_record g r \<and> g' = g\<lparr>parents := mapSet (parents g) (key r) ps\<rparr>"
  using assms
  by (auto simp: add_record_def Let_def has_record_def mapHas_iff split: if_splits option.splits)

lemma graph_inv_add:
  assumes "graph_inv g" and "add_record g r ps = ok g'"
  shows "graph_inv g'"
  using add_record_ok(2)[OF assms(2)]
proof
  assume n: "\<not> has_record g r \<and> g' = g\<lparr>parents := mapSet (parents g) (key r) ps\<rparr>"
  then have "acyclic (parent_rel g')"
    using assms add_record_fresh[of g r ps] by (auto simp: graph_inv_def split: if_splits)
  moreover have "\<not> mapHas (baselineRootByCause g) (key r)" by (rule add_record_ok(1)[OF assms(2)])
  ultimately show ?thesis
    using assms(1) n by (auto simp: graph_inv_def mapHas_iff update_conv')
qed (use assms(1) in simp)

lemma foldl_set_causes:
  "mapGet (foldl (\<lambda>m c. mapSet m (key c) b) m cs) k = (if k \<in> key ` set cs then Some b else mapGet m k)"
  by (induction cs arbitrary: m) (auto simp: update_conv')

lemma add_record_has: "add_record g r ps = ok g' \<Longrightarrow>
    mapHas (parents g') k \<longleftrightarrow> mapHas (parents g) k \<or> k = key r"
  by (drule add_record_ok(2)) (auto simp: mapHas_iff update_conv' split: if_splits)

lemma add_record_roots: "add_record g r ps = ok g' \<Longrightarrow> baselineRootByCause g' = baselineRootByCause g"
  by (drule add_record_ok(2)) auto

lemma add_record_edges: "add_record g r ps = ok g' \<Longrightarrow> parent_rel g \<subseteq> parent_rel g'"
  by (drule add_record_ok(2)) (auto simp: has_record_def parent_rel_set)

lemma addBaseline_ok:
  assumes "addBaseline g b cs = ok g'"
  obtains h where "add_record g b [] = ok h" "\<forall>c \<in> set cs. \<not> cause_collides g (key b) c"
    "distinct cs" "parents g' = parents h"
    "\<And>k. mapGet (baselineRootByCause g') k =
       (if k \<in> key ` set cs then Some (key b) else mapGet (baselineRootByCause g) k)"
proof -
  obtain h where h: "add_record g b [] = ok h" "\<forall>c \<in> set cs. \<not> cause_collides g (key b) c"
    "length cs = card (key ` set cs)"
    "g' = h\<lparr>baselineRootByCause := foldl (\<lambda>m c. mapSet m (key c) (key b)) (baselineRootByCause h) cs\<rparr>"
    using assms
    by (auto simp: addBaseline_def Let_def and_then_eq_Inr list_ex_iff split: if_splits)
  moreover have "distinct cs"
    using h(3) by (metis card_distinct card_image inj_key inj_on_subset subset_UNIV)
  ultimately show thesis
    using that[of h] add_record_roots[OF h(1)] by (simp add: foldl_set_causes)
qed

lemma graph_inv_addBaseline:
  assumes "graph_inv g" and "addBaseline g b cs = ok g'"
  shows "graph_inv g'"
proof -
  obtain h where h: "add_record g b [] = ok h" "\<forall>c \<in> set cs. \<not> cause_collides g (key b) c"
    "distinct cs" "parents g' = parents h"
    and roots: "\<And>k. mapGet (baselineRootByCause g') k =
       (if k \<in> key ` set cs then Some (key b) else mapGet (baselineRootByCause g) k)"
    using addBaseline_ok[OF assms(2)] by blast
  have inv: "graph_inv h" using assms(1) h(1) by (rule graph_inv_add)
  have rel: "parent_rel g' = parent_rel h" using h(4) by (simp add: parent_rel_def)
  have known: "mapHas (parents g') k \<longleftrightarrow> mapHas (parents g) k \<or> k = key b" for k
    using add_record_has[OF h(1)] h(4) by simp
  have "\<not> mapHas (parents g') k \<and> mapHas (parents g') r"
    if "mapGet (baselineRootByCause g') k = Some r" for k r
  proof (cases "k \<in> key ` set cs")
    case True
    then show ?thesis using that h(2) roots[of k] known by (auto simp: cause_collides_def)
  next
    case False
    then have "mapGet (baselineRootByCause h) k = Some r"
      using that roots[of k] add_record_roots[OF h(1)] by simp
    then show ?thesis using inv h(4) by (simp add: graph_inv_def)
  qed
  then show ?thesis using inv rel by (auto simp: graph_inv_def)
qed

lemma reachable_graph_inv: "reachable_graph g \<Longrightarrow> graph_inv g"
proof (induction rule: reachable_graph.induct)
  case start
  then show ?case by (rule graph_inv_start)
next
  case (step g g')
  show ?case using step(2,3)
    by (cases rule: graph_step.cases) (auto intro: graph_inv_add graph_inv_addBaseline step.IH)
qed

section \<open>The causal order\<close>

text \<open>What the reducers rely on: happened-before is a strict partial order.\<close>

locale causal_order =
  fixes wf_graph :: "'g \<Rightarrow> bool" and before :: "'g \<Rightarrow> 'a \<Rightarrow> 'a \<Rightarrow> bool"
  assumes before_irrefl: "\<not> before g a a"
    and before_trans: "wf_graph g \<Longrightarrow> before g a b \<Longrightarrow> before g b c \<Longrightarrow> before g a c"
begin

lemma before_asym: "wf_graph g \<Longrightarrow> before g a b \<Longrightarrow> \<not> before g b a"
  using before_irrefl before_trans by blast

definition below :: "'g \<Rightarrow> 'a set \<Rightarrow> ('a \<times> 'a) set" where
  "below g S = {(b, a). a \<in> S \<and> b \<in> S \<and> before g a b}"

lemma wf_below:
  assumes "wf_graph g" and "finite S" shows "wf (below g S)"
proof (rule finite_acyclic_wf)
  show "finite (below g S)"
    by (rule finite_subset[of _ "S \<times> S"]) (auto simp: below_def assms(2))
  have "trans (below g S)" using before_trans[OF assms(1)] by (auto simp: below_def trans_def)
  then show "acyclic (below g S)" using before_irrefl by (auto simp: acyclic_def below_def)
qed

text \<open>Every element of a finite set is dominated by a maximal one.\<close>

lemma dominated:
  assumes "wf_graph g" and "finite S" and "a \<in> S"
  shows "\<exists>m \<in> S. (m = a \<or> before g a m) \<and> (\<forall>b \<in> S. \<not> before g m b)"
  using wf_below[OF assms(1,2)] assms(3)
proof (induction a rule: wf_induct_rule)
  case (less a)
  show ?case
  proof (cases "\<exists>b \<in> S. before g a b")
    case True
    then obtain b where b: "b \<in> S" "before g a b" by blast
    then obtain m where "m \<in> S" "m = b \<or> before g b m" "\<forall>c \<in> S. \<not> before g m c"
      using less.IH[of b] less.prems by (auto simp: below_def)
    then show ?thesis using b before_trans[OF assms(1)] by blast
  qed (use less.prems in blast)
qed

end

lemma ancestor_trans:
  assumes inv: "graph_inv g" and ab: "isAncestor g a b" and bc: "isAncestor g b c"
  shows "isAncestor g a c"
proof -
  have nb: "\<not> mapHas (baselineRootByCause g) (key b)"
  proof
    assume "mapHas (baselineRootByCause g) (key b)"
    then have "\<not> mapHas (parents g) (key b)" using inv by (auto simp: graph_inv_def mapHas_iff)
    moreover have "mapHas (parents g) (key b)"
      using ab inv parent_path_target
      by (auto simp: isAncestor_reach causal_target_def mapHas_iff graph_inv_def split: option.splits)
    ultimately show False by simp
  qed
  then have bc': "(key b, key c) \<in> (parent_rel g)\<^sup>+"
    using bc by (simp add: isAncestor_reach not_cause_target)
  have tb: "(causal_target g a, key b) \<in> (parent_rel g)\<^sup>*"
    using ab by (auto simp: isAncestor_reach)
  then have ac: "(causal_target g a, key c) \<in> (parent_rel g)\<^sup>+" using bc' by simp
  moreover have "a \<noteq> c"
  proof
    assume "a = c"
    then have "mapHas (parents g) (key a)" using bc' parent_path_target by blast
    then have "\<not> mapHas (baselineRootByCause g) (key a)"
      using inv by (metis graph_inv_def mapHas_iff not_None_eq)
    then have "(key a, key a) \<in> (parent_rel g)\<^sup>+" using ac \<open>a = c\<close> by (simp add: not_cause_target)
    then show False using inv by (simp add: graph_inv_def acyclic_def)
  qed
  ultimately show ?thesis by (simp add: isAncestor_reach)
qed

interpretation cg: causal_order graph_inv isAncestor
proof
  show "\<not> isAncestor g a a" for g a by (simp add: isAncestor_def)
qed (rule ancestor_trans)

lemma step_keeps_ancestor:
  assumes "graph_step g g'" and "has_record g a" and "isAncestor g a d"
  shows "isAncestor g' a d"
proof -
  have mono: "(x, y) \<in> (parent_rel g)\<^sup>+ \<Longrightarrow> parent_rel g \<subseteq> parent_rel g' \<Longrightarrow>
      (x, y) \<in> (parent_rel g')\<^sup>+" for x y
    using trancl_mono by blast
  show ?thesis using assms(1)
  proof cases
    case (record_added r ps)
    then show ?thesis
      using assms(3) mono add_record_edges[OF record_added] add_record_roots[OF record_added]
      by (auto simp: isAncestor_reach causal_target_def)
  next
    case (baseline_added b cs)
    obtain h where h: "add_record g b [] = ok h" "\<forall>c \<in> set cs. \<not> cause_collides g (key b) c"
      "parents g' = parents h"
      and roots: "\<And>k. mapGet (baselineRootByCause g') k =
         (if k \<in> key ` set cs then Some (key b) else mapGet (baselineRootByCause g) k)"
      using addBaseline_ok[OF baseline_added] by metis
    have "parent_rel g \<subseteq> parent_rel g'"
      using add_record_edges[OF h(1)] h(3) by (simp add: parent_rel_def)
    moreover have "mapGet (baselineRootByCause g') (key a) = mapGet (baselineRootByCause g) (key a)"
      using roots[of "key a"] h(2) assms(2) by (auto simp: has_record_def cause_collides_def mapHas_iff)
    ultimately show ?thesis
      using assms(3) mono by (auto simp: isAncestor_reach causal_target_def mapHas_iff)
  qed
qed

section \<open>Properties\<close>

text \<open>
  C7. the depth-first search of \<open>isAncestor\<close> computes reachability. For an identifier that is not
  a Baseline cause it answers exactly whether a non-empty chain of parent links leads from the
  descendant to it; a Baseline cause is a strict ancestor of its Baseline and of everything that
  descends from that Baseline.
\<close>

theorem isAncestor_is_reachability:
  "isAncestor g a d \<longleftrightarrow> a \<noteq> d \<and>
     (case mapGet (baselineRootByCause g) (key a) of
        None \<Rightarrow> (key a, key d) \<in> (parent_rel g)\<^sup>+
      | Some root \<Rightarrow> (root, key d) \<in> (parent_rel g)\<^sup>*)"
  by (auto simp: isAncestor_reach causal_target_def mapHas_iff rtrancl_eq_or_trancl
      split: option.splits)


text \<open>A diamond above a Baseline with two causes; the second parent set is added last.\<close>

definition demo_graph :: causal_graph where
  "demo_graph = \<lparr>parents = [(key [1], []), (key [2], [[1]]), (key [3], [[1]]), (key [4], [[2], [3]])],
     baselineRootByCause = [(key [8], key [1]), (key [9], key [1])]\<rparr>"

lemmas graph_eval = walk.simps isAncestor_def add_record_def addBaseline_def cause_collides_def
  causal_target_def parents_of_def sameIdSet_def new_graph_def Let_def mapHas_iff

lemma demo_graph_built:
  "and_then (addBaseline new_graph [1] [[8], [9]]) (\<lambda>g1.
   and_then (add_record g1 [2] [[1]]) (\<lambda>g2.
   and_then (add_record g2 [3] [[1]]) (\<lambda>g3. add_record g3 [4] [[2], [3]]))) = ok demo_graph"
  by (simp add: graph_eval demo_graph_def)

lemma demo_graph_reachable: "reachable_graph demo_graph"
  using demo_graph_built
  by (auto simp: and_then_eq_Inr dest!: baseline_added record_added) (meson reachable_graph.intros)


text \<open>
  C9. \<open>add\<close> accepts a Record it has not seen exactly when its parent links keep the history
  acyclic, and otherwise throws the cycle error.
\<close>

theorem add_accepts_iff_acyclic:
  assumes "reachable_graph g" and "\<not> has_record g r"
  shows "add_record g r ps =
    (if acyclic (parent_rel (g\<lparr>parents := mapSet (parents g) (key r) ps\<rparr>))
     then ok (g\<lparr>parents := mapSet (parents g) (key r) ps\<rparr>)
     else throw (TypeError ''A Record cannot create a causal cycle''))"
  using add_record_fresh[OF assms(2)] reachable_graph_inv[OF assms(1)] by (simp add: graph_inv_def)

theorem add_accepts_iff_acyclic_witness:
  "reachable_graph demo_graph \<and> \<not> has_record demo_graph [5] \<and>
   acyclic (parent_rel (demo_graph\<lparr>parents := mapSet (parents demo_graph) (key [5]) [[4]]\<rparr>))"
proof -
  have "\<not> has_record demo_graph [5]" by (simp add: has_record_def demo_graph_def)
  moreover have "\<exists>g'. add_record demo_graph [5] [[4]] = ok g'"
    by (simp add: graph_eval demo_graph_def)
  ultimately show ?thesis
    using demo_graph_reachable add_accepts_iff_acyclic[OF demo_graph_reachable, of "[5]" "[[4]]"]
    by (auto split: if_splits)
qed

end
