(* ===== verification/Reducers.thy ===== *)
theory Reducers
  imports Canonical_Value Causal_Graph "HOL-Library.Char_ord"
begin

text \<open>
  Model of the reducers of \<open>domain/canonical/reducers.ts\<close>: the table that gives every base Event
  its reduction strategy, the causal maxima of a set of facts, and the five reductions the
  projections share (causal scalar, additive union, observed remove, directed graph, Note heads).
  A reducer takes the facts in whatever order they were replayed, so its lemmas say which facts it
  keeps and that the order does not matter.
\<close>

section \<open>Strategies\<close>

datatype reduction_strategy =
    AdditiveUnion | CausalScalar | ObservedRemove | GraphValidation | NWayContent | Genesis
  | Membership | AdministratorRole | Invitation | ClientCredential | RecoveryCredential
  | KeyEpochStrategy | KeyDelivery | FeatureActivation | GenerationChoice | Closure

definition AUTHORITY_STRATEGIES :: "reduction_strategy list" where
  "AUTHORITY_STRATEGIES =
     [Genesis, Membership, AdministratorRole, AdministratorRole, Invitation, Invitation, Invitation,
      Invitation, ClientCredential, ClientCredential, RecoveryCredential, KeyEpochStrategy,
      KeyDelivery, FeatureActivation]"

definition CONTENT_STRATEGIES :: "reduction_strategy list" where
  "CONTENT_STRATEGIES =
     [CausalScalar, CausalScalar, AdditiveUnion, CausalScalar, CausalScalar, CausalScalar,
      CausalScalar, GraphValidation, GraphValidation, GraphValidation, CausalScalar, AdditiveUnion,
      CausalScalar, GraphValidation, CausalScalar, CausalScalar, GraphValidation, AdditiveUnion,
      CausalScalar, AdditiveUnion, ObservedRemove, CausalScalar, CausalScalar, GraphValidation,
      GraphValidation, GraphValidation, AdditiveUnion, NWayContent, NWayContent, NWayContent,
      NWayContent]"

definition LIFECYCLE_STRATEGIES :: "reduction_strategy list" where
  "LIFECYCLE_STRATEGIES = [GenerationChoice, Closure]"

text \<open>An index outside the array reads \<open>undefined\<close>.\<close>

definition array_at :: "'a list \<Rightarrow> int \<Rightarrow> 'a option" where
  "array_at xs i = (if 0 \<le> i \<and> nat i < length xs then Some (xs ! nat i) else None)"

definition reductionStrategy :: "nat \<Rightarrow> int \<Rightarrow> reduction_strategy res" where
  "reductionStrategy family type =
     (let strategy =
        (if family = 1 then array_at AUTHORITY_STRATEGIES (type - 1)
         else if family = 2 then array_at CONTENT_STRATEGIES (type - 1)
         else array_at LIFECYCLE_STRATEGIES (type - 1))
      in case strategy of
           None \<Rightarrow> throw (TypeError ''Unknown base Event family or type'')
         | Some s \<Rightarrow> ok s)"

section \<open>Causal maxima and the causal scalar\<close>

text \<open>The interface \<open>CausalFact\<close>: the type of facts with its \<open>causeId\<close> field.\<close>

definition index_fact ::
  "('f \<Rightarrow> bytes) \<Rightarrow> causal_graph \<Rightarrow> (string, 'f) jmap \<Rightarrow> 'f \<Rightarrow> (string, 'f) jmap res" where
  "index_fact causeId graph byId candidate =
     (let candidateKey = key (causeId candidate) in
      if mapHas byId candidateKey then throw (TypeError ''Reducer input repeats a Cause ID'')
      else if \<not> has_record graph (causeId candidate)
      then throw (TypeError ''Reducer input references an unknown Record'')
      else ok (mapSet byId candidateKey candidate))"

definition superseded :: "('f \<Rightarrow> bytes) \<Rightarrow> causal_graph \<Rightarrow> 'f list \<Rightarrow> 'f \<Rightarrow> bool" where
  "superseded causeId graph candidates candidate =
     list_ex (\<lambda>other. \<not> bytesEqual (causeId candidate) (causeId other) \<and>
                isAncestor graph (causeId candidate) (causeId other)) candidates"

definition causalMaxima :: "('f \<Rightarrow> bytes) \<Rightarrow> 'f list \<Rightarrow> causal_graph \<Rightarrow> 'f list res" where
  "causalMaxima causeId candidates graph =
     and_then (foldM (index_fact causeId graph) [] candidates) (\<lambda>_.
       ok (filter (\<lambda>candidate. \<not> superseded causeId graph candidates candidate) candidates))"

record 'v causal_candidate =
  cc_causeId :: bytes
  cc_value :: 'v

definition first_of :: "'a list \<Rightarrow> 'a option" where
  "first_of xs = (case xs of [] \<Rightarrow> None | x # _ \<Rightarrow> Some x)"

definition reduceCausalScalar ::
  "('v, 'x) causal_candidate_scheme list \<Rightarrow> causal_graph \<Rightarrow> ('v, 'x) causal_candidate_scheme option res" where
  "reduceCausalScalar candidates graph =
     (if length candidates = 0 then ok None
      else and_then (causalMaxima cc_causeId candidates graph) (\<lambda>maxima.
        ok (first_of (sort_by (\<lambda>left right. compareIds (cc_causeId left) (cc_causeId right)) maxima))))"

section \<open>Additive union\<close>

record additive_fact =
  af_entityId :: bytes
  af_causeId :: bytes
  authenticatedValue :: cvalue

record additive_collision =
  ac_entityId :: bytes
  ac_candidates :: "additive_fact list"

record additive_union_result =
  au_facts :: "additive_fact list"
  au_collisions :: "additive_collision list"

text \<open>\<open>map.set(k, [...(map.get(k) ?? []), x])\<close>, the grouping loop that several functions repeat.\<close>

definition group_push :: "('a \<Rightarrow> string) \<Rightarrow> (string, 'a list) jmap \<Rightarrow> 'a \<Rightarrow> (string, 'a list) jmap" where
  "group_push f m x =
     mapSet m (f x) ((case mapGet m (f x) of None \<Rightarrow> [] | Some entries \<Rightarrow> entries) @ [x])"

definition group_by :: "('a \<Rightarrow> string) \<Rightarrow> 'a list \<Rightarrow> (string, 'a list) jmap" where
  "group_by f xs = foldl (group_push f) [] xs"

text \<open>\<open>every\<close> with a callback that may throw stops at the first false answer.\<close>

primrec everyM :: "('a \<Rightarrow> bool res) \<Rightarrow> 'a list \<Rightarrow> bool res" where
  "everyM f [] = ok True"
| "everyM f (x # xs) = and_then (f x) (\<lambda>b. if b then everyM f xs else ok False)"

definition union_entries ::
  "platform \<Rightarrow> additive_fact list \<times> additive_collision list \<Rightarrow> additive_fact list
     \<Rightarrow> (additive_fact list \<times> additive_collision list) res" where
  "union_entries P state entries =
     (let first = hd entries; accepted = fst state; collisions = snd state in
      and_then (encodeCanonicalValue P (authenticatedValue first)) (\<lambda>firstBytes.
      and_then (everyM (\<lambda>entry.
           and_then (encodeCanonicalValue P (authenticatedValue entry)) (\<lambda>entryBytes.
             ok (bytesEqual firstBytes entryBytes))) entries) (\<lambda>same.
        if same then ok (accepted @ [first], collisions)
        else ok (accepted,
          collisions @ [\<lparr>ac_entityId = af_entityId first, ac_candidates = entries\<rparr>]))))"

definition reduceAdditiveUnion :: "platform \<Rightarrow> additive_fact list \<Rightarrow> additive_union_result res" where
  "reduceAdditiveUnion P facts =
     (let grouped = group_by (\<lambda>fact. key (af_entityId fact)) facts in
      and_then (foldM (union_entries P) ([], []) (mapValues grouped)) (\<lambda>(accepted, collisions).
        ok \<lparr>au_facts = sort_by (\<lambda>l r. compareIds (af_entityId l) (af_entityId r)) accepted,
            au_collisions = sort_by (\<lambda>l r. compareIds (ac_entityId l) (ac_entityId r)) collisions\<rparr>))"

section \<open>Observed remove\<close>

record 'v observed_assignment = "'v causal_candidate" +
  oa_relationKey :: string

record observed_removal =
  rm_causeId :: bytes
  rm_relationKey :: string
  observedAssignmentCauseIds :: "bytes list"

text \<open>
  \<open>prior !== removal\<close> compares object identities; the removals of one input are distinct objects,
  so a removal is identified by its position.
\<close>

definition already_inactive ::
  "causal_graph \<Rightarrow> observed_removal list \<Rightarrow> nat \<Rightarrow> observed_removal \<Rightarrow> bytes \<Rightarrow> bool" where
  "already_inactive graph removals i removal assignmentId =
     list_ex (\<lambda>(j, prior). j \<noteq> i \<and> isAncestor graph (rm_causeId prior) (rm_causeId removal) \<and>
         list_ex (\<lambda>k. bytesEqual k assignmentId) (observedAssignmentCauseIds prior))
       (enumerate 0 removals)"

definition remove_one ::
  "(string, 'v observed_assignment) jmap \<Rightarrow> observed_removal list \<Rightarrow> causal_graph \<Rightarrow> nat \<Rightarrow> observed_removal
     \<Rightarrow> string list \<times> string list \<Rightarrow> bytes \<Rightarrow> (string list \<times> string list) res" where
  "remove_one assignmentsById removals graph i removal state assignmentId =
     (let assignmentKey = key assignmentId; seen = fst state; removed = snd state in
      if assignmentKey \<in> set seen
      then throw (TypeError ''Observed removal repeats an assignment fact'')
      else case mapGet assignmentsById assignmentKey of
        None \<Rightarrow> throw (TypeError ''Observed removal names a fact outside its exact relation'')
      | Some assignment \<Rightarrow>
          if oa_relationKey assignment \<noteq> rm_relationKey removal
          then throw (TypeError ''Observed removal names a fact outside its exact relation'')
          else if \<not> isAncestor graph (cc_causeId assignment) (rm_causeId removal)
          then throw (TypeError ''Observed removal names an assignment it did not causally observe'')
          else if already_inactive graph removals i removal (cc_causeId assignment)
          then throw (TypeError ''Observed removal names an already inactive assignment fact'')
          else ok (assignmentKey # seen, assignmentKey # removed))"

definition apply_removal ::
  "(string, 'v observed_assignment) jmap \<Rightarrow> observed_removal list \<Rightarrow> causal_graph
     \<Rightarrow> string list \<Rightarrow> nat \<times> observed_removal \<Rightarrow> string list res" where
  "apply_removal assignmentsById removals graph removed entry =
     (let i = fst entry; removal = snd entry in
      if \<not> has_record graph (rm_causeId removal)
      then throw (TypeError ''Observed removal references an unknown Record'')
      else if length (observedAssignmentCauseIds removal) = 0
      then throw (TypeError ''Observed removal must name at least one assignment fact'')
      else and_then (foldM (remove_one assignmentsById removals graph i removal) ([], removed)
              (observedAssignmentCauseIds removal)) (\<lambda>state. ok (snd state)))"

definition reduceObservedRemove ::
  "'v observed_assignment list \<Rightarrow> observed_removal list \<Rightarrow> causal_graph \<Rightarrow> 'v observed_assignment list res" where
  "reduceObservedRemove assignments removals graph =
     (let assignmentsById = mapFrom (map (\<lambda>a. (key (cc_causeId a), a)) assignments) in
      and_then (foldM (apply_removal assignmentsById removals graph) [] (enumerate 0 removals)) (\<lambda>removed.
        ok (filter (\<lambda>a. key (cc_causeId a) \<notin> set removed) assignments)))"

section \<open>Directed graphs\<close>

record directed_edge =
  sourceId :: bytes
  destinationId :: bytes
  de_causeId :: bytes

datatype conflict_kind = Cycle | MultipleDestinations

record graph_conflict =
  subjectIds :: "bytes list"
  gc_candidates :: "directed_edge list"
  gc_kind :: conflict_kind

record directed_graph_reduction =
  dg_edges :: "directed_edge list"
  dg_conflicts :: "graph_conflict list"

definition push_edge ::
  "causal_graph \<Rightarrow> (string, directed_edge list) jmap \<Rightarrow> directed_edge
     \<Rightarrow> (string, directed_edge list) jmap res" where
  "push_edge graph bySource candidate =
     (if \<not> has_record graph (de_causeId candidate)
      then throw (TypeError ''Graph edge references an unknown Record'')
      else ok (group_push (\<lambda>e. key (sourceId e)) bySource candidate))"

definition select_edge ::
  "causal_graph \<Rightarrow> directed_edge list \<times> graph_conflict list \<Rightarrow> directed_edge list
     \<Rightarrow> (directed_edge list \<times> graph_conflict list) res" where
  "select_edge graph state entries =
     (let effective = fst state; conflicts = snd state in
      and_then (causalMaxima de_causeId entries graph) (\<lambda>maxima.
        let byDestination = group_by (\<lambda>e. key (destinationId e)) maxima in
        if length byDestination > 1
        then ok (effective,
          conflicts @ [\<lparr>subjectIds = [case entries of [] \<Rightarrow> [] | e # _ \<Rightarrow> sourceId e],
                        gc_candidates = maxima, gc_kind = MultipleDestinations\<rparr>])
        else case first_of (sort_by (\<lambda>l r. compareIds (de_causeId l) (de_causeId r)) maxima) of
               None \<Rightarrow> ok (effective, conflicts)
             | Some selected \<Rightarrow> ok (effective @ [selected], conflicts)))"

function follow ::
  "(string, directed_edge) jmap \<Rightarrow> directed_edge list \<Rightarrow> (string, nat) jmap \<Rightarrow> directed_edge
     \<Rightarrow> directed_edge list option" where
  "follow edgeBySource path positions current =
     (let sourceKey = key (sourceId current) in
      case mapGet positions sourceKey of
        Some position \<Rightarrow> Some (drop position path)
      | None \<Rightarrow>
          (case mapGet edgeBySource (key (destinationId current)) of
             None \<Rightarrow> None
           | Some nxt \<Rightarrow>
               follow edgeBySource (path @ [current]) (mapSet positions sourceKey (length path)) nxt))"
  by pat_completeness auto
termination
proof (relation "measure (\<lambda>(es, path, positions, current).
    card (insert (key (sourceId current)) ((\<lambda>e. key (sourceId e)) ` set (mapValues es))
      - set (mapKeys positions)))", goal_cases)
  case (2 es path positions current sourceKey nxt)
  let ?V = "(\<lambda>e. key (sourceId e)) ` set (mapValues es)"
  have k: "sourceKey \<notin> set (mapKeys positions)" using 2(2) by (simp add: map_of_eq_None_iff)
  have "nxt \<in> set (mapValues es)" using map_of_SomeD[OF 2(3)] by force
  then have "insert (key (sourceId nxt)) ?V = ?V" by auto
  moreover have "set (mapKeys (mapSet positions sourceKey (length path))) =
      insert sourceKey (set (mapKeys positions))"
    by (auto simp: mapKeys_mapSet simp del: set_map)
  moreover have "?V - insert sourceKey (set (mapKeys positions)) \<subset>
      insert sourceKey ?V - set (mapKeys positions)"
    using k by blast
  ultimately show ?case
    using 2(1) by (simp del: set_map) (rule psubset_card_mono, simp_all)
qed simp

declare follow.simps [simp del]

definition join :: "string \<Rightarrow> string list \<Rightarrow> string" where
  "join separator parts =
     (case parts of [] \<Rightarrow> [] | p # ps \<Rightarrow> foldl (\<lambda>acc s. acc @ separator @ s) p ps)"

definition cycle_key :: "directed_edge list \<Rightarrow> string" where
  "cycle_key cyc = join '':'' (sort (map (\<lambda>e. key (sourceId e)) cyc))"

definition find_cycle ::
  "(string, directed_edge) jmap \<Rightarrow> string set \<times> graph_conflict list \<Rightarrow> directed_edge
     \<Rightarrow> string set \<times> graph_conflict list" where
  "find_cycle edgeBySource state edge =
     (case follow edgeBySource [] [] edge of
        None \<Rightarrow> state
      | Some cyc \<Rightarrow>
          if cycle_key cyc \<notin> fst state
          then (insert (cycle_key cyc) (fst state),
                snd state @ [\<lparr>subjectIds = map sourceId cyc, gc_candidates = cyc, gc_kind = Cycle\<rparr>])
          else state)"

definition conflicted_causes :: "graph_conflict list \<Rightarrow> string set" where
  "conflicted_causes conflicts = key ` de_causeId ` set (concat (map gc_candidates conflicts))"

definition reduceDirectedGraph ::
  "directed_edge list \<Rightarrow> causal_graph \<Rightarrow> directed_graph_reduction res" where
  "reduceDirectedGraph candidates graph =
     and_then (foldM (push_edge graph) [] candidates) (\<lambda>bySource.
     and_then (foldM (select_edge graph) ([], []) (mapValues bySource)) (\<lambda>(effective, selections).
       let edgeBySource = mapFrom (map (\<lambda>e. (key (sourceId e), e)) effective);
           conflicts = snd (foldl (find_cycle edgeBySource) ({}, selections) effective);
           conflictedCauses = conflicted_causes conflicts
       in ok \<lparr>dg_edges = filter (\<lambda>e. key (de_causeId e) \<notin> conflictedCauses) effective,
              dg_conflicts = conflicts\<rparr>))"

section \<open>Note heads\<close>

datatype note_head_kind = Revision | Deletion

record note_head = "bytes option causal_candidate" +
  nh_kind :: note_head_kind

datatype note_reduction =
    NoteAbsent
  | NoteActive note_head
  | NoteDeleted "note_head list"
  | NoteConflict "note_head list"

definition reduceNoteHeads :: "note_head list \<Rightarrow> causal_graph \<Rightarrow> note_reduction res" where
  "reduceNoteHeads candidates graph =
     (if length candidates = 0 then ok NoteAbsent
      else and_then (causalMaxima cc_causeId candidates graph) (\<lambda>unsorted.
        let maxima = sort_by (\<lambda>l r. compareIds (cc_causeId l) (cc_causeId r)) unsorted in
        if list_all (\<lambda>h. nh_kind h = Deletion) maxima then ok (NoteDeleted maxima)
        else if length maxima = 1 then ok (NoteActive (maxima ! 0))
        else ok (NoteConflict maxima)))"

section \<open>Which facts are maximal\<close>

lemma index_facts_ok:
  "(\<exists>m'. foldM (index_fact cid g) m xs = ok m') \<longleftrightarrow>
     distinct (map cid xs) \<and> (\<forall>x \<in> set xs. has_record g (cid x) \<and> \<not> mapHas m (key (cid x)))"
proof (induction xs arbitrary: m)
  case (Cons x xs)
  have "mapHas (mapSet m (key (cid x)) x) k \<longleftrightarrow> k = key (cid x) \<or> mapHas m k" for k
    by (auto simp: mapHas_iff update_conv')
  note has = this
  have step: "foldM (index_fact cid g) m (x # xs) =
      (if mapHas m (key (cid x)) \<or> \<not> has_record g (cid x) then
         throw (if mapHas m (key (cid x)) then TypeError ''Reducer input repeats a Cause ID''
                else TypeError ''Reducer input references an unknown Record'')
       else foldM (index_fact cid g) (mapSet m (key (cid x)) x) xs)"
    by (simp add: index_fact_def)
  show ?case
    unfolding step using Cons.IH[of "mapSet m (key (cid x)) x"] has
    by (simp add: image_iff) metis
qed simp

definition facts_ok :: "('f \<Rightarrow> bytes) \<Rightarrow> causal_graph \<Rightarrow> 'f list \<Rightarrow> bool" where
  "facts_ok cid g cs = (distinct (map cid cs) \<and> list_all (\<lambda>c. has_record g (cid c)) cs)"

definition maximal :: "('f \<Rightarrow> bytes) \<Rightarrow> causal_graph \<Rightarrow> 'f set \<Rightarrow> 'f \<Rightarrow> bool" where
  "maximal cid g S c \<longleftrightarrow> c \<in> S \<and> (\<forall>other \<in> S. \<not> isAncestor g (cid c) (cid other))"

lemma ancestor_neq: "isAncestor g a b \<Longrightarrow> a \<noteq> b"
  using cg.before_irrefl by blast

lemma superseded_iff: "superseded cid g cs c \<longleftrightarrow> (\<exists>other \<in> set cs. isAncestor g (cid c) (cid other))"
  by (auto simp: superseded_def list_ex_iff dest: ancestor_neq)

lemma causalMaxima_ok:
  "causalMaxima cid cs g = ok ms \<longleftrightarrow> facts_ok cid g cs \<and> ms = filter (maximal cid g (set cs)) cs"
proof -
  have "filter (\<lambda>c. \<not> superseded cid g cs c) cs = filter (maximal cid g (set cs)) cs"
    by (rule filter_cong) (auto simp: superseded_iff maximal_def)
  then show ?thesis
    using index_facts_ok[of cid g "[]" cs]
    by (auto simp: causalMaxima_def and_then_eq_Inr facts_ok_def list_all_iff)
qed

lemma facts_ok_inj: "facts_ok cid g cs \<Longrightarrow> inj_on cid (set cs)"
  by (simp add: facts_ok_def distinct_map)

lemma facts_ok_mset: "mset cs = mset cs' \<Longrightarrow> facts_ok cid g cs = facts_ok cid g cs'"
  unfolding facts_ok_def
  by (metis list_all_iff mset_eq_imp_distinct_iff mset_eq_setD mset_map)

lemma dominated_by_maximal:
  assumes "graph_inv g" and "c \<in> S" and "finite S"
  shows "\<exists>m. maximal cid g S m \<and> (cid m = cid c \<or> isAncestor g (cid c) (cid m))"
proof -
  obtain k where "k \<in> cid ` S" "k = cid c \<or> isAncestor g (cid c) k"
    "\<forall>b \<in> cid ` S. \<not> isAncestor g k b"
    using cg.dominated[OF assms(1), of "cid ` S" "cid c"] assms(2,3) by blast
  then show ?thesis by (auto simp: maximal_def)
qed

text \<open>The maxima sorted by identifier, the order in which the reducers read them.\<close>

definition sorted_maxima :: "('f \<Rightarrow> bytes) \<Rightarrow> causal_graph \<Rightarrow> 'f list \<Rightarrow> 'f list" where
  "sorted_maxima cid g cs =
     sort_by (\<lambda>l r. compareIds (cid l) (cid r)) (filter (maximal cid g (set cs)) cs)"

lemma set_sorted_maxima: "set (sorted_maxima cid g cs) = {c. maximal cid g (set cs) c}"
  by (auto simp: sorted_maxima_def maximal_def)

lemma sorted_maxima_permutation:
  assumes "mset cs = mset cs'" and "facts_ok cid g cs" and "list_all (\<lambda>c. id32 (cid c)) cs"
  shows "sorted_maxima cid g cs = sorted_maxima cid g cs'"
proof -
  have "set cs = set cs'" using assms(1) by (rule mset_eq_setD)
  then have "mset (filter (maximal cid g (set cs)) cs) = mset (filter (maximal cid g (set cs')) cs')"
    using assms(1) by (simp add: mset_filter)
  moreover have "inj_on cid (set (filter (maximal cid g (set cs)) cs))"
    using facts_ok_inj[OF assms(2)] by (rule inj_on_subset) auto
  ultimately show ?thesis
    unfolding sorted_maxima_def
    using assms(3) by (intro comparator_order.sort_by_permutation[OF compareIds_on]) (auto simp: list_all_iff)
qed

lemma sorted_maxima_head:
  assumes "list_all (\<lambda>c. id32 (cid c)) cs" and "sorted_maxima cid g cs = w # ws"
  shows "maximal cid g (set cs) w" and "maximal cid g (set cs) c \<Longrightarrow> cid w \<le> cid c"
proof -
  show "maximal cid g (set cs) w" using set_sorted_maxima[of cid g cs] assms(2) by auto
  show "cid w \<le> cid c" if "maximal cid g (set cs) c"
    using comparator_order.hd_sort_by_least[OF compareIds_on, of "filter (maximal cid g (set cs)) cs" cid c]
      assms that by (auto simp: sorted_maxima_def list_all_iff maximal_def)
qed

lemma sorted_maxima_nonempty:
  assumes "graph_inv g" and "cs \<noteq> []" shows "sorted_maxima cid g cs \<noteq> []"
  using dominated_by_maximal[OF assms(1), of "hd cs" "set cs" cid] assms(2)
    set_sorted_maxima[of cid g cs] by (metis Collect_empty_eq hd_in_set List.finite_set set_empty)

lemma reduceCausalScalar_eq:
  "reduceCausalScalar cs g = ok r \<longleftrightarrow>
     facts_ok cc_causeId g cs \<and> r = first_of (sorted_maxima cc_causeId g cs)"
proof (cases cs)
  case Nil
  then show ?thesis
    by (auto simp: reduceCausalScalar_def facts_ok_def sorted_maxima_def first_of_def)
qed (auto simp: reduceCausalScalar_def and_then_eq_Inr causalMaxima_ok sorted_maxima_def)

lemma reduceNoteHeads_eq:
  assumes "cs \<noteq> []"
  shows "reduceNoteHeads cs g = ok r \<longleftrightarrow> facts_ok cc_causeId g cs \<and>
     r = (let ms = sorted_maxima cc_causeId g cs in
          if list_all (\<lambda>h. nh_kind h = Deletion) ms then NoteDeleted ms
          else if length ms = 1 then NoteActive (ms ! 0) else NoteConflict ms)"
  using assms
  by (auto simp: reduceNoteHeads_def and_then_eq_Inr causalMaxima_ok sorted_maxima_def Let_def)

definition note_state :: "note_head list \<Rightarrow> note_reduction" where
  "note_state ms =
     (if list_all (\<lambda>h. nh_kind h = Deletion) ms then NoteDeleted ms
      else if length ms = 1 then NoteActive (ms ! 0) else NoteConflict ms)"

lemma note_state_cases:
  assumes "ms \<noteq> []" and "distinct ms"
  shows "note_state ms \<noteq> NoteAbsent"
    and "(\<exists>hs. note_state ms = NoteDeleted hs) \<longleftrightarrow> (\<forall>m \<in> set ms. nh_kind m = Deletion)"
    and "note_state ms = NoteActive h \<longleftrightarrow> nh_kind h = Revision \<and> set ms = {h}"
    and "(\<exists>hs. note_state ms = NoteConflict hs) \<longleftrightarrow>
           (\<exists>m \<in> set ms. \<exists>m' \<in> set ms. m \<noteq> m' \<and> nh_kind m = Revision)"
proof -
  have kinds: "nh_kind h \<noteq> Deletion \<longleftrightarrow> nh_kind h = Revision" for h :: note_head
    by (cases "nh_kind h") auto
  show "note_state ms \<noteq> NoteAbsent" by (simp add: note_state_def)
  show "(\<exists>hs. note_state ms = NoteDeleted hs) \<longleftrightarrow> (\<forall>m \<in> set ms. nh_kind m = Deletion)"
    by (simp add: note_state_def list_all_iff)
  consider x where "ms = [x]" | x y zs where "ms = x # y # zs"
    using assms(1) by (metis neq_Nil_conv)
  note two = this
  show "note_state ms = NoteActive h \<longleftrightarrow> nh_kind h = Revision \<and> set ms = {h}"
    using two assms(2) kinds by cases (auto simp: note_state_def)
  show "(\<exists>hs. note_state ms = NoteConflict hs) \<longleftrightarrow>
      (\<exists>m \<in> set ms. \<exists>m' \<in> set ms. m \<noteq> m' \<and> nh_kind m = Revision)"
    using two
  proof cases
    case (2 x y zs)
    then have "\<exists>m' \<in> set ms. m \<noteq> m'" for m using assms(2) by (metis distinct_length_2_or_more list.set_intros)
    moreover have "(\<exists>hs. note_state ms = NoteConflict hs) \<longleftrightarrow> (\<exists>m \<in> set ms. nh_kind m = Revision)"
      using 2 by (auto simp: note_state_def list_all_iff kinds simp flip: kinds)
    ultimately show ?thesis by blast
  qed (simp add: note_state_def)
qed

section \<open>Grouping\<close>

lemma group_by_get:
  "mapGet (group_by f xs) k = (case filter (\<lambda>x. f x = k) xs of [] \<Rightarrow> None | ys \<Rightarrow> Some ys)"
  unfolding group_by_def
proof (induction xs rule: rev_induct)
  case (snoc x xs)
  then show ?case
    by (auto simp: group_push_def update_conv' split: list.splits)
qed simp

lemma group_by_distinct: "distinct (mapKeys (group_by f xs))"
  unfolding group_by_def
  by (induction xs rule: rev_induct) (auto simp: group_push_def mapKeys_mapSet)

lemma group_by_entry:
  "(k, ys) \<in> set (group_by f xs) \<longleftrightarrow> ys = filter (\<lambda>x. f x = k) xs \<and> ys \<noteq> []"
proof -
  have "(k, ys) \<in> set (group_by f xs) \<longleftrightarrow> mapGet (group_by f xs) k = Some ys"
    using map_of_eq_Some_iff[OF group_by_distinct] by blast
  also have "\<dots> \<longleftrightarrow> ys = filter (\<lambda>x. f x = k) xs \<and> ys \<noteq> []"
    by (cases "filter (\<lambda>x. f x = k) xs") (auto simp: group_by_get)
  finally show ?thesis .
qed

lemma group_by_values:
  "ys \<in> set (mapValues (group_by f xs)) \<longleftrightarrow> (\<exists>x \<in> set xs. ys = filter (\<lambda>y. f y = f x) xs)"
proof
  assume "ys \<in> set (mapValues (group_by f xs))"
  then obtain k where k: "(k, ys) \<in> set (group_by f xs)" by auto
  then have e: "ys = filter (\<lambda>x. f x = k) xs" "ys \<noteq> []" by (auto simp: group_by_entry)
  then obtain x where "x \<in> set xs" "f x = k" by (auto simp: filter_empty_conv)
  then show "\<exists>x \<in> set xs. ys = filter (\<lambda>y. f y = f x) xs" using e by blast
next
  assume "\<exists>x \<in> set xs. ys = filter (\<lambda>y. f y = f x) xs"
  then obtain x where x: "x \<in> set xs" "ys = filter (\<lambda>y. f y = f x) xs" by blast
  then have "ys \<noteq> []" by (auto simp: filter_empty_conv)
  then have "(f x, ys) \<in> set (group_by f xs)" using x(2) by (simp add: group_by_entry)
  then show "ys \<in> set (mapValues (group_by f xs))" by force
qed

section \<open>Which assignments survive\<close>

lemma already_inactive_iff:
  assumes "(i, removal) \<in> set (enumerate 0 removals)"
  shows "already_inactive g removals i removal a \<longleftrightarrow>
     (\<exists>prior \<in> set removals. isAncestor g (rm_causeId prior) (rm_causeId removal) \<and>
        a \<in> set (observedAssignmentCauseIds prior))" (is "_ \<longleftrightarrow> ?r")
proof
  assume "already_inactive g removals i removal a"
  then show ?r
    by (auto simp: already_inactive_def list_ex_iff in_set_enumerate_eq)
next
  assume ?r
  then obtain j where "j < length removals"
    "isAncestor g (rm_causeId (removals ! j)) (rm_causeId removal)"
    "a \<in> set (observedAssignmentCauseIds (removals ! j))"
    by (metis in_set_conv_nth)
  moreover have "removals ! i = removal" using assms by (simp add: in_set_enumerate_eq)
  ultimately have "(j, removals ! j) \<in> set (enumerate 0 removals)" "j \<noteq> i"
    by (auto simp: in_set_enumerate_eq dest: ancestor_neq)
  then show "already_inactive g removals i removal a"
    using \<open>isAncestor g _ _\<close> \<open>a \<in> _\<close> unfolding already_inactive_def list_ex_iff by force
qed

definition removable ::
  "(string, 'v observed_assignment) jmap \<Rightarrow> observed_removal list \<Rightarrow> causal_graph \<Rightarrow> nat \<Rightarrow> observed_removal
     \<Rightarrow> bytes \<Rightarrow> bool" where
  "removable byId removals g i removal a \<longleftrightarrow>
     (\<exists>asg. mapGet byId (key a) = Some asg \<and> oa_relationKey asg = rm_relationKey removal \<and>
        isAncestor g (cc_causeId asg) (rm_causeId removal) \<and>
        \<not> already_inactive g removals i removal (cc_causeId asg))"

lemma remove_one_ok:
  "remove_one byId removals g i removal (seen, removed) a = ok st \<longleftrightarrow>
     key a \<notin> set seen \<and> removable byId removals g i removal a \<and> st = (key a # seen, key a # removed)"
  by (auto simp: remove_one_def removable_def Let_def split: option.splits)

lemma remove_ones_ok:
  "foldM (remove_one byId removals g i removal) (seen, removed) ids = ok st \<longleftrightarrow>
     distinct ids \<and> (\<forall>a \<in> set ids. key a \<notin> set seen \<and> removable byId removals g i removal a) \<and>
     st = (rev (map key ids) @ seen, rev (map key ids) @ removed)"
  by (induction ids arbitrary: seen removed) (auto simp: and_then_eq_Inr remove_one_ok)

definition removal_ok ::
  "(string, 'v observed_assignment) jmap \<Rightarrow> observed_removal list \<Rightarrow> causal_graph \<Rightarrow> nat \<times> observed_removal
     \<Rightarrow> bool" where
  "removal_ok byId removals g entry \<longleftrightarrow>
     has_record g (rm_causeId (snd entry)) \<and> observedAssignmentCauseIds (snd entry) \<noteq> [] \<and>
     distinct (observedAssignmentCauseIds (snd entry)) \<and>
     (\<forall>a \<in> set (observedAssignmentCauseIds (snd entry)).
        removable byId removals g (fst entry) (snd entry) a)"

lemma apply_removal_ok:
  "apply_removal byId removals g removed entry = ok out \<longleftrightarrow> removal_ok byId removals g entry \<and>
     out = rev (map key (observedAssignmentCauseIds (snd entry))) @ removed"
  by (auto simp: apply_removal_def removal_ok_def Let_def and_then_eq_Inr remove_ones_ok)

lemma apply_removals_ok:
  "foldM (apply_removal byId removals g) removed entries = ok out \<longleftrightarrow>
     (\<forall>entry \<in> set entries. removal_ok byId removals g entry) \<and>
     out = foldl (\<lambda>acc entry. rev (map key (observedAssignmentCauseIds (snd entry))) @ acc) removed entries"
  by (induction entries arbitrary: removed) (auto simp: and_then_eq_Inr apply_removal_ok)

lemma removed_keys:
  "set (foldl (\<lambda>acc entry. rev (map key (observedAssignmentCauseIds (snd entry))) @ acc) removed entries) =
     set removed \<union> (\<Union>entry \<in> set entries. key ` set (observedAssignmentCauseIds (snd entry)))"
  by (induction entries arbitrary: removed) auto

lemma map_of_rev_distinct: "distinct (map fst xs) \<Longrightarrow> map_of (rev xs) = map_of xs"
  by (metis map_of_inject_set distinct_rev rev_map set_rev)

lemma mapFrom_lookup:
  assumes "distinct (map f xs)"
  shows "mapGet (mapFrom (map (\<lambda>x. (key (f x), x)) xs)) (key k) = Some x \<longleftrightarrow> x \<in> set xs \<and> f x = k"
proof -
  have d: "distinct (map fst (map (\<lambda>x. (key (f x), x)) xs))"
    using assms by (auto simp: distinct_map inj_on_def)
  show ?thesis
    unfolding mapFrom_get map_of_rev_distinct[OF d] map_of_eq_Some_iff[OF d] by auto
qed

text \<open>The contract of a removal, over sets of facts and without the loop's state.\<close>

definition valid_removal ::
  "'v observed_assignment set \<Rightarrow> observed_removal set \<Rightarrow> causal_graph \<Rightarrow> observed_removal \<Rightarrow> bool" where
  "valid_removal As Rs g removal \<longleftrightarrow>
     has_record g (rm_causeId removal) \<and> observedAssignmentCauseIds removal \<noteq> [] \<and>
     distinct (observedAssignmentCauseIds removal) \<and>
     (\<forall>a \<in> set (observedAssignmentCauseIds removal).
        (\<exists>asg \<in> As. cc_causeId asg = a \<and> oa_relationKey asg = rm_relationKey removal) \<and>
        isAncestor g a (rm_causeId removal) \<and>
        \<not> (\<exists>prior \<in> Rs. isAncestor g (rm_causeId prior) (rm_causeId removal) \<and>
             a \<in> set (observedAssignmentCauseIds prior)))"

lemma removal_ok_iff:
  assumes "distinct (map cc_causeId assignments)" and "entry \<in> set (enumerate 0 removals)"
  shows "removal_ok (mapFrom (map (\<lambda>a. (key (cc_causeId a), a)) assignments)) removals g entry \<longleftrightarrow>
     valid_removal (set assignments) (set removals) g (snd entry)"
proof -
  have "(fst entry, snd entry) \<in> set (enumerate 0 removals)" using assms(2) by simp
  note inactive = already_inactive_iff[OF this]
  have "removable (mapFrom (map (\<lambda>a. (key (cc_causeId a), a)) assignments)) removals g (fst entry)
      (snd entry) a \<longleftrightarrow>
      (\<exists>asg \<in> set assignments. cc_causeId asg = a \<and> oa_relationKey asg = rm_relationKey (snd entry)) \<and>
        isAncestor g a (rm_causeId (snd entry)) \<and>
        \<not> (\<exists>prior \<in> set removals. isAncestor g (rm_causeId prior) (rm_causeId (snd entry)) \<and>
             a \<in> set (observedAssignmentCauseIds prior))" for a
    unfolding removable_def mapFrom_lookup[OF assms(1)] inactive by blast
  then show ?thesis by (simp add: removal_ok_def valid_removal_def)
qed

lemma reduceObservedRemove_ok:
  assumes "distinct (map cc_causeId assignments)"
  shows "reduceObservedRemove assignments removals g = ok r \<longleftrightarrow>
     (\<forall>removal \<in> set removals. valid_removal (set assignments) (set removals) g removal) \<and>
     r = filter (\<lambda>a. \<forall>removal \<in> set removals. cc_causeId a \<notin> set (observedAssignmentCauseIds removal))
           assignments"
proof -
  have snds: "snd ` set (enumerate 0 removals) = set removals"
    by (metis list.set_map map_snd_enumerate)
  have "(\<forall>entry \<in> set (enumerate 0 removals). removal_ok
      (mapFrom (map (\<lambda>a. (key (cc_causeId a), a)) assignments)) removals g entry) \<longleftrightarrow>
      (\<forall>removal \<in> snd ` set (enumerate 0 removals). valid_removal (set assignments) (set removals) g removal)"
    by (simp add: removal_ok_iff[OF assms])
  moreover have "(key x \<notin> (\<Union>entry \<in> set (enumerate 0 removals).
      key ` set (observedAssignmentCauseIds (snd entry)))) \<longleftrightarrow>
      (\<forall>removal \<in> snd ` set (enumerate 0 removals). x \<notin> set (observedAssignmentCauseIds removal))" for x
    by auto
  ultimately show ?thesis
    by (simp add: reduceObservedRemove_def and_then_eq_Inr apply_removals_ok removed_keys snds)
      (auto intro: filter_cong)
qed

section \<open>Agreement of additive facts\<close>

definition agree :: "platform \<Rightarrow> additive_fact list \<Rightarrow> bool" where
  "agree P es = list_all (\<lambda>e. cbor_encode P (authenticatedValue (hd es)) =
                            cbor_encode P (authenticatedValue e)) es"

definition canonical_facts :: "platform \<Rightarrow> additive_fact list \<Rightarrow> bool" where
  "canonical_facts P es = list_all (\<lambda>e. canonical P (authenticatedValue e)) es"

lemma everyM_ok: "\<forall>x \<in> set xs. f x = ok (p x) \<Longrightarrow> everyM f xs = ok (list_all p xs)"
  by (induction xs) auto

lemma encode_canonical: "canonical P v \<Longrightarrow> encodeCanonicalValue P v = ok (cbor_encode P v)"
  by (simp add: encodeCanonicalValue_ok)

lemma union_entries_eq:
  assumes "es \<noteq> []" and "canonical_facts P es"
  shows "union_entries P (acc, col) es =
     ok (if agree P es then (acc @ [hd es], col)
         else (acc, col @ [\<lparr>ac_entityId = af_entityId (hd es), ac_candidates = es\<rparr>]))"
proof -
  have c: "canonical P (authenticatedValue e)" if "e \<in> set es" for e
    using assms(2) that by (simp add: canonical_facts_def list_all_iff)
  have "everyM (\<lambda>entry. and_then (encodeCanonicalValue P (authenticatedValue entry))
      (\<lambda>entryBytes. ok (bytesEqual (cbor_encode P (authenticatedValue (hd es))) entryBytes))) es =
      ok (agree P es)"
    unfolding agree_def by (rule everyM_ok) (simp add: encode_canonical c)
  then show ?thesis
    using assms(1) c by (simp add: union_entries_def Let_def encode_canonical)
qed

lemma union_loop:
  assumes "\<forall>es \<in> set groups. es \<noteq> [] \<and> canonical_facts P es"
  shows "foldM (union_entries P) (acc, col) groups =
     ok (acc @ map hd (filter (agree P) groups),
         col @ map (\<lambda>es. \<lparr>ac_entityId = af_entityId (hd es), ac_candidates = es\<rparr>)
                 (filter (\<lambda>es. \<not> agree P es) groups))"
  using assms by (induction groups arbitrary: acc col) (simp_all add: union_entries_eq)

abbreviation entity_groups :: "additive_fact list \<Rightarrow> additive_fact list list" where
  "entity_groups facts \<equiv> mapValues (group_by (\<lambda>f. key (af_entityId f)) facts)"

abbreviation facts_of :: "additive_fact list \<Rightarrow> bytes \<Rightarrow> additive_fact list" where
  "facts_of facts e \<equiv> filter (\<lambda>f. af_entityId f = e) facts"

lemma entity_groups_iff:
  "es \<in> set (entity_groups facts) \<longleftrightarrow> (\<exists>f \<in> set facts. es = facts_of facts (af_entityId f))"
  unfolding group_by_values by simp

lemma entity_groups_head:
  assumes "es \<in> set (entity_groups facts)"
  shows "es \<noteq> []" "hd es \<in> set facts" "es = facts_of facts (af_entityId (hd es))"
proof -
  obtain f where f: "f \<in> set facts" "es = facts_of facts (af_entityId f)"
    using assms unfolding entity_groups_iff by blast
  then show "es \<noteq> []" by (auto simp: filter_empty_conv)
  then have "hd es \<in> set es" by simp
  then have "hd es \<in> set facts \<and> af_entityId (hd es) = af_entityId f" using f(2) by simp
  then show "hd es \<in> set facts" "es = facts_of facts (af_entityId (hd es))" using f(2) by simp_all
qed

lemma entity_groups_distinct: "distinct (map (\<lambda>es. af_entityId (hd es)) (entity_groups facts))"
proof -
  let ?m = "group_by (\<lambda>f. key (af_entityId f)) facts"
  have "key (af_entityId (hd es)) = k" if "(k, es) \<in> set ?m" for k es
  proof -
    have "es = filter (\<lambda>f. key (af_entityId f) = k) facts" "es \<noteq> []"
      using that unfolding group_by_entry by blast+
    then have "hd es \<in> set (filter (\<lambda>f. key (af_entityId f) = k) facts)" by (metis hd_in_set)
    then show ?thesis by simp
  qed
  then have "map key (map (\<lambda>es. af_entityId (hd es)) (mapValues ?m)) = mapKeys ?m"
    by (auto intro!: map_cong)
  then have "distinct (map key (map (\<lambda>es. af_entityId (hd es)) (mapValues ?m)))"
    using group_by_distinct[of "\<lambda>f. key (af_entityId f)" facts] by (simp only:)
  then show ?thesis unfolding distinct_map by blast
qed

definition additive_result :: "platform \<Rightarrow> additive_fact list \<Rightarrow> additive_union_result" where
  "additive_result P facts =
     \<lparr>au_facts = sort_by (\<lambda>l r. compareIds (af_entityId l) (af_entityId r))
                  (map hd (filter (agree P) (entity_groups facts))),
      au_collisions = sort_by (\<lambda>l r. compareIds (ac_entityId l) (ac_entityId r))
                  (map (\<lambda>es. \<lparr>ac_entityId = af_entityId (hd es), ac_candidates = es\<rparr>)
                     (filter (\<lambda>es. \<not> agree P es) (entity_groups facts)))\<rparr>"

lemma reduceAdditiveUnion_eq:
  assumes "canonical_facts P facts"
  shows "reduceAdditiveUnion P facts = ok (additive_result P facts)"
proof -
  have "es \<noteq> [] \<and> canonical_facts P es" if es: "es \<in> set (entity_groups facts)" for es
  proof
    obtain f :: additive_fact where "es = facts_of facts (af_entityId f)"
      using es unfolding entity_groups_iff by blast
    then show "canonical_facts P es" using assms by (simp add: canonical_facts_def list_all_iff)
  qed (rule entity_groups_head(1)[OF es])
  then have "foldM (union_entries P) ([], []) (entity_groups facts) =
      ok (map hd (filter (agree P) (entity_groups facts)),
          map (\<lambda>es. \<lparr>ac_entityId = af_entityId (hd es), ac_candidates = es\<rparr>)
            (filter (\<lambda>es. \<not> agree P es) (entity_groups facts)))"
    using union_loop[of "entity_groups facts" P "[]" "[]", unfolded append_Nil] by blast
  then show ?thesis by (simp add: reduceAdditiveUnion_def Let_def additive_result_def)
qed

lemma accepted_iff:
  "f \<in> set (au_facts (additive_result P facts)) \<longleftrightarrow>
     f \<in> set facts \<and> f = hd (facts_of facts (af_entityId f)) \<and> agree P (facts_of facts (af_entityId f))"
  (is "?l \<longleftrightarrow> ?r")
proof -
  have "?l \<longleftrightarrow> (\<exists>es \<in> set (entity_groups facts). agree P es \<and> f = hd es)"
    by (auto simp: additive_result_def)
  also have "\<dots> \<longleftrightarrow> ?r"
    using entity_groups_head entity_groups_iff by metis
  finally show ?thesis .
qed

lemma collision_iff:
  "c \<in> set (au_collisions (additive_result P facts)) \<longleftrightarrow>
     (\<exists>f \<in> set facts. \<not> agree P (facts_of facts (af_entityId f)) \<and>
        c = \<lparr>ac_entityId = af_entityId f, ac_candidates = facts_of facts (af_entityId f)\<rparr>)"
  (is "?l \<longleftrightarrow> ?r")
proof -
  have "?l \<longleftrightarrow> (\<exists>es \<in> set (entity_groups facts). \<not> agree P es \<and>
      c = \<lparr>ac_entityId = af_entityId (hd es), ac_candidates = es\<rparr>)"
    by (auto simp: additive_result_def)
  also have "\<dots> \<longleftrightarrow> ?r"
  proof
    assume "\<exists>es \<in> set (entity_groups facts). \<not> agree P es \<and>
      c = \<lparr>ac_entityId = af_entityId (hd es), ac_candidates = es\<rparr>"
    then show ?r using entity_groups_head by metis
  next
    assume ?r
    then obtain f where f: "f \<in> set facts" "\<not> agree P (facts_of facts (af_entityId f))"
      "c = \<lparr>ac_entityId = af_entityId f, ac_candidates = facts_of facts (af_entityId f)\<rparr>" by blast
    have es: "facts_of facts (af_entityId f) \<in> set (entity_groups facts)"
      using f(1) unfolding entity_groups_iff by blast
    then have "hd (facts_of facts (af_entityId f)) \<in> set (facts_of facts (af_entityId f))"
      using entity_groups_head(1) by (metis hd_in_set)
    then have "af_entityId (hd (facts_of facts (af_entityId f))) = af_entityId f" by simp
    then show "\<exists>es \<in> set (entity_groups facts). \<not> agree P es \<and>
        c = \<lparr>ac_entityId = af_entityId (hd es), ac_candidates = es\<rparr>"
      using es f(2,3) by force
  qed
  finally show ?thesis .
qed

lemma agree_iff:
  "x \<in> set es \<Longrightarrow> agree P es \<longleftrightarrow> (\<forall>y \<in> set es.
     cbor_encode P (authenticatedValue x) = cbor_encode P (authenticatedValue y))"
  unfolding agree_def list_all_iff by (metis hd_in_set empty_iff empty_set)

lemma distinct_map_sort_key: "distinct (map f (sort_key g xs)) = distinct (map f xs)"
  by (metis mset_eq_imp_distinct_iff mset_map mset_sort)

lemma additive_sorted:
  assumes "list_all (\<lambda>f. id32 (af_entityId f)) facts"
  shows "sorted_wrt (<) (map af_entityId (au_facts (additive_result P facts)))"
    and "sorted_wrt (<) (map ac_entityId (au_collisions (additive_result P facts)))"
proof -
  have i: "id32 (af_entityId (hd es))" if "es \<in> set (entity_groups facts)" for es
    using entity_groups_head(2)[OF that] assms by (simp add: list_all_iff)
  have d: "distinct (map (\<lambda>es. af_entityId (hd es)) (filter p (entity_groups facts)))" for p
    using distinct_map_filter[OF entity_groups_distinct] .
  let ?a = "map hd (filter (agree P) (entity_groups facts))"
  have "sort_by (\<lambda>l r. compareIds (af_entityId l) (af_entityId r)) ?a = sort_key af_entityId ?a"
    using i by (intro comparator_order.sort_by_sort_key[OF compareIds_on]) auto
  moreover have "distinct (map af_entityId (sort_key af_entityId ?a))"
    using d[of "agree P"] by (simp add: distinct_map_sort_key comp_def)
  ultimately show "sorted_wrt (<) (map af_entityId (au_facts (additive_result P facts)))"
    by (simp add: additive_result_def strict_sorted_iff)
  let ?c = "map (\<lambda>es. \<lparr>ac_entityId = af_entityId (hd es), ac_candidates = es\<rparr>)
      (filter (\<lambda>es. \<not> agree P es) (entity_groups facts))"
  have "sort_by (\<lambda>l r. compareIds (ac_entityId l) (ac_entityId r)) ?c = sort_key ac_entityId ?c"
    using i by (intro comparator_order.sort_by_sort_key[OF compareIds_on]) auto
  moreover have "distinct (map ac_entityId (sort_key ac_entityId ?c))"
    using d[of "\<lambda>es. \<not> agree P es"] by (simp add: distinct_map_sort_key comp_def)
  ultimately show "sorted_wrt (<) (map ac_entityId (au_collisions (additive_result P facts)))"
    by (simp add: additive_result_def strict_sorted_iff)
qed

lemma accepted_entities:
  "af_entityId ` set (au_facts (additive_result P facts)) =
     {e. \<exists>f \<in> set facts. af_entityId f = e \<and> agree P (facts_of facts e)}" (is "?l = ?r")
proof
  show "?l \<subseteq> ?r" using accepted_iff by blast
  show "?r \<subseteq> ?l"
  proof
    fix e assume "e \<in> ?r"
    then obtain f where f: "f \<in> set facts" "af_entityId f = e" "agree P (facts_of facts e)" by blast
    then have "facts_of facts e \<in> set (entity_groups facts)" unfolding entity_groups_iff by blast
    note h = entity_groups_head[OF this]
    then have "hd (facts_of facts e) \<in> set (facts_of facts e)" by (metis hd_in_set)
    then have "af_entityId (hd (facts_of facts e)) = e" by simp
    then have "hd (facts_of facts e) \<in> set (au_facts (additive_result P facts))"
      unfolding accepted_iff using h(2) f(3) by simp
    then show "e \<in> ?l" using \<open>af_entityId (hd _) = e\<close> by (metis imageI)
  qed
qed

lemma agree_permutation:
  assumes "set xs = set ys" and "x \<in> set xs" shows "agree P xs = agree P ys"
  using assms agree_iff[of x xs P] agree_iff[of x ys P] by simp

lemma agree_perm_facts:
  assumes "set facts = set facts'" and "f \<in> set facts"
  shows "agree P (facts_of facts (af_entityId f)) = agree P (facts_of facts' (af_entityId f))"
  using assms by (intro agree_permutation[of _ _ f]) auto

lemma additive_entities_converge:
  assumes "set facts = set facts'" and "list_all (\<lambda>f. id32 (af_entityId f)) facts"
  shows "map af_entityId (au_facts (additive_result P facts)) =
           map af_entityId (au_facts (additive_result P facts'))"
    and "map ac_entityId (au_collisions (additive_result P facts)) =
           map ac_entityId (au_collisions (additive_result P facts'))"
proof -
  have i': "list_all (\<lambda>f. id32 (af_entityId f)) facts'" using assms by (simp add: list_all_iff)
  note sorted = additive_sorted[OF assms(2)] additive_sorted[OF i']
  have "af_entityId ` set (au_facts (additive_result P facts)) =
      af_entityId ` set (au_facts (additive_result P facts'))"
    unfolding accepted_entities using agree_perm_facts[OF assms(1)] assms(1) by blast
  then show "map af_entityId (au_facts (additive_result P facts)) =
      map af_entityId (au_facts (additive_result P facts'))"
    by (intro strict_sorted_equal) (simp_all add: sorted)
  have c: "ac_entityId ` set (au_collisions (additive_result P fs)) =
      af_entityId ` {f \<in> set fs. \<not> agree P (facts_of fs (af_entityId f))}" for fs
  proof -
    have "set (au_collisions (additive_result P fs)) =
        (\<lambda>f. \<lparr>ac_entityId = af_entityId f, ac_candidates = facts_of fs (af_entityId f)\<rparr>) `
          {f \<in> set fs. \<not> agree P (facts_of fs (af_entityId f))}"
      using collision_iff[of _ P fs] by blast
    then show ?thesis by (simp add: image_image)
  qed
  have "{f \<in> set facts. \<not> agree P (facts_of facts (af_entityId f))} =
      {f \<in> set facts'. \<not> agree P (facts_of facts' (af_entityId f))}"
    using agree_perm_facts[OF assms(1)] assms(1) by blast
  then have "ac_entityId ` set (au_collisions (additive_result P facts)) =
      ac_entityId ` set (au_collisions (additive_result P facts'))"
    unfolding c by (rule arg_cong)
  then show "map ac_entityId (au_collisions (additive_result P facts)) =
      map ac_entityId (au_collisions (additive_result P facts'))"
    by (intro strict_sorted_equal) (simp_all add: sorted)
qed

lemma additive_values_converge:
  assumes "set facts = set facts'" and "list_all (\<lambda>f. id32 (af_entityId f)) facts"
  shows "map (\<lambda>f. (af_entityId f, cbor_encode P (authenticatedValue f))) (au_facts (additive_result P facts)) =
    map (\<lambda>f. (af_entityId f, cbor_encode P (authenticatedValue f))) (au_facts (additive_result P facts'))"
    (is "map ?v ?as = map ?v ?bs")
proof (rule nth_equalityI)
  have eq: "map af_entityId ?as = map af_entityId ?bs"
    using additive_entities_converge(1)[OF assms] .
  then show len: "length (map ?v ?as) = length (map ?v ?bs)" by (metis length_map)
  fix i assume "i < length (map ?v ?as)"
  then have i: "i < length ?as" "i < length ?bs" using len by simp_all
  then have e: "af_entityId (?as ! i) = af_entityId (?bs ! i)" using eq by (metis nth_map)
  have "?as ! i \<in> set ?as" "?bs ! i \<in> set ?bs" using i by simp_all
  then have a: "?as ! i \<in> set facts" "agree P (facts_of facts (af_entityId (?as ! i)))"
    and b: "?bs ! i \<in> set facts'"
    unfolding accepted_iff by simp_all
  have "cbor_encode P (authenticatedValue (?as ! i)) = cbor_encode P (authenticatedValue (?bs ! i))"
    using agree_iff[of "?as ! i" "facts_of facts (af_entityId (?as ! i))" P] a b e assms(1) by simp
  then show "map ?v ?as ! i = map ?v ?bs ! i" using i e by simp
qed

section \<open>Properties\<close>

text \<open>
  C10. the causal scalar reduction is total on known, distinct facts; it selects a fact that no other
  fact supersedes, the one with the least identifier among the concurrent ones, and every replica
  that holds the same facts selects the same one, in whatever order it received them.
\<close>

theorem reduceCausalScalar_selects:
  assumes "reachable_graph g" and "cs \<noteq> []" and "facts_ok cc_causeId g cs"
    and "list_all (\<lambda>c. id32 (cc_causeId c)) cs"
  shows "\<exists>w. maximal cc_causeId g (set cs) w \<and>
     (\<forall>m. maximal cc_causeId g (set cs) m \<longrightarrow> cc_causeId w \<le> cc_causeId m) \<and>
     (\<forall>cs'. mset cs' = mset cs \<longrightarrow> reduceCausalScalar cs' g = ok (Some w))"
proof -
  obtain w ws where w: "sorted_maxima cc_causeId g cs = w # ws"
    using sorted_maxima_nonempty[OF reachable_graph_inv[OF assms(1)] assms(2)] by (meson list.exhaust)
  have "reduceCausalScalar cs' g = ok (Some w)" if "mset cs' = mset cs" for cs'
  proof -
    have "sorted_maxima cc_causeId g cs' = w # ws"
      using sorted_maxima_permutation[OF that[symmetric] assms(3,4)] w by simp
    then show ?thesis
      using facts_ok_mset[OF that] assms(3) by (simp add: reduceCausalScalar_eq first_of_def)
  qed
  then show ?thesis using sorted_maxima_head[OF assms(4) w] by blast
qed

definition demo_id :: "byte \<Rightarrow> bytes" where "demo_id b = replicate 31 0 @ [b]"

text \<open>A root, two concurrent successors of it, and a Record that joins them.\<close>

definition demo_history :: causal_graph where
  "demo_history = \<lparr>parents = [(key (demo_id 1), []), (key (demo_id 2), [demo_id 1]),
     (key (demo_id 3), [demo_id 1]), (key (demo_id 4), [demo_id 2, demo_id 3])],
     baselineRootByCause = []\<rparr>"

lemma demo_id_simps [simp]: "demo_id a = demo_id b \<longleftrightarrow> a = b" "length (demo_id a) = 32"
  by (simp_all add: demo_id_def)

lemma demo_history_built:
  "and_then (add_record new_graph (demo_id 1) []) (\<lambda>g1.
   and_then (add_record g1 (demo_id 2) [demo_id 1]) (\<lambda>g2.
   and_then (add_record g2 (demo_id 3) [demo_id 1]) (\<lambda>g3.
     add_record g3 (demo_id 4) [demo_id 2, demo_id 3]))) = ok demo_history"
  by (simp add: graph_eval demo_history_def)

lemma demo_history_reachable: "reachable_graph demo_history"
  using demo_history_built
  by (auto simp: and_then_eq_Inr dest!: record_added) (meson reachable_graph.intros)

lemmas demo_eval = facts_ok_def has_record_def demo_history_def graph_eval

theorem reduceCausalScalar_selects_witness:
  "\<exists>w. reduceCausalScalar
     [\<lparr>cc_causeId = demo_id 1, cc_value = ''a''\<rparr>, \<lparr>cc_causeId = demo_id 3, cc_value = ''b''\<rparr>,
      \<lparr>cc_causeId = demo_id 2, cc_value = ''c''\<rparr>] demo_history = ok (Some w)"
proof -
  let ?cs = "[\<lparr>cc_causeId = demo_id 1, cc_value = ''a''\<rparr>, \<lparr>cc_causeId = demo_id 3, cc_value = ''b''\<rparr>,
      \<lparr>cc_causeId = demo_id 2, cc_value = ''c''\<rparr>]"
  have "facts_ok cc_causeId demo_history ?cs" by (simp add: demo_eval)
  moreover have "list_all (\<lambda>c. id32 (cc_causeId c)) ?cs" by simp
  ultimately show ?thesis
    using reduceCausalScalar_selects[OF demo_history_reachable, of ?cs] by blast
qed

text \<open>
  C11. the state of a Note depends only on its maximal heads, and not on their order: it is absent
  exactly without heads, deleted exactly when every maximal head is a deletion, active exactly when
  the only maximal head is a revision, and in conflict exactly when a revision is concurrent with
  another maximal head.
\<close>

theorem reduceNoteHeads_classifies:
  assumes "reachable_graph g" and "facts_ok cc_causeId g cs"
    and "list_all (\<lambda>c. id32 (cc_causeId c)) cs"
  shows "\<exists>r. (\<forall>cs'. mset cs' = mset cs \<longrightarrow> reduceNoteHeads cs' g = ok r) \<and>
     (r = NoteAbsent \<longleftrightarrow> cs = []) \<and>
     ((\<exists>hs. r = NoteDeleted hs) \<longleftrightarrow>
        cs \<noteq> [] \<and> (\<forall>m. maximal cc_causeId g (set cs) m \<longrightarrow> nh_kind m = Deletion)) \<and>
     (\<forall>h. r = NoteActive h \<longleftrightarrow>
        nh_kind h = Revision \<and> (\<forall>m. maximal cc_causeId g (set cs) m \<longleftrightarrow> m = h)) \<and>
     ((\<exists>hs. r = NoteConflict hs) \<longleftrightarrow>
        (\<exists>m m'. m \<noteq> m' \<and> maximal cc_causeId g (set cs) m \<and> maximal cc_causeId g (set cs) m' \<and>
           nh_kind m = Revision))"
proof (cases "cs = []")
  case True
  then show ?thesis by (intro exI[of _ NoteAbsent]) (auto simp: reduceNoteHeads_def maximal_def)
next
  case False
  let ?ms = "sorted_maxima cc_causeId g cs"
  have ne: "?ms \<noteq> []" by (rule sorted_maxima_nonempty[OF reachable_graph_inv[OF assms(1)] False])
  have dist: "distinct ?ms"
    using assms(2) by (auto simp: sorted_maxima_def facts_ok_def distinct_map)
  have "reduceNoteHeads cs' g = ok (note_state ?ms)" if "mset cs' = mset cs" for cs'
  proof -
    have "cs' \<noteq> []" using that False by (metis mset_zero_iff)
    then show ?thesis
      using sorted_maxima_permutation[OF that[symmetric] assms(2,3)] facts_ok_mset[OF that] assms(2)
      by (simp add: reduceNoteHeads_eq Let_def note_state_def)
  qed
  note total = this
  note cases = note_state_cases[OF ne dist, unfolded set_sorted_maxima]
  show ?thesis
  proof (rule exI[of _ "note_state ?ms"], intro conjI allI)
    show "(note_state ?ms = NoteAbsent) = (cs = [])" using cases(1) False by simp
    show "(\<exists>hs. note_state ?ms = NoteDeleted hs) \<longleftrightarrow>
        cs \<noteq> [] \<and> (\<forall>m. maximal cc_causeId g (set cs) m \<longrightarrow> nh_kind m = Deletion)"
      using cases(2) False by simp
    show "note_state ?ms = NoteActive h \<longleftrightarrow>
        nh_kind h = Revision \<and> (\<forall>m. maximal cc_causeId g (set cs) m \<longleftrightarrow> m = h)" for h
      using cases(3)[of h] by (simp add: set_eq_iff)
    show "(\<exists>hs. note_state ?ms = NoteConflict hs) \<longleftrightarrow>
        (\<exists>m m'. m \<noteq> m' \<and> maximal cc_causeId g (set cs) m \<and> maximal cc_causeId g (set cs) m' \<and>
           nh_kind m = Revision)"
      using cases(4) by (simp add: Bex_def) blast
  qed (use total in blast)
qed

theorem reduceNoteHeads_classifies_witness:
  "\<exists>r. reduceNoteHeads
     [\<lparr>cc_causeId = demo_id 2, cc_value = None, nh_kind = Deletion\<rparr>,
      \<lparr>cc_causeId = demo_id 3, cc_value = Some [1], nh_kind = Revision\<rparr>] demo_history = ok r"
proof -
  let ?cs = "[\<lparr>cc_causeId = demo_id 2, cc_value = None, nh_kind = Deletion\<rparr>,
      \<lparr>cc_causeId = demo_id 3, cc_value = Some [1], nh_kind = Revision\<rparr>]"
  have "facts_ok cc_causeId demo_history ?cs" by (simp add: demo_eval)
  moreover have "list_all (\<lambda>c. id32 (cc_causeId c)) ?cs" by simp
  ultimately show ?thesis
    using reduceNoteHeads_classifies[OF demo_history_reachable, of ?cs] by blast
qed

text \<open>
  C12. observed remove is exact. The reduction succeeds exactly when every removal names distinct
  assignments of its own relation that it causally observed and that no earlier removal had already
  inactivated; then an assignment is removed if and only if some removal that causally observed it
  names it, so an assignment concurrent with every removal always survives.
\<close>

theorem reduceObservedRemove_exact:
  assumes "distinct (map cc_causeId assignments)"
  shows "reduceObservedRemove assignments removals g = ok survivors \<longleftrightarrow>
     (\<forall>removal \<in> set removals. valid_removal (set assignments) (set removals) g removal) \<and>
     survivors = filter (\<lambda>a. \<not> (\<exists>removal \<in> set removals.
         cc_causeId a \<in> set (observedAssignmentCauseIds removal) \<and>
         oa_relationKey a = rm_relationKey removal \<and>
         isAncestor g (cc_causeId a) (rm_causeId removal))) assignments"
proof -
  have same: "asg = a" if "asg \<in> set assignments" "a \<in> set assignments" "cc_causeId asg = cc_causeId a"
    for asg a
    using assms that by (auto simp: distinct_map dest: inj_onD)
  have eq: "filter (\<lambda>a. \<forall>removal \<in> set removals. cc_causeId a \<notin> set (observedAssignmentCauseIds removal))
      assignments =
    filter (\<lambda>a. \<not> (\<exists>removal \<in> set removals.
         cc_causeId a \<in> set (observedAssignmentCauseIds removal) \<and>
         oa_relationKey a = rm_relationKey removal \<and>
         isAncestor g (cc_causeId a) (rm_causeId removal))) assignments"
    if v: "\<forall>removal \<in> set removals. valid_removal (set assignments) (set removals) g removal"
  proof (rule filter_cong[OF refl])
    fix a assume "a \<in> set assignments"
    then show "(\<forall>removal \<in> set removals. cc_causeId a \<notin> set (observedAssignmentCauseIds removal)) \<longleftrightarrow>
      \<not> (\<exists>removal \<in> set removals. cc_causeId a \<in> set (observedAssignmentCauseIds removal) \<and>
         oa_relationKey a = rm_relationKey removal \<and> isAncestor g (cc_causeId a) (rm_causeId removal))"
      using v same unfolding valid_removal_def by metis
  qed
  show ?thesis
    unfolding reduceObservedRemove_ok[OF assms] by (rule conj_cong[OF refl]) (simp only: eq)
qed

theorem reduceObservedRemove_exact_witness:
  "reduceObservedRemove
     [\<lparr>cc_causeId = demo_id 1, cc_value = (), oa_relationKey = ''r''\<rparr>,
      \<lparr>cc_causeId = demo_id 2, cc_value = (), oa_relationKey = ''r''\<rparr>]
     [\<lparr>rm_causeId = demo_id 3, rm_relationKey = ''r'', observedAssignmentCauseIds = [demo_id 1]\<rparr>]
     demo_history =
   ok [\<lparr>cc_causeId = demo_id 2, cc_value = (), oa_relationKey = ''r''\<rparr>]"
  by (subst reduceObservedRemove_exact) (simp_all add: valid_removal_def demo_eval)

text \<open>
  C13. the additive union never throws on canonical facts and never loses one. Every entity with a
  fact is either accepted, with a single fact, exactly when all its facts carry the same canonical
  bytes, or reported as a collision with all its facts; both lists are strictly ordered by entity,
  and neither the entities nor the accepted bytes depend on the order of the input.
\<close>

theorem reduceAdditiveUnion_partitions:
  assumes "canonical_facts P facts" and "list_all (\<lambda>f. id32 (af_entityId f)) facts"
    and "mset facts' = mset facts"
  shows "\<exists>res res'. reduceAdditiveUnion P facts = ok res \<and> reduceAdditiveUnion P facts' = ok res' \<and>
     set (au_facts res) \<subseteq> set facts \<and>
     af_entityId ` set (au_facts res) = {e. \<exists>f \<in> set facts. af_entityId f = e \<and> agree P (facts_of facts e)} \<and>
     set (au_collisions res) =
       {\<lparr>ac_entityId = e, ac_candidates = facts_of facts e\<rparr> | e.
          \<exists>f \<in> set facts. af_entityId f = e \<and> \<not> agree P (facts_of facts e)} \<and>
     sorted_wrt (<) (map af_entityId (au_facts res)) \<and>
     sorted_wrt (<) (map ac_entityId (au_collisions res)) \<and>
     map (\<lambda>f. (af_entityId f, cbor_encode P (authenticatedValue f))) (au_facts res') =
       map (\<lambda>f. (af_entityId f, cbor_encode P (authenticatedValue f))) (au_facts res) \<and>
     map ac_entityId (au_collisions res') = map ac_entityId (au_collisions res)"
proof -
  have sets: "set facts = set facts'" using mset_eq_setD[OF assms(3)] by simp
  then have "canonical_facts P facts'" using assms(1) by (simp add: canonical_facts_def list_all_iff)
  note results = reduceAdditiveUnion_eq[OF assms(1)] reduceAdditiveUnion_eq[OF this]
  have "set (au_facts (additive_result P facts)) \<subseteq> set facts" using accepted_iff by blast
  moreover have "set (au_collisions (additive_result P facts)) =
      {\<lparr>ac_entityId = e, ac_candidates = facts_of facts e\<rparr> | e.
          \<exists>f \<in> set facts. af_entityId f = e \<and> \<not> agree P (facts_of facts e)}"
    using collision_iff[of _ P facts] by blast
  ultimately show ?thesis
    using results accepted_entities additive_sorted[OF assms(2)] additive_values_converge[OF sets assms(2)]
      additive_entities_converge(2)[OF sets assms(2)] by (metis (no_types, lifting))
qed

definition demo_fact :: "byte \<Rightarrow> byte \<Rightarrow> int \<Rightarrow> additive_fact" where
  "demo_fact e c v = \<lparr>af_entityId = demo_id e, af_causeId = demo_id c, authenticatedValue = CNum v\<rparr>"

theorem reduceAdditiveUnion_partitions_witness:
  "\<exists>res. reduceAdditiveUnion ref_platform
       [demo_fact 1 2 5, demo_fact 1 3 5, demo_fact 2 3 6, demo_fact 2 4 7] = ok res \<and>
     set (au_facts res) \<subseteq> {demo_fact 1 2 5, demo_fact 1 3 5, demo_fact 2 3 6, demo_fact 2 4 7}"
proof -
  let ?fs = "[demo_fact 1 2 5, demo_fact 1 3 5, demo_fact 2 3 6, demo_fact 2 4 7]"
  have c: "canonical_facts ref_platform ?fs"
    by (simp add: canonical_facts_def demo_fact_def isSafeInteger_def)
  have i: "list_all (\<lambda>f. id32 (af_entityId f)) ?fs" by (simp add: demo_fact_def)
  obtain res where "reduceAdditiveUnion ref_platform ?fs = ok res" "set (au_facts res) \<subseteq> set ?fs"
    using reduceAdditiveUnion_partitions[OF c i refl] by (elim exE conjE)
  then show ?thesis by auto
qed

end
