(* ===== verification/Directed_Graph.thy ===== *)
theory Directed_Graph
  imports Reducers
begin

text \<open>
  Correctness of \<open>reduceDirectedGraph\<close> (Folder parents, aliases and the other relations of which a
  subject has at most one): the edges it returns form a forest over their sources, each is a causal
  maximum of its source, and a source whose edge it withholds is named by a reported conflict.
\<close>

section \<open>Selecting one edge per source\<close>

abbreviation by_source :: "directed_edge list \<Rightarrow> (string, directed_edge list) jmap" where
  "by_source cs \<equiv> group_by (\<lambda>e. key (sourceId e)) cs"

abbreviation edge_maxima :: "causal_graph \<Rightarrow> directed_edge list \<Rightarrow> directed_edge list" where
  "edge_maxima g es \<equiv> filter (maximal de_causeId g (set es)) es"

lemma push_edges_ok:
  "foldM (push_edge g) m cs = ok m' \<longleftrightarrow>
     (\<forall>c \<in> set cs. has_record g (de_causeId c)) \<and> m' = foldl (group_push (\<lambda>e. key (sourceId e))) m cs"
  by (induction cs arbitrary: m) (auto simp: push_edge_def and_then_eq_Inr)

lemma length_group_by: "length (group_by f xs) = card (f ` set xs)"
proof -
  have "set (mapKeys (group_by f xs)) = f ` set xs"
  proof (rule set_eqI)
    fix k
    have "k \<in> set (mapKeys (group_by f xs)) \<longleftrightarrow> mapGet (group_by f xs) k \<noteq> None"
      by (simp add: map_of_eq_None_iff)
    also have "\<dots> \<longleftrightarrow> filter (\<lambda>x. f x = k) xs \<noteq> []"
      by (simp add: group_by_get split: list.splits)
    finally show "k \<in> set (mapKeys (group_by f xs)) \<longleftrightarrow> k \<in> f ` set xs"
      by (auto simp: filter_empty_conv)
  qed
  then show ?thesis using distinct_card[OF group_by_distinct, of f xs] by simp
qed

lemma one_destination:
  "\<not> length (group_by f xs) > 1 \<longleftrightarrow> (\<forall>x \<in> set xs. \<forall>y \<in> set xs. f x = f y)"
proof -
  have "card (f ` set xs) \<le> 1 \<longleftrightarrow> (\<forall>a \<in> f ` set xs. \<forall>b \<in> f ` set xs. a = b)"
    using card_le_Suc0_iff_eq[of "f ` set xs"] by simp
  then show ?thesis by (simp add: length_group_by not_less)
qed

text \<open>What one group contributes to the edges and to the conflicts.\<close>

definition chosen :: "causal_graph \<Rightarrow> directed_edge list \<Rightarrow> directed_edge list" where
  "chosen g es =
     (if length (group_by (\<lambda>e. key (destinationId e)) (edge_maxima g es)) > 1 then []
      else case first_of (sorted_maxima de_causeId g es) of None \<Rightarrow> [] | Some e \<Rightarrow> [e])"

definition split_conflict :: "causal_graph \<Rightarrow> directed_edge list \<Rightarrow> graph_conflict list" where
  "split_conflict g es =
     (if length (group_by (\<lambda>e. key (destinationId e)) (edge_maxima g es)) > 1
      then [\<lparr>subjectIds = [case es of [] \<Rightarrow> [] | e # _ \<Rightarrow> sourceId e],
             gc_candidates = edge_maxima g es, gc_kind = MultipleDestinations\<rparr>]
      else [])"

lemma select_edge_ok:
  "select_edge g (eff, con) es = ok st \<longleftrightarrow> facts_ok de_causeId g es \<and>
     st = (eff @ chosen g es, con @ split_conflict g es)"
  by (auto simp: select_edge_def Let_def and_then_eq_Inr causalMaxima_ok chosen_def split_conflict_def
      sorted_maxima_def first_of_def split: list.splits)

lemma select_edges_ok:
  "foldM (select_edge g) (eff, con) groups = ok st \<longleftrightarrow>
     (\<forall>es \<in> set groups. facts_ok de_causeId g es) \<and>
     st = (eff @ concat (map (chosen g) groups), con @ concat (map (split_conflict g) groups))"
  by (induction groups arbitrary: eff con) (auto simp: and_then_eq_Inr select_edge_ok)

lemma chosen_spec:
  assumes "e \<in> set (chosen g es)"
  shows "maximal de_causeId g (set es) e"
    and "maximal de_causeId g (set es) m \<Longrightarrow> destinationId m = destinationId e"
proof -
  have one: "\<not> length (group_by (\<lambda>e. key (destinationId e)) (edge_maxima g es)) > 1"
    and e: "first_of (sorted_maxima de_causeId g es) = Some e"
    using assms by (auto simp: chosen_def split: if_splits option.splits)
  then have "e \<in> set (sorted_maxima de_causeId g es)"
    by (auto simp: first_of_def split: list.splits)
  then show max: "maximal de_causeId g (set es) e" by (simp add: set_sorted_maxima)
  show "destinationId m = destinationId e" if "maximal de_causeId g (set es) m"
  proof -
    have "m \<in> set (edge_maxima g es)" "e \<in> set (edge_maxima g es)"
      using that max by (auto simp: maximal_def)
    then have "key (destinationId m) = key (destinationId e)" using one[unfolded one_destination] by blast
    then show ?thesis by simp
  qed
qed

lemma chosen_source: "e \<in> set (chosen g es) \<Longrightarrow> e \<in> set es"
  using chosen_spec(1) by (auto simp: maximal_def)

lemma distinct_chosen:
  assumes "distinct (mapKeys m)" and "\<forall>(k, es) \<in> set m. \<forall>e \<in> set es. key (sourceId e) = k"
  shows "distinct (map sourceId (concat (map (chosen g) (mapValues m))))"
  using assms
proof (induction m)
  case (Cons p m)
  obtain k es where p: "p = (k, es)" by fastforce
  have k: "key (sourceId e) = k" if "e \<in> set (chosen g es)" for e
    using Cons.prems(2) chosen_source[OF that] p by auto
  have other: "key (sourceId e) \<noteq> k" if e: "e \<in> set (concat (map (chosen g) (mapValues m)))" for e
  proof -
    obtain k' es' where "(k', es') \<in> set m" "e \<in> set (chosen g es')" using e by auto
    then have "key (sourceId e) = k'" using Cons.prems(2) chosen_source[of e g es'] by auto
    moreover have "k' \<in> set (mapKeys m)" using \<open>(k', es') \<in> set m\<close> by force
    ultimately show ?thesis using Cons.prems(1) p by auto
  qed
  have "sourceId ` set (chosen g es) \<inter> sourceId ` set (concat (map (chosen g) (mapValues m))) = {}"
  proof (rule equals0I, elim IntE imageE)
    fix s a b
    assume "s = sourceId a" "a \<in> set (chosen g es)" "s = sourceId b"
      "b \<in> set (concat (map (chosen g) (mapValues m)))"
    then show False using k[of a] other[of b] by simp
  qed
  moreover have "distinct (map sourceId (chosen g es))"
    by (simp add: chosen_def split: option.splits)
  moreover have "distinct (map sourceId (concat (map (chosen g) (mapValues m))))"
    using Cons by simp
  ultimately show ?case using p by simp
qed simp

definition effective_edges :: "causal_graph \<Rightarrow> directed_edge list \<Rightarrow> directed_edge list" where
  "effective_edges g cs = concat (map (chosen g) (mapValues (by_source cs)))"

lemma effective_distinct: "distinct (map sourceId (effective_edges g cs))"
  unfolding effective_edges_def
  by (rule distinct_chosen) (auto simp: group_by_distinct group_by_entry)

lemma by_source_values:
  "es \<in> set (mapValues (by_source cs)) \<longleftrightarrow> (\<exists>c \<in> set cs. es = filter (\<lambda>e. sourceId e = sourceId c) cs)"
  unfolding group_by_values by simp

lemma effective_spec:
  assumes "e \<in> set (effective_edges g cs)"
  shows "maximal de_causeId g {c \<in> set cs. sourceId c = sourceId e} e"
    and "maximal de_causeId g {c \<in> set cs. sourceId c = sourceId e} m \<Longrightarrow>
      destinationId m = destinationId e"
proof -
  obtain es where es: "es \<in> set (mapValues (by_source cs))" "e \<in> set (chosen g es)"
    using assms by (auto simp: effective_edges_def)
  then obtain c :: directed_edge where c: "e \<in> set (chosen g (filter (\<lambda>x. sourceId x = sourceId c) cs))"
    unfolding by_source_values by blast
  then have "sourceId e = sourceId c" using chosen_source by force
  then have "{x \<in> set cs. sourceId x = sourceId e} = set (filter (\<lambda>x. sourceId x = sourceId c) cs)"
    by simp
  note eq = this
  show "maximal de_causeId g {c \<in> set cs. sourceId c = sourceId e} e"
    unfolding eq by (rule chosen_spec(1)[OF c])
  show "maximal de_causeId g {c \<in> set cs. sourceId c = sourceId e} m \<Longrightarrow> destinationId m = destinationId e"
    unfolding eq by (rule chosen_spec(2)[OF c])
qed

section \<open>Following the edges\<close>

abbreviation edge_index :: "directed_edge list \<Rightarrow> (string, directed_edge) jmap" where
  "edge_index es \<equiv> mapFrom (map (\<lambda>e. (key (sourceId e), e)) es)"

text \<open>The loop state: the path walked so far, with every source at its position.\<close>

definition path_positions :: "directed_edge list \<Rightarrow> (string, nat) jmap" where
  "path_positions path = zip (map (\<lambda>e. key (sourceId e)) path) [0..<length path]"

lemma path_positions_keys: "fst ` set (path_positions path) = (\<lambda>e. key (sourceId e)) ` set path"
proof -
  have "map fst (path_positions path) = map (\<lambda>e. key (sourceId e)) path"
    by (simp add: path_positions_def)
  then show ?thesis by (metis image_set)
qed

lemma path_positions_snoc:
  "sourceId e \<notin> sourceId ` set path \<Longrightarrow>
     mapSet (path_positions path) (key (sourceId e)) (length path) = path_positions (path @ [e])"
  by (subst update_fresh) (auto simp: path_positions_keys, simp add: path_positions_def)

lemma path_positions_get:
  "mapGet (path_positions path) (key s) = None \<longleftrightarrow> s \<notin> sourceId ` set path"
  by (auto simp: map_of_eq_None_iff path_positions_keys)

lemma path_positions_at:
  assumes "mapGet (path_positions path) (key s) = Some i"
  shows "i < length path" "sourceId (path ! i) = s"
  using map_of_SomeD[OF assms] by (auto simp: path_positions_def in_set_zip)

lemma follow_step:
  assumes "sourceId e \<notin> sourceId ` set path"
  shows "follow ix path (path_positions path) e =
     (case mapGet ix (key (destinationId e)) of
        None \<Rightarrow> None
      | Some nxt \<Rightarrow> follow ix (path @ [e]) (path_positions (path @ [e])) nxt)"
  using assms
  by (simp add: follow.simps[of ix path _ e] path_positions_get[THEN iffD2] path_positions_snoc
      split: option.splits)

lemma follow_stop:
  assumes "mapGet (path_positions path) (key (sourceId e)) = Some i"
  shows "follow ix path (path_positions path) e = Some (drop i path)"
  using assms by (simp add: follow.simps[of ix path _ e])

text \<open>A closed chain of edges, each starting where the one before it ends.\<close>

definition closed_chain :: "directed_edge list \<Rightarrow> bool" where
  "closed_chain cyc \<longleftrightarrow> cyc \<noteq> [] \<and>
     (\<forall>i. Suc i < length cyc \<longrightarrow> destinationId (cyc ! i) = sourceId (cyc ! Suc i)) \<and>
     destinationId (last cyc) = sourceId (hd cyc)"

definition linked :: "directed_edge list \<Rightarrow> bool" where
  "linked path \<longleftrightarrow> (\<forall>i. Suc i < length path \<longrightarrow> destinationId (path ! i) = sourceId (path ! Suc i))"

lemma linked_snoc:
  "linked path \<Longrightarrow> path = [] \<or> destinationId (last path) = sourceId e \<Longrightarrow> linked (path @ [e])"
  unfolding linked_def
  by (auto simp: nth_append less_Suc_eq) (metis diff_Suc_1 last_conv_nth list.size(3) nat.distinct(1))

lemma follow_sound:
  assumes "follow ix path positions e = Some cyc" and "positions = path_positions path"
    and "linked path" and "path = [] \<or> destinationId (last path) = sourceId e"
    and "set path \<union> {e} \<subseteq> E" and "set (mapValues ix) \<subseteq> E"
    and "\<And>k x. mapGet ix (key k) = Some x \<Longrightarrow> sourceId x = k"
  shows "closed_chain cyc \<and> set cyc \<subseteq> E"
  using assms
proof (induction ix path positions e rule: follow.induct)
  case (1 ix path positions e)
  show ?case
  proof (cases "mapGet positions (key (sourceId e))")
    case None
    then have fresh: "sourceId e \<notin> sourceId ` set path"
      using 1(3) path_positions_get by blast
    then obtain nxt where n: "mapGet ix (key (destinationId e)) = Some nxt"
      and f: "follow ix (path @ [e]) (path_positions (path @ [e])) nxt = Some cyc"
      using 1(2,3) follow_step[OF fresh] by (auto split: option.splits)
    have "nxt \<in> E" using map_of_SomeD[OF n] 1(7) by force
    moreover have "sourceId nxt = destinationId e" using 1(8) n by blast
    moreover have "mapSet positions (key (sourceId e)) (length path) = path_positions (path @ [e])"
      using 1(3) path_positions_snoc[OF fresh] by simp
    ultimately show ?thesis
      using 1(1)[OF refl None n] f linked_snoc[OF 1(4,5)] 1(6-8) by simp
  next
    case (Some i)
    note at = path_positions_at[of path "sourceId e" i]
    have i: "i < length path" "sourceId (path ! i) = sourceId e" using Some 1(3) at by simp_all
    have cyc: "cyc = drop i path" using 1(2,3) Some follow_stop[of path e i ix] by simp
    have "linked cyc" using 1(4) cyc by (auto simp: linked_def)
    moreover have "destinationId (last cyc) = sourceId (hd cyc)"
      using i 1(5) cyc by (auto simp: hd_drop_conv_nth last_drop)
    ultimately show ?thesis
      using i cyc 1(6) by (auto simp: closed_chain_def linked_def dest: in_set_dropD)
  qed
qed

text \<open>Started on a simple cycle, the walk returns exactly that cycle.\<close>

lemma follow_complete:
  assumes "\<And>i. i < n \<Longrightarrow> mapGet ix (key (destinationId (e i))) = Some (e (Suc i))"
    and "e n = e 0" and "0 < n" and "inj_on (\<lambda>i. sourceId (e i)) {..<n}" and "m \<le> n"
  shows "follow ix (map e [0..<m]) (path_positions (map e [0..<m])) (e m) = Some (map e [0..<n])"
  using assms(5)
proof (induction rule: inc_induct)
  case base
  let ?path = "map e [0..<n]"
  obtain i where i: "mapGet (path_positions ?path) (key (sourceId (e n))) = Some i"
    using path_positions_get[of ?path "sourceId (e n)"] assms(2,3)
    by (cases "mapGet (path_positions ?path) (key (sourceId (e n)))") auto
  then have "i < n" "sourceId (e i) = sourceId (e 0)"
    using path_positions_at[OF i] assms(2) by simp_all
  then have "i = 0" using assms(3,4) by (auto dest: inj_onD)
  then show ?case using follow_stop[OF i] by simp
next
  case (step m)
  have "sourceId (e m) \<noteq> sourceId (e i)" if "i < m" for i
    using that step.hyps assms(4) by (auto dest: inj_onD)
  note differs = this
  have "sourceId (e m) \<notin> sourceId ` set (map e [0..<m])"
  proof
    assume "sourceId (e m) \<in> sourceId ` set (map e [0..<m])"
    then obtain i where "i < m" "sourceId (e m) = sourceId (e i)" by auto
    then show False using differs by blast
  qed
  then show ?case using follow_step step.IH assms(1)[OF step.hyps(2)] by simp
qed

section \<open>Cycles are reported once each\<close>

lemma join_Cons2: "join sep (p # q # ps) = p @ sep @ join sep (q # ps)"
proof -
  have "foldl (\<lambda>acc s. acc @ sep @ s) (x @ y) ps = x @ foldl (\<lambda>acc s. acc @ sep @ s) y ps" for x y
    by (induction ps arbitrary: y) simp_all
  from this[of "p @ sep" q] show ?thesis by (simp add: join_def)
qed

lemma join_single [simp]: "join sep [p] = p"
  by (simp add: join_def)

lemma join_inject:
  assumes "\<forall>p \<in> set ps \<union> set qs. c \<notin> set p" and "ps \<noteq> []" and "qs \<noteq> []"
    and "join [c] ps = join [c] qs"
  shows "ps = qs"
  using assms
proof (induction ps arbitrary: qs)
  case (Cons p ps)
  have single: "c \<notin> set x \<Longrightarrow> x \<noteq> y @ [c] @ z" for x y z by auto
  show ?case
  proof (cases ps)
    case Nil
    then show ?thesis using Cons.prems single
      by (cases qs; cases "tl qs") (auto simp: join_Cons2)
  next
    case (Cons p' ps')
    show ?thesis
    proof (cases qs)
      case (Cons q qs')
      show ?thesis
      proof (cases qs')
        case Nil
        then show ?thesis using Cons.prems(1,4) single[of q] \<open>ps = p' # ps'\<close> \<open>qs = q # qs'\<close>
          by (auto simp: join_Cons2)
      next
        case (Cons q' qs'')
        have "p = q \<and> join [c] ps = join [c] qs'"
          using Cons.prems(1,4) \<open>ps = _\<close> \<open>qs = _\<close> \<open>qs' = _\<close>
          by (simp add: join_Cons2 split_at_separator)
        then show ?thesis using Cons.IH[of qs'] Cons.prems(1) \<open>ps = _\<close> \<open>qs = _\<close> \<open>qs' = _\<close> by simp
      qed
    qed (use Cons.prems(3) in simp)
  qed
qed simp

lemma cycle_key_sources:
  assumes "cycle_key a = cycle_key b" and "a \<noteq> []" and "b \<noteq> []"
  shows "sourceId ` set a = sourceId ` set b"
proof -
  let ?k = "map (\<lambda>e. key (sourceId e))"
  have "sort (?k a) = sort (?k b)"
    using assms by (intro join_inject[of _ _ "CHR '':''"])
      (auto simp: cycle_key_def key_no_colon simp flip: set_empty)
  then have "set (?k a) = set (?k b)" by (metis set_sort)
  then have "key ` sourceId ` set a = key ` sourceId ` set b" by (simp add: image_image)
  then show ?thesis by (simp add: inj_image_eq_iff[OF inj_key])
qed

lemma follow_from_edge:
  assumes "distinct (map sourceId eff)" and "e \<in> set eff"
    and "follow (edge_index eff) [] [] e = Some cyc"
  shows "closed_chain cyc \<and> set cyc \<subseteq> set eff"
proof (rule follow_sound[OF assms(3)])
  show "sourceId x = k" if "mapGet (edge_index eff) (key k) = Some x" for k x
    using that mapFrom_lookup[OF assms(1)] by blast
  show "set (mapValues (edge_index eff)) \<subseteq> set eff" using mapFrom_subset by fastforce
qed (use assms(2) in \<open>simp_all add: path_positions_def linked_def\<close>)

definition reported :: "directed_edge list \<Rightarrow> string set \<times> graph_conflict list \<Rightarrow> bool" where
  "reported eff st \<longleftrightarrow> (\<forall>k \<in> fst st. \<exists>c \<in> set (snd st). cycle_key (gc_candidates c) = k \<and>
     gc_candidates c \<noteq> [] \<and> set (gc_candidates c) \<subseteq> set eff)"

definition cycle_conflict :: "directed_edge list \<Rightarrow> graph_conflict \<Rightarrow> bool" where
  "cycle_conflict eff c \<longleftrightarrow> gc_kind c = Cycle \<and> closed_chain (gc_candidates c) \<and>
     set (gc_candidates c) \<subseteq> set eff \<and> subjectIds c = map sourceId (gc_candidates c)"

lemma find_cycle_step:
  assumes "distinct (map sourceId eff)" and "e \<in> set eff" and "reported eff st"
    and "st' = find_cycle (edge_index eff) st e"
  shows "reported eff st'" "fst st \<subseteq> fst st'" "set (snd st) \<subseteq> set (snd st')"
    "c \<in> set (snd st') \<Longrightarrow> c \<in> set (snd st) \<or> cycle_conflict eff c"
    "follow (edge_index eff) [] [] e = Some cyc \<Longrightarrow> cycle_key cyc \<in> fst st'"
proof -
  note sound = follow_from_edge[OF assms(1,2)]
  show "reported eff st'"
    using assms(3,4) sound
    by (auto simp: find_cycle_def reported_def closed_chain_def split: option.splits if_splits)
  show "fst st \<subseteq> fst st'" "set (snd st) \<subseteq> set (snd st')"
    using assms(4) by (auto simp: find_cycle_def split: option.splits)
  show "c \<in> set (snd st') \<Longrightarrow> c \<in> set (snd st) \<or> cycle_conflict eff c"
    using assms(4) sound by (auto simp: find_cycle_def cycle_conflict_def split: option.splits if_splits)
  show "follow (edge_index eff) [] [] e = Some cyc \<Longrightarrow> cycle_key cyc \<in> fst st'"
    using assms(4) by (auto simp: find_cycle_def)
qed

lemma find_cycles:
  assumes "distinct (map sourceId eff)" and "set es \<subseteq> set eff" and "reported eff st"
    and "st' = foldl (find_cycle (edge_index eff)) st es"
  shows "reported eff st' \<and> fst st \<subseteq> fst st' \<and> set (snd st) \<subseteq> set (snd st') \<and>
    (\<forall>c \<in> set (snd st'). c \<in> set (snd st) \<or> cycle_conflict eff c) \<and>
    (\<forall>e \<in> set es. \<forall>cyc. follow (edge_index eff) [] [] e = Some cyc \<longrightarrow> cycle_key cyc \<in> fst st')"
  using assms(2-4)
proof (induction es arbitrary: st)
  case (Cons e es)
  let ?st = "find_cycle (edge_index eff) st e"
  have e: "e \<in> set eff" using Cons.prems(1) by simp
  note step = find_cycle_step[OF assms(1) e Cons.prems(2) refl]
  have ih: "reported eff st' \<and> fst ?st \<subseteq> fst st' \<and> set (snd ?st) \<subseteq> set (snd st') \<and>
    (\<forall>c \<in> set (snd st'). c \<in> set (snd ?st) \<or> cycle_conflict eff c) \<and>
    (\<forall>e \<in> set es. \<forall>cyc. follow (edge_index eff) [] [] e = Some cyc \<longrightarrow> cycle_key cyc \<in> fst st')"
    using Cons.prems by (intro Cons.IH step(1)) simp_all
  have "\<forall>c \<in> set (snd st'). c \<in> set (snd st) \<or> cycle_conflict eff c" using ih step(4) by blast
  moreover have "\<forall>cyc. follow (edge_index eff) [] [] e = Some cyc \<longrightarrow> cycle_key cyc \<in> fst st'"
    using ih step(5) by blast
  ultimately show ?case using ih step(2,3) by auto
qed simp

section \<open>The result is a forest\<close>

definition edge_rel :: "directed_edge list \<Rightarrow> (bytes \<times> bytes) set" where
  "edge_rel es = (\<lambda>e. (sourceId e, destinationId e)) ` set es"

lemma simple_cycle:
  assumes d: "distinct (map sourceId es)" and "(s, s) \<in> (edge_rel es)\<^sup>+"
  obtains e :: "nat \<Rightarrow> directed_edge" and n
  where "0 < n" "e n = e 0" "\<forall>i \<le> n. e i \<in> set es"
    "\<forall>i < n. destinationId (e i) = sourceId (e (Suc i))"
    "inj_on (\<lambda>i. sourceId (e i)) {..<n}"
proof -
  let ?R = "edge_rel es" and ?Q = "\<lambda>n. 0 < n \<and> (s, s) \<in> edge_rel es ^^ n"
  define n where "n = (LEAST n. ?Q n)"
  have "\<exists>n. ?Q n" using assms(2) trancl_power by blast
  then have n: "0 < n" "(s, s) \<in> ?R ^^ n" unfolding n_def by (metis (mono_tags, lifting) LeastI_ex)+
  have least: "n \<le> m" if "0 < m" "(s, s) \<in> ?R ^^ m" for m
    unfolding n_def by (rule Least_le) (use that in blast)
  obtain f where f: "f 0 = s" "f n = s" "\<And>i. i < n \<Longrightarrow> (f i, f (Suc i)) \<in> ?R"
    using n(2) unfolding relpow_fun_conv by blast
  have "\<exists>x. x \<in> set es \<and> sourceId x = f i \<and> destinationId x = f (Suc i)" if "i < n" for i
    using f(3)[OF that] by (auto simp: edge_rel_def)
  then obtain x where x: "\<And>i. i < n \<Longrightarrow> x i \<in> set es \<and> sourceId (x i) = f i \<and> destinationId (x i) = f (Suc i)"
    by metis
  define e where "e i = (if i < n then x i else x 0)" for i
  have part: "(f i, f j) \<in> ?R ^^ (j - i)" if "i \<le> j" "j \<le> n" for i j
    unfolding relpow_fun_conv
    by (rule exI[of _ "\<lambda>k. f (i + k)"]) (use f(3) that in auto)
  have inj: "inj_on f {..<n}"
  proof (rule linorder_inj_onI)
    fix i j assume "i < j" "i \<in> {..<n}" "j \<in> {..<n}"
    then have ij: "i < j" "i < n" "j < n" by simp_all
    show "f i \<noteq> f j"
    proof
      assume eq: "f i = f j"
      have "(s, f i) \<in> ?R ^^ i" "(f j, s) \<in> ?R ^^ (n - j)"
        using part[of 0 i] part[of j n] f(1,2) ij by simp_all
      then have "(s, s) \<in> ?R ^^ (i + (n - j))" using eq by (auto simp: relpow_add)
      then show False using least[of "i + (n - j)"] ij by simp
    qed
  qed auto
  have src: "sourceId (e i) = f i" if "i < n" for i using that x by (simp add: e_def)
  show thesis
  proof (rule that[of n e])
    show "0 < n" "e n = e 0" using n by (simp_all add: e_def)
    show "\<forall>i \<le> n. e i \<in> set es" using x n(1) by (simp add: e_def)
    have "destinationId (e i) = sourceId (e (Suc i))" if "i < n" for i
    proof (cases "Suc i < n")
      case False
      then have "Suc i = n" using that by simp
      then show ?thesis using x[OF that] x[OF n(1)] f(1,2) that by (simp add: e_def)
    qed (use that x src in \<open>simp add: e_def\<close>)
    then show "\<forall>i < n. destinationId (e i) = sourceId (e (Suc i))" by blast
    show "inj_on (\<lambda>i. sourceId (e i)) {..<n}"
      using inj src by (simp add: inj_on_def)
  qed
qed

lemma conflicted_causesI:
  "k \<in> set conflicts \<Longrightarrow> e \<in> set (gc_candidates k) \<Longrightarrow> key (de_causeId e) \<in> conflicted_causes conflicts"
  by (auto simp: conflicted_causes_def)

lemma kept_acyclic:
  assumes d: "distinct (map sourceId eff)" and st: "st = foldl (find_cycle (edge_index eff)) ({}, con) eff"
    and kept: "kept = filter (\<lambda>e. key (de_causeId e) \<notin> conflicted_causes (snd st)) eff"
  shows "acyclic (edge_rel kept)"
  unfolding acyclic_def
proof (intro allI notI)
  fix s assume c: "(s, s) \<in> (edge_rel kept)\<^sup>+"
  have dk: "distinct (map sourceId kept)" using d kept distinct_map_filter by blast
  obtain e :: "nat \<Rightarrow> directed_edge" and n where e: "0 < n" "e n = e 0" "\<forall>i \<le> n. e i \<in> set kept"
    "\<forall>i < n. destinationId (e i) = sourceId (e (Suc i))"
    "inj_on (\<lambda>i. sourceId (e i)) {..<n}"
    by (rule simple_cycle[OF dk c])
  have eff: "e i \<in> set eff" if "i \<le> n" for i using e(3) that kept by simp
  have "mapGet (edge_index eff) (key (destinationId (e i))) = Some (e (Suc i))" if "i < n" for i
    using mapFrom_lookup[OF d] e(4) eff[of "Suc i"] that by simp
  then have f: "follow (edge_index eff) [] [] (e 0) = Some (map e [0..<n])"
    using follow_complete[of n "edge_index eff" e 0] e(1,2,5) by (simp add: path_positions_def)
  have all: "reported eff st \<and> cycle_key (map e [0..<n]) \<in> fst st"
    using find_cycles[OF d subset_refl _ st] f eff[of 0] by (auto simp: reported_def)
  then obtain c where c: "c \<in> set (snd st)" "cycle_key (gc_candidates c) = cycle_key (map e [0..<n])"
    "gc_candidates c \<noteq> []" "set (gc_candidates c) \<subseteq> set eff"
    by (auto simp: reported_def)
  have "sourceId ` set (gc_candidates c) = sourceId ` set (map e [0..<n])"
    using cycle_key_sources[OF c(2,3)] e(1) by simp
  moreover have "sourceId (e 0) \<in> sourceId ` set (map e [0..<n])" using e(1) by auto
  ultimately have "sourceId (e 0) \<in> sourceId ` set (gc_candidates c)" by simp
  then obtain x where x: "x \<in> set (gc_candidates c)" "sourceId x = sourceId (e 0)" by force
  then have "x = e 0" using d c(4) eff[of 0] by (auto simp: distinct_map dest: inj_onD)
  then have "key (de_causeId (e 0)) \<in> conflicted_causes (snd st)"
    using conflicted_causesI[OF c(1) x(1)] by simp
  then show False using e(3) kept by simp
qed

section \<open>Properties\<close>

lemma reduceDirectedGraph_ok:
  assumes "reduceDirectedGraph candidates g = ok res"
  obtains con st where
    "con = concat (map (split_conflict g) (mapValues (by_source candidates)))"
    "st = foldl (find_cycle (edge_index (effective_edges g candidates))) ({}, con)
            (effective_edges g candidates)"
    "dg_conflicts res = snd st"
    "dg_edges res = filter (\<lambda>e. key (de_causeId e) \<notin> conflicted_causes (snd st))
            (effective_edges g candidates)"
proof -
  obtain m eff con where "foldM (push_edge g) [] candidates = ok m"
    "foldM (select_edge g) ([], []) (mapValues m) = ok (eff, con)"
    and res: "res = (let st = foldl (find_cycle (edge_index eff)) ({}, con) eff in
      \<lparr>dg_edges = filter (\<lambda>e. key (de_causeId e) \<notin> conflicted_causes (snd st)) eff,
       dg_conflicts = snd st\<rparr>)"
    using assms by (auto simp: reduceDirectedGraph_def and_then_eq_Inr Let_def)
  then have "eff = effective_edges g candidates"
    "con = concat (map (split_conflict g) (mapValues (by_source candidates)))"
    by (simp_all add: push_edges_ok select_edges_ok effective_edges_def group_by_def)
  then show thesis
    using that[OF _ refl, of con] res by (simp add: Let_def)
qed

lemma effective_subset: "e \<in> set (effective_edges g cs) \<Longrightarrow> e \<in> set cs"
  using effective_spec(1) by (auto simp: maximal_def)

lemma split_conflict_genuine:
  assumes "k \<in> set (concat (map (split_conflict g) (mapValues (by_source cs))))"
  shows "gc_kind k = MultipleDestinations \<and> (\<exists>a b. {a, b} \<subseteq> set (gc_candidates k) \<and> a \<noteq> b \<and>
         sourceId a = sourceId b \<and> destinationId a \<noteq> destinationId b \<and>
         maximal de_causeId g {x \<in> set cs. sourceId x = sourceId a} a \<and>
         maximal de_causeId g {x \<in> set cs. sourceId x = sourceId a} b)"
proof -
  obtain es where es: "es \<in> set (mapValues (by_source cs))" "k \<in> set (split_conflict g es)"
    using assms by auto
  then obtain c :: directed_edge where c: "es = filter (\<lambda>e. sourceId e = sourceId c) cs"
    unfolding by_source_values by blast
  have many: "length (group_by (\<lambda>e. key (destinationId e)) (edge_maxima g es)) > 1"
    and k: "gc_kind k = MultipleDestinations" "gc_candidates k = edge_maxima g es"
    using es(2) by (auto simp: split_conflict_def split: if_splits)
  then obtain a b where ab: "a \<in> set (edge_maxima g es)" "b \<in> set (edge_maxima g es)"
    "destinationId a \<noteq> destinationId b"
    using one_destination by (metis (mono_tags, lifting) key_inject)
  then have "sourceId a = sourceId c" "sourceId b = sourceId c" using c by auto
  moreover have "{x \<in> set cs. sourceId x = sourceId c} = set es" using c by simp
  ultimately show ?thesis using ab k by (intro conjI exI[of _ a] exI[of _ b]) auto
qed

lemma source_accounted:
  assumes "graph_inv g" and "c \<in> set cs"
    and "set (concat (map (split_conflict g) (mapValues (by_source cs)))) \<subseteq> set conflicts"
    and "kept = filter (\<lambda>e. key (de_causeId e) \<notin> conflicted_causes conflicts) (effective_edges g cs)"
  shows "\<exists>e. maximal de_causeId g {x \<in> set cs. sourceId x = sourceId c} e \<and>
     (e \<in> set kept \<or> key (de_causeId e) \<in> conflicted_causes conflicts)"
proof -
  let ?es = "filter (\<lambda>e. sourceId e = sourceId c) cs"
  have es: "?es \<in> set (mapValues (by_source cs))" unfolding by_source_values using assms(2) by blast
  have S: "{x \<in> set cs. sourceId x = sourceId c} = set ?es" by simp
  have "?es \<noteq> []" using assms(2) by (auto simp: filter_empty_conv)
  then have "sorted_maxima de_causeId g ?es \<noteq> []" by (rule sorted_maxima_nonempty[OF assms(1)])
  then obtain e where e: "first_of (sorted_maxima de_causeId g ?es) = Some e"
    by (cases "sorted_maxima de_causeId g ?es") (auto simp: first_of_def)
  then have max: "maximal de_causeId g (set ?es) e"
    using set_sorted_maxima[of de_causeId g ?es] by (auto simp: first_of_def split: list.splits)
  show ?thesis
  proof (cases "length (group_by (\<lambda>e. key (destinationId e)) (edge_maxima g ?es)) > 1")
    case True
    then obtain k where "k \<in> set (split_conflict g ?es)" "gc_candidates k = edge_maxima g ?es"
      by (auto simp: split_conflict_def)
    moreover have "e \<in> set (edge_maxima g ?es)" using max by (simp add: maximal_def)
    moreover have "set (split_conflict g ?es) \<subseteq> set conflicts" using es assms(3) by fastforce
    ultimately have "key (de_causeId e) \<in> conflicted_causes conflicts"
      by (metis conflicted_causesI subsetD)
    then show ?thesis using max S by metis
  next
    case False
    then have "e \<in> set (chosen g ?es)" using e by (simp add: chosen_def)
    then have "e \<in> set (effective_edges g cs)" using es by (force simp: effective_edges_def)
    then show ?thesis using max S assms(4) by (metis (mono_tags, lifting) filter_set mem_Collect_eq set_filter)
  qed
qed

text \<open>
  C14. whatever concurrent edges the replicas wrote, the edges that the directed graph reduction
  returns give every source at most one destination and contain no cycle; each returned edge is a
  causal maximum among the candidates of its source, and no other maximum of that source has
  another destination.
\<close>

theorem reduceDirectedGraph_forest:
  assumes "reduceDirectedGraph candidates g = ok res"
  shows "distinct (map sourceId (dg_edges res)) \<and> acyclic (edge_rel (dg_edges res)) \<and>
    (\<forall>e \<in> set (dg_edges res).
       maximal de_causeId g {c \<in> set candidates. sourceId c = sourceId e} e \<and>
       (\<forall>m. maximal de_causeId g {c \<in> set candidates. sourceId c = sourceId e} m \<longrightarrow>
          destinationId m = destinationId e))"
proof -
  obtain con st where "con = concat (map (split_conflict g) (mapValues (by_source candidates)))"
    and st: "st = foldl (find_cycle (edge_index (effective_edges g candidates))) ({}, con)
            (effective_edges g candidates)"
    and "dg_conflicts res = snd st"
    and kept: "dg_edges res = filter (\<lambda>e. key (de_causeId e) \<notin> conflicted_causes (snd st))
            (effective_edges g candidates)"
    by (rule reduceDirectedGraph_ok[OF assms])
  have "distinct (map sourceId (dg_edges res))"
    unfolding kept by (rule distinct_map_filter[OF effective_distinct])
  moreover have "acyclic (edge_rel (dg_edges res))"
    by (rule kept_acyclic[OF effective_distinct st kept])
  moreover have "e \<in> set (effective_edges g candidates)" if "e \<in> set (dg_edges res)" for e
    using that kept by simp
  ultimately show ?thesis using effective_spec by blast
qed

definition demo_edge :: "byte \<Rightarrow> byte \<Rightarrow> byte \<Rightarrow> directed_edge" where
  "demo_edge s d c = \<lparr>sourceId = demo_id s, destinationId = demo_id d, de_causeId = demo_id c\<rparr>"

theorem reduceDirectedGraph_forest_witness:
  "\<exists>res. reduceDirectedGraph [demo_edge 7 8 2, demo_edge 8 9 3] demo_history = ok res \<and>
     acyclic (edge_rel (dg_edges res))"
proof -
  have "\<exists>res. reduceDirectedGraph [demo_edge 7 8 2, demo_edge 8 9 3] demo_history = ok res"
    by (simp add: reduceDirectedGraph_def push_edge_def group_push_def select_edge_def causalMaxima_def
        index_fact_def demo_edge_def superseded_def group_by_def demo_eval first_of_def)
  then show ?thesis using reduceDirectedGraph_forest by blast
qed



end
