(* ===== verification/Codec.thy ===== *)
theory Codec
  imports Canonical_Value
begin

text \<open>
  What the callers of \<open>encodeCanonicalValue\<close> rely on of the CBOR encoder when they compare
  encodings instead of values: encoded items are self-delimiting, so the encoding of an array or
  of a map determines the encodings of its elements, and byte strings, texts and integers are
  encoded injectively. The locale \<open>array_codec\<close> names these laws; the reference encoder of
  RFC 8949 satisfies them.
\<close>

section \<open>The laws\<close>

locale array_codec =
  fixes P :: platform
  assumes array_law:
      "canonical_all P vs \<Longrightarrow> canonical_all P ws \<Longrightarrow>
       cbor_encode P (CArray vs) = cbor_encode P (CArray ws) \<Longrightarrow>
       map (cbor_encode P) vs = map (cbor_encode P) ws"
    and map_law:
      "canonical P (CMap m) \<Longrightarrow> canonical P (CMap m') \<Longrightarrow> mapKeys m = mapKeys m' \<Longrightarrow>
       distinct (map (\<lambda>k. case k of KBigInt n \<Rightarrow> KNum n | _ \<Rightarrow> k) (mapKeys m)) \<Longrightarrow>
       cbor_encode P (CMap m) = cbor_encode P (CMap m') \<Longrightarrow>
       map (cbor_encode P) (mapValues m) = map (cbor_encode P) (mapValues m')"
    and bytes_law: "cbor_encode P (CBytes a) = cbor_encode P (CBytes b) \<Longrightarrow> a = b"
    and text_law: "nfc P s = s \<Longrightarrow> nfc P t = t \<Longrightarrow>
       cbor_encode P (CText s) = cbor_encode P (CText t) \<Longrightarrow> s = t"
    and number_law: "isSafeInteger i \<Longrightarrow> isSafeInteger j \<Longrightarrow>
       cbor_encode P (CNum i) = cbor_encode P (CNum j) \<Longrightarrow> i = j"
begin

lemma bytes_encode_inj: "inj (\<lambda>b. cbor_encode P (CBytes b))"
  by (rule injI) (rule bytes_law)

lemma byte_array_law:
  assumes "cbor_encode P (CArray (map CBytes as)) = cbor_encode P (CArray (map CBytes bs))"
  shows "as = bs"
proof -
  have "map (cbor_encode P) (map CBytes as) = map (cbor_encode P) (map CBytes bs)"
    using assms by (intro array_law) (simp_all add: list_all_iff)
  then have "map (\<lambda>b. cbor_encode P (CBytes b)) as = map (\<lambda>b. cbor_encode P (CBytes b)) bs"
    by (simp add: comp_def)
  then show ?thesis using bytes_encode_inj by (simp add: inj_map_eq_map)
qed

lemma canonicalSet_bytes_fixpoint:
  assumes "canonicalSet P (map CBytes as) = ok ws"
    and "cbor_encode P (CArray (map CBytes as)) = cbor_encode P (CArray ws)"
  shows "ws = map CBytes as \<and> distinct as"
proof -
  have ws: "mset ws = mset (map CBytes as)" using canonicalSet_strict[OF assms(1)] by simp
  then have "\<exists>bs. ws = map CBytes bs"
    by (metis ex_map_conv image_iff list.set_map set_mset_mset)
  then obtain bs where bs: "ws = map CBytes bs" by blast
  then have "as = bs" using assms(2) byte_array_law by simp
  moreover have "distinct as"
    using assms(1) by (auto simp: canonicalSet_ok distinct_map)
  ultimately show ?thesis using bs by simp
qed

end

section \<open>The reference encoder is self-delimiting\<close>

lemma uint_byte: "0 \<le> x \<Longrightarrow> x < 256 \<Longrightarrow> uint (word_of_int x :: byte) = x"
  by (simp add: uint_word_of_int)

lemma initial_byte_inj:
  assumes "(word_of_int (32 * int a + i) :: byte) = word_of_int (32 * int b + j)"
    and "a < 8" "b < 8" "0 \<le> i" "i < 32" "0 \<le> j" "j < 32"
  shows "a = b \<and> i = j"
proof -
  have "uint (word_of_int (32 * int a + i) :: byte) = uint (word_of_int (32 * int b + j) :: byte)"
    using assms(1) by simp
  moreover have "uint (word_of_int (32 * int a + i) :: byte) = 32 * int a + i"
    "uint (word_of_int (32 * int b + j) :: byte) = 32 * int b + j"
    using assms(2-) by (intro uint_byte; simp)+
  ultimately have *: "32 * int a + i = 32 * int b + j" by simp
  then have "(32 * int a + i) div 32 = (32 * int b + j) div 32" by simp
  then have "int a = int b" using assms by simp
  with * show ?thesis by simp
qed

lemma unary_inj: "replicate m (1 :: byte) @ 0 # xs = replicate n 1 @ 0 # ys \<Longrightarrow> m = n \<and> xs = ys"
proof (induction m arbitrary: n)
  case 0
  then show ?case by (cases n) auto
next
  case (Suc m)
  then show ?case by (cases n) auto
qed

definition head_code :: "nat \<Rightarrow> int" where
  "head_code n = (if n < 24 then int n else if n < 2 ^ 8 then 24 else if n < 2 ^ 16 then 25
     else if n < 2 ^ 32 then 26 else if n < 2 ^ 64 then 27 else 28)"

definition head_rest :: "nat \<Rightarrow> bytes" where
  "head_rest n = (if n < 24 then [] else if n < 2 ^ 8 then big_endian 1 (int n)
     else if n < 2 ^ 16 then big_endian 2 (int n) else if n < 2 ^ 32 then big_endian 4 (int n)
     else if n < 2 ^ 64 then big_endian 8 (int n) else replicate n 1 @ [0])"

lemma cbor_head_alt: "cbor_head a n = word_of_int (32 * int a + head_code n) # head_rest n"
  by (simp add: cbor_head_def head_code_def head_rest_def Let_def)

lemma head_code_range: "0 \<le> head_code n" "head_code n < 32"
  by (auto simp: head_code_def)

lemma head_rest_inj:
  assumes c: "head_code m = head_code n" and r: "head_rest m @ xs = head_rest n @ ys"
  shows "m = n \<and> xs = ys"
proof -
  have be: "m = n \<and> xs = ys"
    if "big_endian k (int m) @ xs = big_endian k (int n) @ ys" "int m < 256 ^ k" "int n < 256 ^ k" for k
    using that big_endian_inj[of "int m" k "int n"] by simp
  consider "m < 24" "n = m" | "24 \<le> m" "m < 2 ^ 8" "24 \<le> n" "n < 2 ^ 8"
    | "2 ^ 8 \<le> m" "m < 2 ^ 16" "2 ^ 8 \<le> n" "n < 2 ^ 16"
    | "2 ^ 16 \<le> m" "m < 2 ^ 32" "2 ^ 16 \<le> n" "n < 2 ^ 32"
    | "2 ^ 32 \<le> m" "m < 2 ^ 64" "2 ^ 32 \<le> n" "n < 2 ^ 64"
    | "2 ^ 64 \<le> m" "2 ^ 64 \<le> n"
    using c by (auto simp: head_code_def split: if_splits)
  then show ?thesis
  proof cases
    case 1 then show ?thesis using r by simp
  next
    case 2 then show ?thesis using r be[of 1] by (simp add: head_rest_def)
  next
    case 3 then show ?thesis using r be[of 2] by (simp add: head_rest_def)
  next
    case 4 then show ?thesis using r be[of 4] by (simp add: head_rest_def)
  next
    case 5 then show ?thesis using r be[of 8] by (simp add: head_rest_def)
  next
    case 6 then show ?thesis using r unary_inj[of m xs n ys] by (simp add: head_rest_def)
  qed
qed

lemma cbor_head_inj:
  assumes "cbor_head a m @ xs = cbor_head b n @ ys" "a < 8" "b < 8"
  shows "a = b \<and> m = n \<and> xs = ys"
proof -
  have "a = b \<and> head_code m = head_code n"
    using assms by (intro initial_byte_inj) (simp_all add: cbor_head_alt head_code_range)
  moreover have "head_rest m @ xs = head_rest n @ ys" using assms by (simp add: cbor_head_alt)
  ultimately show ?thesis using head_rest_inj by blast
qed

text \<open>Every encoded item is a head followed by a payload.\<close>

definition encoded_entries :: "(ckey \<times> cvalue) list \<Rightarrow> (bytes \<times> bytes) list" where
  "encoded_entries es = sort_by (\<lambda>l r. compareBytes (fst l) (fst r))
     (map (\<lambda>e. (cbor_key (fst e), cbor_reference (snd e))) es)"

fun item_head :: "cvalue \<Rightarrow> nat \<times> nat" where
  "item_head CNull = (7, 22)"
| "item_head (CBool b) = (7, if b then 21 else 20)"
| "item_head (CNum n) = (if 0 \<le> n then (0, nat n) else (1, nat (- 1 - n)))"
| "item_head (CBigInt n) = (if 0 \<le> n then (0, nat n) else (1, nat (- 1 - n)))"
| "item_head (CText s) = (3, length s)"
| "item_head (CBytes bs) = (2, length bs)"
| "item_head (CArray vs) = (4, length vs)"
| "item_head (CMap es) = (5, length es)"
| "item_head _ = (7, 0)"

fun item_parts :: "cvalue \<Rightarrow> bytes list" where
  "item_parts (CText s) = [utf8 s]"
| "item_parts (CBytes bs) = [bs]"
| "item_parts (CArray vs) = map cbor_reference vs"
| "item_parts (CMap es) = concat (map (\<lambda>e. [fst e, snd e]) (encoded_entries es))"
| "item_parts _ = []"

lemma concat_pairs: "concat (concat (map (\<lambda>e. [fst e, snd e]) es)) = concat (map (\<lambda>e. fst e @ snd e) es)"
  by (induction es) simp_all

lemma simple_heads: "cbor_head 7 22 = [0xf6]" "cbor_head 7 21 = [0xf5]" "cbor_head 7 20 = [0xf4]"
  by (simp_all add: cbor_head_def)

lemma item_shape:
  "canonical ref_platform v \<Longrightarrow>
     cbor_reference v = cbor_head (fst (item_head v)) (snd (item_head v)) @ concat (item_parts v)"
  by (cases v) (simp_all add: cbor_int_def encoded_entries_def concat_pairs simple_heads)

lemma item_major: "fst (item_head v) < 8"
  by (cases v) auto

definition self_delimiting :: "bytes \<Rightarrow> bool" where
  "self_delimiting a \<longleftrightarrow>
     (\<forall>w xs ys. canonical ref_platform w \<longrightarrow> a @ xs = cbor_reference w @ ys \<longrightarrow>
        a = cbor_reference w \<and> xs = ys)"

lemma self_delimiting_concat:
  assumes "length as = length bs" "list_all self_delimiting as"
    and "\<forall>b \<in> set bs. \<exists>w. canonical ref_platform w \<and> b = cbor_reference w"
    and "concat as @ xs = concat bs @ ys"
  shows "as = bs \<and> xs = ys"
  using assms
proof (induction as bs rule: list_induct2)
  case (Cons a as b bs)
  then obtain w where w: "canonical ref_platform w" "b = cbor_reference w" by auto
  have "a @ (concat as @ xs) = cbor_reference w @ (concat bs @ ys)"
    using Cons.prems w by simp
  then have "a = b \<and> concat as @ xs = concat bs @ ys"
    using Cons.prems(1) w unfolding self_delimiting_def by simp
  then show ?case using Cons by simp
qed simp

lemma cbor_key_item:
  "canonical_key k \<Longrightarrow> \<exists>w. canonical ref_platform w \<and> cbor_key k = cbor_reference w \<and>
     (\<forall>vs es. w \<noteq> CArray vs \<and> w \<noteq> CMap es)"
proof (cases k)
  case (KNum n)
  assume "canonical_key k"
  then show ?thesis using KNum by (intro exI[of _ "CNum n"]) (simp add: isSafeInteger_def)
next
  case (KBigInt n)
  assume "canonical_key k"
  then show ?thesis using KBigInt by (intro exI[of _ "CBigInt n"]) simp
next
  case (KText s)
  then show ?thesis by (intro exI[of _ "CText s"]) simp
qed simp_all

lemma encoded_entries_set:
  "set (encoded_entries es) = (\<lambda>e. (cbor_key (fst e), cbor_reference (snd e))) ` set es"
  by (simp add: encoded_entries_def)

lemma item_parts_items:
  assumes "canonical ref_platform w" "\<forall>s. w \<noteq> CText s" "\<forall>s. w \<noteq> CBytes s"
  shows "\<forall>b \<in> set (item_parts w). \<exists>u. canonical ref_platform u \<and> b = cbor_reference u"
proof (cases w)
  case (CArray vs)
  then show ?thesis using assms by (auto simp: list_all_iff)
next
  case (CMap es)
  then show ?thesis
    using assms by (auto simp: list_all_iff encoded_entries_set) (metis cbor_key_item fst_conv)
qed (use assms in auto)

lemma encoded_entries_length [simp]: "length (encoded_entries es) = length es"
  by (simp add: encoded_entries_def)

lemma length_item_parts:
  "snd (item_head w) = snd (item_head v) \<Longrightarrow> fst (item_head w) = fst (item_head v) \<Longrightarrow>
     length (item_parts w) = length (item_parts v)"
  by (cases v; cases w) (auto simp: length_concat comp_def sum_list_triv split: if_splits)

lemma self_delimiting_by_parts:
  assumes v: "canonical ref_platform v"
    and parts: "\<forall>s. v \<noteq> CText s \<Longrightarrow> \<forall>s. v \<noteq> CBytes s \<Longrightarrow> list_all self_delimiting (item_parts v)"
  shows "self_delimiting (cbor_reference v)"
  unfolding self_delimiting_def
proof (intro allI impI)
  fix w xs ys
  assume w: "canonical ref_platform w" and eq: "cbor_reference v @ xs = cbor_reference w @ ys"
  then have "fst (item_head v) = fst (item_head w) \<and> snd (item_head v) = snd (item_head w) \<and>
      concat (item_parts v) @ xs = concat (item_parts w) @ ys"
    using v by (intro cbor_head_inj) (simp_all add: item_shape item_major)
  then have h: "item_head v = item_head w" "concat (item_parts v) @ xs = concat (item_parts w) @ ys"
    by (simp_all add: prod_eq_iff)
  have "item_parts v = item_parts w \<and> xs = ys"
  proof (cases "(\<exists>s. v = CText s) \<or> (\<exists>s. v = CBytes s)")
    case True
    then have "length (concat (item_parts v)) = length (concat (item_parts w))"
      using h(1) by (cases w) (auto simp: utf8_def split: if_splits)
    then show ?thesis using True h by (cases w) (auto split: if_splits)
  next
    case False
    then have "(\<forall>s. w \<noteq> CText s) \<and> (\<forall>s. w \<noteq> CBytes s)"
      using h(1) by (cases v; cases w) (auto split: if_splits)
    then show ?thesis
      using self_delimiting_concat[of "item_parts v" "item_parts w" xs ys] False parts h
        item_parts_items[OF w] length_item_parts[of v w] by simp
  qed
  then show "cbor_reference v = cbor_reference w \<and> xs = ys"
    using h(1) item_shape[OF v] item_shape[OF w] by simp
qed

lemma self_delimiting_key: "canonical_key k \<Longrightarrow> self_delimiting (cbor_key k)"
proof -
  assume "canonical_key k"
  then obtain w where w: "canonical ref_platform w" "cbor_key k = cbor_reference w"
    "\<forall>vs es. w \<noteq> CArray vs \<and> w \<noteq> CMap es"
    using cbor_key_item by blast
  then show ?thesis using self_delimiting_by_parts[OF w(1)] by (cases w) auto
qed

lemma cbor_reference_self_delimiting:
  "canonical ref_platform v \<Longrightarrow> self_delimiting (cbor_reference v)"
proof (induction v)
  case (CArray vs)
  then show ?case
    by (intro self_delimiting_by_parts) (auto simp: list_all_iff)
next
  case (CMap es)
  have "list_all self_delimiting (item_parts (CMap es))"
  proof -
    have "self_delimiting (cbor_key k) \<and> self_delimiting (cbor_reference v)" if "(k, v) \<in> set es" for k v
      using that CMap by (auto simp: list_all_iff intro!: self_delimiting_key)
    then show ?thesis by (auto simp: list_all_iff encoded_entries_set)
  qed
  then show ?case using CMap.prems by (intro self_delimiting_by_parts) auto
qed (rule self_delimiting_by_parts; simp)+

section \<open>The reference encoder satisfies the laws\<close>

lemma item_parts_inj:
  assumes "canonical ref_platform v" "canonical ref_platform w"
    and "cbor_reference v = cbor_reference w"
  shows "item_head v = item_head w \<and> concat (item_parts v) = concat (item_parts w)"
proof -
  have "fst (item_head v) = fst (item_head w) \<and> snd (item_head v) = snd (item_head w) \<and>
      concat (item_parts v) = concat (item_parts w)"
    using assms by (intro cbor_head_inj) (simp_all add: item_shape item_major)
  then show ?thesis by (simp add: prod_eq_iff)
qed

lemma structured_parts_inj:
  assumes "canonical ref_platform v" "canonical ref_platform w"
    and "cbor_reference v = cbor_reference w"
    and "(\<exists>vs. v = CArray vs) \<or> (\<exists>es. v = CMap es)"
  shows "item_parts v = item_parts w"
proof -
  note h = item_parts_inj[OF assms(1-3)]
  have w: "(\<exists>vs. w = CArray vs) \<or> (\<exists>es. w = CMap es)"
    using h assms(4) by (cases w) (auto split: if_splits)
  have "\<forall>b \<in> set (item_parts v). \<exists>u. canonical ref_platform u \<and> b = cbor_reference u"
    using assms(4) by (intro item_parts_items[OF assms(1)]) auto
  then have "self_delimiting b" if "b \<in> set (item_parts v)" for b
    using that cbor_reference_self_delimiting by metis
  then have "list_all self_delimiting (item_parts v)"
    by (simp add: list_all_iff)
  moreover have "\<forall>b \<in> set (item_parts w). \<exists>u. canonical ref_platform u \<and> b = cbor_reference u"
    using item_parts_items[OF assms(2)] w by auto
  moreover have "length (item_parts v) = length (item_parts w)"
    using h by (intro length_item_parts) simp_all
  ultimately show ?thesis
    using self_delimiting_concat[of "item_parts v" "item_parts w" "[]" "[]"] h by simp
qed

lemma pair_list_inj:
  "concat (map (\<lambda>e. [fst e, snd e]) as) = concat (map (\<lambda>e. [fst e, snd e]) bs) \<Longrightarrow> as = bs"
proof (induction as arbitrary: bs)
  case Nil
  then show ?case by (cases bs) auto
next
  case (Cons a as)
  then show ?case by (cases bs) (auto simp: prod_eq_iff)
qed

lemma cbor_int_inj: "cbor_int a = cbor_int b \<Longrightarrow> a = b"
  using cbor_head_inj[of _ _ "[]" _ _ "[]"] by (fastforce simp: cbor_int_def split: if_splits)

lemma cbor_key_inj:
  assumes "canonical_key k" "canonical_key l" "cbor_key k = cbor_key l"
  shows "(case k of KBigInt n \<Rightarrow> KNum n | _ \<Rightarrow> k) = (case l of KBigInt n \<Rightarrow> KNum n | _ \<Rightarrow> l)"
proof -
  have "cbor_head 3 n @ xs \<noteq> cbor_int i" for n xs i
    using cbor_head_inj[of 3 n xs 0 "nat i" "[]"] cbor_head_inj[of 3 n xs 1 "nat (- 1 - i)" "[]"]
    by (auto simp: cbor_int_def)
  moreover have "s = t" if "cbor_head 3 (length s) @ utf8 s = cbor_head 3 (length t) @ utf8 t" for s t
    using cbor_head_inj[OF that] by simp
  ultimately show ?thesis
    using assms by (cases k; cases l) (auto dest: cbor_int_inj sym)
qed

lemma reference_map_law:
  assumes m: "canonical ref_platform (CMap m)" "canonical ref_platform (CMap m')"
    and keys: "mapKeys m = mapKeys m'"
    and dist: "distinct (map (\<lambda>k. case k of KBigInt n \<Rightarrow> KNum n | _ \<Rightarrow> k) (mapKeys m))"
    and eq: "cbor_reference (CMap m) = cbor_reference (CMap m')"
  shows "map cbor_reference (mapValues m) = map cbor_reference (mapValues m')"
proof -
  let ?z = "\<lambda>m. zip (map cbor_key (mapKeys m)) (map cbor_reference (mapValues m))"
  have z: "map (\<lambda>e. (cbor_key (fst e), cbor_reference (snd e))) n = ?z n" for n
    by (induction n) auto
  have "item_parts (CMap m) = item_parts (CMap m')"
    using structured_parts_inj[OF m eq] by blast
  then have "encoded_entries m = encoded_entries m'" by (simp add: pair_list_inj)
  then have "set (?z m) = set (?z m')"
    unfolding z[symmetric] set_map encoded_entries_set[symmetric] by simp
  moreover have "distinct (map cbor_key (mapKeys m))"
  proof -
    have "inj_on cbor_key (set (mapKeys m))"
    proof (rule inj_onI)
      fix k l assume kl: "k \<in> set (mapKeys m)" "l \<in> set (mapKeys m)" "cbor_key k = cbor_key l"
      then have "canonical_key k" "canonical_key l" using m(1) by (auto simp: list_all_iff)
      then have "(case k of KBigInt n \<Rightarrow> KNum n | _ \<Rightarrow> k) = (case l of KBigInt n \<Rightarrow> KNum n | _ \<Rightarrow> l)"
        using kl(3) by (rule cbor_key_inj)
      then show "k = l" using dist kl(1,2) by (meson distinct_map inj_onD)
    qed
    moreover have "distinct (mapKeys m)" using dist by (simp only: distinct_map)
    ultimately show ?thesis by (simp only: distinct_map)
  qed
  ultimately have "map_of (?z m) = map_of (?z m')"
    by (subst map_of_inject_set) (simp_all add: keys map_fst_zip_take)
  then show ?thesis
    using \<open>distinct (map cbor_key (mapKeys m))\<close> keys
    by (intro map_of_zip_inject[of _ "map cbor_key (mapKeys m)"])
      (simp_all, metis length_map)
qed

interpretation ref: array_codec ref_platform
proof
  fix vs ws
  assume "canonical_all ref_platform vs" "canonical_all ref_platform ws"
    "cbor_encode ref_platform (CArray vs) = cbor_encode ref_platform (CArray ws)"
  then show "map (cbor_encode ref_platform) vs = map (cbor_encode ref_platform) ws"
    using structured_parts_inj[of "CArray vs" "CArray ws"] by simp
next
  fix m m'
  assume "canonical ref_platform (CMap m)" "canonical ref_platform (CMap m')"
    "mapKeys m = mapKeys m'"
    "distinct (map (\<lambda>k. case k of KBigInt n \<Rightarrow> KNum n | _ \<Rightarrow> k) (mapKeys m))"
    "cbor_encode ref_platform (CMap m) = cbor_encode ref_platform (CMap m')"
  then show "map (cbor_encode ref_platform) (mapValues m) = map (cbor_encode ref_platform) (mapValues m')"
    using reference_map_law[of m m'] by simp
next
  fix a b
  assume "cbor_encode ref_platform (CBytes a) = cbor_encode ref_platform (CBytes b)"
  then show "a = b" using item_parts_inj[of "CBytes a" "CBytes b"] by simp
next
  fix s t
  assume "cbor_encode ref_platform (CText s) = cbor_encode ref_platform (CText t)"
  then show "s = t" using item_parts_inj[of "CText s" "CText t"] by simp
next
  fix i j
  assume "cbor_encode ref_platform (CNum i) = cbor_encode ref_platform (CNum j)"
  then show "i = j" using cbor_int_inj by simp
qed

lemma append_less_cancel: "xs @ as < xs @ (bs :: bytes) \<longleftrightarrow> as < bs"
  by (induction xs) simp_all

lemma reference_bytes_order:
  "length a = length b \<Longrightarrow> cbor_reference (CBytes a) < cbor_reference (CBytes b) \<longleftrightarrow> a < b"
  by (simp add: append_less_cancel)

end
