(* ===== verification/Schema.thy ===== *)
theory Schema
  imports Codec
begin

text \<open>
  Model of \<open>domain/canonical/identifiers.ts\<close>, \<open>domain/canonical/schema.ts\<close> and
  \<open>domain/canonical/dependencies.ts\<close>: typed 32-byte identifiers, the parsers every body
  validator is built from, and typed dependencies. Each parser gets a lemma that says exactly
  when it returns and what; the set parsers rest on the locale \<open>array_codec\<close>.
\<close>

section \<open>Identifiers\<close>

datatype identifier_kind =
    ArtifactId | BaselineCauseId | BundleId | ClientCredentialId | CollectionId
  | FeatureManifestId | FolderId | GenerationId | InvitationId | KeyEnvelopeId
  | KeyEpochId | MemberId | NoteId | RecoveryCredentialId | RequiredFeatureSetId
  | StorageItemId | TagId | TagAssignmentId | VaultId | VaultObjectId | VaultRecordId

fun kind_name :: "identifier_kind \<Rightarrow> string" where
  "kind_name ArtifactId = ''Artifact''"
| "kind_name BaselineCauseId = ''BaselineCause''"
| "kind_name BundleId = ''Bundle''"
| "kind_name ClientCredentialId = ''ClientCredential''"
| "kind_name CollectionId = ''Collection''"
| "kind_name FeatureManifestId = ''FeatureManifest''"
| "kind_name FolderId = ''Folder''"
| "kind_name GenerationId = ''Generation''"
| "kind_name InvitationId = ''Invitation''"
| "kind_name KeyEnvelopeId = ''KeyEnvelope''"
| "kind_name KeyEpochId = ''KeyEpoch''"
| "kind_name MemberId = ''Member''"
| "kind_name NoteId = ''Note''"
| "kind_name RecoveryCredentialId = ''RecoveryCredential''"
| "kind_name RequiredFeatureSetId = ''RequiredFeatureSet''"
| "kind_name StorageItemId = ''StorageItem''"
| "kind_name TagId = ''Tag''"
| "kind_name TagAssignmentId = ''TagAssignment''"
| "kind_name VaultId = ''Vault''"
| "kind_name VaultObjectId = ''VaultObject''"
| "kind_name VaultRecordId = ''VaultRecord''"

definition NONZERO_IDENTIFIER_KINDS :: "identifier_kind set" where
  "NONZERO_IDENTIFIER_KINDS =
     {BaselineCauseId, BundleId, ClientCredentialId, CollectionId, FolderId, GenerationId,
      InvitationId, MemberId, NoteId, RecoveryCredentialId, TagId, TagAssignmentId, VaultId}"

definition kind_label :: "identifier_kind \<Rightarrow> string" where
  "kind_label kind = kind_name kind @ '' ID''"

definition identifierBytes :: "string \<Rightarrow> bytes \<Rightarrow> bytes res" where
  "identifierBytes field bs =
     (if length bs \<noteq> 32 then throw (TypeError (field @ '' must contain exactly 32 bytes''))
      else ok bs)"

definition identifier_of :: "identifier_kind \<Rightarrow> bytes \<Rightarrow> bytes res" where
  "identifier_of kind bs =
     and_then (identifierBytes (kind_label kind) bs) (\<lambda>copy.
     if kind \<in> NONZERO_IDENTIFIER_KINDS \<and> list_all (\<lambda>b. b = 0) copy
     then throw (TypeError (kind_label kind @ '' must not be all zero''))
     else ok copy)"

text \<open>\<open>entropy\<close> is what \<open>crypto.getRandomValues(new Uint8Array(32))\<close> fills in.\<close>

definition randomIdentifier :: "bytes \<Rightarrow> identifier_kind \<Rightarrow> bytes res" where
  "randomIdentifier entropy kind = identifier_of kind entropy"

definition digestIdentifier :: "platform \<Rightarrow> identifier_kind \<Rightarrow> bytes \<Rightarrow> bytes res" where
  "digestIdentifier P kind bs = identifier_of kind (sha256 P bs)"

definition vaultRecordId :: "platform \<Rightarrow> bytes \<Rightarrow> bytes res" where
  "vaultRecordId P bs =
     and_then (transcript ''awsm:vault-record-id:v1'' [bs]) (digestIdentifier P VaultRecordId)"

definition vaultObjectId :: "platform \<Rightarrow> bytes \<Rightarrow> int \<Rightarrow> bytes \<Rightarrow> bytes res" where
  "vaultObjectId P vaultId objectType bs =
     and_then (uint32be objectType) (\<lambda>type_bytes.
     and_then (transcript ''awsm:vault-object-id:v1'' [vaultId, type_bytes, bs])
       (digestIdentifier P VaultObjectId))"

definition keyEpochId :: "platform \<Rightarrow> bytes \<Rightarrow> bytes \<Rightarrow> bytes res" where
  "keyEpochId P vaultId k =
     (if length k \<noteq> 32 then throw (TypeError ''Key Epoch Key must contain exactly 32 bytes'')
      else digestIdentifier P KeyEpochId (utf8 ''awsm:key-epoch:v1'' @ [0] @ vaultId @ k))"

definition keyEnvelopeId :: "platform \<Rightarrow> bytes \<Rightarrow> bytes res" where
  "keyEnvelopeId P bs =
     and_then (transcript ''awsm:key-envelope-id:v1'' [bs]) (digestIdentifier P KeyEnvelopeId)"

section \<open>Parsers\<close>

definition exactMap :: "cvalue \<Rightarrow> ckey list \<Rightarrow> string \<Rightarrow> cmap res" where
  "exactMap value expectedKeys field =
     (case value of
        CMap m \<Rightarrow>
          (if length m \<noteq> length expectedKeys \<or> list_ex (\<lambda>k. \<not> mapHas m k) expectedKeys
           then throw (TypeError (field @ '' contains missing or unknown fields''))
           else ok m)
      | _ \<Rightarrow> throw (TypeError (field @ '' must be a canonical map'')))"

definition num_keys :: "nat \<Rightarrow> ckey list" where
  "num_keys n = map (\<lambda>i. KNum (int i)) [0..<n]"

definition mapValue :: "cmap \<Rightarrow> int \<Rightarrow> cvalue res" where
  "mapValue m k =
     (case mapGet m (KNum k) of
        None \<Rightarrow> throw (TypeError (''Missing canonical field '' @ int_str k))
      | Some v \<Rightarrow> ok v)"

text \<open>Reading a field and passing it to a parser, the shape of almost every line of a validator.\<close>

definition with_field :: "cmap \<Rightarrow> int \<Rightarrow> (cvalue \<Rightarrow> 'a res) \<Rightarrow> 'a res" where
  "with_field m k parse = and_then (mapValue m k) parse"

text \<open>
  A validator calls most parsers for their exceptions only. \<open>field_ok\<close> is such a call on one
  field, \<open>checks\<close> a sequence of them: the first exception is the exception of the sequence.
\<close>

definition field_ok :: "cmap \<Rightarrow> int \<Rightarrow> (cvalue \<Rightarrow> 'a res) \<Rightarrow> unit res" where
  "field_ok m k parse = and_then (with_field m k parse) (\<lambda>_. ok ())"

definition checks :: "unit res list \<Rightarrow> unit res" where
  "checks cs = foldr (\<lambda>c rest. and_then c (\<lambda>_. rest)) cs (ok ())"

definition integer :: "cvalue \<Rightarrow> string \<Rightarrow> int res" where
  "integer value field =
     (case value of
        CNum n \<Rightarrow>
          (if \<not> isSafeInteger n then throw (TypeError (field @ '' must be a safe integer'')) else ok n)
      | _ \<Rightarrow> throw (TypeError (field @ '' must be a safe integer'')))"

definition signedInteger :: "cvalue \<Rightarrow> string \<Rightarrow> js_integer res" where
  "signedInteger value field =
     (case value of
        CNum n \<Rightarrow>
          (if \<not> isSafeInteger n then throw (TypeError (field @ '' must be an integer''))
           else ok (JNumber n))
      | CBigInt n \<Rightarrow> ok (JBigInt n)
      | _ \<Rightarrow> throw (TypeError (field @ '' must be an integer'')))"

definition nonnegativeInteger :: "cvalue \<Rightarrow> string \<Rightarrow> int res" where
  "nonnegativeInteger value field =
     and_then (integer value field) (\<lambda>parsed.
     if parsed < 0 then throw (TypeError (field @ '' must be nonnegative'')) else ok parsed)"

definition exactCode :: "cvalue \<Rightarrow> int \<Rightarrow> string \<Rightarrow> int res" where
  "exactCode value expected field =
     and_then (integer value field) (\<lambda>parsed.
     if parsed \<noteq> expected then throw (TypeError (field @ '' must be '' @ int_str expected))
     else ok expected)"

definition oneOfCodes :: "cvalue \<Rightarrow> int list \<Rightarrow> string \<Rightarrow> int res" where
  "oneOfCodes value expected field =
     and_then (integer value field) (\<lambda>parsed.
     if parsed \<notin> set expected then throw (TypeError (field @ '' is unknown'')) else ok parsed)"

definition byteString :: "cvalue \<Rightarrow> nat \<Rightarrow> string \<Rightarrow> bytes res" where
  "byteString value len field =
     (case value of
        CBytes bs \<Rightarrow>
          (if length bs \<noteq> len
           then throw (TypeError (field @ '' must contain exactly '' @ nat_str len @ '' bytes''))
           else ok bs)
      | _ \<Rightarrow> throw (TypeError (field @ '' must contain exactly '' @ nat_str len @ '' bytes'')))"

definition identifierValue :: "cvalue \<Rightarrow> identifier_kind \<Rightarrow> string \<Rightarrow> bytes res" where
  "identifierValue value kind field = and_then (byteString value 32 field) (identifier_of kind)"

definition nullable :: "cvalue \<Rightarrow> (cvalue \<Rightarrow> 'a res) \<Rightarrow> 'a option res" where
  "nullable value parse =
     (if value = CNull then ok None else and_then (parse value) (\<lambda>x. ok (Some x)))"

definition booleanValue :: "cvalue \<Rightarrow> string \<Rightarrow> bool res" where
  "booleanValue value field =
     (case value of CBool b \<Rightarrow> ok b | _ \<Rightarrow> throw (TypeError (field @ '' must be a boolean'')))"

record text_options =
  allowLineFeed :: bool
  allowEmpty :: bool
  maxUtf8Bytes :: "nat option"

definition default_text :: text_options where
  "default_text = \<lparr>allowLineFeed = False, allowEmpty = False, maxUtf8Bytes = None\<rparr>"

text \<open>
  Control characters are single bytes below 0x20 or 0x7f in UTF-8, and every other code point is
  coded by bytes outside that range, so the test on code points is the same test on bytes.
\<close>

definition prohibited_control :: "text_options \<Rightarrow> char \<Rightarrow> bool" where
  "prohibited_control options c =
     (((of_char c :: nat) < 0x20 \<or> (of_char c :: nat) = 0x7f) \<and>
      \<not> (allowLineFeed options \<and> (of_char c :: nat) = 0x0a))"

definition textValue :: "cvalue \<Rightarrow> string \<Rightarrow> text_options \<Rightarrow> string res" where
  "textValue value field options =
     (case value of
        CText s \<Rightarrow>
          (if \<not> allowEmpty options \<and> s = []
           then throw (TypeError (field @ '' must not be empty''))
           else if list_ex (prohibited_control options) s
           then throw (TypeError (field @ '' contains a prohibited control character''))
           else if (case maxUtf8Bytes options of None \<Rightarrow> False | Some n \<Rightarrow> length (utf8 s) > n)
           then throw (TypeError (field @ '' exceeds its UTF-8 byte limit''))
           else ok s)
      | _ \<Rightarrow> throw (TypeError (field @ '' must be text'')))"

definition arrayValue :: "cvalue \<Rightarrow> string \<Rightarrow> cvalue list res" where
  "arrayValue value field =
     (case value of CArray vs \<Rightarrow> ok vs | _ \<Rightarrow> throw (TypeError (field @ '' must be an array'')))"

definition nonemptyArray :: "cvalue \<Rightarrow> string \<Rightarrow> cvalue list res" where
  "nonemptyArray value field =
     and_then (arrayValue value field) (\<lambda>result.
     if result = [] then throw (TypeError (field @ '' must not be empty'')) else ok result)"

text \<open>
  \<open>canonicalSetValue\<close> with a callback that also reports a list of findings: the callbacks of
  \<open>baseline-body.ts\<close> push to an array outside. The plain form discards them.
\<close>

definition canonicalSetCollect ::
  "platform \<Rightarrow> cvalue \<Rightarrow> string \<Rightarrow> (nat \<Rightarrow> cvalue \<Rightarrow> (cvalue \<times> 'r list) res) \<Rightarrow> bool \<Rightarrow>
     (cvalue list \<times> 'r list) res" where
  "canonicalSetCollect P value field parse nonempty =
     and_then (arrayValue value field) (\<lambda>input.
     and_then (guard_not (nonempty \<and> input = []) (TypeError (field @ '' must not be empty''))) (\<lambda>_.
     and_then (traverse_i parse 0 input) (\<lambda>results.
     let parsed = map fst results in
     and_then (canonicalSet P parsed) (\<lambda>normalized.
     and_then (encodeCanonicalValue P (CArray input)) (\<lambda>input_bytes.
     and_then (encodeCanonicalValue P (CArray normalized)) (\<lambda>normalized_bytes.
     if \<not> bytesEqual input_bytes normalized_bytes
     then throw (TypeError (field @ '' must be a sorted duplicate-free canonical set''))
     else ok (parsed, concat (map snd results))))))))"

definition canonicalSetValue ::
  "platform \<Rightarrow> cvalue \<Rightarrow> string \<Rightarrow> (nat \<Rightarrow> cvalue \<Rightarrow> cvalue res) \<Rightarrow> bool \<Rightarrow> cvalue list res" where
  "canonicalSetValue P value field parse nonempty =
     and_then (canonicalSetCollect P value field
                 (\<lambda>i v. and_then (parse i v) (\<lambda>w. ok (w, [] :: unit list))) nonempty)
       (\<lambda>r. ok (fst r))"

fun bytes_of :: "cvalue \<Rightarrow> bytes" where
  "bytes_of (CBytes bs) = bs"
| "bytes_of _ = []"

definition idSetValue ::
  "platform \<Rightarrow> cvalue \<Rightarrow> identifier_kind \<Rightarrow> string \<Rightarrow> bool \<Rightarrow> bytes list res" where
  "idSetValue P value kind field nonempty =
     and_then (canonicalSetValue P value field
                 (\<lambda>_ entry. and_then (identifierValue entry kind (kind_label kind)) (\<lambda>b. ok (CBytes b)))
                 nonempty)
       (\<lambda>vs. ok (map bytes_of vs))"

definition exactEmptyMap :: "cvalue \<Rightarrow> string \<Rightarrow> unit res" where
  "exactEmptyMap value field = and_then (exactMap value [] field) (\<lambda>_. ok ())"

section \<open>Typed dependencies\<close>

datatype dependency_type =
    DepVaultRecord | DepVaultBaseline | DepVaultObject | DepBundleDescriptorObject
  | DepArtifactObject | DepNoteContentObject | DepKeyEnvelope | DepFeatureManifest

fun DEPENDENCY_TYPES :: "dependency_type \<Rightarrow> int" where
  "DEPENDENCY_TYPES DepVaultRecord = 1"
| "DEPENDENCY_TYPES DepVaultBaseline = 2"
| "DEPENDENCY_TYPES DepVaultObject = 3"
| "DEPENDENCY_TYPES DepBundleDescriptorObject = 4"
| "DEPENDENCY_TYPES DepArtifactObject = 5"
| "DEPENDENCY_TYPES DepNoteContentObject = 6"
| "DEPENDENCY_TYPES DepKeyEnvelope = 7"
| "DEPENDENCY_TYPES DepFeatureManifest = 8"

text \<open>
  The field \<open>type\<close> is a number that the type checker restricts; decoded records carry it
  unchecked until \<open>dependencyValue\<close> tests it, so it is an integer here.
\<close>

record typed_dependency =
  dep_type :: int
  dep_id :: bytes

definition dependency_codes :: "int list" where
  "dependency_codes = [1, 2, 3, 4, 5, 6, 7, 8]"

definition dependency :: "dependency_type \<Rightarrow> bytes \<Rightarrow> typed_dependency" where
  "dependency t i = \<lparr>dep_type = DEPENDENCY_TYPES t, dep_id = i\<rparr>"

definition dependencyValue :: "typed_dependency \<Rightarrow> cmap res" where
  "dependencyValue d =
     (if dep_type d \<notin> set dependency_codes then throw (TypeError ''Unknown dependency type'')
      else and_then (identifierBytes ''Dependency ID'' (dep_id d)) (\<lambda>i.
           canonicalMap [(0, CNum (dep_type d)), (1, CBytes i)]))"

definition dependencySet :: "platform \<Rightarrow> typed_dependency list \<Rightarrow> cvalue list res" where
  "dependencySet P ds =
     and_then (traverse (\<lambda>d. and_then (dependencyValue d) (\<lambda>m. ok (CMap m))) ds) (canonicalSet P)"

section \<open>When a parser returns\<close>

named_theorems schema_ok "exact conditions under which the schema parsers return"

lemma guard_ok [schema_ok]: "(if b then throw e else ok x) = ok y \<longleftrightarrow> \<not> b \<and> y = x"
  by auto

lemma exactMap_ok [schema_ok]:
  "exactMap value ks field = ok m \<longleftrightarrow>
     value = CMap m \<and> length m = length ks \<and> (\<forall>k \<in> set ks. mapHas m k)"
  by (cases "value") (auto simp: exactMap_def list_ex_iff)

lemma mapValue_ok [schema_ok]: "mapValue m k = ok v \<longleftrightarrow> mapGet m (KNum k) = Some v"
  by (auto simp: mapValue_def split: option.splits)

lemma with_field_ok [schema_ok]:
  "with_field m k parse = ok x \<longleftrightarrow> (\<exists>v. mapGet m (KNum k) = Some v \<and> parse v = ok x)"
  by (auto simp: with_field_def and_then_eq_Inr mapValue_ok)

lemma field_ok_ok [schema_ok]:
  "field_ok m k parse = ok u \<longleftrightarrow> (\<exists>v x. mapGet m (KNum k) = Some v \<and> parse v = ok x)"
  by (auto simp: field_ok_def and_then_eq_Inr with_field_ok)

lemma checks_simps [simp]: "checks [] = ok ()" "checks (c # cs) = and_then c (\<lambda>_. checks cs)"
  by (simp_all add: checks_def)

lemma checks_ok [schema_ok]: "checks cs = ok u \<longleftrightarrow> (\<forall>c \<in> set cs. c = ok ())"
  by (induction cs) (auto simp: and_then_eq_Inr)

lemma integer_ok [schema_ok]: "integer value field = ok n \<longleftrightarrow> value = CNum n \<and> isSafeInteger n"
  by (cases "value") (auto simp: integer_def)

lemma nonnegativeInteger_ok [schema_ok]:
  "nonnegativeInteger value field = ok n \<longleftrightarrow> value = CNum n \<and> isSafeInteger n \<and> 0 \<le> n"
  by (auto simp: nonnegativeInteger_def and_then_eq_Inr schema_ok)

lemma exactCode_ok [schema_ok]:
  "exactCode value c field = ok n \<longleftrightarrow> value = CNum c \<and> isSafeInteger c \<and> n = c"
  by (auto simp: exactCode_def and_then_eq_Inr schema_ok)

lemma oneOfCodes_ok [schema_ok]:
  "oneOfCodes value cs field = ok n \<longleftrightarrow> value = CNum n \<and> isSafeInteger n \<and> n \<in> set cs"
  by (auto simp: oneOfCodes_def and_then_eq_Inr schema_ok)

lemma byteString_ok [schema_ok]:
  "byteString value len field = ok b \<longleftrightarrow> value = CBytes b \<and> length b = len"
  by (cases "value") (auto simp: byteString_def)

text \<open>A well-formed identifier of a kind.\<close>

definition valid_id :: "identifier_kind \<Rightarrow> bytes \<Rightarrow> bool" where
  "valid_id kind b \<longleftrightarrow> id32 b \<and> (kind \<in> NONZERO_IDENTIFIER_KINDS \<longrightarrow> (\<exists>x \<in> set b. x \<noteq> 0))"

lemma identifier_of_ok [schema_ok]: "identifier_of kind bs = ok b \<longleftrightarrow> b = bs \<and> valid_id kind bs"
  by (auto simp: identifier_of_def identifierBytes_def valid_id_def list_all_iff split: if_splits)

lemma identifierValue_ok [schema_ok]:
  "identifierValue value kind field = ok b \<longleftrightarrow> value = CBytes b \<and> valid_id kind b"
  by (auto simp: identifierValue_def and_then_eq_Inr schema_ok valid_id_def)

lemma nullable_ok [schema_ok]:
  "nullable value parse = ok r \<longleftrightarrow>
     (value = CNull \<and> r = None) \<or> (value \<noteq> CNull \<and> (\<exists>x. parse value = ok x \<and> r = Some x))"
  by (auto simp: nullable_def and_then_eq_Inr)

lemma booleanValue_ok [schema_ok]: "booleanValue value field = ok b \<longleftrightarrow> value = CBool b"
  by (cases "value") (auto simp: booleanValue_def)

lemma textValue_ok [schema_ok]:
  "textValue value field opts = ok s \<longleftrightarrow>
     value = CText s \<and> (allowEmpty opts \<or> s \<noteq> []) \<and> \<not> list_ex (prohibited_control opts) s \<and>
     (\<forall>n. maxUtf8Bytes opts = Some n \<longrightarrow> length s \<le> n)"
  by (cases "value") (auto simp: textValue_def utf8_def split: if_splits option.splits)

lemma arrayValue_ok [schema_ok]: "arrayValue value field = ok vs \<longleftrightarrow> value = CArray vs"
  by (cases "value") (auto simp: arrayValue_def)

lemma canonicalSetCollect_ok:
  "canonicalSetCollect P value field parse nonempty = ok (ps, rs) \<longleftrightarrow>
     (\<exists>input results ws. value = CArray input \<and> (nonempty \<longrightarrow> input \<noteq> []) \<and>
        traverse_i parse 0 input = ok results \<and> ps = map fst results \<and>
        rs = concat (map snd results) \<and> canonicalSet P ps = ok ws \<and> canonical_all P input \<and>
        cbor_encode P (CArray input) = cbor_encode P (CArray ws))"
proof -
  have "canonicalSet P ps = ok ws \<Longrightarrow> canonical_all P ws" for ps ws
    by (auto simp: canonicalSet_ok list_all_iff)
  then show ?thesis
    by (auto simp: canonicalSetCollect_def Let_def and_then_eq_Inr schema_ok encodeCanonicalValue_ok
        split: if_splits)
qed

lemma traverse_i_paired:
  "traverse_i (\<lambda>i v. and_then (parse i v) (\<lambda>w. ok (w, []))) j input = ok rs \<longleftrightarrow>
     traverse_i parse j input = ok (map fst rs) \<and> (\<forall>r \<in> set rs. snd r = [])"
proof (induction input arbitrary: j rs)
  case (Cons v vs)
  show ?case by (cases rs) (auto simp: and_then_eq_Inr Cons.IH prod_eq_iff)
qed auto

lemma canonicalSetValue_ok:
  "canonicalSetValue P v field parse nonempty = ok ps \<longleftrightarrow>
     (\<exists>input ws. v = CArray input \<and> (nonempty \<longrightarrow> input \<noteq> []) \<and>
        traverse_i parse 0 input = ok ps \<and> canonicalSet P ps = ok ws \<and> canonical_all P input \<and>
        cbor_encode P (CArray input) = cbor_encode P (CArray ws))" (is "_ \<longleftrightarrow> ?spec")
proof -
  let ?p = "\<lambda>i v. and_then (parse i v) (\<lambda>w. ok (w, [] :: unit list))"
  have "canonicalSetValue P v field parse nonempty = ok ps \<longleftrightarrow>
      (\<exists>rs. canonicalSetCollect P v field ?p nonempty = ok (ps, rs))"
    by (auto simp: canonicalSetValue_def and_then_eq_Inr)
  also have "\<dots> \<longleftrightarrow> ?spec"
  proof
    assume "\<exists>rs. canonicalSetCollect P v field ?p nonempty = ok (ps, rs)"
    then show ?spec by (auto simp: canonicalSetCollect_ok traverse_i_paired)
  next
    assume ?spec
    then show "\<exists>rs. canonicalSetCollect P v field ?p nonempty = ok (ps, rs)"
      by (auto simp: canonicalSetCollect_ok traverse_i_paired comp_def
          intro!: exI[of _ "map (\<lambda>p. (p, [])) ps"])
  qed
  finally show ?thesis .
qed

section \<open>Sets of identifiers\<close>

lemma map_CBytes_inject [simp]: "map CBytes as = map CBytes bs \<longleftrightarrow> as = bs"
  by (rule inj_map_eq_map) (simp add: inj_def)

lemma bytes_of_CBytes [simp]: "bytes_of \<circ> CBytes = id"
  by (simp add: fun_eq_iff)

lemma traverse_i_identifiers:
  "traverse_i (\<lambda>_ entry. and_then (identifierValue entry kind f) (\<lambda>b. ok (CBytes b))) j input = ok ps \<longleftrightarrow>
     ps = input \<and> input = map CBytes (map bytes_of input) \<and> list_all (valid_id kind) (map bytes_of input)"
proof (induction input arbitrary: j ps)
  case (Cons v vs)
  show ?case
    by (cases ps) (auto simp: and_then_eq_Inr schema_ok Cons.IH)
qed auto

lemma sort_key_strict_id: "sorted_wrt (<) (map f xs) \<Longrightarrow> sort_key f xs = xs"
  by (induction xs) (auto simp: insort_is_Cons less_imp_le)

definition id_order :: "platform \<Rightarrow> bytes list \<Rightarrow> bool" where
  "id_order P ids \<longleftrightarrow> sorted_wrt (<) (map (\<lambda>b. cbor_encode P (CBytes b)) ids)"

lemma idSetValue_ok:
  "idSetValue P v kind field nonempty = ok ids \<longleftrightarrow>
     v = CArray (map CBytes ids) \<and> list_all (valid_id kind) ids \<and> (nonempty \<longrightarrow> ids \<noteq> []) \<and>
     (\<exists>ws. canonicalSet P (map CBytes ids) = ok ws \<and>
        cbor_encode P (CArray (map CBytes ids)) = cbor_encode P (CArray ws))" (is "_ \<longleftrightarrow> ?spec")
proof
  assume "idSetValue P v kind field nonempty = ok ids"
  then obtain input ws where h: "v = CArray input" "nonempty \<longrightarrow> input \<noteq> []"
      "input = map CBytes (map bytes_of input)" "list_all (valid_id kind) (map bytes_of input)"
      "canonicalSet P input = ok ws" "cbor_encode P (CArray input) = cbor_encode P (CArray ws)"
      "ids = map bytes_of input"
    by (auto simp: idSetValue_def and_then_eq_Inr canonicalSetValue_ok traverse_i_identifiers)
  then show ?spec by (metis map_is_Nil_conv)
next
  assume ?spec
  then show "idSetValue P v kind field nonempty = ok ids"
    by (auto simp: idSetValue_def and_then_eq_Inr canonicalSetValue_ok traverse_i_identifiers
        list_all_iff intro!: exI[of _ "map CBytes ids"])
qed

context array_codec
begin

lemma canonicalSet_fixpoint_iff:
  "(\<exists>ws. canonicalSet P (map CBytes ids) = ok ws \<and>
      cbor_encode P (CArray (map CBytes ids)) = cbor_encode P (CArray ws)) \<longleftrightarrow> id_order P ids"
proof
  assume "\<exists>ws. canonicalSet P (map CBytes ids) = ok ws \<and>
      cbor_encode P (CArray (map CBytes ids)) = cbor_encode P (CArray ws)"
  then obtain ws where ws: "canonicalSet P (map CBytes ids) = ok ws"
      "cbor_encode P (CArray (map CBytes ids)) = cbor_encode P (CArray ws)" by blast
  then have "ws = map CBytes ids" using canonicalSet_bytes_fixpoint by blast
  with canonicalSet_strict(1)[OF ws(1)] show "id_order P ids"
    by (simp add: id_order_def comp_def)
next
  assume o: "id_order P ids"
  then have "sorted_wrt (<) (map (cbor_encode P) (map CBytes ids))"
    by (simp add: id_order_def comp_def)
  then have "sort_key (cbor_encode P) (map CBytes ids) = map CBytes ids"
    "distinct (map (cbor_encode P) (map CBytes ids))"
    by (simp_all only: sort_key_strict_id strict_sorted_iff)
  then show "\<exists>ws. canonicalSet P (map CBytes ids) = ok ws \<and>
      cbor_encode P (CArray (map CBytes ids)) = cbor_encode P (CArray ws)"
    by (simp add: canonicalSet_ok list_all_iff)
qed

lemma id_order_distinct: "id_order P ids \<Longrightarrow> distinct ids"
  by (simp add: id_order_def strict_sorted_iff distinct_map)

lemma idSetValue_exact:
  "idSetValue P v kind field nonempty = ok ids \<longleftrightarrow>
     v = CArray (map CBytes ids) \<and> list_all (valid_id kind) ids \<and> (nonempty \<longrightarrow> ids \<noteq> []) \<and>
     id_order P ids"
  by (simp add: idSetValue_ok canonicalSet_fixpoint_iff)

end

section \<open>Sets of dependencies\<close>

definition dep_value :: "typed_dependency \<Rightarrow> cvalue" where
  "dep_value d = CMap [(KNum 0, CNum (dep_type d)), (KNum 1, CBytes (dep_id d))]"

definition valid_dependency :: "typed_dependency \<Rightarrow> bool" where
  "valid_dependency d \<longleftrightarrow> dep_type d \<in> set dependency_codes \<and> id32 (dep_id d)"

lemma dependencyValue_ok:
  "dependencyValue d = ok m \<longleftrightarrow> valid_dependency d \<and> CMap m = dep_value d"
  by (auto simp: dependencyValue_def valid_dependency_def dep_value_def and_then_eq_Inr
      identifierBytes_def canonicalMap_ok isSafeInteger_def split: if_splits)

lemma traverse_dependencies:
  "traverse (\<lambda>d. and_then (dependencyValue d) (\<lambda>m. ok (CMap m))) ds = ok vs \<longleftrightarrow>
     list_all valid_dependency ds \<and> vs = map dep_value ds"
proof (induction ds arbitrary: vs)
  case (Cons d ds)
  have "(\<exists>m. dependencyValue d = ok m) \<longleftrightarrow> valid_dependency d"
    by (auto simp: dependencyValue_ok dep_value_def)
  with Cons show ?case by (auto simp: and_then_eq_Inr dependencyValue_ok)
qed auto

lemma dependencySet_ok:
  "dependencySet P ds = ok vs \<longleftrightarrow>
     list_all valid_dependency ds \<and> canonicalSet P (map dep_value ds) = ok vs"
  by (auto simp: dependencySet_def and_then_eq_Inr traverse_dependencies)

context array_codec
begin

lemma dep_value_encode_inj:
  assumes "valid_dependency a" "valid_dependency b"
    and "cbor_encode P (dep_value a) = cbor_encode P (dep_value b)"
  shows "a = b"
proof -
  have safe: "isSafeInteger (dep_type a)" "isSafeInteger (dep_type b)"
    using assms(1,2) by (auto simp: valid_dependency_def dependency_codes_def isSafeInteger_def)
  then have "map (cbor_encode P) [CNum (dep_type a), CBytes (dep_id a)] =
      map (cbor_encode P) [CNum (dep_type b), CBytes (dep_id b)]"
    using map_law[of "[(KNum 0, CNum (dep_type a)), (KNum 1, CBytes (dep_id a))]"
        "[(KNum 0, CNum (dep_type b)), (KNum 1, CBytes (dep_id b))]"] assms(3)
    by (simp add: dep_value_def)
  then show ?thesis using number_law[OF safe] bytes_law by simp
qed

lemma dependencySets_equal:
  assumes "dependencySet P as = ok xs" "dependencySet P bs = ok ys"
    and "cbor_encode P (CArray xs) = cbor_encode P (CArray ys)"
  shows "mset as = mset bs"
proof -
  have v: "list_all valid_dependency as" "list_all valid_dependency bs"
    and x: "canonicalSet P (map dep_value as) = ok xs" "canonicalSet P (map dep_value bs) = ok ys"
    using assms(1,2) by (auto simp: dependencySet_ok)
  have "map (cbor_encode P) xs = map (cbor_encode P) ys"
    using x assms(3) by (intro array_law) (auto simp: canonicalSet_ok list_all_iff)
  then have "mset (map (cbor_encode P) xs) = mset (map (cbor_encode P) ys)" by simp
  then have "image_mset (cbor_encode P \<circ> dep_value) (mset as) =
      image_mset (cbor_encode P \<circ> dep_value) (mset bs)"
    using canonicalSet_strict(2)[OF x(1)] canonicalSet_strict(2)[OF x(2)]
    by (simp add: image_mset.compositionality)
  moreover have "inj_on (cbor_encode P \<circ> dep_value) (set as \<union> set bs)"
    using v by (auto intro!: inj_onI dep_value_encode_inj simp: list_all_iff)
  ultimately show ?thesis
    using image_mset_eq_image_mset_plusD[of "cbor_encode P \<circ> dep_value" "mset as" "mset bs" "{#}"]
    by auto
qed

end

section \<open>Content addresses\<close>

lemma digest_of_transcript:
  assumes "and_then (transcript l ps) (digestIdentifier P kind) = ok i"
  obtains t where "transcript l ps = ok t" "sha256 P t = i"
  using assms by (auto simp: and_then_eq_Inr digestIdentifier_def identifier_of_ok)

lemma transcripts_differ:
  assumes "transcript l ps = ok t" "transcript l' ps' = ok t'" "l \<noteq> l' \<or> ps \<noteq> ps'"
  shows "t \<noteq> t'"
  using assms transcript_shape_inj by blast

section \<open>Properties\<close>

text \<open>
  \<open>idSetValue\<close> accepts exactly the arrays of well-formed identifiers of the kind that are
  strictly increasing in their encodings (so sorted and free of duplicates), nonempty where that
  is asked for, and returns the identifiers of the array, for every encoder with the laws of
  \<open>array_codec\<close>.
\<close>

theorem idSetValue_accepts_exactly:
  assumes "array_codec P"
  shows "idSetValue P v kind field nonempty = ok ids \<longleftrightarrow>
     v = CArray (map CBytes ids) \<and> list_all (valid_id kind) ids \<and> (nonempty \<longrightarrow> ids \<noteq> []) \<and>
     id_order P ids"
  by (rule array_codec.idSetValue_exact[OF assms])

theorem idSetValue_accepts_exactly_witness:
  "idSetValue ref_platform (CArray [CBytes (replicate 32 1), CBytes (replicate 32 2)]) TagId ''Tags'' True
     = ok [replicate 32 1, replicate 32 2] \<and> array_codec ref_platform"
proof -
  have "id_order ref_platform [replicate 32 1, replicate 32 2]"
    by (simp add: id_order_def append_less_cancel eval_nat_numeral)
  moreover have "list_all (valid_id TagId) [replicate 32 1, replicate 32 2]"
    by (simp add: valid_id_def)
  ultimately show ?thesis
    using idSetValue_accepts_exactly[OF ref.array_codec_axioms,
        of "CArray [CBytes (replicate 32 1), CBytes (replicate 32 2)]" TagId "''Tags''" True
           "[replicate 32 1, replicate 32 2]"] ref.array_codec_axioms
    by simp
qed

text \<open>
  Content addresses: a Record ID shared by two different Record byte strings, or by a Record
  and a Vault Object or a Key Envelope, exhibits two different inputs on which SHA-256 collides.
\<close>

theorem identifiers_separate:
  assumes "vaultRecordId P a = ok i"
    and "(vaultRecordId P b = ok i \<and> a \<noteq> b) \<or> vaultObjectId P vault t b = ok i \<or> keyEnvelopeId P b = ok i"
  shows "\<exists>x y. x \<noteq> y \<and> sha256 P x = sha256 P y"
proof -
  obtain x where x: "transcript ''awsm:vault-record-id:v1'' [a] = ok x" "sha256 P x = i"
    using assms(1) unfolding vaultRecordId_def by (rule digest_of_transcript)
  have "\<exists>l ps y. transcript l ps = ok y \<and> sha256 P y = i \<and>
      (''awsm:vault-record-id:v1'' \<noteq> l \<or> [a] \<noteq> ps)"
    using assms(2)
  proof (elim disjE conjE)
    assume b: "vaultRecordId P b = ok i" "a \<noteq> b"
    then obtain y where "transcript ''awsm:vault-record-id:v1'' [b] = ok y" "sha256 P y = i"
      unfolding vaultRecordId_def by (blast elim: digest_of_transcript)
    with b(2) show ?thesis by force
  next
    assume "vaultObjectId P vault t b = ok i"
    then obtain u where "and_then (transcript ''awsm:vault-object-id:v1'' [vault, u, b])
        (digestIdentifier P VaultObjectId) = ok i"
      by (auto simp: vaultObjectId_def and_then_eq_Inr)
    then show ?thesis by (elim digest_of_transcript) force
  next
    assume "keyEnvelopeId P b = ok i"
    then show ?thesis unfolding keyEnvelopeId_def by (elim digest_of_transcript) force
  qed
  then show ?thesis using x transcripts_differ by metis
qed

theorem identifiers_separate_witness:
  "(\<exists>i. vaultRecordId ref_platform [0] = ok i \<and> vaultRecordId ref_platform [1] = ok i) \<and>
   (\<exists>x y. x \<noteq> y \<and> sha256 ref_platform x = sha256 ref_platform y)"
proof -
  have "vaultRecordId ref_platform [0] = vaultRecordId ref_platform [1]"
    and "\<exists>i. vaultRecordId ref_platform [0] = ok i"
    by (simp_all add: vaultRecordId_def transcript_def transcript_part_def label_ok_def label_char_def
        uint32be_def uint64be_def isSafeInteger_def digestIdentifier_def identifier_of_def
        identifierBytes_def NONZERO_IDENTIFIER_KINDS_def utf8_def eval_nat_numeral)
  then obtain i where i: "vaultRecordId ref_platform [0] = ok i" "vaultRecordId ref_platform [1] = ok i"
    by auto
  have "\<exists>x y. x \<noteq> y \<and> sha256 ref_platform x = sha256 ref_platform y"
    using i by (intro identifiers_separate[of ref_platform "[0]" i "[1]"]) simp_all
  with i show ?thesis by blast
qed

end
