(* ===== verification/Backup.thy ===== *)
theory Backup
  imports Schema
begin

text \<open>
  Backup Sets: the canonical Manifest of a Backup Snapshot (\<open>runtime/backup/contracts.ts\<close>) and the retention
  plan of a Backup Set destination (\<open>runtime/backup/retention.ts\<close>). The destination is an interface of the
  code: what it reads is an argument here and what is committed to it a result. The lemmas say exactly when
  an inventory and a plan are accepted and that retention takes a valid inventory to a valid one.
\<close>

section \<open>Snapshot Manifests\<close>

definition BACKUP_SNAPSHOT_FORMAT :: int where "BACKUP_SNAPSHOT_FORMAT = 1"
definition BACKUP_COMPLETE_EXPORT_PASSPHRASE_PROFILE :: int where "BACKUP_COMPLETE_EXPORT_PASSPHRASE_PROFILE = 1"

record snapshot_manifest =
  bm_format :: int
  bm_backupSetId :: bytes
  bm_protectionProfile :: int
  bm_packageByteLength :: int
  bm_packageByteDigest :: bytes
  bm_snapshotId :: bytes

definition all_zero :: "bytes \<Rightarrow> bool" where "all_zero b = list_all (\<lambda>x. x = 0) b"

definition package_length :: "cvalue \<Rightarrow> string \<Rightarrow> string \<Rightarrow> int res" where
  "package_length value field message =
     and_then (nonnegativeInteger value field) (\<lambda>n. if n < 1 then throw (TypeError message) else ok n)"

definition snapshotStateValue :: "snapshot_manifest \<Rightarrow> cmap res" where
  "snapshotStateValue input =
     and_then (byteString (CBytes (bm_backupSetId input)) 32 ''Backup Set ID'') (\<lambda>backupSetId.
     and_then (guard_not (all_zero backupSetId) (TypeError ''Backup Set ID must not be all zero'')) (\<lambda>_.
     and_then (package_length (CNum (bm_packageByteLength input)) ''Backup package byte length''
       ''Backup package byte length must be positive'') (\<lambda>packageByteLength.
     and_then (exactCode (CNum (bm_format input)) BACKUP_SNAPSHOT_FORMAT ''Backup Snapshot format'') (\<lambda>format.
     and_then (exactCode (CNum (bm_protectionProfile input)) BACKUP_COMPLETE_EXPORT_PASSPHRASE_PROFILE
       ''Backup protection profile'') (\<lambda>profile.
     and_then (byteString (CBytes (bm_packageByteDigest input)) 32 ''Backup package byte digest'') (\<lambda>digest.
       canonicalMap [(0, CNum format), (1, CBytes backupSetId), (3, CNum profile), (4, CNum packageByteLength),
         (5, CBytes digest)]))))))"

definition backupSnapshotId :: "platform \<Rightarrow> snapshot_manifest \<Rightarrow> bytes res" where
  "backupSnapshotId P input =
     and_then (snapshotStateValue input) (\<lambda>state.
     and_then (encodeCanonicalValue P (CMap state)) (\<lambda>encoded.
     and_then (transcript ''awsm:backup-snapshot-id:v1'' [encoded]) (\<lambda>t. ok (sha256 P t))))"

fun key_number :: "ckey \<Rightarrow> int" where
  "key_number (KNum n) = n"
| "key_number _ = 0"

definition encodeBackupSnapshotManifest :: "platform \<Rightarrow> snapshot_manifest \<Rightarrow> bytes res" where
  "encodeBackupSnapshotManifest P input =
     and_then (snapshotStateValue input) (\<lambda>state.
     and_then (byteString (CBytes (bm_snapshotId input)) 32 ''Backup Snapshot ID'') (\<lambda>snapshotId.
     and_then (backupSnapshotId P input) (\<lambda>expected.
     and_then (guard_not (\<not> bytesEqual snapshotId expected)
       (TypeError ''Backup Snapshot ID does not match its Manifest'')) (\<lambda>_.
     and_then (canonicalMap (map (\<lambda>(k, v). (key_number k, v)) state @ [(2, CBytes snapshotId)])) (\<lambda>m.
       encodeCanonicalValue P (CMap m))))))"

definition decodeBackupSnapshotManifest :: "platform \<Rightarrow> bytes \<Rightarrow> snapshot_manifest res" where
  "decodeBackupSnapshotManifest P bs =
     and_then (decodeCanonicalValue P bs) (\<lambda>value.
     and_then (exactMap value (num_keys 6) ''Backup Snapshot Manifest'') (\<lambda>m.
     and_then (with_field m 4 (\<lambda>v. package_length v ''Backup package byte length''
       ''Backup package byte length must be positive'')) (\<lambda>packageByteLength.
     and_then (with_field m 0 (\<lambda>v. exactCode v BACKUP_SNAPSHOT_FORMAT ''Backup Snapshot format'')) (\<lambda>format.
     and_then (with_field m 1 (\<lambda>v. byteString v 32 ''Backup Set ID'')) (\<lambda>backupSetId.
     and_then (with_field m 2 (\<lambda>v. byteString v 32 ''Backup Snapshot ID'')) (\<lambda>snapshotId.
     and_then (with_field m 3 (\<lambda>v. exactCode v BACKUP_COMPLETE_EXPORT_PASSPHRASE_PROFILE
       ''Backup protection profile'')) (\<lambda>profile.
     and_then (with_field m 5 (\<lambda>v. byteString v 32 ''Backup package byte digest'')) (\<lambda>digest.
     let manifest = \<lparr>bm_format = format, bm_backupSetId = backupSetId, bm_protectionProfile = profile,
           bm_packageByteLength = packageByteLength, bm_packageByteDigest = digest, bm_snapshotId = snapshotId\<rparr> in
     and_then (guard_not (all_zero backupSetId) (TypeError ''Backup Set ID must not be all zero'')) (\<lambda>_.
     and_then (backupSnapshotId P manifest) (\<lambda>expected.
     and_then (guard_not (\<not> bytesEqual snapshotId expected)
       (TypeError ''Backup Snapshot ID does not match its Manifest'')) (\<lambda>_.
     and_then (encodeBackupSnapshotManifest P manifest) (\<lambda>encoded.
     and_then (guard_not (\<not> bytesEqual bs encoded) (TypeError ''Backup Snapshot Manifest is not canonical'')) (\<lambda>_.
       ok manifest)))))))))))))"

section \<open>Retention\<close>

record snapshot_entry =
  se_snapshotId :: bytes
  se_manifestBytes :: bytes

record package_entry =
  pe_packageByteLength :: int
  pe_packageByteDigest :: bytes

record backup_inventory =
  in_backupSetId :: bytes
  in_snapshots :: "snapshot_entry list"
  in_packageEntries :: "package_entry list"

record retention_plan =
  rp_expectedInventory :: backup_inventory
  rp_deleteSnapshotIds :: "bytes list"
  rp_deletePackageEntries :: "package_entry list"
  rp_retainedSnapshotCount :: nat
  rp_retainedPackageEntryCount :: nat

record retention_outcome =
  ro_deletedSnapshotCount :: nat
  ro_deletedPackageEntryCount :: nat
  ro_retainedSnapshotCount :: nat
  ro_retainedPackageEntryCount :: nat

definition same_id :: "bytes \<Rightarrow> bytes \<Rightarrow> string \<Rightarrow> unit res" where
  "same_id left right field = guard_not (\<not> bytesEqual left right) (TypeError (field @ '' does not match''))"

definition backupSetId_of :: "bytes \<Rightarrow> bytes res" where
  "backupSetId_of value =
     and_then (byteString (CBytes value) 32 ''Backup Set ID'') (\<lambda>parsed.
     if all_zero parsed then throw (TypeError ''Backup Set ID must not be all zero'') else ok parsed)"

definition normal_snapshot :: "platform \<Rightarrow> bytes \<Rightarrow> snapshot_entry \<Rightarrow> snapshot_entry res" where
  "normal_snapshot P setId entry =
     and_then (byteString (CBytes (se_snapshotId entry)) 32 ''Backup Snapshot inventory ID'') (\<lambda>snapshotId.
     and_then (decodeBackupSnapshotManifest P (se_manifestBytes entry)) (\<lambda>manifest.
     and_then (same_id (bm_backupSetId manifest) setId ''Backup Snapshot Backup Set ID'') (\<lambda>_.
     and_then (same_id (bm_snapshotId manifest) snapshotId ''Backup Snapshot inventory ID'') (\<lambda>_.
       ok \<lparr>se_snapshotId = snapshotId, se_manifestBytes = se_manifestBytes entry\<rparr>))))"

definition normal_package :: "package_entry \<Rightarrow> package_entry res" where
  "normal_package entry =
     and_then (package_length (CNum (pe_packageByteLength entry)) ''Backup package entry byte length''
       ''Backup package entry must not be empty'') (\<lambda>packageByteLength.
     and_then (byteString (CBytes (pe_packageByteDigest entry)) 32 ''Backup package entry digest'') (\<lambda>digest.
       ok \<lparr>pe_packageByteLength = packageByteLength, pe_packageByteDigest = digest\<rparr>))"

definition snapshot_package :: "platform \<Rightarrow> (string, package_entry) jmap \<Rightarrow> snapshot_entry \<Rightarrow> unit res" where
  "snapshot_package P packages snapshot =
     and_then (decodeBackupSnapshotManifest P (se_manifestBytes snapshot)) (\<lambda>manifest.
       guard_not (case mapGet packages (key (bm_packageByteDigest manifest)) of
           None \<Rightarrow> True
         | Some entry \<Rightarrow> pe_packageByteLength entry \<noteq> bm_packageByteLength manifest)
         (TypeError ''Backup Snapshot is missing encrypted package dependency''))"

definition normalizeInventory :: "platform \<Rightarrow> backup_inventory \<Rightarrow> backup_inventory res" where
  "normalizeInventory P input =
     and_then (backupSetId_of (in_backupSetId input)) (\<lambda>setId.
     and_then (traverse (normal_snapshot P setId) (in_snapshots input)) (\<lambda>snapshots0.
     and_then (guard_not (\<not> distinct (map (key \<circ> se_snapshotId) snapshots0))
       (TypeError ''Backup Set inventory contains a duplicate Snapshot ID'')) (\<lambda>_.
     let snapshots = sort_by (\<lambda>l r. compareBytes (se_snapshotId l) (se_snapshotId r)) snapshots0 in
     and_then (traverse normal_package (in_packageEntries input)) (\<lambda>packages0.
     and_then (guard_not (\<not> distinct (map (key \<circ> pe_packageByteDigest) packages0))
       (TypeError ''Backup Set inventory contains a duplicate encrypted package digest'')) (\<lambda>_.
     let packageEntries = sort_by (\<lambda>l r. compareBytes (pe_packageByteDigest l) (pe_packageByteDigest r)) packages0;
         packages = mapFrom (map (\<lambda>e. (key (pe_packageByteDigest e), e)) packageEntries) in
     and_then (checks (map (snapshot_package P packages) snapshots)) (\<lambda>_.
       ok \<lparr>in_backupSetId = setId, in_snapshots = snapshots, in_packageEntries = packageEntries\<rparr>))))))"

definition manifest_digest :: "platform \<Rightarrow> snapshot_entry \<Rightarrow> bytes res" where
  "manifest_digest P snapshot =
     and_then (decodeBackupSnapshotManifest P (se_manifestBytes snapshot)) (\<lambda>m. ok (bm_packageByteDigest m))"

definition planBackupSetRetention :: "platform \<Rightarrow> backup_inventory \<Rightarrow> bytes list \<Rightarrow> retention_plan res" where
  "planBackupSetRetention P input deleteIds =
     and_then (normalizeInventory P input) (\<lambda>inventory.
     and_then (traverse (\<lambda>i. byteString (CBytes i) 32 ''Backup retention Snapshot ID'') deleteIds) (\<lambda>deleteSnapshotIds.
     let deleteKeys = map key deleteSnapshotIds in
     and_then (guard_not (\<not> distinct deleteKeys) (TypeError ''Backup retention contains a duplicate Snapshot ID'')) (\<lambda>_.
     let snapshots = mapFrom (map (\<lambda>e. (key (se_snapshotId e), e)) (in_snapshots inventory)) in
     and_then (checks (map (\<lambda>k. guard_not (\<not> mapHas snapshots k)
       (TypeError ''Backup retention selects an unknown Snapshot'')) deleteKeys)) (\<lambda>_.
     let retainedSnapshots = filter (\<lambda>e. key (se_snapshotId e) \<notin> set deleteKeys) (in_snapshots inventory) in
     and_then (traverse (manifest_digest P) retainedSnapshots) (\<lambda>digests.
     let deletePackageEntries = filter (\<lambda>e. key (pe_packageByteDigest e) \<notin> key ` set digests)
           (in_packageEntries inventory) in
       ok \<lparr>rp_expectedInventory = inventory, rp_deleteSnapshotIds = sort_by compareBytes deleteSnapshotIds,
           rp_deletePackageEntries = deletePackageEntries,
           rp_retainedSnapshotCount = length retainedSnapshots,
           rp_retainedPackageEntryCount = length (in_packageEntries inventory) - length deletePackageEntries\<rparr>)))))"

text \<open>
  \<open>retain\<close> of the service with the inventory that the destination reads; the plan is what is committed, or
  nothing when there is nothing to delete.
\<close>

definition retain :: "platform \<Rightarrow> (bytes \<Rightarrow> backup_inventory) \<Rightarrow> bytes \<Rightarrow> bytes list \<Rightarrow>
    (retention_outcome \<times> retention_plan option) res" where
  "retain P readInventory setIdValue deleteIds =
     and_then (backupSetId_of setIdValue) (\<lambda>setId.
     let inventory = readInventory setId in
     and_then (same_id (in_backupSetId inventory) setId ''Backup Set destination identity'') (\<lambda>_.
     and_then (planBackupSetRetention P inventory deleteIds) (\<lambda>plan.
       ok (\<lparr>ro_deletedSnapshotCount = length (rp_deleteSnapshotIds plan),
            ro_deletedPackageEntryCount = length (rp_deletePackageEntries plan),
            ro_retainedSnapshotCount = rp_retainedSnapshotCount plan,
            ro_retainedPackageEntryCount = rp_retainedPackageEntryCount plan\<rparr>,
           if rp_deleteSnapshotIds plan \<noteq> [] \<or> rp_deletePackageEntries plan \<noteq> [] then Some plan else None))))"

section \<open>Which inventories are valid\<close>

definition snapshot_valid :: "platform \<Rightarrow> backup_inventory \<Rightarrow> snapshot_entry \<Rightarrow> bool" where
  "snapshot_valid P inventory s \<longleftrightarrow> id32 (se_snapshotId s) \<and>
     (\<exists>m. decodeBackupSnapshotManifest P (se_manifestBytes s) = ok m \<and> bm_backupSetId m = in_backupSetId inventory \<and>
        bm_snapshotId m = se_snapshotId s \<and>
        (\<exists>p \<in> set (in_packageEntries inventory). pe_packageByteDigest p = bm_packageByteDigest m \<and>
           pe_packageByteLength p = bm_packageByteLength m))"

definition package_valid :: "package_entry \<Rightarrow> bool" where
  "package_valid p \<longleftrightarrow> isSafeInteger (pe_packageByteLength p) \<and> pe_packageByteLength p \<ge> 1 \<and> id32 (pe_packageByteDigest p)"

definition valid_inventory :: "platform \<Rightarrow> backup_inventory \<Rightarrow> bool" where
  "valid_inventory P inventory \<longleftrightarrow>
     id32 (in_backupSetId inventory) \<and> \<not> all_zero (in_backupSetId inventory) \<and>
     (\<forall>s \<in> set (in_snapshots inventory). snapshot_valid P inventory s) \<and>
     distinct (map se_snapshotId (in_snapshots inventory)) \<and>
     (\<forall>p \<in> set (in_packageEntries inventory). package_valid p) \<and>
     distinct (map pe_packageByteDigest (in_packageEntries inventory))"

definition in_order :: "backup_inventory \<Rightarrow> backup_inventory" where
  "in_order inventory = inventory\<lparr>in_snapshots := sort_key se_snapshotId (in_snapshots inventory),
     in_packageEntries := sort_key pe_packageByteDigest (in_packageEntries inventory)\<rparr>"

lemma package_length_ok:
  "package_length v f g = ok n \<longleftrightarrow> v = CNum n \<and> isSafeInteger n \<and> 1 \<le> n"
  by (cases "n < 1") (auto simp: package_length_def and_then_eq_Inr nonnegativeInteger_ok guard_ok)

lemma same_id_ok: "same_id a b f = ok u \<longleftrightarrow> a = b"
  by (simp add: same_id_def)

lemma backupSetId_of_ok: "backupSetId_of v = ok i \<longleftrightarrow> i = v \<and> id32 v \<and> \<not> all_zero v"
  by (auto simp: backupSetId_of_def and_then_eq_Inr byteString_ok split: if_splits)

lemma normal_package_ok: "normal_package p = ok q \<longleftrightarrow> q = p \<and> package_valid p"
  by (auto simp: normal_package_def and_then_eq_Inr package_length_ok byteString_ok package_valid_def)

lemma normal_snapshot_ok:
  "normal_snapshot P setId s = ok t \<longleftrightarrow> t = s \<and> id32 (se_snapshotId s) \<and>
     (\<exists>m. decodeBackupSnapshotManifest P (se_manifestBytes s) = ok m \<and> bm_backupSetId m = setId \<and>
        bm_snapshotId m = se_snapshotId s)"
  by (auto simp: normal_snapshot_def and_then_eq_Inr byteString_ok same_id_ok)

lemma traverse_same:
  assumes "\<And>x y. f x = ok y \<longleftrightarrow> y = x \<and> Q x"
  shows "traverse f xs = ok ys \<longleftrightarrow> ys = xs \<and> (\<forall>x \<in> set xs. Q x)"
proof (induction xs arbitrary: ys)
  case (Cons x xs)
  then show ?case by (auto simp: and_then_eq_Inr assms)
qed auto

lemmas sort_snapshots = comparator_order.sort_by_sort_key[OF compareBytes_on, of _ se_snapshotId, simplified]
lemmas sort_packages = comparator_order.sort_by_sort_key[OF compareBytes_on, of _ pe_packageByteDigest, simplified]

lemma package_index:
  assumes "distinct (map pe_packageByteDigest ps)"
  shows "mapGet (mapFrom (map (\<lambda>e. (key (pe_packageByteDigest e), e)) ps)) (key d) = Some p \<longleftrightarrow>
    p \<in> set ps \<and> pe_packageByteDigest p = d"
proof -
  let ?es = "map (\<lambda>e. (key (pe_packageByteDigest e), e)) ps"
  have "distinct (map fst (rev ?es))"
    using assms by (simp add: comp_def rev_map[symmetric] distinct_map inj_on_def)
  then have "map_of (rev ?es) (key d) = Some p \<longleftrightarrow> (key d, p) \<in> set (rev ?es)" by (rule map_of_eq_Some_iff)
  then show ?thesis unfolding mapFrom_get by (auto simp: image_iff)
qed

lemma snapshot_package_ok:
  assumes "distinct (map pe_packageByteDigest ps)"
  shows "snapshot_package P (mapFrom (map (\<lambda>e. (key (pe_packageByteDigest e), e)) ps)) s = ok () \<longleftrightarrow>
    (\<exists>m. decodeBackupSnapshotManifest P (se_manifestBytes s) = ok m \<and>
       (\<exists>p \<in> set ps. pe_packageByteDigest p = bm_packageByteDigest m \<and> pe_packageByteLength p = bm_packageByteLength m))"
proof -
  let ?M = "mapFrom (map (\<lambda>e. (key (pe_packageByteDigest e), e)) ps)"
  have "\<not> (case mapGet ?M (key (bm_packageByteDigest m)) of None \<Rightarrow> True
        | Some e \<Rightarrow> pe_packageByteLength e \<noteq> bm_packageByteLength m) \<longleftrightarrow>
      (\<exists>p. mapGet ?M (key (bm_packageByteDigest m)) = Some p \<and> pe_packageByteLength p = bm_packageByteLength m)" for m
    by (cases "mapGet ?M (key (bm_packageByteDigest m))") simp_all
  then show ?thesis
    by (simp add: snapshot_package_def and_then_eq_Inr package_index[OF assms]) blast
qed

lemma distinct_key_comp [simp]: "distinct (map (key \<circ> f) xs) \<longleftrightarrow> distinct (map f xs)"
  by (induction xs) auto

lemma normalizeInventory_ok:
  "normalizeInventory P inventory = ok n \<longleftrightarrow> valid_inventory P inventory \<and> n = in_order inventory"
proof -
  let ?ps = "sort_key pe_packageByteDigest (in_packageEntries inventory)"
  have d: "distinct (map pe_packageByteDigest (in_packageEntries inventory)) \<Longrightarrow> distinct (map pe_packageByteDigest ?ps)"
    by (simp add: distinct_map)
  have s: "snapshot_valid P inventory s \<longleftrightarrow>
      (id32 (se_snapshotId s) \<and> (\<exists>m. decodeBackupSnapshotManifest P (se_manifestBytes s) = ok m \<and>
        bm_backupSetId m = in_backupSetId inventory \<and> bm_snapshotId m = se_snapshotId s)) \<and>
      (\<exists>m. decodeBackupSnapshotManifest P (se_manifestBytes s) = ok m \<and>
        (\<exists>p \<in> set ?ps. pe_packageByteDigest p = bm_packageByteDigest m \<and> pe_packageByteLength p = bm_packageByteLength m))"
    for s by (auto simp: snapshot_valid_def)
  show ?thesis
    unfolding normalizeInventory_def Let_def
    by (simp only: and_then_eq_Inr backupSetId_of_ok guard_not_eq_Inr traverse_same[OF normal_snapshot_ok]
        traverse_same[OF normal_package_ok] sort_snapshots sort_packages checks_ok distinct_key_comp)
      (auto simp: valid_inventory_def in_order_def s snapshot_package_ok[OF d])
qed

section \<open>What a plan contains\<close>

definition digest_of :: "platform \<Rightarrow> snapshot_entry \<Rightarrow> bytes" where
  "digest_of P s = (case decodeBackupSnapshotManifest P (se_manifestBytes s) of Inr m \<Rightarrow> bm_packageByteDigest m | Inl _ \<Rightarrow> [])"

definition kept_snapshots :: "backup_inventory \<Rightarrow> bytes list \<Rightarrow> snapshot_entry list" where
  "kept_snapshots inventory deletes = filter (\<lambda>e. se_snapshotId e \<notin> set deletes) (in_snapshots inventory)"

definition dropped_packages :: "platform \<Rightarrow> backup_inventory \<Rightarrow> bytes list \<Rightarrow> package_entry list" where
  "dropped_packages P inventory deletes =
     filter (\<lambda>e. pe_packageByteDigest e \<notin> digest_of P ` set (kept_snapshots inventory deletes)) (in_packageEntries inventory)"

definition retention_result :: "platform \<Rightarrow> backup_inventory \<Rightarrow> bytes list \<Rightarrow> retention_plan" where
  "retention_result P inventory deletes =
     (let ordered = in_order inventory in
      \<lparr>rp_expectedInventory = ordered, rp_deleteSnapshotIds = sort_by compareBytes deletes,
       rp_deletePackageEntries = dropped_packages P ordered deletes,
       rp_retainedSnapshotCount = length (kept_snapshots ordered deletes),
       rp_retainedPackageEntryCount =
         length (in_packageEntries ordered) - length (dropped_packages P ordered deletes)\<rparr>)"

lemma valid_manifest: "snapshot_valid P inventory s \<Longrightarrow> manifest_digest P s = ok (digest_of P s)"
  by (auto simp: snapshot_valid_def manifest_digest_def digest_of_def)

lemma traverse_digests:
  assumes "\<forall>s \<in> set ss. snapshot_valid P inventory s"
  shows "traverse (manifest_digest P) ss = ok (map (digest_of P) ss)"
  using assms by (induction ss) (auto simp: valid_manifest)

lemma set_in_order [simp]:
  "set (in_snapshots (in_order n)) = set (in_snapshots n)" "set (in_packageEntries (in_order n)) = set (in_packageEntries n)"
  "in_backupSetId (in_order n) = in_backupSetId n"
  by (simp_all add: in_order_def)

lemma snapshot_valid_in_order [simp]: "snapshot_valid P (in_order n) s = snapshot_valid P n s"
  by (simp add: snapshot_valid_def)

lemma traverse_delete_ids:
  "traverse (\<lambda>i. byteString (CBytes i) 32 f) ds = ok es \<longleftrightarrow> es = ds \<and> (\<forall>d \<in> set ds. id32 d)"
  by (rule traverse_same) (auto simp: byteString_ok)

lemma plan_retention_ok:
  "planBackupSetRetention P inventory deletes = ok plan \<longleftrightarrow>
     valid_inventory P inventory \<and> distinct deletes \<and> set deletes \<subseteq> se_snapshotId ` set (in_snapshots inventory) \<and>
     plan = retention_result P inventory deletes"
proof (cases "valid_inventory P inventory")
  case True
  let ?n = "in_order inventory"
  have n: "normalizeInventory P inventory = ok ?n" using True by (simp add: normalizeInventory_ok)
  have v: "\<forall>s \<in> set (in_snapshots inventory). snapshot_valid P inventory s" using True by (simp add: valid_inventory_def)
  have known: "mapHas (mapFrom (map (\<lambda>e. (key (se_snapshotId e), e)) ss)) (key d) \<longleftrightarrow> d \<in> se_snapshotId ` set ss" for ss d
    unfolding mapHas_def mapFrom_keys by (auto simp: image_image)
  have all: "(\<forall>c \<in> set (map (\<lambda>k. guard_not (\<not> mapHas (mapFrom (map (\<lambda>e. (key (se_snapshotId e), e)) (in_snapshots ?n))) k) e)
      (map key deletes)). c = ok ()) \<longleftrightarrow> set deletes \<subseteq> se_snapshotId ` set (in_snapshots inventory)" for e
    by (auto simp: known)
  have ids: "set deletes \<subseteq> se_snapshotId ` set (in_snapshots inventory) \<Longrightarrow> \<forall>d \<in> set deletes. id32 d"
    using v by (auto simp: snapshot_valid_def)
  have kept: "filter (\<lambda>e. key (se_snapshotId e) \<notin> set (map key deletes)) (in_snapshots ?n) = kept_snapshots ?n deletes"
    by (auto simp: kept_snapshots_def intro!: filter_cong)
  have digests: "traverse (manifest_digest P) (kept_snapshots ?n deletes) = ok (map (digest_of P) (kept_snapshots ?n deletes))"
    using v by (intro traverse_digests[of _ P inventory]) (simp add: kept_snapshots_def)
  have dropped: "filter (\<lambda>e. key (pe_packageByteDigest e) \<notin> key ` set (map (digest_of P) (kept_snapshots ?n deletes)))
      (in_packageEntries ?n) = dropped_packages P ?n deletes"
    unfolding dropped_packages_def key_image_mem by simp
  show ?thesis
  proof (cases "\<forall>d \<in> set deletes. id32 d")
    case ids32: True
    then have t: "traverse (\<lambda>i. byteString (CBytes i) 32 ''Backup retention Snapshot ID'') deletes = ok deletes"
      by (simp add: traverse_delete_ids)
    have dk: "distinct (map key deletes) = distinct deletes" by (simp add: distinct_map inj_on_def)
    show ?thesis
      unfolding planBackupSetRetention_def n and_then_Inr t Let_def kept digests dropped dk and_then_eq_Inr
        guard_not_eq_Inr checks_ok all
      using True by (auto simp: retention_result_def Let_def)
  next
    case False
    then have "traverse (\<lambda>i. byteString (CBytes i) 32 ''Backup retention Snapshot ID'') deletes \<noteq> ok es" for es
      by (simp add: traverse_delete_ids)
    then show ?thesis using False ids by (auto simp: planBackupSetRetention_def n and_then_eq_Inr)
  qed
next
  case False
  then have "normalizeInventory P inventory \<noteq> ok n" for n by (simp add: normalizeInventory_ok)
  then show ?thesis using False by (auto simp: planBackupSetRetention_def and_then_eq_Inr)
qed

section \<open>Properties\<close>

text \<open>
  C35. A retention request is rejected exactly when the inventory is not a valid one (a Snapshot with a wrong
  identity, Manifest or package, a repeated Snapshot or package, an empty package, a zero Backup Set ID) or the
  selection repeats a Snapshot or names an unknown one.
\<close>

theorem retention_rejects_exactly:
  "isl (planBackupSetRetention P inventory deletes) \<longleftrightarrow>
     \<not> (valid_inventory P inventory \<and> distinct deletes \<and> set deletes \<subseteq> se_snapshotId ` set (in_snapshots inventory))"
  using plan_retention_ok[of P inventory deletes] by (cases "planBackupSetRetention P inventory deletes") auto

text \<open>The inventory of the destination after the deletions of a plan.\<close>

definition after_retention :: "retention_plan \<Rightarrow> backup_inventory" where
  "after_retention plan =
     (let n = rp_expectedInventory plan in
      n\<lparr>in_snapshots := filter (\<lambda>s. se_snapshotId s \<notin> set (rp_deleteSnapshotIds plan)) (in_snapshots n),
        in_packageEntries := filter (\<lambda>p. p \<notin> set (rp_deletePackageEntries plan)) (in_packageEntries n)\<rparr>)"

lemma sorted_sort_key_id: "sort_key f (filter Q (sort_key f xs)) = filter Q (sort_key f xs)"
  by (rule sort_key_id_if_sorted) (auto intro: sorted_filter)

text \<open>
  C36. Retention keeps the Backup Set intact: after the deletions of a plan the inventory is again valid and in
  order, so every remaining Snapshot still has its encrypted package; exactly the selected Snapshots are gone,
  every remaining package is used by a remaining Snapshot, and the reported counts are those of what remains.
\<close>

theorem retention_preserves_validity:
  assumes "planBackupSetRetention P inventory deletes = ok plan"
  shows "normalizeInventory P (after_retention plan) = ok (after_retention plan) \<and>
    set (in_snapshots (after_retention plan)) = {s \<in> set (in_snapshots inventory). se_snapshotId s \<notin> set deletes} \<and>
    pe_packageByteDigest ` set (in_packageEntries (after_retention plan)) =
      digest_of P ` set (in_snapshots (after_retention plan)) \<and>
    length (in_snapshots (after_retention plan)) = rp_retainedSnapshotCount plan \<and>
    length (in_packageEntries (after_retention plan)) = rp_retainedPackageEntryCount plan"
proof -
  have v: "valid_inventory P inventory" and plan: "plan = retention_result P inventory deletes"
    using assms by (simp_all add: plan_retention_ok)
  let ?n = "in_order inventory" and ?a = "after_retention plan"
  have snaps: "in_snapshots ?a = kept_snapshots ?n deletes"
    by (simp add: plan after_retention_def retention_result_def kept_snapshots_def Let_def)
  have packs: "in_packageEntries ?a = filter (\<lambda>p. pe_packageByteDigest p \<in> digest_of P ` set (in_snapshots ?a)) (in_packageEntries ?n)"
    unfolding snaps by (auto simp: plan after_retention_def retention_result_def dropped_packages_def Let_def intro!: filter_cong)
  have setId: "in_backupSetId ?a = in_backupSetId inventory"
    by (simp add: plan after_retention_def retention_result_def Let_def)
  have s: "set (in_snapshots ?a) = {s \<in> set (in_snapshots inventory). se_snapshotId s \<notin> set deletes}"
    unfolding snaps by (auto simp: kept_snapshots_def)
  have valid: "snapshot_valid P inventory s" if "s \<in> set (in_snapshots ?a)" for s
    using that v unfolding s valid_inventory_def by blast
  have sv: "snapshot_valid P ?a s" if x: "s \<in> set (in_snapshots ?a)" for s
  proof -
    obtain m p where m: "id32 (se_snapshotId s)" "decodeBackupSnapshotManifest P (se_manifestBytes s) = ok m"
        "bm_backupSetId m = in_backupSetId inventory" "bm_snapshotId m = se_snapshotId s"
        "p \<in> set (in_packageEntries inventory)" "pe_packageByteDigest p = bm_packageByteDigest m"
        "pe_packageByteLength p = bm_packageByteLength m"
      using valid[OF x] by (auto simp: snapshot_valid_def)
    then have "p \<in> set (in_packageEntries ?a)" unfolding packs using x by (force simp: digest_of_def)
    then show ?thesis using m by (auto simp: snapshot_valid_def setId)
  qed
  have "valid_inventory P ?a"
    using v sv unfolding valid_inventory_def setId
    by (auto simp: snaps packs kept_snapshots_def in_order_def distinct_map inj_on_def)
  moreover have "in_order ?a = ?a"
  proof -
    have "sort_key se_snapshotId (in_snapshots ?a) = in_snapshots ?a"
      unfolding snaps kept_snapshots_def in_order_def by (simp add: sorted_sort_key_id)
    moreover have "sort_key pe_packageByteDigest (in_packageEntries ?a) = in_packageEntries ?a"
      unfolding packs in_order_def by (simp add: sorted_sort_key_id)
    ultimately show ?thesis by (simp add: in_order_def)
  qed
  moreover have "pe_packageByteDigest ` set (in_packageEntries ?a) = digest_of P ` set (in_snapshots ?a)"
  proof
    show "pe_packageByteDigest ` set (in_packageEntries ?a) \<subseteq> digest_of P ` set (in_snapshots ?a)" unfolding packs by auto
    show "digest_of P ` set (in_snapshots ?a) \<subseteq> pe_packageByteDigest ` set (in_packageEntries ?a)"
    proof
      fix d assume "d \<in> digest_of P ` set (in_snapshots ?a)"
      then obtain s where "s \<in> set (in_snapshots ?a)" "d = digest_of P s" by blast
      then show "d \<in> pe_packageByteDigest ` set (in_packageEntries ?a)"
        using sv[of s] by (force simp: snapshot_valid_def digest_of_def)
    qed
  qed
  moreover have "length (in_snapshots ?a) = rp_retainedSnapshotCount plan"
    unfolding snaps by (simp add: plan retention_result_def Let_def)
  moreover have "length (in_packageEntries ?a) = rp_retainedPackageEntryCount plan"
  proof -
    have "rp_deletePackageEntries plan = filter (\<lambda>p. \<not> pe_packageByteDigest p \<in> digest_of P ` set (in_snapshots ?a)) (in_packageEntries ?n)"
      unfolding snaps by (simp add: plan retention_result_def dropped_packages_def Let_def)
    then have "length (in_packageEntries ?a) + length (rp_deletePackageEntries plan) = length (in_packageEntries ?n)"
      unfolding packs by (simp only: sum_length_filter_compl)
    then show ?thesis by (simp add: plan retention_result_def Let_def)
  qed
  ultimately show ?thesis using s by (simp add: normalizeInventory_ok)
qed

section \<open>A concrete Backup Set\<close>

definition demo_package :: package_entry where
  "demo_package = \<lparr>pe_packageByteLength = 9, pe_packageByteDigest = replicate 32 5\<rparr>"

definition demo_snapshot_id :: bytes where
  "demo_snapshot_id =
     (case backupSnapshotId ref_platform \<lparr>bm_format = 1, bm_backupSetId = replicate 32 4, bm_protectionProfile = 1,
        bm_packageByteLength = 9, bm_packageByteDigest = replicate 32 5, bm_snapshotId = []\<rparr> of
        Inr i \<Rightarrow> i | Inl _ \<Rightarrow> [])"

definition demo_manifest :: cvalue where
  "demo_manifest =
     CMap [(KNum 0, CNum 1), (KNum 1, CBytes (replicate 32 4)), (KNum 2, CBytes demo_snapshot_id),
           (KNum 3, CNum 1), (KNum 4, CNum 9), (KNum 5, CBytes (replicate 32 5))]"

definition demo_backup_platform :: platform where
  "demo_backup_platform = ref_platform\<lparr>cbor_decode :=
     (\<lambda>bs. if bs = cbor_reference demo_manifest then Inr demo_manifest else Inl ''unsupported'')\<rparr>"

definition demo_inventory :: backup_inventory where
  "demo_inventory =
     \<lparr>in_backupSetId = replicate 32 4,
      in_snapshots = [\<lparr>se_snapshotId = demo_snapshot_id, se_manifestBytes = cbor_reference demo_manifest\<rparr>],
      in_packageEntries = [demo_package, \<lparr>pe_packageByteLength = 3, pe_packageByteDigest = replicate 32 2\<rparr>]\<rparr>"

theorem retention_preserves_validity_witness:
  "\<exists>plan. planBackupSetRetention demo_backup_platform demo_inventory [] = ok plan \<and>
     normalizeInventory demo_backup_platform (after_retention plan) = ok (after_retention plan)"
proof -
  have "\<not> isl (planBackupSetRetention demo_backup_platform demo_inventory [])" by code_simp
  then obtain plan where p: "planBackupSetRetention demo_backup_platform demo_inventory [] = ok plan"
    by (cases "planBackupSetRetention demo_backup_platform demo_inventory []") auto
  with retention_preserves_validity[OF p] show ?thesis by blast
qed

end
