(* ===== verification/Garbage_Collection.thy ===== *)
theory Garbage_Collection
  imports Schema
begin

text \<open>
  Local Garbage Collection of a Replica: the plan computed from the reachable logical items, the
  stored resolutions and the Key Epoch Secrets (\<open>runtime/storage/garbage-collection-plan.ts\<close>), the
  order of the inventory it is computed from (\<open>garbage-collection-inventory.ts\<close>) and the fence
  that keeps a representation under reclamation from being used (\<open>garbage-collection-fence.ts\<close>).
  The lemmas show that the plan never takes away what a reachable item needs, and that it leaves
  nothing unreachable behind.
\<close>

section \<open>Data\<close>

record logical_resolution =
  lr_vaultId :: bytes
  lr_kind :: nat
  lr_logicalId :: bytes
  lr_storageItemId :: bytes
  lr_keyEpochId :: bytes
  lr_availability :: nat

record compact_item =
  ci_kind :: nat
  ci_logicalId :: bytes

record reachability =
  typedLogicalRoots :: "typed_dependency list"
  recordIds :: "bytes list"
  vaultObjectIds :: "bytes list"
  keyEnvelopeIds :: "bytes list"
  featureManifestIds :: "bytes list"
  artifactIds :: "bytes list"

record artifact_candidate =
  ca_artifactId :: bytes
  ca_storageItemId :: bytes
  ca_keyEpochId :: bytes

record gc_input =
  currentKeyEpochId :: bytes
  gi_reachability :: reachability
  gi_resolutions :: "logical_resolution list"
  gi_compactItems :: "compact_item list"
  gi_epochSecretIds :: "bytes list"

record gc_plan =
  deleteCompactItems :: "compact_item list"
  deleteResolutions :: "logical_resolution list"
  deleteEpochSecretIds :: "bytes list"
  artifactCleanupCandidates :: "artifact_candidate list"
  artifactCleanupStorageItemIds :: "bytes list"
  retainedArtifactStorageItemIds :: "bytes list"

section \<open>Helpers of the plan\<close>

definition logicalKey :: "nat \<Rightarrow> bytes \<Rightarrow> string" where
  "logicalKey kind logicalId = nat_str kind @ '':'' @ key logicalId"

text \<open>\<open>left.kind - right.kind || compareBytes(left.logicalId, right.logicalId)\<close>\<close>

definition compareLogical :: "('a \<Rightarrow> nat) \<Rightarrow> ('a \<Rightarrow> bytes) \<Rightarrow> 'a comparer" where
  "compareLogical kind logicalId left right =
     (if int (kind left) - int (kind right) \<noteq> 0 then int (kind left) - int (kind right)
      else compareBytes (logicalId left) (logicalId right))"

definition sortLogical :: "('a \<Rightarrow> nat) \<Rightarrow> ('a \<Rightarrow> bytes) \<Rightarrow> 'a list \<Rightarrow> 'a list" where
  "sortLogical kind logicalId values = sort_by (compareLogical kind logicalId) values"

definition uniqueIds :: "bytes list \<Rightarrow> string \<Rightarrow> bytes list res" where
  "uniqueIds values field =
     and_then (foldM (\<lambda>unique v.
         if mapHas unique (key v) then throw (TypeError (field @ '' contains a duplicate identity''))
         else ok (mapSet unique (key v) v)) [] values)
       (\<lambda>unique. ok (sort_by compareBytes (mapValues unique)))"

definition deduplicatedIds :: "bytes list \<Rightarrow> bytes list" where
  "deduplicatedIds values = sort_by compareBytes (mapValues (mapFrom (map (\<lambda>v. (key v, v)) values)))"

section \<open>The plan\<close>

definition reachable_keys :: "reachability \<Rightarrow> string list" where
  "reachable_keys r =
     map (logicalKey 1) (recordIds r) @ map (logicalKey 2) (keyEnvelopeIds r) @
     map (logicalKey 3) (vaultObjectIds r) @ map (logicalKey 4) (featureManifestIds r) @
     map (logicalKey 5) (artifactIds r)"

definition index_resolution ::
  "(string, logical_resolution) jmap \<Rightarrow> logical_resolution \<Rightarrow> (string, logical_resolution) jmap res" where
  "index_resolution resolutions resolution =
     (let itemKey = logicalKey (lr_kind resolution) (lr_logicalId resolution) in
      if mapHas resolutions itemKey
      then throw (TypeError ''Replica Garbage Collection resolutions contain a duplicate identity'')
      else ok (mapSet resolutions itemKey resolution))"

definition artifact_epochs ::
  "(string, string set) jmap \<Rightarrow> logical_resolution \<Rightarrow> (string, string set) jmap" where
  "artifact_epochs m resolution =
     (if lr_kind resolution \<noteq> 5 then m
      else
        let storageKey = key (lr_storageItemId resolution);
            epochKeys = (case mapGet m storageKey of None \<Rightarrow> {} | Some ks \<Rightarrow> ks)
        in mapSet m storageKey (insert (key (lr_keyEpochId resolution)) epochKeys))"

definition compact_identity :: "string list \<Rightarrow> compact_item \<Rightarrow> string list res" where
  "compact_identity seen item =
     (let itemKey = logicalKey (ci_kind item) (ci_logicalId item) in
      if itemKey \<in> set seen
      then throw (TypeError ''Replica Garbage Collection compact inventory contains a duplicate'')
      else ok (itemKey # seen))"

definition cleanup_candidate :: "logical_resolution \<Rightarrow> artifact_candidate res" where
  "cleanup_candidate r =
     and_then (identifier_of ArtifactId (lr_logicalId r)) (\<lambda>artifactId.
       ok \<lparr>ca_artifactId = artifactId, ca_storageItemId = lr_storageItemId r,
           ca_keyEpochId = lr_keyEpochId r\<rparr>)"

definition planReplicaGarbageCollection :: "gc_input \<Rightarrow> gc_plan res" where
  "planReplicaGarbageCollection input =
     (let reachable = reachable_keys (gi_reachability input) in
      and_then (foldM index_resolution [] (gi_resolutions input)) (\<lambda>resolutions.
      and_then (guard_not (list_ex (\<lambda>itemKey. \<not> mapHas resolutions itemKey) reachable)
        (TypeError ''A reachable logical item has no local resolution'')) (\<lambda>_.
      let artifactEpochsByStorage = foldl artifact_epochs [] (mapValues resolutions) in
      and_then (guard_not (list_ex (\<lambda>epochKeys. card epochKeys \<noteq> 1) (mapValues artifactEpochsByStorage))
        (TypeError ''A physical Artifact wrapper has conflicting Key Epoch IDs'')) (\<lambda>_.
      let retainedResolutions = map snd (filter (\<lambda>(k, r). k \<in> set reachable) resolutions);
          deferredArtifactResolutions =
            map snd (filter (\<lambda>(k, r). k \<notin> set reachable \<and> lr_kind r = 5) resolutions);
          unreachableCompactResolutions =
            map snd (filter (\<lambda>(k, r). k \<notin> set reachable \<and> lr_kind r \<noteq> 5) resolutions) in
      and_then (foldM compact_identity [] (gi_compactItems input)) (\<lambda>_.
      let deleteCompact = sortLogical ci_kind ci_logicalId
            (filter (\<lambda>item. logicalKey (ci_kind item) (ci_logicalId item) \<notin> set reachable)
              (gi_compactItems input));
          retainedArtifacts = filter (\<lambda>r. lr_kind r = 5) retainedResolutions;
          retainedStorage = deduplicatedIds (map lr_storageItemId retainedArtifacts);
          retainedStorageKeys = key ` set retainedStorage;
          deduplicatedArtifactResolutions =
            filter (\<lambda>r. key (lr_storageItemId r) \<in> retainedStorageKeys) deferredArtifactResolutions;
          cleanupArtifactResolutions =
            filter (\<lambda>r. key (lr_storageItemId r) \<notin> retainedStorageKeys) deferredArtifactResolutions;
          deleted = sortLogical lr_kind lr_logicalId
            (unreachableCompactResolutions @ deduplicatedArtifactResolutions) in
      and_then (uniqueIds (gi_epochSecretIds input) ''Key Epoch Secret inventory'') (\<lambda>epochSecretIds.
      let retainedEpochKeys = key (currentKeyEpochId input) #
            map (\<lambda>r. key (lr_keyEpochId r)) (retainedResolutions @ cleanupArtifactResolutions) in
      and_then (guard_not (list_ex (\<lambda>epochKey. \<not> list_ex (\<lambda>e. key e = epochKey) epochSecretIds) retainedEpochKeys)
        (TypeError ''A retained representation has no local Key Epoch Secret'')) (\<lambda>_.
      and_then (traverse cleanup_candidate cleanupArtifactResolutions) (\<lambda>unsorted.
      let candidates = sort_by (\<lambda>l r. compareBytes (ca_artifactId l) (ca_artifactId r)) unsorted in
        ok \<lparr>deleteCompactItems = deleteCompact,
            deleteResolutions = deleted,
            deleteEpochSecretIds = filter (\<lambda>e. key e \<notin> set retainedEpochKeys) epochSecretIds,
            artifactCleanupCandidates = candidates,
            artifactCleanupStorageItemIds = deduplicatedIds (map ca_storageItemId candidates),
            retainedArtifactStorageItemIds = retainedStorage\<rparr>))))))))"

section \<open>The fence\<close>

record gc_fence =
  fence_artifactId :: bytes
  fence_storageItemId :: bytes

definition assertArtifactStorageItemNotGarbageCollectionFenced ::
  "gc_fence list \<Rightarrow> bytes \<Rightarrow> bytes \<Rightarrow> unit res" where
  "assertArtifactStorageItemNotGarbageCollectionFenced fences artifactId storageItemId =
     (if \<not> list_ex (\<lambda>fence. bytesEqual (fence_artifactId fence) artifactId \<or>
               bytesEqual (fence_storageItemId fence) storageItemId) fences
      then ok ()
      else throw (CodedError ''ARTIFACT_REPRESENTATION_GARBAGE_COLLECTION_FENCED''
        ''The Artifact representation is being reclaimed by local Garbage Collection.''))"

section \<open>Lemmas on the helpers\<close>

lemma logicalKey_inject [simp]: "logicalKey k a = logicalKey l b \<longleftrightarrow> k = l \<and> a = b"
  using split_at_separator[OF nat_str_no_colon nat_str_no_colon, of k "key a" l "key b"]
  by (simp add: logicalKey_def)

lemma set_deduplicatedIds [simp]: "set (deduplicatedIds vs) = set vs"
proof -
  have "v \<in> set (mapValues (mapFrom (map (\<lambda>v. (key v, v)) vs))) \<longleftrightarrow> v \<in> set vs" for v
  proof -
    let ?m = "mapFrom (map (\<lambda>v. (key v, v)) vs)"
    have "set ?m \<subseteq> set (map (\<lambda>v. (key v, v)) vs)" by (rule mapFrom_subset)
    moreover have "key ` set vs \<subseteq> fst ` set ?m"
      using mapFrom_keys[of "map (\<lambda>v. (key v, v)) vs"] by (auto simp: image_image)
    ultimately show ?thesis by force
  qed
  then show ?thesis by (auto simp: deduplicatedIds_def simp del: set_map)
qed

lemma unique_loop:
  "foldM (\<lambda>unique v. if mapHas unique (key v) then throw e else ok (mapSet unique (key v) v)) m vs = ok m' \<longleftrightarrow>
     distinct (map key vs) \<and> (\<forall>v \<in> set vs. \<not> mapHas m (key v)) \<and> m' = m @ map (\<lambda>v. (key v, v)) vs"
  by (rule foldM_index) simp

lemma distinct_map_key [simp]: "distinct (map key xs) = distinct xs"
  by (simp add: distinct_map inj_on_def)

lemma uniqueIds_ok:
  "uniqueIds vs field = ok us \<longleftrightarrow> distinct vs \<and> us = sort_by compareBytes vs"
  by (auto simp: uniqueIds_def and_then_eq_Inr unique_loop comp_def)

section \<open>What the plan contains\<close>

text \<open>An item is live when the trace reached it.\<close>

definition live :: "reachability \<Rightarrow> nat \<Rightarrow> bytes \<Rightarrow> bool" where
  "live R kind i =
     (kind = 1 \<and> i \<in> set (recordIds R) \<or> kind = 2 \<and> i \<in> set (keyEnvelopeIds R) \<or>
      kind = 3 \<and> i \<in> set (vaultObjectIds R) \<or> kind = 4 \<and> i \<in> set (featureManifestIds R) \<or>
      kind = 5 \<and> i \<in> set (artifactIds R))"

abbreviation live_resolution :: "gc_input \<Rightarrow> logical_resolution \<Rightarrow> bool" where
  "live_resolution inp r \<equiv> live (gi_reachability inp) (lr_kind r) (lr_logicalId r)"

lemma reachable_keys_live: "logicalKey k i \<in> set (reachable_keys R) \<longleftrightarrow> live R k i"
  by (auto simp: reachable_keys_def live_def)

lemma reachable_keys_cases:
  assumes "itemKey \<in> set (reachable_keys R)"
  obtains k i where "itemKey = logicalKey k i" "live R k i"
  using assms by (auto simp: reachable_keys_def live_def)

abbreviation resolution_key :: "logical_resolution \<Rightarrow> string" where
  "resolution_key r \<equiv> logicalKey (lr_kind r) (lr_logicalId r)"

lemma index_resolutions_ok:
  "foldM index_resolution m rs = ok m' \<longleftrightarrow>
     distinct (map resolution_key rs) \<and> (\<forall>r \<in> set rs. \<not> mapHas m (resolution_key r)) \<and>
     m' = m @ map (\<lambda>r. (resolution_key r, r)) rs"
  by (rule foldM_index) (simp only: index_resolution_def Let_def)

lemma compact_identities_ok:
  "foldM compact_identity seen items = ok out \<longleftrightarrow>
     distinct (map (\<lambda>i. logicalKey (ci_kind i) (ci_logicalId i)) items) \<and>
     (\<forall>i \<in> set items. logicalKey (ci_kind i) (ci_logicalId i) \<notin> set seen) \<and>
     out = rev (map (\<lambda>i. logicalKey (ci_kind i) (ci_logicalId i)) items) @ seen"
  by (rule foldM_seen) (simp only: compact_identity_def Let_def)

definition epochs_at :: "logical_resolution list \<Rightarrow> bytes \<Rightarrow> string set" where
  "epochs_at rs s = (\<lambda>r. key (lr_keyEpochId r)) ` {r \<in> set rs. lr_kind r = 5 \<and> lr_storageItemId r = s}"

lemma epochs_at_Cons:
  "epochs_at (r # rs) s =
     (if lr_kind r = 5 \<and> lr_storageItemId r = s then insert (key (lr_keyEpochId r)) (epochs_at rs s)
      else epochs_at rs s)"
  by (auto simp: epochs_at_def)

lemma artifact_epochs_get:
  "mapGet (foldl artifact_epochs m rs) (key s) =
     (if epochs_at rs s = {} then mapGet m (key s)
      else Some (epochs_at rs s \<union> (case mapGet m (key s) of None \<Rightarrow> {} | Some ks \<Rightarrow> ks)))"
proof (induction rs arbitrary: m)
  case (Cons r rs)
  have step: "mapGet (artifact_epochs m r) (key s) =
      (if lr_kind r = 5 \<and> lr_storageItemId r = s
       then Some (insert (key (lr_keyEpochId r)) (case mapGet m (key s) of None \<Rightarrow> {} | Some ks \<Rightarrow> ks))
       else mapGet m (key s))"
    by (auto simp: artifact_epochs_def Let_def update_conv')
  show ?case
    using Cons.IH[of "artifact_epochs m r"] unfolding step epochs_at_Cons by auto
qed (simp add: epochs_at_def)

text \<open>The three fates of a resolution that is not live.\<close>

definition live_storage :: "gc_input \<Rightarrow> bytes set" where
  "live_storage inp = set (map lr_storageItemId
     (filter (\<lambda>r. live_resolution inp r \<and> lr_kind r = 5) (gi_resolutions inp)))"

definition reclaimed :: "gc_input \<Rightarrow> logical_resolution list" where
  "reclaimed inp = filter (\<lambda>r. \<not> live_resolution inp r \<and> lr_kind r = 5 \<and>
     lr_storageItemId r \<notin> live_storage inp) (gi_resolutions inp)"

definition needed_epochs :: "gc_input \<Rightarrow> bytes set" where
  "needed_epochs inp = set (currentKeyEpochId inp #
     map lr_keyEpochId (filter (live_resolution inp) (gi_resolutions inp) @ reclaimed inp))"

lemma cleanup_candidates_ok:
  "traverse cleanup_candidate rs = ok cs \<longleftrightarrow> (\<forall>r \<in> set rs. id32 (lr_logicalId r)) \<and>
     cs = map (\<lambda>r. \<lparr>ca_artifactId = lr_logicalId r, ca_storageItemId = lr_storageItemId r,
                     ca_keyEpochId = lr_keyEpochId r\<rparr>) rs"
proof (induction rs arbitrary: cs)
  case (Cons r rs)
  have "cleanup_candidate r = ok c \<longleftrightarrow> id32 (lr_logicalId r) \<and>
      c = \<lparr>ca_artifactId = lr_logicalId r, ca_storageItemId = lr_storageItemId r,
           ca_keyEpochId = lr_keyEpochId r\<rparr>" for c
    by (auto simp: cleanup_candidate_def and_then_eq_Inr schema_ok valid_id_def NONZERO_IDENTIFIER_KINDS_def)
  then show ?case using Cons.IH by (auto simp: and_then_eq_Inr)
qed auto

definition consistent_inventory :: "gc_input \<Rightarrow> bool" where
  "consistent_inventory inp \<longleftrightarrow>
     distinct (map resolution_key (gi_resolutions inp)) \<and>
     (\<forall>k i. live (gi_reachability inp) k i \<longrightarrow>
        (\<exists>r \<in> set (gi_resolutions inp). lr_kind r = k \<and> lr_logicalId r = i)) \<and>
     (\<forall>r \<in> set (gi_resolutions inp). \<forall>r' \<in> set (gi_resolutions inp).
        lr_kind r = 5 \<and> lr_kind r' = 5 \<and> lr_storageItemId r = lr_storageItemId r' \<longrightarrow>
        lr_keyEpochId r = lr_keyEpochId r') \<and>
     distinct (map (\<lambda>i. logicalKey (ci_kind i) (ci_logicalId i)) (gi_compactItems inp)) \<and>
     distinct (gi_epochSecretIds inp) \<and> needed_epochs inp \<subseteq> set (gi_epochSecretIds inp) \<and>
     (\<forall>r \<in> set (reclaimed inp). id32 (lr_logicalId r))"

lemma epochs_guard:
  "\<not> list_ex (\<lambda>es. card es \<noteq> 1) (mapValues (foldl artifact_epochs [] rs)) \<longleftrightarrow>
     (\<forall>r \<in> set rs. \<forall>r' \<in> set rs. lr_kind r = 5 \<and> lr_kind r' = 5 \<and>
        lr_storageItemId r = lr_storageItemId r' \<longrightarrow> lr_keyEpochId r = lr_keyEpochId r')"
  (is "?l \<longleftrightarrow> ?r")
proof -
  let ?m = "foldl artifact_epochs [] rs"
  have keys: "\<exists>s. k = key s" if "k \<in> fst ` set ?m" for k
  proof -
    have "fst ` set (foldl artifact_epochs m rs) \<subseteq> fst ` set m \<union> range key" for m
    proof (induction rs arbitrary: m)
      case (Cons r rs)
      have "fst ` set (artifact_epochs m r) \<subseteq> fst ` set m \<union> range key"
        by (auto simp: artifact_epochs_def Let_def dom_update)
      then show ?case using Cons.IH[of "artifact_epochs m r"] by simp blast
    qed simp
    from this[of "[]"] show ?thesis using that by auto
  qed
  have dist: "distinct (mapKeys ?m)"
  proof -
    have "distinct (mapKeys m) \<Longrightarrow> distinct (mapKeys (foldl artifact_epochs m rs))" for m
      by (induction rs arbitrary: m) (auto simp: artifact_epochs_def Let_def intro: distinct_update)
    then show ?thesis by simp
  qed
  have get: "mapGet ?m (key s) = (if epochs_at rs s = {} then None else Some (epochs_at rs s))" for s
    using artifact_epochs_get[of "[]" rs s] by simp
  have vals: "es \<in> set (mapValues ?m) \<longleftrightarrow> (\<exists>s. es = epochs_at rs s \<and> epochs_at rs s \<noteq> {})" for es
  proof
    assume "es \<in> set (mapValues ?m)"
    then obtain k where k: "(k, es) \<in> set ?m" by auto
    then obtain s where s: "k = key s" using keys[of k] by force
    then have "mapGet ?m (key s) = Some es" using k dist by (metis map_of_is_SomeI)
    then have "es = epochs_at rs s \<and> epochs_at rs s \<noteq> {}" using get[of s] by (auto split: if_splits)
    then show "\<exists>s. es = epochs_at rs s \<and> epochs_at rs s \<noteq> {}" by blast
  next
    assume "\<exists>s. es = epochs_at rs s \<and> epochs_at rs s \<noteq> {}"
    then obtain s where "es = epochs_at rs s" "epochs_at rs s \<noteq> {}" by blast
    then have "mapGet ?m (key s) = Some es" using get[of s] by simp
    then show "es \<in> set (mapValues ?m)" by (metis map_of_SomeD image_eqI list.set_map snd_conv)
  qed
  have "?l \<longleftrightarrow> (\<forall>es. es \<in> set (mapValues ?m) \<longrightarrow> card es = 1)" unfolding list_ex_iff by blast
  also have "\<dots> \<longleftrightarrow> (\<forall>s. epochs_at rs s \<noteq> {} \<longrightarrow> card (epochs_at rs s) = 1)" unfolding vals by blast
  also have "\<dots> \<longleftrightarrow> (\<forall>s. \<forall>a \<in> epochs_at rs s. \<forall>b \<in> epochs_at rs s. a = b)"
  proof -
    have fin: "finite (epochs_at rs s)" for s by (simp add: epochs_at_def)
    have "(A \<noteq> {} \<longrightarrow> card A = 1) \<longleftrightarrow> (\<forall>a \<in> A. \<forall>b \<in> A. a = b)" if "finite A" for A :: "string set"
      using card_le_Suc0_iff_eq[OF that] card_0_eq[OF that] by (cases "card A") auto
    from this[OF fin] show ?thesis by blast
  qed
  also have "\<dots> \<longleftrightarrow> ?r"
  proof -
    have mem: "a \<in> epochs_at rs s \<longleftrightarrow>
        (\<exists>r \<in> set rs. lr_kind r = 5 \<and> lr_storageItemId r = s \<and> a = key (lr_keyEpochId r))" for a s
      by (auto simp: epochs_at_def)
    show ?thesis
    proof
      assume l: "\<forall>s. \<forall>a \<in> epochs_at rs s. \<forall>b \<in> epochs_at rs s. a = b"
      show ?r
      proof (intro ballI impI)
        fix r r' assume r: "r \<in> set rs" "r' \<in> set rs"
          "lr_kind r = 5 \<and> lr_kind r' = 5 \<and> lr_storageItemId r = lr_storageItemId r'"
        then have "key (lr_keyEpochId r) \<in> epochs_at rs (lr_storageItemId r)"
          "key (lr_keyEpochId r') \<in> epochs_at rs (lr_storageItemId r)"
          unfolding mem by metis+
        then have "key (lr_keyEpochId r) = key (lr_keyEpochId r')" using l by blast
        then show "lr_keyEpochId r = lr_keyEpochId r'" by simp
      qed
    next
      assume r: ?r
      show "\<forall>s. \<forall>a \<in> epochs_at rs s. \<forall>b \<in> epochs_at rs s. a = b"
      proof (intro allI ballI)
        fix s a b assume "a \<in> epochs_at rs s" "b \<in> epochs_at rs s"
        then obtain x y where xy: "x \<in> set rs" "lr_kind x = 5 \<and> lr_storageItemId x = s \<and> a = key (lr_keyEpochId x)"
          "y \<in> set rs" "lr_kind y = 5 \<and> lr_storageItemId y = s \<and> b = key (lr_keyEpochId y)"
          unfolding mem by blast
        then have "lr_keyEpochId x = lr_keyEpochId y" using r by metis
        then show "a = b" using xy by simp
      qed
    qed
  qed
  finally show ?thesis .
qed

definition gc_outcome :: "gc_input \<Rightarrow> gc_plan" where
  "gc_outcome inp =
     (let candidates = sort_by (\<lambda>l r. compareBytes (ca_artifactId l) (ca_artifactId r))
        (map (\<lambda>r. \<lparr>ca_artifactId = lr_logicalId r, ca_storageItemId = lr_storageItemId r,
                    ca_keyEpochId = lr_keyEpochId r\<rparr>) (reclaimed inp))
      in \<lparr>deleteCompactItems = sortLogical ci_kind ci_logicalId
             (filter (\<lambda>i. \<not> live (gi_reachability inp) (ci_kind i) (ci_logicalId i)) (gi_compactItems inp)),
          deleteResolutions = sortLogical lr_kind lr_logicalId
             (filter (\<lambda>r. \<not> live_resolution inp r \<and> lr_kind r \<noteq> 5) (gi_resolutions inp) @
              filter (\<lambda>r. \<not> live_resolution inp r \<and> lr_kind r = 5 \<and> lr_storageItemId r \<in> live_storage inp)
                (gi_resolutions inp)),
          deleteEpochSecretIds =
             filter (\<lambda>e. e \<notin> needed_epochs inp) (sort_by compareBytes (gi_epochSecretIds inp)),
          artifactCleanupCandidates = candidates,
          artifactCleanupStorageItemIds = deduplicatedIds (map ca_storageItemId candidates),
          retainedArtifactStorageItemIds = deduplicatedIds (map lr_storageItemId
             (filter (\<lambda>r. live_resolution inp r \<and> lr_kind r = 5) (gi_resolutions inp)))\<rparr>)"

lemma filter_indexed:
  "map snd (filter (\<lambda>(k, r). P k r) (map (\<lambda>r. (f r, r)) rs)) = filter (\<lambda>r. P (f r) r) rs"
  by (induction rs) auto

lemma map_snd_indexed: "map snd (map (\<lambda>r. (f r, r)) rs) = rs"
  by (simp add: comp_def)

lemma ex_one_point:
  "(\<exists>x. (P \<and> x = t) \<and> R x) \<longleftrightarrow> P \<and> R t"
  "(\<exists>x. (P \<and> Q \<and> x = t) \<and> R x) \<longleftrightarrow> P \<and> Q \<and> R t"
  by auto

lemma resolution_guard:
  "\<not> list_ex (\<lambda>itemKey. \<not> mapHas (map (\<lambda>r. (resolution_key r, r)) rs) itemKey) (reachable_keys R) \<longleftrightarrow>
     (\<forall>k i. live R k i \<longrightarrow> (\<exists>r \<in> set rs. lr_kind r = k \<and> lr_logicalId r = i))"
proof -
  have "mapHas (map (\<lambda>r. (resolution_key r, r)) rs) (logicalKey k i) \<longleftrightarrow>
      (\<exists>r \<in> set rs. lr_kind r = k \<and> lr_logicalId r = i)" for k i
    by (auto simp: mapHas_def image_iff)
  moreover have "(\<forall>x \<in> set (reachable_keys R). Q x) \<longleftrightarrow> (\<forall>k i. live R k i \<longrightarrow> Q (logicalKey k i))" for Q
    by (auto elim!: reachable_keys_cases simp: reachable_keys_live)
  ultimately show ?thesis by (simp add: list_ex_iff)
qed

lemma epoch_guard:
  assumes "set us = set es"
  shows "\<not> list_ex (\<lambda>epochKey. \<not> list_ex (\<lambda>e. key e = epochKey) us) (map key xs) \<longleftrightarrow> set xs \<subseteq> set es"
  using assms by (auto simp: list_ex_iff)

lemma plan_ok:
  "planReplicaGarbageCollection inp = ok plan \<longleftrightarrow> consistent_inventory inp \<and> plan = gc_outcome inp"
proof -
  let ?R = "gi_reachability inp" and ?rs = "gi_resolutions inp" and ?es = "gi_epochSecretIds inp"
  let ?storage = "deduplicatedIds (map lr_storageItemId (filter (\<lambda>r. live_resolution inp r \<and> lr_kind r = 5) ?rs))"
  have storage: "key x \<in> key ` set ?storage \<longleftrightarrow> x \<in> live_storage inp" for x
    by (auto simp: live_storage_def)
  let ?epochs = "currentKeyEpochId inp # map lr_keyEpochId (filter (live_resolution inp) ?rs @ reclaimed inp)"
  have epochs: "set ?epochs = needed_epochs inp" by (auto simp: needed_epochs_def)
  have keys: "key (currentKeyEpochId inp) #
      map (\<lambda>r. key (lr_keyEpochId r)) (filter (live_resolution inp) ?rs @ reclaimed inp) = map key ?epochs"
    by simp
  have needed: "key e \<in> set (map key ?epochs) \<longleftrightarrow> e \<in> needed_epochs inp" for e
    unfolding epochs[symmetric] by (simp only: set_map key_image_mem)
  have retained: "filter (\<lambda>r. lr_kind r = 5) (filter (live_resolution inp) ?rs) =
      filter (\<lambda>r. live_resolution inp r \<and> lr_kind r = 5) ?rs"
    by (simp add: conj_commute)
  have cleanup: "filter (\<lambda>r. key (lr_storageItemId r) \<notin> key ` set ?storage)
      (filter (\<lambda>r. \<not> live_resolution inp r \<and> lr_kind r = 5) ?rs) = reclaimed inp"
    unfolding storage reclaimed_def by (simp add: conj_ac)
  have dedup: "filter (\<lambda>r. key (lr_storageItemId r) \<in> key ` set ?storage)
      (filter (\<lambda>r. \<not> live_resolution inp r \<and> lr_kind r = 5) ?rs) =
      filter (\<lambda>r. \<not> live_resolution inp r \<and> lr_kind r = 5 \<and> lr_storageItemId r \<in> live_storage inp) ?rs"
    unfolding storage by (simp add: conj_ac)
  have guard_epochs: "\<not> list_ex (\<lambda>k. \<not> list_ex (\<lambda>e. key e = k) (sort_by compareBytes ?es)) (map key ?epochs) \<longleftrightarrow>
      needed_epochs inp \<subseteq> set ?es"
    using epoch_guard[of "sort_by compareBytes ?es" ?es ?epochs] epochs by (simp only: set_sort_by)
  show ?thesis
    unfolding planReplicaGarbageCollection_def Let_def
    by (simp only: and_then_eq_Inr guard_not_eq_Inr index_resolutions_ok compact_identities_ok
        uniqueIds_ok append_Nil append_Nil2 mapHas_simps ex_one_point filter_indexed map_snd_indexed
        reachable_keys_live cleanup_candidates_ok retained cleanup dedup keys needed resolution_guard
        epochs_guard guard_epochs list.set(1) empty_iff not_False_eq_True ball_triv
        sum.inject Let_def consistent_inventory_def gc_outcome_def) auto
qed

section \<open>Properties\<close>

lemma live_not_cleaned:
  assumes "r \<in> set (gi_resolutions inp)" and "live_resolution inp r"
  shows "r \<notin> set (deleteResolutions (gc_outcome inp))"
    and "lr_keyEpochId r \<in> needed_epochs inp"
    and "lr_kind r = 5 \<Longrightarrow> lr_storageItemId r \<notin> set (artifactCleanupStorageItemIds (gc_outcome inp))"
proof -
  show "r \<notin> set (deleteResolutions (gc_outcome inp))" "lr_keyEpochId r \<in> needed_epochs inp"
    using assms by (auto simp: gc_outcome_def sortLogical_def needed_epochs_def Let_def)
  assume "lr_kind r = 5"
  then have "lr_storageItemId r \<in> live_storage inp" unfolding live_storage_def using assms by simp
  then show "lr_storageItemId r \<notin> set (artifactCleanupStorageItemIds (gc_outcome inp))"
    by (auto simp: gc_outcome_def reclaimed_def Let_def)
qed

text \<open>
  C16. Garbage Collection is safe: whenever a plan is produced, no live compact item and no
  resolution of a live item is deleted; every live item keeps its resolution, the Key Epoch Secret
  that opens its representation and, for an Artifact, its stored bytes; the secret of the current
  Key Epoch and of every Artifact still to be cleaned up is kept as well.
\<close>

theorem gc_plan_safe:
  assumes "planReplicaGarbageCollection inp = ok plan"
  shows "(\<forall>i \<in> set (deleteCompactItems plan). \<not> live (gi_reachability inp) (ci_kind i) (ci_logicalId i)) \<and>
    (\<forall>k i. live (gi_reachability inp) k i \<longrightarrow>
       (\<exists>r \<in> set (gi_resolutions inp). lr_kind r = k \<and> lr_logicalId r = i \<and>
          r \<notin> set (deleteResolutions plan) \<and>
          lr_keyEpochId r \<in> set (gi_epochSecretIds inp) - set (deleteEpochSecretIds plan) \<and>
          (k = 5 \<longrightarrow> lr_storageItemId r \<notin> set (artifactCleanupStorageItemIds plan)))) \<and>
    currentKeyEpochId inp \<in> set (gi_epochSecretIds inp) - set (deleteEpochSecretIds plan) \<and>
    ca_keyEpochId ` set (artifactCleanupCandidates plan) \<inter> set (deleteEpochSecretIds plan) = {}"
proof -
  have inv: "consistent_inventory inp" and plan: "plan = gc_outcome inp"
    using assms unfolding plan_ok by simp_all
  have secrets: "e \<in> set (gi_epochSecretIds inp) - set (deleteEpochSecretIds plan)"
    if "e \<in> needed_epochs inp" for e
    using that inv by (auto simp: plan gc_outcome_def consistent_inventory_def Let_def)
  show ?thesis
  proof (intro conjI allI impI)
    show "\<forall>i \<in> set (deleteCompactItems plan). \<not> live (gi_reachability inp) (ci_kind i) (ci_logicalId i)"
      by (simp add: plan gc_outcome_def sortLogical_def Let_def)
    show "currentKeyEpochId inp \<in> set (gi_epochSecretIds inp) - set (deleteEpochSecretIds plan)"
      by (rule secrets) (simp add: needed_epochs_def)
    show "ca_keyEpochId ` set (artifactCleanupCandidates plan) \<inter> set (deleteEpochSecretIds plan) = {}"
      by (auto simp: plan gc_outcome_def needed_epochs_def Let_def)
    fix k i assume l: "live (gi_reachability inp) k i"
    then obtain r where r: "r \<in> set (gi_resolutions inp)" "lr_kind r = k" "lr_logicalId r = i"
      using inv by (auto simp: consistent_inventory_def)
    then have "live_resolution inp r" using l by simp
    then show "\<exists>r \<in> set (gi_resolutions inp). lr_kind r = k \<and> lr_logicalId r = i \<and>
          r \<notin> set (deleteResolutions plan) \<and>
          lr_keyEpochId r \<in> set (gi_epochSecretIds inp) - set (deleteEpochSecretIds plan) \<and>
          (k = 5 \<longrightarrow> lr_storageItemId r \<notin> set (artifactCleanupStorageItemIds plan))"
      using r live_not_cleaned[OF r(1)] secrets by (intro bexI[of _ r]) (auto simp: plan)
  qed
qed

text \<open>
  C17. Garbage Collection is complete and exact: a plan exists precisely for a consistent inventory,
  and then every compact item and every resolution that is not live is deleted or handed to the
  Artifact cleanup, each in exactly one way, and a Key Epoch Secret is deleted exactly when neither
  the current epoch nor a retained or deferred representation uses it.
\<close>

theorem gc_plan_complete:
  assumes "planReplicaGarbageCollection inp = ok plan"
  shows "set (deleteCompactItems plan) =
       {i \<in> set (gi_compactItems inp). \<not> live (gi_reachability inp) (ci_kind i) (ci_logicalId i)} \<and>
     {r \<in> set (gi_resolutions inp). \<not> live_resolution inp r} =
       set (deleteResolutions plan) \<union> set (reclaimed inp) \<and>
     set (deleteResolutions plan) \<inter> set (reclaimed inp) = {} \<and>
     set (artifactCleanupCandidates plan) =
       (\<lambda>r. \<lparr>ca_artifactId = lr_logicalId r, ca_storageItemId = lr_storageItemId r,
             ca_keyEpochId = lr_keyEpochId r\<rparr>) ` set (reclaimed inp) \<and>
     set (deleteEpochSecretIds plan) = set (gi_epochSecretIds inp) - needed_epochs inp \<and>
     set (artifactCleanupStorageItemIds plan) \<inter> set (retainedArtifactStorageItemIds plan) = {}"
proof -
  have plan: "plan = gc_outcome inp" using assms unfolding plan_ok by simp
  have dead: "{r \<in> set (gi_resolutions inp). \<not> live_resolution inp r} =
      set (deleteResolutions plan) \<union> set (reclaimed inp)"
    "set (deleteResolutions plan) \<inter> set (reclaimed inp) = {}"
    by (auto simp: plan gc_outcome_def sortLogical_def reclaimed_def Let_def)
  have "set (artifactCleanupStorageItemIds plan) \<subseteq> - live_storage inp"
    by (auto simp: plan gc_outcome_def reclaimed_def Let_def)
  moreover have "set (retainedArtifactStorageItemIds plan) = live_storage inp"
    by (auto simp: plan gc_outcome_def live_storage_def Let_def)
  ultimately show ?thesis
    using dead by (auto simp: plan gc_outcome_def sortLogical_def Let_def)
qed

text \<open>
  A Replica with one live Record, one unreachable Record, a live Artifact, an unreachable Artifact
  that shares its stored bytes, and an unreachable Artifact in an older Key Epoch.
\<close>

definition demo_resolution :: "nat \<Rightarrow> byte \<Rightarrow> byte \<Rightarrow> byte \<Rightarrow> logical_resolution" where
  "demo_resolution kind i storage epoch =
     \<lparr>lr_vaultId = replicate 32 1, lr_kind = kind, lr_logicalId = replicate 32 i,
      lr_storageItemId = replicate 32 storage, lr_keyEpochId = replicate 32 epoch, lr_availability = 1\<rparr>"

definition demo_input :: gc_input where
  "demo_input =
     \<lparr>currentKeyEpochId = replicate 32 3,
      gi_reachability = \<lparr>typedLogicalRoots = [], recordIds = [replicate 32 10], vaultObjectIds = [],
        keyEnvelopeIds = [], featureManifestIds = [], artifactIds = [replicate 32 20]\<rparr>,
      gi_resolutions = [demo_resolution 1 10 30 3, demo_resolution 1 11 31 1, demo_resolution 5 20 32 3,
        demo_resolution 5 21 32 3, demo_resolution 5 22 33 2],
      gi_compactItems = [\<lparr>ci_kind = 1, ci_logicalId = replicate 32 10\<rparr>, \<lparr>ci_kind = 1, ci_logicalId = replicate 32 11\<rparr>],
      gi_epochSecretIds = [replicate 32 1, replicate 32 2, replicate 32 3]\<rparr>"

lemma demo_input_consistent: "consistent_inventory demo_input"
  by (simp add: consistent_inventory_def demo_input_def demo_resolution_def live_def reclaimed_def
      live_storage_def needed_epochs_def)

lemma demo_input_planned: "planReplicaGarbageCollection demo_input = ok (gc_outcome demo_input)"
  using demo_input_consistent unfolding plan_ok by simp

theorem gc_plan_safe_witness:
  "live (gi_reachability demo_input) 5 (replicate 32 20) \<and>
   replicate 32 3 \<notin> set (deleteEpochSecretIds (gc_outcome demo_input))"
  using gc_plan_safe[OF demo_input_planned] by (simp add: demo_input_def live_def)

theorem gc_plan_complete_witness:
  "set (deleteEpochSecretIds (gc_outcome demo_input)) = {replicate 32 1} \<and>
   set (deleteCompactItems (gc_outcome demo_input)) = {\<lparr>ci_kind = 1, ci_logicalId = replicate 32 11\<rparr>}"
proof -
  have "needed_epochs demo_input = {replicate 32 2, replicate 32 3}"
    by (auto simp: needed_epochs_def demo_input_def demo_resolution_def live_def reclaimed_def live_storage_def)
  then show ?thesis
    using gc_plan_complete[OF demo_input_planned] by (auto simp: demo_input_def live_def)
qed

end
