(* ===== verification/Content_Bodies.thy ===== *)
theory Content_Bodies
  imports Schema Reducers
begin

text \<open>
  Model of \<open>domain/canonical/content-bodies.ts\<close>: the validator of the 31 Content Event bodies, which
  also returns the typed dependencies that the body requires its Event to declare. It is shown to
  return exactly the Vault Objects that the body names.
\<close>

section \<open>Event names and field parsers\<close>

definition CONTENT_EVENT_NAMES :: "string list" where
  "CONTENT_EVENT_NAMES =
     [''Vault Label'', ''Client Credential Label'', ''Bundle Registered'', ''Captures Deleted'',
      ''Captures Restored'', ''Captures Moved'', ''Collection Title'', ''Collections Merged'',
      ''Collection Merge Reverted'', ''Collection Merge Conflict Resolution'',
      ''Collection Folder Placement'', ''Folder Created'', ''Folder Renamed'',
      ''Folder Parent Placement'', ''Folder Deleted'', ''Folder Restored'',
      ''Folder Conflict Resolution'', ''Tag Created'', ''Tag Renamed'', ''Tag Assigned'',
      ''Tag Removed'', ''Tag Deleted'', ''Tag Restored'', ''Tags Merged'', ''Tag Merge Reverted'',
      ''Tag Merge Conflict Resolution'', ''Note Created'', ''Note Revised'', ''Note Deleted'',
      ''Note Restored'', ''Note Conflict Resolution'']"

definition LABEL_OPTIONS :: text_options where
  "LABEL_OPTIONS = default_text\<lparr>maxUtf8Bytes := Some 1024\<rparr>"

definition id_field :: "cmap \<Rightarrow> int \<Rightarrow> identifier_kind \<Rightarrow> string \<Rightarrow> unit res" where
  "id_field m k kind field = field_ok m k (\<lambda>v. identifierValue v kind field)"

definition cause_of :: "cvalue \<Rightarrow> string \<Rightarrow> bytes res" where
  "cause_of value field = identifierValue value VaultRecordId field"

definition label_of :: "cvalue \<Rightarrow> string \<Rightarrow> string option res" where
  "label_of value field = nullable value (\<lambda>entry. textValue entry field LABEL_OPTIONS)"

definition target_of :: "cvalue \<Rightarrow> string \<Rightarrow> unit res" where
  "target_of value field =
     and_then (exactMap value (num_keys 2) field) (\<lambda>m.
     and_then (with_field m 0 (\<lambda>v. oneOfCodes v [1, 2] (field @ '' kind''))) (\<lambda>kind.
       id_field m 1 (if kind = 1 then CollectionId else BundleId) (field @ '' ID'')))"

definition redirect_of :: "cvalue \<Rightarrow> identifier_kind \<Rightarrow> string \<Rightarrow> unit res" where
  "redirect_of value kind field =
     and_then (exactMap value (num_keys 2) field) (\<lambda>m.
       checks [id_field m 0 kind (field @ '' source ID''), id_field m 1 kind (field @ '' destination ID'')])"

definition canonicalRedirects :: "platform \<Rightarrow> cvalue \<Rightarrow> identifier_kind \<Rightarrow> string \<Rightarrow> unit res" where
  "canonicalRedirects P value kind field =
     and_then (canonicalSetValue P value field
       (\<lambda>index entry. and_then (redirect_of entry kind (field @ ''['' @ nat_str index @ '']'')) (\<lambda>_. ok entry))
       False) (\<lambda>_. ok ())"

text \<open>
  \<open>canonicalIdKeyedArray\<close>: the loop keeps the identity of the previous entry; the callback may also
  push findings to an array of its caller, which are collected in order.
\<close>

definition keyed_entry ::
  "string \<Rightarrow> identifier_kind \<Rightarrow> (nat \<Rightarrow> cvalue \<Rightarrow> (bytes \<times> 'r list) res) \<Rightarrow>
     bytes option \<times> 'r list \<Rightarrow> nat \<times> cvalue \<Rightarrow> (bytes option \<times> 'r list) res" where
  "keyed_entry field kind validate state indexed =
     (let index = fst indexed; entry = snd indexed; previous = fst state in
      and_then (validate index entry) (\<lambda>(current, found).
      and_then (identifierValue (CBytes current) kind (field @ ''['' @ nat_str index @ ''] identity'')) (\<lambda>_.
      and_then (guard_not (case previous of None \<Rightarrow> False | Some p \<Rightarrow> compareBytes p current \<ge> 0)
        (TypeError (field @ '' must be sorted by unique '' @ kind_name kind @ '' ID''))) (\<lambda>_.
        ok (Some current, snd state @ found)))))"

definition canonicalIdKeyedArray ::
  "cvalue \<Rightarrow> string \<Rightarrow> identifier_kind \<Rightarrow> (nat \<Rightarrow> cvalue \<Rightarrow> (bytes \<times> 'r list) res) \<Rightarrow> 'r list res" where
  "canonicalIdKeyedArray value field kind validate =
     and_then (arrayValue value field) (\<lambda>entries.
     and_then (foldM (keyed_entry field kind validate) (None, []) (enumerate 0 entries)) (\<lambda>state.
       ok (snd state)))"

definition content_bodyKeys :: "int \<Rightarrow> ckey list res" where
  "content_bodyKeys type =
     (if type \<in> {1, 4, 5, 9, 15, 16, 21, 22, 23, 25} then ok (num_keys 1)
      else if type \<in> {2, 6, 7, 8, 10, 11, 13, 14, 17, 18, 19, 24, 26, 29, 30} then ok (num_keys 2)
      else if type \<in> {3, 12, 20, 27, 28} then ok (num_keys 3)
      else if type = 31 then ok (num_keys 4)
      else throw (TypeError ''Unknown Content Event type''))"

section \<open>The validator\<close>

definition capture_move :: "nat \<Rightarrow> cvalue \<Rightarrow> (bytes \<times> unit list) res" where
  "capture_move index entry =
     and_then (exactMap entry (num_keys 3) (''Capture move '' @ nat_str index)) (\<lambda>move.
     and_then (with_field move 0 (\<lambda>v. identifierValue v BundleId ''Moved Bundle ID'')) (\<lambda>bundleId.
     and_then (checks [id_field move 1 CollectionId ''Source Collection ID'',
                       id_field move 2 CollectionId ''Destination Collection ID'']) (\<lambda>_.
       ok (bundleId, []))))"

definition folder_placement :: "nat \<Rightarrow> cvalue \<Rightarrow> (bytes \<times> unit list) res" where
  "folder_placement index entry =
     and_then (exactMap entry (num_keys 2) (''Folder placement '' @ nat_str index)) (\<lambda>placement.
     and_then (with_field placement 0 (\<lambda>v. identifierValue v FolderId ''Folder ID'')) (\<lambda>folderId.
     and_then (field_ok placement 1 (\<lambda>v. nullable v (\<lambda>parent.
         identifierValue parent FolderId ''Parent Folder ID''))) (\<lambda>_.
       ok (folderId, []))))"

definition split_note :: "nat \<Rightarrow> cvalue \<Rightarrow> (bytes \<times> typed_dependency list) res" where
  "split_note index entry =
     and_then (exactMap entry (num_keys 2) (''Split Note '' @ nat_str index)) (\<lambda>split.
     and_then (with_field split 0 (\<lambda>v. identifierValue v NoteId ''Split Note ID'')) (\<lambda>noteId.
     and_then (with_field split 1 (\<lambda>v. identifierValue v VaultObjectId ''Split Note Content Object ID'')) (\<lambda>contentId.
       ok (noteId, [dependency DepNoteContentObject contentId]))))"

definition content_checks :: "platform \<Rightarrow> int \<Rightarrow> cmap \<Rightarrow> unit res list" where
  "content_checks P type body =
     (let ids = (\<lambda>k kind field. field_ok body k (\<lambda>v. idSetValue P v kind field True));
          named = (\<lambda>k field. field_ok body k (\<lambda>v. textValue v field LABEL_OPTIONS));
          folder_or_null = (\<lambda>k field. field_ok body k (\<lambda>v. nullable v (\<lambda>e. identifierValue e FolderId field)))
      in if type = 1 then [field_ok body 0 (\<lambda>v. label_of v ''Vault label'')]
      else if type = 2 then
        [id_field body 0 ClientCredentialId ''Client Credential ID'',
         field_ok body 1 (\<lambda>v. label_of v ''Client Credential label'')]
      else if type = 4 \<or> type = 5 then [ids 0 BundleId ''Bundle IDs'']
      else if type = 6 then
        [field_ok body 0 (\<lambda>v. canonicalIdKeyedArray v ''Capture moves'' BundleId capture_move),
         field_ok body 0 (\<lambda>v. and_then (arrayValue v ''Capture moves'') (\<lambda>a.
           guard_not (length a = 0) (TypeError ''Capture moves must not be empty''))),
         field_ok body 1 (\<lambda>v. nullable v (\<lambda>e. cause_of e ''Reverted move Cause ID''))]
      else if type = 7 then
        [id_field body 0 CollectionId ''Collection ID'', field_ok body 1 (\<lambda>v. label_of v ''Collection title'')]
      else if type = 8 then
        [ids 0 CollectionId ''Source Collection IDs'', id_field body 1 CollectionId ''Destination Collection ID'']
      else if type = 9 then [field_ok body 0 (\<lambda>v. cause_of v ''Collection redirect Cause ID'')]
      else if type = 10 then
        [ids 0 VaultRecordId ''Conflicting Collection Cause IDs'',
         field_ok body 1 (\<lambda>v. canonicalRedirects P v CollectionId ''Collection redirects'')]
      else if type = 11 then
        [id_field body 0 CollectionId ''Collection ID'', folder_or_null 1 ''Folder ID'']
      else if type = 12 then
        [id_field body 0 FolderId ''Folder ID'', named 1 ''Folder name'', folder_or_null 2 ''Parent Folder ID'']
      else if type = 13 then [id_field body 0 FolderId ''Folder ID'', named 1 ''Folder name'']
      else if type = 14 then [id_field body 0 FolderId ''Folder ID'', folder_or_null 1 ''Parent Folder ID'']
      else if type = 15 \<or> type = 16 then [id_field body 0 FolderId ''Folder ID'']
      else if type = 17 then
        [ids 0 VaultRecordId ''Conflicting Folder Cause IDs'',
         field_ok body 1 (\<lambda>v. canonicalIdKeyedArray v ''Folder placements'' FolderId folder_placement)]
      else if type = 18 \<or> type = 19 then [id_field body 0 TagId ''Tag ID'', named 1 ''Tag name'']
      else if type = 20 then
        [id_field body 0 TagAssignmentId ''Tag Assignment ID'', id_field body 1 TagId ''Tag ID'',
         field_ok body 2 (\<lambda>v. target_of v ''Organization target'')]
      else if type = 21 then [ids 0 VaultRecordId ''Tag Assignment Cause IDs'']
      else if type = 22 \<or> type = 23 then [id_field body 0 TagId ''Tag ID'']
      else if type = 24 then [ids 0 TagId ''Source Tag IDs'', id_field body 1 TagId ''Destination Tag ID'']
      else if type = 25 then [field_ok body 0 (\<lambda>v. cause_of v ''Tag redirect Cause ID'')]
      else if type = 26 then
        [ids 0 VaultRecordId ''Conflicting Tag Cause IDs'',
         field_ok body 1 (\<lambda>v. canonicalRedirects P v TagId ''Tag redirects'')]
      else if type = 27 then
        [id_field body 0 NoteId ''Note ID'', field_ok body 1 (\<lambda>v. target_of v ''Note target'')]
      else if type = 28 then
        [id_field body 0 NoteId ''Note ID'', ids 1 VaultRecordId ''Superseded Note revision Cause IDs'']
      else if type = 29 \<or> type = 30 then
        [id_field body 0 NoteId ''Note ID'', ids 1 VaultRecordId ''Observed Note head Cause IDs'']
      else if type = 31 then
        [id_field body 0 NoteId ''Note ID'', ids 1 VaultRecordId ''Conflicting Note head Cause IDs'']
      else [])"

text \<open>
  The three types with an object read it after (27, 28) or between (3) the other fields; type 31
  collects the retained content and those of the split Notes.
\<close>

definition content_dependencies :: "int \<Rightarrow> cmap \<Rightarrow> typed_dependency list res" where
  "content_dependencies type body =
     (if type = 3 then
        and_then (id_field body 0 BundleId ''Bundle ID'') (\<lambda>_.
        and_then (with_field body 1 (\<lambda>v. identifierValue v VaultObjectId ''Bundle Descriptor Object ID''))
          (\<lambda>descriptorId.
        and_then (id_field body 2 CollectionId ''Assigned Collection ID'') (\<lambda>_.
          ok [dependency DepBundleDescriptorObject descriptorId])))
      else if type = 27 \<or> type = 28 then
        and_then (with_field body 2 (\<lambda>v. identifierValue v VaultObjectId ''Note Content Object ID''))
          (\<lambda>contentId. ok [dependency DepNoteContentObject contentId])
      else if type = 31 then
        and_then (with_field body 2 (\<lambda>v. nullable v (\<lambda>entry.
            identifierValue entry VaultObjectId ''Retained Note Content Object ID''))) (\<lambda>retained.
        and_then (with_field body 3 (\<lambda>v. canonicalIdKeyedArray v ''Split Notes'' NoteId split_note)) (\<lambda>splits.
          ok ((case retained of None \<Rightarrow> [] | Some c \<Rightarrow> [dependency DepNoteContentObject c]) @ splits)))
      else ok [])"

definition validateContentEventBody :: "platform \<Rightarrow> int \<Rightarrow> cvalue \<Rightarrow> typed_dependency list res" where
  "validateContentEventBody P type value =
     (case array_at CONTENT_EVENT_NAMES (type - 1) of
        None \<Rightarrow> throw (TypeError ''Unknown Content Event type'')
      | Some eventName \<Rightarrow>
          and_then (content_bodyKeys type) (\<lambda>bodyKeys.
          and_then (exactMap value bodyKeys (eventName @ '' Event body'')) (\<lambda>body.
          and_then (checks (content_checks P type body)) (\<lambda>_.
            content_dependencies type body))))"

section \<open>Arrays keyed by identifier\<close>

definition after :: "bytes option \<Rightarrow> bytes list \<Rightarrow> bool" where
  "after previous ids = sorted_wrt (<) ((case previous of None \<Rightarrow> [] | Some p \<Rightarrow> [p]) @ ids)"

lemma after_Cons:
  "after previous (i # ids) \<longleftrightarrow> (case previous of None \<Rightarrow> True | Some p \<Rightarrow> p < i) \<and> after (Some i) ids"
  by (cases previous) (auto simp: after_def)

lemma keyed_entry_ok:
  "keyed_entry field kind validate (previous, acc) (i, entry) = ok st \<longleftrightarrow>
     (\<exists>current found. validate i entry = ok (current, found) \<and> valid_id kind current \<and>
        (case previous of None \<Rightarrow> True | Some p \<Rightarrow> p < current) \<and> st = (Some current, acc @ found))"
proof -
  have le: "compareBytes p c \<ge> 0 \<longleftrightarrow> \<not> p < c" for p c
    using compareBytes_less[of p c] by auto
  show ?thesis
    by (auto simp: keyed_entry_def and_then_eq_Inr identifierValue_ok le split: option.splits)
qed

lemma keyed_loop:
  "foldM (keyed_entry field kind validate) (previous, acc) (enumerate i entries) = ok st \<longleftrightarrow>
     (\<exists>rs. traverse_i validate i entries = ok rs \<and> (\<forall>r \<in> set rs. valid_id kind (fst r)) \<and>
        after previous (map fst rs) \<and>
        st = (if rs = [] then previous else Some (fst (last rs)), acc @ concat (map snd rs)))"
proof (induction entries arbitrary: i previous acc)
  case Nil
  then show ?case by (auto simp: after_def split: option.splits)
next
  case (Cons entry entries)
  show ?case
  proof
    assume "foldM (keyed_entry field kind validate) (previous, acc) (enumerate i (entry # entries)) = ok st"
    then obtain current found where c: "validate i entry = ok (current, found)" "valid_id kind current"
      "case previous of None \<Rightarrow> True | Some p \<Rightarrow> p < current"
      and rest: "foldM (keyed_entry field kind validate) (Some current, acc @ found)
        (enumerate (Suc i) entries) = ok st"
      by (auto simp: and_then_eq_Inr keyed_entry_ok)
    obtain rs where "traverse_i validate (Suc i) entries = ok rs" "\<forall>r \<in> set rs. valid_id kind (fst r)"
      "after (Some current) (map fst rs)"
      "st = (if rs = [] then Some current else Some (fst (last rs)), (acc @ found) @ concat (map snd rs))"
      using rest unfolding Cons.IH by blast
    then show "\<exists>rs. traverse_i validate i (entry # entries) = ok rs \<and>
        (\<forall>r \<in> set rs. valid_id kind (fst r)) \<and> after previous (map fst rs) \<and>
        st = (if rs = [] then previous else Some (fst (last rs)), acc @ concat (map snd rs))"
      using c by (intro exI[of _ "(current, found) # rs"]) (auto simp: after_Cons and_then_eq_Inr)
  next
    assume "\<exists>rs. traverse_i validate i (entry # entries) = ok rs \<and>
        (\<forall>r \<in> set rs. valid_id kind (fst r)) \<and> after previous (map fst rs) \<and>
        st = (if rs = [] then previous else Some (fst (last rs)), acc @ concat (map snd rs))"
    then obtain current found rs where c: "validate i entry = ok (current, found)"
      "traverse_i validate (Suc i) entries = ok rs" "valid_id kind current" "\<forall>r \<in> set rs. valid_id kind (fst r)"
      "after previous (current # map fst rs)"
      "st = (if rs = [] then Some current else Some (fst (last rs)), acc @ found @ concat (map snd rs))"
      by (auto simp: and_then_eq_Inr)
    then have "foldM (keyed_entry field kind validate) (Some current, acc @ found)
        (enumerate (Suc i) entries) = ok st"
      unfolding Cons.IH by (intro exI[of _ rs]) (auto simp: after_Cons)
    then show "foldM (keyed_entry field kind validate) (previous, acc) (enumerate i (entry # entries)) = ok st"
      using c by (auto simp: and_then_eq_Inr keyed_entry_ok after_Cons)
  qed
qed

lemma canonicalIdKeyedArray_ok:
  "canonicalIdKeyedArray value field kind validate = ok found \<longleftrightarrow>
     (\<exists>entries rs. value = CArray entries \<and> traverse_i validate 0 entries = ok rs \<and>
        (\<forall>r \<in> set rs. valid_id kind (fst r)) \<and> sorted_wrt (<) (map fst rs) \<and>
        found = concat (map snd rs))"
  by (auto simp: canonicalIdKeyedArray_def and_then_eq_Inr arrayValue_ok keyed_loop after_def)

section \<open>The dependencies are the objects that the body names\<close>

text \<open>The Vault Objects that a body names, read directly from its fields.\<close>

definition object_ids :: "cvalue option \<Rightarrow> bytes list" where
  "object_ids v = (case v of Some (CBytes b) \<Rightarrow> [b] | _ \<Rightarrow> [])"

definition split_objects :: "cvalue option \<Rightarrow> bytes list" where
  "split_objects v =
     (case v of
        Some (CArray entries) \<Rightarrow>
          concat (map (\<lambda>e. case e of CMap m \<Rightarrow> object_ids (mapGet m (KNum 1)) | _ \<Rightarrow> []) entries)
      | _ \<Rightarrow> [])"

definition content_objects :: "int \<Rightarrow> cmap \<Rightarrow> typed_dependency list" where
  "content_objects type m =
     (if type = 3 then map (dependency DepBundleDescriptorObject) (object_ids (mapGet m (KNum 1)))
      else if type = 27 \<or> type = 28 then
        map (dependency DepNoteContentObject) (object_ids (mapGet m (KNum 2)))
      else if type = 31 then
        map (dependency DepNoteContentObject)
          (object_ids (mapGet m (KNum 2)) @ split_objects (mapGet m (KNum 3)))
      else [])"

lemma split_note_ok:
  "split_note i entry = ok (noteId, found) \<Longrightarrow>
     \<exists>m c. entry = CMap m \<and> mapGet m (KNum 1) = Some (CBytes c) \<and> id32 c \<and>
       found = [dependency DepNoteContentObject c]"
  by (auto simp: split_note_def and_then_eq_Inr schema_ok valid_id_def)

lemma split_notes_objects:
  assumes "traverse_i split_note i entries = ok rs"
  shows "concat (map snd rs) = map (dependency DepNoteContentObject) (split_objects (Some (CArray entries))) \<and>
    (\<forall>b \<in> set (split_objects (Some (CArray entries))). id32 b)"
  using assms
proof (induction entries arbitrary: i rs)
  case (Cons entry entries)
  then obtain noteId found rest where r: "rs = (noteId, found) # rest" "split_note i entry = ok (noteId, found)"
    "traverse_i split_note (Suc i) entries = ok rest"
    by (auto simp: and_then_eq_Inr)
  then obtain m c where "entry = CMap m" "mapGet m (KNum 1) = Some (CBytes c)" "id32 c"
    "found = [dependency DepNoteContentObject c]"
    using split_note_ok by blast
  then show ?case using Cons.IH[OF r(3)] r(1) by (simp add: split_objects_def object_ids_def)
qed (simp add: split_objects_def)

lemma content_dependencies_objects:
  assumes "content_dependencies type m = ok deps"
  shows "deps = content_objects type m \<and> (\<forall>d \<in> set deps. id32 (dep_id d))"
proof -
  consider "type = 3" | "type = 27 \<or> type = 28" | "type = 31"
    | "type \<noteq> 3" "type \<noteq> 27" "type \<noteq> 28" "type \<noteq> 31" by blast
  then show ?thesis
  proof cases
    case 3
    then obtain retained splits where r: "with_field m 2 (\<lambda>v. nullable v (\<lambda>entry.
          identifierValue entry VaultObjectId ''Retained Note Content Object ID'')) = ok retained"
      "with_field m 3 (\<lambda>v. canonicalIdKeyedArray v ''Split Notes'' NoteId split_note) = ok splits"
      "deps = (case retained of None \<Rightarrow> [] | Some c \<Rightarrow> [dependency DepNoteContentObject c]) @ splits"
      using assms by (auto simp: content_dependencies_def and_then_eq_Inr)
    have "(case retained of None \<Rightarrow> [] | Some c \<Rightarrow> [dependency DepNoteContentObject c]) =
        map (dependency DepNoteContentObject) (object_ids (mapGet m (KNum 2))) \<and>
        (\<forall>b \<in> set (object_ids (mapGet m (KNum 2))). id32 b)"
      using r(1) by (auto simp: schema_ok object_ids_def valid_id_def)
    moreover have "splits = map (dependency DepNoteContentObject) (split_objects (mapGet m (KNum 3))) \<and>
        (\<forall>b \<in> set (split_objects (mapGet m (KNum 3))). id32 b)"
      using r(2) split_notes_objects by (auto simp: schema_ok canonicalIdKeyedArray_ok)
    ultimately show ?thesis
      using r(3) 3 by (auto simp: content_objects_def dependency_def)
  qed (use assms in \<open>auto simp: content_dependencies_def content_objects_def object_ids_def
      id_field_def and_then_eq_Inr schema_ok valid_id_def dependency_def\<close>)
qed

lemma content_type_range:
  "array_at CONTENT_EVENT_NAMES (type - 1) = Some name \<Longrightarrow> 1 \<le> type \<and> type \<le> 31"
  by (auto simp: array_at_def CONTENT_EVENT_NAMES_def split: if_splits)

lemma validateContentEventBody_ok:
  assumes "validateContentEventBody P type value = ok deps"
  obtains m where "value = CMap m" "1 \<le> type" "type \<le> 31" "content_dependencies type m = ok deps"
    "\<forall>c \<in> set (content_checks P type m). c = ok ()"
  using assms content_type_range[of type]
  by (auto simp: validateContentEventBody_def and_then_eq_Inr schema_ok split: option.splits)

section \<open>Properties\<close>

text \<open>
  A Content Event body that is accepted requires exactly the Vault Objects it names: the
  Bundle Descriptor of a registration, the content of a created or revised Note, the retained and
  split contents of a Note conflict resolution, in that order and with those types; every other
  Content Event requires none.
\<close>

theorem content_dependencies_exact:
  assumes "validateContentEventBody P type value = ok deps"
  shows "1 \<le> type \<and> type \<le> 31 \<and> (\<exists>m. value = CMap m \<and> deps = content_objects type m) \<and>
    (\<forall>d \<in> set deps. id32 (dep_id d))"
proof -
  obtain m where "value = CMap m" "1 \<le> type" "type \<le> 31" "content_dependencies type m = ok deps"
    "\<forall>c \<in> set (content_checks P type m). c = ok ()"
    by (rule validateContentEventBody_ok[OF assms])
  then show ?thesis using content_dependencies_objects by blast
qed

definition demo_registration :: cvalue where
  "demo_registration = CMap [(KNum 0, CBytes (replicate 32 1)), (KNum 1, CBytes (replicate 32 2)),
     (KNum 2, CBytes (replicate 32 3))]"

theorem content_dependencies_exact_witness:
  "validateContentEventBody ref_platform 3 demo_registration =
     ok [dependency DepBundleDescriptorObject (replicate 32 2)] \<and>
   id32 (dep_id (dependency DepBundleDescriptorObject (replicate 32 2)))"
proof -
  have v: "validateContentEventBody ref_platform 3 demo_registration =
      ok [dependency DepBundleDescriptorObject (replicate 32 2)]"
    by (simp add: validateContentEventBody_def array_at_def CONTENT_EVENT_NAMES_def content_bodyKeys_def
        exactMap_def num_keys_def demo_registration_def content_checks_def content_dependencies_def
        id_field_def field_ok_def with_field_def mapValue_def identifierValue_def byteString_def
        identifier_of_def identifierBytes_def NONZERO_IDENTIFIER_KINDS_def upt_rec Let_def
        list_all_iff)
  then show ?thesis using content_dependencies_exact[OF v] by simp
qed

end
