(* ===== verification/Features.thy ===== *)
theory Features
  imports Schema
begin

text \<open>
  Model of \<open>domain/canonical/features.ts\<close>: Feature Manifests, Required Feature Sets and Advisory
  Extensions. A Required Feature Set is shown to be closed under the requirements of its Manifests,
  free of declared conflicts, and identified independently of the order of its Manifests.
\<close>

section \<open>Feature Manifests\<close>

record feature_manifest =
  fm_featureKey :: string
  fm_revision :: int
  fm_parameters :: bytes
  fm_requiredManifestIds :: "bytes list"
  fm_incompatibleKeys :: "string list"

record manifest_entry =
  me_bytes :: bytes
  me_id :: bytes
  me_key :: string

definition encodeFeatureManifest :: "platform \<Rightarrow> feature_manifest \<Rightarrow> bytes res" where
  "encodeFeatureManifest P manifest =
     and_then (assertCanonicalScopedKey (fm_featureKey manifest)) (\<lambda>_.
     and_then (guard_not (\<not> isSafeInteger (fm_revision manifest) \<or> fm_revision manifest < 0)
       (TypeError ''Feature revision must be a nonnegative safe integer'')) (\<lambda>_.
     and_then (canonicalSet P (map CBytes (fm_requiredManifestIds manifest))) (\<lambda>required.
     and_then (traverse assertCanonicalScopedKey (fm_incompatibleKeys manifest)) (\<lambda>keys.
     and_then (canonicalSet P (map CText keys)) (\<lambda>incompatible.
     and_then (canonicalMap [(0, CText (fm_featureKey manifest)), (1, CNum (fm_revision manifest)),
         (2, CBytes (fm_parameters manifest)), (3, CArray required), (4, CArray incompatible)]) (\<lambda>m.
       encodeCanonicalValue P (CMap m)))))))"

definition byteStringValue :: "cvalue \<Rightarrow> string \<Rightarrow> bytes res" where
  "byteStringValue value field =
     (case value of CBytes b \<Rightarrow> ok b | _ \<Rightarrow> throw (TypeError (field @ '' must be bytes'')))"

fun text_of :: "cvalue \<Rightarrow> string" where
  "text_of (CText s) = s"
| "text_of _ = []"

definition decodeFeatureManifest :: "platform \<Rightarrow> bytes \<Rightarrow> feature_manifest res" where
  "decodeFeatureManifest P bs =
     and_then (decodeCanonicalValue P bs) (\<lambda>value.
     and_then (exactMap value (num_keys 5) ''Feature Manifest'') (\<lambda>m.
     and_then (mapValue m 0) (\<lambda>featureKey.
     and_then (case featureKey of CText s \<Rightarrow> ok s | _ \<Rightarrow> throw (TypeError ''Feature key must be text'')) (\<lambda>text.
     and_then (assertCanonicalScopedKey text) (\<lambda>scoped.
     and_then (with_field m 1 (\<lambda>v. nonnegativeInteger v ''Feature revision'')) (\<lambda>revision.
     and_then (with_field m 2 (\<lambda>v. byteStringValue v ''Feature parameters'')) (\<lambda>parameters.
     and_then (with_field m 3 (\<lambda>v. canonicalSetValue P v ''Required Feature Manifest IDs''
         (\<lambda>_ e. and_then (byteString e 32 ''Feature Manifest ID'') (\<lambda>b.
            and_then (identifier_of FeatureManifestId b) (\<lambda>i. ok (CBytes i)))) False)) (\<lambda>required.
     and_then (with_field m 4 (\<lambda>v. canonicalSetValue P v ''Incompatible feature keys''
         (\<lambda>_ e. and_then (case e of CText s \<Rightarrow> ok s
                           | _ \<Rightarrow> throw (TypeError ''Incompatible feature key must be text'')) (\<lambda>s.
            and_then (assertCanonicalScopedKey s) (\<lambda>k. ok (CText k)))) False)) (\<lambda>incompatible.
     let manifest = \<lparr>fm_featureKey = scoped, fm_revision = revision, fm_parameters = parameters,
           fm_requiredManifestIds = map bytes_of required, fm_incompatibleKeys = map text_of incompatible\<rparr> in
     and_then (encodeFeatureManifest P manifest) (\<lambda>encoded.
       if \<not> bytesEqual encoded bs then throw (TypeError ''Feature Manifest bytes are not canonical'')
       else ok manifest))))))))))"

definition featureManifestId :: "platform \<Rightarrow> bytes \<Rightarrow> bytes res" where
  "featureManifestId P bs =
     and_then (transcript ''awsm:feature-manifest-id:v1'' [bs]) (\<lambda>t.
       identifier_of FeatureManifestId (sha256 P t))"

section \<open>Required Feature Sets\<close>

definition manifest_entry_of :: "platform \<Rightarrow> feature_manifest \<Rightarrow> manifest_entry res" where
  "manifest_entry_of P manifest =
     and_then (encodeFeatureManifest P manifest) (\<lambda>bs.
     and_then (featureManifestId P bs) (\<lambda>i.
       ok \<lparr>me_bytes = bs, me_id = i, me_key = fm_featureKey manifest\<rparr>))"

definition distinct_feature_key :: "string list \<Rightarrow> manifest_entry \<Rightarrow> string list res" where
  "distinct_feature_key keys entry =
     (if me_key entry \<in> set keys then throw (TypeError ''Required Feature Set repeats a feature key'')
      else ok (me_key entry # keys))"

definition check_requirements ::
  "string list \<Rightarrow> string list \<Rightarrow> nat \<Rightarrow> feature_manifest \<Rightarrow> unit res" where
  "check_requirements manifestIds keys index manifest =
     checks
       (map (\<lambda>requiredId. guard_not (key requiredId \<notin> set manifestIds)
          (TypeError (''Required Feature Manifest '' @ nat_str index @ '' has an unsatisfied requirement'')))
          (fm_requiredManifestIds manifest) @
        map (\<lambda>incompatibleKey. guard_not (incompatibleKey \<in> set keys)
          (TypeError (''Required Feature Manifest '' @ nat_str index @ '' conflicts with '' @ incompatibleKey)))
          (fm_incompatibleKeys manifest))"

definition validatedManifestEntries :: "platform \<Rightarrow> feature_manifest list \<Rightarrow> manifest_entry list res" where
  "validatedManifestEntries P manifests =
     and_then (traverse (manifest_entry_of P) manifests) (\<lambda>entries.
     and_then (foldM distinct_feature_key [] entries) (\<lambda>keys.
     let manifestIds = map (\<lambda>e. key (me_id e)) entries in
     and_then (traverse_i (check_requirements manifestIds keys) 0 manifests) (\<lambda>_.
     let sorted_entries = sort_by (\<lambda>l r. compareBytes (me_id l) (me_id r)) entries in
       if adjacentEqual (map me_id sorted_entries)
       then throw (TypeError ''Required Feature Set repeats a Manifest'')
       else ok sorted_entries)))"

definition requiredFeatureSetValue :: "platform \<Rightarrow> feature_manifest list \<Rightarrow> bytes list res" where
  "requiredFeatureSetValue P manifests =
     and_then (validatedManifestEntries P manifests) (\<lambda>entries. ok (map me_bytes entries))"

definition encodeRequiredFeatureSet :: "platform \<Rightarrow> feature_manifest list \<Rightarrow> bytes res" where
  "encodeRequiredFeatureSet P manifests =
     and_then (requiredFeatureSetValue P manifests) (\<lambda>bs. encodeCanonicalValue P (CArray (map CBytes bs)))"

definition decodeRequiredFeatureSet :: "platform \<Rightarrow> bytes \<Rightarrow> feature_manifest list res" where
  "decodeRequiredFeatureSet P bs =
     and_then (decodeCanonicalValue P bs) (\<lambda>value.
     and_then (case value of CArray vs \<Rightarrow> ok vs
               | _ \<Rightarrow> throw (TypeError ''Required Feature Set must be an array'')) (\<lambda>entries.
     and_then (traverse (\<lambda>entry.
         case entry of CBytes b \<Rightarrow> decodeFeatureManifest P b
         | _ \<Rightarrow> throw (TypeError ''Required Feature Set entries must be complete Manifest bytes'')) entries)
       (\<lambda>manifests.
     and_then (encodeRequiredFeatureSet P manifests) (\<lambda>encoded.
       if \<not> bytesEqual encoded bs
       then throw (TypeError ''Required Feature Set is not sorted by Manifest ID'')
       else ok manifests))))"

definition requiredFeatureSetId :: "platform \<Rightarrow> feature_manifest list \<Rightarrow> bytes res" where
  "requiredFeatureSetId P manifests =
     and_then (validatedManifestEntries P manifests) (\<lambda>entries.
     and_then (transcript ''awsm:required-feature-set-id:v1'' [concatBytes (map me_id entries)]) (\<lambda>t.
       identifier_of RequiredFeatureSetId (sha256 P t)))"

section \<open>Advisory Extensions\<close>

definition add_extension :: "cmap \<times> nat \<Rightarrow> string \<times> bytes \<Rightarrow> (cmap \<times> nat) res" where
  "add_extension state entry =
     (let m = fst state; valueBytes = snd state; k = fst entry; v = snd entry in
      and_then (assertCanonicalScopedKey k) (\<lambda>_.
      and_then (guard_not (mapHas m (KText k)) (TypeError ''Duplicate Advisory Extension key'')) (\<lambda>_.
      and_then (guard_not (int (length v) > 16 * 1024) (TypeError ''Advisory Extension value is too large'')) (\<lambda>_.
        ok (mapSet m (KText k) (CBytes v), valueBytes + length v)))))"

definition advisoryExtensions :: "platform \<Rightarrow> (string \<times> bytes) list \<Rightarrow> cmap res" where
  "advisoryExtensions P entries =
     (if length entries > 32 then throw (TypeError ''Too many Advisory Extensions'')
      else and_then (foldM add_extension ([], 0) entries) (\<lambda>(m, valueBytes).
        if int valueBytes > 64 * 1024 then throw (TypeError ''Advisory Extension map is too large'')
        else and_then (encodeCanonicalValue P (CMap m)) (\<lambda>encoded.
          if int (length encoded) > 64 * 1024 then throw (TypeError ''Advisory Extension map is too large'')
          else ok m)))"

section \<open>When a Required Feature Set is accepted\<close>

definition entry_of :: "platform \<Rightarrow> feature_manifest \<Rightarrow> manifest_entry" where
  "entry_of P m = (case manifest_entry_of P m of Inl _ \<Rightarrow> \<lparr>me_bytes = [], me_id = [], me_key = []\<rparr> | Inr e \<Rightarrow> e)"

definition feature_set_ok :: "platform \<Rightarrow> feature_manifest list \<Rightarrow> bool" where
  "feature_set_ok P ms \<longleftrightarrow>
     (\<forall>m \<in> set ms. \<exists>e. manifest_entry_of P m = ok e) \<and>
     distinct (map fm_featureKey ms) \<and> distinct (map (\<lambda>m. me_id (entry_of P m)) ms) \<and>
     (\<forall>m \<in> set ms. \<forall>r \<in> set (fm_requiredManifestIds m). \<exists>m' \<in> set ms. me_id (entry_of P m') = r) \<and>
     (\<forall>m \<in> set ms. \<forall>k \<in> set (fm_incompatibleKeys m). \<forall>m' \<in> set ms. fm_featureKey m' \<noteq> k)"

lemma traverse_total:
  "traverse f xs = ok ys \<longleftrightarrow> (\<forall>x \<in> set xs. \<exists>y. f x = ok y) \<and>
     ys = map (\<lambda>x. case f x of Inl _ \<Rightarrow> d | Inr y \<Rightarrow> y) xs"
proof (induction xs arbitrary: ys)
  case (Cons x xs)
  then show ?case by (cases "f x") (auto simp: and_then_eq_Inr)
qed auto

lemma manifest_entries_ok:
  "traverse (manifest_entry_of P) ms = ok es \<longleftrightarrow>
     (\<forall>m \<in> set ms. \<exists>e. manifest_entry_of P m = ok e) \<and> es = map (entry_of P) ms"
  unfolding entry_of_def by (rule traverse_total)

lemma entry_of_key: "manifest_entry_of P m = ok e \<Longrightarrow> me_key (entry_of P m) = fm_featureKey m"
  by (auto simp: entry_of_def manifest_entry_of_def and_then_eq_Inr)

lemma feature_keys_ok:
  "foldM distinct_feature_key seen es = ok out \<longleftrightarrow>
     distinct (map me_key es) \<and> (\<forall>e \<in> set es. me_key e \<notin> set seen) \<and> out = rev (map me_key es) @ seen"
  by (rule foldM_seen) (simp add: distinct_feature_key_def)

lemma check_requirements_ok:
  "check_requirements ids keys i m = ok u \<longleftrightarrow>
     (\<forall>r \<in> set (fm_requiredManifestIds m). key r \<in> set ids) \<and>
     (\<forall>k \<in> set (fm_incompatibleKeys m). k \<notin> set keys)"
proof -
  have all_map: "(\<forall>c \<in> set (map g zs). c = ok ()) \<longleftrightarrow> (\<forall>z \<in> set zs. g z = ok ())" for g :: "'z \<Rightarrow> unit res" and zs
    by simp
  show ?thesis
    unfolding check_requirements_def checks_ok set_append ball_Un all_map guard_not_eq_Inr not_not ..
qed

lemma requirements_loop_ok:
  "(\<exists>us. traverse_i (check_requirements ids keys) i ms = ok us) \<longleftrightarrow>
     (\<forall>m \<in> set ms. (\<forall>r \<in> set (fm_requiredManifestIds m). key r \<in> set ids) \<and>
        (\<forall>k \<in> set (fm_incompatibleKeys m). k \<notin> set keys))"
proof (induction ms arbitrary: i)
  case (Cons m ms)
  show ?case using Cons.IH[of "Suc i"] by (auto simp: and_then_eq_Inr check_requirements_ok)
qed simp

lemma validated_from_entries:
  assumes "traverse (manifest_entry_of P) ms = ok entries"
  shows "validatedManifestEntries P ms = ok es \<longleftrightarrow>
     distinct (map me_key entries) \<and>
     (\<exists>us. traverse_i (check_requirements (map (\<lambda>e. key (me_id e)) entries) (rev (map me_key entries))) 0 ms = ok us) \<and>
     distinct (map me_id entries) \<and> es = sort_key me_id entries"
proof -
  have sorted: "sort_by (\<lambda>l r. compareBytes (me_id l) (me_id r)) entries = sort_key me_id entries"
    by (rule sort_compareBytes)
  have "distinct (map me_id (sort_key me_id entries)) \<longleftrightarrow> distinct (map me_id entries)"
    by (rule mset_eq_imp_distinct_iff) simp
  then have "adjacentEqual (map me_id (sort_key me_id entries)) \<longleftrightarrow> \<not> distinct (map me_id entries)"
    using sorted_adjacentEqual[of "map me_id (sort_key me_id entries)"] by simp
  then show ?thesis
    by (auto simp: validatedManifestEntries_def Let_def assms and_then_eq_Inr feature_keys_ok sorted)
qed

lemma validatedManifestEntries_ok:
  "validatedManifestEntries P ms = ok es \<longleftrightarrow>
     feature_set_ok P ms \<and> es = sort_key me_id (map (entry_of P) ms)"
proof (cases "\<forall>m \<in> set ms. \<exists>e. manifest_entry_of P m = ok e")
  case True
  then have entries: "traverse (manifest_entry_of P) ms = ok (map (entry_of P) ms)"
    and keys: "map me_key (map (entry_of P) ms) = map fm_featureKey ms"
    using entry_of_key by (auto simp: manifest_entries_ok)
  have ids: "map (\<lambda>e. key (me_id e)) (map (entry_of P) ms) = map (\<lambda>m. key (me_id (entry_of P m))) ms"
    "map me_id (map (entry_of P) ms) = map (\<lambda>m. me_id (entry_of P m)) ms"
    by simp_all
  have required: "key r \<in> set (map (\<lambda>m. key (me_id (entry_of P m))) ms) \<longleftrightarrow>
      (\<exists>m' \<in> set ms. me_id (entry_of P m') = r)" for r
    by (auto simp: image_iff)
  have conflict: "k \<notin> set (rev (map fm_featureKey ms)) \<longleftrightarrow> (\<forall>m' \<in> set ms. fm_featureKey m' \<noteq> k)" for k
    by auto
  show ?thesis
    unfolding validated_from_entries[OF entries] keys ids requirements_loop_ok required conflict
      feature_set_ok_def
    using True by blast
next
  case False
  then have "traverse (manifest_entry_of P) ms \<noteq> ok xs" for xs by (simp only: manifest_entries_ok) simp
  then show ?thesis using False unfolding validatedManifestEntries_def and_then_eq_Inr feature_set_ok_def by blast
qed

lemma feature_set_ok_perm: "mset ms = mset ms' \<Longrightarrow> feature_set_ok P ms \<longleftrightarrow> feature_set_ok P ms'"
proof -
  assume p: "mset ms = mset ms'"
  have "distinct (map fm_featureKey ms) \<longleftrightarrow> distinct (map fm_featureKey ms')"
    "distinct (map (\<lambda>m. me_id (entry_of P m)) ms) \<longleftrightarrow> distinct (map (\<lambda>m. me_id (entry_of P m)) ms')"
    by (rule mset_eq_imp_distinct_iff, simp add: p)+
  moreover have "set ms = set ms'" using p by (rule mset_eq_setD)
  ultimately show ?thesis unfolding feature_set_ok_def by simp
qed

lemma validatedManifestEntries_perm:
  assumes "mset ms = mset ms'" and "validatedManifestEntries P ms = ok es"
  shows "validatedManifestEntries P ms' = ok es"
proof -
  have ok: "feature_set_ok P ms" and es: "es = sort_key me_id (map (entry_of P) ms)"
    using assms(2) by (simp_all add: validatedManifestEntries_ok)
  have "inj_on me_id (set (map (entry_of P) ms))"
    using ok by (auto simp: feature_set_ok_def distinct_map inj_on_def)
  then have "sort_key me_id (map (entry_of P) ms) = sort_key me_id (map (entry_of P) ms')"
    using assms(1) by (intro sort_key_permutation) simp_all
  then show ?thesis
    using ok es feature_set_ok_perm[OF assms(1)] by (simp add: validatedManifestEntries_ok)
qed

lemma entry_of_id:
  assumes "manifest_entry_of P m = ok e"
  shows "\<exists>b. encodeFeatureManifest P m = ok b \<and> featureManifestId P b = ok (me_id (entry_of P m))"
  using assms by (auto simp: entry_of_def manifest_entry_of_def and_then_eq_Inr)

section \<open>Properties\<close>

text \<open>
  C19. A Required Feature Set that gets an identity is coherent: every Manifest that one of its
  Manifests requires is in the set, no Manifest is in the set with one that declares its feature key
  incompatible, no feature key occurs twice; and the identity does not depend on the order in which
  the Manifests were given.
\<close>

theorem requiredFeatureSet_coherent:
  assumes "requiredFeatureSetId P ms = ok i"
  shows "(\<forall>m \<in> set ms. \<forall>r \<in> set (fm_requiredManifestIds m). \<exists>m' \<in> set ms. \<exists>b.
           encodeFeatureManifest P m' = ok b \<and> featureManifestId P b = ok r) \<and>
     (\<forall>m \<in> set ms. \<forall>m' \<in> set ms. fm_featureKey m' \<notin> set (fm_incompatibleKeys m)) \<and>
     distinct (map fm_featureKey ms) \<and>
     (\<forall>ms'. mset ms' = mset ms \<longrightarrow> requiredFeatureSetId P ms' = ok i)"
proof -
  obtain es where es: "validatedManifestEntries P ms = ok es"
    using assms by (auto simp: requiredFeatureSetId_def and_then_eq_Inr)
  then have ok: "feature_set_ok P ms" by (simp add: validatedManifestEntries_ok)
  have "\<forall>ms'. mset ms' = mset ms \<longrightarrow> requiredFeatureSetId P ms' = ok i"
    using assms es validatedManifestEntries_perm[of ms _ P es] unfolding requiredFeatureSetId_def by simp
  moreover have "\<forall>m \<in> set ms. \<forall>r \<in> set (fm_requiredManifestIds m). \<exists>m' \<in> set ms. \<exists>b.
      encodeFeatureManifest P m' = ok b \<and> featureManifestId P b = ok r"
    using ok entry_of_id unfolding feature_set_ok_def by metis
  ultimately show ?thesis using ok unfolding feature_set_ok_def by blast
qed

definition demo_manifests :: "feature_manifest list" where
  "demo_manifests =
     [\<lparr>fm_featureKey = ''a.x'', fm_revision = 2, fm_parameters = [7], fm_requiredManifestIds = [],
       fm_incompatibleKeys = [''a.z'']\<rparr>,
      \<lparr>fm_featureKey = ''a.y'', fm_revision = 1, fm_parameters = [], fm_requiredManifestIds = [],
       fm_incompatibleKeys = []\<rparr>]"

text \<open>The reference platform with a digest that depends on the end of its input.\<close>

definition tail_platform :: platform where
  "tail_platform = ref_platform\<lparr>sha256 := (\<lambda>bs. take 32 (rev bs @ replicate 32 1))\<rparr>"

theorem requiredFeatureSet_coherent_witness:
  "\<exists>i. requiredFeatureSetId tail_platform demo_manifests = ok i \<and>
     requiredFeatureSetId tail_platform (rev demo_manifests) = ok i \<and>
     distinct (map fm_featureKey demo_manifests)"
proof -
  have "\<not> isl (requiredFeatureSetId tail_platform demo_manifests)" by code_simp
  then obtain i where i: "requiredFeatureSetId tail_platform demo_manifests = ok i"
    by (cases "requiredFeatureSetId tail_platform demo_manifests") auto
  from requiredFeatureSet_coherent[OF i] i show ?thesis by (metis mset_rev)
qed

end
