(* ===== verification/Authority_Bodies.thy ===== *)
theory Authority_Bodies
  imports Content_Bodies Features
begin

text \<open>
  Model of \<open>domain/canonical/authority-bodies.ts\<close>: the parsers of certificates, recovery credentials,
  Key Envelope slots, invitation capabilities and the invitation exchange, and the validator of the 14
  Authority Event bodies, which returns the dependencies a body requires. The summaries the parsers
  return are records with the fields of the source. An accepted Invitation Acceptance is shown to
  bind its Join Request, Proposal and receipt to each other, and every accepted body is shown to
  require exactly the Baseline, Key Envelopes or Feature Manifests that it names.
\<close>

section \<open>Summaries\<close>

definition AUTHORITY_EVENT_NAMES :: "string list" where
  "AUTHORITY_EVENT_NAMES =
     [''Genesis'', ''Membership End'', ''Administrator Grant'', ''Administrator End'',
      ''Invitation Creation'', ''Invitation Acceptance'', ''Invitation Cancellation'',
      ''Invitation Conflict Resolution'', ''Client Credential Enrollment'', ''Client Credential End'',
      ''Recovery Credential Replacement'', ''Key Epoch Transition'', ''Key Delivery'',
      ''Feature Activation'']"

record authority_context =
  cx_vaultId :: bytes
  cx_requiredFeatureSetId :: bytes
  cx_authorityParentRecordIds :: "bytes list"

record certificate_summary =
  cs_clientCredentialId :: bytes
  cs_memberId :: bytes
  cs_bytes :: bytes

record recovery_summary =
  rs_recoveryCredentialId :: bytes
  rs_memberId :: bytes
  rs_revision :: int
  rs_bytes :: bytes

record slot_summary =
  sl_keyEpochId :: bytes
  sl_targetKind :: int
  sl_targetCredentialId :: bytes
  sl_targetRevision :: "int option"
  sl_keyEnvelopeId :: bytes

record capability_summary =
  cap_issuerMemberId :: bytes
  cap_targetVaultId :: bytes
  cap_action :: string

record join_request_summary =
  jr_invitationId :: bytes
  jr_proposedMemberId :: bytes
  jr_clientCertificate :: certificate_summary
  jr_recoveryCredential :: recovery_summary
  jr_capabilitiesBytes :: bytes
  jr_requestId :: bytes

record proposal_summary =
  pr_invitationId :: bytes
  pr_joinRequestId :: bytes
  pr_authorityParentRecordIds :: "bytes list"
  pr_proposedMemberId :: bytes
  pr_clientCertificate :: certificate_summary
  pr_recoveryCredential :: recovery_summary
  pr_capabilitiesBytes :: bytes
  pr_slots :: "slot_summary list"
  pr_proposalId :: bytes

record receipt_summary =
  rc_invitationId :: bytes
  rc_outcome :: int
  rc_requestId :: bytes
  rc_acceptanceProposalId :: "bytes option"
  rc_authorityReceiptId :: bytes

section \<open>Comparisons\<close>

definition same :: "bytes \<Rightarrow> bytes \<Rightarrow> string \<Rightarrow> unit res" where
  "same left right field =
     guard_not (\<not> bytesEqual left right) (TypeError (field @ '' does not match''))"

definition sameCanonical :: "platform \<Rightarrow> cvalue \<Rightarrow> cvalue \<Rightarrow> string \<Rightarrow> unit res" where
  "sameCanonical P left right field =
     and_then (encodeCanonicalValue P left) (\<lambda>l.
     and_then (encodeCanonicalValue P right) (\<lambda>r.
       guard_not (\<not> bytesEqual l r) (TypeError (field @ '' does not match''))))"

definition bytes_field :: "cmap \<Rightarrow> int \<Rightarrow> nat \<Rightarrow> string \<Rightarrow> unit res" where
  "bytes_field m k len field = field_ok m k (\<lambda>v. byteString v len field)"

definition id_at :: "cmap \<Rightarrow> int \<Rightarrow> identifier_kind \<Rightarrow> string \<Rightarrow> bytes res" where
  "id_at m k kind field = with_field m k (\<lambda>v. identifierValue v kind field)"

section \<open>Parsers of the parts\<close>

definition certificate :: "platform \<Rightarrow> cvalue \<Rightarrow> string \<Rightarrow> certificate_summary res" where
  "certificate P value field =
     and_then (exactMap value (num_keys 4) field) (\<lambda>m.
     and_then (checks [bytes_field m 2 32 (field @ '' signing public key''),
                       bytes_field m 3 32 (field @ '' wrapping public key'')]) (\<lambda>_.
     and_then (id_at m 0 ClientCredentialId (field @ '' Client Credential ID'')) (\<lambda>clientCredentialId.
     and_then (id_at m 1 MemberId (field @ '' Member ID'')) (\<lambda>memberId.
     and_then (encodeCanonicalValue P value) (\<lambda>encoded.
       ok \<lparr>cs_clientCredentialId = clientCredentialId, cs_memberId = memberId, cs_bytes = encoded\<rparr>)))))"

definition recoveryCredential :: "platform \<Rightarrow> cvalue \<Rightarrow> string \<Rightarrow> recovery_summary res" where
  "recoveryCredential P value field =
     and_then (exactMap value (num_keys 5) field) (\<lambda>m.
     and_then (checks [bytes_field m 3 32 (field @ '' signing public key''),
                       bytes_field m 4 32 (field @ '' wrapping public key'')]) (\<lambda>_.
     and_then (id_at m 0 RecoveryCredentialId (field @ '' Recovery Credential ID'')) (\<lambda>recoveryCredentialId.
     and_then (id_at m 1 MemberId (field @ '' Member ID'')) (\<lambda>memberId.
     and_then (with_field m 2 (\<lambda>v. nonnegativeInteger v (field @ '' revision''))) (\<lambda>revision.
     and_then (encodeCanonicalValue P value) (\<lambda>encoded.
       ok \<lparr>rs_recoveryCredentialId = recoveryCredentialId, rs_memberId = memberId,
           rs_revision = revision, rs_bytes = encoded\<rparr>))))))"

definition slot :: "cvalue \<Rightarrow> string \<Rightarrow> slot_summary res" where
  "slot value field =
     and_then (exactMap value (num_keys 5) field) (\<lambda>m.
     and_then (with_field m 1 (\<lambda>v. oneOfCodes v [1, 2] (field @ '' target kind''))) (\<lambda>targetKind.
     and_then (with_field m 3 (\<lambda>v. nullable v (\<lambda>entry.
         nonnegativeInteger entry (field @ '' target revision'')))) (\<lambda>targetRevision.
     and_then (guard_not ((targetKind = 1) \<noteq> (targetRevision \<noteq> None))
         (TypeError (field @ '' must include a revision only for a Recovery Credential''))) (\<lambda>_.
     and_then (id_at m 0 KeyEpochId (field @ '' Key Epoch ID'')) (\<lambda>keyEpochId.
     and_then (id_at m 2 (if targetKind = 1 then RecoveryCredentialId else ClientCredentialId)
         (field @ '' target Credential ID'')) (\<lambda>targetCredentialId.
     and_then (id_at m 4 KeyEnvelopeId (field @ '' Key Envelope ID'')) (\<lambda>keyEnvelopeId.
       ok \<lparr>sl_keyEpochId = keyEpochId, sl_targetKind = targetKind,
           sl_targetCredentialId = targetCredentialId, sl_targetRevision = targetRevision,
           sl_keyEnvelopeId = keyEnvelopeId\<rparr>)))))))"

definition indexed :: "string \<Rightarrow> nat \<Rightarrow> string" where
  "indexed field index = field @ ''['' @ nat_str index @ '']''"

text \<open>Both set parsers validate every entry inside the set and parse it again afterwards.\<close>

definition parsed_set ::
  "platform \<Rightarrow> (cvalue \<Rightarrow> string \<Rightarrow> 'a res) \<Rightarrow> cvalue \<Rightarrow> string \<Rightarrow> bool \<Rightarrow> 'a list res" where
  "parsed_set P parse value field nonempty =
     and_then (canonicalSetValue P value field
         (\<lambda>index entry. and_then (parse entry (indexed field index)) (\<lambda>_. ok entry)) nonempty) (\<lambda>entries.
       traverse_i (\<lambda>index entry. parse entry (indexed field index)) 0 entries)"

definition slots :: "platform \<Rightarrow> cvalue \<Rightarrow> string \<Rightarrow> bool \<Rightarrow> slot_summary list res" where
  "slots P value field nonempty = parsed_set P slot value field nonempty"

definition validateClientCredentialCertificate :: "platform \<Rightarrow> cvalue \<Rightarrow> string \<Rightarrow> unit res" where
  "validateClientCredentialCertificate P value field = and_then (certificate P value field) (\<lambda>_. ok ())"

definition validateRecoveryCredentialDescriptor :: "platform \<Rightarrow> cvalue \<Rightarrow> string \<Rightarrow> unit res" where
  "validateRecoveryCredentialDescriptor P value field =
     and_then (recoveryCredential P value field) (\<lambda>_. ok ())"

definition validateKeyEnvelopeSlots :: "platform \<Rightarrow> cvalue \<Rightarrow> string \<Rightarrow> bool \<Rightarrow> bytes list res" where
  "validateKeyEnvelopeSlots P value field nonempty =
     and_then (slots P value field nonempty) (\<lambda>ss. ok (map sl_keyEnvelopeId ss))"

definition capability :: "cvalue \<Rightarrow> string \<Rightarrow> capability_summary res" where
  "capability value field =
     and_then (exactMap value (num_keys 5) field) (\<lambda>m.
     and_then (mapValue m 0) (\<lambda>domainValue.
     and_then (mapValue m 3) (\<lambda>actionValue.
     and_then (case (domainValue, actionValue) of (CText d, CText a) \<Rightarrow> ok (d, a)
        | _ \<Rightarrow> throw (TypeError (field @ '' domain and action must be scoped text keys'')))
       (\<lambda>(authorityDomain, action).
     and_then (assertCanonicalScopedKey authorityDomain) (\<lambda>_.
     and_then (assertCanonicalScopedKey action) (\<lambda>_.
     and_then (guard_not (authorityDomain \<noteq> ''awsm.vault'')
         (TypeError (field @ '' authority domain must be awsm.vault''))) (\<lambda>_.
     and_then (guard_not (action \<noteq> ''awsm.vault.join'' \<and> action \<noteq> ''awsm.vault.administrator'')
         (TypeError (field @ '' contains an unknown base portable action''))) (\<lambda>_.
     and_then (field_ok m 4 (\<lambda>v. byteStringValue v (field @ '' parameters''))) (\<lambda>_.
     and_then (id_at m 1 MemberId (field @ '' issuer Member ID'')) (\<lambda>issuerMemberId.
     and_then (id_at m 2 VaultId (field @ '' target Vault ID'')) (\<lambda>targetVaultId.
       ok \<lparr>cap_issuerMemberId = issuerMemberId, cap_targetVaultId = targetVaultId,
           cap_action = action\<rparr>)))))))))))"

definition capabilities :: "platform \<Rightarrow> cvalue \<Rightarrow> string \<Rightarrow> capability_summary list res" where
  "capabilities P value field = parsed_set P capability value field True"

definition validateInvitationCapabilities :: "platform \<Rightarrow> cvalue \<Rightarrow> string \<Rightarrow> unit res" where
  "validateInvitationCapabilities P value field = and_then (capabilities P value field) (\<lambda>_. ok ())"

section \<open>The invitation exchange\<close>

definition request_id :: "platform \<Rightarrow> string \<Rightarrow> cvalue \<Rightarrow> bytes res" where
  "request_id P label value =
     and_then (encodeCanonicalValue P value) (\<lambda>encoded.
     and_then (transcript label [encoded]) (\<lambda>t. ok (sha256 P t)))"

definition proposed_credentials ::
  "platform \<Rightarrow> cmap \<Rightarrow> int \<Rightarrow> string \<Rightarrow> (bytes \<times> certificate_summary \<times> recovery_summary) res" where
  "proposed_credentials P m k field =
     and_then (id_at m k MemberId (field @ '' proposed Member ID'')) (\<lambda>proposedMemberId.
     and_then (with_field m (k + 1) (\<lambda>v. certificate P v (field @ '' proposed Client Certificate''))) (\<lambda>client.
     and_then (with_field m (k + 2) (\<lambda>v. recoveryCredential P v (field @ '' proposed Recovery Credential'')))
       (\<lambda>recovery.
     and_then (same (cs_memberId client) proposedMemberId (field @ '' Client Certificate member'')) (\<lambda>_.
     and_then (same (rs_memberId recovery) proposedMemberId (field @ '' Recovery Credential member'')) (\<lambda>_.
     and_then (guard_not (rs_revision recovery \<noteq> 0)
         (TypeError (field @ '' Recovery Credential revision must be 0''))) (\<lambda>_.
       ok (proposedMemberId, client, recovery)))))))"

definition joinRequest :: "platform \<Rightarrow> cvalue \<Rightarrow> string \<Rightarrow> join_request_summary res" where
  "joinRequest P value field =
     and_then (exactMap value (num_keys 8) field) (\<lambda>m.
     and_then (proposed_credentials P m 2 field) (\<lambda>(proposedMemberId, client, recovery).
     and_then (checks [field_ok m 1 (\<lambda>v. capabilities P v (field @ '' capabilities'')),
         bytes_field m 5 64 (field @ '' Client possession signature''),
         bytes_field m 6 64 (field @ '' Recovery possession signature''),
         bytes_field m 7 64 (field @ '' Redemption signature'')]) (\<lambda>_.
     and_then (id_at m 0 InvitationId (field @ '' Invitation ID'')) (\<lambda>invitationId.
     and_then (with_field m 1 (encodeCanonicalValue P)) (\<lambda>capabilitiesBytes.
     and_then (request_id P ''awsm:invitation-join-request-id:v1'' value) (\<lambda>requestId.
       ok \<lparr>jr_invitationId = invitationId, jr_proposedMemberId = proposedMemberId,
           jr_clientCertificate = client, jr_recoveryCredential = recovery,
           jr_capabilitiesBytes = capabilitiesBytes, jr_requestId = requestId\<rparr>))))))"

definition proposal :: "platform \<Rightarrow> cvalue \<Rightarrow> string \<Rightarrow> proposal_summary res" where
  "proposal P value field =
     and_then (exactMap value (num_keys 8) field) (\<lambda>m.
     and_then (proposed_credentials P m 3 field) (\<lambda>(proposedMemberId, client, recovery).
     and_then (field_ok m 6 (\<lambda>v. capabilities P v (field @ '' granted portable capabilities''))) (\<lambda>_.
     and_then (id_at m 0 InvitationId (field @ '' Invitation ID'')) (\<lambda>invitationId.
     and_then (with_field m 1 (\<lambda>v. byteString v 32 (field @ '' Join Request ID''))) (\<lambda>joinRequestId.
     and_then (with_field m 2 (\<lambda>v. idSetValue P v VaultRecordId (field @ '' Authority Parent Record IDs'') True))
       (\<lambda>parents.
     and_then (with_field m 6 (encodeCanonicalValue P)) (\<lambda>capabilitiesBytes.
     and_then (with_field m 7 (\<lambda>v. slots P v (field @ '' Envelope slots'') True)) (\<lambda>envelopeSlots.
     and_then (request_id P ''awsm:invitation-acceptance-proposal-id:v1'' value) (\<lambda>proposalId.
       ok \<lparr>pr_invitationId = invitationId, pr_joinRequestId = joinRequestId,
           pr_authorityParentRecordIds = parents, pr_proposedMemberId = proposedMemberId,
           pr_clientCertificate = client, pr_recoveryCredential = recovery,
           pr_capabilitiesBytes = capabilitiesBytes, pr_slots = envelopeSlots,
           pr_proposalId = proposalId\<rparr>)))))))))"

definition receipt :: "cvalue \<Rightarrow> string \<Rightarrow> receipt_summary res" where
  "receipt value field =
     and_then (exactMap value (num_keys 6) field) (\<lambda>m.
     and_then (with_field m 1 (\<lambda>v. oneOfCodes v [1, 2] (field @ '' outcome''))) (\<lambda>outcome.
     and_then (with_field m 3 (\<lambda>v. nullable v (\<lambda>entry.
         byteString entry 32 (field @ '' Acceptance Proposal ID'')))) (\<lambda>proposalId.
     and_then (guard_not ((outcome = 1) \<noteq> (proposalId \<noteq> None))
         (TypeError (field @ '' proposal ID presence does not match its outcome''))) (\<lambda>_.
     and_then (bytes_field m 5 64 (field @ '' signature'')) (\<lambda>_.
     and_then (id_at m 0 InvitationId (field @ '' Invitation ID'')) (\<lambda>invitationId.
     and_then (with_field m 2 (\<lambda>v. byteString v 32
         (if outcome = 1 then field @ '' Join Request ID'' else field @ '' Cancellation Request ID'')))
       (\<lambda>requestId.
     and_then (with_field m 4 (\<lambda>v. byteString v 32 (field @ '' Authority Receipt ID''))) (\<lambda>authorityReceiptId.
       ok \<lparr>rc_invitationId = invitationId, rc_outcome = outcome, rc_requestId = requestId,
           rc_acceptanceProposalId = proposalId, rc_authorityReceiptId = authorityReceiptId\<rparr>))))))))"

definition cancellationRequest :: "cvalue \<Rightarrow> string \<Rightarrow> bytes res" where
  "cancellationRequest value field =
     and_then (exactMap value (num_keys 3) field) (\<lambda>m.
     and_then (id_at m 0 InvitationId (field @ '' Invitation ID'')) (\<lambda>invitationId.
     and_then (checks [bytes_field m 1 32 (field @ '' authority challenge''),
                       bytes_field m 2 64 (field @ '' signature'')]) (\<lambda>_.
       ok invitationId)))"

definition enrollmentProposal ::
  "platform \<Rightarrow> cvalue \<Rightarrow> string \<Rightarrow> 'c authority_context_scheme \<Rightarrow>
     (bytes \<times> certificate_summary \<times> slot_summary list) res" where
  "enrollmentProposal P value field context =
     and_then (exactMap value (num_keys 6) field) (\<lambda>m.
     and_then (id_at m 0 VaultId (field @ '' Vault ID'')) (\<lambda>vaultId.
     and_then (same vaultId (cx_vaultId context) (field @ '' Vault ID'')) (\<lambda>_.
     and_then (id_at m 1 MemberId (field @ '' Member ID'')) (\<lambda>memberId.
     and_then (with_field m 2 (\<lambda>v. idSetValue P v VaultRecordId (field @ '' Authority Parent Record IDs'') True))
       (\<lambda>parents.
     and_then (sameCanonical P (CArray (map CBytes parents))
         (CArray (map CBytes (cx_authorityParentRecordIds context)))
         (field @ '' Authority Parent frontier'')) (\<lambda>_.
     and_then (with_field m 3 (\<lambda>v. certificate P v (field @ '' proposed Client Certificate''))) (\<lambda>client.
     and_then (same (cs_memberId client) memberId (field @ '' Client Certificate member'')) (\<lambda>_.
     and_then (with_field m 4 (\<lambda>v. slots P v (field @ '' Envelope slots'') True)) (\<lambda>envelopeSlots.
     and_then (bytes_field m 5 64 (field @ '' proposed possession signature'')) (\<lambda>_.
       ok (memberId, client, envelopeSlots)))))))))))"

section \<open>The validator\<close>

definition envelope_dependencies :: "slot_summary list \<Rightarrow> typed_dependency list" where
  "envelope_dependencies ss = map (\<lambda>s. dependency DepKeyEnvelope (sl_keyEnvelopeId s)) ss"

definition genesis_body ::
  "platform \<Rightarrow> cmap \<Rightarrow> 'c authority_context_scheme \<Rightarrow> typed_dependency list res" where
  "genesis_body P body context =
     and_then (id_at body 0 VaultRecordId ''Initial Baseline ID'') (\<lambda>baselineId.
     and_then (id_at body 1 MemberId ''First Member ID'') (\<lambda>firstMemberId.
     and_then (with_field body 2 (\<lambda>v. certificate P v ''First Client Certificate'')) (\<lambda>client.
     and_then (with_field body 3 (\<lambda>v. recoveryCredential P v ''First Recovery Credential'')) (\<lambda>recovery.
     and_then (checks [same (cs_memberId client) firstMemberId ''First Client Certificate member'',
         same (rs_memberId recovery) firstMemberId ''First Recovery Credential member'',
         guard_not (rs_revision recovery \<noteq> 0) (TypeError ''First Recovery Credential revision must be 0''),
         id_field body 4 KeyEpochId ''Initial Key Epoch ID'']) (\<lambda>_.
     and_then (id_at body 5 RequiredFeatureSetId ''Genesis feature set ID'') (\<lambda>featureSetId.
     and_then (same featureSetId (cx_requiredFeatureSetId context) ''Genesis feature set ID'') (\<lambda>_.
     and_then (with_field body 6 (\<lambda>v. exactMap v (num_keys 2) ''Genesis creation proof'')) (\<lambda>proof_map.
     and_then (checks [bytes_field proof_map 0 64 ''Genesis Client proof'',
                       bytes_field proof_map 1 64 ''Genesis Recovery proof'']) (\<lambda>_.
       ok [dependency DepVaultBaseline baselineId])))))))))"

definition administrator_body :: "platform \<Rightarrow> cmap \<Rightarrow> typed_dependency list res" where
  "administrator_body P body =
     and_then (checks [id_field body 0 MemberId ''Target Member ID'',
         field_ok body 1 (\<lambda>v. idSetValue P v VaultRecordId ''Resolved Administrator Record IDs'' False)]) (\<lambda>_.
       ok [])"

definition invitation_body ::
  "platform \<Rightarrow> cmap \<Rightarrow> 'c authority_context_scheme \<Rightarrow> typed_dependency list res" where
  "invitation_body P body context =
     and_then (id_field body 0 InvitationId ''Invitation ID'') (\<lambda>_.
     and_then (with_field body 1 (\<lambda>v. capabilities P v ''Invitation capabilities'')) (\<lambda>parsed.
     and_then (guard_not (\<not> list_ex (\<lambda>c. cap_action c = ''awsm.vault.join'') parsed)
         (TypeError ''Invitation capabilities must include awsm.vault.join'')) (\<lambda>_.
     and_then (checks (map (\<lambda>item. same (cap_targetVaultId item) (cx_vaultId context)
         ''Invitation capability target Vault ID'') parsed)) (\<lambda>_.
     and_then (checks [bytes_field body 2 32 ''Invitation Redemption verifier'',
         bytes_field body 3 32 ''Invitation Cancellation verifier'',
         bytes_field body 4 32 ''Invitation Redemption Authority ID'',
         bytes_field body 5 32 ''Invitation receipt verification key'']) (\<lambda>_.
       ok [])))))"

definition acceptance_agrees ::
  "platform \<Rightarrow> 'c authority_context_scheme \<Rightarrow> join_request_summary \<Rightarrow> proposal_summary \<Rightarrow> receipt_summary \<Rightarrow>
     unit res" where
  "acceptance_agrees P context request acceptance consumed =
     checks [same (jr_invitationId request) (pr_invitationId acceptance) ''Acceptance Invitation ID'',
       same (jr_invitationId request) (rc_invitationId consumed) ''Consumed receipt Invitation ID'',
       same (jr_proposedMemberId request) (pr_proposedMemberId acceptance) ''Proposed Member ID'',
       same (cs_clientCredentialId (jr_clientCertificate request))
         (cs_clientCredentialId (pr_clientCertificate acceptance)) ''Proposed Client Credential ID'',
       same (cs_bytes (jr_clientCertificate request)) (cs_bytes (pr_clientCertificate acceptance))
         ''Proposed Client Certificate'',
       same (rs_recoveryCredentialId (jr_recoveryCredential request))
         (rs_recoveryCredentialId (pr_recoveryCredential acceptance)) ''Proposed Recovery Credential ID'',
       same (rs_bytes (jr_recoveryCredential request)) (rs_bytes (pr_recoveryCredential acceptance))
         ''Proposed Recovery Credential'',
       guard_not (\<not> bytesEqual (jr_capabilitiesBytes request) (pr_capabilitiesBytes acceptance))
         (TypeError ''Granted portable capabilities do not match the Join Request''),
       sameCanonical P (CArray (map CBytes (pr_authorityParentRecordIds acceptance)))
         (CArray (map CBytes (cx_authorityParentRecordIds context))) ''Acceptance Authority Parent frontier'',
       same (jr_requestId request) (pr_joinRequestId acceptance) ''Acceptance Join Request ID'',
       same (jr_requestId request) (rc_requestId consumed) ''Consumed receipt Join Request ID'']"

definition acceptance_body ::
  "platform \<Rightarrow> cmap \<Rightarrow> 'c authority_context_scheme \<Rightarrow> typed_dependency list res" where
  "acceptance_body P body context =
     and_then (with_field body 0 (\<lambda>v. joinRequest P v ''Invitation Join Request'')) (\<lambda>request.
     and_then (with_field body 1 (\<lambda>v. proposal P v ''Invitation Acceptance Proposal'')) (\<lambda>acceptance.
     and_then (with_field body 2 (\<lambda>v. receipt v ''Consumed Invitation receipt'')) (\<lambda>consumed.
     and_then (guard_not (rc_outcome consumed \<noteq> 1)
         (TypeError ''Invitation Acceptance requires a consumed receipt'')) (\<lambda>_.
     and_then (acceptance_agrees P context request acceptance consumed) (\<lambda>_.
     and_then (case rc_acceptanceProposalId consumed of
         None \<Rightarrow> throw (TypeError ''Consumed receipt is missing its Acceptance Proposal ID'')
       | Some proposalId \<Rightarrow> same (pr_proposalId acceptance) proposalId ''Consumed receipt Acceptance Proposal ID'')
       (\<lambda>_. ok (envelope_dependencies (pr_slots acceptance))))))))"

definition cancellation_body :: "platform \<Rightarrow> cmap \<Rightarrow> typed_dependency list res" where
  "cancellation_body P body =
     and_then (mapValue body 0) (\<lambda>requestValue.
     and_then (cancellationRequest requestValue ''Invitation Cancellation Request'') (\<lambda>invitationId.
     and_then (with_field body 1 (\<lambda>v. receipt v ''Cancelled Invitation receipt'')) (\<lambda>cancelled.
     and_then (guard_not (rc_outcome cancelled \<noteq> 2)
         (TypeError ''Invitation Cancellation requires a cancelled receipt'')) (\<lambda>_.
     and_then (same invitationId (rc_invitationId cancelled) ''Cancellation receipt Invitation ID'') (\<lambda>_.
     and_then (request_id P ''awsm:invitation-cancel-request-id:v1'' requestValue) (\<lambda>cancellationRequestId.
     and_then (same cancellationRequestId (rc_requestId cancelled)
         ''Cancelled receipt Cancellation Request ID'') (\<lambda>_.
       ok [])))))))"

definition invitation_resolution_body :: "platform \<Rightarrow> cmap \<Rightarrow> typed_dependency list res" where
  "invitation_resolution_body P body =
     and_then (checks [id_field body 0 InvitationId ''Invitation ID'',
         field_ok body 1 (\<lambda>v. canonicalSetValue P v ''Conflicting receipt IDs''
           (\<lambda>_ entry. and_then (byteString entry 32 ''Invitation receipt ID'') (\<lambda>b. ok (CBytes b))) True),
         field_ok body 2 (\<lambda>v. idSetValue P v VaultRecordId ''Conflicting Invitation Record IDs'' True)]) (\<lambda>_.
     and_then (with_field body 3 (\<lambda>v. oneOfCodes v [1, 2] ''Invitation resolution outcome'')) (\<lambda>outcome.
     and_then (with_field body 4 (\<lambda>v. nullable v (\<lambda>entry. byteString entry 32 ''Selected Join Request ID'')))
       (\<lambda>selected.
     and_then (guard_not ((outcome = 1) \<noteq> (selected \<noteq> None))
         (TypeError ''Selected Join Request ID presence does not match resolution outcome'')) (\<lambda>_.
       ok []))))"

definition enrollment_body ::
  "platform \<Rightarrow> cmap \<Rightarrow> 'c authority_context_scheme \<Rightarrow> typed_dependency list res" where
  "enrollment_body P body context =
     and_then (with_field body 0 (\<lambda>v. enrollmentProposal P v ''Client Credential Enrollment Proposal'' context))
       (\<lambda>(_, _, envelopeSlots).
     and_then (with_field body 1 (\<lambda>v. oneOfCodes v [1, 2] ''Enrollment authorization kind'')) (\<lambda>kind.
     and_then (with_field body 2 (\<lambda>v. nullable v (\<lambda>entry.
         identifierValue entry RecoveryCredentialId ''Authorizing Recovery Credential ID''))) (\<lambda>recoveryId.
     and_then (with_field body 3 (\<lambda>v. nullable v (\<lambda>entry.
         byteString entry 64 ''Recovery enrollment authorization''))) (\<lambda>recoveryAuthorization.
     and_then (guard_not ((kind = 2) \<noteq> (recoveryId \<noteq> None \<and> recoveryAuthorization \<noteq> None))
         (TypeError ''Recovery authorization fields do not match enrollment kind'')) (\<lambda>_.
       ok (envelope_dependencies envelopeSlots))))))"

definition replacement_body :: "platform \<Rightarrow> cmap \<Rightarrow> typed_dependency list res" where
  "replacement_body P body =
     and_then (id_at body 0 MemberId ''Recovery member ID'') (\<lambda>memberId.
     and_then (field_ok body 1 (\<lambda>v. idSetValue P v RecoveryCredentialId ''Replaced Recovery Credential IDs'' True)) (\<lambda>_.
     and_then (with_field body 2 (\<lambda>v. recoveryCredential P v ''Replacement Recovery Credential'')) (\<lambda>replacement.
     and_then (same memberId (rs_memberId replacement) ''Replacement Recovery Credential member'') (\<lambda>_.
     and_then (with_field body 3 (\<lambda>v. slots P v ''Recovery Envelope slots'' True)) (\<lambda>envelopeSlots.
     and_then (guard_not (list_ex (\<lambda>entry. sl_targetKind entry \<noteq> 1 \<or>
           \<not> bytesEqual (sl_targetCredentialId entry) (rs_recoveryCredentialId replacement)) envelopeSlots)
         (TypeError ''Recovery Envelope slots must target the replacement Recovery Credential'')) (\<lambda>_.
     and_then (bytes_field body 4 64 ''Recovery replacement possession signature'') (\<lambda>_.
       ok (envelope_dependencies envelopeSlots))))))))"

definition transition_body :: "platform \<Rightarrow> cmap \<Rightarrow> typed_dependency list res" where
  "transition_body P body =
     and_then (checks [field_ok body 0 (\<lambda>v. idSetValue P v KeyEpochId ''Parent Key Epoch IDs'' True),
         id_field body 1 KeyEpochId ''New Key Epoch ID'',
         field_ok body 2 (\<lambda>v. nonnegativeInteger v ''Key Epoch display number'')]) (\<lambda>_.
     and_then (with_field body 3 (\<lambda>v. slots P v ''Key Epoch Envelope slots'' True)) (\<lambda>envelopeSlots.
       ok (envelope_dependencies envelopeSlots)))"

definition delivery_body :: "platform \<Rightarrow> cmap \<Rightarrow> typed_dependency list res" where
  "delivery_body P body =
     and_then (with_field body 0 (\<lambda>v. slots P v ''Key Delivery Envelope slots'' True)) (\<lambda>envelopeSlots.
       ok (envelope_dependencies envelopeSlots))"

definition added_manifest :: "platform \<Rightarrow> cvalue \<Rightarrow> cvalue res" where
  "added_manifest P value =
     (case value of
        CBytes b \<Rightarrow> and_then (decodeFeatureManifest P b) (\<lambda>_. ok value)
      | _ \<Rightarrow> throw (TypeError ''Added Feature Manifest must be complete bytes''))"

definition activation_body ::
  "platform \<Rightarrow> cmap \<Rightarrow> 'c authority_context_scheme \<Rightarrow> typed_dependency list res" where
  "activation_body P body context =
     and_then (id_at body 0 RequiredFeatureSetId ''Previous Feature Set ID'') (\<lambda>previousId.
     and_then (same previousId (cx_requiredFeatureSetId context) ''Previous Feature Set ID'') (\<lambda>_.
     and_then (with_field body 1 (\<lambda>v. canonicalSetValue P v ''Added Feature Manifests''
         (\<lambda>_. added_manifest P) True)) (\<lambda>manifestBytes.
     and_then (traverse (\<lambda>v. featureManifestId P (bytes_of v)) manifestBytes) (\<lambda>manifestIds.
     and_then (id_field body 2 RequiredFeatureSetId ''Resulting Feature Set ID'') (\<lambda>_.
       ok (map (dependency DepFeatureManifest) manifestIds))))))"

definition authority_bodyKeys :: "int \<Rightarrow> ckey list res" where
  "authority_bodyKeys type =
     (if type = 1 then ok (num_keys 7)
      else if type \<in> {2, 10, 13} then ok (num_keys 1)
      else if type \<in> {3, 4, 7} then ok (num_keys 2)
      else if type = 5 then ok (num_keys 6)
      else if type = 6 then ok (num_keys 3)
      else if type \<in> {8, 11} then ok (num_keys 5)
      else if type \<in> {9, 12} then ok (num_keys 4)
      else if type = 14 then ok (num_keys 3)
      else throw (TypeError ''Unknown Authority Event type''))"

definition authority_body ::
  "platform \<Rightarrow> int \<Rightarrow> cmap \<Rightarrow> 'c authority_context_scheme \<Rightarrow> typed_dependency list res" where
  "authority_body P type body context =
     (if type = 1 then genesis_body P body context
      else if type = 2 then and_then (id_field body 0 MemberId ''Target Member ID'') (\<lambda>_. ok [])
      else if type = 3 \<or> type = 4 then administrator_body P body
      else if type = 5 then invitation_body P body context
      else if type = 6 then acceptance_body P body context
      else if type = 7 then cancellation_body P body
      else if type = 8 then invitation_resolution_body P body
      else if type = 9 then enrollment_body P body context
      else if type = 10 then
        and_then (id_field body 0 ClientCredentialId ''Target Client Credential ID'') (\<lambda>_. ok [])
      else if type = 11 then replacement_body P body
      else if type = 12 then transition_body P body
      else if type = 13 then delivery_body P body
      else if type = 14 then activation_body P body context
      else throw (TypeError ''Unknown Authority Event type''))"

definition validateAuthorityEventBody ::
  "platform \<Rightarrow> int \<Rightarrow> cvalue \<Rightarrow> 'c authority_context_scheme \<Rightarrow> typed_dependency list res" where
  "validateAuthorityEventBody P type value context =
     (case array_at AUTHORITY_EVENT_NAMES (type - 1) of
        None \<Rightarrow> throw (TypeError ''Unknown Authority Event type'')
      | Some name \<Rightarrow>
          and_then (authority_bodyKeys type) (\<lambda>bodyKeys.
          and_then (exactMap value bodyKeys (name @ '' Event body'')) (\<lambda>body.
            authority_body P type body context)))"

section \<open>When the parsers return\<close>

lemma id_at_ok [schema_ok]:
  "id_at m k kind field = ok b \<longleftrightarrow> mapGet m (KNum k) = Some (CBytes b) \<and> valid_id kind b"
  by (auto simp: id_at_def schema_ok)

lemma bytes_field_ok [schema_ok]:
  "bytes_field m k len field = ok u \<longleftrightarrow> (\<exists>b. mapGet m (KNum k) = Some (CBytes b) \<and> length b = len)"
  by (auto simp: bytes_field_def schema_ok)

lemma same_ok [schema_ok]: "same left right field = ok u \<longleftrightarrow> left = right"
  by (simp add: same_def)

lemma sameCanonical_ok [schema_ok]:
  "sameCanonical P left right field = ok u \<longleftrightarrow>
     canonical P left \<and> canonical P right \<and> cbor_encode P left = cbor_encode P right"
  by (auto simp: sameCanonical_def and_then_eq_Inr encodeCanonicalValue_ok)

lemma request_id_ok [schema_ok]:
  "request_id P label value = ok h \<longleftrightarrow>
     canonical P value \<and> (\<exists>t. transcript label [cbor_encode P value] = ok t \<and> h = sha256 P t)"
  by (auto simp: request_id_def and_then_eq_Inr encodeCanonicalValue_ok)

lemma certificate_bytes: "certificate P v field = ok c \<Longrightarrow> cs_bytes c = cbor_encode P v"
  by (auto simp: certificate_def and_then_eq_Inr encodeCanonicalValue_ok)

lemma recoveryCredential_bytes: "recoveryCredential P v field = ok c \<Longrightarrow> rs_bytes c = cbor_encode P v"
  by (auto simp: recoveryCredential_def and_then_eq_Inr encodeCanonicalValue_ok)

lemma parsed_set_ok:
  assumes "parsed_set P parse v field nonempty = ok xs"
  obtains entries where "v = CArray entries" "nonempty \<longrightarrow> entries \<noteq> []"
    "traverse_i (\<lambda>index entry. parse entry (indexed field index)) 0 entries = ok xs"
proof -
  obtain input es where h: "v = CArray input" "nonempty \<longrightarrow> input \<noteq> []"
      "traverse_i (\<lambda>i e. and_then (parse e (indexed field i)) (\<lambda>_. ok e)) 0 input = ok es"
      "traverse_i (\<lambda>i e. parse e (indexed field i)) 0 es = ok xs"
    using assms by (auto simp: parsed_set_def and_then_eq_Inr canonicalSetValue_ok)
  have "es = input" by (rule traverse_i_id[OF h(3)]) (auto simp: and_then_eq_Inr)
  with h that show ?thesis by blast
qed

section \<open>The dependencies a body names\<close>

definition entry_objects :: "int \<Rightarrow> cvalue option \<Rightarrow> bytes list" where
  "entry_objects k v =
     (case v of
        Some (CArray entries) \<Rightarrow>
          concat (map (\<lambda>e. case e of CMap m \<Rightarrow> object_ids (mapGet m (KNum k)) | _ \<Rightarrow> []) entries)
      | _ \<Rightarrow> [])"

definition sub_field :: "int \<Rightarrow> cvalue option \<Rightarrow> cvalue option" where
  "sub_field k v = (case v of Some (CMap m) \<Rightarrow> mapGet m (KNum k) | _ \<Rightarrow> None)"

definition named_manifests :: "platform \<Rightarrow> cvalue option \<Rightarrow> bytes list" where
  "named_manifests P v =
     (case v of
        Some (CArray entries) \<Rightarrow>
          map (\<lambda>e. case featureManifestId P (bytes_of e) of Inl _ \<Rightarrow> [] | Inr i \<Rightarrow> i) entries
      | _ \<Rightarrow> [])"

definition authority_objects :: "platform \<Rightarrow> int \<Rightarrow> cmap \<Rightarrow> typed_dependency list" where
  "authority_objects P type m =
     (if type = 1 then map (dependency DepVaultBaseline) (object_ids (mapGet m (KNum 0)))
      else if type = 6 then
        map (dependency DepKeyEnvelope) (entry_objects 4 (sub_field 7 (mapGet m (KNum 1))))
      else if type = 9 then
        map (dependency DepKeyEnvelope) (entry_objects 4 (sub_field 4 (mapGet m (KNum 0))))
      else if type = 11 \<or> type = 12 then map (dependency DepKeyEnvelope) (entry_objects 4 (mapGet m (KNum 3)))
      else if type = 13 then map (dependency DepKeyEnvelope) (entry_objects 4 (mapGet m (KNum 0)))
      else if type = 14 then map (dependency DepFeatureManifest) (named_manifests P (mapGet m (KNum 1)))
      else [])"

lemma slot_envelope:
  "slot e field = ok s \<Longrightarrow>
     \<exists>m. e = CMap m \<and> object_ids (mapGet m (KNum 4)) = [sl_keyEnvelopeId s] \<and> id32 (sl_keyEnvelopeId s)"
  by (auto simp: slot_def and_then_eq_Inr schema_ok object_ids_def valid_id_def)

lemma slots_envelopes:
  assumes "slots P v field nonempty = ok ss"
  shows "envelope_dependencies ss = map (dependency DepKeyEnvelope) (entry_objects 4 (Some v)) \<and>
    (\<forall>b \<in> set (entry_objects 4 (Some v)). id32 b)"
proof -
  obtain entries where v: "v = CArray entries"
    and t: "traverse_i (\<lambda>i e. slot e (indexed field i)) 0 entries = ok ss"
    using assms unfolding slots_def by (rule parsed_set_ok)
  have "map sl_keyEnvelopeId ss =
      concat (map (\<lambda>e. case e of CMap m \<Rightarrow> object_ids (mapGet m (KNum 4)) | _ \<Rightarrow> []) entries) \<and>
      (\<forall>s \<in> set ss. id32 (sl_keyEnvelopeId s))"
    if "traverse_i (\<lambda>i e. slot e (indexed field i)) j entries = ok ss" for j
    using that
  proof (induction entries arbitrary: j ss)
    case (Cons e es)
    then obtain s rest where "ss = s # rest" "slot e (indexed field j) = ok s"
      "traverse_i (\<lambda>i e. slot e (indexed field i)) (Suc j) es = ok rest"
      by (auto simp: and_then_eq_Inr)
    with Cons.IH[of "Suc j" rest] slot_envelope[of e "indexed field j" s] show ?case by auto
  qed simp
  from this[OF t] have m: "map sl_keyEnvelopeId ss = entry_objects 4 (Some v)"
    and l: "\<forall>s \<in> set ss. id32 (sl_keyEnvelopeId s)"
    by (simp_all add: v entry_objects_def)
  show ?thesis
    unfolding m[symmetric] envelope_dependencies_def using l by simp
qed

lemma proposal_slots:
  assumes "proposal P v field = ok p"
  shows "\<exists>m w f. v = CMap m \<and> mapGet m (KNum 7) = Some w \<and> slots P w f True = ok (pr_slots p)"
  using assms by (auto simp: proposal_def and_then_eq_Inr schema_ok split: prod.splits)

lemma enrollment_slots:
  assumes "enrollmentProposal P v field context = ok (i, c, ss)"
  shows "\<exists>m w f. v = CMap m \<and> mapGet m (KNum 4) = Some w \<and> slots P w f True = ok ss"
  using assms by (auto simp: enrollmentProposal_def and_then_eq_Inr schema_ok)

lemma featureManifestId_32: "featureManifestId P b = ok i \<Longrightarrow> id32 i"
  by (auto simp: featureManifestId_def and_then_eq_Inr schema_ok valid_id_def)

lemma manifests_named:
  assumes "traverse (\<lambda>v. featureManifestId P (bytes_of v)) vs = ok ids"
  shows "ids = named_manifests P (Some (CArray vs)) \<and> (\<forall>i \<in> set ids. id32 i)"
  using assms
proof (induction vs arbitrary: ids)
  case (Cons v vs)
  then show ?case by (auto simp: and_then_eq_Inr named_manifests_def dest: featureManifestId_32)
qed (simp add: named_manifests_def)

definition names_exactly :: "typed_dependency list \<Rightarrow> typed_dependency list \<Rightarrow> bool" where
  "names_exactly deps objs \<longleftrightarrow> deps = objs \<and> (\<forall>d \<in> set deps. id32 (dep_id d))"

lemma dep_id_dependency [simp]: "dep_id (dependency t i) = i"
  by (simp add: dependency_def)

lemma names_slots:
  assumes "slots P w f nonempty = ok ss"
  shows "names_exactly (envelope_dependencies ss) (map (dependency DepKeyEnvelope) (entry_objects 4 (Some w)))"
  using slots_envelopes[OF assms] by (auto simp: names_exactly_def)

lemma genesis_objects:
  "genesis_body P m context = ok deps \<Longrightarrow> names_exactly deps (authority_objects P 1 m)"
  by (auto simp: genesis_body_def and_then_eq_Inr id_at_ok authority_objects_def names_exactly_def
      object_ids_def valid_id_def)

lemma acceptance_objects:
  assumes "acceptance_body P m context = ok deps"
  shows "names_exactly deps (authority_objects P 6 m)"
proof -
  obtain v p where v: "mapGet m (KNum 1) = Some v"
    and p: "proposal P v ''Invitation Acceptance Proposal'' = ok p" "deps = envelope_dependencies (pr_slots p)"
    using assms by (auto simp: acceptance_body_def and_then_eq_Inr with_field_ok)
  obtain pm w f where w: "v = CMap pm" "mapGet pm (KNum 7) = Some w" "slots P w f True = ok (pr_slots p)"
    using proposal_slots[OF p(1)] by blast
  show ?thesis using names_slots[OF w(3)] v w(1,2) p(2) by (simp add: authority_objects_def sub_field_def)
qed

lemma enrollment_objects:
  assumes "enrollment_body P m context = ok deps"
  shows "names_exactly deps (authority_objects P 9 m)"
proof -
  obtain v i c ss where v: "mapGet m (KNum 0) = Some v"
    and p: "enrollmentProposal P v ''Client Credential Enrollment Proposal'' context = ok (i, c, ss)"
      "deps = envelope_dependencies ss"
    using assms by (clarsimp simp: enrollment_body_def and_then_eq_Inr with_field_ok)
  obtain pm w f where w: "v = CMap pm" "mapGet pm (KNum 4) = Some w" "slots P w f True = ok ss"
    using enrollment_slots[OF p(1)] by blast
  show ?thesis using names_slots[OF w(3)] v w(1,2) p(2) by (simp add: authority_objects_def sub_field_def)
qed

lemma replacement_objects:
  "replacement_body P m = ok deps \<Longrightarrow> names_exactly deps (authority_objects P 11 m)"
  by (auto simp: replacement_body_def and_then_eq_Inr with_field_ok authority_objects_def
      dest!: names_slots)

lemma transition_objects:
  "transition_body P m = ok deps \<Longrightarrow> names_exactly deps (authority_objects P 12 m)"
  by (auto simp: transition_body_def and_then_eq_Inr with_field_ok authority_objects_def dest!: names_slots)

lemma delivery_objects:
  "delivery_body P m = ok deps \<Longrightarrow> names_exactly deps (authority_objects P 13 m)"
  by (auto simp: delivery_body_def and_then_eq_Inr with_field_ok authority_objects_def dest!: names_slots)

lemma activation_objects:
  assumes "activation_body P m context = ok deps"
  shows "names_exactly deps (authority_objects P 14 m)"
proof -
  obtain v bs ids where v: "mapGet m (KNum 1) = Some v"
    and bs: "canonicalSetValue P v ''Added Feature Manifests'' (\<lambda>_. added_manifest P) True = ok bs"
    and ids: "traverse (\<lambda>v. featureManifestId P (bytes_of v)) bs = ok ids"
      "deps = map (dependency DepFeatureManifest) ids"
    using assms by (auto simp: activation_body_def and_then_eq_Inr with_field_ok)
  obtain input where input: "v = CArray input" "traverse_i (\<lambda>_. added_manifest P) 0 input = ok bs"
    using bs by (auto simp: canonicalSetValue_ok)
  have "bs = input"
    by (rule traverse_i_id[OF input(2)])
      (auto simp: added_manifest_def and_then_eq_Inr split: cvalue.splits)
  then have "ids = named_manifests P (mapGet m (KNum 1)) \<and> (\<forall>i \<in> set ids. id32 i)"
    using manifests_named[OF ids(1)] v input(1) by simp
  then show ?thesis using ids(2) by (auto simp: authority_objects_def names_exactly_def)
qed

lemma no_objects:
  assumes "authority_body P type m context = ok deps"
    and "type \<notin> {1, 6, 9, 11, 12, 13, 14}"
  shows "names_exactly deps (authority_objects P type m)"
proof -
  have "authority_objects P type m = []" using assms(2) by (simp add: authority_objects_def)
  moreover have "deps = []"
    using assms by (auto simp: authority_body_def and_then_eq_Inr administrator_body_def
        invitation_body_def cancellation_body_def invitation_resolution_body_def split: if_splits)
  ultimately show ?thesis by (simp add: names_exactly_def)
qed

lemma authority_body_objects:
  assumes "authority_body P type m context = ok deps"
  shows "names_exactly deps (authority_objects P type m)"
proof -
  consider "type = 1" | "type = 6" | "type = 9" | "type = 11" | "type = 12" | "type = 13" | "type = 14"
    | "type \<notin> {1, 6, 9, 11, 12, 13, 14}" by blast
  then show ?thesis
  proof cases
    case 8
    with assms show ?thesis by (rule no_objects)
  qed (use assms in \<open>simp_all add: authority_body_def genesis_objects acceptance_objects
      enrollment_objects replacement_objects transition_objects delivery_objects activation_objects\<close>)
qed

lemma validateAuthorityEventBody_ok:
  assumes "validateAuthorityEventBody P type value context = ok deps"
  obtains m where "value = CMap m" "1 \<le> type" "type \<le> 14" "authority_body P type m context = ok deps"
  using assms
  by (auto simp: validateAuthorityEventBody_def and_then_eq_Inr exactMap_ok array_at_def
      AUTHORITY_EVENT_NAMES_def split: if_splits)

section \<open>The exchange of an Invitation Acceptance\<close>

lemma joinRequest_parts:
  assumes "joinRequest P v field = ok j"
  shows "\<exists>m cert recovery caps. v = CMap m \<and> canonical P v \<and>
     mapGet m (KNum 0) = Some (CBytes (jr_invitationId j)) \<and>
     mapGet m (KNum 1) = Some caps \<and> jr_capabilitiesBytes j = cbor_encode P caps \<and>
     mapGet m (KNum 2) = Some (CBytes (jr_proposedMemberId j)) \<and>
     mapGet m (KNum 3) = Some cert \<and> cs_bytes (jr_clientCertificate j) = cbor_encode P cert \<and>
     mapGet m (KNum 4) = Some recovery \<and> rs_bytes (jr_recoveryCredential j) = cbor_encode P recovery \<and>
     request_id P ''awsm:invitation-join-request-id:v1'' v = ok (jr_requestId j)"
  using assms
  by (auto simp: joinRequest_def proposed_credentials_def and_then_eq_Inr with_field_ok id_at_ok exactMap_ok
      encodeCanonicalValue_ok request_id_ok dest: certificate_bytes recoveryCredential_bytes
      split: prod.splits)

lemma proposal_parts:
  assumes "proposal P v field = ok p"
  shows "\<exists>m cert recovery caps parents f. v = CMap m \<and>
     mapGet m (KNum 0) = Some (CBytes (pr_invitationId p)) \<and>
     mapGet m (KNum 1) = Some (CBytes (pr_joinRequestId p)) \<and>
     mapGet m (KNum 2) = Some parents \<and>
     idSetValue P parents VaultRecordId f True = ok (pr_authorityParentRecordIds p) \<and>
     mapGet m (KNum 3) = Some (CBytes (pr_proposedMemberId p)) \<and>
     mapGet m (KNum 4) = Some cert \<and> cs_bytes (pr_clientCertificate p) = cbor_encode P cert \<and>
     mapGet m (KNum 5) = Some recovery \<and> rs_bytes (pr_recoveryCredential p) = cbor_encode P recovery \<and>
     mapGet m (KNum 6) = Some caps \<and> pr_capabilitiesBytes p = cbor_encode P caps \<and>
     request_id P ''awsm:invitation-acceptance-proposal-id:v1'' v = ok (pr_proposalId p)"
proof -
  obtain m where v: "v = CMap m" using assms by (auto simp: proposal_def and_then_eq_Inr exactMap_ok)
  show ?thesis
    using assms unfolding v
    by (auto simp: proposal_def proposed_credentials_def and_then_eq_Inr with_field_ok id_at_ok exactMap_ok
        encodeCanonicalValue_ok byteString_ok dest: certificate_bytes recoveryCredential_bytes)
qed

lemma receipt_parts:
  assumes "receipt v field = ok r"
  shows "\<exists>m. v = CMap m \<and> mapGet m (KNum 0) = Some (CBytes (rc_invitationId r)) \<and>
     mapGet m (KNum 1) = Some (CNum (rc_outcome r)) \<and>
     mapGet m (KNum 2) = Some (CBytes (rc_requestId r)) \<and>
     (rc_outcome r = 1 \<longleftrightarrow> rc_acceptanceProposalId r \<noteq> None) \<and>
     (\<forall>i. rc_acceptanceProposalId r = Some i \<longrightarrow> mapGet m (KNum 3) = Some (CBytes i))"
  using assms by (clarsimp simp: receipt_def and_then_eq_Inr schema_ok)

lemma acceptance_agrees_ok:
  assumes "acceptance_agrees P context request acceptance consumed = ok u"
  shows "pr_invitationId acceptance = jr_invitationId request \<and>
    rc_invitationId consumed = jr_invitationId request \<and>
    pr_proposedMemberId acceptance = jr_proposedMemberId request \<and>
    cs_bytes (pr_clientCertificate acceptance) = cs_bytes (jr_clientCertificate request) \<and>
    rs_bytes (pr_recoveryCredential acceptance) = rs_bytes (jr_recoveryCredential request) \<and>
    pr_capabilitiesBytes acceptance = jr_capabilitiesBytes request \<and>
    cbor_encode P (CArray (map CBytes (pr_authorityParentRecordIds acceptance))) =
      cbor_encode P (CArray (map CBytes (cx_authorityParentRecordIds context))) \<and>
    pr_joinRequestId acceptance = jr_requestId request \<and> rc_requestId consumed = jr_requestId request"
  using assms by (auto simp: acceptance_agrees_def and_then_eq_Inr same_ok sameCanonical_ok)

lemma acceptance_body_parts:
  assumes "acceptance_body P m context = ok deps"
  obtains jv pv rv request acceptance consumed where
    "mapGet m (KNum 0) = Some jv" "mapGet m (KNum 1) = Some pv" "mapGet m (KNum 2) = Some rv"
    "joinRequest P jv ''Invitation Join Request'' = ok request"
    "proposal P pv ''Invitation Acceptance Proposal'' = ok acceptance"
    "receipt rv ''Consumed Invitation receipt'' = ok consumed" "rc_outcome consumed = 1"
    "acceptance_agrees P context request acceptance consumed = ok ()"
    "rc_acceptanceProposalId consumed = Some (pr_proposalId acceptance)"
  using assms
  by (clarsimp simp: acceptance_body_def and_then_eq_Inr with_field_ok same_ok split: option.splits)

section \<open>Properties\<close>

text \<open>
  An accepted Authority Event body requires exactly the objects it names, in the order it names
  them: the Initial Baseline of a Genesis, the Key Envelope of every slot of an Acceptance, an
  Enrollment, a Recovery Credential Replacement, a Key Epoch Transition or a Key Delivery, and the
  Manifest ID of every added Feature Manifest; every other Authority Event requires none.
\<close>

theorem authority_dependencies_exact:
  assumes "validateAuthorityEventBody P type value context = ok deps"
  shows "1 \<le> type \<and> type \<le> 14 \<and> (\<exists>m. value = CMap m \<and> deps = authority_objects P type m) \<and>
    (\<forall>d \<in> set deps. id32 (dep_id d))"
proof -
  obtain m where "value = CMap m" "1 \<le> type" "type \<le> 14" "authority_body P type m context = ok deps"
    by (rule validateAuthorityEventBody_ok[OF assms])
  then show ?thesis using authority_body_objects[of P type m "context" deps] by (auto simp: names_exactly_def)
qed

text \<open>
  C21. An accepted Invitation Acceptance binds its three parts: the Join Request, the Proposal and the
  receipt name one Invitation; the Proposal admits the Member and, byte for byte, the Client
  Certificate, the Recovery Credential and the capabilities of the Join Request; it was made at the
  Authority frontier of the Event; the receipt is a consumed one and names the digests of exactly
  this Join Request and this Proposal.
\<close>

theorem invitation_acceptance_binds:
  assumes "array_codec P"
    and "validateAuthorityEventBody P 6 value context = ok deps"
  shows "\<exists>m j p r h g.
     value = CMap m \<and> mapGet m (KNum 0) = Some (CMap j) \<and> mapGet m (KNum 1) = Some (CMap p) \<and>
     mapGet m (KNum 2) = Some (CMap r) \<and>
     mapGet p (KNum 0) = mapGet j (KNum 0) \<and> mapGet r (KNum 0) = mapGet j (KNum 0) \<and>
     mapGet p (KNum 3) = mapGet j (KNum 2) \<and>
     map_option (cbor_encode P) (mapGet p (KNum 4)) = map_option (cbor_encode P) (mapGet j (KNum 3)) \<and>
     map_option (cbor_encode P) (mapGet p (KNum 5)) = map_option (cbor_encode P) (mapGet j (KNum 4)) \<and>
     map_option (cbor_encode P) (mapGet p (KNum 6)) = map_option (cbor_encode P) (mapGet j (KNum 1)) \<and>
     mapGet p (KNum 2) = Some (CArray (map CBytes (cx_authorityParentRecordIds context))) \<and>
     request_id P ''awsm:invitation-join-request-id:v1'' (CMap j) = ok h \<and>
     mapGet p (KNum 1) = Some (CBytes h) \<and> mapGet r (KNum 2) = Some (CBytes h) \<and>
     request_id P ''awsm:invitation-acceptance-proposal-id:v1'' (CMap p) = ok g \<and>
     mapGet r (KNum 1) = Some (CNum 1) \<and> mapGet r (KNum 3) = Some (CBytes g)"
proof -
  obtain m where m: "value = CMap m" and body: "acceptance_body P m context = ok deps"
    using validateAuthorityEventBody_ok[OF assms(2)] by (auto simp: authority_body_def)
  obtain jv pv rv request acceptance consumed where
      v: "mapGet m (KNum 0) = Some jv" "mapGet m (KNum 1) = Some pv" "mapGet m (KNum 2) = Some rv"
    and j: "joinRequest P jv ''Invitation Join Request'' = ok request"
    and p: "proposal P pv ''Invitation Acceptance Proposal'' = ok acceptance"
    and r: "receipt rv ''Consumed Invitation receipt'' = ok consumed" "rc_outcome consumed = 1"
    and agree: "acceptance_agrees P context request acceptance consumed = ok ()"
    and pid: "rc_acceptanceProposalId consumed = Some (pr_proposalId acceptance)"
    by (rule acceptance_body_parts[OF body])
  obtain jm cert recovery caps where jp: "jv = CMap jm"
      "mapGet jm (KNum 0) = Some (CBytes (jr_invitationId request))"
      "mapGet jm (KNum 1) = Some caps" "jr_capabilitiesBytes request = cbor_encode P caps"
      "mapGet jm (KNum 2) = Some (CBytes (jr_proposedMemberId request))"
      "mapGet jm (KNum 3) = Some cert" "cs_bytes (jr_clientCertificate request) = cbor_encode P cert"
      "mapGet jm (KNum 4) = Some recovery" "rs_bytes (jr_recoveryCredential request) = cbor_encode P recovery"
      "request_id P ''awsm:invitation-join-request-id:v1'' jv = ok (jr_requestId request)"
    using joinRequest_parts[OF j] by blast
  obtain pm cert' recovery' caps' parents f where pp: "pv = CMap pm"
      "mapGet pm (KNum 0) = Some (CBytes (pr_invitationId acceptance))"
      "mapGet pm (KNum 1) = Some (CBytes (pr_joinRequestId acceptance))"
      "mapGet pm (KNum 2) = Some parents"
      "idSetValue P parents VaultRecordId f True = ok (pr_authorityParentRecordIds acceptance)"
      "mapGet pm (KNum 3) = Some (CBytes (pr_proposedMemberId acceptance))"
      "mapGet pm (KNum 4) = Some cert'" "cs_bytes (pr_clientCertificate acceptance) = cbor_encode P cert'"
      "mapGet pm (KNum 5) = Some recovery'" "rs_bytes (pr_recoveryCredential acceptance) = cbor_encode P recovery'"
      "mapGet pm (KNum 6) = Some caps'" "pr_capabilitiesBytes acceptance = cbor_encode P caps'"
      "request_id P ''awsm:invitation-acceptance-proposal-id:v1'' pv = ok (pr_proposalId acceptance)"
    using proposal_parts[OF p] by (elim exE conjE) blast
  obtain rm where rp: "rv = CMap rm" "mapGet rm (KNum 0) = Some (CBytes (rc_invitationId consumed))"
      "mapGet rm (KNum 1) = Some (CNum (rc_outcome consumed))"
      "mapGet rm (KNum 2) = Some (CBytes (rc_requestId consumed))"
      "mapGet rm (KNum 3) = Some (CBytes (pr_proposalId acceptance))"
    using receipt_parts[OF r(1)] pid by blast
  note a = acceptance_agrees_ok[OF agree]
  have "parents = CArray (map CBytes (cx_authorityParentRecordIds context))"
    using pp(5) array_codec.byte_array_law[OF assms(1)] a by (simp add: idSetValue_ok)
  then show ?thesis
    using m v r(2) jp pp rp a
    by (intro exI[of _ m] exI[of _ jm] exI[of _ pm] exI[of _ rm] exI[of _ "jr_requestId request"]
        exI[of _ "pr_proposalId acceptance"]) simp
qed

section \<open>A concrete exchange\<close>

definition demo_context :: authority_context where
  "demo_context = \<lparr>cx_vaultId = replicate 32 9, cx_requiredFeatureSetId = replicate 32 8,
     cx_authorityParentRecordIds = [replicate 32 7]\<rparr>"

definition demo_slots :: cvalue where
  "demo_slots = CArray [CMap [(KNum 0, CBytes (replicate 32 4)), (KNum 1, CNum 2),
     (KNum 2, CBytes (replicate 32 1)), (KNum 3, CNull), (KNum 4, CBytes (replicate 32 6))]]"

definition demo_credentials :: "cvalue \<times> cvalue \<times> cvalue" where
  "demo_credentials =
     (CMap [(KNum 0, CBytes (replicate 32 1)), (KNum 1, CBytes (replicate 32 2)),
        (KNum 2, CBytes (replicate 32 3)), (KNum 3, CBytes (replicate 32 4))],
      CMap [(KNum 0, CBytes (replicate 32 5)), (KNum 1, CBytes (replicate 32 2)), (KNum 2, CNum 0),
        (KNum 3, CBytes (replicate 32 3)), (KNum 4, CBytes (replicate 32 4))],
      CArray [CMap [(KNum 0, CText ''awsm.vault''), (KNum 1, CBytes (replicate 32 2)),
        (KNum 2, CBytes (replicate 32 9)), (KNum 3, CText ''awsm.vault.join''), (KNum 4, CBytes [])]])"

definition demo_join :: cvalue where
  "demo_join = (case demo_credentials of (cert, recovery, caps) \<Rightarrow>
     CMap [(KNum 0, CBytes (replicate 32 10)), (KNum 1, caps), (KNum 2, CBytes (replicate 32 2)),
       (KNum 3, cert), (KNum 4, recovery), (KNum 5, CBytes (replicate 64 0)),
       (KNum 6, CBytes (replicate 64 0)), (KNum 7, CBytes (replicate 64 0))])"

text \<open>The reference platform digests a transcript to its first 32 bytes, the start of its label.\<close>

definition demo_digest :: "string \<Rightarrow> cvalue" where
  "demo_digest label = CBytes (utf8 (take 32 label))"

definition demo_proposal :: cvalue where
  "demo_proposal = (case demo_credentials of (cert, recovery, caps) \<Rightarrow>
     CMap [(KNum 0, CBytes (replicate 32 10)),
       (KNum 1, demo_digest ''awsm:invitation-join-request-id:v1''),
       (KNum 2, CArray [CBytes (replicate 32 7)]), (KNum 3, CBytes (replicate 32 2)),
       (KNum 4, cert), (KNum 5, recovery), (KNum 6, caps), (KNum 7, demo_slots)])"

definition demo_acceptance :: cvalue where
  "demo_acceptance =
     CMap [(KNum 0, demo_join), (KNum 1, demo_proposal),
       (KNum 2, CMap [(KNum 0, CBytes (replicate 32 10)), (KNum 1, CNum 1),
          (KNum 2, demo_digest ''awsm:invitation-join-request-id:v1''),
          (KNum 3, demo_digest ''awsm:invitation-acceptance-proposal-id:v1''),
          (KNum 4, CBytes (replicate 32 11)), (KNum 5, CBytes (replicate 64 0))])]"

theorem invitation_acceptance_binds_witness:
  "\<exists>m p. demo_acceptance = CMap m \<and> mapGet m (KNum 1) = Some (CMap p) \<and>
     mapGet p (KNum 2) = Some (CArray (map CBytes (cx_authorityParentRecordIds demo_context)))"
proof -
  have "\<not> isl (validateAuthorityEventBody ref_platform 6 demo_acceptance demo_context)" by code_simp
  then obtain deps where "validateAuthorityEventBody ref_platform 6 demo_acceptance demo_context = ok deps"
    by (cases "validateAuthorityEventBody ref_platform 6 demo_acceptance demo_context") auto
  from invitation_acceptance_binds[OF ref.array_codec_axioms this] show ?thesis by blast
qed

theorem authority_dependencies_exact_witness:
  "validateAuthorityEventBody ref_platform 13 (CMap [(KNum 0, demo_slots)]) demo_context =
     ok [dependency DepKeyEnvelope (replicate 32 6)] \<and>
   id32 (dep_id (dependency DepKeyEnvelope (replicate 32 6)))"
proof -
  have v: "validateAuthorityEventBody ref_platform 13 (CMap [(KNum 0, demo_slots)]) demo_context =
      ok [dependency DepKeyEnvelope (replicate 32 6)]" by code_simp
  with authority_dependencies_exact[OF v] show ?thesis by simp
qed

text \<open>
  The specification of the Enrollment body says that the two recovery fields are null for
  authorization kind 1. The validator compares the kind with the conjunction of their presence, so it
  also accepts kind 1 with one of the two fields set.
\<close>

lemma enrollment_stray_recovery_id:
  "validateAuthorityEventBody ref_platform 9
     (CMap [(KNum 0, CMap [(KNum 0, CBytes (replicate 32 9)), (KNum 1, CBytes (replicate 32 2)),
         (KNum 2, CArray [CBytes (replicate 32 7)]), (KNum 3, fst demo_credentials),
         (KNum 4, demo_slots), (KNum 5, CBytes (replicate 64 0))]),
       (KNum 1, CNum 1), (KNum 2, CBytes (replicate 32 5)), (KNum 3, CNull)]) demo_context =
     ok [dependency DepKeyEnvelope (replicate 32 6)]"
  by code_simp

end
