(* ===== verification/Event_Bodies.thy ===== *)
theory Event_Bodies
  imports Authority_Bodies
begin

text \<open>
  Model of \<open>domain/canonical/event-bodies.ts\<close>: the dispatch of an Event body to the validator of its
  family, the Lifecycle Event bodies (Vacuum and Closure), and the comparison of the dependencies an
  Event declares with those its body requires. The comparison is shown to accept exactly the
  duplicate-free rearrangements of the required dependencies.
\<close>

section \<open>Definitions\<close>

record event_context = authority_context +
  cx_generationId :: bytes
  cx_parentRecordIds :: "bytes list"

definition vacuum_body :: "platform \<Rightarrow> cvalue \<Rightarrow> 'c event_context_scheme \<Rightarrow> typed_dependency list res" where
  "vacuum_body P value context =
     and_then (exactMap value (num_keys 7) ''Vacuum Event body'') (\<lambda>body.
     and_then (id_at body 0 GenerationId ''Vacuum predecessor Generation ID'') (\<lambda>predecessorGenerationId.
     and_then (guard_not (\<not> bytesEqual predecessorGenerationId (cx_generationId context))
         (TypeError ''Vacuum predecessor Generation ID does not match its Event'')) (\<lambda>_.
     and_then (mapValue body 1) (\<lambda>frontier.
     and_then (encodeCanonicalValue P frontier) (\<lambda>frontier_bytes.
     and_then (encodeCanonicalValue P (CArray (map CBytes (cx_parentRecordIds context)))) (\<lambda>parent_bytes.
     and_then (guard_not (\<not> bytesEqual frontier_bytes parent_bytes)
         (TypeError ''Vacuum predecessor Frontier must equal its causal parents'')) (\<lambda>_.
     and_then (id_field body 2 GenerationId ''Vacuum successor Generation ID'') (\<lambda>_.
     and_then (id_at body 3 VaultRecordId ''Vacuum successor Baseline ID'') (\<lambda>baselineId.
     and_then (checks [bytes_field body 4 32 ''Vacuum predecessor state digest'',
         bytes_field body 5 32 ''Vacuum successor state digest'',
         bytes_field body 6 32 ''Vacuum omission digest'']) (\<lambda>_.
       ok [dependency DepVaultBaseline baselineId]))))))))))"

definition validateLifecycleEventBody ::
  "platform \<Rightarrow> int \<Rightarrow> cvalue \<Rightarrow> 'c event_context_scheme \<Rightarrow> typed_dependency list res" where
  "validateLifecycleEventBody P type value context =
     (if type = 1 then vacuum_body P value context
      else if type = 2 then and_then (exactEmptyMap value ''Closure Event body'') (\<lambda>_. ok [])
      else throw (TypeError ''Unknown Lifecycle Event type''))"

definition expected_dependencies ::
  "platform \<Rightarrow> int \<Rightarrow> int \<Rightarrow> cvalue \<Rightarrow> 'c event_context_scheme \<Rightarrow> typed_dependency list res" where
  "expected_dependencies P family type body context =
     (if family = 1 then validateAuthorityEventBody P type body context
      else if family = 2 then validateContentEventBody P type body
      else if family = 3 then validateLifecycleEventBody P type body context
      else throw (TypeError ''Unknown Event family''))"

definition validateEventBodyAndDependencies ::
  "platform \<Rightarrow> int \<Rightarrow> int \<Rightarrow> cvalue \<Rightarrow> typed_dependency list \<Rightarrow> 'c event_context_scheme \<Rightarrow> unit res" where
  "validateEventBodyAndDependencies P family type body dependencies context =
     and_then (expected_dependencies P family type body context) (\<lambda>expected.
     and_then (dependencySet P dependencies) (\<lambda>declared_set.
     and_then (encodeCanonicalValue P (CArray declared_set)) (\<lambda>declared_bytes.
     and_then (dependencySet P expected) (\<lambda>expected_set.
     and_then (encodeCanonicalValue P (CArray expected_set)) (\<lambda>expected_bytes.
       guard_not (\<not> bytesEqual declared_bytes expected_bytes)
         (TypeError ''Event dependencies do not exactly match the Event body''))))))"

section \<open>Comparing dependency sets\<close>

lemma dependencySet_canonical: "dependencySet P ds = ok vs \<Longrightarrow> canonical_all P vs"
  by (auto simp: dependencySet_ok canonicalSet_ok list_all_iff)

lemma dependencySet_perm:
  assumes "mset as = mset bs" "dependencySet P as = ok xs"
  shows "dependencySet P bs = ok xs"
proof -
  let ?e = "cbor_encode P"
  have v: "list_all valid_dependency as" "canonicalSet P (map dep_value as) = ok xs"
    using assms(2) by (simp_all add: dependencySet_ok)
  have m: "mset (map dep_value as) = mset (map dep_value bs)" using assms(1) by simp
  have s: "set as = set bs" using assms(1) by (rule mset_eq_setD)
  have x: "canonical_all P (map dep_value as)" "distinct (map ?e (map dep_value as))"
    "xs = sort_key ?e (map dep_value as)"
    using v(2) by (simp_all add: canonicalSet_ok)
  have d: "distinct (map ?e (map dep_value bs))"
    using x(2) m by (metis mset_eq_imp_distinct_iff mset_map)
  have "sort_key ?e (map dep_value as) = sort_key ?e (map dep_value bs)"
    using m x(2) by (intro sort_key_permutation) (simp_all only: distinct_map)
  then show ?thesis using v(1) x d s by (simp add: dependencySet_ok canonicalSet_ok list_all_iff)
qed

context array_codec
begin

lemma dependencySet_iff:
  "(\<exists>vs. dependencySet P ds = ok vs) \<longleftrightarrow> list_all valid_dependency ds \<and> distinct ds"
proof -
  have c: "canonical_all P (map dep_value ds)" if "list_all valid_dependency ds"
  proof -
    have "isSafeInteger (dep_type d)" if "valid_dependency d" for d
      using that by (auto simp: valid_dependency_def dependency_codes_def isSafeInteger_def)
    with that show ?thesis by (auto simp: list_all_iff dep_value_def)
  qed
  have "inj_on (\<lambda>d. cbor_encode P (dep_value d)) (set ds)" if "list_all valid_dependency ds"
    using that by (auto intro!: inj_onI dep_value_encode_inj simp: list_all_iff)
  then have "distinct (map (cbor_encode P) (map dep_value ds)) \<longleftrightarrow> distinct ds" if "list_all valid_dependency ds"
    using that by (simp add: distinct_map comp_def inj_on_imageI2)
  then show ?thesis using c by (auto simp: dependencySet_ok canonicalSet_ok)
qed

lemma same_dependencies_iff:
  "(\<exists>xs ys. dependencySet P as = ok xs \<and> dependencySet P bs = ok ys \<and>
      cbor_encode P (CArray xs) = cbor_encode P (CArray ys)) \<longleftrightarrow>
   list_all valid_dependency as \<and> distinct as \<and> mset as = mset bs" (is "?l \<longleftrightarrow> ?r")
proof
  assume ?l
  then show ?r using dependencySets_equal dependencySet_iff[of as] by blast
next
  assume ?r
  then obtain xs where "dependencySet P as = ok xs" using dependencySet_iff by blast
  with \<open>?r\<close> dependencySet_perm show ?l by blast
qed

lemma validateEventBodyAndDependencies_iff:
  "validateEventBodyAndDependencies P family type body deps cx = ok () \<longleftrightarrow>
     (\<exists>expected. expected_dependencies P family type body cx = ok expected \<and>
        list_all valid_dependency deps \<and> distinct deps \<and> mset deps = mset expected)"
proof -
  have "validateEventBodyAndDependencies P family type body deps cx = ok () \<longleftrightarrow>
      (\<exists>expected. expected_dependencies P family type body cx = ok expected \<and>
        (\<exists>xs ys. dependencySet P deps = ok xs \<and> dependencySet P expected = ok ys \<and>
          cbor_encode P (CArray xs) = cbor_encode P (CArray ys)))"
    by (auto simp: validateEventBodyAndDependencies_def and_then_eq_Inr encodeCanonicalValue_ok
        dest: dependencySet_canonical)
  then show ?thesis unfolding same_dependencies_iff .
qed

end

section \<open>What a body requires\<close>

definition lifecycle_objects :: "int \<Rightarrow> cmap \<Rightarrow> typed_dependency list" where
  "lifecycle_objects type m =
     (if type = 1 then map (dependency DepVaultBaseline) (object_ids (mapGet m (KNum 3))) else [])"

definition required_objects :: "platform \<Rightarrow> int \<Rightarrow> int \<Rightarrow> cmap \<Rightarrow> typed_dependency list" where
  "required_objects P family type m =
     (if family = 1 then authority_objects P type m
      else if family = 2 then content_objects type m
      else lifecycle_objects type m)"

lemma lifecycle_body_objects:
  assumes "validateLifecycleEventBody P type value cx = ok deps"
  shows "\<exists>m. value = CMap m \<and> deps = lifecycle_objects type m"
  using assms
  by (auto simp: validateLifecycleEventBody_def vacuum_body_def and_then_eq_Inr schema_ok
      lifecycle_objects_def object_ids_def exactEmptyMap_def split: if_splits)

lemma expected_dependencies_required:
  assumes "expected_dependencies P family type body cx = ok expected"
  shows "family \<in> {1, 2, 3} \<and> (\<exists>m. body = CMap m \<and> expected = required_objects P family type m)"
proof -
  consider "family = 1" "validateAuthorityEventBody P type body cx = ok expected"
    | "family = 2" "validateContentEventBody P type body = ok expected"
    | "family = 3" "validateLifecycleEventBody P type body cx = ok expected"
    using assms by (auto simp: expected_dependencies_def split: if_splits)
  then show ?thesis
  proof cases
    case 1
    then obtain m where "body = CMap m" "authority_body P type m cx = ok expected"
      by (blast elim: validateAuthorityEventBody_ok)
    then show ?thesis
      using authority_body_objects[of P type m cx expected] 1 by (simp add: required_objects_def names_exactly_def)
  next
    case 2
    then show ?thesis
      using content_dependencies_objects
      by (auto elim!: validateContentEventBody_ok simp: required_objects_def)
  next
    case 3
    then show ?thesis using lifecycle_body_objects by (auto simp: required_objects_def)
  qed
qed

section \<open>Properties\<close>

text \<open>
  C22. The declared dependencies of an accepted Event are exactly those its body requires: whatever
  order they are declared in, they are, without repetition, the objects, Baseline, Key Envelopes and
  Feature Manifests that the body names; and every such declaration of a body that its validator
  accepts is accepted.
\<close>

theorem event_dependencies_exact:
  assumes "array_codec P"
  shows "(validateEventBodyAndDependencies P family type body deps cx = ok () \<longrightarrow>
       (\<exists>m. body = CMap m \<and> mset deps = mset (required_objects P family type m) \<and> distinct deps)) \<and>
     (\<forall>expected. expected_dependencies P family type body cx = ok expected \<longrightarrow>
       distinct deps \<longrightarrow> list_all valid_dependency deps \<longrightarrow> mset deps = mset expected \<longrightarrow>
       validateEventBodyAndDependencies P family type body deps cx = ok ())"
proof -
  note iff = array_codec.validateEventBodyAndDependencies_iff[OF assms, of family type body deps cx]
  show ?thesis
    using iff expected_dependencies_required[of P family type body cx] by blast
qed

theorem event_dependencies_exact_witness:
  "\<exists>m. CMap [(KNum 0, demo_slots)] = CMap m \<and>
     mset [dependency DepKeyEnvelope (replicate 32 6)] = mset (required_objects ref_platform 1 13 m)"
proof -
  let ?cx = "authority_context.extend demo_context
    \<lparr>cx_generationId = replicate 32 1, cx_parentRecordIds = []\<rparr>"
  have "validateEventBodyAndDependencies ref_platform 1 13 (CMap [(KNum 0, demo_slots)])
      [dependency DepKeyEnvelope (replicate 32 6)] ?cx = ok ()" by code_simp
  with event_dependencies_exact[OF ref.array_codec_axioms, of 1 13 "CMap [(KNum 0, demo_slots)]"
      "[dependency DepKeyEnvelope (replicate 32 6)]" ?cx]
  show ?thesis by blast
qed

end
