(* ===== verification/Baseline_Body.thy ===== *)
theory Baseline_Body
  imports Authority_Bodies
begin

text \<open>
  Model of \<open>domain/canonical/baseline-body.ts\<close>: the validator of a Vault Baseline body, which holds a
  Content checkpoint, an Authority checkpoint and a Lifecycle checkpoint, the dependencies the
  checkpoints require, and the extraction of all Cause IDs of a Content checkpoint. The file repeats
  the helpers \<open>cause\<close>, \<open>label\<close> and \<open>target\<close> of \<open>content-bodies.ts\<close>, \<open>hex\<close> is \<^const>\<open>key\<close> and
  \<open>fixedBytes\<close> accepts what \<^const>\<open>byteString\<close> accepts. The arrays the callbacks push their
  requirements to are returned by the callbacks here and concatenated in order.
\<close>

section \<open>Parts of a checkpoint\<close>

definition causeSet :: "platform \<Rightarrow> cmap \<Rightarrow> int \<Rightarrow> string \<Rightarrow> bool \<Rightarrow> unit res" where
  "causeSet P m k field nonempty = field_ok m k (\<lambda>v. idSetValue P v VaultRecordId field nonempty)"

definition attribution :: "cvalue \<Rightarrow> string \<Rightarrow> unit res" where
  "attribution value field =
     and_then (exactMap value (num_keys 4) field) (\<lambda>m.
       checks [id_field m 0 VaultId (field @ '' origin Vault ID''),
         id_field m 1 MemberId (field @ '' Member ID''),
         id_field m 2 ClientCredentialId (field @ '' Client Credential ID''),
         field_ok m 3 (\<lambda>v. signedInteger v (field @ '' assertedAt''))])"

definition redirect_field :: "cmap \<Rightarrow> int \<Rightarrow> identifier_kind \<Rightarrow> string \<Rightarrow> unit res" where
  "redirect_field m k kind field =
     field_ok m k (\<lambda>v. nullable v (\<lambda>entry.
       and_then (exactMap entry (num_keys 2) field) (\<lambda>r.
         checks [id_field r 0 kind (field @ '' destination ID''),
           field_ok r 1 (\<lambda>c. cause_of c (field @ '' controlling Cause ID''))])))"

definition tail_field :: "cmap \<Rightarrow> int \<Rightarrow> string \<Rightarrow> unit res" where
  "tail_field m k field =
     field_ok m k (\<lambda>v. nullable v (\<lambda>entry.
       and_then (exactMap entry (num_keys 2) field) (\<lambda>t.
         checks [id_field t 0 BundleId (field @ '' Bundle ID''),
           field_ok t 1 (\<lambda>c. cause_of c (field @ '' registration Cause ID''))])))"

type_synonym entry_parser = "nat \<Rightarrow> cvalue \<Rightarrow> (cvalue \<times> typed_dependency list) res"

text \<open>A callback that checks the fields of one entry and returns the entry.\<close>

definition entry_checks :: "nat \<Rightarrow> string \<Rightarrow> (cmap \<Rightarrow> unit res list) \<Rightarrow> entry_parser" where
  "entry_checks n name tests index entry =
     and_then (exactMap entry (num_keys n) (name @ nat_str index)) (\<lambda>item.
     and_then (checks (tests item)) (\<lambda>_. ok (entry, [])))"

definition checkpoint_set ::
  "platform \<Rightarrow> cmap \<Rightarrow> int \<Rightarrow> string \<Rightarrow> entry_parser \<Rightarrow> bool \<Rightarrow> typed_dependency list res" where
  "checkpoint_set P m k field parse nonempty =
     and_then (with_field m k (\<lambda>v. canonicalSetCollect P v field parse nonempty)) (\<lambda>r. ok (snd r))"

definition folder_or_null :: "cmap \<Rightarrow> int \<Rightarrow> string \<Rightarrow> unit res" where
  "folder_or_null m k field = field_ok m k (\<lambda>v. nullable v (\<lambda>e. identifierValue e FolderId field))"

section \<open>The Content checkpoint\<close>

definition credential_label :: "platform \<Rightarrow> entry_parser" where
  "credential_label P = entry_checks 3 ''Credential label '' (\<lambda>item.
     [id_field item 0 ClientCredentialId ''Labeled Client Credential ID'',
      field_ok item 1 (\<lambda>v. label_of v ''Client Credential label''),
      causeSet P item 2 ''Client Credential label head Cause IDs'' True])"

definition checkpointed_capture :: "platform \<Rightarrow> entry_parser" where
  "checkpointed_capture P index entry =
     and_then (exactMap entry (num_keys 8) (''Capture '' @ nat_str index)) (\<lambda>item.
     and_then (id_field item 0 BundleId ''Capture Bundle ID'') (\<lambda>_.
     and_then (id_at item 1 VaultObjectId ''Bundle Descriptor Object ID'') (\<lambda>descriptorId.
     and_then (checks [id_field item 2 CollectionId ''Assigned Collection ID'',
         causeSet P item 3 ''Capture assignment head Cause IDs'' True,
         field_ok item 4 (\<lambda>v. oneOfCodes v [1, 2] ''Capture lifecycle state''),
         causeSet P item 5 ''Capture lifecycle head Cause IDs'' True,
         field_ok item 6 (\<lambda>v. cause_of v ''Capture registration Cause ID''),
         field_ok item 7 (\<lambda>v. attribution v ''Capture registration attribution'')]) (\<lambda>_.
       ok (entry, [dependency DepBundleDescriptorObject descriptorId])))))"

definition checkpointed_collection :: "platform \<Rightarrow> entry_parser" where
  "checkpointed_collection P = entry_checks 8 ''Collection '' (\<lambda>item.
     [id_field item 0 CollectionId ''Collection ID'',
      field_ok item 1 (\<lambda>v. label_of v ''Collection title''),
      causeSet P item 2 ''Collection title head Cause IDs'' False,
      folder_or_null item 3 ''Collection Folder ID'',
      causeSet P item 4 ''Collection Folder head Cause IDs'' False,
      redirect_field item 5 CollectionId ''Collection redirect'',
      tail_field item 6 ''Intrinsic Collection Tail'',
      tail_field item 7 ''Effective Collection Tail''])"

definition checkpointed_folder :: "platform \<Rightarrow> entry_parser" where
  "checkpointed_folder P = entry_checks 7 ''Folder '' (\<lambda>item.
     [id_field item 0 FolderId ''Folder ID'',
      field_ok item 1 (\<lambda>v. textValue v ''Folder name'' LABEL_OPTIONS),
      causeSet P item 2 ''Folder name head Cause IDs'' True,
      folder_or_null item 3 ''Parent Folder ID'',
      causeSet P item 4 ''Folder parent head Cause IDs'' False,
      field_ok item 5 (\<lambda>v. oneOfCodes v [1, 2] ''Folder lifecycle state''),
      causeSet P item 6 ''Folder lifecycle head Cause IDs'' True])"

definition checkpointed_tag :: "platform \<Rightarrow> entry_parser" where
  "checkpointed_tag P = entry_checks 6 ''Tag '' (\<lambda>item.
     [id_field item 0 TagId ''Tag ID'',
      field_ok item 1 (\<lambda>v. textValue v ''Tag name'' LABEL_OPTIONS),
      causeSet P item 2 ''Tag name head Cause IDs'' True,
      redirect_field item 3 TagId ''Tag redirect'',
      field_ok item 4 (\<lambda>v. oneOfCodes v [1, 2] ''Tag lifecycle state''),
      causeSet P item 5 ''Tag lifecycle head Cause IDs'' True])"

definition checkpointed_assignment :: "entry_parser" where
  "checkpointed_assignment = entry_checks 4 ''Tag assignment '' (\<lambda>item.
     [id_field item 0 TagAssignmentId ''Tag Assignment ID'',
      field_ok item 1 (\<lambda>v. cause_of v ''Tag Assigned Cause ID''),
      id_field item 2 TagId ''Assigned Tag ID'',
      field_ok item 3 (\<lambda>v. target_of v ''Tag assignment target'')])"

definition note_version :: "entry_parser" where
  "note_version index version =
     and_then (exactMap version (num_keys 4) (''Note version '' @ nat_str index)) (\<lambda>m.
     and_then (field_ok m 0 (\<lambda>v. cause_of v ''Note head Cause ID'')) (\<lambda>_.
     and_then (with_field m 1 (\<lambda>v. nullable v (\<lambda>c.
         identifierValue c VaultObjectId ''Note Content Object ID''))) (\<lambda>contentId.
     and_then (with_field m 2 (\<lambda>v. nullable v (\<lambda>c.
         identifierValue c VaultObjectId ''Note restore Content Object ID''))) (\<lambda>restoreContentId.
     and_then (guard_not ((contentId = None) = (restoreContentId = None)) (TypeError
         ''Checkpointed Note version must retain exactly one current or restore Content Object'')) (\<lambda>_.
     and_then (case (case contentId of None \<Rightarrow> restoreContentId | Some c \<Rightarrow> Some c) of
         None \<Rightarrow> throw (TypeError ''Checkpointed Note Content is absent'')
       | Some c \<Rightarrow> ok c) (\<lambda>requiredContentId.
     and_then (field_ok m 3 (\<lambda>v. attribution v ''Note author attribution'')) (\<lambda>_.
       ok (version, [dependency DepNoteContentObject requiredContentId]))))))))"

definition current_version :: "cvalue \<Rightarrow> bool" where
  "current_version version =
     (case version of CMap m \<Rightarrow> mapGet m (KNum 1) \<noteq> Some CNull | _ \<Rightarrow> False)"

definition checkpointed_note :: "platform \<Rightarrow> entry_parser" where
  "checkpointed_note P index entry =
     and_then (exactMap entry (num_keys 4) (''Note '' @ nat_str index)) (\<lambda>item.
     and_then (checks [id_field item 0 NoteId ''Note ID'',
                       field_ok item 1 (\<lambda>v. target_of v ''Note target'')]) (\<lambda>_.
     and_then (with_field item 2 (\<lambda>v. oneOfCodes v [1, 2, 3] ''Note state'')) (\<lambda>state.
     and_then (with_field item 3 (\<lambda>v. canonicalSetCollect P v ''Note versions'' note_version True))
       (\<lambda>(versions, requirements).
     let nonnull = length (filter current_version versions) in
     and_then (guard_not ((state = 1 \<and> (length versions \<noteq> 1 \<or> nonnull \<noteq> 1)) \<or> (state = 2 \<and> nonnull \<noteq> 0))
         (TypeError ''Checkpointed Note versions do not match its state'')) (\<lambda>_.
     and_then (guard_not (state = 3 \<and> length versions < 2)
         (TypeError ''Checkpointed Note Conflict must retain at least two heads'')) (\<lambda>_.
       ok (entry, requirements)))))))"

definition conflict_candidate :: "platform \<Rightarrow> int \<Rightarrow> entry_parser" where
  "conflict_candidate P kind index entry =
     and_then (exactMap entry (num_keys 2) (''Content Conflict candidate '' @ nat_str index)) (\<lambda>candidate.
     and_then (field_ok candidate 0 (\<lambda>v. cause_of v ''Content Conflict candidate Cause ID'')) (\<lambda>_.
     and_then (with_field candidate 1 (\<lambda>v. exactMap v (if kind = 4 then num_keys 2 else num_keys 1)
         ''Conflict candidate state'')) (\<lambda>state.
     and_then (checks
       (if kind = 1 \<or> kind = 3 then
          let idKind = (if kind = 1 then CollectionId else TagId) in
          [field_ok state 0 (\<lambda>v. canonicalSetValue P v ''Conflict redirects'' (\<lambda>_ redirectValue.
            and_then (exactMap redirectValue (num_keys 2) ''Conflict redirect'') (\<lambda>edge.
            and_then (checks [id_field edge 0 idKind ''Conflict redirect source ID'',
              id_field edge 1 idKind ''Conflict redirect destination ID'']) (\<lambda>_. ok redirectValue))) False)]
        else if kind = 2 then
          [field_ok state 0 (\<lambda>v. canonicalSetValue P v ''Conflict Folder placements'' (\<lambda>_ placement.
            and_then (exactMap placement (num_keys 2) ''Conflict Folder placement'') (\<lambda>item.
            and_then (checks [id_field item 0 FolderId ''Conflict Folder ID'',
              folder_or_null item 1 ''Conflict parent Folder ID'']) (\<lambda>_. ok placement))) False)]
        else
          [id_field state 0 NoteId ''Conflict Note ID'',
           field_ok state 1 (\<lambda>v. nullable v (\<lambda>content.
             identifierValue content VaultObjectId ''Conflict Note Content Object ID''))])) (\<lambda>_.
       ok (entry, [])))))"

definition validateContentConflict :: "platform \<Rightarrow> entry_parser" where
  "validateContentConflict P index value =
     and_then (exactMap value (num_keys 3) (''Content Conflict '' @ nat_str index)) (\<lambda>conflict.
     and_then (with_field conflict 0 (\<lambda>v. oneOfCodes v [1, 2, 3, 4] ''Content Conflict kind'')) (\<lambda>kind.
     let subjectKind = (if kind = 1 then CollectionId else if kind = 2 then FolderId
                        else if kind = 3 then TagId else NoteId) in
     and_then (field_ok conflict 1 (\<lambda>v. idSetValue P v subjectKind ''Content Conflict subject IDs'' True)) (\<lambda>_.
     and_then (checkpoint_set P conflict 2 ''Content Conflict candidates'' (conflict_candidate P kind) True) (\<lambda>_.
       ok (value, [])))))"

definition validateContentCheckpoint :: "platform \<Rightarrow> cvalue \<Rightarrow> typed_dependency list res" where
  "validateContentCheckpoint P value =
     and_then (exactMap value (num_keys 10) ''Content checkpoint'') (\<lambda>checkpoint.
     and_then (field_ok checkpoint 0 (\<lambda>v. exactCode v 1 ''Content checkpoint format'')) (\<lambda>_.
     and_then (with_field checkpoint 1 (\<lambda>v. exactMap v (num_keys 2) ''Checkpointed Vault label'')) (\<lambda>vaultLabel.
     and_then (checks [field_ok vaultLabel 0 (\<lambda>v. label_of v ''Checkpointed Vault label''),
         causeSet P vaultLabel 1 ''Vault label head Cause IDs'' False]) (\<lambda>_.
     and_then (checkpoint_set P checkpoint 2 ''Credential labels'' (credential_label P) False) (\<lambda>_.
     and_then (checkpoint_set P checkpoint 3 ''Checkpointed Captures'' (checkpointed_capture P) False) (\<lambda>captures.
     and_then (checkpoint_set P checkpoint 4 ''Checkpointed Collections'' (checkpointed_collection P) False) (\<lambda>_.
     and_then (checkpoint_set P checkpoint 5 ''Checkpointed Folders'' (checkpointed_folder P) False) (\<lambda>_.
     and_then (checkpoint_set P checkpoint 6 ''Checkpointed Tags'' (checkpointed_tag P) False) (\<lambda>_.
     and_then (checkpoint_set P checkpoint 7 ''Checkpointed Tag assignments'' checkpointed_assignment False) (\<lambda>_.
     and_then (checkpoint_set P checkpoint 8 ''Checkpointed Notes'' (checkpointed_note P) False) (\<lambda>notes.
     and_then (checkpoint_set P checkpoint 9 ''Active Content Conflicts'' (validateContentConflict P) False) (\<lambda>_.
       ok (captures @ notes)))))))))))))"

section \<open>The Authority checkpoint\<close>

definition active_invitation :: "platform \<Rightarrow> entry_parser" where
  "active_invitation P = entry_checks 7 ''Active Invitation '' (\<lambda>invitation.
     [id_field invitation 0 InvitationId ''Active Invitation ID'',
      bytes_field invitation 1 32 ''Invitation Redemption verifier'',
      bytes_field invitation 2 32 ''Invitation Cancellation verifier'',
      field_ok invitation 3 (\<lambda>v. validateInvitationCapabilities P v ''Invitation capabilities''),
      field_ok invitation 4 (\<lambda>v. cause_of v ''Invitation creation Record ID''),
      bytes_field invitation 5 32 ''Invitation Redemption Authority ID'',
      bytes_field invitation 6 32 ''Invitation receipt verification key''])"

definition epoch_summary :: "entry_parser" where
  "epoch_summary = entry_checks 3 ''Key Epoch summary '' (\<lambda>epoch.
     [id_field epoch 0 KeyEpochId ''Key Epoch ID'',
      field_ok epoch 1 (\<lambda>v. nonnegativeInteger v ''Key Epoch display number''),
      field_ok epoch 2 (\<lambda>v. booleanValue v ''Key Epoch current marker'')])"

definition authority_fence :: "platform \<Rightarrow> entry_parser" where
  "authority_fence P = entry_checks 3 ''Authority fence '' (\<lambda>fence.
     [field_ok fence 0 (\<lambda>v. nonnegativeInteger v ''Authority fence kind''),
      bytes_field fence 1 32 ''Authority fence subject ID'',
      causeSet P fence 2 ''Authority fence Cause Record IDs'' True])"

definition authority_candidate :: "int \<Rightarrow> entry_parser" where
  "authority_candidate kind index entry =
     and_then (exactMap entry (if kind = 1 then num_keys 5 else num_keys 2)
         (''Authority Conflict candidate '' @ nat_str index)) (\<lambda>candidate.
     and_then (field_ok candidate 0 (\<lambda>v. cause_of v ''Authority Conflict head Record ID'')) (\<lambda>_.
     and_then (if kind = 1 then
         and_then (with_field candidate 1 (\<lambda>v. oneOfCodes v [1, 2] ''Invitation outcome'')) (\<lambda>outcome.
         and_then (checks [bytes_field candidate 2 32 ''Invitation Authority Receipt ID'',
             field_ok candidate 3 (\<lambda>v. nullable v (\<lambda>request. byteString request 32 ''Join Request ID'')),
             field_ok candidate 4 (\<lambda>v. nullable v (\<lambda>member. identifierValue member MemberId ''Candidate Member ID''))])
           (\<lambda>_.
         and_then (mapValue candidate 3) (\<lambda>request.
         and_then (mapValue candidate 4) (\<lambda>member.
           guard_not ((outcome = 1) \<noteq> (request \<noteq> CNull \<and> member \<noteq> CNull))
             (TypeError ''Invitation Conflict candidate fields do not match its outcome'')))))
       else if kind = 2 then id_field candidate 1 RecoveryCredentialId ''Recovery candidate ID''
       else if kind = 3 then id_field candidate 1 KeyEpochId ''Key Epoch candidate ID''
       else field_ok candidate 1 (\<lambda>v. booleanValue v ''Administrator candidate state'')) (\<lambda>_.
       ok (entry, []))))"

definition validateAuthorityConflict :: "platform \<Rightarrow> entry_parser" where
  "validateAuthorityConflict P index value =
     and_then (exactMap value (num_keys 3) (''Authority Conflict '' @ nat_str index)) (\<lambda>conflict.
     and_then (with_field conflict 0 (\<lambda>v. oneOfCodes v [1, 2, 3, 4] ''Authority Conflict kind'')) (\<lambda>kind.
     and_then (if kind = 1 then id_field conflict 1 InvitationId ''Conflict Invitation ID''
       else if kind = 3 then id_field conflict 1 VaultId ''Conflict Vault ID''
       else id_field conflict 1 MemberId ''Conflict Member ID'') (\<lambda>_.
     and_then (checkpoint_set P conflict 2 ''Authority Conflict candidates'' (authority_candidate kind) True) (\<lambda>_.
       ok (value, [])))))"

definition unit_entry :: "(cvalue \<Rightarrow> string \<Rightarrow> unit res) \<Rightarrow> string \<Rightarrow> entry_parser" where
  "unit_entry validate name index entry =
     and_then (validate entry (name @ nat_str index)) (\<lambda>_. ok (entry, []))"

definition validateAuthorityCheckpoint :: "platform \<Rightarrow> cvalue \<Rightarrow> typed_dependency list res" where
  "validateAuthorityCheckpoint P value =
     and_then (exactMap value (num_keys 10) ''Authority checkpoint'') (\<lambda>checkpoint.
     and_then (field_ok checkpoint 0 (\<lambda>v. exactCode v 1 ''Authority checkpoint format'')) (\<lambda>_.
     and_then (with_field checkpoint 1 (\<lambda>v. idSetValue P v MemberId ''Active Member IDs'' True)) (\<lambda>members.
     and_then (with_field checkpoint 2 (\<lambda>v. idSetValue P v MemberId ''Administrator Member IDs'' True)) (\<lambda>administrators.
     and_then (guard_not (list_ex (\<lambda>member. key member \<notin> set (map key members)) administrators)
         (TypeError ''Every Administrator must be an Active Member'')) (\<lambda>_.
     and_then (checkpoint_set P checkpoint 3 ''Client Certificates''
         (unit_entry (validateClientCredentialCertificate P) ''Client Certificate '') True) (\<lambda>_.
     and_then (checkpoint_set P checkpoint 4 ''Recovery Credentials''
         (unit_entry (validateRecoveryCredentialDescriptor P) ''Recovery Credential '') True) (\<lambda>_.
     and_then (checkpoint_set P checkpoint 5 ''Active Invitations'' (active_invitation P) False) (\<lambda>_.
     and_then (checkpoint_set P checkpoint 6 ''Key Epoch summaries'' epoch_summary True) (\<lambda>_.
     and_then (with_field checkpoint 7 (\<lambda>v. validateKeyEnvelopeSlots P v ''Checkpoint Key Envelope slots'' True))
       (\<lambda>keyEnvelopeIds.
     and_then (checkpoint_set P checkpoint 8 ''Active Authority Conflicts'' (validateAuthorityConflict P) False) (\<lambda>_.
     and_then (checkpoint_set P checkpoint 9 ''Active Authority fences'' (authority_fence P) False) (\<lambda>_.
       ok (map (dependency DepKeyEnvelope) keyEnvelopeIds)))))))))))))"

section \<open>The Baseline body\<close>

definition predecessor_commitment :: "platform \<Rightarrow> cvalue \<Rightarrow> cmap res" where
  "predecessor_commitment P entry =
     and_then (exactMap entry (num_keys 3) ''Predecessor commitment'') (\<lambda>predecessor.
     and_then (checks [id_field predecessor 0 GenerationId ''Predecessor Generation ID'',
         field_ok predecessor 1 (\<lambda>v. idSetValue P v VaultRecordId ''Predecessor Frontier'' True),
         bytes_field predecessor 2 32 ''Predecessor state digest'']) (\<lambda>_.
       ok predecessor))"

definition vaultBaselineDependencyRequirements :: "platform \<Rightarrow> cvalue \<Rightarrow> typed_dependency list res" where
  "vaultBaselineDependencyRequirements P value =
     and_then (exactMap value (num_keys 6) ''Vault Baseline body'') (\<lambda>body.
     and_then (field_ok body 0 (\<lambda>v. exactCode v 1 ''Vault Baseline body format'')) (\<lambda>_.
     and_then (with_field body 1 (\<lambda>v. oneOfCodes v [1, 2] ''Vault Baseline kind'')) (\<lambda>kind.
     and_then (with_field body 2 (validateContentCheckpoint P)) (\<lambda>contentRequirements.
     and_then (with_field body 3 (validateAuthorityCheckpoint P)) (\<lambda>authorityRequirements.
     and_then (with_field body 4 (\<lambda>v. exactMap v (num_keys 1) ''Lifecycle checkpoint'')) (\<lambda>lifecycle.
     and_then (field_ok lifecycle 0 (\<lambda>v. exactCode v 1 ''Lifecycle checkpoint state'')) (\<lambda>_.
     and_then (with_field body 5 (\<lambda>v. nullable v (predecessor_commitment P))) (\<lambda>commitment.
     and_then (guard_not ((kind = 1) \<noteq> (commitment = None))
         (TypeError ''Baseline kind and predecessor commitment do not match'')) (\<lambda>_.
       ok (contentRequirements @ authorityRequirements))))))))))"

definition assertRequirements :: "typed_dependency list \<Rightarrow> typed_dependency list \<Rightarrow> unit res" where
  "assertRequirements requirements dependencies =
     checks (map (\<lambda>requirement. guard_not (\<not> list_ex (\<lambda>candidate.
         dep_type candidate = dep_type requirement \<and> bytesEqual (dep_id candidate) (dep_id requirement)) dependencies)
       (TypeError ''Baseline dependencies omit a checkpointed authoritative item'')) requirements)"

definition validateVaultBaselineBody :: "platform \<Rightarrow> cvalue \<Rightarrow> typed_dependency list \<Rightarrow> unit res" where
  "validateVaultBaselineBody P value dependencies =
     and_then (vaultBaselineDependencyRequirements P value) (\<lambda>requirements.
       assertRequirements requirements dependencies)"

section \<open>The Cause IDs of a Content checkpoint\<close>

text \<open>
  Each step adds identifiers to the map \<open>found\<close>; here it returns them, and the map is built from the
  concatenation in the same order.
\<close>

definition addOne :: "cmap \<Rightarrow> int \<Rightarrow> string \<Rightarrow> bytes list res" where
  "addOne m k field = and_then (id_at m k VaultRecordId field) (\<lambda>i. ok [i])"

definition addSet :: "platform \<Rightarrow> cmap \<Rightarrow> int \<Rightarrow> string \<Rightarrow> bytes list res" where
  "addSet P m k field = with_field m k (\<lambda>v. idSetValue P v VaultRecordId field False)"

definition addLinked :: "cmap \<Rightarrow> int \<Rightarrow> string \<Rightarrow> bytes list res" where
  "addLinked m k field =
     and_then (with_field m k (\<lambda>v. nullable v (\<lambda>entry.
       and_then (exactMap entry (num_keys 2) field) (\<lambda>linked. addOne linked 1 (field @ '' Cause ID''))))) (\<lambda>r.
       ok (case r of None \<Rightarrow> [] | Some ids \<Rightarrow> ids))"

definition gather :: "bytes list res list \<Rightarrow> bytes list res" where
  "gather parts = and_then (traverse (\<lambda>part. part) parts) (\<lambda>ids. ok (concat ids))"

definition each_entry ::
  "platform \<Rightarrow> cmap \<Rightarrow> int \<Rightarrow> string \<Rightarrow> (cvalue \<Rightarrow> bytes list res) \<Rightarrow> bytes list res" where
  "each_entry P m k field found =
     and_then (with_field m k (\<lambda>v. canonicalSetValue P v field (\<lambda>_ item. ok item) False)) (\<lambda>entries.
       gather (map found entries))"

definition entry_causes :: "nat \<Rightarrow> string \<Rightarrow> (cmap \<Rightarrow> bytes list res list) \<Rightarrow> cvalue \<Rightarrow> bytes list res" where
  "entry_causes n field parts entry =
     and_then (exactMap entry (num_keys n) field) (\<lambda>item. gather (parts item))"

definition note_causes :: "platform \<Rightarrow> cvalue \<Rightarrow> bytes list res" where
  "note_causes P = entry_causes 4 ''Checkpointed Note'' (\<lambda>note.
     [each_entry P note 3 ''Note versions'' (entry_causes 4 ''Checkpointed Note version'' (\<lambda>version.
        [addOne version 0 ''Note head Cause ID'']))])"

definition conflict_causes :: "platform \<Rightarrow> cvalue \<Rightarrow> bytes list res" where
  "conflict_causes P = entry_causes 3 ''Content Conflict'' (\<lambda>conflict.
     [each_entry P conflict 2 ''Content Conflict candidates'' (entry_causes 2 ''Content Conflict candidate''
        (\<lambda>candidate. [addOne candidate 0 ''Content Conflict candidate Cause ID'']))])"

definition checkpoint_causes :: "platform \<Rightarrow> cmap \<Rightarrow> bytes list res list" where
  "checkpoint_causes P checkpoint =
     [with_field checkpoint 1 (\<lambda>v. entry_causes 2 ''Checkpointed Vault label'' (\<lambda>vaultLabel.
        [addSet P vaultLabel 1 ''Vault label Cause IDs'']) v),
      each_entry P checkpoint 2 ''Credential labels'' (entry_causes 3 ''Credential label'' (\<lambda>labelEntry.
        [addSet P labelEntry 2 ''Credential label Cause IDs''])),
      each_entry P checkpoint 3 ''Captures'' (entry_causes 8 ''Checkpointed Capture'' (\<lambda>capture.
        [addSet P capture 3 ''Capture assignment Cause IDs'', addSet P capture 5 ''Capture lifecycle Cause IDs'',
         addOne capture 6 ''Capture registration Cause ID''])),
      each_entry P checkpoint 4 ''Collections'' (entry_causes 8 ''Checkpointed Collection'' (\<lambda>collection.
        [addSet P collection 2 ''Collection title Cause IDs'',
         addSet P collection 4 ''Collection Folder Cause IDs'', addLinked collection 5 ''Collection redirect'',
         addLinked collection 6 ''Intrinsic Collection tail'', addLinked collection 7 ''Effective Collection tail''])),
      each_entry P checkpoint 5 ''Folders'' (entry_causes 7 ''Checkpointed Folder'' (\<lambda>folder.
        [addSet P folder 2 ''Folder name Cause IDs'', addSet P folder 4 ''Folder parent Cause IDs'',
         addSet P folder 6 ''Folder lifecycle Cause IDs''])),
      each_entry P checkpoint 6 ''Tags'' (entry_causes 6 ''Checkpointed Tag'' (\<lambda>tag.
        [addSet P tag 2 ''Tag name Cause IDs'', addLinked tag 3 ''Tag redirect'',
         addSet P tag 5 ''Tag lifecycle Cause IDs''])),
      each_entry P checkpoint 7 ''Tag assignments'' (entry_causes 4 ''Checkpointed Tag assignment''
        (\<lambda>assignment. [addOne assignment 1 ''Tag assignment Cause ID''])),
      each_entry P checkpoint 8 ''Notes'' (note_causes P),
      each_entry P checkpoint 9 ''Content Conflicts'' (conflict_causes P)]"

definition contentCheckpointCauseIds :: "platform \<Rightarrow> cvalue \<Rightarrow> bytes list res" where
  "contentCheckpointCauseIds P value =
     and_then (exactMap value (num_keys 10) ''Content checkpoint'') (\<lambda>checkpoint.
     and_then (field_ok checkpoint 0 (\<lambda>v. exactCode v 1 ''Content checkpoint format'')) (\<lambda>_.
     and_then (gather (checkpoint_causes P checkpoint)) (\<lambda>ids.
     let found = mapFrom (map (\<lambda>i. (key i, i)) ids) in
     and_then (canonicalSet P (map CBytes (mapValues found))) (\<lambda>vs. ok (map bytes_of vs)))))"

section \<open>Reading a validated set\<close>

lemma checkpoint_set_ok:
  assumes "checkpoint_set P m k field parse nonempty = ok reqs"
    and keeps: "\<And>i e w rs. parse i e = ok (w, rs) \<Longrightarrow> w = e"
  obtains entries results where "mapGet m (KNum k) = Some (CArray entries)"
    "traverse_i parse 0 entries = ok results" "reqs = concat (map snd results)"
    "length results = length entries"
    "canonicalSetValue P (CArray entries) f (\<lambda>_ item. ok item) False = ok entries"
proof -
  obtain v ps where v: "mapGet m (KNum k) = Some v"
      "canonicalSetCollect P v field parse nonempty = ok (ps, reqs)"
    using assms(1) by (auto simp: checkpoint_set_def and_then_eq_Inr with_field_ok)
  then obtain input results ws where r: "v = CArray input" "traverse_i parse 0 input = ok results"
      "ps = map fst results" "reqs = concat (map snd results)" "canonicalSet P ps = ok ws"
      "canonical_all P input" "cbor_encode P (CArray input) = cbor_encode P (CArray ws)"
    unfolding canonicalSetCollect_ok by blast
  have len: "length results = length input" using r(2) by (simp add: traverse_i_eq_Inr)
  have "ps = input"
  proof (rule nth_equalityI)
    show "length ps = length input" using len r(3) by simp
    fix i assume "i < length ps"
    then have "parse i (input ! i) = ok (results ! i)" using r(2,3) by (simp add: traverse_i_eq_Inr)
    then show "ps ! i = input ! i"
      using keeps[of i "input ! i" "fst (results ! i)" "snd (results ! i)"] r(3) \<open>i < length ps\<close> by simp
  qed
  moreover have "traverse_i (\<lambda>_ item. ok item) 0 input = ok input" by (simp add: traverse_i_eq_Inr)
  ultimately have "canonicalSetValue P (CArray input) f (\<lambda>_ item. ok item) False = ok input"
    using r by (auto simp: canonicalSetValue_ok)
  with v(1) r(1,2,4) len show ?thesis by (intro that) simp_all
qed

lemma entry_of_results:
  assumes "traverse_i parse i entries = ok results" "e \<in> set entries"
  shows "\<exists>j w rs. parse j e = ok (w, rs) \<and> (w, rs) \<in> set results"
proof -
  obtain k where "k < length entries" "entries ! k = e" using assms(2) by (auto simp: in_set_conv_nth)
  then have "parse (i + k) e = ok (results ! k)" "results ! k \<in> set results"
    using assms(1) by (auto simp: traverse_i_eq_Inr)
  then show ?thesis by (metis surj_pair)
qed

text \<open>The identifiers that a cause field holds: one, a set of them, or none.\<close>

definition ids_in :: "cvalue option \<Rightarrow> bytes set" where
  "ids_in v = (case v of Some (CBytes b) \<Rightarrow> {b} | Some (CArray vs) \<Rightarrow> bytes_of ` set vs | _ \<Rightarrow> {})"

definition entries_of :: "cvalue option \<Rightarrow> cvalue set" where
  "entries_of v = (case v of Some (CArray vs) \<Rightarrow> set vs | _ \<Rightarrow> {})"

definition gives :: "bytes list res \<Rightarrow> bytes set \<Rightarrow> bool" where
  "gives r S \<longleftrightarrow> (\<exists>ids. r = ok ids \<and> set ids = S \<and> list_all (valid_id VaultRecordId) ids)"

lemma gather_simps:
  "gives (gather []) {}"
  "gives part A \<Longrightarrow> gives (gather parts) B \<Longrightarrow> gives (gather (part # parts)) (A \<union> B)"
  by (auto simp: gives_def gather_def and_then_eq_Inr)

lemma gather_map:
  assumes "\<And>e. e \<in> set es \<Longrightarrow> gives (f e) (S e)"
  shows "gives (gather (map f es)) (\<Union>e \<in> set es. S e)"
  using assms
proof (induction es)
  case (Cons e es)
  then have "gives (f e) (S e)" "gives (gather (map f es)) (\<Union>e \<in> set es. S e)" by simp_all
  then show ?case using gather_simps(2) by simp
qed (simp add: gather_simps)

lemma addSet_gives:
  "causeSet P m k field nonempty = ok u \<Longrightarrow> gives (addSet P m k f) (ids_in (mapGet m (KNum k)))"
proof -
  assume "causeSet P m k field nonempty = ok u"
  then obtain v ids where v: "mapGet m (KNum k) = Some v" "idSetValue P v VaultRecordId field nonempty = ok ids"
    by (auto simp: causeSet_def field_ok_ok)
  then have "idSetValue P v VaultRecordId f False = ok ids" "v = CArray (map CBytes ids)"
    "list_all (valid_id VaultRecordId) ids"
    by (simp_all add: idSetValue_ok)
  with v(1) show ?thesis
    by (simp add: gives_def addSet_def with_field_def mapValue_def ids_in_def image_image)
qed

lemma addOne_gives:
  "field_ok m k (\<lambda>v. cause_of v field) = ok u \<Longrightarrow> gives (addOne m k f) (ids_in (mapGet m (KNum k)))"
  by (auto simp: cause_of_def schema_ok gives_def addOne_def and_then_eq_Inr ids_in_def)

lemma addLinked_gives:
  "redirect_field m k kind field = ok u \<Longrightarrow> gives (addLinked m k f) (ids_in (sub_field 1 (mapGet m (KNum k))))"
  "tail_field m k field = ok u \<Longrightarrow> gives (addLinked m k f) (ids_in (sub_field 1 (mapGet m (KNum k))))"
  by (auto simp: redirect_field_def tail_field_def schema_ok and_then_eq_Inr cause_of_def gives_def
      addLinked_def addOne_def sub_field_def ids_in_def num_keys_def)

lemmas cause_gives = addSet_gives addOne_gives addLinked_gives

lemma each_entry_gives:
  assumes set: "checkpoint_set P m k field parse nonempty = ok reqs"
    and keeps: "\<And>i e w rs. parse i e = ok (w, rs) \<Longrightarrow> w = e"
    and entry: "\<And>i e w. parse i e = ok w \<Longrightarrow> gives (found e) (S e)"
  shows "gives (each_entry P m k f found) (\<Union>e \<in> entries_of (mapGet m (KNum k)). S e)"
proof -
  obtain entries results where e: "mapGet m (KNum k) = Some (CArray entries)"
      "traverse_i parse 0 entries = ok results"
      "canonicalSetValue P (CArray entries) f (\<lambda>_ item. ok item) False = ok entries"
    using set keeps by (rule checkpoint_set_ok)
  have "each_entry P m k f found = gather (map found entries)"
    using e(1,3) by (simp add: each_entry_def with_field_def mapValue_def)
  moreover have "gives (found x) (S x)" if "x \<in> set entries" for x
    using entry_of_results[OF e(2) that] entry by blast
  ultimately show ?thesis using e(1) by (simp add: gather_map entries_of_def)
qed

section \<open>The entries of each section\<close>

lemma entry_checks_ok:
  "entry_checks n name tests i e = ok w \<longleftrightarrow>
     (\<exists>item. exactMap e (num_keys n) (name @ nat_str i) = ok item \<and> (\<forall>c \<in> set (tests item). c = ok ()) \<and>
        w = (e, []))"
  by (auto simp: entry_checks_def and_then_eq_Inr checks_ok)

lemma entry_causes_gives:
  assumes "exactMap e (num_keys n) f = ok item" "gives (gather (parts item)) S"
  shows "gives (entry_causes n f' parts e) S"
proof -
  have "exactMap e (num_keys n) f' = ok item" using assms(1) by (simp add: exactMap_ok)
  then show ?thesis using assms(2) by (simp add: entry_causes_def)
qed

text \<open>The causes an entry names, read from the fields listed for its section.\<close>

definition causes_at :: "int list \<Rightarrow> int list \<Rightarrow> cvalue \<Rightarrow> bytes set" where
  "causes_at direct linked e =
     (case e of CMap m \<Rightarrow>
        (\<Union>k \<in> set direct. ids_in (mapGet m (KNum k))) \<union>
        (\<Union>k \<in> set linked. ids_in (sub_field 1 (mapGet m (KNum k))))
      | _ \<Rightarrow> {})"

definition nested_causes :: "int \<Rightarrow> cvalue \<Rightarrow> bytes set" where
  "nested_causes k e =
     (case e of CMap m \<Rightarrow> \<Union>x \<in> entries_of (mapGet m (KNum k)). causes_at [0] [] x | _ \<Rightarrow> {})"

definition named_causes :: "cmap \<Rightarrow> bytes set" where
  "named_causes m =
     (let entries = (\<lambda>k. entries_of (mapGet m (KNum k))) in
      (case mapGet m (KNum 1) of Some v \<Rightarrow> causes_at [1] [] v | None \<Rightarrow> {}) \<union>
      (\<Union>e \<in> entries 2. causes_at [2] [] e) \<union> (\<Union>e \<in> entries 3. causes_at [3, 5, 6] [] e) \<union>
      (\<Union>e \<in> entries 4. causes_at [2, 4] [5, 6, 7] e) \<union> (\<Union>e \<in> entries 5. causes_at [2, 4, 6] [] e) \<union>
      (\<Union>e \<in> entries 6. causes_at [2, 5] [3] e) \<union> (\<Union>e \<in> entries 7. causes_at [1] [] e) \<union>
      (\<Union>e \<in> entries 8. nested_causes 3 e) \<union> (\<Union>e \<in> entries 9. nested_causes 2 e))"

text \<open>The parts of an entry, each with the set it contributes.\<close>

lemma gives_parts:
  assumes "list_all2 gives parts Ss"
  shows "gives (gather parts) (\<Union>(set Ss))"
  using assms
proof (induction parts Ss rule: list_all2_induct)
  case Nil
  show ?case by (simp add: gather_simps)
next
  case (Cons part parts S Ss)
  then show ?case using gather_simps(2)[of part S parts "\<Union>(set Ss)"] by simp
qed

lemma causes_at_exact:
  "exactMap e ks f = ok m \<Longrightarrow> causes_at direct linked e =
     (\<Union>k \<in> set direct. ids_in (mapGet m (KNum k))) \<union> (\<Union>k \<in> set linked. ids_in (sub_field 1 (mapGet m (KNum k))))"
  by (simp add: exactMap_ok causes_at_def)

lemma entry_gives:
  assumes "exactMap e (num_keys n) f = ok m" and "list_all2 gives (parts m) Ss"
    and "\<Union>(set Ss) = (\<Union>k \<in> set direct. ids_in (mapGet m (KNum k))) \<union>
      (\<Union>k \<in> set linked. ids_in (sub_field 1 (mapGet m (KNum k))))"
  shows "gives (entry_causes n f' parts e) (causes_at direct linked e)"
  using gives_parts[OF assms(2)] assms(3)
  by (intro entry_causes_gives[OF assms(1)]) (simp add: causes_at_exact[OF assms(1)])

abbreviation held :: "cmap \<Rightarrow> int \<Rightarrow> bytes set" where "held m k \<equiv> ids_in (mapGet m (KNum k))"
abbreviation held_link :: "cmap \<Rightarrow> int \<Rightarrow> bytes set" where
  "held_link m k \<equiv> ids_in (sub_field 1 (mapGet m (KNum k)))"

lemma section_gives:
  assumes "entry_checks n name tests i e = ok w"
    and "\<And>m. \<forall>c \<in> set (tests m). c = ok () \<Longrightarrow> list_all2 gives (parts m) (Ss m)"
    and "\<And>m. \<Union>(set (Ss m)) = (\<Union>k \<in> set direct. held m k) \<union> (\<Union>k \<in> set linked. held_link m k)"
  shows "gives (entry_causes n f' parts e) (causes_at direct linked e)"
proof -
  obtain m where m: "exactMap e (num_keys n) (name @ nat_str i) = ok m" "\<forall>c \<in> set (tests m). c = ok ()"
    using assms(1) unfolding entry_checks_ok by blast
  show ?thesis by (rule entry_gives[of e n _ m parts "Ss m", OF m(1) assms(2)[OF m(2)] assms(3)[of m]])
qed

lemma credential_label_gives:
  "credential_label P i e = ok w \<Longrightarrow>
     gives (entry_causes 3 f (\<lambda>m. [addSet P m 2 g]) e) (causes_at [2] [] e)"
  unfolding credential_label_def
  by (erule section_gives[where Ss = "\<lambda>m. [held m 2]"]) (auto intro: addSet_gives)

lemma capture_gives:
  assumes "checkpointed_capture P i e = ok w"
  shows "gives (entry_causes 8 f (\<lambda>m. [addSet P m 3 g, addSet P m 5 h, addOne m 6 j]) e) (causes_at [3, 5, 6] [] e)"
proof -
  obtain m where m: "exactMap e (num_keys 8) (''Capture '' @ nat_str i) = ok m"
      "causeSet P m 3 ''Capture assignment head Cause IDs'' True = ok ()"
      "causeSet P m 5 ''Capture lifecycle head Cause IDs'' True = ok ()"
      "field_ok m 6 (\<lambda>v. cause_of v ''Capture registration Cause ID'') = ok ()"
    using assms by (auto simp: checkpointed_capture_def and_then_eq_Inr)
  show ?thesis
    by (rule entry_gives[OF m(1), where Ss = "[held m 3, held m 5, held m 6]"])
      (simp_all add: addSet_gives[OF m(2)] addSet_gives[OF m(3)] addOne_gives[OF m(4)] Un_assoc)
qed

lemma collection_gives:
  "checkpointed_collection P i e = ok w \<Longrightarrow>
     gives (entry_causes 8 f (\<lambda>m. [addSet P m 2 g, addSet P m 4 h, addLinked m 5 j, addLinked m 6 k, addLinked m 7 l]) e)
       (causes_at [2, 4] [5, 6, 7] e)"
  unfolding checkpointed_collection_def
  by (erule section_gives[where Ss = "\<lambda>m. [held m 2, held m 4, held_link m 5, held_link m 6, held_link m 7]"])
    (auto intro: cause_gives)

lemma folder_gives:
  "checkpointed_folder P i e = ok w \<Longrightarrow>
     gives (entry_causes 7 f (\<lambda>m. [addSet P m 2 g, addSet P m 4 h, addSet P m 6 j]) e) (causes_at [2, 4, 6] [] e)"
  unfolding checkpointed_folder_def
  by (erule section_gives[where Ss = "\<lambda>m. [held m 2, held m 4, held m 6]"]) (auto intro: cause_gives)

lemma tag_gives:
  "checkpointed_tag P i e = ok w \<Longrightarrow>
     gives (entry_causes 6 f (\<lambda>m. [addSet P m 2 g, addLinked m 3 h, addSet P m 5 j]) e) (causes_at [2, 5] [3] e)"
  unfolding checkpointed_tag_def
  by (erule section_gives[where Ss = "\<lambda>m. [held m 2, held_link m 3, held m 5]"]) (auto intro: cause_gives)

lemma assignment_gives:
  "checkpointed_assignment i e = ok w \<Longrightarrow>
     gives (entry_causes 4 f (\<lambda>m. [addOne m 1 g]) e) (causes_at [1] [] e)"
  unfolding checkpointed_assignment_def
  by (erule section_gives[where Ss = "\<lambda>m. [held m 1]"]) (auto intro: addOne_gives)

lemma nested_gives:
  assumes "exactMap e (num_keys n) f = ok m" "checkpoint_set P m k field parse nonempty = ok reqs"
    and keeps: "\<And>i e w rs. parse i e = ok (w, rs) \<Longrightarrow> w = e"
    and entry: "\<And>i e w. parse i e = ok w \<Longrightarrow> gives (found e) (causes_at [0] [] e)"
  shows "gives (entry_causes n f' (\<lambda>m. [each_entry P m k g found]) e) (nested_causes k e)"
proof -
  have "gives (each_entry P m k g found) (nested_causes k e)"
    using each_entry_gives[of P m k field parse nonempty reqs found "causes_at [0] []" g] assms
    by (simp add: nested_causes_def exactMap_ok)
  then show ?thesis
    using gather_simps(2)[OF _ gather_simps(1)] by (intro entry_causes_gives[OF assms(1)]) fastforce
qed

lemma note_version_gives:
  "note_version i e = ok w \<Longrightarrow> gives (entry_causes 4 f (\<lambda>m. [addOne m 0 g]) e) (causes_at [0] [] e)"
  by (clarsimp simp: note_version_def and_then_eq_Inr)
    (rule entry_gives, assumption, auto intro: addOne_gives)

lemma note_gives:
  assumes "checkpointed_note P i e = ok w"
  shows "gives (note_causes P e) (nested_causes 3 e)"
proof -
  obtain m reqs where m: "exactMap e (num_keys 4) (''Note '' @ nat_str i) = ok m"
      "checkpoint_set P m 3 ''Note versions'' note_version True = ok reqs"
    using assms by (auto simp: checkpointed_note_def checkpoint_set_def and_then_eq_Inr)
  show ?thesis unfolding note_causes_def
    by (rule nested_gives[OF m]) (auto simp: note_version_gives note_version_def and_then_eq_Inr)
qed

lemma conflict_candidate_gives:
  "conflict_candidate P kind i e = ok w \<Longrightarrow>
     gives (entry_causes 2 f (\<lambda>m. [addOne m 0 g]) e) (causes_at [0] [] e)"
  by (clarsimp simp: conflict_candidate_def and_then_eq_Inr)
    (rule entry_gives, assumption, auto intro: addOne_gives)

lemma conflict_gives:
  assumes "validateContentConflict P i e = ok w"
  shows "gives (conflict_causes P e) (nested_causes 2 e)"
proof -
  obtain m kind reqs where m: "exactMap e (num_keys 3) (''Content Conflict '' @ nat_str i) = ok m"
      "checkpoint_set P m 2 ''Content Conflict candidates'' (conflict_candidate P kind) True = ok reqs"
    using assms by (auto simp: validateContentConflict_def and_then_eq_Inr)
  show ?thesis unfolding conflict_causes_def
    by (rule nested_gives[OF m]) (auto simp: conflict_candidate_gives conflict_candidate_def and_then_eq_Inr)
qed

text \<open>Every callback returns the entry it was given.\<close>

lemma parsers_keep:
  "entry_checks n name tests i e = ok (w, rs) \<Longrightarrow> w = e"
  "checkpointed_capture P i e = ok (w, rs) \<Longrightarrow> w = e"
  "checkpointed_note P i e = ok (w, rs) \<Longrightarrow> w = e"
  "validateContentConflict P i e = ok (w, rs) \<Longrightarrow> w = e"
  by (auto simp: entry_checks_ok checkpointed_capture_def checkpointed_note_def validateContentConflict_def
      and_then_eq_Inr)

lemmas section_parsers = credential_label_def checkpointed_collection_def checkpointed_folder_def
  checkpointed_tag_def checkpointed_assignment_def

lemma content_checkpoint_parts:
  assumes "validateContentCheckpoint P v = ok reqs"
  obtains m vl where "exactMap v (num_keys 10) ''Content checkpoint'' = ok m"
    "field_ok m 0 (\<lambda>v. exactCode v 1 ''Content checkpoint format'') = ok ()"
    "with_field m 1 (\<lambda>v. exactMap v (num_keys 2) ''Checkpointed Vault label'') = ok vl"
    "causeSet P vl 1 ''Vault label head Cause IDs'' False = ok ()"
    "\<exists>r. checkpoint_set P m 2 ''Credential labels'' (credential_label P) False = ok r"
    "\<exists>r. checkpoint_set P m 3 ''Checkpointed Captures'' (checkpointed_capture P) False = ok r"
    "\<exists>r. checkpoint_set P m 4 ''Checkpointed Collections'' (checkpointed_collection P) False = ok r"
    "\<exists>r. checkpoint_set P m 5 ''Checkpointed Folders'' (checkpointed_folder P) False = ok r"
    "\<exists>r. checkpoint_set P m 6 ''Checkpointed Tags'' (checkpointed_tag P) False = ok r"
    "\<exists>r. checkpoint_set P m 7 ''Checkpointed Tag assignments'' checkpointed_assignment False = ok r"
    "\<exists>r. checkpoint_set P m 8 ''Checkpointed Notes'' (checkpointed_note P) False = ok r"
    "\<exists>r. checkpoint_set P m 9 ''Active Content Conflicts'' (validateContentConflict P) False = ok r"
  using assms by (auto simp: validateContentCheckpoint_def and_then_eq_Inr)

lemma checkpoint_causes_gives:
  assumes "validateContentCheckpoint P v = ok reqs"
  obtains m where "exactMap v (num_keys 10) ''Content checkpoint'' = ok m"
    "field_ok m 0 (\<lambda>v. exactCode v 1 ''Content checkpoint format'') = ok ()"
    "gives (gather (checkpoint_causes P m)) (named_causes m)"
proof -
  obtain m vl where m: "exactMap v (num_keys 10) ''Content checkpoint'' = ok m"
      "field_ok m 0 (\<lambda>v. exactCode v 1 ''Content checkpoint format'') = ok ()"
    and vl: "with_field m 1 (\<lambda>v. exactMap v (num_keys 2) ''Checkpointed Vault label'') = ok vl"
      "causeSet P vl 1 ''Vault label head Cause IDs'' False = ok ()"
    and s: "\<exists>r. checkpoint_set P m 2 ''Credential labels'' (credential_label P) False = ok r"
      "\<exists>r. checkpoint_set P m 3 ''Checkpointed Captures'' (checkpointed_capture P) False = ok r"
      "\<exists>r. checkpoint_set P m 4 ''Checkpointed Collections'' (checkpointed_collection P) False = ok r"
      "\<exists>r. checkpoint_set P m 5 ''Checkpointed Folders'' (checkpointed_folder P) False = ok r"
      "\<exists>r. checkpoint_set P m 6 ''Checkpointed Tags'' (checkpointed_tag P) False = ok r"
      "\<exists>r. checkpoint_set P m 7 ''Checkpointed Tag assignments'' checkpointed_assignment False = ok r"
      "\<exists>r. checkpoint_set P m 8 ''Checkpointed Notes'' (checkpointed_note P) False = ok r"
      "\<exists>r. checkpoint_set P m 9 ''Active Content Conflicts'' (validateContentConflict P) False = ok r"
    by (rule content_checkpoint_parts[OF assms])
  have sec: "gives (each_entry P m k f found) (\<Union>e \<in> entries_of (mapGet m (KNum k)). S e)"
    if "\<exists>r. checkpoint_set P m k field parse False = ok r" "\<And>i e w rs. parse i e = ok (w, rs) \<Longrightarrow> w = e"
      "\<And>i e w. parse i e = ok w \<Longrightarrow> gives (found e) (S e)" for k f found S field parse
    using that each_entry_gives by blast
  obtain v1 where v1: "mapGet m (KNum 1) = Some v1" "exactMap v1 (num_keys 2) ''Checkpointed Vault label'' = ok vl"
    using vl(1) by (auto simp: with_field_ok)
  have "gives (with_field m 1 (\<lambda>v. entry_causes 2 f (\<lambda>l. [addSet P l 1 g]) v)) (causes_at [1] [] v1)" for f g
    using entry_gives[OF v1(2), of "\<lambda>l. [addSet P l 1 g]" "[held vl 1]" "[1]" "[]" f] addSet_gives[OF vl(2)] v1(1)
    by (simp add: with_field_def mapValue_def)
  note parts = this sec[OF s(1) _ credential_label_gives] sec[OF s(2) _ capture_gives]
    sec[OF s(3) _ collection_gives] sec[OF s(4) _ folder_gives] sec[OF s(5) _ tag_gives]
    sec[OF s(6) _ assignment_gives] sec[OF s(7) _ note_gives] sec[OF s(8) _ conflict_gives]
  let ?E = "\<lambda>k. entries_of (mapGet m (KNum k))"
  have "gives (gather (checkpoint_causes P m)) (\<Union>(set [causes_at [1] [] v1,
      \<Union>e \<in> ?E 2. causes_at [2] [] e, \<Union>e \<in> ?E 3. causes_at [3, 5, 6] [] e,
      \<Union>e \<in> ?E 4. causes_at [2, 4] [5, 6, 7] e, \<Union>e \<in> ?E 5. causes_at [2, 4, 6] [] e,
      \<Union>e \<in> ?E 6. causes_at [2, 5] [3] e, \<Union>e \<in> ?E 7. causes_at [1] [] e,
      \<Union>e \<in> ?E 8. nested_causes 3 e, \<Union>e \<in> ?E 9. nested_causes 2 e]))"
    unfolding checkpoint_causes_def
    by (rule gives_parts) (intro list_all2_Cons[THEN iffD2] conjI parts list_all2_Nil[THEN iffD2] TrueI;
      simp add: section_parsers parsers_keep)
  also have "\<Union>(set [causes_at [1] [] v1,
      \<Union>e \<in> ?E 2. causes_at [2] [] e, \<Union>e \<in> ?E 3. causes_at [3, 5, 6] [] e,
      \<Union>e \<in> ?E 4. causes_at [2, 4] [5, 6, 7] e, \<Union>e \<in> ?E 5. causes_at [2, 4, 6] [] e,
      \<Union>e \<in> ?E 6. causes_at [2, 5] [3] e, \<Union>e \<in> ?E 7. causes_at [1] [] e,
      \<Union>e \<in> ?E 8. nested_causes 3 e, \<Union>e \<in> ?E 9. nested_causes 2 e]) = named_causes m"
    using v1(1) by (simp add: named_causes_def Let_def Un_assoc)
  finally show ?thesis using m that by blast
qed

section \<open>The requirements of a Baseline\<close>

lemma assertRequirements_ok: "assertRequirements requirements deps = ok u \<longleftrightarrow> set requirements \<subseteq> set deps"
proof -
  have ex: "list_ex (\<lambda>c. dep_type c = dep_type r \<and> bytesEqual (dep_id c) (dep_id r)) deps \<longleftrightarrow> r \<in> set deps"
    for r :: typed_dependency
    by (auto simp: list_ex_iff intro!: bexI[of _ r] dest: typed_dependency.equality[of _ r])
  have all_map: "(\<forall>c \<in> set (map g zs). c = ok ()) \<longleftrightarrow> (\<forall>z \<in> set zs. g z = ok ())" for g :: "'z \<Rightarrow> unit res" and zs
    by simp
  show ?thesis
    unfolding assertRequirements_def checks_ok all_map guard_not_eq_Inr not_not ex by blast
qed

lemma checkpoint_set_entry:
  assumes "checkpoint_set P m k field parse nonempty = ok reqs" "e \<in> entries_of (mapGet m (KNum k))"
  shows "\<exists>j w rs. parse j e = ok (w, rs) \<and> set rs \<subseteq> set reqs"
proof -
  obtain v ps where v: "mapGet m (KNum k) = Some v"
      "canonicalSetCollect P v field parse nonempty = ok (ps, reqs)"
    using assms(1) by (auto simp: checkpoint_set_def and_then_eq_Inr with_field_ok)
  then obtain input results where r: "v = CArray input" "traverse_i parse 0 input = ok results"
      "reqs = concat (map snd results)"
    unfolding canonicalSetCollect_ok by blast
  have "e \<in> set input" using assms(2) v(1) r(1) by (simp add: entries_of_def)
  from entry_of_results[OF r(2) this] r(3) show ?thesis by fastforce
qed

lemma capture_requirement:
  "checkpointed_capture P i e = ok (w, rs) \<Longrightarrow>
     b \<in> ids_in (sub_field 1 (Some e)) \<Longrightarrow> dependency DepBundleDescriptorObject b \<in> set rs"
  by (auto simp: checkpointed_capture_def and_then_eq_Inr exactMap_ok id_at_ok sub_field_def ids_in_def)

definition retains :: "cvalue \<Rightarrow> bytes \<Rightarrow> bool" where
  "retains version b \<longleftrightarrow>
     (sub_field 1 (Some version), sub_field 2 (Some version)) \<in>
       {(Some (CBytes b), Some CNull), (Some CNull, Some (CBytes b))}"

lemma version_requirement:
  assumes "note_version i e = ok (w, rs)"
  shows "\<exists>b. retains e b \<and> rs = [dependency DepNoteContentObject b]"
proof -
  obtain m v1 c1 v2 c2 c where m: "e = CMap m" "mapGet m (KNum 1) = Some v1" "mapGet m (KNum 2) = Some v2"
    and c: "nullable v1 (\<lambda>c. identifierValue c VaultObjectId ''Note Content Object ID'') = ok c1"
      "nullable v2 (\<lambda>c. identifierValue c VaultObjectId ''Note restore Content Object ID'') = ok c2"
      "(c1 = None) \<noteq> (c2 = None)"
      "(case c1 of None \<Rightarrow> c2 | Some c \<Rightarrow> Some c) = Some c" "rs = [dependency DepNoteContentObject c]"
    using assms by (clarsimp simp: note_version_def and_then_eq_Inr exactMap_ok with_field_ok
        split: option.splits)
  then have "retains e c"
    by (cases c1; cases c2) (auto simp: nullable_ok identifierValue_ok retains_def sub_field_def)
  with c(5) show ?thesis by blast
qed

lemma note_requirement:
  assumes "checkpointed_note P i e = ok (w, rs)" "x \<in> entries_of (sub_field 3 (Some e))"
  shows "\<exists>b. retains x b \<and> dependency DepNoteContentObject b \<in> set rs"
proof -
  obtain m where m: "e = CMap m" "checkpoint_set P m 3 ''Note versions'' note_version True = ok rs"
    using assms(1) by (auto simp: checkpointed_note_def checkpoint_set_def and_then_eq_Inr exactMap_ok)
  then obtain j y ys where "note_version j x = ok (y, ys)" "set ys \<subseteq> set rs"
    using checkpoint_set_entry[OF m(2), of x] assms(2) by (auto simp: sub_field_def)
  then show ?thesis using version_requirement by fastforce
qed

lemma content_requirements:
  assumes "validateContentCheckpoint P v = ok reqs" "set reqs \<subseteq> set deps"
  shows "\<exists>c. v = CMap c \<and>
     (\<forall>e \<in> entries_of (mapGet c (KNum 3)). \<forall>b \<in> ids_in (sub_field 1 (Some e)).
        dependency DepBundleDescriptorObject b \<in> set deps) \<and>
     (\<forall>e \<in> entries_of (mapGet c (KNum 8)). \<forall>x \<in> entries_of (sub_field 3 (Some e)).
        \<exists>b. retains x b \<and> dependency DepNoteContentObject b \<in> set deps)"
proof -
  obtain c captures contents where c: "v = CMap c" "reqs = captures @ contents"
      "checkpoint_set P c 3 ''Checkpointed Captures'' (checkpointed_capture P) False = ok captures"
      "checkpoint_set P c 8 ''Checkpointed Notes'' (checkpointed_note P) False = ok contents"
    using assms(1) by (auto simp: validateContentCheckpoint_def and_then_eq_Inr exactMap_ok)
  have "dependency DepBundleDescriptorObject b \<in> set captures"
    if "e \<in> entries_of (mapGet c (KNum 3))" "b \<in> ids_in (sub_field 1 (Some e))" for e b
    using checkpoint_set_entry[OF c(3) that(1)] capture_requirement that(2) by blast
  moreover have "\<exists>b. retains x b \<and> dependency DepNoteContentObject b \<in> set contents"
    if "e \<in> entries_of (mapGet c (KNum 8))" "x \<in> entries_of (sub_field 3 (Some e))" for e x
    using checkpoint_set_entry[OF c(4) that(1)] note_requirement that(2) by blast
  moreover have "set captures \<subseteq> set deps" "set contents \<subseteq> set deps" using assms(2) c(2) by auto
  ultimately show ?thesis by (intro exI[of _ c] conjI ballI c(1)) blast+
qed

lemma authority_requirements:
  assumes "validateAuthorityCheckpoint P v = ok reqs" "set reqs \<subseteq> set deps"
  shows "\<exists>a. v = CMap a \<and>
     (\<forall>b \<in> set (entry_objects 4 (mapGet a (KNum 7))). dependency DepKeyEnvelope b \<in> set deps) \<and>
     ids_in (mapGet a (KNum 2)) \<noteq> {} \<and> ids_in (mapGet a (KNum 2)) \<subseteq> ids_in (mapGet a (KNum 1))"
proof -
  obtain a v7 ss v1 v2 members admins where a: "v = CMap a" "mapGet a (KNum 7) = Some v7"
      "slots P v7 ''Checkpoint Key Envelope slots'' True = ok ss" "reqs = envelope_dependencies ss"
    and v: "mapGet a (KNum 1) = Some v1" "mapGet a (KNum 2) = Some v2"
      "idSetValue P v1 MemberId ''Active Member IDs'' True = ok members"
      "idSetValue P v2 MemberId ''Administrator Member IDs'' True = ok admins"
      "\<not> list_ex (\<lambda>member. key member \<notin> set (map key members)) admins"
    using assms(1)
    by (auto simp: validateAuthorityCheckpoint_def and_then_eq_Inr exactMap_ok with_field_ok
        validateKeyEnvelopeSlots_def envelope_dependencies_def comp_def)
  have "v1 = CArray (map CBytes members)" "v2 = CArray (map CBytes admins)" "admins \<noteq> []"
    using v(3,4) by (simp_all add: idSetValue_ok)
  then have "ids_in (mapGet a (KNum 1)) = set members" "ids_in (mapGet a (KNum 2)) = set admins" "admins \<noteq> []"
    using v(1,2) by (simp_all add: ids_in_def image_image)
  moreover have "set admins \<subseteq> set members" using v(5) by (auto simp: list_ex_iff)
  moreover have "\<forall>b \<in> set (entry_objects 4 (Some v7)). dependency DepKeyEnvelope b \<in> set deps"
    using slots_envelopes[OF a(3)] a(4) assms(2) by auto
  ultimately show ?thesis using a(1,2) by auto
qed

section \<open>The extracted causes\<close>

lemma found_values:
  "distinct (mapValues (mapFrom (map (\<lambda>i. (key i, i)) ids)))"
  "set (mapValues (mapFrom (map (\<lambda>i. (key i, i)) ids))) = set ids"
proof -
  let ?f = "mapFrom (map (\<lambda>i. (key i, i)) ids)"
  have "fst p = key (snd p)" if "p \<in> set ?f" for p using mapFrom_subset that by fastforce
  then have k: "mapKeys ?f = map key (mapValues ?f)" by (simp cong: map_cong)
  have "distinct (map key (mapValues ?f))" unfolding k[symmetric] by (rule mapFrom_distinct)
  then show "distinct (mapValues ?f)" by (rule distinct_map[THEN iffD1, THEN conjunct1])
  have "key ` set (mapValues ?f) = key ` set ids"
    using mapFrom_keys[of "map (\<lambda>i. (key i, i)) ids"] unfolding k by (simp add: image_image)
  then show "set (mapValues ?f) = set ids" by (simp only: inj_image_eq_iff[OF inj_key])
qed

context array_codec
begin

lemma canonicalSet_distinct_bytes:
  assumes "distinct ids"
  shows "\<exists>ws. canonicalSet P (map CBytes ids) = ok ws \<and> set (map bytes_of ws) = set ids \<and> id_order P (map bytes_of ws)"
proof -
  have d: "distinct (map (cbor_encode P) (map CBytes ids))"
    using assms bytes_encode_inj by (simp add: distinct_map inj_on_def inj_def)
  let ?ws = "sort_key (cbor_encode P) (map CBytes ids)"
  have c: "canonicalSet P (map CBytes ids) = ok ?ws" using d by (simp add: canonicalSet_ok list_all_iff)
  have "mset ?ws = mset (map CBytes ids)" by simp
  then have s: "set ?ws = CBytes ` set ids" by (metis list.set_map set_mset_mset)
  then have b: "map (\<lambda>b. cbor_encode P (CBytes b)) (map bytes_of ?ws) = map (cbor_encode P) ?ws" by auto
  have "id_order P (map bytes_of ?ws)" unfolding id_order_def b by (rule canonicalSet_strict(1)[OF c])
  then show ?thesis using c s by (auto simp: image_image)
qed

lemma contentCheckpointCauseIds_total:
  assumes "validateContentCheckpoint P v = ok reqs"
  shows "\<exists>m ids. v = CMap m \<and> contentCheckpointCauseIds P v = ok ids \<and> set ids = named_causes m \<and> id_order P ids"
proof -
  obtain m where m: "exactMap v (num_keys 10) ''Content checkpoint'' = ok m"
      "field_ok m 0 (\<lambda>v. exactCode v 1 ''Content checkpoint format'') = ok ()"
      "gives (gather (checkpoint_causes P m)) (named_causes m)"
    by (rule checkpoint_causes_gives[OF assms])
  obtain found where f: "gather (checkpoint_causes P m) = ok found" "set found = named_causes m"
    using m(3) by (auto simp: gives_def)
  obtain ws where "canonicalSet P (map CBytes (mapValues (mapFrom (map (\<lambda>i. (key i, i)) found)))) = ok ws"
      "set (map bytes_of ws) = named_causes m" "id_order P (map bytes_of ws)"
    using canonicalSet_distinct_bytes[OF found_values(1)[of found]] found_values(2)[of found] f(2) by auto
  moreover have "v = CMap m" using m(1) by (simp add: exactMap_ok)
  ultimately show ?thesis
    using m(1,2) f(1) by (simp add: contentCheckpointCauseIds_def Let_def)
qed

end

section \<open>Properties\<close>


text \<open>
  Every Content checkpoint that the validator accepts has its Cause IDs extracted without an
  error, and the result is exactly the set of Cause IDs that the fields of the checkpoint name
  (labels, assignments, lifecycles, registrations, placements, redirects, tails, Note versions and
  conflict candidates), each once and in canonical order.
\<close>

theorem checkpoint_causes_complete:
  assumes "array_codec P" and "validateContentCheckpoint P v = ok reqs"
  shows "\<exists>m ids. v = CMap m \<and> contentCheckpointCauseIds P v = ok ids \<and> set ids = named_causes m \<and> id_order P ids"
  by (rule array_codec.contentCheckpointCauseIds_total[OF assms])

definition demo_checkpoint :: cvalue where
  "demo_checkpoint =
     CMap [(KNum 0, CNum 1), (KNum 1, CMap [(KNum 0, CNull), (KNum 1, CArray [CBytes (replicate 32 20)])]),
       (KNum 2, CArray []),
       (KNum 3, CArray [CMap [(KNum 0, CBytes (replicate 32 21)), (KNum 1, CBytes (replicate 32 22)),
          (KNum 2, CBytes (replicate 32 23)), (KNum 3, CArray [CBytes (replicate 32 24)]), (KNum 4, CNum 1),
          (KNum 5, CArray [CBytes (replicate 32 25)]), (KNum 6, CBytes (replicate 32 24)),
          (KNum 7, CMap [(KNum 0, CBytes (replicate 32 9)), (KNum 1, CBytes (replicate 32 2)),
             (KNum 2, CBytes (replicate 32 1)), (KNum 3, CNum 0)])]]),
       (KNum 4, CArray []), (KNum 5, CArray []), (KNum 6, CArray []), (KNum 7, CArray []),
       (KNum 8, CArray []), (KNum 9, CArray [])]"

definition demo_baseline :: cvalue where
  "demo_baseline = (case demo_credentials of (cert, recovery, caps) \<Rightarrow>
     CMap [(KNum 0, CNum 1), (KNum 1, CNum 1), (KNum 2, demo_checkpoint),
       (KNum 3, CMap [(KNum 0, CNum 1), (KNum 1, CArray [CBytes (replicate 32 2)]),
          (KNum 2, CArray [CBytes (replicate 32 2)]), (KNum 3, CArray [cert]), (KNum 4, CArray [recovery]),
          (KNum 5, CArray []),
          (KNum 6, CArray [CMap [(KNum 0, CBytes (replicate 32 4)), (KNum 1, CNum 0), (KNum 2, CBool True)]]),
          (KNum 7, demo_slots), (KNum 8, CArray []), (KNum 9, CArray [])]),
       (KNum 4, CMap [(KNum 0, CNum 1)]), (KNum 5, CNull)])"

definition demo_baseline_dependencies :: "typed_dependency list" where
  "demo_baseline_dependencies =
     [dependency DepBundleDescriptorObject (replicate 32 22), dependency DepKeyEnvelope (replicate 32 6)]"


theorem checkpoint_causes_complete_witness:
  "\<exists>m ids. demo_checkpoint = CMap m \<and> contentCheckpointCauseIds ref_platform demo_checkpoint = ok ids \<and>
     set ids = named_causes m \<and> id_order ref_platform ids"
proof -
  have "validateContentCheckpoint ref_platform demo_checkpoint =
      ok [dependency DepBundleDescriptorObject (replicate 32 22)]" by code_simp
  from checkpoint_causes_complete[OF ref.array_codec_axioms this] show ?thesis by blast
qed

text \<open>
  The specification of an Invitation Conflict candidate says that the Join Request and the Member are
  null for a cancelled outcome. The validator accepts a cancelled candidate that has one of them.
\<close>

lemma cancelled_candidate_with_request:
  "authority_candidate 1 0 (CMap [(KNum 0, CBytes (replicate 32 1)), (KNum 1, CNum 2),
     (KNum 2, CBytes (replicate 32 2)), (KNum 3, CBytes (replicate 32 3)), (KNum 4, CNull)]) =
   ok (CMap [(KNum 0, CBytes (replicate 32 1)), (KNum 1, CNum 2),
     (KNum 2, CBytes (replicate 32 2)), (KNum 3, CBytes (replicate 32 3)), (KNum 4, CNull)], [])"
  by code_simp

end
