(* ===== verification/Vault_Record.thy ===== *)
theory Vault_Record
  imports Event_Bodies Baseline_Body
begin

text \<open>
  Model of \<open>domain/canonical/record.ts\<close>: Vault Events and Vault Baselines as canonical records, their
  validation, encoding, decoding, signing and signature verification. \<open>exactMap\<close>, \<open>mapValue\<close> and
  \<open>integer\<close> of that file are those of \<open>schema.ts\<close>. An Event input extends the context its body is
  validated in, as it does in the source, so its record extends \<^typ>\<open>event_context\<close>. The
  asynchronous loading of the signature library has no result of its own and is left out; the
  library is the platform parameter.
\<close>

section \<open>Events\<close>

definition VAULT_RECORD_FORMAT :: int where "VAULT_RECORD_FORMAT = 1"
definition VAULT_EVENT_KIND :: int where "VAULT_EVENT_KIND = 1"
definition VAULT_BASELINE_KIND :: int where "VAULT_BASELINE_KIND = 2"

record vault_event_input = event_context +
  ev_dependencies :: "typed_dependency list"
  ev_extensions :: "(string \<times> cvalue) list"
  ev_family :: int
  ev_type :: int
  ev_signerCredentialId :: bytes
  ev_assertedAt :: js_integer
  ev_body :: cvalue

record authenticated_event = vault_event_input +
  ev_signature :: bytes
  ev_bytes :: bytes
  ev_recordId :: bytes

record vault_baseline_input =
  bl_vaultId :: bytes
  bl_generationId :: bytes
  bl_dependencies :: "typed_dependency list"
  bl_requiredFeatureSetId :: bytes
  bl_extensions :: "(string \<times> cvalue) list"
  bl_body :: cvalue

record vault_baseline = vault_baseline_input +
  bl_bytes :: bytes
  bl_recordId :: bytes

definition TYPE_LIMITS :: "int \<Rightarrow> int option" where
  "TYPE_LIMITS family =
     (if family = 1 then Some 14 else if family = 2 then Some 31 else if family = 3 then Some 2 else None)"

fun integer_value :: "js_integer \<Rightarrow> cvalue" where
  "integer_value (JNumber n) = CNum n"
| "integer_value (JBigInt n) = CBigInt n"

definition extension_entry :: "string \<times> cvalue \<Rightarrow> (string \<times> bytes) res" where
  "extension_entry entry =
     (case snd entry of CBytes b \<Rightarrow> ok (fst entry, b)
      | _ \<Rightarrow> throw (TypeError ''Advisory Extension values must be bytes''))"

definition assert_extensions :: "platform \<Rightarrow> (string \<times> cvalue) list \<Rightarrow> unit res" where
  "assert_extensions P exts =
     and_then (traverse extension_entry exts) (\<lambda>entries.
     and_then (advisoryExtensions P entries) (\<lambda>_. ok ()))"

definition assertEventInput :: "platform \<Rightarrow> 'c vault_event_input_scheme \<Rightarrow> unit res" where
  "assertEventInput P input =
     (let genesis = (ev_family input = 1 \<and> ev_type input = 1) in
      checks [guard_not (case TYPE_LIMITS (ev_family input) of None \<Rightarrow> True
            | Some maximum \<Rightarrow> \<not> isSafeInteger (ev_type input) \<or> ev_type input < 1 \<or> ev_type input > maximum)
          (TypeError ''Unknown base Event family or type''),
        guard_not (genesis \<and> (cx_parentRecordIds input \<noteq> [] \<or> cx_authorityParentRecordIds input \<noteq> []))
          (TypeError ''Only Genesis has empty causal and Authority Parent frontiers''),
        guard_not (\<not> genesis \<and> (cx_parentRecordIds input = [] \<or> cx_authorityParentRecordIds input = []))
          (TypeError ''Every non-Genesis Event requires both complete parent frontiers''),
        and_then (signedInteger (integer_value (ev_assertedAt input)) ''Event assertedAt'') (\<lambda>_. ok ()),
        assert_extensions P (ev_extensions input),
        validateEventBodyAndDependencies P (ev_family input) (ev_type input) (ev_body input)
          (ev_dependencies input) input])"

definition extension_map :: "(string \<times> cvalue) list \<Rightarrow> cvalue" where
  "extension_map exts = CMap (map (\<lambda>(k, v). (KText k, v)) exts)"

definition unsignedEventValue :: "platform \<Rightarrow> 'c vault_event_input_scheme \<Rightarrow> cmap res" where
  "unsignedEventValue P input =
     and_then (assertEventInput P input) (\<lambda>_.
     and_then (canonicalSet P (map CBytes (cx_parentRecordIds input))) (\<lambda>parents.
     and_then (canonicalSet P (map CBytes (cx_authorityParentRecordIds input))) (\<lambda>authorityParents.
     and_then (dependencySet P (ev_dependencies input)) (\<lambda>deps.
       canonicalMap
         [(0, CNum VAULT_RECORD_FORMAT), (1, CBytes (cx_vaultId input)), (2, CBytes (cx_generationId input)),
          (3, CArray parents), (4, CArray authorityParents), (5, CArray deps), (6, CNum VAULT_EVENT_KIND),
          (7, CBytes (cx_requiredFeatureSetId input)), (8, extension_map (ev_extensions input)),
          (9, CNum (ev_family input)), (10, CNum (ev_type input)),
          (11, CBytes (ev_signerCredentialId input)), (12, integer_value (ev_assertedAt input)),
          (13, ev_body input)]))))"

definition encodeUnsignedVaultEvent :: "platform \<Rightarrow> 'c vault_event_input_scheme \<Rightarrow> bytes res" where
  "encodeUnsignedVaultEvent P input =
     and_then (unsignedEventValue P input) (\<lambda>m. encodeCanonicalValue P (CMap m))"

section \<open>Decoding\<close>

definition record_bytes :: "cvalue \<Rightarrow> nat \<Rightarrow> string \<Rightarrow> bytes res" where
  "record_bytes value len field =
     (case value of
        CBytes b \<Rightarrow>
          (if length b \<noteq> len then throw (TypeError (field @ '' must contain '' @ nat_str len @ '' bytes'')) else ok b)
      | _ \<Rightarrow> throw (TypeError (field @ '' must contain '' @ nat_str len @ '' bytes'')))"

definition record_id :: "cvalue \<Rightarrow> identifier_kind \<Rightarrow> string \<Rightarrow> bytes res" where
  "record_id value kind field = and_then (record_bytes value 32 field) (identifier_of kind)"

definition idSet :: "platform \<Rightarrow> cvalue \<Rightarrow> bytes list res" where
  "idSet P value =
     (case value of
        CArray vs \<Rightarrow>
          and_then (traverse (\<lambda>entry. record_id entry VaultRecordId ''VaultRecord ID'') vs) (\<lambda>parsed.
          and_then (canonicalSet P (map CBytes parsed)) (\<lambda>normalized.
          and_then (encodeCanonicalValue P value) (\<lambda>value_bytes.
          and_then (encodeCanonicalValue P (CArray normalized)) (\<lambda>normalized_bytes.
            if \<not> bytesEqual value_bytes normalized_bytes
            then throw (TypeError ''Record frontier is not a canonical set'') else ok parsed))))
      | _ \<Rightarrow> throw (TypeError ''Record frontier must be an array''))"

definition dependency_entry :: "cvalue \<Rightarrow> typed_dependency res" where
  "dependency_entry entry =
     and_then (exactMap entry (num_keys 2) ''Typed Dependency'') (\<lambda>m.
     and_then (with_field m 0 (\<lambda>v. integer v ''Dependency type'')) (\<lambda>type.
     and_then (guard_not (type \<notin> set dependency_codes) (TypeError ''Unknown dependency type'')) (\<lambda>_.
     and_then (with_field m 1 (\<lambda>v. record_bytes v 32 ''Dependency ID'')) (\<lambda>i.
       ok \<lparr>dep_type = type, dep_id = i\<rparr>))))"

definition dependencies_of :: "platform \<Rightarrow> cvalue \<Rightarrow> typed_dependency list res" where
  "dependencies_of P value =
     (case value of
        CArray vs \<Rightarrow>
          and_then (traverse dependency_entry vs) (\<lambda>parsed.
          and_then (encodeCanonicalValue P value) (\<lambda>value_bytes.
          and_then (dependencySet P parsed) (\<lambda>normalized.
          and_then (encodeCanonicalValue P (CArray normalized)) (\<lambda>normalized_bytes.
            if \<not> bytesEqual value_bytes normalized_bytes
            then throw (TypeError ''Dependencies are not a canonical set'') else ok parsed))))
      | _ \<Rightarrow> throw (TypeError ''Dependencies must be an array''))"

fun key_text :: "ckey \<Rightarrow> string" where
  "key_text (KText s) = s"
| "key_text _ = []"

definition extension_pair :: "ckey \<times> cvalue \<Rightarrow> (string \<times> bytes) res" where
  "extension_pair entry =
     (case entry of
        (KText s, CBytes b) \<Rightarrow> ok (s, b)
      | _ \<Rightarrow> throw (TypeError ''Advisory Extension entries must map scoped keys to bytes''))"

definition extensions_of :: "platform \<Rightarrow> cvalue \<Rightarrow> (string \<times> cvalue) list res" where
  "extensions_of P value =
     (case value of
        CMap m \<Rightarrow>
          and_then (traverse extension_pair m) (\<lambda>entries.
          and_then (advisoryExtensions P entries) (\<lambda>exts. ok (map (\<lambda>(k, v). (key_text k, v)) exts)))
      | _ \<Rightarrow> throw (TypeError ''Advisory Extensions must be a map''))"

definition record_header :: "cmap \<Rightarrow> int \<Rightarrow> string \<Rightarrow> unit res" where
  "record_header m kind message =
     and_then (with_field m 0 (\<lambda>v. integer v ''Vault Record format'')) (\<lambda>format.
     and_then (guard_not (format \<noteq> VAULT_RECORD_FORMAT) (TypeError ''Unknown Vault Record format'')) (\<lambda>_.
     and_then (with_field m 6 (\<lambda>v. integer v ''Vault Record kind'')) (\<lambda>actual.
       guard_not (actual \<noteq> kind) (TypeError message))))"

definition decode_event_input :: "platform \<Rightarrow> cmap \<Rightarrow> vault_event_input res" where
  "decode_event_input P m =
     and_then (with_field m 1 (\<lambda>v. record_id v VaultId ''Vault ID'')) (\<lambda>vaultId.
     and_then (with_field m 2 (\<lambda>v. record_id v GenerationId ''Generation ID'')) (\<lambda>generationId.
     and_then (with_field m 3 (idSet P)) (\<lambda>parents.
     and_then (with_field m 4 (idSet P)) (\<lambda>authorityParents.
     and_then (with_field m 5 (dependencies_of P)) (\<lambda>deps.
     and_then (with_field m 7 (\<lambda>v. record_id v RequiredFeatureSetId ''Required Feature Set ID'')) (\<lambda>featureSetId.
     and_then (with_field m 8 (extensions_of P)) (\<lambda>exts.
     and_then (with_field m 9 (\<lambda>v. integer v ''Event family'')) (\<lambda>family.
     and_then (with_field m 10 (\<lambda>v. integer v ''Event type'')) (\<lambda>type.
     and_then (with_field m 11 (\<lambda>v. record_id v ClientCredentialId ''Client Credential ID'')) (\<lambda>signer.
     and_then (with_field m 12 (\<lambda>v. signedInteger v ''assertedAt'')) (\<lambda>assertedAt.
     and_then (mapValue m 13) (\<lambda>body.
       ok \<lparr>cx_vaultId = vaultId, cx_requiredFeatureSetId = featureSetId,
           cx_authorityParentRecordIds = authorityParents, cx_generationId = generationId,
           cx_parentRecordIds = parents, ev_dependencies = deps, ev_extensions = exts, ev_family = family,
           ev_type = type, ev_signerCredentialId = signer, ev_assertedAt = assertedAt,
           ev_body = body\<rparr>))))))))))))"

definition decodeVaultEvent :: "platform \<Rightarrow> bytes \<Rightarrow> authenticated_event res" where
  "decodeVaultEvent P encoded =
     and_then (decodeCanonicalValue P encoded) (\<lambda>value.
     and_then (exactMap value (num_keys 15) ''Vault Event'') (\<lambda>m.
     and_then (record_header m VAULT_EVENT_KIND ''Vault Record is not an Event'') (\<lambda>_.
     and_then (decode_event_input P m) (\<lambda>input.
     and_then (assertEventInput P input) (\<lambda>_.
     and_then (with_field m 14 (\<lambda>v. record_bytes v 64 ''Event signature'')) (\<lambda>signature.
     and_then (vaultRecordId P encoded) (\<lambda>recordId.
       ok (vault_event_input.extend input
         \<lparr>ev_signature = signature, ev_bytes = encoded, ev_recordId = recordId\<rparr>))))))))"

section \<open>Signatures\<close>

definition signature_message :: "platform \<Rightarrow> 'c vault_event_input_scheme \<Rightarrow> bytes res" where
  "signature_message P input =
     and_then (encodeUnsignedVaultEvent P input) (\<lambda>b. transcript ''awsm:vault-event-signature:v1'' [b])"

definition signVaultEvent :: "platform \<Rightarrow> vault_event_input \<Rightarrow> bytes \<Rightarrow> authenticated_event res" where
  "signVaultEvent P input secretKey =
     (if length secretKey \<noteq> 64 then throw (TypeError ''Ed25519 secret key must contain 64 bytes'')
      else and_then (unsignedEventValue P input) (\<lambda>unsigned.
           and_then (encodeCanonicalValue P (CMap unsigned)) (\<lambda>b.
           and_then (transcript ''awsm:vault-event-signature:v1'' [b]) (\<lambda>message.
           let signature = sign_detached P message secretKey;
               authenticated = mapSet unsigned (KNum 14) (CBytes signature) in
           and_then (encodeCanonicalValue P (CMap authenticated)) (decodeVaultEvent P)))))"

definition verifyVaultEventSignature :: "platform \<Rightarrow> authenticated_event \<Rightarrow> bytes \<Rightarrow> bool res" where
  "verifyVaultEventSignature P event publicKey =
     (if length publicKey \<noteq> 32 \<or> length (ev_signature event) \<noteq> 64 then ok False
      else and_then (signature_message P event) (\<lambda>message.
             ok (verify_detached P (ev_signature event) message publicKey)))"

section \<open>Baselines\<close>

definition assertBaselineInput :: "platform \<Rightarrow> 'c vault_baseline_input_scheme \<Rightarrow> unit res" where
  "assertBaselineInput P input =
     and_then (assert_extensions P (bl_extensions input)) (\<lambda>_.
       validateVaultBaselineBody P (bl_body input) (bl_dependencies input))"

definition no_parents :: "platform \<Rightarrow> cmap \<Rightarrow> int \<Rightarrow> string \<Rightarrow> unit res" where
  "no_parents P m k message =
     and_then (with_field m k (idSet P)) (\<lambda>ids. guard_not (length ids \<noteq> 0) (TypeError message))"

definition decodeVaultBaseline :: "platform \<Rightarrow> bytes \<Rightarrow> vault_baseline res" where
  "decodeVaultBaseline P encoded =
     and_then (decodeCanonicalValue P encoded) (\<lambda>value.
     and_then (exactMap value (num_keys 10) ''Vault Baseline'') (\<lambda>m.
     and_then (record_header m VAULT_BASELINE_KIND ''Vault Record is not a Baseline'') (\<lambda>_.
     and_then (no_parents P m 3 ''A Vault Baseline cannot have causal parents'') (\<lambda>_.
     and_then (no_parents P m 4 ''A Vault Baseline cannot have Authority Parents'') (\<lambda>_.
     and_then (with_field m 1 (\<lambda>v. record_id v VaultId ''Vault ID'')) (\<lambda>vaultId.
     and_then (with_field m 2 (\<lambda>v. record_id v GenerationId ''Generation ID'')) (\<lambda>generationId.
     and_then (with_field m 5 (dependencies_of P)) (\<lambda>deps.
     and_then (with_field m 7 (\<lambda>v. record_id v RequiredFeatureSetId ''Required Feature Set ID'')) (\<lambda>featureSetId.
     and_then (with_field m 8 (extensions_of P)) (\<lambda>exts.
     and_then (mapValue m 9) (\<lambda>body.
     let input = \<lparr>bl_vaultId = vaultId, bl_generationId = generationId, bl_dependencies = deps,
           bl_requiredFeatureSetId = featureSetId, bl_extensions = exts, bl_body = body\<rparr> in
     and_then (assertBaselineInput P input) (\<lambda>_.
     and_then (vaultRecordId P encoded) (\<lambda>recordId.
       ok (vault_baseline_input.extend input \<lparr>bl_bytes = encoded, bl_recordId = recordId\<rparr>))))))))))))))"

definition encodeVaultBaseline :: "platform \<Rightarrow> vault_baseline_input \<Rightarrow> vault_baseline res" where
  "encodeVaultBaseline P input =
     and_then (assertBaselineInput P input) (\<lambda>_.
     and_then (dependencySet P (bl_dependencies input)) (\<lambda>deps.
     and_then (canonicalMap
         [(0, CNum VAULT_RECORD_FORMAT), (1, CBytes (bl_vaultId input)), (2, CBytes (bl_generationId input)),
          (3, CArray []), (4, CArray []), (5, CArray deps), (6, CNum VAULT_BASELINE_KIND),
          (7, CBytes (bl_requiredFeatureSetId input)), (8, extension_map (bl_extensions input)),
          (9, bl_body input)]) (\<lambda>m.
     and_then (encodeCanonicalValue P (CMap m)) (decodeVaultBaseline P))))"

definition authenticatedEventBytesEqual :: "authenticated_event \<Rightarrow> authenticated_event \<Rightarrow> bool" where
  "authenticatedEventBytesEqual left right = bytesEqual (ev_bytes left) (ev_bytes right)"

section \<open>The encoder as a function of keys and encoded values\<close>

text \<open>
  Deterministic encoding sorts the entries of a map, so the encoding of a map with numeric keys
  depends only on which key has which encoded value.
\<close>

definition encoded_pairs :: "platform \<Rightarrow> cmap \<Rightarrow> (ckey \<times> bytes) list" where
  "encoded_pairs P m = map (\<lambda>e. (fst e, cbor_encode P (snd e))) m"

definition numeric_keys :: "cmap \<Rightarrow> bool" where
  "numeric_keys m \<longleftrightarrow> (\<forall>k \<in> set (mapKeys m). canonical_key k \<and> (\<exists>n. k = KNum n))"

locale record_codec = array_codec +
  assumes map_order:
    "numeric_keys m \<Longrightarrow> distinct (mapKeys m) \<Longrightarrow> mset (encoded_pairs P m) = mset (encoded_pairs P m') \<Longrightarrow>
     cbor_encode P (CMap m) = cbor_encode P (CMap m')"

lemma numeric_key_inj:
  assumes "numeric_keys m" "k \<in> set (mapKeys m)" "l \<in> set (mapKeys m)" "cbor_key k = cbor_key l"
  shows "k = l"
proof -
  have "canonical_key k" "canonical_key l" "\<exists>n. k = KNum n" "\<exists>n. l = KNum n"
    using assms(1-3) unfolding numeric_keys_def by blast+
  then show ?thesis using cbor_key_inj[of k l] assms(4) by auto
qed

interpretation ref_record: record_codec ref_platform
proof (unfold_locales, goal_cases)
  case (1 m m')
  let ?c = "\<lambda>p. (cbor_key (fst p), snd p)"
  let ?L = "\<lambda>m. map ?c (encoded_pairs ref_platform m)"
  have L: "map (\<lambda>e. (cbor_key (fst e), cbor_reference (snd e))) n = ?L n" for n
    by (simp add: encoded_pairs_def)
  have ms: "mset (?L m) = mset (?L m')" unfolding mset_map 1(3) ..
  have len: "length m = length m'" using mset_eq_length[OF 1(3)] by (simp add: encoded_pairs_def)
  have inj: "inj_on fst (set (?L m))"
  proof (rule inj_onI)
    fix p q assume p: "p \<in> set (?L m)" and q: "q \<in> set (?L m)" and eq: "fst p = fst q"
    obtain e where e: "e \<in> set m" "p = (cbor_key (fst e), cbor_reference (snd e))"
      using p by (auto simp: encoded_pairs_def)
    obtain f where f: "f \<in> set m" "q = (cbor_key (fst f), cbor_reference (snd f))"
      using q by (auto simp: encoded_pairs_def)
    have "fst e = fst f" using numeric_key_inj[OF 1(1)] e f eq by simp
    then have "e = f" using e(1) f(1) 1(2) unfolding distinct_map by (blast dest: inj_onD)
    then show "p = q" using e(2) f(2) by simp
  qed
  have "sort_by (\<lambda>l r. compareBytes (fst l) (fst r)) (?L m) = sort_by (\<lambda>l r. compareBytes (fst l) (fst r)) (?L m')"
    by (rule comparator_order.sort_by_permutation[OF compareBytes_on ms inj]) simp
  then show ?case unfolding ref_platform_simps cbor_reference.simps L len by (rule arg_cong)
qed

lemma exact_pairs:
  assumes "length m = length ks" "\<forall>k \<in> set ks. mapHas m k" "distinct ks"
  shows "distinct (mapKeys m)"
    and "mset (encoded_pairs P m) = mset (map (\<lambda>k. (k, cbor_encode P (the (mapGet m k)))) ks)"
proof -
  have sub: "set ks \<subseteq> set (mapKeys m)" using assms(2) by (auto simp: mapHas_def)
  have "card (set (mapKeys m)) \<ge> length (mapKeys m)"
    using card_mono[OF _ sub] assms(1,3) by (simp add: distinct_card)
  then show d: "distinct (mapKeys m)" by (metis card_distinct card_length le_antisym)
  have ks: "set (mapKeys m) = set ks"
    using sub d assms(1,3) by (metis List.finite_set card_subset_eq distinct_card length_map)
  have k: "mset (mapKeys m) = mset ks" by (rule iffD1[OF set_eq_iff_mset_eq_distinct[OF d assms(3)] ks])
  let ?g = "\<lambda>k. (k, cbor_encode P (the (mapGet m k)))"
  have "encoded_pairs P m = map ?g (mapKeys m)" using d by (auto simp: encoded_pairs_def)
  then have "mset (encoded_pairs P m) = image_mset ?g (mset (mapKeys m))" by (simp only: mset_map)
  also have "\<dots> = mset (map ?g ks)" unfolding k by simp
  finally show "mset (encoded_pairs P m) = mset (map ?g ks)" .
qed

section \<open>When the decoders return\<close>

lemma record_bytes_ok [schema_ok]:
  "record_bytes value len field = ok b \<longleftrightarrow> value = CBytes b \<and> length b = len"
  by (cases "value") (auto simp: record_bytes_def)

lemma record_id_ok [schema_ok]:
  "record_id value kind field = ok b \<longleftrightarrow> value = CBytes b \<and> valid_id kind b"
  by (auto simp: record_id_def and_then_eq_Inr schema_ok valid_id_def)

lemma signedInteger_value: "signedInteger v field = ok n \<Longrightarrow> integer_value n = v"
  by (auto simp: signedInteger_def split: cvalue.splits if_splits)

lemma traverse_record_ids:
  "traverse (\<lambda>e. record_id e kind f) vs = ok ids \<longleftrightarrow> vs = map CBytes ids \<and> list_all (valid_id kind) ids"
proof (induction vs arbitrary: ids)
  case (Cons v vs)
  show ?case by (cases ids) (auto simp: and_then_eq_Inr schema_ok Cons.IH)
qed auto

lemma dependency_entry_valid: "dependency_entry e = ok d \<Longrightarrow> valid_dependency d"
  by (auto simp: dependency_entry_def and_then_eq_Inr schema_ok valid_dependency_def)

lemma dependencies_of_ok:
  assumes "dependencies_of P v = ok ds"
  obtains vs ws where "v = CArray vs" "traverse dependency_entry vs = ok ds" "dependencySet P ds = ok ws"
    "cbor_encode P (CArray ws) = cbor_encode P v"
  using assms
  by (auto simp: dependencies_of_def and_then_eq_Inr encodeCanonicalValue_ok split: cvalue.splits if_splits)

lemma add_extension_ok:
  "add_extension (m, n) (k, v) = ok st \<Longrightarrow>
     st = (m @ [(KText k, CBytes v)], n + length v)"
  by (auto simp: add_extension_def Let_def and_then_eq_Inr mapSet_fresh)

lemma add_extensions_ok:
  assumes "foldM add_extension (m, n) es = ok (m', n')"
  shows "m' = m @ map (\<lambda>(k, v). (KText k, CBytes v)) es"
  using assms
proof (induction es arbitrary: m n)
  case (Cons e es)
  obtain k v where e: "e = (k, v)" by fastforce
  have "foldM add_extension (m @ [(KText k, CBytes v)], n + length v) es = ok (m', n')"
    using Cons.prems add_extension_ok[of m n k v] by (auto simp: e and_then_eq_Inr)
  then have "m' = (m @ [(KText k, CBytes v)]) @ map (\<lambda>(k, v). (KText k, CBytes v)) es" by (rule Cons.IH)
  then show ?case by (simp add: e)
qed simp

lemma advisoryExtensions_ok:
  "advisoryExtensions P es = ok m \<Longrightarrow> m = map (\<lambda>(k, v). (KText k, CBytes v)) es"
  using add_extensions_ok[of "[]" 0 es] by (auto simp: advisoryExtensions_def and_then_eq_Inr split: if_splits)

lemma traverse_extensions:
  "traverse extension_pair m = ok es \<Longrightarrow> m = map (\<lambda>(k, v). (KText k, CBytes v)) es"
proof (induction m arbitrary: es)
  case (Cons e m)
  have "extension_pair e = ok p \<Longrightarrow> e = (KText (fst p), CBytes (snd p))" for p
    by (auto simp: extension_pair_def split: prod.splits ckey.splits cvalue.splits)
  with Cons show ?case by (fastforce simp: and_then_eq_Inr)
qed simp

lemma extensions_of_ok: "extensions_of P v = ok exts \<Longrightarrow> extension_map exts = v"
proof -
  assume "extensions_of P v = ok exts"
  then obtain m es m' where v: "v = CMap m" "traverse extension_pair m = ok es" "advisoryExtensions P es = ok m'"
      "exts = map (\<lambda>(k, v). (key_text k, v)) m'"
    by (auto simp: extensions_of_def and_then_eq_Inr split: cvalue.splits)
  have "m = map (\<lambda>(k, v). (KText k, CBytes v)) es" using v(2) by (rule traverse_extensions)
  moreover have "m' = map (\<lambda>(k, v). (KText k, CBytes v)) es" using v(3) by (rule advisoryExtensions_ok)
  ultimately show ?thesis using v(1,4) by (auto simp: extension_map_def)
qed

context array_codec
begin

lemma idSet_exact:
  "idSet P v = ok ids \<longleftrightarrow> v = CArray (map CBytes ids) \<and> list_all (valid_id VaultRecordId) ids \<and> id_order P ids"
  (is "_ \<longleftrightarrow> ?r")
proof -
  have "idSet P v = ok ids \<longleftrightarrow> v = CArray (map CBytes ids) \<and> list_all (valid_id VaultRecordId) ids \<and>
      (\<exists>ws. canonicalSet P (map CBytes ids) = ok ws \<and>
        cbor_encode P (CArray (map CBytes ids)) = cbor_encode P (CArray ws))" (is "?l \<longleftrightarrow> ?m")
  proof
    assume ?l
    then show ?m
      by (cases v) (auto simp: idSet_def and_then_eq_Inr traverse_record_ids encodeCanonicalValue_ok split: if_splits)
  next
    assume ?m
    then obtain ws where w: "v = CArray (map CBytes ids)" "list_all (valid_id VaultRecordId) ids"
        "canonicalSet P (map CBytes ids) = ok ws"
        "cbor_encode P (CArray (map CBytes ids)) = cbor_encode P (CArray ws)" by blast
    have "traverse (\<lambda>e. record_id e VaultRecordId ''VaultRecord ID'') (map CBytes ids) = ok ids"
      using w(2) by (simp only: traverse_record_ids simp_thms)
    moreover have "encodeCanonicalValue P (CArray ws) = ok (cbor_encode P (CArray ws))"
      "encodeCanonicalValue P (CArray (map CBytes ids)) = ok (cbor_encode P (CArray ws))"
      using w(3,4) by (auto simp: encodeCanonicalValue_ok canonicalSet_ok list_all_iff)
    ultimately show ?l using w(1,3) by (simp add: idSet_def)
  qed
  then show ?thesis unfolding canonicalSet_fixpoint_iff .
qed

lemma canonicalSet_ordered: "id_order P ids \<Longrightarrow> canonicalSet P (map CBytes ids) = ok (map CBytes ids)"
  using canonicalSet_fixpoint_iff[of ids] canonicalSet_bytes_fixpoint by blast

end

section \<open>Validation depends on the fields of the input only\<close>

lemma validateAuthorityEventBody_context:
  assumes "cx_vaultId c = cx_vaultId d" "cx_requiredFeatureSetId c = cx_requiredFeatureSetId d"
    "cx_authorityParentRecordIds c = cx_authorityParentRecordIds d"
  shows "validateAuthorityEventBody P type value c = validateAuthorityEventBody P type value d"
  by (simp only: validateAuthorityEventBody_def authority_body_def genesis_body_def invitation_body_def
      acceptance_body_def acceptance_agrees_def enrollment_body_def enrollmentProposal_def activation_body_def assms)

lemma validateEventBodyAndDependencies_context:
  assumes "cx_vaultId c = cx_vaultId d" "cx_requiredFeatureSetId c = cx_requiredFeatureSetId d"
    "cx_authorityParentRecordIds c = cx_authorityParentRecordIds d" "cx_generationId c = cx_generationId d"
    "cx_parentRecordIds c = cx_parentRecordIds d"
  shows "validateEventBodyAndDependencies P family type body deps c =
    validateEventBodyAndDependencies P family type body deps d"
  by (simp only: validateEventBodyAndDependencies_def expected_dependencies_def validateLifecycleEventBody_def
      vacuum_body_def assms validateAuthorityEventBody_context[OF assms(1-3)])

lemma extend_fields:
  "cx_vaultId (vault_event_input.extend input x) = cx_vaultId input"
  "cx_requiredFeatureSetId (vault_event_input.extend input x) = cx_requiredFeatureSetId input"
  "cx_authorityParentRecordIds (vault_event_input.extend input x) = cx_authorityParentRecordIds input"
  "cx_generationId (vault_event_input.extend input x) = cx_generationId input"
  "cx_parentRecordIds (vault_event_input.extend input x) = cx_parentRecordIds input"
  "ev_dependencies (vault_event_input.extend input x) = ev_dependencies input"
  "ev_extensions (vault_event_input.extend input x) = ev_extensions input"
  "ev_family (vault_event_input.extend input x) = ev_family input"
  "ev_type (vault_event_input.extend input x) = ev_type input"
  "ev_signerCredentialId (vault_event_input.extend input x) = ev_signerCredentialId input"
  "ev_assertedAt (vault_event_input.extend input x) = ev_assertedAt input"
  "ev_body (vault_event_input.extend input x) = ev_body input"
  by (simp_all add: vault_event_input.defs)

lemma assertEventInput_extend:
  "assertEventInput P (vault_event_input.extend input x) = assertEventInput P input"
  unfolding assertEventInput_def extend_fields
  unfolding validateEventBodyAndDependencies_context[OF extend_fields(1-5)] ..

text \<open>The fourteen unsigned fields of an Event.\<close>

definition unsigned_fields ::
  "'c vault_event_input_scheme \<Rightarrow> cvalue list \<Rightarrow> cvalue list \<Rightarrow> cvalue list \<Rightarrow> cvalue list" where
  "unsigned_fields e ps aps ds =
     [CNum VAULT_RECORD_FORMAT, CBytes (cx_vaultId e), CBytes (cx_generationId e), CArray ps,
      CArray aps, CArray ds, CNum VAULT_EVENT_KIND, CBytes (cx_requiredFeatureSetId e),
      extension_map (ev_extensions e), CNum (ev_family e), CNum (ev_type e),
      CBytes (ev_signerCredentialId e), integer_value (ev_assertedAt e), ev_body e]"

lemma num_keys_14: "num_keys 14 = map KNum [0, 1, 2, 3, 4, 5, 6, 7, 8, 9, 10, 11, 12, 13]"
  and num_keys_15: "num_keys 15 = num_keys 14 @ [KNum 14]"
  by (simp_all add: num_keys_def upt_rec)

lemma unsignedEventValue_ok:
  "unsignedEventValue P e = ok m \<longleftrightarrow> assertEventInput P e = ok () \<and>
     (\<exists>ps aps ds. canonicalSet P (map CBytes (cx_parentRecordIds e)) = ok ps \<and>
        canonicalSet P (map CBytes (cx_authorityParentRecordIds e)) = ok aps \<and>
        dependencySet P (ev_dependencies e) = ok ds \<and> m = zip (num_keys 14) (unsigned_fields e ps aps ds))"
  by (auto simp: unsignedEventValue_def and_then_eq_Inr canonicalMap_ok isSafeInteger_def num_keys_14
      unsigned_fields_def)

lemma unsigned_keys:
  assumes "unsignedEventValue P e = ok m"
  shows "mapKeys m = num_keys 14" "mapSet m (KNum 14) v = m @ [(KNum 14, v)]"
proof -
  obtain ps aps ds where m: "m = zip (num_keys 14) (unsigned_fields e ps aps ds)"
    using assms by (auto simp: unsignedEventValue_ok)
  have "length (unsigned_fields e ps aps ds) = 14" "length (num_keys 14) = 14"
    by (simp_all add: unsigned_fields_def num_keys_def)
  then show k: "mapKeys m = num_keys 14" unfolding m by (simp only: map_fst_zip)
  have "\<not> mapHas m (KNum 14)" unfolding mapHas_def k by (simp add: num_keys_14)
  then show "mapSet m (KNum 14) v = m @ [(KNum 14, v)]" by (rule mapSet_fresh)
qed

lemma assertEventInput_safe:
  assumes "assertEventInput P x = ok ()"
  shows "isSafeInteger (ev_type x)" "isSafeInteger (ev_family x)"
  using assms by (auto simp: assertEventInput_def Let_def and_then_eq_Inr TYPE_LIMITS_def isSafeInteger_def
      split: option.splits if_splits)

lemma unsigned_values:
  assumes "unsignedEventValue P e = ok u"
  shows "assertEventInput P e = ok () \<and>
    (\<exists>ps aps ds. canonicalSet P (map CBytes (cx_parentRecordIds e)) = ok ps \<and>
       canonicalSet P (map CBytes (cx_authorityParentRecordIds e)) = ok aps \<and>
       dependencySet P (ev_dependencies e) = ok ds \<and> mapValues u = unsigned_fields e ps aps ds)"
proof -
  have "mapValues (zip (num_keys 14) (unsigned_fields e a b c)) = unsigned_fields e a b c" for a b c
    by (rule map_snd_zip) (simp add: unsigned_fields_def num_keys_def)
  then show ?thesis using assms unfolding unsignedEventValue_ok by metis
qed

lemma event_keys:
  assumes "mapKeys m = num_keys n" "n \<le> 15"
  shows "numeric_keys m" "distinct (mapKeys m)"
  using assms by (auto simp: numeric_keys_def num_keys_def distinct_map inj_on_def)

section \<open>Decoded Events\<close>

text \<open>A map holds the fields of an Event: what the decoder reads from it.\<close>

definition holds_event :: "platform \<Rightarrow> cmap \<Rightarrow> 'c vault_event_input_scheme \<Rightarrow> bool" where
  "holds_event P m e \<longleftrightarrow>
     mapGet m (KNum 1) = Some (CBytes (cx_vaultId e)) \<and> mapGet m (KNum 2) = Some (CBytes (cx_generationId e)) \<and>
     (\<exists>v. mapGet m (KNum 3) = Some v \<and> idSet P v = ok (cx_parentRecordIds e)) \<and>
     (\<exists>v. mapGet m (KNum 4) = Some v \<and> idSet P v = ok (cx_authorityParentRecordIds e)) \<and>
     (\<exists>v. mapGet m (KNum 5) = Some v \<and> dependencies_of P v = ok (ev_dependencies e)) \<and>
     mapGet m (KNum 7) = Some (CBytes (cx_requiredFeatureSetId e)) \<and>
     mapGet m (KNum 8) = Some (extension_map (ev_extensions e)) \<and>
     mapGet m (KNum 9) = Some (CNum (ev_family e)) \<and> mapGet m (KNum 10) = Some (CNum (ev_type e)) \<and>
     mapGet m (KNum 11) = Some (CBytes (ev_signerCredentialId e)) \<and>
     mapGet m (KNum 12) = Some (integer_value (ev_assertedAt e)) \<and> mapGet m (KNum 13) = Some (ev_body e)"

lemma decode_event_input_holds: "decode_event_input P m = ok input \<Longrightarrow> holds_event P m input"
  by (clarsimp simp: decode_event_input_def and_then_eq_Inr with_field_ok mapValue_ok record_id_ok integer_ok
      holds_event_def) (auto dest: extensions_of_ok signedInteger_value)

lemma holds_event_extend: "holds_event P m (vault_event_input.extend input x) = holds_event P m input"
  unfolding holds_event_def extend_fields ..

lemma decodeVaultEvent_ok:
  assumes "decodeVaultEvent P b = ok e"
  obtains m where "canonical P (CMap m)" "cbor_encode P (CMap m) = b" "length m = 15"
    "\<forall>k \<in> set (num_keys 15). mapHas m k" "mapGet m (KNum 0) = Some (CNum VAULT_RECORD_FORMAT)"
    "mapGet m (KNum 6) = Some (CNum VAULT_EVENT_KIND)" "holds_event P m e" "assertEventInput P e = ok ()"
    "mapGet m (KNum 14) = Some (CBytes (ev_signature e))" "length (ev_signature e) = 64"
    "ev_bytes e = b" "vaultRecordId P b = ok (ev_recordId e)"
proof -
  obtain m input signature rid where m: "decodeCanonicalValue P b = ok (CMap m)" "length m = 15"
      "\<forall>k \<in> set (num_keys 15). mapHas m k"
    and h: "record_header m VAULT_EVENT_KIND ''Vault Record is not an Event'' = ok ()"
    and i: "decode_event_input P m = ok input" "assertEventInput P input = ok ()"
    and s: "mapGet m (KNum 14) = Some (CBytes signature)" "length signature = 64" "vaultRecordId P b = ok rid"
    and e: "e = vault_event_input.extend input \<lparr>ev_signature = signature, ev_bytes = b, ev_recordId = rid\<rparr>"
    using assms
    by (auto simp: decodeVaultEvent_def and_then_eq_Inr exactMap_ok with_field_ok record_bytes_ok num_keys_def)
  have x: "ev_signature e = signature" "ev_bytes e = b" "ev_recordId e = rid"
    unfolding e by (simp_all add: vault_event_input.defs)
  have "mapGet m (KNum 0) = Some (CNum VAULT_RECORD_FORMAT)" "mapGet m (KNum 6) = Some (CNum VAULT_EVENT_KIND)"
    using h by (auto simp: record_header_def and_then_eq_Inr with_field_ok integer_ok)
  moreover have "holds_event P m e" "assertEventInput P e = ok ()"
    using decode_event_input_holds[OF i(1)] i(2) unfolding e holds_event_extend assertEventInput_extend by simp_all
  ultimately show ?thesis
    using m s by (intro that[of m]) (simp_all add: x decodeCanonicalValue_ok)
qed

context record_codec
begin

lemma decoded_unsigned:
  assumes "holds_event P m e" "assertEventInput P e = ok ()"
    and "mapGet m (KNum 0) = Some (CNum VAULT_RECORD_FORMAT)" "mapGet m (KNum 6) = Some (CNum VAULT_EVENT_KIND)"
    and "canonical P (CMap m)"
  shows "\<exists>u. unsignedEventValue P e = ok u \<and> canonical P (CMap u) \<and>
    encoded_pairs P u = map (\<lambda>k. (k, cbor_encode P (the (mapGet m k)))) (num_keys 14)"
proof -
  obtain v3 v4 v5 where v: "mapGet m (KNum 3) = Some v3" "idSet P v3 = ok (cx_parentRecordIds e)"
      "mapGet m (KNum 4) = Some v4" "idSet P v4 = ok (cx_authorityParentRecordIds e)"
      "mapGet m (KNum 5) = Some v5" "dependencies_of P v5 = ok (ev_dependencies e)"
    using assms(1) unfolding holds_event_def by blast
  obtain ds where ds: "dependencySet P (ev_dependencies e) = ok ds" "cbor_encode P (CArray ds) = cbor_encode P v5"
    using v(6) by (rule dependencies_of_ok)
  have ids: "v3 = CArray (map CBytes (cx_parentRecordIds e))" "v4 = CArray (map CBytes (cx_authorityParentRecordIds e))"
      "canonicalSet P (map CBytes (cx_parentRecordIds e)) = ok (map CBytes (cx_parentRecordIds e))"
      "canonicalSet P (map CBytes (cx_authorityParentRecordIds e)) = ok (map CBytes (cx_authorityParentRecordIds e))"
    using v(2,4) by (simp_all add: idSet_exact canonicalSet_ordered)
  let ?u = "zip (num_keys 14) (unsigned_fields e (map CBytes (cx_parentRecordIds e))
      (map CBytes (cx_authorityParentRecordIds e)) ds)"
  have "unsignedEventValue P e = ok ?u" using assms(2) ids(3,4) ds(1) by (auto simp: unsignedEventValue_ok)
  moreover have "encoded_pairs P ?u = map (\<lambda>k. (k, cbor_encode P (the (mapGet m k)))) (num_keys 14)"
    using assms(1,3,4) v(1,3,5) ids(1,2) ds(2)
    by (simp add: encoded_pairs_def num_keys_14 unsigned_fields_def holds_event_def)
  moreover have "canonical P (CMap ?u)"
  proof -
    have "canonical P v" if "mapGet m k = Some v" for k v
      using assms(5) map_of_SomeD[OF that] by (auto simp: list_all_iff)
    then have "canonical P (extension_map (ev_extensions e))" "canonical P (CNum (ev_family e))"
      "canonical P (CNum (ev_type e))" "canonical P (integer_value (ev_assertedAt e))" "canonical P (ev_body e)"
      using assms(1) unfolding holds_event_def by blast+
    then show ?thesis
      using dependencySet_canonical[OF ds(1)]
      by (simp add: num_keys_14 unsigned_fields_def list_all_iff VAULT_RECORD_FORMAT_def VAULT_EVENT_KIND_def
          isSafeInteger_def)
  qed
  ultimately show ?thesis by blast
qed

lemma decoded_reencodes:
  assumes "decodeVaultEvent P b = ok e"
  shows "\<exists>u. unsignedEventValue P e = ok u \<and>
    canonical P (CMap (u @ [(KNum 14, CBytes (ev_signature e))])) \<and>
    cbor_encode P (CMap (u @ [(KNum 14, CBytes (ev_signature e))])) = b"
proof -
  obtain m where m: "canonical P (CMap m)" "cbor_encode P (CMap m) = b" "length m = 15"
      "\<forall>k \<in> set (num_keys 15). mapHas m k" "mapGet m (KNum 0) = Some (CNum VAULT_RECORD_FORMAT)"
      "mapGet m (KNum 6) = Some (CNum VAULT_EVENT_KIND)" "holds_event P m e" "assertEventInput P e = ok ()"
      "mapGet m (KNum 14) = Some (CBytes (ev_signature e))"
    by (rule decodeVaultEvent_ok[OF assms])
  obtain u where u: "unsignedEventValue P e = ok u" "canonical P (CMap u)"
      "encoded_pairs P u = map (\<lambda>k. (k, cbor_encode P (the (mapGet m k)))) (num_keys 14)"
    using decoded_unsigned[OF m(7,8,5,6,1)] by blast
  let ?a = "u @ [(KNum 14, CBytes (ev_signature e))]"
  have k: "mapKeys ?a = num_keys 15" using unsigned_keys(1)[OF u(1)] by (simp add: num_keys_15)
  have "encoded_pairs P ?a = map (\<lambda>k. (k, cbor_encode P (the (mapGet m k)))) (num_keys 15)"
    using u(3) m(9) by (simp add: encoded_pairs_def num_keys_15)
  moreover have "length m = length (num_keys 15)" "distinct (num_keys 15)"
    using m(3) by (simp_all add: num_keys_def distinct_map inj_on_def)
  ultimately have "mset (encoded_pairs P ?a) = mset (encoded_pairs P m)"
    using exact_pairs(2)[of m "num_keys 15" P] m(4) by simp
  then have "cbor_encode P (CMap ?a) = cbor_encode P (CMap m)" using event_keys[OF k] by (intro map_order) simp_all
  then show ?thesis using u(1,2) m(2) by auto
qed

lemma event_field_encodings:
  assumes "unsignedEventValue P e = ok u" "unsignedEventValue P f = ok w"
    and "map (cbor_encode P) (mapValues u) = map (cbor_encode P) (mapValues w)"
  shows "encoded_pairs P u = encoded_pairs P w"
proof -
  have p: "encoded_pairs P x = zip (mapKeys x) (map (cbor_encode P) (mapValues x))" for x
    by (induction x) (auto simp: encoded_pairs_def)
  show ?thesis unfolding p assms(3) unsigned_keys(1)[OF assms(1)] unsigned_keys(1)[OF assms(2)] ..
qed

lemma num_keys_distinct:
  "distinct (map (\<lambda>k. case k of KBigInt n \<Rightarrow> KNum n | _ \<Rightarrow> k) (num_keys n))"
  by (simp add: num_keys_def comp_def distinct_map inj_on_def)

lemma signed_parts:
  assumes "unsignedEventValue P e = ok u" "unsignedEventValue P f = ok w"
    and "canonical P (CMap (u @ [(KNum 14, CBytes s)]))" "canonical P (CMap (w @ [(KNum 14, CBytes t)]))"
    and "cbor_encode P (CMap (u @ [(KNum 14, CBytes s)])) = cbor_encode P (CMap (w @ [(KNum 14, CBytes t)]))"
  shows "cbor_encode P (CMap u) = cbor_encode P (CMap w)" "s = t"
proof -
  note k = unsigned_keys(1)[OF assms(1)] unsigned_keys(1)[OF assms(2)]
  have "map (cbor_encode P) (mapValues (u @ [(KNum 14, CBytes s)])) =
      map (cbor_encode P) (mapValues (w @ [(KNum 14, CBytes t)]))"
    using assms(3-5) num_keys_distinct[of 15] k by (intro map_law) (simp_all add: num_keys_15)
  then have v: "map (cbor_encode P) (mapValues u) = map (cbor_encode P) (mapValues w)"
    "cbor_encode P (CBytes s) = cbor_encode P (CBytes t)" by simp_all
  show "s = t" using v(2) by (rule bytes_law)
  show "cbor_encode P (CMap u) = cbor_encode P (CMap w)"
    using event_field_encodings[OF assms(1,2) v(1)] event_keys[OF k(1)] by (intro map_order) simp_all
qed

lemma signed_event_message:
  assumes "signVaultEvent P input sk = ok e"
  shows "\<exists>message. signature_message P input = ok message \<and> signature_message P e = ok message \<and>
    ev_signature e = sign_detached P message sk"
proof -
  obtain u message where u: "unsignedEventValue P input = ok u" "canonical P (CMap u)"
      "transcript ''awsm:vault-event-signature:v1'' [cbor_encode P (CMap u)] = ok message"
    and a: "canonical P (CMap (mapSet u (KNum 14) (CBytes (sign_detached P message sk))))"
      "decodeVaultEvent P (cbor_encode P (CMap (mapSet u (KNum 14) (CBytes (sign_detached P message sk))))) = ok e"
    using assms by (auto simp: signVaultEvent_def and_then_eq_Inr encodeCanonicalValue_ok Let_def split: if_splits)
  note a' = a[unfolded unsigned_keys(2)[OF u(1)]]
  obtain w where w: "unsignedEventValue P e = ok w" "canonical P (CMap (w @ [(KNum 14, CBytes (ev_signature e))]))"
      "cbor_encode P (CMap (w @ [(KNum 14, CBytes (ev_signature e))])) =
       cbor_encode P (CMap (u @ [(KNum 14, CBytes (sign_detached P message sk))]))"
    using decoded_reencodes[OF a'(2)] by blast
  have same: "cbor_encode P (CMap w) = cbor_encode P (CMap u)" "ev_signature e = sign_detached P message sk"
    using signed_parts[OF w(1) u(1) w(2) a'(1) w(3)] by simp_all
  have "canonical P (CMap w)" using w(2) by simp
  then have "signature_message P e = ok message" "signature_message P input = ok message"
    using u w(1) same(1)
    by (simp_all add: signature_message_def encodeUnsignedVaultEvent_def and_then_eq_Inr encodeCanonicalValue_ok)
  then show ?thesis using same(2) by blast
qed

lemma canonicalSet_bytes_mset:
  assumes "canonicalSet P (map CBytes as) = ok xs" "canonicalSet P (map CBytes bs) = ok ys"
    and "cbor_encode P (CArray xs) = cbor_encode P (CArray ys)"
  shows "mset as = mset bs"
proof -
  have "map (cbor_encode P) xs = map (cbor_encode P) ys"
    using assms by (intro array_law) (auto simp: canonicalSet_ok list_all_iff)
  then have "image_mset (cbor_encode P) (mset xs) = image_mset (cbor_encode P) (mset ys)" by (metis mset_map)
  then have "image_mset (\<lambda>b. cbor_encode P (CBytes b)) (mset as) = image_mset (\<lambda>b. cbor_encode P (CBytes b)) (mset bs)"
    using canonicalSet_strict(2)[OF assms(1)] canonicalSet_strict(2)[OF assms(2)]
    by (simp add: image_mset.compositionality comp_def)
  then show ?thesis by (rule injD[OF multiset.inj_map[OF bytes_encode_inj]])
qed

lemma signature_message_fields:
  assumes "signature_message P e = ok message" "signature_message P f = ok message"
  obtains ps aps ds qs bps es where
    "canonicalSet P (map CBytes (cx_parentRecordIds e)) = ok ps"
    "canonicalSet P (map CBytes (cx_authorityParentRecordIds e)) = ok aps"
    "dependencySet P (ev_dependencies e) = ok ds"
    "canonicalSet P (map CBytes (cx_parentRecordIds f)) = ok qs"
    "canonicalSet P (map CBytes (cx_authorityParentRecordIds f)) = ok bps"
    "dependencySet P (ev_dependencies f) = ok es"
    "assertEventInput P e = ok ()" "assertEventInput P f = ok ()"
    "map (cbor_encode P) (unsigned_fields e ps aps ds) = map (cbor_encode P) (unsigned_fields f qs bps es)"
proof -
  obtain u w where u: "unsignedEventValue P e = ok u" "canonical P (CMap u)"
      "transcript ''awsm:vault-event-signature:v1'' [cbor_encode P (CMap u)] = ok message"
    and w: "unsignedEventValue P f = ok w" "canonical P (CMap w)"
      "transcript ''awsm:vault-event-signature:v1'' [cbor_encode P (CMap w)] = ok message"
    using assms
    by (auto simp: signature_message_def encodeUnsignedVaultEvent_def and_then_eq_Inr encodeCanonicalValue_ok)
  have "cbor_encode P (CMap u) = cbor_encode P (CMap w)" using transcript_shape_inj[OF u(3) w(3)] by simp
  then have v: "map (cbor_encode P) (mapValues u) = map (cbor_encode P) (mapValues w)"
    using u(2) w(2) unsigned_keys(1)[OF u(1)] unsigned_keys(1)[OF w(1)] num_keys_distinct[of 14]
    by (intro map_law) simp_all
  show ?thesis
    using unsigned_values[OF u(1)] unsigned_values[OF w(1)] v that by metis
qed

end

section \<open>Properties\<close>

text \<open>
  C25. Decoding a Vault Event loses nothing: the unsigned value recomputed from the decoded Event
  together with its signature encodes to exactly the bytes that were decoded, and the Record ID is
  the digest of those bytes.
\<close>

theorem decoded_event_reencodes:
  assumes "record_codec P" and "decodeVaultEvent P b = ok e"
  shows "\<exists>u. unsignedEventValue P e = ok u \<and>
     encodeCanonicalValue P (CMap (mapSet u (KNum 14) (CBytes (ev_signature e)))) = ok b \<and>
     ev_bytes e = b \<and> vaultRecordId P b = ok (ev_recordId e)"
proof -
  obtain u where u: "unsignedEventValue P e = ok u"
      "canonical P (CMap (u @ [(KNum 14, CBytes (ev_signature e))]))"
      "cbor_encode P (CMap (u @ [(KNum 14, CBytes (ev_signature e))])) = b"
    using record_codec.decoded_reencodes[OF assms] by blast
  moreover have "ev_bytes e = b \<and> vaultRecordId P b = ok (ev_recordId e)"
    using assms(2) by (blast elim: decodeVaultEvent_ok)
  ultimately show ?thesis using unsigned_keys(2)[OF u(1)] by (simp add: encodeCanonicalValue_ok)
qed

text \<open>
  C26. Every decoded Vault Event is well formed: its family and type are known, exactly the Genesis
  has empty frontiers, both frontiers are strictly ordered sets, and its dependencies are, without
  repetition, exactly those its body requires.
\<close>

theorem decoded_event_wellformed:
  assumes "array_codec P" and "decodeVaultEvent P b = ok e"
  shows "(\<exists>n. TYPE_LIMITS (ev_family e) = Some n \<and> 1 \<le> ev_type e \<and> ev_type e \<le> n) \<and>
     (ev_family e = 1 \<and> ev_type e = 1 \<longleftrightarrow> cx_parentRecordIds e = []) \<and>
     (ev_family e = 1 \<and> ev_type e = 1 \<longleftrightarrow> cx_authorityParentRecordIds e = []) \<and>
     id_order P (cx_parentRecordIds e) \<and> id_order P (cx_authorityParentRecordIds e) \<and>
     (\<exists>m. ev_body e = CMap m \<and>
        mset (ev_dependencies e) = mset (required_objects P (ev_family e) (ev_type e) m)) \<and>
     distinct (ev_dependencies e)"
proof -
  obtain m where h: "holds_event P m e" and a: "assertEventInput P e = ok ()"
    by (rule decodeVaultEvent_ok[OF assms(2)])
  have o: "id_order P (cx_parentRecordIds e)" "id_order P (cx_authorityParentRecordIds e)"
    using h by (auto simp: holds_event_def array_codec.idSet_exact[OF assms(1)])
  have c: "\<exists>n. TYPE_LIMITS (ev_family e) = Some n \<and> 1 \<le> ev_type e \<and> ev_type e \<le> n"
      "ev_family e = 1 \<and> ev_type e = 1 \<longleftrightarrow> cx_parentRecordIds e = []"
      "ev_family e = 1 \<and> ev_type e = 1 \<longleftrightarrow> cx_authorityParentRecordIds e = []"
    and v: "validateEventBodyAndDependencies P (ev_family e) (ev_type e) (ev_body e) (ev_dependencies e) e = ok ()"
    using a by (auto simp: assertEventInput_def Let_def and_then_eq_Inr split: option.splits)
  obtain expected where x: "expected_dependencies P (ev_family e) (ev_type e) (ev_body e) e = ok expected"
      "distinct (ev_dependencies e)" "mset (ev_dependencies e) = mset expected"
    using v unfolding array_codec.validateEventBodyAndDependencies_iff[OF assms(1)] by blast
  then show ?thesis using c o expected_dependencies_required[OF x(1)] by auto
qed

text \<open>
  What is signed is what is verified: an Event that \<open>signVaultEvent\<close> returns passes
  \<open>verifyVaultEventSignature\<close> under every public key whose signatures by the secret key verify,
  although the verifier recomputes the message from the decoded Event.
\<close>

theorem signed_event_verifies:
  assumes "record_codec P" and "signVaultEvent P input sk = ok e" and "length pk = 32"
    and sodium: "\<And>message. verify_detached P (sign_detached P message sk) message pk"
  shows "verifyVaultEventSignature P e pk = ok True"
proof -
  obtain message where m: "signature_message P e = ok message" "ev_signature e = sign_detached P message sk"
    using record_codec.signed_event_message[OF assms(1,2)] by blast
  obtain b where "decodeVaultEvent P b = ok e"
    using assms(2) by (auto simp: signVaultEvent_def and_then_eq_Inr Let_def split: if_splits)
  then have "length (ev_signature e) = 64" by (rule decodeVaultEvent_ok)
  then show ?thesis using m assms(3) sodium by (simp add: verifyVaultEventSignature_def)
qed

text \<open>
  C28. A signature cannot be moved to another Event: two Events with the same signed message agree on
  the Vault, the Generation, both frontiers, the dependencies, the feature set, the family and type,
  the signer, and on the encodings of their extensions, time and body.
\<close>

theorem signature_binds_event:
  assumes "record_codec P" and "signature_message P e = ok message" and "signature_message P f = ok message"
  shows "cx_vaultId e = cx_vaultId f \<and> cx_generationId e = cx_generationId f \<and>
     mset (cx_parentRecordIds e) = mset (cx_parentRecordIds f) \<and>
     mset (cx_authorityParentRecordIds e) = mset (cx_authorityParentRecordIds f) \<and>
     mset (ev_dependencies e) = mset (ev_dependencies f) \<and>
     cx_requiredFeatureSetId e = cx_requiredFeatureSetId f \<and>
     ev_family e = ev_family f \<and> ev_type e = ev_type f \<and> ev_signerCredentialId e = ev_signerCredentialId f \<and>
     cbor_encode P (extension_map (ev_extensions e)) = cbor_encode P (extension_map (ev_extensions f)) \<and>
     cbor_encode P (integer_value (ev_assertedAt e)) = cbor_encode P (integer_value (ev_assertedAt f)) \<and>
     cbor_encode P (ev_body e) = cbor_encode P (ev_body f)"
proof -
  have ac: "array_codec P" using assms(1) by (simp add: record_codec_def)
  obtain ps aps ds qs bps es where s: "canonicalSet P (map CBytes (cx_parentRecordIds e)) = ok ps"
      "canonicalSet P (map CBytes (cx_authorityParentRecordIds e)) = ok aps"
      "dependencySet P (ev_dependencies e) = ok ds"
      "canonicalSet P (map CBytes (cx_parentRecordIds f)) = ok qs"
      "canonicalSet P (map CBytes (cx_authorityParentRecordIds f)) = ok bps"
      "dependencySet P (ev_dependencies f) = ok es"
    and a: "assertEventInput P e = ok ()" "assertEventInput P f = ok ()"
    and v: "map (cbor_encode P) (unsigned_fields e ps aps ds) = map (cbor_encode P) (unsigned_fields f qs bps es)"
    by (rule record_codec.signature_message_fields[OF assms])
  note v = v[unfolded unsigned_fields_def list.map list.inject]
  have "cx_vaultId e = cx_vaultId f" "cx_generationId e = cx_generationId f"
    "cx_requiredFeatureSetId e = cx_requiredFeatureSetId f" "ev_signerCredentialId e = ev_signerCredentialId f"
    by (rule array_codec.bytes_law[OF ac], use v in blast)+
  moreover have "ev_family e = ev_family f" "ev_type e = ev_type f"
    by (rule array_codec.number_law[OF ac assertEventInput_safe(2)[OF a(1)] assertEventInput_safe(2)[OF a(2)]], use v in blast)
      (rule array_codec.number_law[OF ac assertEventInput_safe(1)[OF a(1)] assertEventInput_safe(1)[OF a(2)]], use v in blast)
  moreover have "mset (cx_parentRecordIds e) = mset (cx_parentRecordIds f)"
    by (rule record_codec.canonicalSet_bytes_mset[OF assms(1) s(1,4)]) (use v in blast)
  moreover have "mset (cx_authorityParentRecordIds e) = mset (cx_authorityParentRecordIds f)"
    by (rule record_codec.canonicalSet_bytes_mset[OF assms(1) s(2,5)]) (use v in blast)
  moreover have "mset (ev_dependencies e) = mset (ev_dependencies f)"
    by (rule array_codec.dependencySets_equal[OF ac s(3,6)]) (use v in blast)
  ultimately show ?thesis using v by blast
qed

section \<open>A concrete signed Event\<close>

text \<open>The laws say nothing about the decoder, so they hold for the reference platform with any decoder.\<close>

lemma canonical_decoder: "canonical (P\<lparr>cbor_decode := d\<rparr>) v = canonical P v"
proof (induction v)
  case (CArray vs)
  then show ?case by (simp add: list_all_iff)
next
  case (CMap es)
  then show ?case by (fastforce simp: list_all_iff)
qed simp_all

lemma ref_decoder_codec: "record_codec (ref_platform\<lparr>cbor_decode := d\<rparr>)"
proof -
  let ?P = "ref_platform\<lparr>cbor_decode := d\<rparr>"
  have c: "canonical ?P = canonical ref_platform" by (simp add: fun_eq_iff canonical_decoder)
  have p: "encoded_pairs ?P = encoded_pairs ref_platform" by (simp add: fun_eq_iff encoded_pairs_def)
  have e: "cbor_encode ?P = cbor_encode ref_platform" and n: "nfc ?P = nfc ref_platform" by simp_all
  show ?thesis
    using ref_record.record_codec_axioms
    unfolding record_codec_def record_codec_axioms_def array_codec_def c p e n .
qed

definition demo_event :: vault_event_input where
  "demo_event =
     \<lparr>cx_vaultId = replicate 32 9, cx_requiredFeatureSetId = replicate 32 8,
      cx_authorityParentRecordIds = [replicate 32 7], cx_generationId = replicate 32 6,
      cx_parentRecordIds = [replicate 32 5], ev_dependencies = [], ev_extensions = [], ev_family = 2,
      ev_type = 22, ev_signerCredentialId = replicate 32 1, ev_assertedAt = JNumber 0,
      ev_body = CMap [(KNum 0, CBytes (replicate 32 2))]\<rparr>"

definition demo_signed :: cvalue where
  "demo_signed =
     (case unsignedEventValue ref_platform demo_event of
        Inl _ \<Rightarrow> CNull
      | Inr u \<Rightarrow>
          (case transcript ''awsm:vault-event-signature:v1'' [cbor_reference (CMap u)] of
             Inl _ \<Rightarrow> CNull
           | Inr message \<Rightarrow> CMap (mapSet u (KNum 14) (CBytes (sign_detached ref_platform message [])))))"

definition demo_platform :: platform where
  "demo_platform = ref_platform\<lparr>cbor_decode :=
     (\<lambda>bs. if bs = cbor_reference demo_signed then Inr demo_signed else Inl ''unsupported'')\<rparr>"

lemma demo_platform_codec: "record_codec demo_platform" "array_codec demo_platform"
  using ref_decoder_codec by (simp_all add: demo_platform_def record_codec_def)

lemma demo_decodes: "\<exists>e. decodeVaultEvent demo_platform (cbor_reference demo_signed) = ok e"
proof -
  have "\<not> isl (decodeVaultEvent demo_platform (cbor_reference demo_signed))" by code_simp
  then show ?thesis by (cases "decodeVaultEvent demo_platform (cbor_reference demo_signed)") auto
qed

theorem decoded_event_reencodes_witness:
  "\<exists>e u. decodeVaultEvent demo_platform (cbor_reference demo_signed) = ok e \<and>
     unsignedEventValue demo_platform e = ok u"
proof -
  obtain e where e: "decodeVaultEvent demo_platform (cbor_reference demo_signed) = ok e"
    using demo_decodes by blast
  from decoded_event_reencodes[OF demo_platform_codec(1) e] e show ?thesis by blast
qed

theorem decoded_event_wellformed_witness:
  "\<exists>e. decodeVaultEvent demo_platform (cbor_reference demo_signed) = ok e \<and>
     id_order demo_platform (cx_parentRecordIds e) \<and> distinct (ev_dependencies e)"
proof -
  obtain e where e: "decodeVaultEvent demo_platform (cbor_reference demo_signed) = ok e"
    using demo_decodes by blast
  from decoded_event_wellformed[OF demo_platform_codec(2) e] e show ?thesis by blast
qed

theorem signed_event_verifies_witness:
  "\<exists>e. signVaultEvent demo_platform demo_event (replicate 64 0) = ok e \<and>
     verifyVaultEventSignature demo_platform e (replicate 32 0) = ok True"
proof -
  have "\<not> isl (signVaultEvent demo_platform demo_event (replicate 64 0))" by code_simp
  then obtain e where e: "signVaultEvent demo_platform demo_event (replicate 64 0) = ok e"
    by (cases "signVaultEvent demo_platform demo_event (replicate 64 0)") auto
  have "verify_detached demo_platform (sign_detached demo_platform message (replicate 64 0)) message (replicate 32 0)"
    for message by (simp add: demo_platform_def ref_platform_def)
  from signed_event_verifies[OF demo_platform_codec(1) e _ this] e show ?thesis by simp
qed

definition demo_parents :: "bytes list \<Rightarrow> vault_event_input" where
  "demo_parents ids = demo_event\<lparr>cx_parentRecordIds := ids\<rparr>"

theorem signature_binds_event_witness:
  "\<exists>message. signature_message ref_platform (demo_parents [replicate 32 5, replicate 32 4]) = ok message \<and>
     signature_message ref_platform (demo_parents [replicate 32 4, replicate 32 5]) = ok message \<and>
     ev_signerCredentialId (demo_parents [replicate 32 5, replicate 32 4]) =
       ev_signerCredentialId (demo_parents [replicate 32 4, replicate 32 5])"
proof -
  let ?e = "demo_parents [replicate 32 5, replicate 32 4]" and ?f = "demo_parents [replicate 32 4, replicate 32 5]"
  have "\<not> isl (signature_message ref_platform ?e)" by code_simp
  then obtain message where m: "signature_message ref_platform ?e = ok message"
    by (cases "signature_message ref_platform ?e") auto
  have "signature_message ref_platform ?f = signature_message ref_platform ?e" by code_simp
  with m have f: "signature_message ref_platform ?f = ok message" by simp
  from signature_binds_event[OF ref_record.record_codec_axioms m f] m f show ?thesis by blast
qed

end
