(* ===== verification/Vault_Object.thy ===== *)
theory Vault_Object
  imports Vault_Record
begin

text \<open>
  Model of \<open>domain/canonical/object.ts\<close>: Vault Objects (Bundle Descriptors, Artifacts and Note contents),
  their validation, encoding and decoding. The URL parser of the host is the field \<open>parse_url\<close> of
  the platform parameter: the fragment and the serialisation of an absolute URL. The two regular
  expressions are written out as recognisers on the UTF-8 bytes of a text.
\<close>

section \<open>Parts\<close>

definition VAULT_OBJECT_FORMAT :: int where "VAULT_OBJECT_FORMAT = 1"
definition BUNDLE_DESCRIPTOR_OBJECT :: int where "BUNDLE_DESCRIPTOR_OBJECT = 1"
definition ARTIFACT_OBJECT :: int where "ARTIFACT_OBJECT = 2"
definition NOTE_CONTENT_OBJECT :: int where "NOTE_CONTENT_OBJECT = 3"

record vault_object_input =
  ob_vaultId :: bytes
  ob_objectType :: int
  ob_requiredFeatureSetId :: bytes
  ob_body :: cvalue
  ob_extensions :: "(string \<times> cvalue) list"

record vault_object = vault_object_input +
  ob_bytes :: bytes
  ob_objectId :: bytes
  ob_referencedObjectIds :: "bytes list"

definition object_extension :: "ckey \<times> cvalue \<Rightarrow> (string \<times> bytes) res" where
  "object_extension entry =
     (case entry of
        (KText s, CBytes b) \<Rightarrow> ok (s, b)
      | _ \<Rightarrow> throw (TypeError ''Object Advisory Extensions must map scoped keys to bytes''))"

definition extensionMap :: "platform \<Rightarrow> cvalue \<Rightarrow> (string \<times> cvalue) list res" where
  "extensionMap P value =
     (case value of
        CMap m \<Rightarrow>
          and_then (traverse object_extension m) (\<lambda>entries.
          and_then (advisoryExtensions P entries) (\<lambda>exts. ok (map (\<lambda>(k, v). (key_text k, v)) exts)))
      | _ \<Rightarrow> throw (TypeError ''Object Advisory Extensions must be a map''))"

definition assertExtensions :: "platform \<Rightarrow> (string \<times> cvalue) list \<Rightarrow> unit res" where
  "assertExtensions P exts = and_then (extensionMap P (extension_map exts)) (\<lambda>_. ok ())"

definition scopedKey :: "cvalue \<Rightarrow> string \<Rightarrow> string res" where
  "scopedKey value field =
     (case value of CText s \<Rightarrow> assertCanonicalScopedKey s
      | _ \<Rightarrow> throw (TypeError (field @ '' must be text'')))"

definition canonicalUrl :: "platform \<Rightarrow> cvalue \<Rightarrow> string \<Rightarrow> string res" where
  "canonicalUrl P value field =
     and_then (textValue value field default_text) (\<lambda>text.
     case parse_url P text of
       None \<Rightarrow> throw (TypeError (field @ '' must be an absolute URL''))
     | Some (hash, href) \<Rightarrow>
         (if hash \<noteq> [] then throw (TypeError (field @ '' must not contain a fragment''))
          else if href \<noteq> text then throw (TypeError (field @ '' is not in canonical URL form''))
          else ok text))"

definition artifactReference :: "cvalue \<Rightarrow> string \<Rightarrow> bytes res" where
  "artifactReference value field =
     and_then (exactMap value (num_keys 2) field) (\<lambda>reference.
     and_then (id_at reference 0 VaultObjectId (field @ '' Artifact ID'')) (\<lambda>artifactId.
     and_then (field_ok reference 1 (\<lambda>v. scopedKey v (field @ '' role''))) (\<lambda>_.
       ok artifactId)))"

definition BASE_ARTIFACT_ROLES :: "string list" where
  "BASE_ARTIFACT_ROLES =
     [''awsm.artifact.primary'', ''awsm.artifact.screenshot-full'', ''awsm.artifact.thumbnail'',
      ''awsm.artifact.text-extracted'', ''awsm.artifact.content-structured'']"

definition WEB_SNAPSHOT :: string where "WEB_SNAPSHOT = ''awsm.capture.web-page-snapshot''"

definition validateFormatOnlyBytes :: "platform \<Rightarrow> bytes \<Rightarrow> string \<Rightarrow> unit res" where
  "validateFormatOnlyBytes P bs field =
     and_then (decodeCanonicalValue P bs) (\<lambda>value.
     and_then (exactMap value (num_keys 1) field) (\<lambda>m.
       field_ok m 0 (\<lambda>v. exactCode v 1 (field @ '' format''))))"

section \<open>Bundle Descriptors\<close>

text \<open>
  The callback of the Artifact references reads and extends the set \<open>roles\<close> of the roles seen so far,
  which is the state of a loop over the entries here.
\<close>

definition reference_role :: "string \<Rightarrow> string list \<Rightarrow> nat \<times> cvalue \<Rightarrow> string list res" where
  "reference_role profile roles indexed_entry =
     (let index = fst indexed_entry; entry = snd indexed_entry; field = ''Artifact reference '' @ nat_str index in
      and_then (exactMap entry (num_keys 2) field) (\<lambda>reference.
      and_then (with_field reference 1 (\<lambda>v. scopedKey v (field @ '' role''))) (\<lambda>role.
      and_then (guard_not (role \<in> set roles) (TypeError ''Bundle Descriptor repeats an Artifact role'')) (\<lambda>_.
      and_then (guard_not (profile = WEB_SNAPSHOT \<and> role \<notin> set BASE_ARTIFACT_ROLES)
        (TypeError ''Base web Capture contains an unknown Artifact role'')) (\<lambda>_.
      and_then (artifactReference entry field) (\<lambda>_. ok (role # roles)))))))"

definition artifact_references :: "platform \<Rightarrow> cvalue \<Rightarrow> string \<Rightarrow> (bytes list \<times> string list) res" where
  "artifact_references P value profile =
     and_then (nonemptyArray value ''Artifact references'') (\<lambda>input.
     and_then (foldM (reference_role profile) [] (enumerate 0 input)) (\<lambda>roles.
     and_then (canonicalSetValue P value ''Artifact references'' (\<lambda>_ entry. ok entry) True) (\<lambda>entries.
     and_then (traverse_i (\<lambda>index entry. artifactReference entry (''Artifact reference '' @ nat_str index)) 0 entries)
       (\<lambda>references. ok (references, roles)))))"

definition capture_warning :: "nat \<Rightarrow> cvalue \<Rightarrow> cvalue res" where
  "capture_warning index entry =
     (let field = ''Capture warning '' @ nat_str index in
      and_then (exactMap entry (num_keys 2) field) (\<lambda>warning.
      and_then (checks [field_ok warning 0 (\<lambda>v. scopedKey v (field @ '' key'')),
          field_ok warning 1 (\<lambda>v. byteStringValue v (field @ '' detail''))]) (\<lambda>_.
        ok entry)))"

definition bundle_provenance :: "platform \<Rightarrow> cvalue \<Rightarrow> string \<Rightarrow> string \<Rightarrow> int \<Rightarrow> unit res" where
  "bundle_provenance P value profile adapter adapterRevision =
     and_then (exactMap value
         (if (case value of CMap m \<Rightarrow> mapGet m (KNum 0) = Some (CNum 2) | _ \<Rightarrow> False)
          then num_keys 7 else num_keys 2) ''Bundle provenance'') (\<lambda>provenance.
     and_then (with_field provenance 0 (\<lambda>v. integer v ''Bundle provenance kind'')) (\<lambda>kind.
     if kind = 1 then
       and_then (with_field provenance 1 (\<lambda>v. byteStringValue v ''Direct Capture profile provenance''))
         (\<lambda>profileProvenance.
       if profile = WEB_SNAPSHOT then
         and_then (guard_not (adapter \<noteq> ''awsm.adapter.browser-web-page'' \<or> adapterRevision \<noteq> 1)
           (TypeError ''Base web Capture adapter identity is unsupported'')) (\<lambda>_.
           validateFormatOnlyBytes P profileProvenance ''Page Snapshot provenance'')
       else ok ())
     else if kind = 2 then
       and_then (checks [id_field provenance 1 VaultId ''Source Vault ID'',
           id_field provenance 2 GenerationId ''Source Generation ID'',
           id_field provenance 3 VaultRecordId ''Source Record ID'',
           id_field provenance 4 BundleId ''Source Bundle ID'',
           id_field provenance 5 VaultObjectId ''Source Descriptor ID'']) (\<lambda>_.
       and_then (with_field provenance 6 (\<lambda>v. byteStringValue v ''Re-authored profile provenance''))
         (\<lambda>profileProvenance.
       if profile = WEB_SNAPSHOT then validateFormatOnlyBytes P profileProvenance ''Page Snapshot provenance''
       else ok ()))
     else throw (TypeError ''Unknown Bundle provenance kind'')))"

definition validateBundleDescriptor :: "platform \<Rightarrow> cvalue \<Rightarrow> bytes list res" where
  "validateBundleDescriptor P value =
     and_then (exactMap value (num_keys 12) ''Bundle Descriptor body'') (\<lambda>body.
     and_then (checks [field_ok body 0 (\<lambda>v. exactCode v 1 ''Bundle Descriptor format''),
         id_field body 1 BundleId ''Bundle ID'',
         field_ok body 2 (\<lambda>v. signedInteger v ''Capture asserted timestamp''),
         field_ok body 3 (\<lambda>v. canonicalUrl P v ''Capture original URL''),
         field_ok body 4 (\<lambda>v. canonicalUrl P v ''Capture final URL'')]) (\<lambda>_.
     and_then (with_field body 5 (\<lambda>v. scopedKey v ''Capture Profile key'')) (\<lambda>profile.
     and_then (with_field body 6 (\<lambda>v. scopedKey v ''Capture adapter key'')) (\<lambda>adapter.
     and_then (with_field body 7 (\<lambda>v. nonnegativeInteger v ''Capture adapter revision'')) (\<lambda>adapterRevision.
     and_then (field_ok body 8 (\<lambda>v. label_of v ''Captured title'')) (\<lambda>_.
     and_then (with_field body 9 (\<lambda>v. artifact_references P v profile)) (\<lambda>(references, roles).
     and_then (guard_not (profile = WEB_SNAPSHOT \<and> ''awsm.artifact.primary'' \<notin> set roles)
         (TypeError ''Base web Capture is missing its primary Artifact'')) (\<lambda>_.
     and_then (field_ok body 10 (\<lambda>v. canonicalSetValue P v ''Capture warnings'' capture_warning False)) (\<lambda>_.
     and_then (with_field body 11 (\<lambda>v. bundle_provenance P v profile adapter adapterRevision)) (\<lambda>_.
       ok references))))))))))"

section \<open>Artifacts\<close>

definition media_token_char :: "char \<Rightarrow> bool" where
  "media_token_char c = (lower_alnum c \<or> c \<in> set ''!#$&^_.+-'')"

definition media_parameter_char :: "char \<Rightarrow> bool" where
  "media_parameter_char c = (media_token_char c \<or> c = CHR ''*'')"

text \<open>
  \<open>(?:;[a-z0-9!#$&^_.+*-]+=[a-z0-9!#$&^_.+*-]+)*$\<close>: no separator is in a class, so taking the longest
  run of a class is the only way to match.
\<close>

function media_parameters :: "string \<Rightarrow> bool" where
  "media_parameters s =
     (case s of
        [] \<Rightarrow> True
      | c # r \<Rightarrow>
          c = CHR '';'' \<and> takeWhile media_parameter_char r \<noteq> [] \<and>
          (case dropWhile media_parameter_char r of
             [] \<Rightarrow> False
           | d # v \<Rightarrow> d = CHR ''='' \<and> takeWhile media_parameter_char v \<noteq> [] \<and>
               media_parameters (dropWhile media_parameter_char v)))"
  by pat_completeness auto

termination
proof (relation "measure length", simp, goal_cases)
  case (1 s c r d v)
  have "length (d # v) \<le> length r" using length_dropWhile_le[of media_parameter_char r] 1 by simp
  moreover have "length (dropWhile media_parameter_char v) \<le> length v" by (rule length_dropWhile_le)
  ultimately show ?case using 1 by simp
qed

declare media_parameters.simps [simp del]

text \<open>
  A text that matches consists of characters that \<open>toLowerCase\<close> keeps, and a text that does not match is
  rejected with the same error, so the comparison with its lower-case form needs no model.
\<close>

definition media_type_ok :: "string \<Rightarrow> bool" where
  "media_type_ok s =
     (takeWhile media_token_char s \<noteq> [] \<and>
      (case dropWhile media_token_char s of
         [] \<Rightarrow> False
       | c # r \<Rightarrow> c = CHR ''/'' \<and> takeWhile media_token_char r \<noteq> [] \<and>
           media_parameters (dropWhile media_token_char r)))"

definition lowerCaseMediaType :: "cvalue \<Rightarrow> string res" where
  "lowerCaseMediaType value =
     and_then (textValue value ''Artifact media type'' default_text) (\<lambda>mediaType.
     if \<not> media_type_ok mediaType
     then throw (TypeError ''Artifact media type must use canonical lower-case syntax'') else ok mediaType)"

definition webp_metadata :: "platform \<Rightarrow> bytes \<Rightarrow> bool \<Rightarrow> unit res" where
  "webp_metadata P metadataBytes thumbnail =
     and_then (decodeCanonicalValue P metadataBytes) (\<lambda>value.
     and_then (exactMap value (num_keys 3) ''WebP intrinsic metadata'') (\<lambda>metadata.
     and_then (field_ok metadata 0 (\<lambda>v. exactCode v 1 ''WebP metadata format'')) (\<lambda>_.
     and_then (with_field metadata 1 (\<lambda>v. nonnegativeInteger v ''WebP width'')) (\<lambda>width.
     and_then (with_field metadata 2 (\<lambda>v. nonnegativeInteger v ''WebP height'')) (\<lambda>height.
       checks [guard_not (width < 1 \<or> height < 1) (TypeError ''WebP dimensions must be positive''),
         guard_not (thumbnail \<and> (width \<noteq> 640 \<or> height \<noteq> 360))
           (TypeError ''Base thumbnail dimensions must be 640 by 360'')])))))"

definition validateBaseArtifactMetadata ::
  "platform \<Rightarrow> string \<Rightarrow> string \<Rightarrow> string \<Rightarrow> bytes \<Rightarrow> unit res" where
  "validateBaseArtifactMetadata P kind mediaType representation metadataBytes =
     (if representation = ''awsm.representation.web-page-zip'' then
        and_then (guard_not (kind \<noteq> ''awsm.artifact.capture'' \<or> mediaType \<noteq> ''application/vnd.awsm.web-page+zip'')
          (TypeError ''Page Snapshot Artifact kind or media type is invalid'')) (\<lambda>_.
          validateFormatOnlyBytes P metadataBytes ''Page Snapshot intrinsic metadata'')
      else if representation = ''awsm.representation.webp.full'' \<or> representation = ''awsm.representation.webp.thumbnail'' then
        and_then (guard_not (kind \<noteq> ''awsm.artifact.image'' \<or> mediaType \<noteq> ''image/webp'')
          (TypeError ''WebP Artifact kind or media type is invalid'')) (\<lambda>_.
          webp_metadata P metadataBytes (representation = ''awsm.representation.webp.thumbnail''))
      else if representation = ''awsm.representation.text.utf-8'' then
        and_then (guard_not (kind \<noteq> ''awsm.artifact.text'' \<or> mediaType \<noteq> ''text/plain;charset=utf-8'')
          (TypeError ''Extracted text Artifact kind or media type is invalid'')) (\<lambda>_.
          validateFormatOnlyBytes P metadataBytes ''Extracted text intrinsic metadata'')
      else if representation = ''awsm.representation.structured.cbor-seq'' then
        and_then (guard_not (kind \<noteq> ''awsm.artifact.structured'' \<or> mediaType \<noteq> ''application/cbor-seq'')
          (TypeError ''Structured Artifact kind or media type is invalid'')) (\<lambda>_.
          validateFormatOnlyBytes P metadataBytes ''Structured Content intrinsic metadata'')
      else throw (TypeError ''Unknown base Artifact representation key''))"

definition wrapper_contract :: "cmap \<Rightarrow> int \<Rightarrow> bytes \<Rightarrow> unit res" where
  "wrapper_contract contract plaintextLength plaintextDigest =
     and_then (checks [field_ok contract 0 (\<lambda>v. exactCode v 1 ''Artifact wrapper contract format''),
         field_ok contract 1 (\<lambda>v. exactCode v 1048576 ''Artifact frame plaintext limit''),
         field_ok contract 2 (\<lambda>v. exactCode v 16 ''Artifact frame tag length'')]) (\<lambda>_.
     and_then (with_field contract 3 (\<lambda>v. nonnegativeInteger v ''Wrapper plaintext length'')) (\<lambda>wrapperLength.
     and_then (guard_not (wrapperLength \<noteq> plaintextLength)
         (TypeError ''Artifact wrapper length does not match the Artifact body'')) (\<lambda>_.
     and_then (id_at contract 4 ArtifactId ''Wrapper plaintext digest'') (\<lambda>contractDigest.
       guard_not (\<not> bytesEqual plaintextDigest contractDigest)
         (TypeError ''Artifact wrapper digest does not match the Artifact body'')))))"

definition validateArtifactObject :: "platform \<Rightarrow> cvalue \<Rightarrow> unit res" where
  "validateArtifactObject P value =
     and_then (exactMap value (num_keys 8) ''Artifact Object body'') (\<lambda>body.
     and_then (field_ok body 0 (\<lambda>v. exactCode v 1 ''Artifact Object format'')) (\<lambda>_.
     and_then (with_field body 1 (\<lambda>v. scopedKey v ''Artifact kind'')) (\<lambda>kind.
     and_then (with_field body 2 lowerCaseMediaType) (\<lambda>mediaType.
     and_then (with_field body 3 (\<lambda>v. scopedKey v ''Artifact representation key'')) (\<lambda>representation.
     and_then (with_field body 4 (\<lambda>v. nonnegativeInteger v ''Artifact plaintext length'')) (\<lambda>plaintextLength.
     and_then (id_at body 5 ArtifactId ''Artifact plaintext digest'') (\<lambda>plaintextDigest.
     and_then (with_field body 6 (\<lambda>v. exactMap v (num_keys 5) ''Artifact wrapper contract'')) (\<lambda>contract.
     and_then (wrapper_contract contract plaintextLength plaintextDigest) (\<lambda>_.
     and_then (with_field body 7 (\<lambda>v. byteStringValue v ''Artifact intrinsic metadata'')) (\<lambda>metadataBytes.
       validateBaseArtifactMetadata P kind mediaType representation metadataBytes))))))))))"

section \<open>Note contents\<close>

text \<open>
  \<open>/\r|<\/?[a-z][^>]*>|data:/iu\<close> on the UTF-8 bytes. With the flags \<open>i\<close> and \<open>u\<close> the class \<open>[a-z]\<close> also
  matches the two code points that fold to a letter of it: U+017F (bytes C5 BF, folding to s) and
  U+212A (bytes E2 84 AA, folding to k). No other code point folds to a letter of \<open>data:\<close>.
\<close>

definition fold_letter :: "char \<Rightarrow> char" where
  "fold_letter c = (if 65 \<le> (of_char c :: nat) \<and> (of_char c :: nat) \<le> 90 then char_of ((of_char c :: nat) + 32) else c)"

definition after_letter :: "string \<Rightarrow> string option" where
  "after_letter s =
     (case s of
        [] \<Rightarrow> None
      | c # r \<Rightarrow>
          (if lower_letter (fold_letter c) then Some r
           else if take 2 s = [char_of (0xc5 :: nat), char_of (0xbf :: nat)] then Some (drop 2 s)
           else if take 3 s = [char_of (0xe2 :: nat), char_of (0x84 :: nat), char_of (0xaa :: nat)] then Some (drop 3 s)
           else None))"

definition html_tag_here :: "string \<Rightarrow> bool" where
  "html_tag_here s =
     (case s of
        [] \<Rightarrow> False
      | c # r \<Rightarrow> c = CHR ''<'' \<and>
          (case after_letter (if r \<noteq> [] \<and> hd r = CHR ''/'' then tl r else r) of
             None \<Rightarrow> False
           | Some rest \<Rightarrow> CHR ''>'' \<in> set rest))"

definition prohibited_here :: "string \<Rightarrow> bool" where
  "prohibited_here s =
     ((s \<noteq> [] \<and> hd s = char_of (13 :: nat)) \<or> html_tag_here s \<or> map fold_letter (take 5 s) = ''data:'')"

fun prohibited_source :: "string \<Rightarrow> bool" where
  "prohibited_source [] = False"
| "prohibited_source (c # s) = (prohibited_here (c # s) \<or> prohibited_source s)"

definition validateNoteContent :: "cvalue \<Rightarrow> unit res" where
  "validateNoteContent value =
     and_then (exactMap value (num_keys 4) ''Note Content Object body'') (\<lambda>body.
     and_then (checks [field_ok body 0 (\<lambda>v. exactCode v 1 ''Note Content format''),
         field_ok body 1 (\<lambda>v. label_of v ''Note title'')]) (\<lambda>_.
     and_then (with_field body 2 (\<lambda>v. textValue v ''Note body'' (default_text\<lparr>allowLineFeed := True, allowEmpty := True\<rparr>)))
       (\<lambda>noteBody.
     and_then (mapValue body 3) (\<lambda>dialect.
     and_then (guard_not (dialect \<noteq> CText ''awsm.note.commonmark'') (TypeError ''Unknown base Note body dialect'')) (\<lambda>_.
       guard_not (prohibited_source noteBody)
         (TypeError ''Base Note source contains prohibited HTML, CR, or data URLs''))))))"

section \<open>Vault Objects\<close>

text \<open>
  \<open>validateBody\<close> falls through its switch for another type and returns \<open>undefined\<close>; \<open>assertInput\<close>
  rejects such a type before it, so the last branch is never taken.
\<close>

definition validateBody :: "platform \<Rightarrow> int \<Rightarrow> cvalue \<Rightarrow> bytes list res" where
  "validateBody P type body =
     (if type = BUNDLE_DESCRIPTOR_OBJECT then validateBundleDescriptor P body
      else if type = ARTIFACT_OBJECT then and_then (validateArtifactObject P body) (\<lambda>_. ok [])
      else if type = NOTE_CONTENT_OBJECT then and_then (validateNoteContent body) (\<lambda>_. ok [])
      else ok [])"

definition assertInput :: "platform \<Rightarrow> 'c vault_object_input_scheme \<Rightarrow> bytes list res" where
  "assertInput P input =
     and_then (guard_not (ob_objectType input \<notin> {1, 2, 3}) (TypeError ''Unknown base Vault Object type'')) (\<lambda>_.
     and_then (assertExtensions P (ob_extensions input)) (\<lambda>_.
       validateBody P (ob_objectType input) (ob_body input)))"

definition decodeVaultObject :: "platform \<Rightarrow> bytes \<Rightarrow> vault_object res" where
  "decodeVaultObject P bs =
     and_then (decodeCanonicalValue P bs) (\<lambda>value.
     and_then (exactMap value (num_keys 6) ''Vault Object'') (\<lambda>m.
     and_then (field_ok m 0 (\<lambda>v. exactCode v VAULT_OBJECT_FORMAT ''Vault Object format'')) (\<lambda>_.
     and_then (with_field m 2 (\<lambda>v. integer v ''Vault Object type'')) (\<lambda>objectType.
     and_then (id_at m 1 VaultId ''Vault Object Vault ID'') (\<lambda>vaultId.
     and_then (id_at m 3 RequiredFeatureSetId ''Vault Object Required Feature Set ID'') (\<lambda>featureSetId.
     and_then (mapValue m 4) (\<lambda>body.
     and_then (with_field m 5 (extensionMap P)) (\<lambda>exts.
     let input = \<lparr>ob_vaultId = vaultId, ob_objectType = objectType, ob_requiredFeatureSetId = featureSetId,
           ob_body = body, ob_extensions = exts\<rparr> in
     and_then (assertInput P input) (\<lambda>referencedObjectIds.
     and_then (vaultObjectId P vaultId objectType bs) (\<lambda>objectId.
       ok (vault_object_input.extend input
         \<lparr>ob_bytes = bs, ob_objectId = objectId, ob_referencedObjectIds = referencedObjectIds\<rparr>)))))))))))"

definition object_value :: "'c vault_object_input_scheme \<Rightarrow> cmap res" where
  "object_value input =
     canonicalMap
       [(0, CNum VAULT_OBJECT_FORMAT), (1, CBytes (ob_vaultId input)), (2, CNum (ob_objectType input)),
        (3, CBytes (ob_requiredFeatureSetId input)), (4, ob_body input), (5, extension_map (ob_extensions input))]"

definition encodeVaultObject :: "platform \<Rightarrow> 'c vault_object_input_scheme \<Rightarrow> vault_object res" where
  "encodeVaultObject P input =
     and_then (assertInput P input) (\<lambda>_.
     and_then (object_value input) (\<lambda>m.
     and_then (encodeCanonicalValue P (CMap m)) (decodeVaultObject P)))"

definition artifactId :: "'c vault_object_scheme \<Rightarrow> bytes res" where
  "artifactId object =
     (if ob_objectType object \<noteq> ARTIFACT_OBJECT then throw (TypeError ''Vault Object is not an Artifact'')
      else identifier_of ArtifactId (ob_objectId object))"

section \<open>Decoded objects\<close>

lemma object_extension_pair: "object_extension e = ok p \<Longrightarrow> extension_pair e = ok p"
  by (auto simp: object_extension_def extension_pair_def split: prod.splits ckey.splits cvalue.splits)

lemma traverse_object_extensions: "traverse object_extension m = ok es \<Longrightarrow> traverse extension_pair m = ok es"
  by (auto simp: traverse_eq_Inr intro: list_all2_mono object_extension_pair)

lemma extensionMap_ok: "extensionMap P v = ok exts \<Longrightarrow> extension_map exts = v"
  by (rule extensions_of_ok[of P])
    (auto simp: extensionMap_def extensions_of_def and_then_eq_Inr traverse_object_extensions split: cvalue.splits)

lemma object_extend_fields:
  "ob_vaultId (vault_object_input.extend input x) = ob_vaultId input"
  "ob_objectType (vault_object_input.extend input x) = ob_objectType input"
  "ob_requiredFeatureSetId (vault_object_input.extend input x) = ob_requiredFeatureSetId input"
  "ob_body (vault_object_input.extend input x) = ob_body input"
  "ob_extensions (vault_object_input.extend input x) = ob_extensions input"
  by (simp_all add: vault_object_input.defs)

lemma assertInput_extend: "assertInput P (vault_object_input.extend input x) = assertInput P input"
  unfolding assertInput_def object_extend_fields ..

definition object_fields :: "'c vault_object_input_scheme \<Rightarrow> cvalue list" where
  "object_fields object =
     [CNum VAULT_OBJECT_FORMAT, CBytes (ob_vaultId object), CNum (ob_objectType object),
      CBytes (ob_requiredFeatureSetId object), ob_body object, extension_map (ob_extensions object)]"

lemma num_keys_6: "num_keys 6 = map KNum [0, 1, 2, 3, 4, 5]"
  by (simp add: num_keys_def upt_rec)

lemma object_value_ok: "object_value object = ok m \<longleftrightarrow> m = zip (num_keys 6) (object_fields object)"
  by (auto simp: object_value_def canonicalMap_ok isSafeInteger_def num_keys_6 object_fields_def)

lemma decodeVaultObject_ok:
  assumes "decodeVaultObject P b = ok object"
  obtains m where "canonical P (CMap m)" "cbor_encode P (CMap m) = b" "length m = 6"
    "\<forall>k \<in> set (num_keys 6). mapHas m k"
    "map (\<lambda>k. the (mapGet m k)) (num_keys 6) = object_fields object"
    "assertInput P object = ok (ob_referencedObjectIds object)" "ob_bytes object = b"
    "vaultObjectId P (ob_vaultId object) (ob_objectType object) b = ok (ob_objectId object)"
proof -
  obtain m t v f body exts refs i where m: "decodeCanonicalValue P b = ok (CMap m)" "length m = 6"
      "\<forall>k \<in> set (num_keys 6). mapHas m k" "mapGet m (KNum 0) = Some (CNum VAULT_OBJECT_FORMAT)"
      "mapGet m (KNum 2) = Some (CNum t)" "mapGet m (KNum 1) = Some (CBytes v)"
      "mapGet m (KNum 3) = Some (CBytes f)" "mapGet m (KNum 4) = Some body"
      "mapGet m (KNum 5) = Some (extension_map exts)" "vaultObjectId P v t b = ok i"
    and a: "assertInput P \<lparr>ob_vaultId = v, ob_objectType = t, ob_requiredFeatureSetId = f, ob_body = body,
        ob_extensions = exts\<rparr> = ok refs"
    and object: "object = vault_object_input.extend \<lparr>ob_vaultId = v, ob_objectType = t,
        ob_requiredFeatureSetId = f, ob_body = body, ob_extensions = exts\<rparr>
        \<lparr>ob_bytes = b, ob_objectId = i, ob_referencedObjectIds = refs\<rparr>"
    using assms
    by (clarsimp simp: decodeVaultObject_def and_then_eq_Inr exactMap_ok with_field_ok field_ok_ok exactCode_ok
        integer_ok id_at_def identifierValue_ok mapValue_ok Let_def num_keys_def dest!: extensionMap_ok)
  have x: "ob_referencedObjectIds object = refs" "ob_bytes object = b" "ob_objectId object = i"
    unfolding object by (simp_all add: vault_object_input.defs)
  show ?thesis
  proof (rule that[of m])
    show "map (\<lambda>k. the (mapGet m k)) (num_keys 6) = object_fields object"
      using m(4-9) unfolding object_fields_def object object_extend_fields by (simp add: num_keys_6)
    show "assertInput P object = ok (ob_referencedObjectIds object)"
      using a unfolding x unfolding object assertInput_extend .
    show "vaultObjectId P (ob_vaultId object) (ob_objectType object) b = ok (ob_objectId object)"
      using m(10) unfolding x unfolding object object_extend_fields by simp
  qed (use m x in \<open>simp_all add: decodeCanonicalValue_ok\<close>)
qed

context record_codec
begin

lemma object_value_reencodes:
  assumes "canonical P (CMap m)" "length m = 6" "\<forall>k \<in> set (num_keys 6). mapHas m k"
    "map (\<lambda>k. the (mapGet m k)) (num_keys 6) = object_fields object"
  shows "encodeCanonicalValue P (CMap (zip (num_keys 6) (object_fields object))) = ok (cbor_encode P (CMap m))"
proof -
  let ?u = "zip (num_keys 6) (object_fields object)"
  have u: "?u = map (\<lambda>k. (k, the (mapGet m k))) (num_keys 6)"
    unfolding assms(4)[symmetric] by (simp add: zip_map2 zip_same_conv_map)
  have k: "mapKeys ?u = num_keys 6" unfolding u by (simp add: comp_def)
  have "encoded_pairs P ?u = map (\<lambda>k. (k, cbor_encode P (the (mapGet m k)))) (num_keys 6)"
    unfolding u by (simp add: encoded_pairs_def)
  then have "mset (encoded_pairs P ?u) = mset (encoded_pairs P m)"
    using exact_pairs(2)[of m "num_keys 6" P] assms(2,3) by (simp add: num_keys_6)
  then have "cbor_encode P (CMap ?u) = cbor_encode P (CMap m)"
    using event_keys[OF k] by (intro map_order) simp_all
  moreover have "canonical P (CMap ?u)"
  proof -
    have "canonical P (the (mapGet m k)) \<and> canonical_key k" if k: "k \<in> set (num_keys 6)" for k
    proof -
      obtain v where "mapGet m k = Some v" using bspec[OF assms(3) k] unfolding mapHas_iff by blast
      then show ?thesis using assms(1) map_of_SomeD[of m k v] by (auto simp: list_all_iff)
    qed
    then show ?thesis using event_keys(2)[OF k] assms(1) k unfolding u by (auto simp: list_all_iff)
  qed
  ultimately show ?thesis by (simp add: encodeCanonicalValue_ok)
qed

end

section \<open>What an accepted body holds\<close>

lemma byteStringValue_ok [schema_ok]: "byteStringValue v field = ok b \<longleftrightarrow> v = CBytes b"
  by (cases v) (auto simp: byteStringValue_def)

definition reference_parts :: "cvalue \<Rightarrow> bytes \<Rightarrow> string \<Rightarrow> bool" where
  "reference_parts entry i role \<longleftrightarrow>
     (\<exists>m. entry = CMap m \<and> mapGet m (KNum 0) = Some (CBytes i) \<and> valid_id VaultObjectId i \<and>
        mapGet m (KNum 1) = Some (CText role))"

lemma scopedKey_ok [schema_ok]:
  "scopedKey v field = ok s \<longleftrightarrow> v = CText s \<and> SCOPED_KEY s \<and> CHR ''.'' \<in> set s"
  by (cases v) (auto simp: scopedKey_def assertCanonicalScopedKey_ok)

lemma artifactReference_ok: "artifactReference entry field = ok i \<Longrightarrow> \<exists>role. reference_parts entry i role"
  by (auto simp: artifactReference_def and_then_eq_Inr schema_ok id_at_def reference_parts_def)

lemma reference_role_step:
  assumes "reference_role profile roles (index, entry) = ok roles'"
  obtains i role where "reference_parts entry i role" "role \<notin> set roles" "roles' = role # roles"
    "profile = WEB_SNAPSHOT \<longrightarrow> role \<in> set BASE_ARTIFACT_ROLES"
proof -
  obtain m role where r: "entry = CMap m" "mapGet m (KNum 1) = Some (CText role)" "role \<notin> set roles"
      "profile = WEB_SNAPSHOT \<longrightarrow> role \<in> set BASE_ARTIFACT_ROLES" "roles' = role # roles"
    and a: "\<exists>i field. artifactReference entry field = ok i"
    using assms by (auto simp: reference_role_def Let_def and_then_eq_Inr schema_ok)
  obtain i role' where "reference_parts entry i role'" using a artifactReference_ok by blast
  then have "reference_parts entry i role" using r(1,2) by (auto simp: reference_parts_def)
  then show ?thesis using that r(3-5) by blast
qed

lemma reference_roles:
  assumes "foldM (reference_role profile) roles es = ok roles'"
  shows "\<exists>rs. list_all2 (\<lambda>e role. \<exists>i. reference_parts (snd e) i role) es rs \<and> roles' = rev rs @ roles \<and>
    (distinct roles \<longrightarrow> distinct roles') \<and> (profile = WEB_SNAPSHOT \<longrightarrow> set rs \<subseteq> set BASE_ARTIFACT_ROLES)"
  using assms
proof (induction es arbitrary: roles)
  case Nil
  then show ?case by simp
next
  case (Cons e es)
  obtain index entry where e: "e = (index, entry)" by fastforce
  obtain mid where mid: "reference_role profile roles (index, entry) = ok mid"
      "foldM (reference_role profile) mid es = ok roles'"
    using Cons.prems by (auto simp: e and_then_eq_Inr)
  obtain i role where r: "reference_parts entry i role" "role \<notin> set roles" "mid = role # roles"
      "profile = WEB_SNAPSHOT \<longrightarrow> role \<in> set BASE_ARTIFACT_ROLES"
    using mid(1) by (rule reference_role_step)
  obtain rs where rs: "list_all2 (\<lambda>e role. \<exists>i. reference_parts (snd e) i role) es rs"
      "roles' = rev rs @ mid" "distinct mid \<longrightarrow> distinct roles'"
      "profile = WEB_SNAPSHOT \<longrightarrow> set rs \<subseteq> set BASE_ARTIFACT_ROLES"
    using Cons.IH[OF mid(2)] by blast
  then show ?case using r by (intro exI[of _ "role # rs"]) (auto simp: e)
qed

lemma reference_parts_unique:
  "reference_parts e i r \<Longrightarrow> reference_parts e j q \<Longrightarrow> i = j \<and> r = q"
  by (auto simp: reference_parts_def)

lemma artifact_references_ok:
  assumes "artifact_references P v profile = ok (refs, roles)"
  shows "\<exists>entries rs. v = CArray entries \<and> entries \<noteq> [] \<and>
    list_all2 (\<lambda>e p. reference_parts e (fst p) (snd p)) entries (zip refs rs) \<and>
    length refs = length entries \<and> length rs = length entries \<and> distinct rs \<and> set roles = set rs \<and>
    (profile = WEB_SNAPSHOT \<longrightarrow> set rs \<subseteq> set BASE_ARTIFACT_ROLES)"
proof -
  obtain input entries where i: "v = CArray input" "input \<noteq> []"
      "foldM (reference_role profile) [] (enumerate 0 input) = ok roles"
      "canonicalSetValue P v ''Artifact references'' (\<lambda>_ entry. ok entry) True = ok entries"
      "traverse_i (\<lambda>index entry. artifactReference entry (''Artifact reference '' @ nat_str index)) 0 entries = ok refs"
    using assms by (auto simp: artifact_references_def nonemptyArray_def and_then_eq_Inr schema_ok)
  have e: "entries = input" using i(1,4) by (auto simp: canonicalSetValue_ok intro: traverse_i_id)
  obtain rs where rs: "list_all2 (\<lambda>e role. \<exists>i. reference_parts (snd e) i role) (enumerate 0 input) rs"
      "roles = rev rs" "distinct roles" "profile = WEB_SNAPSHOT \<longrightarrow> set rs \<subseteq> set BASE_ARTIFACT_ROLES"
    using reference_roles[OF i(3)] by auto
  have len: "length refs = length input" "length rs = length input"
    using i(5) list_all2_lengthD[OF rs(1)] by (simp_all add: traverse_i_eq_Inr e)
  have "list_all2 (\<lambda>e p. reference_parts e (fst p) (snd p)) input (zip refs rs)"
  proof (rule list_all2_all_nthI)
    fix k assume k: "k < length input"
    obtain r where r: "reference_parts (input ! k) (refs ! k) r"
      using i(5) k artifactReference_ok unfolding traverse_i_eq_Inr e by fastforce
    obtain j where "reference_parts (input ! k) j (rs ! k)"
      using list_all2_nthD2[OF rs(1), of k] k len by (auto simp: nth_enumerate_eq)
    then show "reference_parts (input ! k) (fst (zip refs rs ! k)) (snd (zip refs rs ! k))"
      using reference_parts_unique[OF r] r k len by simp
  qed (simp add: len)
  then show ?thesis using i(1,2) len rs by auto
qed

text \<open>The Artifact representations of the base protocol with the kind and media type each requires.\<close>

definition base_representations :: "(string \<times> string \<times> string) list" where
  "base_representations =
     [(''awsm.representation.web-page-zip'', ''awsm.artifact.capture'', ''application/vnd.awsm.web-page+zip''),
      (''awsm.representation.webp.full'', ''awsm.artifact.image'', ''image/webp''),
      (''awsm.representation.webp.thumbnail'', ''awsm.artifact.image'', ''image/webp''),
      (''awsm.representation.text.utf-8'', ''awsm.artifact.text'', ''text/plain;charset=utf-8''),
      (''awsm.representation.structured.cbor-seq'', ''awsm.artifact.structured'', ''application/cbor-seq'')]"

definition thumbnail_metadata :: "platform \<Rightarrow> bytes \<Rightarrow> bool" where
  "thumbnail_metadata P bs \<longleftrightarrow>
     (\<exists>md. cbor_encode P (CMap md) = bs \<and> mapGet md (KNum 1) = Some (CNum 640) \<and> mapGet md (KNum 2) = Some (CNum 360))"

lemma webp_metadata_thumbnail: "webp_metadata P bs True = ok () \<Longrightarrow> thumbnail_metadata P bs"
  by (auto simp: webp_metadata_def and_then_eq_Inr exactMap_ok with_field_ok nonnegativeInteger_ok
      decodeCanonicalValue_ok thumbnail_metadata_def)

lemma validateBaseArtifactMetadata_ok:
  assumes "validateBaseArtifactMetadata P kind mediaType representation bs = ok ()"
  shows "(representation, kind, mediaType) \<in> set base_representations"
    and "representation = ''awsm.representation.webp.thumbnail'' \<Longrightarrow> thumbnail_metadata P bs"
  using assms
  by (auto simp: validateBaseArtifactMetadata_def base_representations_def and_then_eq_Inr webp_metadata_thumbnail
      split: if_splits)

lemma lowerCaseMediaType_ok: "lowerCaseMediaType v = ok s \<longleftrightarrow>
    textValue v ''Artifact media type'' default_text = ok s \<and> media_type_ok s"
  by (auto simp: lowerCaseMediaType_def and_then_eq_Inr split: if_splits)

lemma wrapper_contract_ok:
  "wrapper_contract c n d = ok u \<Longrightarrow> mapGet c (KNum 3) = Some (CNum n) \<and> mapGet c (KNum 4) = Some (CBytes d)"
  by (auto simp: wrapper_contract_def and_then_eq_Inr with_field_ok nonnegativeInteger_ok id_at_def identifierValue_ok)

section \<open>Properties\<close>

text \<open>
  C29. Encoding a decoded Vault Object gives the same object back, bytes and identifier included, and
  the identifier is the digest of exactly the bytes that were decoded.
\<close>

theorem decoded_object_reencodes:
  assumes "record_codec P" and "decodeVaultObject P b = ok object"
  shows "encodeVaultObject P object = ok object \<and> ob_bytes object = b \<and>
    vaultObjectId P (ob_vaultId object) (ob_objectType object) b = ok (ob_objectId object)"
proof -
  obtain m where m: "canonical P (CMap m)" "cbor_encode P (CMap m) = b" "length m = 6"
      "\<forall>k \<in> set (num_keys 6). mapHas m k" "map (\<lambda>k. the (mapGet m k)) (num_keys 6) = object_fields object"
      "assertInput P object = ok (ob_referencedObjectIds object)" "ob_bytes object = b"
      "vaultObjectId P (ob_vaultId object) (ob_objectType object) b = ok (ob_objectId object)"
    by (rule decodeVaultObject_ok[OF assms(2)])
  have v: "object_value object = ok (zip (num_keys 6) (object_fields object))" by (simp add: object_value_ok)
  have "encodeCanonicalValue P (CMap (zip (num_keys 6) (object_fields object))) = ok b"
    using record_codec.object_value_reencodes[OF assms(1) m(1,3-5)] m(2) by simp
  then have "encodeVaultObject P object = ok object"
    unfolding encodeVaultObject_def m(6) and_then_Inr v using assms(2) by simp
  then show ?thesis using m(7,8) by blast
qed


text \<open>
  The body of a decoded Artifact is consistent: its wrapper contract repeats the plaintext length
  and digest of the Artifact, its representation is a base one and has the kind and the media type
  that representation requires, and a thumbnail is 640 by 360.
\<close>

theorem decoded_artifact_consistent:
  assumes "decodeVaultObject P b = ok object" and "ob_objectType object = ARTIFACT_OBJECT"
  shows "\<exists>m c n d kind mediaType representation md. ob_body object = CMap m \<and>
    mapGet m (KNum 4) = Some (CNum n) \<and> 0 \<le> n \<and> mapGet m (KNum 5) = Some (CBytes d) \<and> length d = 32 \<and>
    mapGet m (KNum 6) = Some (CMap c) \<and> mapGet c (KNum 3) = Some (CNum n) \<and> mapGet c (KNum 4) = Some (CBytes d) \<and>
    mapGet m (KNum 1) = Some (CText kind) \<and> mapGet m (KNum 2) = Some (CText mediaType) \<and>
    mapGet m (KNum 3) = Some (CText representation) \<and> mapGet m (KNum 7) = Some (CBytes md) \<and>
    (representation, kind, mediaType) \<in> set base_representations \<and>
    (representation = ''awsm.representation.webp.thumbnail'' \<longrightarrow> thumbnail_metadata P md)"
proof -
  obtain m where "assertInput P object = ok (ob_referencedObjectIds object)"
    by (rule decodeVaultObject_ok[OF assms(1)])
  then have "validateArtifactObject P (ob_body object) = ok ()"
    using assms(2) by (auto simp: assertInput_def validateBody_def and_then_eq_Inr ARTIFACT_OBJECT_def
        BUNDLE_DESCRIPTOR_OBJECT_def)
  then obtain m c n d kind mediaType representation md where "ob_body object = CMap m"
      "mapGet m (KNum 4) = Some (CNum n)" "0 \<le> n" "mapGet m (KNum 5) = Some (CBytes d)" "length d = 32"
      "mapGet m (KNum 6) = Some (CMap c)" "wrapper_contract c n d = ok ()" "mapGet m (KNum 1) = Some (CText kind)"
      "mapGet m (KNum 2) = Some (CText mediaType)" "mapGet m (KNum 3) = Some (CText representation)"
      "mapGet m (KNum 7) = Some (CBytes md)" "validateBaseArtifactMetadata P kind mediaType representation md = ok ()"
    by (clarsimp simp: validateArtifactObject_def and_then_eq_Inr exactMap_ok with_field_ok scopedKey_ok
        nonnegativeInteger_ok id_at_def identifierValue_ok lowerCaseMediaType_ok textValue_ok byteStringValue_ok
        valid_id_def)
  then show ?thesis
    using wrapper_contract_ok[of c n d "()"] validateBaseArtifactMetadata_ok[of P kind mediaType representation md]
    by (intro exI[of _ m] exI[of _ c] exI[of _ n] exI[of _ d] exI[of _ kind] exI[of _ mediaType]
        exI[of _ representation] exI[of _ md] conjI impI) blast+
qed

section \<open>Concrete objects\<close>

definition demo_format :: cvalue where "demo_format = CMap [(KNum 0, CNum 1)]"

definition demo_object :: "int \<Rightarrow> cvalue \<Rightarrow> cvalue" where
  "demo_object type body =
     CMap [(KNum 0, CNum 1), (KNum 1, CBytes (replicate 32 9)), (KNum 2, CNum type),
           (KNum 3, CBytes (replicate 32 8)), (KNum 4, body), (KNum 5, CMap [])]"

definition demo_object_platform :: "cvalue \<Rightarrow> platform" where
  "demo_object_platform v = ref_platform\<lparr>cbor_decode :=
     (\<lambda>bs. if bs = cbor_reference v then Inr v
           else if bs = cbor_reference demo_format then Inr demo_format else Inl ''unsupported'')\<rparr>"

definition demo_reference :: "nat \<Rightarrow> string \<Rightarrow> cvalue" where
  "demo_reference n role = CMap [(KNum 0, CBytes (replicate 32 (word_of_nat n))), (KNum 1, CText role)]"

definition demo_bundle :: cvalue where
  "demo_bundle = demo_object 1 (CMap
     [(KNum 0, CNum 1), (KNum 1, CBytes (replicate 32 7)), (KNum 2, CNum 0), (KNum 3, CText ''https://a.b/''),
      (KNum 4, CText ''https://a.b/''), (KNum 5, CText WEB_SNAPSHOT), (KNum 6, CText ''awsm.adapter.browser-web-page''),
      (KNum 7, CNum 1), (KNum 8, CNull),
      (KNum 9, CArray [demo_reference 3 ''awsm.artifact.primary'', demo_reference 4 ''awsm.artifact.thumbnail'']),
      (KNum 10, CArray []),
      (KNum 11, CMap [(KNum 0, CNum 1), (KNum 1, CBytes (cbor_reference demo_format))])])"

lemma demo_object_codec: "record_codec (demo_object_platform v)"
  using ref_decoder_codec by (simp add: demo_object_platform_def)

lemma demo_bundle_decodes:
  "\<exists>object. decodeVaultObject (demo_object_platform demo_bundle) (cbor_reference demo_bundle) = ok object"
proof -
  have "\<not> isl (decodeVaultObject (demo_object_platform demo_bundle) (cbor_reference demo_bundle))" by code_simp
  then show ?thesis
    by (cases "decodeVaultObject (demo_object_platform demo_bundle) (cbor_reference demo_bundle)") auto
qed

theorem decoded_object_reencodes_witness:
  "\<exists>object. decodeVaultObject (demo_object_platform demo_bundle) (cbor_reference demo_bundle) = ok object \<and>
     encodeVaultObject (demo_object_platform demo_bundle) object = ok object"
proof -
  obtain object where o: "decodeVaultObject (demo_object_platform demo_bundle) (cbor_reference demo_bundle) = ok object"
    using demo_bundle_decodes by blast
  from decoded_object_reencodes[OF demo_object_codec o] o show ?thesis by blast
qed


end
