(* ===== verification/Reachability.thy ===== *)
theory Reachability
  imports Garbage_Collection Vault_Object
begin

text \<open>
  Model of \<open>runtime/complete-export/reachability.ts\<close> and
  \<open>runtime/storage/garbage-collection-reachability.ts\<close>: the trace of the Records, Objects, Key Envelopes,
  Feature Manifests and Artifacts that an accepted state needs. The three loops work on queues and on the
  maps of what was visited; the local variables of the function are the record \<open>trace\<close>. The loaders are
  parameters of the code and stay parameters here: they return an item, nothing, or an exception.
  The item bound makes every loop end, whatever the loaders return.
\<close>

section \<open>Data\<close>

definition MAX_REACHABLE_ITEMS :: int where "MAX_REACHABLE_ITEMS = 1000000"

datatype vault_record = EventRecord authenticated_event | BaselineRecord vault_baseline

fun vr_recordId :: "vault_record \<Rightarrow> bytes" where
  "vr_recordId (EventRecord e) = ev_recordId e"
| "vr_recordId (BaselineRecord b) = bl_recordId b"

fun vr_vaultId :: "vault_record \<Rightarrow> bytes" where
  "vr_vaultId (EventRecord e) = cx_vaultId e"
| "vr_vaultId (BaselineRecord b) = bl_vaultId b"

fun vr_generationId :: "vault_record \<Rightarrow> bytes" where
  "vr_generationId (EventRecord e) = cx_generationId e"
| "vr_generationId (BaselineRecord b) = bl_generationId b"

fun vr_requiredFeatureSetId :: "vault_record \<Rightarrow> bytes" where
  "vr_requiredFeatureSetId (EventRecord e) = cx_requiredFeatureSetId e"
| "vr_requiredFeatureSetId (BaselineRecord b) = bl_requiredFeatureSetId b"

fun vr_dependencies :: "vault_record \<Rightarrow> typed_dependency list" where
  "vr_dependencies (EventRecord e) = ev_dependencies e"
| "vr_dependencies (BaselineRecord b) = bl_dependencies b"

text \<open>The modes 1 (Authority) and 2 (causal), compared as numbers.\<close>

datatype traversal_mode = Mode1 | Mode2

fun covers :: "traversal_mode \<Rightarrow> traversal_mode \<Rightarrow> bool" where
  "covers Mode2 _ = True"
| "covers Mode1 m = (m = Mode1)"

record reach_input =
  ri_vaultId :: bytes
  ri_generationId :: bytes
  ri_requiredFeatureSetId :: bytes
  ri_baselineId :: bytes
  ri_causalFrontier :: "bytes list"
  ri_authorityFrontier :: "bytes list"
  ri_loadRecord :: "bytes \<Rightarrow> vault_record option res"
  ri_loadObject :: "bytes \<Rightarrow> vault_object option res"
  ri_loadFeatureManifest :: "(bytes \<Rightarrow> bytes option res) option"
  ri_omitGenesisBaselineDependency :: bool

record trace =
  tr_records :: "(string, bytes) jmap"
  tr_objects :: "(string, bytes) jmap"
  tr_keyEnvelopes :: "(string, bytes) jmap"
  tr_features :: "(string, bytes) jmap"
  tr_artifacts :: "(string, bytes) jmap"
  tr_recordModes :: "(string, traversal_mode) jmap"
  tr_recordQueue :: "(bytes \<times> traversal_mode) list"
  tr_objectQueue :: "bytes list"
  tr_featureQueue :: "bytes list"
  tr_manifests :: "feature_manifest list"

definition same_bytes :: "bytes \<Rightarrow> bytes \<Rightarrow> string \<Rightarrow> unit res" where
  "same_bytes left right field = guard_not (\<not> bytesEqual left right) (TypeError (field @ '' does not match''))"

definition trace_count :: "trace \<Rightarrow> int" where
  "trace_count t =
     int (length (tr_records t)) + int (length (tr_objects t)) + int (length (tr_keyEnvelopes t)) +
     int (length (tr_features t)) + int (length (tr_artifacts t))"

definition assertBound :: "trace \<Rightarrow> unit res" where
  "assertBound t =
     guard_not (trace_count t > MAX_REACHABLE_ITEMS)
       (RangeError ''Complete Export reachability exceeds its item bound'')"

definition addObject :: "bytes \<Rightarrow> trace \<Rightarrow> trace" where
  "addObject i t =
     (if mapHas (tr_objects t) (key i) then t else t\<lparr>tr_objectQueue := tr_objectQueue t @ [i]\<rparr>)"

definition addFeature :: "bytes \<Rightarrow> trace \<Rightarrow> trace" where
  "addFeature i t =
     (if mapHas (tr_features t) (key i) then t else t\<lparr>tr_featureQueue := tr_featureQueue t @ [i]\<rparr>)"

definition pushRecord :: "bytes \<Rightarrow> traversal_mode \<Rightarrow> trace \<Rightarrow> trace" where
  "pushRecord i mode t = t\<lparr>tr_recordQueue := tr_recordQueue t @ [(i, mode)]\<rparr>"

definition record_dependency :: "typed_dependency \<Rightarrow> bool" where
  "record_dependency d = (dep_type d \<in> {DEPENDENCY_TYPES DepVaultRecord, DEPENDENCY_TYPES DepVaultBaseline})"

definition object_dependency :: "typed_dependency \<Rightarrow> bool" where
  "object_dependency d =
     (dep_type d \<in> {DEPENDENCY_TYPES DepVaultObject, DEPENDENCY_TYPES DepBundleDescriptorObject,
        DEPENDENCY_TYPES DepArtifactObject, DEPENDENCY_TYPES DepNoteContentObject})"

definition addDependency :: "typed_dependency \<Rightarrow> trace \<Rightarrow> trace" where
  "addDependency d t =
     (if record_dependency d then pushRecord (dep_id d) Mode1 t
      else if object_dependency d then addObject (dep_id d) t
      else if dep_type d = DEPENDENCY_TYPES DepKeyEnvelope
      then t\<lparr>tr_keyEnvelopes := mapSet (tr_keyEnvelopes t) (key (dep_id d)) (dep_id d)\<rparr>
      else if dep_type d = DEPENDENCY_TYPES DepFeatureManifest then addFeature (dep_id d) t
      else t)"

section \<open>Records\<close>

definition omitted_dependency :: "reach_input \<Rightarrow> vault_record \<Rightarrow> typed_dependency \<Rightarrow> bool" where
  "omitted_dependency I record d =
     (ri_omitGenesisBaselineDependency I \<and>
      (case record of EventRecord e \<Rightarrow> ev_family e = 1 \<and> ev_type e = 1 | BaselineRecord _ \<Rightarrow> False) \<and>
      dep_type d = DEPENDENCY_TYPES DepVaultBaseline)"

definition check_record :: "reach_input \<Rightarrow> bytes \<Rightarrow> traversal_mode \<Rightarrow> vault_record \<Rightarrow> unit res" where
  "check_record I i mode record =
     checks [same_bytes (vr_recordId record) i ''Reachable Vault Record ID'',
       same_bytes (vr_vaultId record) (ri_vaultId I) ''Reachable Vault Record Vault ID'',
       (if mode = Mode2
        then same_bytes (vr_generationId record) (ri_generationId I) ''Reachable causal Record selected Generation''
        else ok ()),
       same_bytes (vr_requiredFeatureSetId record) (ri_requiredFeatureSetId I)
         ''Reachable Vault Record Required Feature Set'']"

definition push_parents :: "vault_record \<Rightarrow> traversal_mode \<Rightarrow> trace \<Rightarrow> trace" where
  "push_parents record mode t =
     (case record of
        BaselineRecord _ \<Rightarrow> t
      | EventRecord e \<Rightarrow>
          (let t1 = fold (\<lambda>i. pushRecord i Mode1) (cx_authorityParentRecordIds e) t in
           if mode = Mode2 then fold (\<lambda>i. pushRecord i Mode2) (cx_parentRecordIds e) t1 else t1))"

definition visit_record :: "reach_input \<Rightarrow> bytes \<times> traversal_mode \<Rightarrow> trace \<Rightarrow> trace res" where
  "visit_record I item t =
     (let i = fst item; mode = snd item; recordKey = key i in
      if (case mapGet (tr_recordModes t) recordKey of None \<Rightarrow> False | Some previous \<Rightarrow> covers previous mode)
      then ok t
      else
        and_then (ri_loadRecord I i) (\<lambda>loaded.
        case loaded of
          None \<Rightarrow> throw (TypeError ''A reachable Vault Record is unavailable'')
        | Some record \<Rightarrow>
            and_then (check_record I i mode record) (\<lambda>_.
            let t1 = t\<lparr>tr_records := mapSet (tr_records t) recordKey i,
                       tr_recordModes := mapSet (tr_recordModes t) recordKey mode\<rparr> in
            and_then (assertBound t1) (\<lambda>_.
              ok (push_parents record mode
                (fold addDependency (filter (\<lambda>d. \<not> omitted_dependency I record d) (vr_dependencies record)) t1))))))"

section \<open>Objects and Feature Manifests\<close>

definition check_object :: "reach_input \<Rightarrow> bytes \<Rightarrow> vault_object \<Rightarrow> unit res" where
  "check_object I i object =
     checks [same_bytes (ob_objectId object) i ''Reachable Vault Object ID'',
       same_bytes (ob_vaultId object) (ri_vaultId I) ''Reachable Vault Object Vault ID'',
       same_bytes (ob_requiredFeatureSetId object) (ri_requiredFeatureSetId I)
         ''Reachable Vault Object Required Feature Set'']"

definition add_artifact :: "vault_object \<Rightarrow> trace \<Rightarrow> trace res" where
  "add_artifact object t =
     (if ob_objectType object = ARTIFACT_OBJECT
      then and_then (artifactId object) (\<lambda>a. ok (t\<lparr>tr_artifacts := mapSet (tr_artifacts t) (key a) a\<rparr>))
      else ok t)"

definition visit_object :: "reach_input \<Rightarrow> bytes \<Rightarrow> trace \<Rightarrow> trace res" where
  "visit_object I i t =
     (if mapHas (tr_objects t) (key i) then ok t
      else
        and_then (ri_loadObject I i) (\<lambda>loaded.
        case loaded of
          None \<Rightarrow> throw (TypeError ''A reachable Vault Object is unavailable'')
        | Some object \<Rightarrow>
            and_then (check_object I i object) (\<lambda>_.
            let t1 = t\<lparr>tr_objects := mapSet (tr_objects t) (key i) i\<rparr> in
            and_then (assertBound t1) (\<lambda>_.
              add_artifact object (fold addObject (ob_referencedObjectIds object) t1)))))"

definition visit_feature :: "platform \<Rightarrow> reach_input \<Rightarrow> bytes \<Rightarrow> trace \<Rightarrow> trace res" where
  "visit_feature P I i t =
     (if mapHas (tr_features t) (key i) then ok t
      else
        and_then (case ri_loadFeatureManifest I of None \<Rightarrow> ok None | Some load \<Rightarrow> load i) (\<lambda>loaded.
        case loaded of
          None \<Rightarrow> throw (TypeError ''A reachable Feature Manifest is unavailable'')
        | Some bs \<Rightarrow>
            and_then (featureManifestId P bs) (\<lambda>actual.
            and_then (same_bytes actual i ''Reachable Feature Manifest ID'') (\<lambda>_.
            and_then (decodeFeatureManifest P bs) (\<lambda>manifest.
            let t1 = t\<lparr>tr_features := mapSet (tr_features t) (key i) i,
                       tr_manifests := tr_manifests t @ [manifest]\<rparr> in
            and_then (assertBound t1) (\<lambda>_.
              ok (fold addFeature (fm_requiredManifestIds manifest) t1)))))))"

section \<open>The loops\<close>

lemma assertBound_ok: "assertBound t = ok u \<longleftrightarrow> trace_count t \<le> 1000000"
  by (auto simp: assertBound_def MAX_REACHABLE_ITEMS_def)

text \<open>What the pushes leave alone.\<close>

lemma pushes_keep [simp]:
  "tr_records (addDependency d t) = tr_records t" "tr_recordModes (addDependency d t) = tr_recordModes t"
  "tr_objects (addDependency d t) = tr_objects t" "tr_features (addDependency d t) = tr_features t"
  "tr_artifacts (addDependency d t) = tr_artifacts t" "tr_manifests (addDependency d t) = tr_manifests t"
  by (simp_all add: addDependency_def pushRecord_def addObject_def addFeature_def)

lemma fold_pushes_keep [simp]:
  "tr_records (fold addDependency ds t) = tr_records t"
  "tr_recordModes (fold addDependency ds t) = tr_recordModes t"
  "tr_objects (fold addDependency ds t) = tr_objects t"
  "tr_features (fold addDependency ds t) = tr_features t"
  "tr_artifacts (fold addDependency ds t) = tr_artifacts t"
  "tr_manifests (fold addDependency ds t) = tr_manifests t"
  by (induction ds arbitrary: t) simp_all

lemma fold_pushRecord:
  "fold (\<lambda>i. pushRecord i m) is t = t\<lparr>tr_recordQueue := tr_recordQueue t @ map (\<lambda>i. (i, m)) is\<rparr>"
  by (induction "is" arbitrary: t) (simp_all add: pushRecord_def)

text \<open>The entries of the queue that the parents of a record add.\<close>

fun parent_items :: "vault_record \<Rightarrow> traversal_mode \<Rightarrow> (bytes \<times> traversal_mode) list" where
  "parent_items (EventRecord e) mode =
     map (\<lambda>i. (i, Mode1)) (cx_authorityParentRecordIds e) @
     (if mode = Mode2 then map (\<lambda>i. (i, Mode2)) (cx_parentRecordIds e) else [])"
| "parent_items (BaselineRecord b) mode = []"

lemma push_parents_eq:
  "push_parents r m t = t\<lparr>tr_recordQueue := tr_recordQueue t @ parent_items r m\<rparr>"
  by (cases r) (simp_all add: push_parents_def fold_pushRecord Let_def)

lemma fold_addObject:
  "fold addObject is t =
     t\<lparr>tr_objectQueue := tr_objectQueue t @ filter (\<lambda>i. \<not> mapHas (tr_objects t) (key i)) is\<rparr>"
  by (induction "is" arbitrary: t) (simp_all add: addObject_def)

lemma fold_addFeature:
  "fold addFeature is t =
     t\<lparr>tr_featureQueue := tr_featureQueue t @ filter (\<lambda>i. \<not> mapHas (tr_features t) (key i)) is\<rparr>"
  by (induction "is" arbitrary: t) (simp_all add: addFeature_def)

text \<open>How much work is left: new items may still come in until the bound, and a record may be upgraded.\<close>

fun mode_weight :: "traversal_mode option \<Rightarrow> nat" where
  "mode_weight None = 2"
| "mode_weight (Some Mode1) = 1"
| "mode_weight (Some Mode2) = 0"

definition upgrades_left :: "trace \<Rightarrow> nat" where
  "upgrades_left t = sum_list (map (\<lambda>k. mode_weight (mapGet (tr_recordModes t) k)) (mapKeys (tr_records t)))"

definition room_left :: "(string, bytes) jmap \<Rightarrow> nat" where
  "room_left m = nat (MAX_REACHABLE_ITEMS + 1 - int (length m))"

lemma mapSet_length: "length (mapSet m k v) = (if mapHas m k then length m else Suc (length m))"
  unfolding mapHas_def by (induction m) auto

lemma mode_weight_less: "\<not> covers p m \<Longrightarrow> mode_weight (Some m) < mode_weight (Some p)"
  by (cases p; cases m) simp_all

lemma sum_list_update_less:
  fixes w :: "'a \<Rightarrow> nat"
  assumes "k \<in> set ks" "w' k < w k" "\<And>j. j \<noteq> k \<Longrightarrow> w' j = w j"
  shows "sum_list (map w' ks) < sum_list (map w ks)"
  using assms(1)
proof (induction ks)
  case (Cons j ks)
  have "sum_list (map w' ks) \<le> sum_list (map w ks)"
    using assms(2,3) by (intro sum_list_mono) (metis nat_less_le order_refl)
  with Cons assms(2,3) show ?case by (cases "j = k") (auto intro: add_less_le_mono add_le_less_mono)
qed simp

lemma visit_record_less:
  assumes "visit_record I item t = ok t'"
  shows "t' = t \<or> room_left (tr_records t') < room_left (tr_records t) \<or>
    room_left (tr_records t') = room_left (tr_records t) \<and> upgrades_left t' < upgrades_left t"
proof (cases "case mapGet (tr_recordModes t) (key (fst item)) of None \<Rightarrow> False | Some p \<Rightarrow> covers p (snd item)")
  case True
  then show ?thesis using assms by (simp add: visit_record_def Let_def)
next
  case False
  let ?k = "key (fst item)"
  have r: "tr_records t' = mapSet (tr_records t) ?k (fst item)"
      "tr_recordModes t' = mapSet (tr_recordModes t) ?k (snd item)"
    and b: "length (tr_records t') \<le> 1000000"
    using assms False
    by (auto simp: visit_record_def Let_def and_then_eq_Inr push_parents_eq assertBound_ok trace_count_def
        split: option.splits)
  have w: "mode_weight (mapGet (tr_recordModes t') ?k) < mode_weight (mapGet (tr_recordModes t) ?k)"
    using False mode_weight_less[of _ "snd item"]
    by (cases "mapGet (tr_recordModes t) ?k"; cases "snd item") (auto simp: r(2) update_conv')
  show ?thesis
  proof (cases "mapHas (tr_records t) ?k")
    case True
    then have k: "mapKeys (tr_records t') = mapKeys (tr_records t)" "length (tr_records t') = length (tr_records t)"
      by (simp_all add: r(1) mapKeys_mapSet mapSet_length mapHas_def)
    have "upgrades_left t' < upgrades_left t"
      unfolding upgrades_left_def k(1)
      by (rule sum_list_update_less[of ?k]) (use True w in \<open>auto simp: mapHas_def r(2) update_conv'\<close>)
    then show ?thesis using k(2) by (simp add: room_left_def)
  next
    case False
    then show ?thesis using b by (simp add: r(1) mapSet_length room_left_def MAX_REACHABLE_ITEMS_def)
  qed
qed

lemma visit_object_less:
  assumes "visit_object I i t = ok t'"
  shows "t' = t \<or> room_left (tr_objects t') < room_left (tr_objects t)"
  using assms
  by (auto simp: visit_object_def Let_def and_then_eq_Inr assertBound_ok trace_count_def fold_addObject
      add_artifact_def mapSet_length room_left_def MAX_REACHABLE_ITEMS_def split: option.splits if_splits)

lemma visit_feature_less:
  assumes "visit_feature P I i t = ok t'"
  shows "t' = t \<or> room_left (tr_features t') < room_left (tr_features t)"
  using assms
  by (auto simp: visit_feature_def Let_def and_then_eq_Inr assertBound_ok trace_count_def fold_addFeature
      mapSet_length room_left_def MAX_REACHABLE_ITEMS_def split: option.splits if_splits)

function record_loop :: "reach_input \<Rightarrow> trace \<Rightarrow> trace res" where
  "record_loop I t =
     (case tr_recordQueue t of
        [] \<Rightarrow> ok t
      | item # rest \<Rightarrow> and_then (visit_record I item (t\<lparr>tr_recordQueue := rest\<rparr>)) (\<lambda>t'. record_loop I t'))"
  by pat_completeness auto

termination
proof (relation "measures [\<lambda>(I, t). room_left (tr_records t), \<lambda>(I, t). upgrades_left t,
    \<lambda>(I, t). length (tr_recordQueue t)]", simp, goal_cases)
  case (1 I t item rest t')
  have "upgrades_left (t\<lparr>tr_recordQueue := rest\<rparr>) = upgrades_left t" by (simp add: upgrades_left_def)
  then show ?case using visit_record_less[OF 1(2)] 1(1) by auto
qed

function object_loop :: "reach_input \<Rightarrow> trace \<Rightarrow> trace res" where
  "object_loop I t =
     (case tr_objectQueue t of
        [] \<Rightarrow> ok t
      | i # rest \<Rightarrow> and_then (visit_object I i (t\<lparr>tr_objectQueue := rest\<rparr>)) (\<lambda>t'. object_loop I t'))"
  by pat_completeness auto

termination
  by (relation "measures [\<lambda>(I, t). room_left (tr_objects t), \<lambda>(I, t). length (tr_objectQueue t)]")
    (auto dest!: visit_object_less)

function feature_loop :: "platform \<Rightarrow> reach_input \<Rightarrow> trace \<Rightarrow> trace res" where
  "feature_loop P I t =
     (case tr_featureQueue t of
        [] \<Rightarrow> ok t
      | i # rest \<Rightarrow> and_then (visit_feature P I i (t\<lparr>tr_featureQueue := rest\<rparr>)) (\<lambda>t'. feature_loop P I t'))"
  by pat_completeness auto

termination
  by (relation "measures [\<lambda>(P, I, t). room_left (tr_features t), \<lambda>(P, I, t). length (tr_featureQueue t)]")
    (auto dest!: visit_feature_less)

declare record_loop.simps [simp del] object_loop.simps [simp del] feature_loop.simps [simp del]

section \<open>The trace\<close>

definition initial_trace :: "reach_input \<Rightarrow> trace" where
  "initial_trace I =
     \<lparr>tr_records = [], tr_objects = [], tr_keyEnvelopes = [], tr_features = [], tr_artifacts = [],
      tr_recordModes = [],
      tr_recordQueue = [(ri_baselineId I, Mode1)] @ map (\<lambda>i. (i, Mode1)) (ri_authorityFrontier I) @
        map (\<lambda>i. (i, Mode2)) (ri_causalFrontier I),
      tr_objectQueue = [], tr_featureQueue = [], tr_manifests = []\<rparr>"

definition sorted_ids :: "(string, bytes) jmap \<Rightarrow> bytes list" where
  "sorted_ids m = sort_by compareBytes (mapValues m)"

definition trace_result :: "reach_input \<Rightarrow> trace \<Rightarrow> reachability" where
  "trace_result I t =
     \<lparr>typedLogicalRoots = map (dependency DepVaultRecord) (sort_by compareBytes (ri_causalFrontier I)) @
        [dependency DepVaultBaseline (ri_baselineId I)],
      recordIds = sorted_ids (tr_records t), vaultObjectIds = sorted_ids (tr_objects t),
      keyEnvelopeIds = sorted_ids (tr_keyEnvelopes t), featureManifestIds = sorted_ids (tr_features t),
      artifactIds = sorted_ids (tr_artifacts t)\<rparr>"

definition collectCompleteExportReachability :: "platform \<Rightarrow> reach_input \<Rightarrow> reachability res" where
  "collectCompleteExportReachability P I =
     and_then (guard_not (ri_causalFrontier I = [] \<or> ri_authorityFrontier I = [])
       (TypeError ''Complete Export requires nonempty accepted Frontiers'')) (\<lambda>_.
     and_then (record_loop I (initial_trace I)) (\<lambda>t1.
     and_then (object_loop I t1) (\<lambda>t2.
     and_then (feature_loop P I t2) (\<lambda>t3.
     and_then (requiredFeatureSetId P (tr_manifests t3)) (\<lambda>featureSetId.
     and_then (same_bytes featureSetId (ri_requiredFeatureSetId I) ''Complete Export Required Feature Set'') (\<lambda>_.
       ok (trace_result I t3)))))))"

record gc_reach_input =
  gr_vaultId :: bytes
  gr_generationId :: bytes
  gr_requiredFeatureSetId :: bytes
  gr_baselineId :: bytes
  gr_causalFrontier :: "bytes list"
  gr_authorityFrontier :: "bytes list"
  gr_continuityRecordIds :: "bytes list"
  gr_preservationRoots :: "bytes list"
  gr_adopted :: bool
  gr_loadRecord :: "bytes \<Rightarrow> vault_record option res"
  gr_loadObject :: "bytes \<Rightarrow> vault_object option res"
  gr_loadFeatureManifest :: "(bytes \<Rightarrow> bytes option res) option"

definition mergeIds :: "bytes list list \<Rightarrow> bytes list" where
  "mergeIds groups = sort_by compareBytes (mapValues (mapFrom (map (\<lambda>v. (key v, v)) (concat groups))))"

definition active_input :: "gc_reach_input \<Rightarrow> reach_input" where
  "active_input G =
     \<lparr>ri_vaultId = gr_vaultId G, ri_generationId = gr_generationId G,
      ri_requiredFeatureSetId = gr_requiredFeatureSetId G, ri_baselineId = gr_baselineId G,
      ri_causalFrontier = gr_causalFrontier G, ri_authorityFrontier = gr_authorityFrontier G,
      ri_loadRecord = gr_loadRecord G, ri_loadObject = gr_loadObject G,
      ri_loadFeatureManifest = gr_loadFeatureManifest G, ri_omitGenesisBaselineDependency = gr_adopted G\<rparr>"

definition preserved_input :: "gc_reach_input \<Rightarrow> bytes \<Rightarrow> vault_record \<Rightarrow> reach_input" where
  "preserved_input G root record =
     \<lparr>ri_vaultId = gr_vaultId G, ri_generationId = vr_generationId record,
      ri_requiredFeatureSetId = vr_requiredFeatureSetId record, ri_baselineId = root,
      ri_causalFrontier = [root], ri_authorityFrontier = [root],
      ri_loadRecord = gr_loadRecord G, ri_loadObject = gr_loadObject G,
      ri_loadFeatureManifest = gr_loadFeatureManifest G, ri_omitGenesisBaselineDependency = False\<rparr>"

definition continuity_traced :: "reachability \<Rightarrow> bytes \<Rightarrow> unit res" where
  "continuity_traced active recordId =
     guard_not (\<not> list_ex (\<lambda>candidate. bytesEqual candidate recordId) (recordIds active))
       (TypeError ''Replica Garbage Collection trace omits a Continuity Record'')"

definition preserved_closure :: "platform \<Rightarrow> gc_reach_input \<Rightarrow> bytes \<Rightarrow> reachability res" where
  "preserved_closure P G root =
     and_then (gr_loadRecord G root) (\<lambda>loaded.
     case loaded of
       None \<Rightarrow> throw (TypeError ''A Replica Garbage Collection preservation root is unavailable'')
     | Some record \<Rightarrow> collectCompleteExportReachability P (preserved_input G root record))"

definition collectReplicaGarbageCollectionReachability :: "platform \<Rightarrow> gc_reach_input \<Rightarrow> reachability res" where
  "collectReplicaGarbageCollectionReachability P G =
     and_then (guard_not (gr_continuityRecordIds G = [])
       (TypeError ''Replica Garbage Collection requires a nonempty Continuity Proof'')) (\<lambda>_.
     and_then (collectCompleteExportReachability P (active_input G)) (\<lambda>active.
     and_then (checks (map (continuity_traced active) (gr_continuityRecordIds G))) (\<lambda>_.
     and_then (traverse (preserved_closure P G) (gr_preservationRoots G)) (\<lambda>preserved.
     let closures = active # preserved in
       ok \<lparr>typedLogicalRoots = typedLogicalRoots active,
           recordIds = mergeIds (map recordIds closures), vaultObjectIds = mergeIds (map vaultObjectIds closures),
           keyEnvelopeIds = mergeIds (map keyEnvelopeIds closures),
           featureManifestIds = mergeIds (map featureManifestIds closures),
           artifactIds = mergeIds (map artifactIds closures)\<rparr>))))"

section \<open>Closures and worklists\<close>

text \<open>
  What a trace is compared with: the least set that holds the roots and is closed under successors. A
  worklist computes it: visited items have all their successors visited or queued.
\<close>

inductive closure :: "'a set \<Rightarrow> ('a \<Rightarrow> 'a set) \<Rightarrow> 'a \<Rightarrow> bool" for roots succs where
  closure_root: "x \<in> roots \<Longrightarrow> closure roots succs x"
| closure_step: "closure roots succs x \<Longrightarrow> y \<in> succs x \<Longrightarrow> closure roots succs y"

definition worklist :: "'a set \<Rightarrow> ('a \<Rightarrow> 'a set) \<Rightarrow> 'a set \<Rightarrow> 'a set \<Rightarrow> bool" where
  "worklist roots succs V Q \<longleftrightarrow>
     roots \<subseteq> V \<union> Q \<and> (\<forall>x \<in> V. succs x \<subseteq> V \<union> Q) \<and> (\<forall>x \<in> V \<union> Q. closure roots succs x)"

lemma worklist_start: "worklist roots succs {} roots"
  by (auto simp: worklist_def intro: closure_root)

lemma worklist_done: "worklist roots succs V {} \<Longrightarrow> x \<in> V \<longleftrightarrow> closure roots succs x"
proof
  assume w: "worklist roots succs V {}"
  then show "x \<in> V \<Longrightarrow> closure roots succs x" by (auto simp: worklist_def)
  show "x \<in> V" if "closure roots succs x"
    using that w by induction (auto simp: worklist_def)
qed

lemma worklist_done_set: "worklist roots succs V {} \<Longrightarrow> V = Collect (closure roots succs)"
  by (rule set_eqI) (simp add: worklist_done)

lemma worklist_skip: "worklist roots succs V (insert x Q) \<Longrightarrow> x \<in> V \<Longrightarrow> worklist roots succs V Q"
  by (auto simp: worklist_def insert_absorb)

lemma worklist_visit:
  assumes "worklist roots succs V (insert x Q)" "x \<in> D" "D \<subseteq> insert x (succs x)"
    and "\<forall>y \<in> D. succs y \<subseteq> V \<union> D \<union> Q \<union> N" "N \<subseteq> succs x"
  shows "worklist roots succs (V \<union> D) (Q \<union> N)"
proof -
  have x: "closure roots succs x" using assms(1) by (simp add: worklist_def)
  then have "\<forall>y \<in> D \<union> N. closure roots succs y" using assms(3,5) closure_step[OF x] by blast
  then show ?thesis using assms(1,2,4) unfolding worklist_def by blast
qed

text \<open>A loop that takes the first item of a queue until none is left.\<close>

locale queue_loop =
  fixes queue :: "'s \<Rightarrow> 'q list" and put :: "'q list \<Rightarrow> 's \<Rightarrow> 's" and visit :: "'q \<Rightarrow> 's \<Rightarrow> 's res"
    and loop :: "'s \<Rightarrow> 's res" and less :: "('s \<times> 's) set"
  assumes loop_unfold:
      "loop s = (case queue s of [] \<Rightarrow> ok s | x # rest \<Rightarrow> and_then (visit x (put rest s)) loop)"
    and less_wf: "wf less"
    and visit_less: "queue s = x # rest \<Longrightarrow> visit x (put rest s) = ok s' \<Longrightarrow> (s', s) \<in> less"
begin

lemma loop_invariant:
  assumes "\<And>s x rest s'. J s \<Longrightarrow> queue s = x # rest \<Longrightarrow> visit x (put rest s) = ok s' \<Longrightarrow> J s'"
  shows "J s \<Longrightarrow> loop s = ok t \<Longrightarrow> J t \<and> queue t = []"
proof (induction s rule: wf_induct_rule[OF less_wf])
  case (1 s)
  show ?case
  proof (cases "queue s")
    case Nil
    then show ?thesis using 1(2,3) loop_unfold[of s] by simp
  next
    case (Cons x rest)
    then obtain s' where s': "visit x (put rest s) = ok s'" "loop s' = ok t"
      using 1(3) loop_unfold[of s] by (auto simp: and_then_eq_Inr)
    show ?thesis using 1(1)[OF visit_less[OF Cons s'(1)] assms[OF 1(2) Cons s'(1)] s'(2)] .
  qed
qed

lemma loop_returns:
  assumes "\<And>s x rest s'. J s \<Longrightarrow> queue s = x # rest \<Longrightarrow> visit x (put rest s) = ok s' \<Longrightarrow> J s'"
    and "\<And>s x rest. J s \<Longrightarrow> queue s = x # rest \<Longrightarrow> \<exists>s'. visit x (put rest s) = ok s'"
  shows "J s \<Longrightarrow> \<exists>t. loop s = ok t"
proof (induction s rule: wf_induct_rule[OF less_wf])
  case (1 s)
  show ?case
  proof (cases "queue s")
    case Nil
    then show ?thesis using loop_unfold[of s] by simp
  next
    case (Cons x rest)
    obtain s' where s': "visit x (put rest s) = ok s'" using assms(2)[OF 1(2) Cons] ..
    obtain t where "loop s' = ok t" using 1(1)[OF visit_less[OF Cons s'] assms(1)[OF 1(2) Cons s']] ..
    then show ?thesis using Cons s' loop_unfold[of s] by simp
  qed
qed

end

interpretation records: queue_loop tr_recordQueue "\<lambda>q t. t\<lparr>tr_recordQueue := q\<rparr>" "visit_record I" "record_loop I"
  "measures [\<lambda>t. room_left (tr_records t), upgrades_left, \<lambda>t. length (tr_recordQueue t)]" for I
proof (unfold_locales, goal_cases)
  case (3 s x rest s')
  have "upgrades_left (s\<lparr>tr_recordQueue := rest\<rparr>) = upgrades_left s" by (simp add: upgrades_left_def)
  then show ?case using visit_record_less[OF 3(2)] 3(1) by auto
qed (subst record_loop.simps, auto)

interpretation objects: queue_loop tr_objectQueue "\<lambda>q t. t\<lparr>tr_objectQueue := q\<rparr>" "visit_object I" "object_loop I"
  "measures [\<lambda>t. room_left (tr_objects t), \<lambda>t. length (tr_objectQueue t)]" for I
  by (unfold_locales, subst object_loop.simps) (auto dest!: visit_object_less)

interpretation features: queue_loop tr_featureQueue "\<lambda>q t. t\<lparr>tr_featureQueue := q\<rparr>" "visit_feature P I"
  "feature_loop P I" "measures [\<lambda>t. room_left (tr_features t), \<lambda>t. length (tr_featureQueue t)]" for P I
  by (unfold_locales, subst feature_loop.simps) (auto dest!: visit_feature_less)

section \<open>Maps from keys to the identifiers they are keys of\<close>

definition id_index :: "(string, bytes) jmap \<Rightarrow> bool" where
  "id_index m \<longleftrightarrow> distinct (mapKeys m) \<and> (\<forall>e \<in> set m. fst e = key (snd e))"

definition ids :: "(string, bytes) jmap \<Rightarrow> bytes set" where
  "ids m = set (mapValues m)"

lemma ids_Nil [simp]: "ids [] = {}" "id_index []"
  by (simp_all add: ids_def id_index_def)

lemma id_index_has: "id_index m \<Longrightarrow> mapHas m (key i) \<longleftrightarrow> i \<in> ids m"
  by (force simp: id_index_def ids_def mapHas_def image_iff)

lemma id_index_set:
  assumes "id_index m"
  shows "id_index (mapSet m (key i) i)" "ids (mapSet m (key i) i) = insert i (ids m)"
proof -
  have "mapSet m (key i) i = (if i \<in> ids m then m else m @ [(key i, i)])"
  proof (cases "i \<in> ids m")
    case True
    then obtain k where e: "(k, i) \<in> set m" by (auto simp: ids_def)
    then have "k = key i" using assms by (auto simp: id_index_def)
    then have "mapGet m (key i) = Some i" using e assms by (auto simp: id_index_def intro: map_of_is_SomeI)
    then have "mapSet m (key i) i = m" by (induction m) (auto split: if_splits)
    then show ?thesis using True by simp
  next
    case False
    then have "key i \<notin> fst ` set m" using id_index_has[OF assms, of i] by (auto simp: mapHas_def)
    then show ?thesis using False by (simp add: update_fresh)
  qed
  then show "id_index (mapSet m (key i) i)" "ids (mapSet m (key i) i) = insert i (ids m)"
    using assms id_index_has[OF assms, of i] by (auto simp: id_index_def ids_def mapHas_def)
qed

lemma id_index_card:
  assumes "id_index m" shows "distinct (mapValues m)" "length m = card (ids m)"
proof -
  have "mapKeys m = map key (mapValues m)" using assms by (auto simp: id_index_def)
  then show d: "distinct (mapValues m)" using assms by (metis id_index_def distinct_map)
  then show "length m = card (ids m)" unfolding ids_def by (metis distinct_card length_map)
qed

lemma sorted_ids_strict:
  assumes "id_index m" shows "set (sorted_ids m) = ids m" "sorted_wrt (<) (sorted_ids m)"
proof -
  show "set (sorted_ids m) = ids m" by (simp add: sorted_ids_def ids_def)
  have "sorted (sorted_ids m)" "distinct (sorted_ids m)"
    using id_index_card(1)[OF assms] cb.sorted_sort_by[of "mapValues m"] by (simp_all add: sorted_ids_def)
  then show "sorted_wrt (<) (sorted_ids m)" by (simp add: strict_sorted_iff)
qed

section \<open>What an accepted state needs\<close>

definition followed :: "reach_input \<Rightarrow> vault_record \<Rightarrow> typed_dependency list" where
  "followed I record = filter (\<lambda>d. \<not> omitted_dependency I record d) (vr_dependencies record)"

definition envelope_dependency :: "typed_dependency \<Rightarrow> bool" where
  "envelope_dependency d = (dep_type d = DEPENDENCY_TYPES DepKeyEnvelope)"

definition feature_dependency :: "typed_dependency \<Rightarrow> bool" where
  "feature_dependency d = (dep_type d = DEPENDENCY_TYPES DepFeatureManifest)"

definition record_roots :: "reach_input \<Rightarrow> (bytes \<times> traversal_mode) set" where
  "record_roots I =
     insert (ri_baselineId I, Mode1) ((\<lambda>i. (i, Mode1)) ` set (ri_authorityFrontier I) \<union>
       (\<lambda>i. (i, Mode2)) ` set (ri_causalFrontier I))"

text \<open>The records a record leads to. A causal visit includes the Authority visit of the same record.\<close>

definition record_succs :: "reach_input \<Rightarrow> bytes \<times> traversal_mode \<Rightarrow> (bytes \<times> traversal_mode) set" where
  "record_succs I item =
     (case ri_loadRecord I (fst item) of
        Inr (Some r) \<Rightarrow>
          (\<lambda>d. (dep_id d, Mode1)) ` {d \<in> set (followed I r). record_dependency d} \<union> set (parent_items r (snd item))
      | _ \<Rightarrow> {}) \<union> (if snd item = Mode2 then {(fst item, Mode1)} else {})"

definition needs_record :: "reach_input \<Rightarrow> bytes \<Rightarrow> bool" where
  "needs_record I i \<longleftrightarrow> (\<exists>m. closure (record_roots I) (record_succs I) (i, m))"

definition dependencies_by :: "reach_input \<Rightarrow> (typed_dependency \<Rightarrow> bool) \<Rightarrow> bytes set \<Rightarrow> bytes set" where
  "dependencies_by I sel R =
     {dep_id d | i r d. i \<in> R \<and> ri_loadRecord I i = ok (Some r) \<and> d \<in> set (followed I r) \<and> sel d}"

definition object_succs :: "reach_input \<Rightarrow> bytes \<Rightarrow> bytes set" where
  "object_succs I i =
     (case ri_loadObject I i of Inr (Some object) \<Rightarrow> set (ob_referencedObjectIds object) | _ \<Rightarrow> {})"

definition needs_object :: "reach_input \<Rightarrow> bytes \<Rightarrow> bool" where
  "needs_object I =
     closure (dependencies_by I object_dependency (Collect (needs_record I))) (object_succs I)"

definition needs_envelope :: "reach_input \<Rightarrow> bytes \<Rightarrow> bool" where
  "needs_envelope I i \<longleftrightarrow> i \<in> dependencies_by I envelope_dependency (Collect (needs_record I))"

definition artifacts_of :: "reach_input \<Rightarrow> bytes set \<Rightarrow> bytes set" where
  "artifacts_of I objs =
     {a. \<exists>i object. i \<in> objs \<and> ri_loadObject I i = ok (Some object) \<and> ob_objectType object = ARTIFACT_OBJECT \<and>
        artifactId object = ok a}"

definition load_feature :: "reach_input \<Rightarrow> bytes \<Rightarrow> bytes option res" where
  "load_feature I i = (case ri_loadFeatureManifest I of None \<Rightarrow> ok None | Some load \<Rightarrow> load i)"

definition manifest_of :: "platform \<Rightarrow> reach_input \<Rightarrow> bytes \<Rightarrow> feature_manifest option" where
  "manifest_of P I i =
     (case load_feature I i of
        Inr (Some bs) \<Rightarrow> (case decodeFeatureManifest P bs of Inr m \<Rightarrow> Some m | Inl _ \<Rightarrow> None)
      | _ \<Rightarrow> None)"

definition feature_succs :: "platform \<Rightarrow> reach_input \<Rightarrow> bytes \<Rightarrow> bytes set" where
  "feature_succs P I i =
     (case manifest_of P I i of None \<Rightarrow> {} | Some m \<Rightarrow> set (fm_requiredManifestIds m))"

definition needs_feature :: "platform \<Rightarrow> reach_input \<Rightarrow> bytes \<Rightarrow> bool" where
  "needs_feature P I =
     closure (dependencies_by I feature_dependency (Collect (needs_record I))) (feature_succs P I)"

section \<open>Invariant of the record loop\<close>

lemmas dependency_defs = record_dependency_def object_dependency_def envelope_dependency_def feature_dependency_def

lemma fold_addDependency:
  "tr_recordQueue (fold addDependency ds t) = tr_recordQueue t @ map (\<lambda>d. (dep_id d, Mode1)) (filter record_dependency ds)"
  "tr_objectQueue (fold addDependency ds t) = tr_objectQueue t @
     filter (\<lambda>i. \<not> mapHas (tr_objects t) (key i)) (map dep_id (filter object_dependency ds))"
  "tr_featureQueue (fold addDependency ds t) = tr_featureQueue t @
     filter (\<lambda>i. \<not> mapHas (tr_features t) (key i)) (map dep_id (filter feature_dependency ds))"
  "id_index (tr_keyEnvelopes t) \<Longrightarrow> id_index (tr_keyEnvelopes (fold addDependency ds t)) \<and>
     ids (tr_keyEnvelopes (fold addDependency ds t)) = ids (tr_keyEnvelopes t) \<union> dep_id ` {d \<in> set ds. envelope_dependency d}"
proof -
  have d: "tr_recordQueue (addDependency d t) = (if record_dependency d then tr_recordQueue t @ [(dep_id d, Mode1)] else tr_recordQueue t)"
    "tr_objectQueue (addDependency d t) = (if object_dependency d \<and> \<not> mapHas (tr_objects t) (key (dep_id d)) then tr_objectQueue t @ [dep_id d] else tr_objectQueue t)"
    "tr_featureQueue (addDependency d t) = (if feature_dependency d \<and> \<not> mapHas (tr_features t) (key (dep_id d)) then tr_featureQueue t @ [dep_id d] else tr_featureQueue t)"
    "tr_keyEnvelopes (addDependency d t) = (if envelope_dependency d then mapSet (tr_keyEnvelopes t) (key (dep_id d)) (dep_id d) else tr_keyEnvelopes t)"
    for d t by (auto simp: addDependency_def pushRecord_def addObject_def addFeature_def dependency_defs)
  show "tr_recordQueue (fold addDependency ds t) = tr_recordQueue t @ map (\<lambda>d. (dep_id d, Mode1)) (filter record_dependency ds)"
    by (induction ds arbitrary: t) (simp_all add: d)
  show "tr_objectQueue (fold addDependency ds t) = tr_objectQueue t @
     filter (\<lambda>i. \<not> mapHas (tr_objects t) (key i)) (map dep_id (filter object_dependency ds))"
    by (induction ds arbitrary: t) (simp_all add: d)
  show "tr_featureQueue (fold addDependency ds t) = tr_featureQueue t @
     filter (\<lambda>i. \<not> mapHas (tr_features t) (key i)) (map dep_id (filter feature_dependency ds))"
    by (induction ds arbitrary: t) (simp_all add: d)
  show "id_index (tr_keyEnvelopes t) \<Longrightarrow> id_index (tr_keyEnvelopes (fold addDependency ds t)) \<and>
     ids (tr_keyEnvelopes (fold addDependency ds t)) = ids (tr_keyEnvelopes t) \<union> dep_id ` {d \<in> set ds. envelope_dependency d}"
  proof (induction ds arbitrary: t)
    case (Cons e ds)
    have "id_index (tr_keyEnvelopes (addDependency e t))" using Cons.prems by (simp add: d id_index_set)
    from Cons.IH[OF this] Cons.prems show ?case by (auto simp: d id_index_set)
  qed simp
qed

definition visited_modes :: "trace \<Rightarrow> (bytes \<times> traversal_mode) set" where
  "visited_modes t = {(i, m). \<exists>p. mapGet (tr_recordModes t) (key i) = Some p \<and> covers p m}"

definition record_inv :: "reach_input \<Rightarrow> trace \<Rightarrow> bool" where
  "record_inv I t \<longleftrightarrow>
     worklist (record_roots I) (record_succs I) (visited_modes t) (set (tr_recordQueue t)) \<and>
     id_index (tr_records t) \<and> id_index (tr_keyEnvelopes t) \<and>
     (\<forall>i. mapGet (tr_recordModes t) (key i) \<noteq> None \<longleftrightarrow> i \<in> ids (tr_records t)) \<and>
     set (tr_objectQueue t) = dependencies_by I object_dependency (ids (tr_records t)) \<and>
     set (tr_featureQueue t) = dependencies_by I feature_dependency (ids (tr_records t)) \<and>
     ids (tr_keyEnvelopes t) = dependencies_by I envelope_dependency (ids (tr_records t)) \<and>
     tr_objects t = [] \<and> tr_features t = [] \<and> tr_artifacts t = [] \<and> tr_manifests t = []"

lemma covers_refl [simp]: "covers m m" "covers m Mode1"
  by (cases m; simp)+

lemma record_inv_start: "record_inv I (initial_trace I)"
proof -
  have "set (tr_recordQueue (initial_trace I)) = record_roots I"
    by (simp add: initial_trace_def record_roots_def)
  moreover have "visited_modes (initial_trace I) = {}" by (simp add: visited_modes_def initial_trace_def)
  ultimately show ?thesis
    using worklist_start[of "record_roots I" "record_succs I"]
    by (auto simp: record_inv_def initial_trace_def dependencies_by_def)
qed

lemma dependencies_by_insert:
  assumes "ri_loadRecord I i = ok (Some r)"
  shows "dependencies_by I sel (insert i R) = dependencies_by I sel R \<union> dep_id ` {d \<in> set (followed I r). sel d}"
  using assms by (auto simp: dependencies_by_def) 

lemma visit_record_cases:
  assumes "visit_record I item t = ok t'"
  obtains (skip) p where "t' = t" "mapGet (tr_recordModes t) (key (fst item)) = Some p" "covers p (snd item)"
  | (new) r where "ri_loadRecord I (fst item) = ok (Some r)" "check_record I (fst item) (snd item) r = ok ()"
    "item \<notin> visited_modes t"
    "t' = push_parents r (snd item) (fold addDependency (followed I r)
      (t\<lparr>tr_records := mapSet (tr_records t) (key (fst item)) (fst item),
         tr_recordModes := mapSet (tr_recordModes t) (key (fst item)) (snd item)\<rparr>))"
proof (cases "case mapGet (tr_recordModes t) (key (fst item)) of None \<Rightarrow> False | Some p \<Rightarrow> covers p (snd item)")
  case True
  then show ?thesis using assms skip by (auto simp: visit_record_def Let_def split: option.splits)
next
  case False
  have "item \<notin> visited_modes t" using False by (auto simp: visited_modes_def)
  then show ?thesis
    using assms False new unfolding visit_record_def Let_def followed_def
    by (auto simp: and_then_eq_Inr split: option.splits)
qed

lemma parent_items_mono: "set (parent_items r Mode1) \<subseteq> set (parent_items r m)"
  by (cases r) auto

lemma record_worklist_step:
  assumes w: "worklist (record_roots I) (record_succs I) V (insert item Q)"
    and l: "ri_loadRecord I (fst item) = ok (Some r)"
  shows "worklist (record_roots I) (record_succs I) (V \<union> {fst item} \<times> {m. covers (snd item) m})
    (Q \<union> ((\<lambda>d. (dep_id d, Mode1)) ` {d \<in> set (followed I r). record_dependency d} \<union> set (parent_items r (snd item))))"
proof (rule worklist_visit[OF w])
  let ?N = "(\<lambda>d. (dep_id d, Mode1)) ` {d \<in> set (followed I r). record_dependency d} \<union> set (parent_items r (snd item))"
  obtain i m where item: "item = (i, m)" by fastforce
  have s: "record_succs I (i, m') = (\<lambda>d. (dep_id d, Mode1)) ` {d \<in> set (followed I r). record_dependency d} \<union>
      set (parent_items r m') \<union> (if m' = Mode2 then {(i, Mode1)} else {})" for m'
    using l by (simp add: record_succs_def item)
  show "item \<in> {fst item} \<times> {m. covers (snd item) m}" by (simp add: item)
  show "{fst item} \<times> {m. covers (snd item) m} \<subseteq> insert item (record_succs I item)"
    unfolding item s by (cases m) (auto intro: traversal_mode.exhaust)
  show "?N \<subseteq> record_succs I item" unfolding item s by auto
  show "\<forall>y \<in> {fst item} \<times> {m. covers (snd item) m}.
      record_succs I y \<subseteq> V \<union> {fst item} \<times> {m. covers (snd item) m} \<union> Q \<union> ?N"
  proof
    fix y assume "y \<in> {fst item} \<times> {m. covers (snd item) m}"
    then obtain m' where y: "y = (i, m')" "covers m m'" by (auto simp: item)
    have "set (parent_items r m') \<subseteq> set (parent_items r m)"
      using y(2) parent_items_mono[of r m] by (cases m; cases m') auto
    then show "record_succs I y \<subseteq> V \<union> {fst item} \<times> {m. covers (snd item) m} \<union> Q \<union> ?N"
      unfolding y s item by (auto split: if_splits)
  qed
qed

lemma record_inv_step:
  assumes J: "record_inv I t" and q: "tr_recordQueue t = item # rest"
    and v: "visit_record I item (t\<lparr>tr_recordQueue := rest\<rparr>) = ok t'"
  shows "record_inv I t'"
  using v
proof (cases rule: visit_record_cases)
  case (skip p)
  then have "item \<in> visited_modes t" by (auto simp: visited_modes_def intro: exI[of _ p] prod_cases)
  moreover have "visited_modes (t\<lparr>tr_recordQueue := rest\<rparr>) = visited_modes t" by (simp add: visited_modes_def)
  ultimately show ?thesis using J q skip(1) by (auto simp: record_inv_def intro: worklist_skip)
next
  case (new r)
  let ?i = "fst item" and ?m = "snd item"
  let ?t1 = "t\<lparr>tr_recordQueue := rest, tr_records := mapSet (tr_records t) (key ?i) ?i,
    tr_recordModes := mapSet (tr_recordModes t) (key ?i) ?m\<rparr>"
  have t': "t' = push_parents r ?m (fold addDependency (followed I r) ?t1)" using new(4) by simp
  have J': "id_index (tr_records t)" "id_index (tr_keyEnvelopes t)"
      "tr_objects t = []" "tr_features t = []" "tr_artifacts t = []" "tr_manifests t = []"
      "\<And>i. mapGet (tr_recordModes t) (key i) \<noteq> None \<longleftrightarrow> i \<in> ids (tr_records t)"
      "worklist (record_roots I) (record_succs I) (visited_modes t) (insert item (set rest))"
    using J q by (simp_all add: record_inv_def)
  have V: "visited_modes t' = visited_modes t \<union> {?i} \<times> {m. covers ?m m}"
  proof -
    have "mapGet (tr_recordModes t) (key ?i) = Some p \<Longrightarrow> covers p m \<Longrightarrow> covers ?m m" for p m
      using new(3) by (cases p; cases m; cases item; cases ?m) (auto simp: visited_modes_def)
    then show ?thesis by (auto simp: t' push_parents_eq visited_modes_def update_conv' split: if_splits)
  qed
  have Q: "set (tr_recordQueue t') = set rest \<union>
      ((\<lambda>d. (dep_id d, Mode1)) ` {d \<in> set (followed I r). record_dependency d} \<union> set (parent_items r ?m))"
    by (auto simp: t' push_parents_eq fold_addDependency)
  have R: "id_index (tr_records t')" "ids (tr_records t') = insert ?i (ids (tr_records t))"
    using J'(1) by (simp_all add: t' push_parents_eq id_index_set)
  have E: "id_index (tr_keyEnvelopes t') \<and> ids (tr_keyEnvelopes t') =
      ids (tr_keyEnvelopes t) \<union> dep_id ` {d \<in> set (followed I r). envelope_dependency d}"
    using fold_addDependency(4)[of ?t1 "followed I r"] J'(2) by (simp add: t' push_parents_eq)
  have O: "set (tr_objectQueue t') = set (tr_objectQueue t) \<union> dep_id ` {d \<in> set (followed I r). object_dependency d}"
    "set (tr_featureQueue t') = set (tr_featureQueue t) \<union> dep_id ` {d \<in> set (followed I r). feature_dependency d}"
    using J'(3,4) by (auto simp: t' push_parents_eq fold_addDependency)
  have M: "mapGet (tr_recordModes t') (key i) \<noteq> None \<longleftrightarrow> i \<in> ids (tr_records t')" for i
    using J'(7)[of i] unfolding R(2) by (auto simp: t' push_parents_eq update_conv')
  show ?thesis
    unfolding record_inv_def V Q R(2) dependencies_by_insert[OF new(1)]
    using J R(1) E O M[unfolded R(2)] record_worklist_step[OF J'(8) new(1)]
    by (simp add: record_inv_def t' push_parents_eq J')
qed

lemma record_inv_done:
  assumes "record_inv I t" "tr_recordQueue t = []"
  shows "ids (tr_records t) = Collect (needs_record I)"
proof -
  have "(i, m) \<in> visited_modes t \<longleftrightarrow> closure (record_roots I) (record_succs I) (i, m)" for i m
    using worklist_done[of "record_roots I" "record_succs I" "visited_modes t"] assms by (simp add: record_inv_def)
  moreover have "(\<exists>m. (i, m) \<in> visited_modes t) \<longleftrightarrow> i \<in> ids (tr_records t)" for i
  proof -
    have "(\<exists>m. (i, m) \<in> visited_modes t) \<longleftrightarrow> mapGet (tr_recordModes t) (key i) \<noteq> None"
      by (auto simp: visited_modes_def) (blast intro: covers_refl)
    then show ?thesis using assms(1) by (simp add: record_inv_def)
  qed
  ultimately show ?thesis by (auto simp: needs_record_def)
qed

lemma record_loop_correct:
  assumes "record_loop I (initial_trace I) = ok t"
  shows "record_inv I t" "tr_recordQueue t = []"
  using records.loop_invariant[of "record_inv I" I, OF record_inv_step record_inv_start assms] by simp_all

section \<open>Invariants of the object and feature loops\<close>

lemma worklist_add:
  assumes "worklist roots succs V (insert i Q)"
  shows "worklist roots succs (insert i V) (Q \<union> {j \<in> succs i. j \<notin> insert i V})"
  using worklist_visit[OF assms, of "{i}" "{j \<in> succs i. j \<notin> insert i V}"] by auto

definition object_inv :: "reach_input \<Rightarrow> bytes set \<Rightarrow> trace \<Rightarrow> trace \<Rightarrow> bool" where
  "object_inv I roots t0 t \<longleftrightarrow>
     worklist roots (object_succs I) (ids (tr_objects t)) (set (tr_objectQueue t)) \<and>
     id_index (tr_objects t) \<and> id_index (tr_artifacts t) \<and>
     ids (tr_artifacts t) = artifacts_of I (ids (tr_objects t)) \<and>
     t = t0\<lparr>tr_objects := tr_objects t, tr_objectQueue := tr_objectQueue t, tr_artifacts := tr_artifacts t\<rparr>"

lemma artifacts_of_insert:
  assumes "ri_loadObject I i = ok (Some object)"
  shows "artifacts_of I (insert i objs) = artifacts_of I objs \<union>
    {a. ob_objectType object = ARTIFACT_OBJECT \<and> artifactId object = ok a}"
  using assms by (auto simp: artifacts_of_def)

lemma add_artifact_ok:
  assumes "add_artifact object t = ok t'"
  shows "\<exists>arts. t' = t\<lparr>tr_artifacts := arts\<rparr> \<and>
    (if ob_objectType object = ARTIFACT_OBJECT
     then \<exists>a. artifactId object = ok a \<and> arts = mapSet (tr_artifacts t) (key a) a else arts = tr_artifacts t)"
  using assms by (auto simp: add_artifact_def and_then_eq_Inr split: if_splits)

lemma visit_object_cases:
  assumes "visit_object I i t = ok t'"
  obtains (skip) "t' = t" "mapHas (tr_objects t) (key i)"
  | (new) object arts where "\<not> mapHas (tr_objects t) (key i)" "ri_loadObject I i = ok (Some object)"
    "check_object I i object = ok ()"
    "t' = t\<lparr>tr_objects := mapSet (tr_objects t) (key i) i,
       tr_objectQueue := tr_objectQueue t @
         filter (\<lambda>j. \<not> mapHas (mapSet (tr_objects t) (key i) i) (key j)) (ob_referencedObjectIds object),
       tr_artifacts := arts\<rparr>"
    "if ob_objectType object = ARTIFACT_OBJECT
     then \<exists>a. artifactId object = ok a \<and> arts = mapSet (tr_artifacts t) (key a) a else arts = tr_artifacts t"
proof (cases "mapHas (tr_objects t) (key i)")
  case True
  then show ?thesis using assms skip by (simp add: visit_object_def)
next
  case False
  then obtain object where o: "ri_loadObject I i = ok (Some object)" "check_object I i object = ok ()"
      "add_artifact object (fold addObject (ob_referencedObjectIds object)
        (t\<lparr>tr_objects := mapSet (tr_objects t) (key i) i\<rparr>)) = ok t'"
    using assms by (auto simp: visit_object_def Let_def and_then_eq_Inr split: option.splits)
  have k: "tr_artifacts (fold addObject (ob_referencedObjectIds object)
      (t\<lparr>tr_objects := mapSet (tr_objects t) (key i) i\<rparr>)) = tr_artifacts t" by (simp add: fold_addObject)
  obtain arts where a: "t' = (fold addObject (ob_referencedObjectIds object)
        (t\<lparr>tr_objects := mapSet (tr_objects t) (key i) i\<rparr>))\<lparr>tr_artifacts := arts\<rparr>"
      "if ob_objectType object = ARTIFACT_OBJECT
       then \<exists>a. artifactId object = ok a \<and> arts = mapSet (tr_artifacts t) (key a) a else arts = tr_artifacts t"
    using add_artifact_ok[OF o(3)] unfolding k by blast
  show ?thesis by (rule new[OF False o(1,2) _ a(2)]) (simp add: a(1) fold_addObject)
qed

lemma object_inv_step:
  assumes J: "object_inv I roots t0 t" and q: "tr_objectQueue t = i # rest"
    and v: "visit_object I i (t\<lparr>tr_objectQueue := rest\<rparr>) = ok t'"
  shows "object_inv I roots t0 t'"
  using v
proof (cases rule: visit_object_cases)
  case skip
  then have "i \<in> ids (tr_objects t)" using J id_index_has[of "tr_objects t" i] by (simp add: object_inv_def)
  then have "worklist roots (object_succs I) (ids (tr_objects t)) (set rest)"
    using J q by (auto simp: object_inv_def intro: worklist_skip)
  moreover have "t = t0\<lparr>tr_objects := tr_objects t, tr_objectQueue := tr_objectQueue t, tr_artifacts := tr_artifacts t\<rparr>"
    using J by (simp add: object_inv_def)
  then have "t' = t0\<lparr>tr_objects := tr_objects t', tr_objectQueue := tr_objectQueue t', tr_artifacts := tr_artifacts t'\<rparr>"
    unfolding skip(1) by (cases t0; cases t) simp
  ultimately show ?thesis using J unfolding object_inv_def skip(1) by simp
next
  case (new object arts)
  have J': "id_index (tr_objects t)" "id_index (tr_artifacts t)" "ids (tr_artifacts t) = artifacts_of I (ids (tr_objects t))"
      "worklist roots (object_succs I) (ids (tr_objects t)) (insert i (set rest))"
    using J q by (simp_all add: object_inv_def)
  have o: "tr_objects t' = mapSet (tr_objects t) (key i) i" "tr_artifacts t' = arts"
      "tr_objectQueue t' = rest @ filter (\<lambda>j. \<not> mapHas (tr_objects t') (key j)) (ob_referencedObjectIds object)"
    using new(4) by simp_all
  have x: "id_index (tr_objects t')" "ids (tr_objects t') = insert i (ids (tr_objects t))"
    using J'(1) by (simp_all add: o(1) id_index_set)
  have "set (tr_objectQueue t') = set rest \<union> {j \<in> object_succs I i. j \<notin> insert i (ids (tr_objects t))}"
    using new(2) unfolding o(3) id_index_has[OF x(1)] x(2) by (auto simp: object_succs_def)
  then have "worklist roots (object_succs I) (ids (tr_objects t')) (set (tr_objectQueue t'))"
    using worklist_add[OF J'(4)] by (simp only: x(2))
  moreover have "id_index arts \<and> ids arts = artifacts_of I (ids (tr_objects t'))"
    unfolding x(2) artifacts_of_insert[OF new(2)] using new(5) J'(2,3) by (auto simp: id_index_set split: if_splits)
  moreover have "t = t0\<lparr>tr_objects := tr_objects t, tr_objectQueue := tr_objectQueue t, tr_artifacts := tr_artifacts t\<rparr>"
    using J by (simp add: object_inv_def)
  then have "t' = t0\<lparr>tr_objects := tr_objects t', tr_objectQueue := tr_objectQueue t', tr_artifacts := tr_artifacts t'\<rparr>"
    unfolding new(4) by (cases t0; cases t) simp
  ultimately show ?thesis using x(1) unfolding object_inv_def o(2) by blast
qed

definition feature_inv :: "platform \<Rightarrow> reach_input \<Rightarrow> bytes set \<Rightarrow> trace \<Rightarrow> trace \<Rightarrow> bool" where
  "feature_inv P I roots t0 t \<longleftrightarrow>
     worklist roots (feature_succs P I) (ids (tr_features t)) (set (tr_featureQueue t)) \<and>
     id_index (tr_features t) \<and> map Some (tr_manifests t) = map (manifest_of P I) (mapValues (tr_features t)) \<and>
     t = t0\<lparr>tr_features := tr_features t, tr_featureQueue := tr_featureQueue t, tr_manifests := tr_manifests t\<rparr>"

lemma visit_feature_cases:
  assumes "visit_feature P I i t = ok t'"
  obtains (skip) "t' = t" "mapHas (tr_features t) (key i)"
  | (new) manifest where "\<not> mapHas (tr_features t) (key i)" "manifest_of P I i = Some manifest"
    "t' = t\<lparr>tr_features := mapSet (tr_features t) (key i) i,
       tr_featureQueue := tr_featureQueue t @
         filter (\<lambda>j. \<not> mapHas (mapSet (tr_features t) (key i) i) (key j)) (fm_requiredManifestIds manifest),
       tr_manifests := tr_manifests t @ [manifest]\<rparr>"
  using assms
  by (auto simp: visit_feature_def Let_def and_then_eq_Inr fold_addFeature manifest_of_def load_feature_def
      split: option.splits if_splits)

lemma feature_inv_step:
  assumes J: "feature_inv P I roots t0 t" and q: "tr_featureQueue t = i # rest"
    and v: "visit_feature P I i (t\<lparr>tr_featureQueue := rest\<rparr>) = ok t'"
  shows "feature_inv P I roots t0 t'"
  using v
proof (cases rule: visit_feature_cases)
  case skip
  then have "i \<in> ids (tr_features t)" using J id_index_has[of "tr_features t" i] by (simp add: feature_inv_def)
  then have "worklist roots (feature_succs P I) (ids (tr_features t)) (set rest)"
    using J q by (auto simp: feature_inv_def intro: worklist_skip)
  moreover have "t = t0\<lparr>tr_features := tr_features t, tr_featureQueue := tr_featureQueue t, tr_manifests := tr_manifests t\<rparr>"
    using J by (simp add: feature_inv_def)
  then have "t' = t0\<lparr>tr_features := tr_features t', tr_featureQueue := tr_featureQueue t', tr_manifests := tr_manifests t'\<rparr>"
    unfolding skip(1) by (cases t0; cases t) simp
  ultimately show ?thesis using J unfolding feature_inv_def skip(1) by simp
next
  case (new manifest)
  have J': "id_index (tr_features t)" "map Some (tr_manifests t) = map (manifest_of P I) (mapValues (tr_features t))"
      "worklist roots (feature_succs P I) (ids (tr_features t)) (insert i (set rest))"
    using J q by (simp_all add: feature_inv_def)
  have f: "tr_features t' = mapSet (tr_features t) (key i) i" "tr_manifests t' = tr_manifests t @ [manifest]"
      "tr_featureQueue t' = rest @ filter (\<lambda>j. \<not> mapHas (tr_features t') (key j)) (fm_requiredManifestIds manifest)"
    using new(3) by simp_all
  have x: "id_index (tr_features t')" "ids (tr_features t') = insert i (ids (tr_features t))"
    using J'(1) by (simp_all add: f(1) id_index_set)
  have "set (tr_featureQueue t') = set rest \<union> {j \<in> feature_succs P I i. j \<notin> insert i (ids (tr_features t))}"
    using new(2) unfolding f(3) id_index_has[OF x(1)] x(2) by (auto simp: feature_succs_def)
  then have "worklist roots (feature_succs P I) (ids (tr_features t')) (set (tr_featureQueue t'))"
    using worklist_add[OF J'(3)] by (simp only: x(2))
  moreover have "map Some (tr_manifests t') = map (manifest_of P I) (mapValues (tr_features t'))"
    using J'(2) new(1,2) by (simp add: f update_fresh mapHas_def)
  moreover have "t = t0\<lparr>tr_features := tr_features t, tr_featureQueue := tr_featureQueue t, tr_manifests := tr_manifests t\<rparr>"
    using J by (simp add: feature_inv_def)
  then have "t' = t0\<lparr>tr_features := tr_features t', tr_featureQueue := tr_featureQueue t', tr_manifests := tr_manifests t'\<rparr>"
    unfolding new(3) by (cases t0; cases t) simp
  ultimately show ?thesis using x(1) unfolding feature_inv_def by blast
qed

section \<open>The trace is exact\<close>

definition needs_artifact :: "reach_input \<Rightarrow> bytes \<Rightarrow> bool" where
  "needs_artifact I a \<longleftrightarrow> a \<in> artifacts_of I (Collect (needs_object I))"

lemma object_inv_start:
  assumes "record_inv I t" "tr_recordQueue t = []"
  shows "object_inv I (dependencies_by I object_dependency (Collect (needs_record I))) t t"
  using assms(1) worklist_start record_inv_done[OF assms]
  by (auto simp: object_inv_def record_inv_def artifacts_of_def)

lemma object_inv_done:
  assumes "object_inv I (dependencies_by I object_dependency (Collect (needs_record I))) t0 t" "tr_objectQueue t = []"
  shows "ids (tr_objects t) = Collect (needs_object I)" "ids (tr_artifacts t) = Collect (needs_artifact I)"
proof -
  show o: "ids (tr_objects t) = Collect (needs_object I)"
    using assms by (simp add: object_inv_def needs_object_def worklist_done_set)
  show "ids (tr_artifacts t) = Collect (needs_artifact I)"
    using assms(1) by (simp add: object_inv_def o needs_artifact_def[abs_def])
qed

lemma object_loop_correct:
  assumes "object_inv I roots t0 t" "object_loop I t = ok t'"
  shows "object_inv I roots t0 t'" "tr_objectQueue t' = []"
  using objects.loop_invariant[of "object_inv I roots t0" I, OF object_inv_step assms] by simp_all

text \<open>The objects loop leaves the fields of the other loops alone.\<close>

lemma object_inv_frame:
  assumes "object_inv I roots t0 t"
  shows "tr_records t = tr_records t0" "tr_keyEnvelopes t = tr_keyEnvelopes t0" "tr_features t = tr_features t0"
    "tr_featureQueue t = tr_featureQueue t0" "tr_manifests t = tr_manifests t0"
proof -
  have e: "t = t0\<lparr>tr_objects := tr_objects t, tr_objectQueue := tr_objectQueue t, tr_artifacts := tr_artifacts t\<rparr>"
    using assms by (simp add: object_inv_def)
  show "tr_records t = tr_records t0" "tr_keyEnvelopes t = tr_keyEnvelopes t0" "tr_features t = tr_features t0"
    "tr_featureQueue t = tr_featureQueue t0" "tr_manifests t = tr_manifests t0"
    by (subst e, simp)+
qed

lemma feature_inv_start:
  assumes "record_inv I t0" "tr_recordQueue t0 = []" "object_inv I roots t0 t"
  shows "feature_inv P I (dependencies_by I feature_dependency (Collect (needs_record I))) t t"
  using assms(1) worklist_start record_inv_done[OF assms(1,2)] object_inv_frame[OF assms(3)]
  by (auto simp: feature_inv_def record_inv_def)

lemma feature_inv_done:
  assumes "feature_inv P I (dependencies_by I feature_dependency (Collect (needs_record I))) t0 t"
    "tr_featureQueue t = []"
  shows "ids (tr_features t) = Collect (needs_feature P I)"
  using assms by (simp add: feature_inv_def needs_feature_def worklist_done_set)

lemma feature_loop_correct:
  assumes "feature_inv P I roots t0 t" "feature_loop P I t = ok t'"
  shows "feature_inv P I roots t0 t'" "tr_featureQueue t' = []"
  using features.loop_invariant[of "feature_inv P I roots t0" P I, OF feature_inv_step assms] by simp_all

lemma feature_inv_frame:
  assumes "feature_inv P I roots t0 t"
  shows "tr_records t = tr_records t0" "tr_keyEnvelopes t = tr_keyEnvelopes t0" "tr_objects t = tr_objects t0"
    "tr_artifacts t = tr_artifacts t0"
proof -
  have e: "t = t0\<lparr>tr_features := tr_features t, tr_featureQueue := tr_featureQueue t, tr_manifests := tr_manifests t\<rparr>"
    using assms by (simp add: feature_inv_def)
  show "tr_records t = tr_records t0" "tr_keyEnvelopes t = tr_keyEnvelopes t0" "tr_objects t = tr_objects t0"
    "tr_artifacts t = tr_artifacts t0"
    by (subst e, simp)+
qed

lemma loops_correct:
  assumes "record_loop I (initial_trace I) = ok t1" "object_loop I t1 = ok t2" "feature_loop P I t2 = ok t3"
  shows "id_index (tr_records t3)" "ids (tr_records t3) = Collect (needs_record I)"
    "id_index (tr_keyEnvelopes t3)" "ids (tr_keyEnvelopes t3) = Collect (needs_envelope I)"
    "id_index (tr_objects t3)" "ids (tr_objects t3) = Collect (needs_object I)"
    "id_index (tr_artifacts t3)" "ids (tr_artifacts t3) = Collect (needs_artifact I)"
    "id_index (tr_features t3)" "ids (tr_features t3) = Collect (needs_feature P I)"
    "map Some (tr_manifests t3) = map (manifest_of P I) (mapValues (tr_features t3))"
proof -
  note r = record_loop_correct[OF assms(1)]
  note o = object_loop_correct[OF object_inv_start[OF r] assms(2)]
  note f = feature_loop_correct[OF feature_inv_start[OF r o(1)] assms(3)]
  note fin = record_inv_done[OF r] object_inv_done[OF o] feature_inv_done[OF f]
  note frame = object_inv_frame[OF o(1)] feature_inv_frame[OF f(1)]
  show "id_index (tr_records t3)" "ids (tr_records t3) = Collect (needs_record I)" "id_index (tr_keyEnvelopes t3)"
    using r(1) fin(1) by (simp_all add: frame record_inv_def)
  show "ids (tr_keyEnvelopes t3) = Collect (needs_envelope I)"
    using r(1) fin(1) by (simp add: frame record_inv_def needs_envelope_def[abs_def])
  show "id_index (tr_objects t3)" "ids (tr_objects t3) = Collect (needs_object I)" "id_index (tr_artifacts t3)"
    "ids (tr_artifacts t3) = Collect (needs_artifact I)"
    using o(1) fin(2,3) by (simp_all add: frame object_inv_def)
  show "id_index (tr_features t3)" "ids (tr_features t3) = Collect (needs_feature P I)"
    "map Some (tr_manifests t3) = map (manifest_of P I) (mapValues (tr_features t3))"
    using f(1) fin(4) by (simp_all add: feature_inv_def)
qed

lemma collect_exact:
  assumes "collectCompleteExportReachability P I = ok R"
  shows "set (recordIds R) = Collect (needs_record I)" "set (vaultObjectIds R) = Collect (needs_object I)"
    "set (keyEnvelopeIds R) = Collect (needs_envelope I)" "set (artifactIds R) = Collect (needs_artifact I)"
    "set (featureManifestIds R) = Collect (needs_feature P I)"
    "sorted_wrt (<) (recordIds R)" "sorted_wrt (<) (vaultObjectIds R)" "sorted_wrt (<) (keyEnvelopeIds R)"
    "sorted_wrt (<) (artifactIds R)" "sorted_wrt (<) (featureManifestIds R)"
proof -
  obtain t1 t2 t3 where t: "record_loop I (initial_trace I) = ok t1" "object_loop I t1 = ok t2"
      "feature_loop P I t2 = ok t3" "R = trace_result I t3"
    using assms by (auto simp: collectCompleteExportReachability_def and_then_eq_Inr)
  note l = loops_correct[OF t(1-3)]
  show "set (recordIds R) = Collect (needs_record I)" "set (vaultObjectIds R) = Collect (needs_object I)"
    "set (keyEnvelopeIds R) = Collect (needs_envelope I)" "set (artifactIds R) = Collect (needs_artifact I)"
    "set (featureManifestIds R) = Collect (needs_feature P I)"
    "sorted_wrt (<) (recordIds R)" "sorted_wrt (<) (vaultObjectIds R)" "sorted_wrt (<) (keyEnvelopeIds R)"
    "sorted_wrt (<) (artifactIds R)" "sorted_wrt (<) (featureManifestIds R)"
    using l by (simp_all add: t(4) trace_result_def sorted_ids_strict)
qed

section \<open>When the trace returns\<close>

text \<open>Every needed item is stored and carries the identities the trace checks.\<close>

definition well_stored :: "platform \<Rightarrow> reach_input \<Rightarrow> bool" where
  "well_stored P I \<longleftrightarrow>
     (\<forall>i m. closure (record_roots I) (record_succs I) (i, m) \<longrightarrow>
        (\<exists>r. ri_loadRecord I i = ok (Some r) \<and> check_record I i m r = ok ())) \<and>
     (\<forall>i. needs_object I i \<longrightarrow>
        id32 i \<and> (\<exists>object. ri_loadObject I i = ok (Some object) \<and> check_object I i object = ok ())) \<and>
     (\<forall>i. needs_feature P I i \<longrightarrow>
        (\<exists>bs m. load_feature I i = ok (Some bs) \<and> featureManifestId P bs = ok i \<and> decodeFeatureManifest P bs = ok m))"

definition within_bound :: "platform \<Rightarrow> reach_input \<Rightarrow> bool" where
  "within_bound P I \<longleftrightarrow>
     finite (Collect (needs_record I)) \<and> finite (Collect (needs_object I)) \<and> finite (Collect (needs_envelope I)) \<and>
     finite (Collect (needs_feature P I)) \<and> finite (Collect (needs_artifact I)) \<and>
     int (card (Collect (needs_record I))) + int (card (Collect (needs_object I))) +
     int (card (Collect (needs_envelope I))) + int (card (Collect (needs_feature P I))) +
     int (card (Collect (needs_artifact I))) \<le> MAX_REACHABLE_ITEMS"

definition only_needed :: "platform \<Rightarrow> reach_input \<Rightarrow> trace \<Rightarrow> bool" where
  "only_needed P I t \<longleftrightarrow>
     id_index (tr_records t) \<and> ids (tr_records t) \<subseteq> Collect (needs_record I) \<and>
     id_index (tr_objects t) \<and> ids (tr_objects t) \<subseteq> Collect (needs_object I) \<and>
     id_index (tr_keyEnvelopes t) \<and> ids (tr_keyEnvelopes t) \<subseteq> Collect (needs_envelope I) \<and>
     id_index (tr_features t) \<and> ids (tr_features t) \<subseteq> Collect (needs_feature P I) \<and>
     id_index (tr_artifacts t) \<and> ids (tr_artifacts t) \<subseteq> Collect (needs_artifact I)"

lemma bound_holds:
  assumes "within_bound P I" "only_needed P I t"
  shows "assertBound t = ok ()"
proof -
  have "length m \<le> card A" if "id_index m" "ids m \<subseteq> A" "finite A" for m and A :: "bytes set"
    using that card_mono[of A "ids m"] by (simp add: id_index_card)
  then have "length (tr_records t) \<le> card (Collect (needs_record I))"
    "length (tr_objects t) \<le> card (Collect (needs_object I))"
    "length (tr_keyEnvelopes t) \<le> card (Collect (needs_envelope I))"
    "length (tr_features t) \<le> card (Collect (needs_feature P I))"
    "length (tr_artifacts t) \<le> card (Collect (needs_artifact I))"
    using assms by (simp_all add: only_needed_def within_bound_def)
  then show ?thesis
    using assms(1) by (simp add: assertBound_def trace_count_def within_bound_def)
qed

lemma dependencies_by_mono: "R \<subseteq> S \<Longrightarrow> dependencies_by I sel R \<subseteq> dependencies_by I sel S"
  by (auto simp: dependencies_by_def)

lemma record_inv_needed:
  assumes "record_inv I t" "closure (record_roots I) (record_succs I) (i, m)"
  shows "only_needed P I (t\<lparr>tr_recordQueue := q, tr_records := mapSet (tr_records t) (key i) i, tr_recordModes := ms\<rparr>)"
proof -
  have v: "\<forall>x \<in> visited_modes t. closure (record_roots I) (record_succs I) x"
    using assms(1) by (simp add: record_inv_def worklist_def)
  have r: "ids (tr_records t) \<subseteq> Collect (needs_record I)"
  proof
    fix j assume "j \<in> ids (tr_records t)"
    then have "mapGet (tr_recordModes t) (key j) \<noteq> None" using assms(1) by (simp add: record_inv_def)
    then obtain p where "mapGet (tr_recordModes t) (key j) = Some p" by blast
    then have "(j, p) \<in> visited_modes t" by (simp add: visited_modes_def)
    then show "j \<in> Collect (needs_record I)" using v by (auto simp: needs_record_def)
  qed
  moreover have "i \<in> Collect (needs_record I)" using assms(2) by (auto simp: needs_record_def)
  ultimately show ?thesis
    using assms(1) dependencies_by_mono[OF r, of I envelope_dependency]
    by (auto simp: only_needed_def record_inv_def id_index_set needs_envelope_def)
qed

lemma record_loop_returns:
  assumes "well_stored P I" "within_bound P I"
  shows "\<exists>t. record_loop I (initial_trace I) = ok t"
proof (rule records.loop_returns[of "record_inv I" I, OF record_inv_step _ record_inv_start])
  fix t item rest assume J: "record_inv I t" and q: "tr_recordQueue t = item # rest"
  obtain i m where item: "item = (i, m)" by fastforce
  have c: "closure (record_roots I) (record_succs I) (i, m)" using J q by (simp add: record_inv_def worklist_def item)
  then obtain r where "ri_loadRecord I i = ok (Some r)" "check_record I i m r = ok ()"
    using assms(1) unfolding well_stored_def by blast
  then show "\<exists>t'. visit_record I item (t\<lparr>tr_recordQueue := rest\<rparr>) = ok t'"
    using bound_holds[OF assms(2) record_inv_needed[OF J c]] by (simp add: visit_record_def Let_def item)
qed

lemma artifactId_id: "ob_objectType object = ARTIFACT_OBJECT \<Longrightarrow> id32 (ob_objectId object) \<Longrightarrow> artifactId object = ok (ob_objectId object)"
  by (simp add: artifactId_def identifier_of_ok valid_id_def NONZERO_IDENTIFIER_KINDS_def)

abbreviation object_roots :: "reach_input \<Rightarrow> bytes set" where
  "object_roots I \<equiv> dependencies_by I object_dependency (Collect (needs_record I))"

abbreviation feature_roots :: "reach_input \<Rightarrow> bytes set" where
  "feature_roots I \<equiv> dependencies_by I feature_dependency (Collect (needs_record I))"

lemma artifacts_of_mono: "A \<subseteq> B \<Longrightarrow> artifacts_of I A \<subseteq> artifacts_of I B"
  by (auto simp: artifacts_of_def)

lemma object_inv_needed:
  assumes "only_needed P I t0" "object_inv I (object_roots I) t0 t" "needs_object I i"
  shows "only_needed P I (t\<lparr>tr_objectQueue := q, tr_objects := mapSet (tr_objects t) (key i) i\<rparr>)"
proof -
  have o: "ids (tr_objects t) \<subseteq> Collect (needs_object I)"
    using assms(2) by (auto simp: object_inv_def worklist_def needs_object_def)
  then show ?thesis
    using assms artifacts_of_mono[OF o, of I] object_inv_frame[OF assms(2)]
    by (auto simp: only_needed_def object_inv_def id_index_set needs_artifact_def)
qed

lemma object_loop_returns:
  assumes "well_stored P I" "within_bound P I" "only_needed P I t0" "object_inv I (object_roots I) t0 t0"
  shows "\<exists>t. object_loop I t0 = ok t"
proof (rule objects.loop_returns[of "object_inv I (object_roots I) t0" I, OF object_inv_step _ assms(4)])
  fix t i rest assume J: "object_inv I (object_roots I) t0 t" and q: "tr_objectQueue t = i # rest"
  have n: "needs_object I i" using J q by (simp add: object_inv_def worklist_def needs_object_def)
  then obtain object where o: "ri_loadObject I i = ok (Some object)" "check_object I i object = ok ()" "id32 i"
    using assms(1) unfolding well_stored_def by blast
  then have "ob_objectId object = i" by (simp add: check_object_def same_bytes_def and_then_eq_Inr)
  then have "\<exists>t'. add_artifact object t'' = ok t'" for t''
    using artifactId_id[of object] o(3) by (simp add: add_artifact_def)
  then show "\<exists>t'. visit_object I i (t\<lparr>tr_objectQueue := rest\<rparr>) = ok t'"
    using bound_holds[OF assms(2) object_inv_needed[OF assms(3) J n]] o(1,2)
    by (simp add: visit_object_def Let_def)
qed

lemma feature_inv_needed:
  assumes "only_needed P I t0" "feature_inv P I (feature_roots I) t0 t" "needs_feature P I i"
  shows "only_needed P I (t\<lparr>tr_featureQueue := q, tr_features := mapSet (tr_features t) (key i) i, tr_manifests := ms\<rparr>)"
proof -
  have "ids (tr_features t) \<subseteq> Collect (needs_feature P I)"
    using assms(2) by (auto simp: feature_inv_def worklist_def needs_feature_def)
  then show ?thesis
    using assms feature_inv_frame[OF assms(2)] by (auto simp: only_needed_def feature_inv_def id_index_set)
qed

lemma feature_loop_returns:
  assumes "well_stored P I" "within_bound P I" "only_needed P I t0" "feature_inv P I (feature_roots I) t0 t0"
  shows "\<exists>t. feature_loop P I t0 = ok t"
proof (rule features.loop_returns[of "feature_inv P I (feature_roots I) t0" P I, OF feature_inv_step _ assms(4)])
  fix t i rest assume J: "feature_inv P I (feature_roots I) t0 t" and q: "tr_featureQueue t = i # rest"
  have n: "needs_feature P I i" using J q by (simp add: feature_inv_def worklist_def needs_feature_def)
  then obtain bs m where "load_feature I i = ok (Some bs)" "featureManifestId P bs = ok i" "decodeFeatureManifest P bs = ok m"
    using assms(1) unfolding well_stored_def by blast
  then show "\<exists>t'. visit_feature P I i (t\<lparr>tr_featureQueue := rest\<rparr>) = ok t'"
    using bound_holds[OF assms(2) feature_inv_needed[OF assms(3) J n]]
    by (simp add: visit_feature_def Let_def load_feature_def same_bytes_def)
qed

lemma record_inv_only_needed:
  assumes "record_inv I t" "tr_recordQueue t = []"
  shows "only_needed P I t"
  using assms(1) record_inv_done[OF assms] by (auto simp: only_needed_def record_inv_def needs_envelope_def)

lemma object_inv_only_needed:
  assumes "only_needed P I t0" "object_inv I (object_roots I) t0 t" "tr_objectQueue t = []"
  shows "only_needed P I t"
  using assms(1,2) object_inv_done[OF assms(2,3)] object_inv_frame[OF assms(2)]
  by (auto simp: only_needed_def object_inv_def)

section \<open>Traces for Garbage Collection\<close>

definition needed :: "platform \<Rightarrow> reach_input \<Rightarrow> nat \<Rightarrow> bytes \<Rightarrow> bool" where
  "needed P I kind i =
     (kind = 1 \<and> needs_record I i \<or> kind = 2 \<and> needs_envelope I i \<or> kind = 3 \<and> needs_object I i \<or>
      kind = 4 \<and> needs_feature P I i \<or> kind = 5 \<and> needs_artifact I i)"

text \<open>The states whose items a Replica keeps: its own and one for each preservation root.\<close>

definition kept_states :: "gc_reach_input \<Rightarrow> reach_input set" where
  "kept_states G = insert (active_input G)
     {preserved_input G root r | root r. root \<in> set (gr_preservationRoots G) \<and> gr_loadRecord G root = ok (Some r)}"

lemma set_mergeIds [simp]: "set (mergeIds groups) = \<Union> (set ` set groups)"
proof -
  have "set (mergeIds groups) = snd ` set (mapFrom (map (\<lambda>v. (key v, v)) (concat groups)))"
    by (simp add: mergeIds_def)
  also have "\<dots> = set (concat groups)"
  proof -
    have "snd ` set (mapFrom (map (\<lambda>v. (key v, v)) xs)) = set xs" for xs
      using set_deduplicatedIds[of xs] by (simp add: deduplicatedIds_def)
    then show ?thesis .
  qed
  finally show ?thesis by simp
qed

lemma collect_live: "collectCompleteExportReachability P I = ok R \<Longrightarrow> live R k i \<longleftrightarrow> needed P I k i"
  using collect_exact(1-5)[of P I R] by (simp add: live_def needed_def)

lemma gc_reach_ok:
  assumes "collectReplicaGarbageCollectionReachability P G = ok R"
  obtains active preserved where "collectCompleteExportReachability P (active_input G) = ok active"
    "\<And>i. i \<in> set (gr_continuityRecordIds G) \<Longrightarrow> i \<in> set (recordIds active)"
    "list_all2 (\<lambda>root c. preserved_closure P G root = ok c) (gr_preservationRoots G) preserved"
    "\<And>k i. live R k i \<longleftrightarrow> (\<exists>c \<in> set (active # preserved). live c k i)"
proof -
  obtain active preserved where a: "collectCompleteExportReachability P (active_input G) = ok active"
      "\<forall>i \<in> set (gr_continuityRecordIds G). continuity_traced active i = ok ()"
      "traverse (preserved_closure P G) (gr_preservationRoots G) = ok preserved"
    and R: "R = \<lparr>typedLogicalRoots = typedLogicalRoots active,
           recordIds = mergeIds (map recordIds (active # preserved)),
           vaultObjectIds = mergeIds (map vaultObjectIds (active # preserved)),
           keyEnvelopeIds = mergeIds (map keyEnvelopeIds (active # preserved)),
           featureManifestIds = mergeIds (map featureManifestIds (active # preserved)),
           artifactIds = mergeIds (map artifactIds (active # preserved))\<rparr>"
    using assms by (auto simp: collectReplicaGarbageCollectionReachability_def and_then_eq_Inr checks_ok Let_def)
  have "live R k i \<longleftrightarrow> (\<exists>c \<in> set (active # preserved). live c k i)" for k i
    unfolding R by (auto simp: live_def)
  moreover have "i \<in> set (recordIds active)" if "i \<in> set (gr_continuityRecordIds G)" for i
    using a(2) that by (auto simp: continuity_traced_def list_ex_iff)
  ultimately show ?thesis using that[OF a(1)] a(3) by (simp add: traverse_eq_Inr)
qed

lemma gc_reach_live:
  assumes "collectReplicaGarbageCollectionReachability P G = ok R"
  shows "live R k i \<longleftrightarrow> (\<exists>I \<in> kept_states G. needed P I k i)"
proof -
  obtain active preserved where a: "collectCompleteExportReachability P (active_input G) = ok active"
    and p: "list_all2 (\<lambda>root c. preserved_closure P G root = ok c) (gr_preservationRoots G) preserved"
    and l: "live R k i \<longleftrightarrow> (\<exists>c \<in> set (active # preserved). live c k i)"
    using gc_reach_ok[OF assms] by metis
  have c: "preserved_closure P G root = ok c \<longleftrightarrow> (\<exists>r. gr_loadRecord G root = ok (Some r) \<and>
      collectCompleteExportReachability P (preserved_input G root r) = ok c)" for root c
    by (auto simp: preserved_closure_def and_then_eq_Inr split: option.splits)
  have "(\<exists>c \<in> set preserved. live c k i) \<longleftrightarrow> (\<exists>root r. root \<in> set (gr_preservationRoots G) \<and>
      gr_loadRecord G root = ok (Some r) \<and> needed P (preserved_input G root r) k i)"
    using p
  proof (induction rule: list_all2_induct)
    case (Cons root roots c cs)
    obtain r where r: "gr_loadRecord G root = ok (Some r)" "collectCompleteExportReachability P (preserved_input G root r) = ok c"
      using Cons(1) unfolding c by blast
    have "live c k i \<longleftrightarrow> needed P (preserved_input G root r) k i" by (rule collect_live[OF r(2)])
    then show ?case using Cons.IH r(1) by auto
  qed simp
  then show ?thesis unfolding l by (auto simp: collect_live[OF a] kept_states_def)
qed

section \<open>Properties\<close>

text \<open>
  C32. The trace is exact: when it returns, each list holds, strictly ordered, precisely the items of its
  kind that the accepted state needs, that is the closure of the Baseline and the Frontiers under
  Authority Parents, causal parents of causally reached Records, dependencies, object references and
  Feature Manifest requirements.
\<close>

theorem reachability_exact:
  assumes "collectCompleteExportReachability P I = ok R"
  shows "set (recordIds R) = Collect (needs_record I) \<and> set (vaultObjectIds R) = Collect (needs_object I) \<and>
    set (keyEnvelopeIds R) = Collect (needs_envelope I) \<and> set (artifactIds R) = Collect (needs_artifact I) \<and>
    set (featureManifestIds R) = Collect (needs_feature P I) \<and>
    sorted_wrt (<) (recordIds R) \<and> sorted_wrt (<) (vaultObjectIds R) \<and> sorted_wrt (<) (keyEnvelopeIds R) \<and>
    sorted_wrt (<) (artifactIds R) \<and> sorted_wrt (<) (featureManifestIds R)"
  using collect_exact[OF assms] by (intro conjI)

text \<open>
  C33. The trace ends with a result: when both Frontiers are nonempty, every needed item is stored with
  the identities it should have, at most a million items are needed, and the needed Feature Manifests
  form the Required Feature Set, then the trace returns.
\<close>

theorem reachability_returns:
  assumes "ri_causalFrontier I \<noteq> []" "ri_authorityFrontier I \<noteq> []" "well_stored P I" "within_bound P I"
    and feature_set: "\<And>fs. distinct fs \<Longrightarrow> set fs = Collect (needs_feature P I) \<Longrightarrow>
      requiredFeatureSetId P (map (\<lambda>i. the (manifest_of P I i)) fs) = ok (ri_requiredFeatureSetId I)"
  shows "\<exists>R. collectCompleteExportReachability P I = ok R"
proof -
  obtain t1 where t1: "record_loop I (initial_trace I) = ok t1" using record_loop_returns[OF assms(3,4)] ..
  note r = record_loop_correct[OF t1]
  obtain t2 where t2: "object_loop I t1 = ok t2"
    using object_loop_returns[OF assms(3,4) record_inv_only_needed[OF r] object_inv_start[OF r]] ..
  note o = object_loop_correct[OF object_inv_start[OF r] t2]
  obtain t3 where t3: "feature_loop P I t2 = ok t3"
    using feature_loop_returns[OF assms(3,4) object_inv_only_needed[OF record_inv_only_needed[OF r] o]
        feature_inv_start[OF r o(1)]] ..
  note l = loops_correct[OF t1 t2 t3]
  have "tr_manifests t3 = map (\<lambda>i. the (manifest_of P I i)) (mapValues (tr_features t3))"
    using arg_cong[OF l(11), of "map the"] by (simp add: comp_def)
  then have "requiredFeatureSetId P (tr_manifests t3) = ok (ri_requiredFeatureSetId I)"
    using feature_set[of "mapValues (tr_features t3)"] id_index_card(1)[OF l(9)] l(10) by (simp add: ids_def)
  then show ?thesis
    using assms(1,2) t1 t2 t3 by (simp add: collectCompleteExportReachability_def same_bytes_def)
qed

text \<open>
  C34. Tracing and planning together are safe: a plan made from the Garbage Collection trace deletes no
  compact item and no resolution that the Replica's own state or a preserved state needs, keeps the Key
  Epoch Secret of each needed item and the stored bytes of each needed Artifact, and the Records of the
  Continuity Proof are among the needed ones.
\<close>

theorem traced_plan_keeps_needed:
  assumes "collectReplicaGarbageCollectionReachability P G = ok (gi_reachability inp)"
    and "planReplicaGarbageCollection inp = ok plan"
  shows "(\<forall>I k i. I \<in> kept_states G \<and> needed P I k i \<longrightarrow>
      \<lparr>ci_kind = k, ci_logicalId = i\<rparr> \<notin> set (deleteCompactItems plan) \<and>
      (\<exists>r \<in> set (gi_resolutions inp). lr_kind r = k \<and> lr_logicalId r = i \<and> r \<notin> set (deleteResolutions plan) \<and>
         lr_keyEpochId r \<in> set (gi_epochSecretIds inp) - set (deleteEpochSecretIds plan) \<and>
         (k = 5 \<longrightarrow> lr_storageItemId r \<notin> set (artifactCleanupStorageItemIds plan)))) \<and>
    (\<forall>i \<in> set (gr_continuityRecordIds G). needed P (active_input G) 1 i)"
proof (intro conjI allI impI ballI)
  have c: "consistent_inventory inp" and plan: "plan = gc_outcome inp" using assms(2) unfolding plan_ok by simp_all
  fix I k i assume n: "I \<in> kept_states G \<and> needed P I k i"
  then have l: "live (gi_reachability inp) k i" using gc_reach_live[OF assms(1)] by blast
  then show "\<lparr>ci_kind = k, ci_logicalId = i\<rparr> \<notin> set (deleteCompactItems plan)"
    by (auto simp: plan gc_outcome_def sortLogical_def Let_def)
  obtain r where r: "r \<in> set (gi_resolutions inp)" "lr_kind r = k" "lr_logicalId r = i"
    using l c by (auto simp: consistent_inventory_def)
  have e: "lr_keyEpochId r \<in> set (gi_epochSecretIds inp) - set (deleteEpochSecretIds plan)"
    using live_not_cleaned(2)[OF r(1)] l r(2,3) c by (auto simp: plan gc_outcome_def consistent_inventory_def Let_def)
  show "\<exists>r \<in> set (gi_resolutions inp). lr_kind r = k \<and> lr_logicalId r = i \<and> r \<notin> set (deleteResolutions plan) \<and>
         lr_keyEpochId r \<in> set (gi_epochSecretIds inp) - set (deleteEpochSecretIds plan) \<and>
         (k = 5 \<longrightarrow> lr_storageItemId r \<notin> set (artifactCleanupStorageItemIds plan))"
    using r live_not_cleaned[OF r(1)] l e by (intro bexI[of _ r]) (auto simp: plan)
next
  fix i assume i: "i \<in> set (gr_continuityRecordIds G)"
  obtain active preserved where "collectCompleteExportReachability P (active_input G) = ok active"
      "i \<in> set (recordIds active)"
    using gc_reach_ok[OF assms(1)] i by metis
  then show "needed P (active_input G) 1 i" using collect_exact(1) by (auto simp: needed_def)
qed

section \<open>A concrete Replica\<close>

definition demo_root :: bytes where "demo_root = replicate 32 7"

definition demo_feature_set :: bytes where
  "demo_feature_set = (case requiredFeatureSetId ref_platform [] of Inr i \<Rightarrow> i | Inl _ \<Rightarrow> [])"

definition demo_baseline :: vault_baseline where
  "demo_baseline =
     \<lparr>bl_vaultId = replicate 32 1, bl_generationId = replicate 32 2, bl_dependencies = [],
      bl_requiredFeatureSetId = demo_feature_set, bl_extensions = [], bl_body = CNull, bl_bytes = [],
      bl_recordId = demo_root\<rparr>"

definition demo_replica :: gc_reach_input where
  "demo_replica =
     \<lparr>gr_vaultId = replicate 32 1, gr_generationId = replicate 32 2, gr_requiredFeatureSetId = demo_feature_set,
      gr_baselineId = demo_root, gr_causalFrontier = [demo_root], gr_authorityFrontier = [demo_root],
      gr_continuityRecordIds = [demo_root], gr_preservationRoots = [demo_root], gr_adopted = False,
      gr_loadRecord = (\<lambda>i. ok (if i = demo_root then Some (BaselineRecord demo_baseline) else None)),
      gr_loadObject = (\<lambda>_. ok None), gr_loadFeatureManifest = None\<rparr>"

definition demo_reach :: reach_input where "demo_reach = active_input demo_replica"

lemma demo_collects: "\<exists>R. collectCompleteExportReachability ref_platform demo_reach = ok R"
proof -
  have "\<not> isl (collectCompleteExportReachability ref_platform demo_reach)" by code_simp
  then show ?thesis by (cases "collectCompleteExportReachability ref_platform demo_reach") auto
qed

theorem reachability_exact_witness:
  "\<exists>R. collectCompleteExportReachability ref_platform demo_reach = ok R \<and>
     set (recordIds R) = Collect (needs_record demo_reach)"
  using demo_collects reachability_exact[of ref_platform demo_reach] by blast

lemma demo_closure:
  assumes "closure (record_roots demo_reach) (record_succs demo_reach) (i, m)"
  shows "i = demo_root"
proof -
  have "fst x = demo_root" if "closure (record_roots demo_reach) (record_succs demo_reach) x" for x
    using that
  proof induction
    case (closure_root x)
    then show ?case by (auto simp: record_roots_def demo_reach_def active_input_def demo_replica_def)
  next
    case (closure_step x y)
    then show ?case
      by (cases x) (auto simp: record_succs_def demo_reach_def active_input_def demo_replica_def followed_def
          demo_baseline_def split: if_splits)
  qed
  from this[OF assms] show ?thesis by simp
qed

lemma demo_needs:
  "needs_record demo_reach i \<Longrightarrow> i = demo_root" "\<not> needs_object demo_reach i" "\<not> needs_envelope demo_reach i"
  "\<not> needs_feature ref_platform demo_reach i" "\<not> needs_artifact demo_reach i"
proof -
  show r: "needs_record demo_reach i \<Longrightarrow> i = demo_root" for i using demo_closure by (auto simp: needs_record_def)
  have d: "dependencies_by demo_reach sel (Collect (needs_record demo_reach)) = {}" for sel
    by (auto simp: dependencies_by_def dest!: r)
      (auto simp: followed_def demo_reach_def active_input_def demo_replica_def demo_baseline_def)
  have c: "\<not> closure {} succs (x :: bytes)" for succs x
  proof
    assume "closure {} succs x" then show False by induction simp_all
  qed
  show o: "\<not> needs_object demo_reach i" for i by (simp add: needs_object_def d c)
  show "\<not> needs_envelope demo_reach i" "\<not> needs_feature ref_platform demo_reach i" "\<not> needs_artifact demo_reach i"
    using o by (simp_all add: needs_envelope_def needs_feature_def needs_artifact_def artifacts_of_def d c)
qed

lemma demo_needs_none:
  "Collect (needs_object demo_reach) = {}" "Collect (needs_envelope demo_reach) = {}"
  "Collect (needs_feature ref_platform demo_reach) = {}" "Collect (needs_artifact demo_reach) = {}"
  using demo_needs(2-5) by auto

lemma demo_well_stored: "well_stored ref_platform demo_reach"
proof -
  have "check_record demo_reach demo_root m (BaselineRecord demo_baseline) = ok ()" for m
    by (simp add: check_record_def same_bytes_def demo_reach_def active_input_def demo_replica_def demo_baseline_def)
  moreover have "ri_loadRecord demo_reach demo_root = ok (Some (BaselineRecord demo_baseline))"
    by (simp add: demo_reach_def active_input_def demo_replica_def)
  ultimately show ?thesis using demo_needs(2,4) demo_closure by (fastforce simp: well_stored_def)
qed

lemma demo_within_bound: "within_bound ref_platform demo_reach"
proof -
  have r: "Collect (needs_record demo_reach) \<subseteq> {demo_root}" using demo_needs(1) by auto
  then have "finite (Collect (needs_record demo_reach))" "card (Collect (needs_record demo_reach)) \<le> 1"
    using finite_subset[OF r] card_mono[OF _ r] by simp_all
  then show ?thesis by (simp add: within_bound_def MAX_REACHABLE_ITEMS_def demo_needs_none)
qed

theorem reachability_returns_witness: "\<exists>R. collectCompleteExportReachability ref_platform demo_reach = ok R"
proof (rule reachability_returns[OF _ _ demo_well_stored demo_within_bound])
  show "ri_causalFrontier demo_reach \<noteq> []" "ri_authorityFrontier demo_reach \<noteq> []"
    by (simp_all add: demo_reach_def active_input_def demo_replica_def)
  fix fs assume "set fs = Collect (needs_feature ref_platform demo_reach)"
  then have "fs = []" by (simp add: demo_needs_none)
  moreover have "requiredFeatureSetId ref_platform [] = ok demo_feature_set" by code_simp
  ultimately show "requiredFeatureSetId ref_platform (map (\<lambda>i. the (manifest_of ref_platform demo_reach i)) fs) =
      ok (ri_requiredFeatureSetId demo_reach)"
    by (simp add: demo_reach_def active_input_def demo_replica_def)
qed

definition demo_traced :: gc_input where
  "demo_traced =
     \<lparr>currentKeyEpochId = replicate 32 3,
      gi_reachability = \<lparr>typedLogicalRoots = [dependency DepVaultRecord demo_root, dependency DepVaultBaseline demo_root],
        recordIds = [demo_root], vaultObjectIds = [], keyEnvelopeIds = [], featureManifestIds = [], artifactIds = []\<rparr>,
      gi_resolutions = [\<lparr>lr_vaultId = replicate 32 1, lr_kind = 1, lr_logicalId = demo_root,
        lr_storageItemId = replicate 32 4, lr_keyEpochId = replicate 32 3, lr_availability = 1\<rparr>],
      gi_compactItems = [\<lparr>ci_kind = 1, ci_logicalId = demo_root\<rparr>, \<lparr>ci_kind = 1, ci_logicalId = replicate 32 6\<rparr>],
      gi_epochSecretIds = [replicate 32 3]\<rparr>"

theorem traced_plan_keeps_needed_witness:
  "\<exists>plan. planReplicaGarbageCollection demo_traced = ok plan \<and> needed ref_platform (active_input demo_replica) 1 demo_root"
proof -
  have c: "collectReplicaGarbageCollectionReachability ref_platform demo_replica = ok (gi_reachability demo_traced)"
    by code_simp
  have "\<not> isl (planReplicaGarbageCollection demo_traced)" by code_simp
  then obtain plan where p: "planReplicaGarbageCollection demo_traced = ok plan"
    by (cases "planReplicaGarbageCollection demo_traced") auto
  have "demo_root \<in> set (gr_continuityRecordIds demo_replica)" by (simp add: demo_replica_def)
  with traced_plan_keeps_needed[OF c p] p show ?thesis by blast
qed

end
