(* ===== verification/Collection_Job.thy ===== *)
theory Collection_Job
  imports Garbage_Collection
begin

text \<open>
  The durable Job of a Replica Garbage Collection (\<open>runtime/storage/garbage-collection-job.ts\<close>):
  its fields, the validator every write and read goes through, and its canonical encoding. The
  lemmas say exactly when a Job is valid, what a decoded Job is bounded by, and that a Job read
  back is the Job that was written.
\<close>

section \<open>Data\<close>

record gc_lease =
  ownerId :: string
  expiresAtMs :: int

record compact_outcome =
  co_removedCompactItemCount :: int
  co_removedResolutionCount :: int
  co_removedEpochSecretCount :: int

record terminal_outcome =
  to_removedCompactItemCount :: int
  to_removedResolutionCount :: int
  to_removedEpochSecretCount :: int
  to_removedArtifactCount :: int

record gc_job =
  jobId :: string
  job_vaultId :: bytes
  idempotencyKey :: bytes
  createdAtMs :: int
  job_state :: int
  job_stage :: int
  attempt :: int
  lease :: "gc_lease option"
  cancellationRequested :: bool
  compactOutcome :: compact_outcome
  terminalOutcome :: "terminal_outcome option"
  job_candidates :: "artifact_candidate list"

definition JOB_FORMAT :: int where "JOB_FORMAT = 1"
definition JOB_STAGE_ARTIFACT_CLEANUP :: int where "JOB_STAGE_ARTIFACT_CLEANUP = 1"
definition JOB_STATES :: "int list" where "JOB_STATES = [1, 2, 3]"

section \<open>Operations\<close>

definition lower_hex :: "char \<Rightarrow> bool" where
  "lower_hex c = (let n = (of_char c :: nat) in (48 \<le> n \<and> n \<le> 57) \<or> (97 \<le> n \<and> n \<le> 102))"

text \<open>\<open>/^[0-9a-f]{8}-[0-9a-f]{4}-[1-8][0-9a-f]{3}-[89ab][0-9a-f]{3}-[0-9a-f]{12}$/u\<close>\<close>

definition UUID :: "string \<Rightarrow> bool" where
  "UUID s =
     list_all2 (\<lambda>p c. p c)
       (replicate 8 lower_hex @ [(\<lambda>c. c = CHR ''-'')] @
        replicate 4 lower_hex @ [(\<lambda>c. c = CHR ''-'')] @
        [(\<lambda>c. c \<in> set ''12345678'')] @ replicate 3 lower_hex @ [(\<lambda>c. c = CHR ''-'')] @
        [(\<lambda>c. c \<in> set ''89ab'')] @ replicate 3 lower_hex @ [(\<lambda>c. c = CHR ''-'')] @
        replicate 12 lower_hex) s"

definition uuid :: "cvalue \<Rightarrow> string \<Rightarrow> string res" where
  "uuid value field =
     and_then (textValue value field (default_text\<lparr>maxUtf8Bytes := Some 64\<rparr>)) (\<lambda>parsed.
     if \<not> UUID parsed then throw (TypeError (field @ '' must be a lowercase UUID'')) else ok parsed)"

definition candidateValue :: "artifact_candidate \<Rightarrow> cmap res" where
  "candidateValue candidate =
     and_then (identifierValue (CBytes (ca_artifactId candidate)) ArtifactId
       ''Garbage Collection Artifact ID'') (\<lambda>artifactId.
     and_then (identifierValue (CBytes (ca_storageItemId candidate)) StorageItemId
       ''Garbage Collection Storage Item ID'') (\<lambda>storageItemId.
     and_then (identifierValue (CBytes (ca_keyEpochId candidate)) KeyEpochId
       ''Garbage Collection Key Epoch ID'') (\<lambda>epochId.
     canonicalMap [(0, CBytes artifactId), (1, CBytes storageItemId), (2, CBytes epochId)])))"

definition candidateValues :: "platform \<Rightarrow> artifact_candidate list \<Rightarrow> cvalue list res" where
  "candidateValues P candidates =
     and_then (guard_not (length candidates = 0)
       (TypeError ''Replica Garbage Collection Job must contain cleanup candidates'')) (\<lambda>_.
     let artifactKeys = map (\<lambda>c. key (ca_artifactId c)) candidates in
     and_then (guard_not (card (set artifactKeys) \<noteq> length artifactKeys)
       (TypeError ''Replica Garbage Collection Job contains a duplicate Artifact ID'')) (\<lambda>_.
     and_then (traverse (\<lambda>c. and_then (candidateValue c) (\<lambda>m. ok (CMap m))) candidates)
       (canonicalSet P)))"

definition parseCandidate :: "nat \<Rightarrow> cvalue \<Rightarrow> artifact_candidate res" where
  "parseCandidate index value =
     and_then (exactMap value (num_keys 3) (''Garbage Collection candidate '' @ nat_str index)) (\<lambda>m.
     and_then (with_field m 0 (\<lambda>v. identifierValue v ArtifactId ''Garbage Collection Artifact ID''))
       (\<lambda>artifactId.
     and_then (with_field m 1 (\<lambda>v. identifierValue v StorageItemId ''Garbage Collection Storage Item ID''))
       (\<lambda>storageItemId.
     and_then (with_field m 2 (\<lambda>v. identifierValue v KeyEpochId ''Garbage Collection Key Epoch ID''))
       (\<lambda>epochId.
     ok \<lparr>ca_artifactId = artifactId, ca_storageItemId = storageItemId, ca_keyEpochId = epochId\<rparr>))))"

definition replicaGarbageCollectionIdempotencyKey ::
  "platform \<Rightarrow> bytes \<Rightarrow> artifact_candidate list \<Rightarrow> bytes res" where
  "replicaGarbageCollectionIdempotencyKey P vaultId candidates =
     and_then (candidateValues P candidates) (\<lambda>values.
     and_then (encodeCanonicalValue P (CArray values)) (\<lambda>encoded.
     and_then (transcript ''awsm:replica-garbage-collection-job:v1'' [vaultId, encoded]) (\<lambda>t.
     ok (sha256 P t))))"

definition leaseValue :: "gc_lease option \<Rightarrow> cvalue res" where
  "leaseValue l =
     (case l of
        None \<Rightarrow> ok CNull
      | Some l \<Rightarrow>
          and_then (uuid (CText (ownerId l)) ''Garbage Collection lease owner'') (\<lambda>owner.
          and_then (nonnegativeInteger (CNum (expiresAtMs l)) ''Garbage Collection lease expiry'') (\<lambda>expiry.
          and_then (canonicalMap [(0, CText owner), (1, CNum expiry)]) (\<lambda>m. ok (CMap m)))))"

text \<open>A parser called for its exceptions only.\<close>

definition void :: "'a res \<Rightarrow> unit res" where
  "void r = and_then r (\<lambda>_. ok ())"

definition validateTerminal :: "compact_outcome \<Rightarrow> artifact_candidate list \<Rightarrow> terminal_outcome \<Rightarrow> unit res" where
  "validateTerminal compact candidates t =
     checks
       [void (nonnegativeInteger (CNum (to_removedCompactItemCount t))
          ''Garbage Collection terminal compact item count''),
        void (nonnegativeInteger (CNum (to_removedResolutionCount t))
          ''Garbage Collection terminal resolution count''),
        void (nonnegativeInteger (CNum (to_removedEpochSecretCount t))
          ''Garbage Collection terminal Epoch Secret count''),
        void (nonnegativeInteger (CNum (to_removedArtifactCount t))
          ''Garbage Collection terminal Artifact count''),
        (let physicalArtifactCount = int (card (set (map (\<lambda>c. key (ca_storageItemId c)) candidates)));
             candidateEpochCount = int (card (set (map (\<lambda>c. key (ca_keyEpochId c)) candidates)))
         in guard_not
              (to_removedCompactItemCount t \<noteq> co_removedCompactItemCount compact \<or>
               to_removedResolutionCount t \<noteq> co_removedResolutionCount compact + int (length candidates) \<or>
               to_removedArtifactCount t \<noteq> physicalArtifactCount \<or>
               to_removedEpochSecretCount t < co_removedEpochSecretCount compact \<or>
               to_removedEpochSecretCount t > co_removedEpochSecretCount compact + candidateEpochCount)
              (TypeError ''Garbage Collection terminal outcome does not match its durable work''))]"

definition validateJob :: "platform \<Rightarrow> gc_job \<Rightarrow> gc_job res" where
  "validateJob P job =
     and_then (checks
       [void (uuid (CText (jobId job)) ''Garbage Collection Job ID''),
        void (identifierValue (CBytes (job_vaultId job)) VaultId ''Garbage Collection Vault ID''),
        void (nonnegativeInteger (CNum (createdAtMs job)) ''Garbage Collection creation time''),
        void (oneOfCodes (CNum (job_state job)) JOB_STATES ''Garbage Collection Job state''),
        void (exactCode (CNum (job_stage job)) JOB_STAGE_ARTIFACT_CLEANUP ''Garbage Collection Job stage''),
        void (nonnegativeInteger (CNum (attempt job)) ''Garbage Collection attempt''),
        guard_not (job_state job = 1 \<and> lease job \<noteq> None)
          (TypeError ''A ready Garbage Collection Job cannot retain a lease''),
        guard_not (job_state job = 2 \<and> (lease job = None \<or> attempt job < 1))
          (TypeError ''A running Garbage Collection Job requires a lease and attempt''),
        guard_not (job_state job = 3 \<and>
            (lease job \<noteq> None \<or> attempt job < 1 \<or> terminalOutcome job = None))
          (TypeError ''A succeeded Garbage Collection Job requires one terminal outcome''),
        guard_not (job_state job \<noteq> 3 \<and> terminalOutcome job \<noteq> None)
          (TypeError ''A nonterminal Garbage Collection Job cannot contain a terminal outcome''),
        guard_not (case lease job of None \<Rightarrow> False | Some l \<Rightarrow> expiresAtMs l \<le> createdAtMs job)
          (TypeError ''Garbage Collection lease must expire after Job creation''),
        guard_not (cancellationRequested job)
          (TypeError ''Artifact cleanup cannot be cancelled after its safety fence commits''),
        void (nonnegativeInteger (CNum (co_removedCompactItemCount (compactOutcome job)))
          ''Garbage Collection compact item count''),
        void (nonnegativeInteger (CNum (co_removedResolutionCount (compactOutcome job)))
          ''Garbage Collection resolution count''),
        void (nonnegativeInteger (CNum (co_removedEpochSecretCount (compactOutcome job)))
          ''Garbage Collection Epoch Secret count''),
        (case terminalOutcome job of
           None \<Rightarrow> ok ()
         | Some t \<Rightarrow> validateTerminal (compactOutcome job) (job_candidates job) t)]) (\<lambda>_.
     and_then (replicaGarbageCollectionIdempotencyKey P (job_vaultId job) (job_candidates job)) (\<lambda>expected.
     and_then (byteString (CBytes (idempotencyKey job)) 32 ''Garbage Collection idempotency key'') (\<lambda>actual.
     if \<not> bytesEqual actual expected
     then throw (TypeError ''Garbage Collection idempotency key does not match its candidates'')
     else ok job)))"

definition compactOutcomeEntries :: "compact_outcome \<Rightarrow> (int \<times> cvalue) list" where
  "compactOutcomeEntries c =
     [(0, CNum (co_removedCompactItemCount c)), (1, CNum (co_removedResolutionCount c)),
      (2, CNum (co_removedEpochSecretCount c))]"

definition terminalOutcomeValue :: "terminal_outcome option \<Rightarrow> cvalue res" where
  "terminalOutcomeValue t =
     (case t of
        None \<Rightarrow> ok CNull
      | Some t \<Rightarrow>
          and_then (canonicalMap
            [(0, CNum (to_removedCompactItemCount t)), (1, CNum (to_removedResolutionCount t)),
             (2, CNum (to_removedEpochSecretCount t)), (3, CNum (to_removedArtifactCount t))])
            (\<lambda>m. ok (CMap m)))"

definition encodeReplicaGarbageCollectionJob :: "platform \<Rightarrow> gc_job \<Rightarrow> bytes res" where
  "encodeReplicaGarbageCollectionJob P job =
     and_then (validateJob P job) (\<lambda>_.
     and_then (leaseValue (lease job)) (\<lambda>lease_value.
     and_then (canonicalMap (compactOutcomeEntries (compactOutcome job))) (\<lambda>compact.
     and_then (candidateValues P (job_candidates job)) (\<lambda>candidates.
     and_then (terminalOutcomeValue (terminalOutcome job)) (\<lambda>terminal.
     and_then (canonicalMap
       [(0, CNum JOB_FORMAT), (1, CText (jobId job)), (2, CBytes (job_vaultId job)),
        (3, CBytes (idempotencyKey job)), (4, CNum (createdAtMs job)), (5, CNum (job_state job)),
        (6, CNum (job_stage job)), (7, CNum (attempt job)), (8, lease_value),
        (9, CBool (cancellationRequested job)), (10, CMap compact), (11, CArray candidates),
        (12, terminal)]) (\<lambda>m.
     encodeCanonicalValue P (CMap m)))))))"

definition parseLease :: "cvalue \<Rightarrow> gc_lease res" where
  "parseLease value =
     and_then (exactMap value (num_keys 2) ''Garbage Collection lease'') (\<lambda>m.
     and_then (with_field m 0 (\<lambda>v. uuid v ''Garbage Collection lease owner'')) (\<lambda>owner.
     and_then (with_field m 1 (\<lambda>v. nonnegativeInteger v ''Garbage Collection lease expiry'')) (\<lambda>expiry.
     ok \<lparr>ownerId = owner, expiresAtMs = expiry\<rparr>)))"

definition parseCompactOutcome :: "cvalue \<Rightarrow> compact_outcome res" where
  "parseCompactOutcome value =
     and_then (exactMap value (num_keys 3) ''Garbage Collection compact outcome'') (\<lambda>m.
     and_then (with_field m 0 (\<lambda>v. nonnegativeInteger v ''Garbage Collection compact item count'')) (\<lambda>a.
     and_then (with_field m 1 (\<lambda>v. nonnegativeInteger v ''Garbage Collection resolution count'')) (\<lambda>b.
     and_then (with_field m 2 (\<lambda>v. nonnegativeInteger v ''Garbage Collection Epoch Secret count'')) (\<lambda>c.
     ok \<lparr>co_removedCompactItemCount = a, co_removedResolutionCount = b,
         co_removedEpochSecretCount = c\<rparr>))))"

definition parseTerminalOutcome :: "cvalue \<Rightarrow> terminal_outcome res" where
  "parseTerminalOutcome value =
     and_then (exactMap value (num_keys 4) ''Garbage Collection terminal outcome'') (\<lambda>m.
     and_then (with_field m 0
       (\<lambda>v. nonnegativeInteger v ''Garbage Collection terminal compact item count'')) (\<lambda>a.
     and_then (with_field m 1
       (\<lambda>v. nonnegativeInteger v ''Garbage Collection terminal resolution count'')) (\<lambda>b.
     and_then (with_field m 2
       (\<lambda>v. nonnegativeInteger v ''Garbage Collection terminal Epoch Secret count'')) (\<lambda>c.
     and_then (with_field m 3
       (\<lambda>v. nonnegativeInteger v ''Garbage Collection terminal Artifact count'')) (\<lambda>d.
     ok \<lparr>to_removedCompactItemCount = a, to_removedResolutionCount = b,
         to_removedEpochSecretCount = c, to_removedArtifactCount = d\<rparr>)))))"

text \<open>The object literal of the decoder, its fields in the order they are evaluated.\<close>

definition parseJobFields :: "cmap \<Rightarrow> gc_job res" where
  "parseJobFields m =
     and_then (with_field m 1 (\<lambda>v. uuid v ''Garbage Collection Job ID'')) (\<lambda>f1.
     and_then (with_field m 2 (\<lambda>v. identifierValue v VaultId ''Garbage Collection Vault ID'')) (\<lambda>f2.
     and_then (with_field m 3 (\<lambda>v. byteString v 32 ''Garbage Collection idempotency key'')) (\<lambda>f3.
     and_then (with_field m 4 (\<lambda>v. nonnegativeInteger v ''Garbage Collection creation time'')) (\<lambda>f4.
     and_then (with_field m 5 (\<lambda>v. oneOfCodes v JOB_STATES ''Garbage Collection Job state'')) (\<lambda>f5.
     and_then (with_field m 6
       (\<lambda>v. exactCode v JOB_STAGE_ARTIFACT_CLEANUP ''Garbage Collection Job stage'')) (\<lambda>f6.
     and_then (with_field m 7 (\<lambda>v. nonnegativeInteger v ''Garbage Collection attempt'')) (\<lambda>f7.
     and_then (with_field m 8 (\<lambda>v. nullable v parseLease)) (\<lambda>f8.
     and_then (with_field m 9 (\<lambda>v. booleanValue v ''Garbage Collection cancellation state'')) (\<lambda>f9.
     and_then (with_field m 10 parseCompactOutcome) (\<lambda>f10.
     and_then (with_field m 11 (\<lambda>v. and_then (nonemptyArray v ''Garbage Collection candidates'')
       (traverse_i parseCandidate 0))) (\<lambda>f11.
     and_then (with_field m 12 (\<lambda>v. nullable v parseTerminalOutcome)) (\<lambda>f12.
     ok \<lparr>jobId = f1, job_vaultId = f2, idempotencyKey = f3, createdAtMs = f4, job_state = f5,
         job_stage = f6, attempt = f7, lease = f8, cancellationRequested = f9, compactOutcome = f10,
         terminalOutcome = f12, job_candidates = f11\<rparr>))))))))))))"

definition decodeReplicaGarbageCollectionJob :: "platform \<Rightarrow> bytes \<Rightarrow> gc_job res" where
  "decodeReplicaGarbageCollectionJob P bs =
     and_then (decodeCanonicalValue P bs) (\<lambda>value.
     and_then (exactMap value (num_keys 13) ''Replica Garbage Collection Job'') (\<lambda>m.
     and_then (field_ok m 0 (\<lambda>v. exactCode v JOB_FORMAT ''Garbage Collection Job format'')) (\<lambda>_.
     and_then (parseJobFields m) (\<lambda>job.
     and_then (with_field m 11 (encodeCanonicalValue P)) (\<lambda>given.
     and_then (candidateValues P (job_candidates job)) (\<lambda>values.
     and_then (encodeCanonicalValue P (CArray values)) (\<lambda>expected.
     and_then (guard_not (\<not> bytesEqual given expected)
       (TypeError ''Garbage Collection candidates must be a sorted duplicate-free canonical set'')) (\<lambda>_.
     and_then (validateJob P job) (\<lambda>_.
     and_then (encodeReplicaGarbageCollectionJob P job) (\<lambda>encoded.
     if \<not> bytesEqual bs encoded
     then throw (TypeError ''Replica Garbage Collection Job bytes are not canonical'')
     else ok job))))))))))"

section \<open>When a Job is valid\<close>

lemma void_ok [schema_ok]: "void r = ok u \<longleftrightarrow> (\<exists>x. r = ok x)"
  by (auto simp: void_def and_then_eq_Inr)

lemma UUID_chars: "UUID s \<Longrightarrow> length s = 36 \<and> (\<forall>c \<in> set s. lower_hex c \<or> c = CHR ''-'')"
proof -
  assume u: "UUID s"
  let ?ps = "replicate 8 lower_hex @ [(\<lambda>c. c = CHR ''-'')] @
        replicate 4 lower_hex @ [(\<lambda>c. c = CHR ''-'')] @
        [(\<lambda>c. c \<in> set ''12345678'')] @ replicate 3 lower_hex @ [(\<lambda>c. c = CHR ''-'')] @
        [(\<lambda>c. c \<in> set ''89ab'')] @ replicate 3 lower_hex @ [(\<lambda>c. c = CHR ''-'')] @
        replicate 12 lower_hex"
  have cls: "lower_hex c \<or> c = CHR ''-''" if "p \<in> set ?ps" "p c" for p c
    using that by (auto simp: lower_hex_def Let_def)
  have pick: "list_all2 (\<lambda>p c. p c) ps s \<Longrightarrow> c \<in> set s \<Longrightarrow> \<exists>p \<in> set ps. p c" for ps c
    by (induction rule: list_all2_induct) auto
  have all: "list_all2 (\<lambda>p c. p c) ?ps s" using u by (simp only: UUID_def)
  have "length s = 36" using list_all2_lengthD[OF all] by simp
  moreover have "lower_hex c \<or> c = CHR ''-''" if "c \<in> set s" for c
    using pick[OF all that] cls by blast
  ultimately show ?thesis by blast
qed

lemma uuid_ok [schema_ok]: "uuid v field = ok s \<longleftrightarrow> v = CText s \<and> UUID s"
proof -
  have "UUID s \<Longrightarrow> s \<noteq> [] \<and> length s \<le> 64 \<and> \<not> list_ex (prohibited_control default_text) s"
    using UUID_chars[of s]
    by (fastforce simp: list_ex_iff prohibited_control_def default_text_def lower_hex_def Let_def)
  moreover have "prohibited_control (default_text\<lparr>maxUtf8Bytes := n\<rparr>) = prohibited_control default_text" for n
    by (simp add: prohibited_control_def fun_eq_iff default_text_def)
  ultimately show ?thesis
    by (auto simp: uuid_def and_then_eq_Inr schema_ok split: if_splits)
qed

definition candidate_value :: "artifact_candidate \<Rightarrow> cvalue" where
  "candidate_value c =
     CMap [(KNum 0, CBytes (ca_artifactId c)), (KNum 1, CBytes (ca_storageItemId c)),
           (KNum 2, CBytes (ca_keyEpochId c))]"

definition valid_candidate :: "artifact_candidate \<Rightarrow> bool" where
  "valid_candidate c \<longleftrightarrow> id32 (ca_artifactId c) \<and> id32 (ca_storageItemId c) \<and> id32 (ca_keyEpochId c)"

lemma candidate_kinds [simp]:
  "valid_id ArtifactId b \<longleftrightarrow> id32 b" "valid_id StorageItemId b \<longleftrightarrow> id32 b" "valid_id KeyEpochId b \<longleftrightarrow> id32 b"
  by (simp_all add: valid_id_def NONZERO_IDENTIFIER_KINDS_def)

lemma candidateValue_ok:
  "candidateValue c = ok m \<longleftrightarrow> valid_candidate c \<and> CMap m = candidate_value c"
  by (auto simp: candidateValue_def and_then_eq_Inr schema_ok canonicalMap_ok isSafeInteger_def
      valid_candidate_def candidate_value_def)

lemma traverse_candidates:
  "traverse (\<lambda>c. and_then (candidateValue c) (\<lambda>m. ok (CMap m))) cs = ok vs \<longleftrightarrow>
     list_all valid_candidate cs \<and> vs = map candidate_value cs"
proof (induction cs arbitrary: vs)
  case (Cons c cs)
  have "(\<exists>m. candidateValue c = ok m) \<longleftrightarrow> valid_candidate c"
    by (auto simp: candidateValue_ok candidate_value_def)
  with Cons show ?case by (auto simp: and_then_eq_Inr candidateValue_ok)
qed auto

lemma canonical_candidate [simp]: "canonical P (candidate_value c)"
  by (simp add: candidate_value_def)

lemma candidateValues_ok:
  "candidateValues P cs = ok vs \<longleftrightarrow>
     cs \<noteq> [] \<and> distinct (map ca_artifactId cs) \<and> list_all valid_candidate cs \<and>
     distinct (map (cbor_encode P) (map candidate_value cs)) \<and>
     vs = sort_key (cbor_encode P) (map candidate_value cs)"
proof -
  have "card (set (map (\<lambda>c. key (ca_artifactId c)) cs)) = length (map (\<lambda>c. key (ca_artifactId c)) cs) \<longleftrightarrow>
      distinct (map ca_artifactId cs)"
    using distinct_map_key[of "map ca_artifactId cs"]
    by (simp add: card_distinct distinct_card comp_def del: distinct_map_key)
      (metis (mono_tags, lifting) card_distinct distinct_card length_map set_map)
  then show ?thesis
    by (auto simp: candidateValues_def Let_def and_then_eq_Inr traverse_candidates canonicalSet_ok
        list_all_iff)
qed

text \<open>The conditions on the state of a Job, its lease and its attempts.\<close>

definition stage_consistent :: "gc_job \<Rightarrow> bool" where
  "stage_consistent j \<longleftrightarrow>
     job_state j \<in> {1, 2, 3} \<and> job_stage j = 1 \<and> 0 \<le> attempt j \<and> \<not> cancellationRequested j \<and>
     (job_state j \<noteq> 1 \<longrightarrow> 1 \<le> attempt j) \<and>
     (lease j \<noteq> None \<longleftrightarrow> job_state j = 2) \<and> (terminalOutcome j \<noteq> None \<longleftrightarrow> job_state j = 3) \<and>
     (\<forall>l. lease j = Some l \<longrightarrow> createdAtMs j < expiresAtMs l)"

text \<open>The counts of a Job, and how the counts of a finished Job follow from its candidates.\<close>

definition counts_consistent :: "gc_job \<Rightarrow> bool" where
  "counts_consistent j \<longleftrightarrow>
     (let c = compactOutcome j in
      0 \<le> co_removedCompactItemCount c \<and> 0 \<le> co_removedResolutionCount c \<and>
      0 \<le> co_removedEpochSecretCount c \<and>
      (\<forall>t. terminalOutcome j = Some t \<longrightarrow>
         to_removedCompactItemCount t = co_removedCompactItemCount c \<and>
         to_removedResolutionCount t = co_removedResolutionCount c + int (length (job_candidates j)) \<and>
         to_removedArtifactCount t = int (card (ca_storageItemId ` set (job_candidates j))) \<and>
         co_removedEpochSecretCount c \<le> to_removedEpochSecretCount t \<and>
         to_removedEpochSecretCount t \<le>
           co_removedEpochSecretCount c + int (card (ca_keyEpochId ` set (job_candidates j)))))"

definition safe_numbers :: "gc_job \<Rightarrow> bool" where
  "safe_numbers j \<longleftrightarrow>
     (\<forall>n \<in> {createdAtMs j, attempt j, co_removedCompactItemCount (compactOutcome j),
        co_removedResolutionCount (compactOutcome j), co_removedEpochSecretCount (compactOutcome j)}.
        isSafeInteger n) \<and>
     (\<forall>t. terminalOutcome j = Some t \<longrightarrow>
        isSafeInteger (to_removedCompactItemCount t) \<and> isSafeInteger (to_removedResolutionCount t) \<and>
        isSafeInteger (to_removedEpochSecretCount t) \<and> isSafeInteger (to_removedArtifactCount t))"

definition job_valid :: "platform \<Rightarrow> gc_job \<Rightarrow> bool" where
  "job_valid P j \<longleftrightarrow>
     UUID (jobId j) \<and> valid_id VaultId (job_vaultId j) \<and> 0 \<le> createdAtMs j \<and>
     stage_consistent j \<and> counts_consistent j \<and> safe_numbers j \<and> length (idempotencyKey j) = 32 \<and>
     replicaGarbageCollectionIdempotencyKey P (job_vaultId j) (job_candidates j) = ok (idempotencyKey j)"

lemma card_keys: "card ((\<lambda>c. key (f c)) ` A) = card (f ` A)"
proof -
  have "card (key ` (f ` A)) = card (f ` A)" by (rule card_image) (simp add: inj_on_def)
  then show ?thesis by (simp add: image_image)
qed

lemma validateTerminal_ok [schema_ok]:
  "validateTerminal c cs t = ok u \<longleftrightarrow>
     (\<forall>n \<in> {to_removedCompactItemCount t, to_removedResolutionCount t, to_removedEpochSecretCount t,
         to_removedArtifactCount t}. isSafeInteger n \<and> 0 \<le> n) \<and>
     to_removedCompactItemCount t = co_removedCompactItemCount c \<and>
     to_removedResolutionCount t = co_removedResolutionCount c + int (length cs) \<and>
     to_removedArtifactCount t = int (card (ca_storageItemId ` set cs)) \<and>
     co_removedEpochSecretCount c \<le> to_removedEpochSecretCount t \<and>
     to_removedEpochSecretCount t \<le> co_removedEpochSecretCount c + int (card (ca_keyEpochId ` set cs))"
  by (auto simp: validateTerminal_def and_then_eq_Inr schema_ok card_keys)

lemma stage_checks:
  "stage_consistent j \<longleftrightarrow>
     job_state j \<in> {1, 2, 3} \<and> job_stage j = 1 \<and> 0 \<le> attempt j \<and>
     \<not> (job_state j = 1 \<and> lease j \<noteq> None) \<and>
     \<not> (job_state j = 2 \<and> (lease j = None \<or> attempt j < 1)) \<and>
     \<not> (job_state j = 3 \<and> (lease j \<noteq> None \<or> attempt j < 1 \<or> terminalOutcome j = None)) \<and>
     \<not> (job_state j \<noteq> 3 \<and> terminalOutcome j \<noteq> None) \<and>
     \<not> (case lease j of None \<Rightarrow> False | Some l \<Rightarrow> expiresAtMs l \<le> createdAtMs j) \<and>
     \<not> cancellationRequested j"
proof (cases "job_state j \<in> {1, 2, 3}")
  case True
  then consider "job_state j = 1" | "job_state j = 2" | "job_state j = 3" by blast
  then show ?thesis
    by cases (cases "lease j"; simp add: stage_consistent_def not_le not_less; blast)+
qed (simp add: stage_consistent_def)

lemma terminal_checks:
  "(case terminalOutcome j of None \<Rightarrow> ok ()
    | Some t \<Rightarrow> validateTerminal (compactOutcome j) (job_candidates j) t) = ok () \<longleftrightarrow>
   (\<forall>t. terminalOutcome j = Some t \<longrightarrow>
      validateTerminal (compactOutcome j) (job_candidates j) t = ok ())"
  by (cases "terminalOutcome j") simp_all

lemma counts_checks:
  "counts_consistent j \<and> safe_numbers j \<longleftrightarrow>
     isSafeInteger (createdAtMs j) \<and> isSafeInteger (attempt j) \<and>
     (\<forall>n \<in> {co_removedCompactItemCount (compactOutcome j), co_removedResolutionCount (compactOutcome j),
        co_removedEpochSecretCount (compactOutcome j)}. isSafeInteger n \<and> 0 \<le> n) \<and>
     (\<forall>t. terminalOutcome j = Some t \<longrightarrow>
        validateTerminal (compactOutcome j) (job_candidates j) t = ok ())"
  by (cases "terminalOutcome j")
    (auto simp: counts_consistent_def safe_numbers_def validateTerminal_ok Let_def)

lemma code_checks:
  "void (oneOfCodes (CNum n) JOB_STATES f) = ok () \<longleftrightarrow> n \<in> {1, 2, 3}"
  "void (exactCode (CNum n) JOB_STAGE_ARTIFACT_CLEANUP f) = ok () \<longleftrightarrow> n = 1"
  by (auto simp: schema_ok JOB_STATES_def JOB_STAGE_ARTIFACT_CLEANUP_def isSafeInteger_def)

lemma value_checks:
  "void (nonnegativeInteger (CNum n) f) = ok () \<longleftrightarrow> isSafeInteger n \<and> 0 \<le> n"
  "void (uuid (CText s) f) = ok () \<longleftrightarrow> UUID s"
  "void (identifierValue (CBytes b) kind f) = ok () \<longleftrightarrow> valid_id kind b"
  by (simp_all add: schema_ok)

lemma key_check:
  "(\<exists>x. r = ok x \<and> (\<exists>y. (k = y \<and> id32 y) \<and> y = x \<and> Q)) \<longleftrightarrow> id32 k \<and> r = ok k \<and> Q"
  by auto

lemma validateJob_ok: "validateJob P j = ok j' \<longleftrightarrow> j' = j \<and> job_valid P j"
proof -
  have "validateJob P j = ok j' \<longleftrightarrow> j' = j \<and>
     (UUID (jobId j) \<and> valid_id VaultId (job_vaultId j) \<and> 0 \<le> createdAtMs j \<and> length (idempotencyKey j) = 32 \<and>
      replicaGarbageCollectionIdempotencyKey P (job_vaultId j) (job_candidates j) = ok (idempotencyKey j)) \<and>
     stage_consistent j \<and> (counts_consistent j \<and> safe_numbers j)"
    unfolding validateJob_def and_then_eq_Inr checks_ok list.set ball_simps
      code_checks value_checks terminal_checks guard_not_eq_Inr stage_checks counts_checks byteString_ok
    by (simp only: bytesEqual_iff guard_ok cvalue.inject ex_simps simp_thms key_check conj_ac)
  then show ?thesis unfolding job_valid_def by argo
qed

section \<open>Reading back what was written\<close>

definition lease_value :: "gc_lease option \<Rightarrow> cvalue" where
  "lease_value l =
     (case l of None \<Rightarrow> CNull
      | Some l \<Rightarrow> CMap [(KNum 0, CText (ownerId l)), (KNum 1, CNum (expiresAtMs l))])"

definition terminal_value :: "terminal_outcome option \<Rightarrow> cvalue" where
  "terminal_value t =
     (case t of None \<Rightarrow> CNull
      | Some t \<Rightarrow> CMap [(KNum 0, CNum (to_removedCompactItemCount t)),
          (KNum 1, CNum (to_removedResolutionCount t)), (KNum 2, CNum (to_removedEpochSecretCount t)),
          (KNum 3, CNum (to_removedArtifactCount t))])"

definition compact_value :: "compact_outcome \<Rightarrow> cvalue" where
  "compact_value c = CMap (map (\<lambda>(k, v). (KNum k, v)) (compactOutcomeEntries c))"

definition job_map :: "gc_job \<Rightarrow> cvalue list \<Rightarrow> cmap" where
  "job_map j cands =
     [(KNum 0, CNum 1), (KNum 1, CText (jobId j)), (KNum 2, CBytes (job_vaultId j)),
      (KNum 3, CBytes (idempotencyKey j)), (KNum 4, CNum (createdAtMs j)), (KNum 5, CNum (job_state j)),
      (KNum 6, CNum (job_stage j)), (KNum 7, CNum (attempt j)), (KNum 8, lease_value (lease j)),
      (KNum 9, CBool (cancellationRequested j)), (KNum 10, compact_value (compactOutcome j)),
      (KNum 11, CArray cands), (KNum 12, terminal_value (terminalOutcome j))]"

definition lease_valid :: "gc_lease option \<Rightarrow> bool" where
  "lease_valid l \<longleftrightarrow>
     (case l of None \<Rightarrow> True
      | Some l \<Rightarrow> UUID (ownerId l) \<and> isSafeInteger (expiresAtMs l) \<and> 0 \<le> expiresAtMs l)"

lemma leaseValue_ok: "leaseValue l = ok v \<longleftrightarrow> lease_valid l \<and> v = lease_value l"
  by (cases l)
    (auto simp: leaseValue_def lease_valid_def lease_value_def and_then_eq_Inr schema_ok
      canonicalMap_ok isSafeInteger_def)

lemma terminalOutcomeValue_ok: "terminalOutcomeValue t = ok v \<longleftrightarrow> v = terminal_value t"
  by (cases t)
    (auto simp: terminalOutcomeValue_def terminal_value_def and_then_eq_Inr canonicalMap_ok isSafeInteger_def)

lemma compactEntries_ok:
  "canonicalMap (compactOutcomeEntries c) = ok m \<longleftrightarrow> CMap m = compact_value c"
  by (auto simp: compactOutcomeEntries_def compact_value_def canonicalMap_ok isSafeInteger_def)

lemma encodeJob_ok:
  "encodeReplicaGarbageCollectionJob P j = ok b \<longleftrightarrow>
     job_valid P j \<and> lease_valid (lease j) \<and>
     (\<exists>cands. candidateValues P (job_candidates j) = ok cands \<and>
        canonical P (CMap (job_map j cands)) \<and> b = cbor_encode P (CMap (job_map j cands)))"
proof -
  have top: "canonicalMap
       [(0, CNum JOB_FORMAT), (1, CText (jobId j)), (2, CBytes (job_vaultId j)),
        (3, CBytes (idempotencyKey j)), (4, CNum (createdAtMs j)), (5, CNum (job_state j)),
        (6, CNum (job_stage j)), (7, CNum (attempt j)), (8, lease_value (lease j)),
        (9, CBool (cancellationRequested j)), (10, compact_value (compactOutcome j)), (11, CArray cands),
        (12, terminal_value (terminalOutcome j))] = ok m \<longleftrightarrow> m = job_map j cands" for m cands
    by (simp add: canonicalMap_ok isSafeInteger_def job_map_def JOB_FORMAT_def)
  obtain c where c: "canonicalMap (compactOutcomeEntries (compactOutcome j)) = ok c"
      "CMap c = compact_value (compactOutcome j)"
    by (metis compactEntries_ok compact_value_def)
  show ?thesis
    unfolding encodeReplicaGarbageCollectionJob_def c(1) and_then_Inr c(2)
    by (auto simp: and_then_eq_Inr validateJob_ok leaseValue_ok terminalOutcomeValue_ok top
        encodeCanonicalValue_ok simp del: canonical.simps)
qed

lemma parseCandidate_value: "valid_candidate c \<Longrightarrow> parseCandidate i (candidate_value c) = ok c"
  by (simp add: parseCandidate_def candidate_value_def and_then_eq_Inr schema_ok num_keys_def
      valid_candidate_def eval_nat_numeral)

lemma parse_candidates:
  "list_all valid_candidate cs \<Longrightarrow> traverse_i parseCandidate i (map candidate_value cs) = ok cs"
  by (induction cs arbitrary: i) (simp_all add: parseCandidate_value)

lemma parse_lease: "lease_valid l \<Longrightarrow> nullable (lease_value l) parseLease = ok l"
  by (cases l)
    (auto simp: schema_ok lease_valid_def lease_value_def parseLease_def and_then_eq_Inr num_keys_def
      eval_nat_numeral)

lemma parse_compact:
  "counts_consistent j \<Longrightarrow> safe_numbers j \<Longrightarrow>
     parseCompactOutcome (compact_value (compactOutcome j)) = ok (compactOutcome j)"
  by (simp add: parseCompactOutcome_def compact_value_def compactOutcomeEntries_def and_then_eq_Inr
      schema_ok counts_consistent_def safe_numbers_def Let_def num_keys_def eval_nat_numeral)

lemma parse_terminal:
  "counts_consistent j \<Longrightarrow> safe_numbers j \<Longrightarrow>
     nullable (terminal_value (terminalOutcome j)) parseTerminalOutcome = ok (terminalOutcome j)"
  by (cases "terminalOutcome j")
    (simp_all add: parseTerminalOutcome_def terminal_value_def and_then_eq_Inr schema_ok
      counts_consistent_def safe_numbers_def Let_def num_keys_def eval_nat_numeral)

lemma parse_job:
  assumes "job_valid P j" "lease_valid (lease j)" "job_candidates j \<noteq> []"
    "list_all valid_candidate (job_candidates j)"
  shows "parseJobFields (job_map j (map candidate_value (job_candidates j))) = ok j"
proof -
  let ?m = "job_map j (map candidate_value (job_candidates j))"
  have get: "mapValue ?m 1 = ok (CText (jobId j))" "mapValue ?m 2 = ok (CBytes (job_vaultId j))"
    "mapValue ?m 3 = ok (CBytes (idempotencyKey j))" "mapValue ?m 4 = ok (CNum (createdAtMs j))"
    "mapValue ?m 5 = ok (CNum (job_state j))" "mapValue ?m 6 = ok (CNum (job_stage j))"
    "mapValue ?m 7 = ok (CNum (attempt j))" "mapValue ?m 8 = ok (lease_value (lease j))"
    "mapValue ?m 9 = ok (CBool (cancellationRequested j))"
    "mapValue ?m 10 = ok (compact_value (compactOutcome j))"
    "mapValue ?m 11 = ok (CArray (map candidate_value (job_candidates j)))"
    "mapValue ?m 12 = ok (terminal_value (terminalOutcome j))"
    by (simp_all add: mapValue_def job_map_def)
  have v: "uuid (CText (jobId j)) f = ok (jobId j)"
    "identifierValue (CBytes (job_vaultId j)) VaultId f = ok (job_vaultId j)"
    "byteString (CBytes (idempotencyKey j)) 32 f = ok (idempotencyKey j)"
    "nonnegativeInteger (CNum (createdAtMs j)) f = ok (createdAtMs j)"
    "oneOfCodes (CNum (job_state j)) JOB_STATES f = ok (job_state j)"
    "exactCode (CNum (job_stage j)) JOB_STAGE_ARTIFACT_CLEANUP f = ok (job_stage j)"
    "nonnegativeInteger (CNum (attempt j)) f = ok (attempt j)"
    "booleanValue (CBool (cancellationRequested j)) f = ok (cancellationRequested j)"
    "nonemptyArray (CArray (map candidate_value (job_candidates j))) f =
       ok (map candidate_value (job_candidates j))" for f
    using assms
    by (auto simp: schema_ok job_valid_def stage_consistent_def safe_numbers_def JOB_STATES_def
        JOB_STAGE_ARTIFACT_CLEANUP_def isSafeInteger_def nonemptyArray_def and_then_eq_Inr)
  show ?thesis
    using assms parse_compact[of j] parse_terminal[of j]
    by (simp add: parseJobFields_def with_field_def get v parse_lease parse_candidates job_valid_def)
qed

lemma job_roundtrip:
  assumes e: "encodeReplicaGarbageCollectionJob P j = ok b"
    and o: "candidateValues P (job_candidates j) = ok (map candidate_value (job_candidates j))"
    and d: "cbor_decode P b = Inr (CMap (job_map j (map candidate_value (job_candidates j))))"
  shows "decodeReplicaGarbageCollectionJob P b = ok j"
proof -
  let ?m = "job_map j (map candidate_value (job_candidates j))"
  have h: "job_valid P j" "lease_valid (lease j)" "canonical P (CMap ?m)" "b = cbor_encode P (CMap ?m)"
    using e o by (auto simp: encodeJob_ok)
  have c: "job_candidates j \<noteq> []" "list_all valid_candidate (job_candidates j)"
    using o by (auto simp: candidateValues_ok)
  have "decodeCanonicalValue P b = ok (CMap ?m)"
    using d h(3,4) by (simp add: decodeCanonicalValue_ok)
  moreover have "exactMap (CMap ?m) (num_keys 13) f = ok ?m" for f
    by (simp add: exactMap_ok job_map_def num_keys_def eval_nat_numeral)
  moreover have "field_ok ?m 0 (\<lambda>v. exactCode v JOB_FORMAT f) = ok ()" for f
    by (simp add: schema_ok job_map_def JOB_FORMAT_def isSafeInteger_def)
  moreover have "with_field ?m 11 (encodeCanonicalValue P) =
      encodeCanonicalValue P (CArray (map candidate_value (job_candidates j)))"
    by (simp add: with_field_def mapValue_def job_map_def)
  moreover have "encodeCanonicalValue P (CArray (map candidate_value (job_candidates j))) =
      ok (cbor_encode P (CArray (map candidate_value (job_candidates j))))"
    by (simp add: encodeCanonicalValue_ok list_all_iff)
  moreover have "validateJob P j = ok j" using h(1) by (simp add: validateJob_ok)
  ultimately show ?thesis
    using parse_job[OF h(1,2) c] by (simp add: decodeReplicaGarbageCollectionJob_def o e)
qed

section \<open>Properties\<close>

lemma decodeJob_valid:
  assumes "decodeReplicaGarbageCollectionJob P b = ok j"
  shows "encodeReplicaGarbageCollectionJob P j = ok b" "job_valid P j"
    "job_candidates j \<noteq> []" "distinct (map ca_artifactId (job_candidates j))"
    "list_all valid_candidate (job_candidates j)"
  using assms
  by (auto simp: decodeReplicaGarbageCollectionJob_def and_then_eq_Inr validateJob_ok candidateValues_ok
      split: if_splits)

text \<open>
  C37. Bounds of a decoded Job. Bytes the decoder accepts are the encoding of the Job it returns,
  and that Job is consistent: a lease exactly while it runs (and expiring after its creation),
  a terminal outcome exactly when it succeeded, at least one attempt once it was started. It names at least one
  Artifact and none twice; the Artifacts it reports as removed are between one and the number of
  its candidates, the removed resolutions are those of the compact phase and one per candidate, the removed
  Key Epoch Secrets are at most one per candidate more than the compact phase removed, and no
  count leaves the safe integers.
\<close>

theorem decoded_job_bounds:
  assumes "decodeReplicaGarbageCollectionJob P b = ok j"
  shows "encodeReplicaGarbageCollectionJob P j = ok b \<and> stage_consistent j \<and>
    1 \<le> length (job_candidates j) \<and> distinct (map ca_artifactId (job_candidates j)) \<and>
    (\<forall>t. terminalOutcome j = Some t \<longrightarrow>
       1 \<le> to_removedArtifactCount t \<and> to_removedArtifactCount t \<le> int (length (job_candidates j)) \<and>
       to_removedResolutionCount t =
         co_removedResolutionCount (compactOutcome j) + int (length (job_candidates j)) \<and>
       to_removedResolutionCount t \<le> 2 ^ 53 - 1 \<and>
       0 \<le> co_removedEpochSecretCount (compactOutcome j) \<and>
       co_removedEpochSecretCount (compactOutcome j) \<le> to_removedEpochSecretCount t \<and>
       to_removedEpochSecretCount t \<le>
         co_removedEpochSecretCount (compactOutcome j) + int (length (job_candidates j)))"
proof -
  note d = decodeJob_valid[OF assms]
  have card: "card (f ` set (job_candidates j)) \<le> length (job_candidates j)" for f :: "artifact_candidate \<Rightarrow> bytes"
    using card_image_le[of "set (job_candidates j)" f] card_length[of "job_candidates j"] by simp
  have pos: "1 \<le> card (ca_storageItemId ` set (job_candidates j))"
    using d(3) by (simp add: Suc_le_eq card_gt_0_iff)
  have "counts_consistent j" "safe_numbers j" "stage_consistent j" using d(2) by (simp_all add: job_valid_def)
  then show ?thesis
    using d(1,3,4) pos card[of ca_storageItemId] card[of ca_keyEpochId]
    by (auto simp: counts_consistent_def safe_numbers_def Let_def isSafeInteger_def Suc_le_eq)
qed

text \<open>A finished Job over two Artifacts that share their stored bytes.\<close>

definition demo_candidates :: "artifact_candidate list" where
  "demo_candidates =
     [\<lparr>ca_artifactId = replicate 32 1, ca_storageItemId = replicate 32 9, ca_keyEpochId = replicate 32 5\<rparr>,
      \<lparr>ca_artifactId = replicate 32 2, ca_storageItemId = replicate 32 9, ca_keyEpochId = replicate 32 5\<rparr>]"

definition demo_key :: bytes where
  "demo_key = (case replicaGarbageCollectionIdempotencyKey ref_platform (replicate 32 7) demo_candidates of
     Inr k \<Rightarrow> k | Inl _ \<Rightarrow> [])"

definition demo_job :: gc_job where
  "demo_job =
     \<lparr>jobId = ''01234567-89ab-4cde-8f01-23456789abcd'', job_vaultId = replicate 32 7,
      idempotencyKey = demo_key, createdAtMs = 1000, job_state = 3, job_stage = 1, attempt = 1,
      lease = None, cancellationRequested = False,
      compactOutcome = \<lparr>co_removedCompactItemCount = 4, co_removedResolutionCount = 3,
        co_removedEpochSecretCount = 1\<rparr>,
      terminalOutcome = Some \<lparr>to_removedCompactItemCount = 4, to_removedResolutionCount = 5,
        to_removedEpochSecretCount = 2, to_removedArtifactCount = 1\<rparr>,
      job_candidates = demo_candidates\<rparr>"

definition demo_job_platform :: platform where
  "demo_job_platform = ref_platform\<lparr>cbor_decode := (\<lambda>bs.
     if bs = cbor_reference (CMap (job_map demo_job (map candidate_value demo_candidates)))
     then Inr (CMap (job_map demo_job (map candidate_value demo_candidates))) else Inl ''unsupported'')\<rparr>"

lemma demo_candidates_ordered:
  "candidateValues demo_job_platform demo_candidates = ok (map candidate_value demo_candidates)"
  by code_simp

lemma demo_job_encodes: "\<not> isl (encodeReplicaGarbageCollectionJob demo_job_platform demo_job)"
  by code_simp

lemma demo_job_decodes: "\<exists>b. decodeReplicaGarbageCollectionJob demo_job_platform b = ok demo_job"
proof -
  obtain b where b: "encodeReplicaGarbageCollectionJob demo_job_platform demo_job = ok b"
    using demo_job_encodes by (cases "encodeReplicaGarbageCollectionJob demo_job_platform demo_job") auto
  have cs: "job_candidates demo_job = demo_candidates" by (simp add: demo_job_def)
  have "decodeReplicaGarbageCollectionJob demo_job_platform b = ok demo_job"
  proof (rule job_roundtrip[OF b])
    show "candidateValues demo_job_platform (job_candidates demo_job) =
        ok (map candidate_value (job_candidates demo_job))"
      by (simp add: cs demo_candidates_ordered)
    then show "cbor_decode demo_job_platform b =
        Inr (CMap (job_map demo_job (map candidate_value (job_candidates demo_job))))"
      using b by (auto simp: encodeJob_ok cs) (simp add: demo_job_platform_def ref_platform_def)
  qed
  then show ?thesis by blast
qed

theorem decoded_job_bounds_witness:
  "\<exists>b. decodeReplicaGarbageCollectionJob demo_job_platform b = ok demo_job \<and>
       encodeReplicaGarbageCollectionJob demo_job_platform demo_job = ok b \<and> stage_consistent demo_job"
proof -
  obtain b where "decodeReplicaGarbageCollectionJob demo_job_platform b = ok demo_job"
    using demo_job_decodes by blast
  with decoded_job_bounds[OF this] show ?thesis by blast
qed

end
