(* ===== verification/Storage_Schema.thy ===== *)
theory Storage_Schema
  imports Canonical_Value
begin

text \<open>
  The registry of local storage (\<open>drivers/indexeddb/canonical-schema.ts\<close>): the storage families,
  the realms, and one descriptor per namespace with its family, its treatment under
  synchronisation, export and backup, and whether its items are immutable. The database of
  theory \<open>Storage\<close> looks every item up here.
\<close>

section \<open>Families and realms\<close>

datatype storage_family =
    VaultRecords | VaultObjects | ReplicaSafetyState | InstallationState | TrustedSecrets
  | ExecutionState | PreparedData | Quarantine | Materializations | ManagedResources | HostPolicyState

fun family_name :: "storage_family \<Rightarrow> string" where
  "family_name VaultRecords = ''vault_records''"
| "family_name VaultObjects = ''vault_objects''"
| "family_name ReplicaSafetyState = ''replica_safety_state''"
| "family_name InstallationState = ''installation_state''"
| "family_name TrustedSecrets = ''trusted_secrets''"
| "family_name ExecutionState = ''execution_state''"
| "family_name PreparedData = ''prepared_data''"
| "family_name Quarantine = ''quarantine''"
| "family_name Materializations = ''materializations''"
| "family_name ManagedResources = ''managed_resources''"
| "family_name HostPolicyState = ''host_policy_state''"

definition STORAGE_FAMILIES :: "storage_family list" where
  "STORAGE_FAMILIES =
     [VaultRecords, VaultObjects, ReplicaSafetyState, InstallationState, TrustedSecrets, ExecutionState,
      PreparedData, Quarantine, Materializations, ManagedResources, HostPolicyState]"

datatype realm_kind = Normal | Private | Temporary | Test

record storage_realm =
  realm_kind :: realm_kind
  realm_id :: string

fun realm_kind_name :: "realm_kind \<Rightarrow> string" where
  "realm_kind_name Normal = ''Normal''"
| "realm_kind_name Private = ''Private''"
| "realm_kind_name Temporary = ''Temporary''"
| "realm_kind_name Test = ''Test''"

definition NORMAL_STORAGE_REALM :: storage_realm where
  "NORMAL_STORAGE_REALM = \<lparr>realm_kind = Normal, realm_id = ''default''\<rparr>"

text \<open>\<open>/^[a-z0-9][a-z0-9._-]{0,127}$/u\<close>\<close>

definition realm_id_ok :: "string \<Rightarrow> bool" where
  "realm_id_ok s =
     (case s of [] \<Rightarrow> False
      | c # cs \<Rightarrow> lower_alnum c \<and> length cs \<le> 127 \<and> list_all (\<lambda>d. lower_alnum d \<or> key_separator d) cs)"

definition storageRealmKey :: "storage_realm \<Rightarrow> string res" where
  "storageRealmKey realm =
     (if \<not> realm_id_ok (realm_id realm) then throw (TypeError ''Storage Realm ID is invalid'')
      else ok (realm_kind_name (realm_kind realm) @ '':'' @ realm_id realm))"

section \<open>Namespaces\<close>

datatype namespace_scope = InstallationScope | VaultScope | ReplicaScope | RemoteScope | JobScope
datatype trust_source = Authenticated | TrustedLocal | Untrusted | Derived
datatype protection = EpochEncrypted | InstallationWrapped | NonExtractable | Opaque | LocalClear
datatype synchronization = Portable | ReplicaLocal | InstallationLocal | Unsynchronized
datatype treatment = Required | Excluded | Rebuild | Explicit
datatype unknown_behavior = FailClosed | QuarantineUnknown | Discard

record namespace_descriptor =
  ns_key :: string
  ns_family :: storage_family
  ns_schemaRevision :: int
  ns_scope :: namespace_scope
  ns_identity :: string
  ns_trustSource :: trust_source
  ns_protection :: protection
  ns_synchronization :: synchronization
  ns_exportTreatment :: treatment
  ns_backupTreatment :: treatment
  ns_retention :: string
  ns_deletion :: string
  ns_transactionPartners :: "string list"
  ns_unknownBehavior :: unknown_behavior
  ns_immutable :: bool

definition vaultRecord :: namespace_descriptor where
  "vaultRecord =
     \<lparr>ns_key = ''awsm.storage.vault-record'', ns_family = VaultRecords, ns_schemaRevision = 1,
      ns_scope = VaultScope, ns_identity = ''Vault Record ID'',
      ns_trustSource = Authenticated, ns_protection = EpochEncrypted,
      ns_synchronization = Portable, ns_exportTreatment = Required,
      ns_backupTreatment = Required,
      ns_retention = ''Reachable from a recognized Generation or preservation root'',
      ns_deletion = ''Only after complete Replica garbage-collection proof'',
      ns_transactionPartners = [''awsm.storage.replica-state'',
        ''awsm.storage.logical-resolution''],
      ns_unknownBehavior = FailClosed, ns_immutable = True\<rparr>"

definition keyEnvelope :: namespace_descriptor where
  "keyEnvelope =
     \<lparr>ns_key = ''awsm.storage.key-envelope'', ns_family = VaultObjects, ns_schemaRevision = 1,
      ns_scope = VaultScope, ns_identity = ''Key Envelope ID'',
      ns_trustSource = Authenticated, ns_protection = Opaque,
      ns_synchronization = Portable, ns_exportTreatment = Required,
      ns_backupTreatment = Required,
      ns_retention = ''While required by readable authority state'',
      ns_deletion = ''Only after reachability and authority proof'',
      ns_transactionPartners = [''awsm.storage.replica-state'',
        ''awsm.storage.logical-resolution''],
      ns_unknownBehavior = FailClosed, ns_immutable = True\<rparr>"

definition vaultObject :: namespace_descriptor where
  "vaultObject =
     \<lparr>ns_key = ''awsm.storage.vault-object'', ns_family = VaultObjects, ns_schemaRevision = 1,
      ns_scope = VaultScope, ns_identity = ''Vault Object ID'',
      ns_trustSource = Authenticated, ns_protection = EpochEncrypted,
      ns_synchronization = Portable, ns_exportTreatment = Required,
      ns_backupTreatment = Required,
      ns_retention = ''While reachable from recognized Vault state'',
      ns_deletion = ''Only after complete Replica garbage-collection proof'',
      ns_transactionPartners = [''awsm.storage.replica-state'',
        ''awsm.storage.logical-resolution''],
      ns_unknownBehavior = FailClosed, ns_immutable = True\<rparr>"

definition featureManifest :: namespace_descriptor where
  "featureManifest =
     \<lparr>ns_key = ''awsm.storage.feature-manifest'', ns_family = VaultObjects, ns_schemaRevision = 1,
      ns_scope = VaultScope, ns_identity = ''Feature Manifest ID'',
      ns_trustSource = Authenticated, ns_protection = EpochEncrypted,
      ns_synchronization = Portable, ns_exportTreatment = Required,
      ns_backupTreatment = Required,
      ns_retention = ''While required by any recognized Required Feature Set'',
      ns_deletion = ''Only after feature reachability proof'',
      ns_transactionPartners = [''awsm.storage.replica-state''],
      ns_unknownBehavior = FailClosed, ns_immutable = True\<rparr>"

definition artifactWrapper :: namespace_descriptor where
  "artifactWrapper =
     \<lparr>ns_key = ''awsm.storage.artifact-wrapper'', ns_family = VaultObjects, ns_schemaRevision = 1,
      ns_scope = VaultScope, ns_identity = ''Artifact ID and Opaque Storage Item ID'',
      ns_trustSource = Authenticated, ns_protection = Opaque,
      ns_synchronization = Portable, ns_exportTreatment = Required,
      ns_backupTreatment = Required,
      ns_retention = ''Present, Evicted, or UnexpectedlyMissing under Replica Safety State'',
      ns_deletion = ''Storage Relief or complete garbage-collection proof'',
      ns_transactionPartners = [''awsm.storage.prepared-capture'',
        ''awsm.storage.replica-state''],
      ns_unknownBehavior = FailClosed, ns_immutable = True\<rparr>"

definition replicaState :: namespace_descriptor where
  "replicaState =
     \<lparr>ns_key = ''awsm.storage.replica-state'', ns_family = ReplicaSafetyState, ns_schemaRevision = 1,
      ns_scope = ReplicaScope, ns_identity = ''Vault ID'',
      ns_trustSource = TrustedLocal, ns_protection = InstallationWrapped,
      ns_synchronization = ReplicaLocal, ns_exportTreatment = Excluded,
      ns_backupTreatment = Explicit,
      ns_retention = ''For the lifetime of the local Replica and its preservation roots'',
      ns_deletion = ''Explicit local Replica retirement after pending-work disclosure'',
      ns_transactionPartners = [''awsm.storage.vault-record'',
        ''awsm.storage.vault-object''],
      ns_unknownBehavior = FailClosed, ns_immutable = False\<rparr>"

definition logicalResolution :: namespace_descriptor where
  "logicalResolution =
     \<lparr>ns_key = ''awsm.storage.logical-resolution'', ns_family = ReplicaSafetyState, ns_schemaRevision = 1,
      ns_scope = ReplicaScope, ns_identity = ''Logical item ID plus Remote'',
      ns_trustSource = TrustedLocal, ns_protection = InstallationWrapped,
      ns_synchronization = ReplicaLocal, ns_exportTreatment = Excluded,
      ns_backupTreatment = Explicit,
      ns_retention = ''While the logical item or opaque representation is recognized'',
      ns_deletion = ''With its representation or after re-enumeration proof'',
      ns_transactionPartners = [''awsm.storage.replica-state''],
      ns_unknownBehavior = FailClosed, ns_immutable = False\<rparr>"

definition vaultDirectory :: namespace_descriptor where
  "vaultDirectory =
     \<lparr>ns_key = ''awsm.storage.vault-directory'', ns_family = InstallationState, ns_schemaRevision = 1,
      ns_scope = InstallationScope, ns_identity = ''Vault ID'',
      ns_trustSource = TrustedLocal, ns_protection = InstallationWrapped,
      ns_synchronization = InstallationLocal, ns_exportTreatment = Excluded,
      ns_backupTreatment = Explicit,
      ns_retention = ''Until local Vault removal'',
      ns_deletion = ''Explicit local removal'',
      ns_transactionPartners = [''awsm.storage.replica-state'',
        ''awsm.storage.client-secret''],
      ns_unknownBehavior = FailClosed, ns_immutable = False\<rparr>"

definition installationSelection :: namespace_descriptor where
  "installationSelection =
     \<lparr>ns_key = ''awsm.storage.installation-selection'', ns_family = InstallationState, ns_schemaRevision = 1,
      ns_scope = InstallationScope, ns_identity = ''Singleton'',
      ns_trustSource = TrustedLocal, ns_protection = LocalClear,
      ns_synchronization = InstallationLocal, ns_exportTreatment = Excluded,
      ns_backupTreatment = Excluded,
      ns_retention = ''Installation lifetime'',
      ns_deletion = ''With Installation State reset'',
      ns_transactionPartners = [''awsm.storage.vault-directory''],
      ns_unknownBehavior = FailClosed, ns_immutable = False\<rparr>"

definition desktopRuntimeGrant :: namespace_descriptor where
  "desktopRuntimeGrant =
     \<lparr>ns_key = ''awsm.storage.desktop-runtime-grant'', ns_family = InstallationState, ns_schemaRevision = 1,
      ns_scope = InstallationScope, ns_identity = ''Singleton Desktop Runtime grant'',
      ns_trustSource = Authenticated, ns_protection = InstallationWrapped,
      ns_synchronization = InstallationLocal, ns_exportTreatment = Excluded,
      ns_backupTreatment = Excluded,
      ns_retention = ''Until the user disconnects or the grant is revoked'',
      ns_deletion = ''Explicit disconnect, invalid grant, or Storage Realm reset'',
      ns_transactionPartners = [''awsm.storage.installation-wrapping-key''],
      ns_unknownBehavior = FailClosed, ns_immutable = False\<rparr>"

definition replicaRemote :: namespace_descriptor where
  "replicaRemote =
     \<lparr>ns_key = ''awsm.storage.replica-remote'', ns_family = InstallationState, ns_schemaRevision = 1,
      ns_scope = VaultScope, ns_identity = ''Random local Replica Remote ID'',
      ns_trustSource = TrustedLocal, ns_protection = InstallationWrapped,
      ns_synchronization = InstallationLocal, ns_exportTreatment = Excluded,
      ns_backupTreatment = Excluded,
      ns_retention = ''Until a user removes the local Replica Remote configuration'',
      ns_deletion = ''Explicit local Remote removal after pending-work disclosure'',
      ns_transactionPartners = [''awsm.storage.remote-channel-credential'',
        ''awsm.storage.pull-synchronization-job'',
        ''awsm.storage.remote-materialization-ledger''],
      ns_unknownBehavior = FailClosed, ns_immutable = False\<rparr>"

definition installationWrappingKey :: namespace_descriptor where
  "installationWrappingKey =
     \<lparr>ns_key = ''awsm.storage.installation-wrapping-key'', ns_family = TrustedSecrets, ns_schemaRevision = 1,
      ns_scope = InstallationScope, ns_identity = ''Storage Realm'',
      ns_trustSource = TrustedLocal, ns_protection = NonExtractable,
      ns_synchronization = Unsynchronized, ns_exportTreatment = Excluded,
      ns_backupTreatment = Excluded,
      ns_retention = ''Installation and Storage Realm lifetime'',
      ns_deletion = ''With the complete Storage Realm reset'',
      ns_transactionPartners = [''awsm.storage.client-secret'',
        ''awsm.storage.epoch-secret''],
      ns_unknownBehavior = FailClosed, ns_immutable = True\<rparr>"

definition clientSecret :: namespace_descriptor where
  "clientSecret =
     \<lparr>ns_key = ''awsm.storage.client-secret'', ns_family = TrustedSecrets, ns_schemaRevision = 1,
      ns_scope = VaultScope, ns_identity = ''Client Credential ID'',
      ns_trustSource = TrustedLocal, ns_protection = InstallationWrapped,
      ns_synchronization = Unsynchronized, ns_exportTreatment = Excluded,
      ns_backupTreatment = Excluded,
      ns_retention = ''Until Client Credential end or local removal'',
      ns_deletion = ''Credential retirement or local Replica retirement'',
      ns_transactionPartners = [''awsm.storage.replica-state'',
        ''awsm.storage.vault-directory''],
      ns_unknownBehavior = FailClosed, ns_immutable = False\<rparr>"

definition epochSecret :: namespace_descriptor where
  "epochSecret =
     \<lparr>ns_key = ''awsm.storage.epoch-secret'', ns_family = TrustedSecrets, ns_schemaRevision = 1,
      ns_scope = VaultScope, ns_identity = ''Key Epoch ID'',
      ns_trustSource = TrustedLocal, ns_protection = InstallationWrapped,
      ns_synchronization = Unsynchronized, ns_exportTreatment = Excluded,
      ns_backupTreatment = Excluded,
      ns_retention = ''While retained authoritative content needs the Epoch'',
      ns_deletion = ''Only after key reachability proof or local Replica retirement'',
      ns_transactionPartners = [''awsm.storage.replica-state''],
      ns_unknownBehavior = FailClosed, ns_immutable = False\<rparr>"

definition remoteChannelCredential :: namespace_descriptor where
  "remoteChannelCredential =
     \<lparr>ns_key = ''awsm.storage.remote-channel-credential'', ns_family = TrustedSecrets, ns_schemaRevision = 1,
      ns_scope = RemoteScope, ns_identity = ''Replica Remote Channel Authenticator'',
      ns_trustSource = TrustedLocal, ns_protection = InstallationWrapped,
      ns_synchronization = Unsynchronized, ns_exportTreatment = Excluded,
      ns_backupTreatment = Excluded,
      ns_retention = ''Until the local Replica Remote is removed or its credential is replaced'',
      ns_deletion = ''Explicit local Remote credential replacement or removal'',
      ns_transactionPartners = [''awsm.storage.replica-remote'',
        ''awsm.storage.pull-synchronization-job''],
      ns_unknownBehavior = FailClosed, ns_immutable = False\<rparr>"

definition remoteMaterializationLedger :: namespace_descriptor where
  "remoteMaterializationLedger =
     \<lparr>ns_key = ''awsm.storage.remote-materialization-ledger'', ns_family = ExecutionState, ns_schemaRevision = 1,
      ns_scope = RemoteScope, ns_identity = ''Replica Remote and protected logical item identity'',
      ns_trustSource = TrustedLocal, ns_protection = InstallationWrapped,
      ns_synchronization = Unsynchronized, ns_exportTreatment = Excluded,
      ns_backupTreatment = Excluded,
      ns_retention = ''While the local Replica Remote remains configured'',
      ns_deletion = ''Explicit local Remote removal after prepared-output disclosure'',
      ns_transactionPartners = [''awsm.storage.replica-remote'',
        ''awsm.storage.prepared-outgoing-item''],
      ns_unknownBehavior = FailClosed, ns_immutable = False\<rparr>"

definition commandOutcome :: namespace_descriptor where
  "commandOutcome =
     \<lparr>ns_key = ''awsm.storage.command-outcome'', ns_family = ExecutionState, ns_schemaRevision = 1,
      ns_scope = VaultScope, ns_identity = ''Command ID'',
      ns_trustSource = TrustedLocal, ns_protection = LocalClear,
      ns_synchronization = Unsynchronized, ns_exportTreatment = Excluded,
      ns_backupTreatment = Excluded,
      ns_retention = ''Bounded idempotency window or related Job lifetime'',
      ns_deletion = ''After bounded outcome retention'',
      ns_transactionPartners = [''awsm.storage.replica-state''],
      ns_unknownBehavior = FailClosed, ns_immutable = True\<rparr>"

definition replicaGarbageCollectionJob :: namespace_descriptor where
  "replicaGarbageCollectionJob =
     \<lparr>ns_key = ''awsm.storage.replica-garbage-collection-job'', ns_family = ExecutionState, ns_schemaRevision = 1,
      ns_scope = VaultScope, ns_identity = ''Random local Replica Garbage Collection Job ID within one Vault'',
      ns_trustSource = TrustedLocal, ns_protection = LocalClear,
      ns_synchronization = Unsynchronized, ns_exportTreatment = Excluded,
      ns_backupTreatment = Excluded,
      ns_retention = ''Latest terminal outcome until a later heavy cleanup begins'',
      ns_deletion = ''Prior terminal Job in the next heavy-cleanup installation transaction'',
      ns_transactionPartners = [''awsm.storage.replica-state'',
        ''awsm.storage.logical-resolution'',
        ''awsm.storage.artifact-wrapper'',
        ''awsm.storage.epoch-secret''],
      ns_unknownBehavior = FailClosed, ns_immutable = False\<rparr>"

definition pullSynchronizationJob :: namespace_descriptor where
  "pullSynchronizationJob =
     \<lparr>ns_key = ''awsm.storage.pull-synchronization-job'', ns_family = ExecutionState, ns_schemaRevision = 1,
      ns_scope = VaultScope, ns_identity = ''Random local pull-synchronization Job ID'',
      ns_trustSource = TrustedLocal, ns_protection = LocalClear,
      ns_synchronization = Unsynchronized, ns_exportTreatment = Excluded,
      ns_backupTreatment = Excluded,
      ns_retention = ''Until terminal outcome and bounded local outcome retention'',
      ns_deletion = ''After terminal outcome retention or explicit Remote removal'',
      ns_transactionPartners = [''awsm.storage.replica-state'',
        ''awsm.storage.replica-remote'',
        ''awsm.storage.incoming-quarantine''],
      ns_unknownBehavior = FailClosed, ns_immutable = False\<rparr>"

definition preparedCapture :: namespace_descriptor where
  "preparedCapture =
     \<lparr>ns_key = ''awsm.storage.prepared-capture'', ns_family = PreparedData, ns_schemaRevision = 1,
      ns_scope = JobScope, ns_identity = ''Capture Job ID and prepared item ID'',
      ns_trustSource = TrustedLocal, ns_protection = Opaque,
      ns_synchronization = Unsynchronized, ns_exportTreatment = Excluded,
      ns_backupTreatment = Excluded,
      ns_retention = ''Until promotion or terminal cleanup'',
      ns_deletion = ''After terminal outcome and durable cleanup checkpoint'',
      ns_transactionPartners = [''awsm.storage.command-outcome'',
        ''awsm.storage.artifact-wrapper''],
      ns_unknownBehavior = FailClosed, ns_immutable = True\<rparr>"

definition preparedOutgoingItem :: namespace_descriptor where
  "preparedOutgoingItem =
     \<lparr>ns_key = ''awsm.storage.prepared-outgoing-item'', ns_family = PreparedData, ns_schemaRevision = 1,
      ns_scope = RemoteScope, ns_identity = ''Replica Remote and prepared Opaque Storage Item ID'',
      ns_trustSource = TrustedLocal, ns_protection = Opaque,
      ns_synchronization = Unsynchronized, ns_exportTreatment = Excluded,
      ns_backupTreatment = Excluded,
      ns_retention = ''Until immutable Host admission is confirmed or the local Remote is removed'',
      ns_deletion = ''After confirmation or explicit Remote removal'',
      ns_transactionPartners = [''awsm.storage.remote-materialization-ledger''],
      ns_unknownBehavior = FailClosed, ns_immutable = True\<rparr>"

definition pendingVaultCreation :: namespace_descriptor where
  "pendingVaultCreation =
     \<lparr>ns_key = ''awsm.storage.pending-vault-creation'', ns_family = PreparedData, ns_schemaRevision = 1,
      ns_scope = InstallationScope, ns_identity = ''Vault creation setup ID'',
      ns_trustSource = TrustedLocal, ns_protection = InstallationWrapped,
      ns_synchronization = Unsynchronized, ns_exportTreatment = Excluded,
      ns_backupTreatment = Excluded,
      ns_retention = ''Until the user confirms or cancels the new Vault creation'',
      ns_deletion = ''Atomically with initial Vault activation or explicit cancellation'',
      ns_transactionPartners = [''awsm.storage.replica-state'',
        ''awsm.storage.vault-directory''],
      ns_unknownBehavior = FailClosed, ns_immutable = False\<rparr>"

definition incomingQuarantine :: namespace_descriptor where
  "incomingQuarantine =
     \<lparr>ns_key = ''awsm.storage.incoming-quarantine'', ns_family = Quarantine, ns_schemaRevision = 1,
      ns_scope = RemoteScope, ns_identity = ''Remote and Opaque Storage Item ID'',
      ns_trustSource = Untrusted, ns_protection = Opaque,
      ns_synchronization = Unsynchronized, ns_exportTreatment = Excluded,
      ns_backupTreatment = Excluded,
      ns_retention = ''Bounded until validation or rejection'',
      ns_deletion = ''After promotion, rejection, or bounded cleanup'',
      ns_transactionPartners = [''awsm.storage.replica-state''],
      ns_unknownBehavior = QuarantineUnknown, ns_immutable = True\<rparr>"

definition libraryProjection :: namespace_descriptor where
  "libraryProjection =
     \<lparr>ns_key = ''awsm.storage.library-projection'', ns_family = Materializations, ns_schemaRevision = 1,
      ns_scope = ReplicaScope, ns_identity = ''Generation, Frontier digest, and projection schema'',
      ns_trustSource = Derived, ns_protection = InstallationWrapped,
      ns_synchronization = Unsynchronized, ns_exportTreatment = Rebuild,
      ns_backupTreatment = Rebuild,
      ns_retention = ''While its exact source identity remains current'',
      ns_deletion = ''Immediate invalidation or rebuild'',
      ns_transactionPartners = [''awsm.storage.replica-state''],
      ns_unknownBehavior = Discard, ns_immutable = False\<rparr>"

definition searchMaterialization :: namespace_descriptor where
  "searchMaterialization =
     \<lparr>ns_key = ''awsm.storage.search-materialization'', ns_family = Materializations, ns_schemaRevision = 1,
      ns_scope = ReplicaScope, ns_identity = ''Vault, Generation, Frontier, corpus policy, and Search algorithm revisions'',
      ns_trustSource = Derived, ns_protection = InstallationWrapped,
      ns_synchronization = Unsynchronized, ns_exportTreatment = Rebuild,
      ns_backupTreatment = Rebuild,
      ns_retention = ''Only while its exact Materialization identity remains current'',
      ns_deletion = ''Atomic replacement or immediate invalidation'',
      ns_transactionPartners = [''awsm.storage.replica-state''],
      ns_unknownBehavior = Discard, ns_immutable = False\<rparr>"

definition managedResource :: namespace_descriptor where
  "managedResource =
     \<lparr>ns_key = ''awsm.storage.managed-resource'', ns_family = ManagedResources, ns_schemaRevision = 1,
      ns_scope = InstallationScope, ns_identity = ''Resource manifest digest'',
      ns_trustSource = Authenticated, ns_protection = LocalClear,
      ns_synchronization = Unsynchronized, ns_exportTreatment = Excluded,
      ns_backupTreatment = Excluded,
      ns_retention = ''Resource policy and active Materialization requirements'',
      ns_deletion = ''When unused and independently reacquirable'',
      ns_transactionPartners = [],
      ns_unknownBehavior = Discard, ns_immutable = True\<rparr>"

definition NAMESPACES :: "namespace_descriptor list" where
  "NAMESPACES =
     [vaultRecord, keyEnvelope, vaultObject, featureManifest, artifactWrapper,
      replicaState, logicalResolution, vaultDirectory, installationSelection, desktopRuntimeGrant,
      replicaRemote, installationWrappingKey, clientSecret, epochSecret, remoteChannelCredential,
      remoteMaterializationLedger, commandOutcome, replicaGarbageCollectionJob, pullSynchronizationJob, preparedCapture,
      preparedOutgoingItem, pendingVaultCreation, incomingQuarantine, libraryProjection, searchMaterialization,
      managedResource]"

definition NAMESPACE_REGISTRY :: "(string, namespace_descriptor) jmap" where
  "NAMESPACE_REGISTRY = mapFrom (map (\<lambda>d. (ns_key d, d)) NAMESPACES)"

definition descriptor :: "string \<Rightarrow> namespace_descriptor res" where
  "descriptor ns =
     (case mapGet NAMESPACE_REGISTRY ns of
        None \<Rightarrow> throw (TypeError (''Unknown canonical namespace: '' @ ns))
      | Some d \<Rightarrow> ok d)"

section \<open>The registry is well formed\<close>

text \<open>
  The module checks both conditions when it is loaded: every key is a canonical scoped key, and
  no key is used twice.
\<close>

lemma namespace_keys_scoped: "\<forall>d \<in> set NAMESPACES. assertCanonicalScopedKey (ns_key d) = ok (ns_key d)"
  by code_simp

lemma namespace_keys_distinct: "distinct (map ns_key NAMESPACES)"
  by code_simp

lemma registry_get: "mapGet NAMESPACE_REGISTRY ns = Some d \<longleftrightarrow> d \<in> set NAMESPACES \<and> ns_key d = ns"
proof -
  let ?es = "map (\<lambda>d. (ns_key d, d)) NAMESPACES"
  have "distinct (map fst (rev ?es))"
    using namespace_keys_distinct by (simp add: rev_map[symmetric] comp_def)
  then have "map_of (rev ?es) ns = Some d \<longleftrightarrow> (ns, d) \<in> set (rev ?es)"
    by (rule map_of_eq_Some_iff)
  then show ?thesis unfolding NAMESPACE_REGISTRY_def mapFrom_get by auto
qed

lemma descriptor_ok: "descriptor ns = ok d \<longleftrightarrow> d \<in> set NAMESPACES \<and> ns_key d = ns"
  using registry_get[of ns d] by (auto simp: descriptor_def split: option.splits)

lemma namespaces_member [simp]:
  "replicaState \<in> set NAMESPACES" "vaultDirectory \<in> set NAMESPACES" "clientSecret \<in> set NAMESPACES"
  "epochSecret \<in> set NAMESPACES" "installationWrappingKey \<in> set NAMESPACES"
  "replicaRemote \<in> set NAMESPACES" "remoteChannelCredential \<in> set NAMESPACES"
  "replicaGarbageCollectionJob \<in> set NAMESPACES" "logicalResolution \<in> set NAMESPACES"
  by (simp_all add: NAMESPACES_def)

lemma descriptor_of [simp]: "d \<in> set NAMESPACES \<Longrightarrow> descriptor (ns_key d) = ok d"
  by (simp add: descriptor_ok)

end
