(* ===== verification/Storage.thy ===== *)
theory Storage
  imports Storage_Schema Schema "HOL-Library.Product_Lexorder" "HOL-Library.Char_ord"
begin

text \<open>
  The canonical database of an installation (\<open>drivers/indexeddb/canonical-database.ts\<close>): reads,
  single writes and the five compare-and-swap commits. An IndexedDB transaction is atomic, so a
  commit is a function from the database to an error or the next database; when it throws, the
  transaction was aborted and the database is the old one. The lemmas say exactly when a commit
  succeeds and what it leaves, that immutable items never change, that every stored item stays
  readable, and that of two commits prepared on the same Replica state one fails.
\<close>

section \<open>Data\<close>

type_synonym storage_key = "string \<times> string \<times> string \<times> string"

text \<open>What a store can hold: bytes, the installation wrapping key, or a value of another type.\<close>

record crypto_key =
  ck_extractable :: bool
  ck_algorithm :: string
  ck_usages :: "string list"

datatype stored = SBytes bytes | SCryptoKey crypto_key | SOther

type_synonym database = "(storage_family \<times> storage_key, stored) jmap"

text \<open>\<open>Omit<NamespaceBytes, "bytes">\<close> and its extension \<open>NamespaceBytes\<close>.\<close>

record storage_item =
  it_namespace :: string
  it_scopeKey :: string
  it_itemKey :: string

record namespace_bytes = storage_item +
  it_bytes :: bytes

abbreviation identity_of :: "'a storage_item_scheme \<Rightarrow> storage_item" where
  "identity_of item \<equiv>
     \<lparr>it_namespace = it_namespace item, it_scopeKey = it_scopeKey item, it_itemKey = it_itemKey item\<rparr>"

record initial_vault_commit =
  iv_realm :: storage_realm
  iv_vaultKey :: string
  iv_immutableItems :: "namespace_bytes list"
  iv_replicaState :: namespace_bytes
  iv_replicaSafetyItems :: "namespace_bytes list"
  iv_vaultDirectoryEntry :: namespace_bytes
  iv_installationStateItems :: "namespace_bytes list"
  iv_trustedSecrets :: "namespace_bytes list"
  iv_expectedMutableItems :: "namespace_bytes list"
  iv_deletedItems :: "storage_item list"

record replica_mutation_commit =
  rm_realm :: storage_realm
  rm_expectedReplicaState :: bytes
  rm_expectedAbsentItems :: "storage_item list"
  rm_expectedMutableItems :: "namespace_bytes list"
  rm_nextReplicaState :: namespace_bytes
  rm_immutableItems :: "namespace_bytes list"
  rm_mutableItems :: "namespace_bytes list"
  rm_deletedItems :: "storage_item list"

record installation_mutation_commit =
  im_realm :: storage_realm
  im_expectedAbsentItems :: "storage_item list"
  im_expectedMutableItems :: "namespace_bytes list"
  im_mutableItems :: "namespace_bytes list"
  im_deletedItems :: "storage_item list"

record execution_mutation_commit =
  em_realm :: storage_realm
  em_expectedAbsentItems :: "storage_item list"
  em_expectedMutableItems :: "namespace_bytes list"
  em_immutableItems :: "namespace_bytes list"
  em_mutableItems :: "namespace_bytes list"
  em_deletedItems :: "storage_item list"

record remote_retirement_commit =
  rr_realm :: storage_realm
  rr_vaultId :: bytes
  rr_remoteId :: string
  rr_expectedRemote :: namespace_bytes
  rr_expectedCredential :: namespace_bytes
  rr_deletedItems :: "storage_item list"

section \<open>Errors\<close>

fun error_name :: "js_error \<Rightarrow> string" where
  "error_name (TypeError m) = ''TypeError''"
| "error_name (RangeError m) = ''RangeError''"
| "error_name (CanonicalValueError m) = ''CanonicalValueError''"
| "error_name (CodedError i m) = i"
| "error_name (DOMException name) = name"

text \<open>A \<open>CodedError\<close> inside a transaction is a \<open>CanonicalStorageError\<close>.\<close>

fun storageError :: "js_error \<Rightarrow> js_error" where
  "storageError (CodedError i m) = CodedError i m"
| "storageError e = CodedError ''STORAGE_TRANSACTION_FAILED''
     (''The canonical storage transaction failed ('' @ error_name e @ '').'')"

text \<open>The \<open>try\<close>/\<open>catch\<close> around every transaction.\<close>

definition in_transaction :: "'a res \<Rightarrow> 'a res" where
  "in_transaction r = (case r of Inl e \<Rightarrow> throw (storageError e) | Inr x \<Rightarrow> ok x)"

section \<open>Keys\<close>

text \<open>
  \<open>String.prototype.length\<close> counts UTF-16 units: one for a code point coded by at most three
  bytes in UTF-8, two for one coded by four.
\<close>

definition utf16_units :: "char \<Rightarrow> nat" where
  "utf16_units c =
     (let n = (of_char c :: nat) in if n < 0x80 then 1 else if n < 0xC0 then 0 else if n < 0xF0 then 1 else 2)"

definition utf16_length :: "string \<Rightarrow> nat" where
  "utf16_length s = sum_list (map utf16_units s)"

definition control_character :: "char \<Rightarrow> bool" where
  "control_character c = ((of_char c :: nat) \<le> 0x1f \<or> (of_char c :: nat) = 0x7f)"

definition component_ok :: "string \<Rightarrow> bool" where
  "component_ok value =
     (\<not> (utf16_length value < 1 \<or> utf16_length value > 1024 \<or> list_ex control_character value))"

definition assertKeyComponent :: "string \<Rightarrow> string \<Rightarrow> unit res" where
  "assertKeyComponent field value =
     guard_not (\<not> component_ok value) (TypeError (field @ '' is not a valid storage key component''))"

definition storageKey :: "storage_realm \<Rightarrow> 'a storage_item_scheme \<Rightarrow> storage_key res" where
  "storageKey realm item =
     and_then (assertKeyComponent ''Scope key'' (it_scopeKey item)) (\<lambda>_.
     and_then (assertKeyComponent ''Item key'' (it_itemKey item)) (\<lambda>_.
     and_then (descriptor (it_namespace item)) (\<lambda>_.
     and_then (storageRealmKey realm) (\<lambda>realmKey.
     ok (realmKey, it_namespace item, it_scopeKey item, it_itemKey item)))))"

definition serializedStorageKey :: "storage_realm \<Rightarrow> 'a storage_item_scheme \<Rightarrow> string res" where
  "serializedStorageKey realm item =
     and_then (storageKey realm item) (\<lambda>(a, b, c, d).
     ok (a @ [CHR 0x00] @ b @ [CHR 0x00] @ c @ [CHR 0x00] @ d))"

definition assertUniqueItems :: "storage_realm \<Rightarrow> 'a storage_item_scheme list \<Rightarrow> unit res" where
  "assertUniqueItems realm items =
     and_then (traverse (serializedStorageKey realm) items) (\<lambda>keys.
     guard_not (card (set keys) \<noteq> length keys)
       (TypeError ''A canonical storage commit contains duplicate item keys''))"

definition assertBytes :: "namespace_bytes \<Rightarrow> unit res" where
  "assertBytes item =
     guard_not (length (it_bytes item) = 0)
       (TypeError (it_namespace item @ '' must contain nonempty bytes''))"

definition assertNamespace :: "namespace_bytes \<Rightarrow> string \<Rightarrow> unit res" where
  "assertNamespace item expected =
     guard_not (it_namespace item \<noteq> expected)
       (TypeError (''Expected namespace '' @ expected @ '', received '' @ it_namespace item))"

definition assertVaultScope :: "namespace_bytes \<Rightarrow> string \<Rightarrow> unit res" where
  "assertVaultScope item vaultKey =
     guard_not (it_scopeKey item \<noteq> vaultKey)
       (TypeError (it_namespace item @ '' is outside the committed Vault scope''))"

definition assertInitialItemScope :: "namespace_bytes \<Rightarrow> string \<Rightarrow> unit res" where
  "assertInitialItemScope item vaultKey =
     (if it_namespace item = ns_key vaultDirectory
      then guard_not (it_scopeKey item \<noteq> ''installation'' \<or> it_itemKey item \<noteq> vaultKey)
             (TypeError ''Vault Directory entry is outside the committed Installation scope'')
      else if it_namespace item = ns_key installationSelection
      then guard_not (it_scopeKey item \<noteq> ''installation'' \<or> it_itemKey item \<noteq> ''current'')
             (TypeError ''Installation Selection is outside its singleton scope'')
      else assertVaultScope item vaultKey)"

definition validateInstallationWrappingKey :: "stored \<Rightarrow> crypto_key res" where
  "validateInstallationWrappingKey value =
     (let invalid = throw (CodedError ''STORAGE_SCHEMA_INVALID'' ''The installation wrapping key is invalid.'') in
      case value of
        SCryptoKey k \<Rightarrow>
          (if ck_extractable k \<or> ck_algorithm k \<noteq> ''AES-KW'' \<or> ''wrapKey'' \<notin> set (ck_usages k) \<or>
              ''unwrapKey'' \<notin> set (ck_usages k)
           then invalid else ok k)
      | _ \<Rightarrow> invalid)"

section \<open>Identifiers as keys\<close>

text \<open>\<open>identifierStorageKey\<close> is the helper \<open>key\<close>; its inverse reads two digits at a time.\<close>

definition hex_digit :: "char \<Rightarrow> nat option" where
  "hex_digit c =
     (let n = (of_char c :: nat) in
      if 48 \<le> n \<and> n \<le> 57 then Some (n - 48) else if 97 \<le> n \<and> n \<le> 102 then Some (n - 87) else None)"

definition hex_value :: "char \<Rightarrow> nat" where
  "hex_value c = (case hex_digit c of None \<Rightarrow> 0 | Some n \<Rightarrow> n)"

fun hex_bytes :: "string \<Rightarrow> bytes" where
  "hex_bytes (a # b # rest) =
     word_of_nat (16 * hex_value a + hex_value b) # hex_bytes rest"
| "hex_bytes _ = []"

definition identifierFromStorageKey :: "identifier_kind \<Rightarrow> string \<Rightarrow> bytes res" where
  "identifierFromStorageKey kind value =
     (if \<not> (length value = 64 \<and> list_all (\<lambda>c. hex_digit c \<noteq> None) value)
      then throw (TypeError (kind_name kind @ '' storage key must contain 64 lowercase hexadecimal characters''))
      else identifier_of kind (hex_bytes value))"

section \<open>Opening\<close>

text \<open>
  \<open>openCanonicalDatabase\<close> on what the browser finds under the name: version 0 and no stores when
  there is none. A newer version is refused by the browser.
\<close>

definition openCanonicalDatabase :: "int \<Rightarrow> string list \<Rightarrow> string list res" where
  "openCanonicalDatabase version names =
     (let expected = map family_name STORAGE_FAMILIES in
      and_then (if version = 0 then ok expected
                else if version < 1
                then throw (CodedError ''STORAGE_SCHEMA_INVALID''
                  ''The canonical database cannot be upgraded from another schema.'')
                else if version > 1 then throw (DOMException ''VersionError'')
                else ok names) (\<lambda>actual.
      if sort expected \<noteq> sort actual
      then throw (CodedError ''STORAGE_SCHEMA_INVALID''
        ''The canonical database does not contain the exact storage families.'')
      else ok actual))"

section \<open>Object stores\<close>

abbreviation store_get :: "database \<Rightarrow> storage_family \<Rightarrow> storage_key \<Rightarrow> stored option" where
  "store_get db family k \<equiv> mapGet db (family, k)"

abbreviation store_put :: "database \<Rightarrow> storage_family \<Rightarrow> storage_key \<Rightarrow> stored \<Rightarrow> database" where
  "store_put db family k v \<equiv> mapSet db (family, k) v"

abbreviation store_delete :: "database \<Rightarrow> storage_family \<Rightarrow> storage_key \<Rightarrow> database" where
  "store_delete db family k \<equiv> AList.delete (family, k) db"

text \<open>\<open>add\<close> on a key that is taken fails the transaction.\<close>

definition store_add :: "database \<Rightarrow> storage_family \<Rightarrow> storage_key \<Rightarrow> stored \<Rightarrow> database res" where
  "store_add db family k v =
     (if store_get db family k \<noteq> None then throw (DOMException ''ConstraintError'')
      else ok (store_put db family k v))"

text \<open>The loops the commits share.\<close>

definition assert_absent ::
  "storage_realm \<Rightarrow> js_error \<Rightarrow> database \<Rightarrow> 'a storage_item_scheme list \<Rightarrow> unit res" where
  "assert_absent realm e db items =
     checks (map (\<lambda>item.
       and_then (descriptor (it_namespace item)) (\<lambda>d.
       and_then (storageKey realm item) (\<lambda>k.
       guard_not (store_get db (ns_family d) k \<noteq> None) e))) items)"

definition assert_unchanged ::
  "storage_realm \<Rightarrow> js_error \<Rightarrow> database \<Rightarrow> namespace_bytes list \<Rightarrow> unit res" where
  "assert_unchanged realm e db items =
     checks (map (\<lambda>item.
       and_then (descriptor (it_namespace item)) (\<lambda>d.
       and_then (storageKey realm item) (\<lambda>k.
       case store_get db (ns_family d) k of
         Some (SBytes bs) \<Rightarrow> guard_not (\<not> bytesEqual bs (it_bytes item)) e
       | _ \<Rightarrow> throw e))) items)"

definition put_item :: "storage_realm \<Rightarrow> database \<Rightarrow> namespace_bytes \<Rightarrow> database res" where
  "put_item realm db item =
     and_then (descriptor (it_namespace item)) (\<lambda>d.
     and_then (storageKey realm item) (\<lambda>k.
     ok (store_put db (ns_family d) k (SBytes (it_bytes item)))))"

definition delete_item :: "storage_realm \<Rightarrow> database \<Rightarrow> 'a storage_item_scheme \<Rightarrow> database res" where
  "delete_item realm db item =
     and_then (descriptor (it_namespace item)) (\<lambda>d.
     and_then (storageKey realm item) (\<lambda>k.
     ok (store_delete db (ns_family d) k)))"

definition add_item :: "storage_realm \<Rightarrow> storage_family \<Rightarrow> database \<Rightarrow> namespace_bytes \<Rightarrow> database res" where
  "add_item realm family db item =
     and_then (storageKey realm item) (\<lambda>k. store_add db family k (SBytes (it_bytes item)))"

definition putImmutableInTransaction :: "storage_realm \<Rightarrow> database \<Rightarrow> namespace_bytes \<Rightarrow> database res" where
  "putImmutableInTransaction realm db item =
     and_then (descriptor (it_namespace item)) (\<lambda>d.
     and_then (storageKey realm item) (\<lambda>k.
     let conflict = throw (CodedError ''IMMUTABLE_ITEM_CONFLICT''
       (''Immutable '' @ it_namespace item @ '' bytes conflict with the existing identity.'')) in
     case store_get db (ns_family d) k of
       None \<Rightarrow> store_add db (ns_family d) k (SBytes (it_bytes item))
     | Some (SBytes bs) \<Rightarrow> (if \<not> bytesEqual bs (it_bytes item) then conflict else ok db)
     | Some _ \<Rightarrow> conflict))"

section \<open>Reads\<close>

definition getBytes :: "storage_realm \<Rightarrow> 'a storage_item_scheme \<Rightarrow> database \<Rightarrow> bytes option res" where
  "getBytes realm item db =
     and_then (descriptor (it_namespace item)) (\<lambda>d.
     in_transaction (and_then (storageKey realm item) (\<lambda>k.
       let invalid = throw (CodedError ''STORAGE_SCHEMA_INVALID''
         (it_namespace item @ '' contains an invalid stored value.'')) in
       case store_get db (ns_family d) k of
         None \<Rightarrow> ok None
       | Some (SBytes bs) \<Rightarrow> (if length bs = 0 then invalid else ok (Some bs))
       | Some _ \<Rightarrow> invalid)))"

text \<open>A cursor visits a store in the order of its keys.\<close>

definition cursor :: "database \<Rightarrow> storage_family \<Rightarrow> (storage_key \<times> stored) list" where
  "cursor db family =
     sort_key fst (map (\<lambda>e. (snd (fst e), snd e)) (filter (\<lambda>e. fst (fst e) = family) db))"

text \<open>\<open>collate\<close> is \<open>String.prototype.localeCompare\<close>, which depends on the locale of the host.\<close>

definition listBytes ::
  "string comparer \<Rightarrow> storage_realm \<Rightarrow> string \<Rightarrow> string \<Rightarrow> database \<Rightarrow> namespace_bytes list res" where
  "listBytes collate realm ns scopeKey db =
     and_then (assertKeyComponent ''Scope key'' scopeKey) (\<lambda>_.
     and_then (descriptor ns) (\<lambda>d.
     and_then (storageRealmKey realm) (\<lambda>expectedRealm.
     in_transaction (and_then
       (traverse (\<lambda>((r, n, s, i), v).
          case v of
            SBytes bs \<Rightarrow> ok \<lparr>it_namespace = ns, it_scopeKey = scopeKey, it_itemKey = i, it_bytes = bs\<rparr>
          | _ \<Rightarrow> throw (CodedError ''STORAGE_SCHEMA_INVALID'' (ns @ '' contains an invalid stored entry.'')))
         (filter (\<lambda>((r, n, s, i), v). r = expectedRealm \<and> n = ns \<and> s = scopeKey) (cursor db (ns_family d))))
       (\<lambda>found. ok (sort_by (\<lambda>left right. collate (it_itemKey left) (it_itemKey right)) found))))))"

section \<open>Single writes\<close>

definition putMutable :: "storage_realm \<Rightarrow> namespace_bytes \<Rightarrow> database \<Rightarrow> database res" where
  "putMutable realm item db =
     and_then (assertBytes item) (\<lambda>_.
     and_then (descriptor (it_namespace item)) (\<lambda>d.
     and_then (guard_not (ns_immutable d) (TypeError (it_namespace item @ '' is immutable''))) (\<lambda>_.
     in_transaction (put_item realm db item))))"

definition putImmutable :: "storage_realm \<Rightarrow> namespace_bytes \<Rightarrow> database \<Rightarrow> database res" where
  "putImmutable realm item db =
     and_then (assertBytes item) (\<lambda>_.
     and_then (descriptor (it_namespace item)) (\<lambda>d.
     and_then (guard_not (\<not> ns_immutable d) (TypeError (it_namespace item @ '' is not an immutable namespace'')))
       (\<lambda>_. in_transaction (putImmutableInTransaction realm db item))))"

section \<open>Commits\<close>

text \<open>A condition on the descriptor of an item.\<close>

definition assert_descriptor ::
  "(namespace_descriptor \<Rightarrow> bool) \<Rightarrow> string \<Rightarrow> 'a storage_item_scheme \<Rightarrow> unit res" where
  "assert_descriptor p message item =
     and_then (descriptor (it_namespace item)) (\<lambda>d.
     guard_not (\<not> p d) (TypeError (it_namespace item @ message)))"

definition initial_items :: "initial_vault_commit \<Rightarrow> namespace_bytes list" where
  "initial_items input =
     iv_immutableItems input @ [iv_replicaState input] @ iv_replicaSafetyItems input @
     [iv_vaultDirectoryEntry input] @ iv_installationStateItems input @ iv_trustedSecrets input"

definition initial_checks :: "initial_vault_commit \<Rightarrow> unit res" where
  "initial_checks input =
     (let prepared = (\<lambda>d. \<not> (ns_family d \<noteq> PreparedData \<or> ns_immutable d)) in
      checks
       [assertKeyComponent ''Vault key'' (iv_vaultKey input),
        assertNamespace (iv_replicaState input) (ns_key replicaState),
        assertNamespace (iv_vaultDirectoryEntry input) (ns_key vaultDirectory),
        assertVaultScope (iv_replicaState input) (iv_vaultKey input),
        assertInitialItemScope (iv_vaultDirectoryEntry input) (iv_vaultKey input),
        checks (map (\<lambda>item. checks [assertBytes item, assertInitialItemScope item (iv_vaultKey input)])
          (initial_items input)),
        checks (map (assert_descriptor ns_immutable '' is not immutable initialization data'')
          (iv_immutableItems input)),
        checks (map (assert_descriptor (\<lambda>d. ns_family d = ReplicaSafetyState)
          '' is not Replica Safety State'') (iv_replicaSafetyItems input)),
        checks (map (assert_descriptor (\<lambda>d. \<not> (ns_family d \<noteq> InstallationState \<or> ns_immutable d))
          '' is not mutable Installation State'') (iv_installationStateItems input)),
        checks (map (\<lambda>item. guard_not
            (it_namespace item \<noteq> ns_key clientSecret \<and> it_namespace item \<noteq> ns_key epochSecret)
            (TypeError (it_namespace item @ '' is not an initial Vault secret''))) (iv_trustedSecrets input)),
        checks (map (\<lambda>item. checks [assertBytes item,
            assert_descriptor prepared '' is not mutable Prepared Data'' item]) (iv_expectedMutableItems input)),
        checks (map (assert_descriptor prepared '' is not mutable Prepared Data'') (iv_deletedItems input)),
        assertUniqueItems (iv_realm input) (initial_items input),
        assertUniqueItems (iv_realm input) (iv_expectedMutableItems input),
        assertUniqueItems (iv_realm input) (iv_deletedItems input),
        assertUniqueItems (iv_realm input)
          (map identity_of (initial_items input) @ iv_deletedItems input)])"

definition commitInitialVault :: "initial_vault_commit \<Rightarrow> database \<Rightarrow> database res" where
  "commitInitialVault input db =
     (let realm = iv_realm input in
      and_then (initial_checks input) (\<lambda>_.
      in_transaction (
        and_then (storageKey realm (iv_replicaState input)) (\<lambda>replicaKey.
        and_then (storageKey realm (iv_vaultDirectoryEntry input)) (\<lambda>directoryKey.
        and_then (guard_not (store_get db ReplicaSafetyState replicaKey \<noteq> None \<or>
            store_get db InstallationState directoryKey \<noteq> None)
          (CodedError ''VAULT_ALREADY_EXISTS'' ''The Vault already exists in this Storage Realm.'')) (\<lambda>_.
        and_then (assert_unchanged realm (CodedError ''STORAGE_CONTEXT_CHANGED''
          ''Prepared Data changed before initial Vault activation.'') db (iv_expectedMutableItems input)) (\<lambda>_.
        and_then (foldM (\<lambda>db item. and_then (descriptor (it_namespace item)) (\<lambda>d.
            add_item realm (ns_family d) db item)) db (iv_immutableItems input)) (\<lambda>db.
        and_then (add_item realm ReplicaSafetyState db (iv_replicaState input)) (\<lambda>db.
        and_then (foldM (add_item realm ReplicaSafetyState) db (iv_replicaSafetyItems input)) (\<lambda>db.
        and_then (add_item realm InstallationState db (iv_vaultDirectoryEntry input)) (\<lambda>db.
        and_then (foldM (\<lambda>db item. and_then (storageKey realm item) (\<lambda>k.
            ok (store_put db InstallationState k (SBytes (it_bytes item))))) db
            (iv_installationStateItems input)) (\<lambda>db.
        and_then (foldM (add_item realm TrustedSecrets) db (iv_trustedSecrets input)) (\<lambda>db.
        foldM (delete_item realm) db (iv_deletedItems input))))))))))))))"

definition replica_checks :: "replica_mutation_commit \<Rightarrow> unit res" where
  "replica_checks input =
     (let realm = rm_realm input;
          written = [rm_nextReplicaState input] @ rm_immutableItems input @ rm_mutableItems input in
      checks
       [assertNamespace (rm_nextReplicaState input) (ns_key replicaState),
        assertBytes (rm_nextReplicaState input),
        checks (map assertBytes written),
        checks (map (assert_descriptor ns_immutable '' is not immutable commit data'')
          (rm_immutableItems input)),
        checks (map (assert_descriptor (\<lambda>d. \<not> ns_immutable d) '' cannot be replaced as mutable state'')
          (rm_mutableItems input)),
        checks (map (\<lambda>item. checks [assertBytes item,
          assert_descriptor (\<lambda>d. \<not> ns_immutable d) '' cannot be a mutable compare-and-swap input'' item])
          (rm_expectedMutableItems input)),
        checks (map (assert_descriptor (\<lambda>d. \<not> ns_immutable d)
          '' cannot be an absent mutable-state assertion'') (rm_expectedAbsentItems input)),
        assertUniqueItems realm (rm_expectedAbsentItems input),
        assertUniqueItems realm (rm_expectedMutableItems input),
        assertUniqueItems realm (map identity_of written @ rm_deletedItems input)])"

definition commitReplicaMutation :: "replica_mutation_commit \<Rightarrow> database \<Rightarrow> database res" where
  "commitReplicaMutation input db =
     (let realm = rm_realm input;
          changed = (\<lambda>message. CodedError ''VAULT_CONTEXT_CHANGED'' message) in
      and_then (replica_checks input) (\<lambda>_.
      in_transaction (
        and_then (storageKey realm (rm_nextReplicaState input)) (\<lambda>replicaKey.
        and_then (case store_get db ReplicaSafetyState replicaKey of
            Some (SBytes bs) \<Rightarrow> guard_not (\<not> bytesEqual bs (rm_expectedReplicaState input))
              (changed ''The Replica frontier changed before the commit.'')
          | _ \<Rightarrow> throw (changed ''The Replica frontier changed before the commit.'')) (\<lambda>_.
        and_then (assert_absent realm
          (changed ''Mutable safety state already contains the requested local identity.'') db
          (rm_expectedAbsentItems input)) (\<lambda>_.
        and_then (assert_unchanged realm (changed ''Mutable safety state changed before the commit.'') db
          (rm_expectedMutableItems input)) (\<lambda>_.
        and_then (foldM (putImmutableInTransaction realm) db (rm_immutableItems input)) (\<lambda>db.
        and_then (foldM (put_item realm) db (rm_mutableItems input)) (\<lambda>db.
        and_then (foldM (delete_item realm) db (rm_deletedItems input)) (\<lambda>db.
        ok (store_put db ReplicaSafetyState replicaKey (SBytes (it_bytes (rm_nextReplicaState input))))))))))))))"

definition installation_checks :: "installation_mutation_commit \<Rightarrow> unit res" where
  "installation_checks input =
     (let realm = im_realm input;
          installation_item = (\<lambda>item. assert_descriptor
            (\<lambda>d. \<not> (ns_immutable d \<or> ns_family d \<notin> {InstallationState, TrustedSecrets}))
            '' is not mutable Installation state'' item) in
      checks
       [checks (map installation_item (im_expectedAbsentItems input)),
        checks (map (\<lambda>item. checks [assertBytes item, installation_item (identity_of item)])
          (im_expectedMutableItems input)),
        checks (map (\<lambda>item. checks [assertBytes item, installation_item (identity_of item)])
          (im_mutableItems input)),
        checks (map installation_item (im_deletedItems input)),
        assertUniqueItems realm (im_expectedAbsentItems input),
        assertUniqueItems realm (im_expectedMutableItems input),
        assertUniqueItems realm (map identity_of (im_mutableItems input) @ im_deletedItems input)])"

definition commitInstallationMutation :: "installation_mutation_commit \<Rightarrow> database \<Rightarrow> database res" where
  "commitInstallationMutation input db =
     (let realm = im_realm input in
      and_then (installation_checks input) (\<lambda>_.
      if im_expectedMutableItems input = [] \<and> im_mutableItems input = [] \<and>
         im_expectedAbsentItems input = [] \<and> im_deletedItems input = [] then ok db
      else in_transaction (
        and_then (assert_absent realm (CodedError ''STORAGE_CONTEXT_CHANGED''
          ''Installation state already contains the requested local identity.'') db
          (im_expectedAbsentItems input)) (\<lambda>_.
        and_then (assert_unchanged realm (CodedError ''STORAGE_CONTEXT_CHANGED''
          ''Installation state changed before the commit.'') db (im_expectedMutableItems input)) (\<lambda>_.
        and_then (foldM (put_item realm) db (im_mutableItems input)) (\<lambda>db.
        foldM (delete_item realm) db (im_deletedItems input)))))))"

definition execution_checks :: "execution_mutation_commit \<Rightarrow> unit res" where
  "execution_checks input =
     (let realm = em_realm input;
          execution_item = (\<lambda>item. assert_descriptor
            (\<lambda>d. ns_family d \<in> {ExecutionState, PreparedData, Quarantine})
            '' is not Execution State, Prepared Data, or Quarantine'' item) in
      checks
       [checks (map execution_item (em_expectedAbsentItems input)),
        checks (map (\<lambda>item. checks [assertBytes item, execution_item (identity_of item),
          assert_descriptor (\<lambda>d. \<not> ns_immutable d) '' cannot be a mutable compare-and-swap input'' item])
          (em_expectedMutableItems input)),
        checks (map (\<lambda>item. checks [assertBytes item, execution_item (identity_of item),
          assert_descriptor ns_immutable
            '' is not immutable Execution State, Prepared Data, or Quarantine'' item])
          (em_immutableItems input)),
        checks (map (\<lambda>item. checks [assertBytes item, execution_item (identity_of item),
          assert_descriptor (\<lambda>d. \<not> ns_immutable d) '' cannot be replaced as mutable state'' item])
          (em_mutableItems input)),
        checks (map execution_item (em_deletedItems input)),
        assertUniqueItems realm (em_expectedAbsentItems input),
        assertUniqueItems realm (em_expectedMutableItems input),
        assertUniqueItems realm
          (map identity_of (em_immutableItems input @ em_mutableItems input) @ em_deletedItems input)])"

definition commitExecutionMutation :: "execution_mutation_commit \<Rightarrow> database \<Rightarrow> database res" where
  "commitExecutionMutation input db =
     (let realm = em_realm input in
      and_then (execution_checks input) (\<lambda>_.
      if em_expectedMutableItems input = [] \<and> em_immutableItems input = [] \<and> em_mutableItems input = [] \<and>
         em_expectedAbsentItems input = [] \<and> em_deletedItems input = [] then ok db
      else in_transaction (
        and_then (assert_absent realm (CodedError ''STORAGE_CONTEXT_CHANGED''
          ''Execution State already contains the requested local identity.'') db
          (em_expectedAbsentItems input)) (\<lambda>_.
        and_then (assert_unchanged realm (CodedError ''STORAGE_CONTEXT_CHANGED''
          ''Execution State changed before the commit.'') db (em_expectedMutableItems input)) (\<lambda>_.
        and_then (foldM (putImmutableInTransaction realm) db (em_immutableItems input)) (\<lambda>db.
        and_then (foldM (put_item realm) db (em_mutableItems input)) (\<lambda>db.
        foldM (delete_item realm) db (em_deletedItems input))))))))"

definition retirement_allows :: "remote_retirement_commit \<Rightarrow> storage_item \<Rightarrow> bool" where
  "retirement_allows input item =
     (let vaultKey = key (rr_vaultId input); ns = it_namespace item in
      ns = ns_key replicaRemote \<and> it_scopeKey item = vaultKey \<and> it_itemKey item = rr_remoteId input \<or>
      ns = ns_key remoteChannelCredential \<and> it_scopeKey item = rr_remoteId input \<and> it_itemKey item = ''bearer'' \<or>
      ns \<in> {ns_key remoteMaterializationLedger, ns_key preparedOutgoingItem, ns_key incomingQuarantine} \<and>
        it_scopeKey item = rr_remoteId input \<or>
      ns = ns_key pullSynchronizationJob \<and> it_scopeKey item = vaultKey)"

definition retirement_checks :: "remote_retirement_commit \<Rightarrow> unit res" where
  "retirement_checks input =
     (let vaultKey = key (rr_vaultId input);
          remote = rr_expectedRemote input;
          credential = rr_expectedCredential input;
          hasDeletion = (\<lambda>expected. list_ex (\<lambda>candidate.
            it_namespace candidate = it_namespace expected \<and> it_scopeKey candidate = it_scopeKey expected \<and>
            it_itemKey candidate = it_itemKey expected) (rr_deletedItems input)) in
      checks
       [guard_not (it_namespace remote \<noteq> ns_key replicaRemote \<or> it_scopeKey remote \<noteq> vaultKey \<or>
            it_itemKey remote \<noteq> rr_remoteId input)
          (TypeError ''Remote retirement configuration is outside the selected Vault''),
        guard_not (it_namespace credential \<noteq> ns_key remoteChannelCredential \<or>
            it_scopeKey credential \<noteq> rr_remoteId input \<or> it_itemKey credential \<noteq> ''bearer'')
          (TypeError ''Remote retirement credential does not match its Remote''),
        assertBytes remote,
        assertBytes credential,
        guard_not (\<not> hasDeletion remote \<or> \<not> hasDeletion credential)
          (TypeError ''Remote retirement must remove its configuration and credential together''),
        checks (map (\<lambda>item. guard_not (\<not> retirement_allows input item)
          (TypeError ''Remote retirement attempts to remove state outside its local Remote''))
          (rr_deletedItems input)),
        assertUniqueItems (rr_realm input) (rr_deletedItems input)])"

definition commitRemoteRetirement :: "remote_retirement_commit \<Rightarrow> database \<Rightarrow> database res" where
  "commitRemoteRetirement input db =
     and_then (retirement_checks input) (\<lambda>_.
     in_transaction (
       and_then (assert_unchanged (rr_realm input) (CodedError ''STORAGE_CONTEXT_CHANGED''
         ''Replica Remote state changed before local removal.'') db
         [rr_expectedRemote input, rr_expectedCredential input]) (\<lambda>_.
       foldM (delete_item (rr_realm input)) db (rr_deletedItems input))))"

section \<open>The installation wrapping key\<close>

text \<open>
  Between reading, adding and reading again other contexts may commit: the three databases are
  those the three transactions see. The result is the key and the database the second left.
\<close>

definition wrapping_item :: "string \<Rightarrow> storage_item" where
  "wrapping_item realmKey =
     \<lparr>it_namespace = ns_key installationWrappingKey, it_scopeKey = realmKey, it_itemKey = ''aes-kw''\<rparr>"

definition read_wrapping_key :: "database \<Rightarrow> storage_key \<Rightarrow> crypto_key option res" where
  "read_wrapping_key db k =
     (case store_get db TrustedSecrets k of
        None \<Rightarrow> ok None
      | Some v \<Rightarrow> and_then (validateInstallationWrappingKey v) (\<lambda>c. ok (Some c)))"

definition getOrCreateInstallationWrappingKey ::
  "storage_realm \<Rightarrow> stored \<Rightarrow> database \<Rightarrow> database \<Rightarrow> database \<Rightarrow> (crypto_key \<times> database) res" where
  "getOrCreateInstallationWrappingKey realm generated db_read db_add db_raced =
     and_then (storageRealmKey realm) (\<lambda>realmKey.
     and_then (storageKey realm (wrapping_item realmKey)) (\<lambda>k.
     and_then (read_wrapping_key db_read k) (\<lambda>existing.
     case existing of
       Some c \<Rightarrow> ok (c, db_add)
     | None \<Rightarrow>
         (case generated of
            SCryptoKey g \<Rightarrow>
              (case store_add db_add TrustedSecrets k (SCryptoKey g) of
                 Inr db' \<Rightarrow> ok (g, db')
               | Inl e \<Rightarrow>
                   and_then (if e = DOMException ''ConstraintError'' then read_wrapping_key db_raced k
                             else ok None) (\<lambda>raced.
                   case raced of Some c \<Rightarrow> ok (c, db_add) | None \<Rightarrow> throw (storageError e)))
          | _ \<Rightarrow> throw (CodedError ''STORAGE_SCHEMA_INVALID''
              ''WebCrypto returned an invalid installation wrapping key.'')))))"

end
