(* ===== verification/Storage_Laws.thy ===== *)
theory Storage_Laws
  imports Storage
begin

text \<open>
  What the database of theory \<open>Storage\<close> guarantees. The locale \<open>database_law\<close> is the interface
  between the commits and what is proved of them: a relation between databases that the four
  primitive writes respect holds across every operation and every sequence of operations. It is
  interpreted twice, for the stability of immutable items and for the well-formedness of the
  stored values.
\<close>

section \<open>Where an item is stored\<close>

definition family_of :: "string \<Rightarrow> storage_family" where
  "family_of ns = (case mapGet NAMESPACE_REGISTRY ns of Some d \<Rightarrow> ns_family d | None \<Rightarrow> HostPolicyState)"

definition realm_key :: "storage_realm \<Rightarrow> string" where
  "realm_key realm = realm_kind_name (realm_kind realm) @ '':'' @ realm_id realm"

definition location :: "storage_realm \<Rightarrow> 'a storage_item_scheme \<Rightarrow> storage_family \<times> storage_key" where
  "location realm item =
     (family_of (it_namespace item), realm_key realm, it_namespace item, it_scopeKey item, it_itemKey item)"

definition valid_item :: "storage_realm \<Rightarrow> 'a storage_item_scheme \<Rightarrow> bool" where
  "valid_item realm item \<longleftrightarrow>
     component_ok (it_scopeKey item) \<and> component_ok (it_itemKey item) \<and> realm_id_ok (realm_id realm) \<and>
     (\<exists>d \<in> set NAMESPACES. ns_key d = it_namespace item)"

lemma family_of_descriptor: "descriptor ns = ok d \<Longrightarrow> family_of ns = ns_family d"
  by (auto simp: descriptor_def family_of_def split: option.splits)

lemma family_of_key [simp]: "d \<in> set NAMESPACES \<Longrightarrow> family_of (ns_key d) = ns_family d"
  by (rule family_of_descriptor) simp

lemma storageKey_ok:
  "storageKey realm item = ok k \<longleftrightarrow> valid_item realm item \<and> k = snd (location realm item)"
  by (auto simp: storageKey_def and_then_eq_Inr assertKeyComponent_def storageRealmKey_def descriptor_ok
      valid_item_def location_def realm_key_def split: if_splits)

lemma location_identity [simp]: "location realm (identity_of item) = location realm item"
  by (simp add: location_def)

lemma valid_identity [simp]: "valid_item realm (identity_of item) = valid_item realm item"
  by (simp add: valid_item_def)

lemma component_no_nul: "component_ok s \<Longrightarrow> CHR 0x00 \<notin> set s"
  by (auto simp: component_ok_def list_ex_iff control_character_def)

lemma realm_key_no_nul: "realm_id_ok (realm_id realm) \<Longrightarrow> CHR 0x00 \<notin> set (realm_key realm)"
proof -
  assume r: "realm_id_ok (realm_id realm)"
  have "CHR 0x00 \<notin> set (realm_id realm)"
    using r by (auto simp: realm_id_ok_def lower_alnum_def lower_letter_def key_separator_def list_all_iff
        split: list.splits)
  moreover have "CHR 0x00 \<notin> set (realm_kind_name k)" for k by (cases k) simp_all
  ultimately show ?thesis by (simp add: realm_key_def)
qed

lemma namespace_no_nul: "d \<in> set NAMESPACES \<Longrightarrow> CHR 0x00 \<notin> set (ns_key d)"
proof -
  have "list_all (\<lambda>d. CHR 0x00 \<notin> set (ns_key d)) NAMESPACES" by code_simp
  then show "d \<in> set NAMESPACES \<Longrightarrow> CHR 0x00 \<notin> set (ns_key d)" by (simp add: list_all_iff)
qed

definition serialized :: "storage_realm \<Rightarrow> 'a storage_item_scheme \<Rightarrow> string" where
  "serialized realm item =
     realm_key realm @ CHR 0x00 # it_namespace item @ CHR 0x00 # it_scopeKey item @ CHR 0x00 # it_itemKey item"

lemma serialized_inject:
  assumes "valid_item realm a" "valid_item realm b" "serialized realm a = serialized realm b"
  shows "location realm a = location realm b"
proof -
  note sep = split_at_separator[where c = "CHR 0x00", THEN iffD1]
  have ns: "CHR 0x00 \<notin> set (it_namespace x)" if "valid_item realm x" for x :: "'x storage_item_scheme"
    using that namespace_no_nul unfolding valid_item_def by metis
  have sc: "CHR 0x00 \<notin> set (it_scopeKey x)" if "valid_item realm x" for x :: "'x storage_item_scheme"
    using that component_no_nul by (auto simp: valid_item_def)
  have "it_namespace a @ CHR 0x00 # it_scopeKey a @ CHR 0x00 # it_itemKey a =
      it_namespace b @ CHR 0x00 # it_scopeKey b @ CHR 0x00 # it_itemKey b"
    using assms(3) by (simp add: serialized_def)
  from sep[OF ns[OF assms(1)] ns[OF assms(2)] this]
  have "it_namespace a = it_namespace b"
    and rest: "it_scopeKey a @ CHR 0x00 # it_itemKey a = it_scopeKey b @ CHR 0x00 # it_itemKey b"
    by blast+
  with sep[OF sc[OF assms(1)] sc[OF assms(2)] rest] show ?thesis by (simp add: location_def)
qed

lemma serialized_location:
  "location realm a = location realm b \<Longrightarrow> serialized realm a = serialized realm b"
  by (simp add: serialized_def location_def)

lemma serializedStorageKey_ok:
  "serializedStorageKey realm item = ok s \<longleftrightarrow> valid_item realm item \<and> s = serialized realm item"
  by (auto simp: serializedStorageKey_def and_then_eq_Inr storageKey_ok location_def serialized_def)

lemma traverse_values:
  assumes "\<And>x y. f x = ok y \<longleftrightarrow> p x \<and> y = g x"
  shows "traverse f xs = ok ys \<longleftrightarrow> list_all p xs \<and> ys = map g xs"
  by (induction xs arbitrary: ys) (auto simp: and_then_eq_Inr assms)

lemma assertUniqueItems_ok:
  "assertUniqueItems realm items = ok u \<longleftrightarrow>
     list_all (valid_item realm) items \<and> distinct (map (location realm) items)"
proof -
  have inj: "inj_on (serialized realm) (set items) = inj_on (location realm) (set items)"
    if "list_all (valid_item realm) items"
    using that serialized_inject[of realm] serialized_location[of realm]
    by (auto simp: inj_on_def list_all_iff) blast+
  have "card (set (map f items)) = length items \<longleftrightarrow> distinct (map f items)" for f :: "'a storage_item_scheme \<Rightarrow> 'b"
    by (metis card_distinct distinct_card length_map)
  then show ?thesis
    using inj
    by (auto simp: assertUniqueItems_def and_then_eq_Inr traverse_values[OF serializedStorageKey_ok]
        distinct_map)
qed

section \<open>Primitive writes\<close>

lemma valid_descriptor:
  "descriptor (it_namespace item) = ok d \<Longrightarrow> location realm item = (ns_family d, snd (location realm item))"
  by (simp add: location_def family_of_descriptor)

lemma location_fst: "d \<in> set NAMESPACES \<Longrightarrow> ns_key d = it_namespace item \<Longrightarrow> fst (location realm item) = ns_family d"
  by (metis family_of_key fst_conv location_def)

lemma location_at:
  assumes "d \<in> set NAMESPACES" "ns_key d = it_namespace item"
  shows "location realm item = (ns_family d, realm_key realm, ns_key d, it_scopeKey item, it_itemKey item)"
  using location_fst[OF assms, of realm] assms(2) by (simp add: location_def)

lemma valid_item_steps:
  assumes "valid_item realm item"
  obtains d where "descriptor (it_namespace item) = ok d" "storageKey realm item = ok (snd (location realm item))"
    "(ns_family d, snd (location realm item)) = location realm item"
proof -
  obtain d where d: "d \<in> set NAMESPACES" "ns_key d = it_namespace item"
    using assms by (auto simp: valid_item_def)
  show thesis
  proof
    show "descriptor (it_namespace item) = ok d" using d by (simp add: descriptor_ok)
    show "storageKey realm item = ok (snd (location realm item))" using assms by (simp add: storageKey_ok)
    show "(ns_family d, snd (location realm item)) = location realm item"
      using d by (metis location_fst prod.collapse)
  qed
qed

text \<open>The two reads every access starts with.\<close>

lemma item_access:
  "and_then (descriptor (it_namespace item)) (\<lambda>d. and_then (storageKey realm item) (\<lambda>k. f (ns_family d, k))) = ok x \<longleftrightarrow>
     valid_item realm item \<and> f (location realm item) = ok x"
proof (cases "valid_item realm item")
  case True
  then show ?thesis by (rule valid_item_steps) (simp add: True)
qed (simp add: and_then_eq_Inr storageKey_ok)

lemma put_item_ok:
  "put_item realm db item = ok db' \<longleftrightarrow>
     valid_item realm item \<and> db' = mapSet db (location realm item) (SBytes (it_bytes item))"
  unfolding put_item_def item_access[where f = "\<lambda>l. ok (mapSet db l (SBytes (it_bytes item)))"] by auto

lemma delete_item_ok:
  "delete_item realm db item = ok db' \<longleftrightarrow>
     valid_item realm item \<and> db' = AList.delete (location realm item) db"
  unfolding delete_item_def item_access[where f = "\<lambda>l. ok (AList.delete l db)"] by auto

lemma add_item_ok:
  assumes "family = fst (location realm item)"
  shows "add_item realm family db item = ok db' \<longleftrightarrow>
     valid_item realm item \<and> mapGet db (location realm item) = None \<and>
     db' = mapSet db (location realm item) (SBytes (it_bytes item))"
  using assms by (auto simp: add_item_def and_then_eq_Inr storageKey_ok store_add_def split: if_splits)

lemma putImmutable_item_ok:
  "putImmutableInTransaction realm db item = ok db' \<longleftrightarrow>
     valid_item realm item \<and>
     (mapGet db (location realm item) = None \<and>
        db' = mapSet db (location realm item) (SBytes (it_bytes item)) \<or>
      mapGet db (location realm item) = Some (SBytes (it_bytes item)) \<and> db' = db)"
proof (cases "valid_item realm item")
  case True
  then show ?thesis
  proof (rule valid_item_steps)
    fix d
    assume d: "descriptor (it_namespace item) = ok d" "storageKey realm item = ok (snd (location realm item))"
      "(ns_family d, snd (location realm item)) = location realm item"
    show ?thesis
      using True
      by (auto simp: putImmutableInTransaction_def d store_add_def Let_def
          split: option.splits stored.splits if_splits)
  qed
qed (auto simp: putImmutableInTransaction_def and_then_eq_Inr storageKey_ok)

lemma in_transaction_ok [simp]: "in_transaction r = ok x \<longleftrightarrow> r = ok x"
  by (auto simp: in_transaction_def split: sum.splits)

lemma assert_descriptor_ok:
  "assert_descriptor p message item = ok u \<longleftrightarrow>
     (\<exists>d \<in> set NAMESPACES. ns_key d = it_namespace item \<and> p d)"
  by (auto simp: assert_descriptor_def and_then_eq_Inr descriptor_ok)

lemma assertBytes_ok: "assertBytes item = ok u \<longleftrightarrow> it_bytes item \<noteq> []"
  by (simp add: assertBytes_def)

lemma assertNamespace_ok: "assertNamespace item ns = ok u \<longleftrightarrow> it_namespace item = ns"
  by (auto simp: assertNamespace_def)

text \<open>The checks of a Replica mutation, exactly.\<close>

definition mutable_item :: "'a storage_item_scheme \<Rightarrow> bool" where
  "mutable_item item \<longleftrightarrow> (\<exists>d \<in> set NAMESPACES. ns_key d = it_namespace item \<and> \<not> ns_immutable d)"

definition immutable_item :: "'a storage_item_scheme \<Rightarrow> bool" where
  "immutable_item item \<longleftrightarrow> (\<exists>d \<in> set NAMESPACES. ns_key d = it_namespace item \<and> ns_immutable d)"

abbreviation written_items :: "replica_mutation_commit \<Rightarrow> namespace_bytes list" where
  "written_items c \<equiv> [rm_nextReplicaState c] @ rm_immutableItems c @ rm_mutableItems c"

abbreviation unique_items :: "storage_realm \<Rightarrow> 'a storage_item_scheme list \<Rightarrow> bool" where
  "unique_items realm items \<equiv> list_all (valid_item realm) items \<and> distinct (map (location realm) items)"

lemma replica_checks_ok:
  "replica_checks c = ok u \<longleftrightarrow>
     it_namespace (rm_nextReplicaState c) = ns_key replicaState \<and> it_bytes (rm_nextReplicaState c) \<noteq> [] \<and>
     (\<forall>item \<in> set (written_items c). it_bytes item \<noteq> []) \<and>
     (\<forall>item \<in> set (rm_immutableItems c). immutable_item item) \<and>
     (\<forall>item \<in> set (rm_mutableItems c). mutable_item item) \<and>
     (\<forall>item \<in> set (rm_expectedMutableItems c). it_bytes item \<noteq> [] \<and> mutable_item item) \<and>
     (\<forall>item \<in> set (rm_expectedAbsentItems c). mutable_item item) \<and>
     unique_items (rm_realm c) (rm_expectedAbsentItems c) \<and>
     unique_items (rm_realm c) (rm_expectedMutableItems c) \<and>
     list_all (valid_item (rm_realm c)) (written_items c) \<and> list_all (valid_item (rm_realm c)) (rm_deletedItems c) \<and>
     distinct (map (location (rm_realm c)) (written_items c) @ map (location (rm_realm c)) (rm_deletedItems c))"
  unfolding replica_checks_def Let_def checks_ok list.set set_map ball_simps ball_empty simp_thms
    assertNamespace_ok assertBytes_ok assert_descriptor_ok assertUniqueItems_ok
    mutable_item_def immutable_item_def
  unfolding list_all_append list.pred_map map_append map_map comp_def location_identity valid_identity
  by (simp only: conj_assoc)

text \<open>A loop of writes as a relation between the databases before and after.\<close>

lemma foldM_relation:
  assumes "foldM f s xs = ok t"
    and "\<And>s. R s s" and "\<And>a b c. R a b \<Longrightarrow> R b c \<Longrightarrow> R a c"
    and "\<And>x a b. x \<in> set xs \<Longrightarrow> f a x = ok b \<Longrightarrow> R a b"
  shows "R s t"
  using foldM_invariant[of f s xs t "R s"] assms by blast

section \<open>Operations and runs\<close>

text \<open>
  Every operation that writes. An operation that throws leaves the database as it was, because
  its transaction is aborted.
\<close>

datatype db_op =
    PutMutable storage_realm namespace_bytes
  | PutImmutable storage_realm namespace_bytes
  | CommitInitialVault initial_vault_commit
  | CommitReplicaMutation replica_mutation_commit
  | CommitInstallationMutation installation_mutation_commit
  | CommitExecutionMutation execution_mutation_commit
  | CommitRemoteRetirement remote_retirement_commit
  | CreateWrappingKey storage_realm stored database database

fun run_op :: "db_op \<Rightarrow> database \<Rightarrow> database res" where
  "run_op (PutMutable realm item) db = putMutable realm item db"
| "run_op (PutImmutable realm item) db = putImmutable realm item db"
| "run_op (CommitInitialVault c) db = commitInitialVault c db"
| "run_op (CommitReplicaMutation c) db = commitReplicaMutation c db"
| "run_op (CommitInstallationMutation c) db = commitInstallationMutation c db"
| "run_op (CommitExecutionMutation c) db = commitExecutionMutation c db"
| "run_op (CommitRemoteRetirement c) db = commitRemoteRetirement c db"
| "run_op (CreateWrappingKey realm generated db_read db_raced) db =
     and_then (getOrCreateInstallationWrappingKey realm generated db_read db db_raced) (\<lambda>r. ok (snd r))"

fun deleted_by :: "db_op \<Rightarrow> (storage_family \<times> storage_key) set" where
  "deleted_by (CommitInitialVault c) = location (iv_realm c) ` set (iv_deletedItems c)"
| "deleted_by (CommitReplicaMutation c) = location (rm_realm c) ` set (rm_deletedItems c)"
| "deleted_by (CommitInstallationMutation c) = location (im_realm c) ` set (im_deletedItems c)"
| "deleted_by (CommitExecutionMutation c) = location (em_realm c) ` set (em_deletedItems c)"
| "deleted_by (CommitRemoteRetirement c) = location (rr_realm c) ` set (rr_deletedItems c)"
| "deleted_by _ = {}"

definition apply_op :: "database \<Rightarrow> db_op \<Rightarrow> database" where
  "apply_op db op = (case run_op op db of Inr db' \<Rightarrow> db' | Inl _ \<Rightarrow> db)"

definition run_ops :: "database \<Rightarrow> db_op list \<Rightarrow> database" where
  "run_ops db ops = foldl apply_op db ops"

section \<open>Relations the writes respect\<close>

lemma secret_families:
  "ns_family clientSecret = TrustedSecrets" "ns_family epochSecret = TrustedSecrets"
  "ns_family replicaState = ReplicaSafetyState" "ns_family vaultDirectory = InstallationState"
  "\<not> ns_immutable replicaState"
  by (simp_all add: clientSecret_def epochSecret_def replicaState_def vaultDirectory_def)

locale database_law =
  fixes R :: "(storage_family \<times> storage_key) set \<Rightarrow> database \<Rightarrow> database \<Rightarrow> bool"
  assumes same: "R D db db"
    and seq: "R D a b \<Longrightarrow> R D b c \<Longrightarrow> R D a c"
    and weaken: "R D a b \<Longrightarrow> D \<subseteq> E \<Longrightarrow> R E a b"
    and put: "d \<in> set NAMESPACES \<Longrightarrow> \<not> ns_immutable d \<Longrightarrow> bs \<noteq> [] \<Longrightarrow>
       R D db (mapSet db (ns_family d, r, ns_key d, s, i) (SBytes bs))"
    and add: "d \<in> set NAMESPACES \<Longrightarrow> bs \<noteq> [] \<Longrightarrow> mapGet db (ns_family d, r, ns_key d, s, i) = None \<Longrightarrow>
       R D db (mapSet db (ns_family d, r, ns_key d, s, i) (SBytes bs))"
    and add_key: "mapGet db (TrustedSecrets, r, ns_key installationWrappingKey, s, i) = None \<Longrightarrow>
       R D db (mapSet db (TrustedSecrets, r, ns_key installationWrappingKey, s, i) (SCryptoKey g))"
    and remove: "l \<in> D \<Longrightarrow> R D db (AList.delete l db)"
begin

lemma loop_law:
  assumes "foldM f s xs = ok t" and "\<And>x a b. x \<in> set xs \<Longrightarrow> f a x = ok b \<Longrightarrow> R D a b"
  shows "R D s t"
  using foldM_relation[of f s xs t "R D"] assms same seq by blast

lemma put_item_law:
  assumes "put_item realm db item = ok db'" "it_bytes item \<noteq> []"
    "d \<in> set NAMESPACES" "ns_key d = it_namespace item" "\<not> ns_immutable d"
  shows "R D db db'"
  using assms put[of d "it_bytes item" D db "realm_key realm" "it_scopeKey item" "it_itemKey item"]
  by (simp add: put_item_ok location_at)

lemma add_law:
  assumes "valid_item realm item" "mapGet db (location realm item) = None" "it_bytes item \<noteq> []"
  shows "R D db (mapSet db (location realm item) (SBytes (it_bytes item)))"
proof -
  obtain d where d: "d \<in> set NAMESPACES" "ns_key d = it_namespace item"
    using assms(1) by (auto simp: valid_item_def)
  show ?thesis using assms(2,3) add[OF d(1)] unfolding location_at[OF d] by blast
qed

lemma add_item_law:
  assumes "add_item realm family db item = ok db'" "family = fst (location realm item)" "it_bytes item \<noteq> []"
  shows "R D db db'"
  using assms add_law by (auto simp: add_item_ok)

lemma putImmutable_law:
  assumes "putImmutableInTransaction realm db item = ok db'" "it_bytes item \<noteq> []"
  shows "R D db db'"
  using assms add_law same by (auto simp: putImmutable_item_ok)

lemma delete_items_law:
  assumes "foldM (delete_item realm) db items = ok db'" "location realm ` set items \<subseteq> D"
  shows "R D db db'"
  using assms(1)
proof (rule loop_law)
  fix x a b assume x: "x \<in> set items" and "delete_item realm a x = ok b"
  then have "b = AList.delete (location realm x) a" by (simp add: delete_item_ok)
  with x assms(2) show "R D a b" using remove[of "location realm x" D a] by blast
qed

lemma put_items_law:
  assumes "foldM (put_item realm) db items = ok db'" "\<forall>item \<in> set items. it_bytes item \<noteq> []"
    "\<forall>item \<in> set items. \<exists>d \<in> set NAMESPACES. ns_key d = it_namespace item \<and> \<not> ns_immutable d"
  shows "R D db db'"
  using assms(1) by (rule loop_law) (metis assms(2,3) put_item_law)

lemma immutable_items_law:
  assumes "foldM (putImmutableInTransaction realm) db items = ok db'"
    "\<forall>item \<in> set items. it_bytes item \<noteq> []"
  shows "R D db db'"
  using assms(1) by (rule loop_law) (metis assms(2) putImmutable_law)

lemma add_items_law:
  assumes "foldM (add_item realm family) db items = ok db'" "\<forall>item \<in> set items. it_bytes item \<noteq> []"
    "\<forall>item \<in> set items. family = fst (location realm item)"
  shows "R D db db'"
  using assms(1) by (rule loop_law) (metis assms(2,3) add_item_law)

lemma putMutable_law: "putMutable realm item db = ok db' \<Longrightarrow> R D db db'"
  using put_item_law
  by (auto simp: putMutable_def and_then_eq_Inr assertBytes_ok descriptor_ok)

lemma putImmutable_op_law: "putImmutable realm item db = ok db' \<Longrightarrow> R D db db'"
  using putImmutable_law by (auto simp: putImmutable_def and_then_eq_Inr assertBytes_ok)

lemma replica_law:
  assumes "commitReplicaMutation c db = ok db'"
  shows "R (deleted_by (CommitReplicaMutation c)) db db'"
proof -
  let ?D = "deleted_by (CommitReplicaMutation c)" and ?n = "rm_nextReplicaState c"
  obtain a b d where steps: "replica_checks c = ok ()" "valid_item (rm_realm c) ?n"
      "foldM (putImmutableInTransaction (rm_realm c)) db (rm_immutableItems c) = ok a"
      "foldM (put_item (rm_realm c)) a (rm_mutableItems c) = ok b"
      "foldM (delete_item (rm_realm c)) b (rm_deletedItems c) = ok d"
      "db' = store_put d ReplicaSafetyState (snd (location (rm_realm c) ?n)) (SBytes (it_bytes ?n))"
    using assms by (auto simp: commitReplicaMutation_def Let_def and_then_eq_Inr storageKey_ok)
  note k = steps(1)[unfolded replica_checks_ok]
  have "R ?D db a" using k by (intro immutable_items_law[OF steps(3)]) simp
  moreover have "R ?D a b" using k by (intro put_items_law[OF steps(4)]) (simp_all add: mutable_item_def)
  moreover have "R ?D b d" using delete_items_law[OF steps(5)] by simp
  moreover have "R ?D d db'"
  proof -
    have "snd (location (rm_realm c) ?n) =
        (realm_key (rm_realm c), ns_key replicaState, it_scopeKey ?n, it_itemKey ?n)"
      using k by (simp add: location_def)
    then show ?thesis
      using put[of replicaState "it_bytes ?n" ?D d "realm_key (rm_realm c)" "it_scopeKey ?n" "it_itemKey ?n"]
        k steps(6) by (simp add: secret_families)
  qed
  ultimately show ?thesis using seq by blast
qed

lemma installation_law:
  assumes "commitInstallationMutation c db = ok db'"
  shows "R (deleted_by (CommitInstallationMutation c)) db db'"
proof (cases "db' = db")
  case False
  then obtain b where steps: "installation_checks c = ok ()"
      "foldM (put_item (im_realm c)) db (im_mutableItems c) = ok b"
      "foldM (delete_item (im_realm c)) b (im_deletedItems c) = ok db'"
    using assms by (auto simp: commitInstallationMutation_def Let_def and_then_eq_Inr split: if_splits)
  have k: "\<forall>item \<in> set (im_mutableItems c). it_bytes item \<noteq> []"
    "\<forall>item \<in> set (im_mutableItems c). \<exists>d \<in> set NAMESPACES. ns_key d = it_namespace item \<and> \<not> ns_immutable d"
    using steps(1)
    by (fastforce simp: installation_checks_def Let_def and_then_eq_Inr checks_ok assertBytes_ok
        assert_descriptor_ok)+
  show ?thesis
    using seq[OF put_items_law[OF steps(2) k] delete_items_law[OF steps(3)]] by simp
qed (simp add: same)

lemma execution_law:
  assumes "commitExecutionMutation c db = ok db'"
  shows "R (deleted_by (CommitExecutionMutation c)) db db'"
proof (cases "db' = db")
  case False
  then obtain a b where steps: "execution_checks c = ok ()"
      "foldM (putImmutableInTransaction (em_realm c)) db (em_immutableItems c) = ok a"
      "foldM (put_item (em_realm c)) a (em_mutableItems c) = ok b"
      "foldM (delete_item (em_realm c)) b (em_deletedItems c) = ok db'"
    using assms by (auto simp: commitExecutionMutation_def Let_def and_then_eq_Inr split: if_splits)
  have k: "\<forall>item \<in> set (em_immutableItems c). it_bytes item \<noteq> []"
    "\<forall>item \<in> set (em_mutableItems c). it_bytes item \<noteq> []"
    "\<forall>item \<in> set (em_mutableItems c). \<exists>d \<in> set NAMESPACES. ns_key d = it_namespace item \<and> \<not> ns_immutable d"
    using steps(1)
    by (fastforce simp: execution_checks_def Let_def and_then_eq_Inr checks_ok assertBytes_ok
        assert_descriptor_ok)+
  show ?thesis
    using immutable_items_law[OF steps(2) k(1)] put_items_law[OF steps(3) k(2,3)]
      delete_items_law[OF steps(4)] seq by (metis deleted_by.simps(4) order_refl)
qed (simp add: same)

lemma retirement_law:
  "commitRemoteRetirement c db = ok db' \<Longrightarrow> R (deleted_by (CommitRemoteRetirement c)) db db'"
  by (auto simp: commitRemoteRetirement_def and_then_eq_Inr intro: delete_items_law)

lemma wrapping_law:
  assumes "getOrCreateInstallationWrappingKey realm generated db_read db db_raced = ok (g, db')"
  shows "R D db db'"
proof -
  have l: "snd (location realm (wrapping_item r)) = (realm_key realm, ns_key installationWrappingKey, r, ''aes-kw'')" for r
    by (simp add: location_def wrapping_item_def)
  show ?thesis
    using assms same add_key
    by (auto simp: getOrCreateInstallationWrappingKey_def and_then_eq_Inr storageKey_ok store_add_def l
        split: option.splits sum.splits stored.splits if_splits)
qed

text \<open>
  The first commit of a Vault: what its checks promise of the items, and the seven loops it runs.
\<close>

lemma initial_checks_facts:
  assumes "initial_checks c = ok ()"
  shows "it_namespace (iv_replicaState c) = ns_key replicaState"
    "it_namespace (iv_vaultDirectoryEntry c) = ns_key vaultDirectory"
    "\<forall>item \<in> set (initial_items c). it_bytes item \<noteq> []"
    "\<forall>item \<in> set (iv_replicaSafetyItems c). \<exists>d \<in> set NAMESPACES.
       ns_key d = it_namespace item \<and> ns_family d = ReplicaSafetyState"
    "\<forall>item \<in> set (iv_installationStateItems c). \<exists>d \<in> set NAMESPACES.
       ns_key d = it_namespace item \<and> ns_family d = InstallationState \<and> \<not> ns_immutable d"
    "\<forall>item \<in> set (iv_trustedSecrets c). it_namespace item \<in> {ns_key clientSecret, ns_key epochSecret}"
  using assms
  by (fastforce simp: initial_checks_def Let_def and_then_eq_Inr checks_ok assertNamespace_def
      assertBytes_ok assert_descriptor_ok)+

lemma initial_law:
  assumes "commitInitialVault c db = ok db'"
  shows "R (deleted_by (CommitInitialVault c)) db db'"
proof -
  let ?D = "deleted_by (CommitInitialVault c)" and ?r = "iv_realm c"
  obtain a b d e f g where steps: "initial_checks c = ok ()"
      "foldM (\<lambda>db item. and_then (descriptor (it_namespace item)) (\<lambda>d. add_item ?r (ns_family d) db item))
         db (iv_immutableItems c) = ok a"
      "add_item ?r ReplicaSafetyState a (iv_replicaState c) = ok b"
      "foldM (add_item ?r ReplicaSafetyState) b (iv_replicaSafetyItems c) = ok d"
      "add_item ?r InstallationState d (iv_vaultDirectoryEntry c) = ok e"
      "foldM (\<lambda>db item. and_then (storageKey ?r item) (\<lambda>k.
         ok (store_put db InstallationState k (SBytes (it_bytes item))))) e (iv_installationStateItems c) = ok f"
      "foldM (add_item ?r TrustedSecrets) f (iv_trustedSecrets c) = ok g"
      "foldM (delete_item ?r) g (iv_deletedItems c) = ok db'"
    using assms by (auto simp: commitInitialVault_def Let_def and_then_eq_Inr)
  note k = initial_checks_facts[OF steps(1)]
  have bytes: "\<forall>item \<in> set (iv_immutableItems c). it_bytes item \<noteq> []" "it_bytes (iv_replicaState c) \<noteq> []"
    "\<forall>item \<in> set (iv_replicaSafetyItems c). it_bytes item \<noteq> []" "it_bytes (iv_vaultDirectoryEntry c) \<noteq> []"
    "\<forall>item \<in> set (iv_installationStateItems c). it_bytes item \<noteq> []"
    "\<forall>item \<in> set (iv_trustedSecrets c). it_bytes item \<noteq> []"
    using k(3) by (simp_all add: initial_items_def)
  have "R ?D db a"
    using steps(2) by (rule loop_law)
      (auto simp: and_then_eq_Inr descriptor_ok location_fst bytes(1) intro!: add_item_law)
  moreover have "R ?D a b"
    using k(1) by (intro add_item_law[OF steps(3)])
      (simp_all add: location_fst[of replicaState] secret_families bytes(2))
  moreover have "R ?D b d"
  proof (rule add_items_law[OF steps(4) bytes(3)], rule ballI)
    fix x assume "x \<in> set (iv_replicaSafetyItems c)"
    then obtain n where n: "n \<in> set NAMESPACES" "ns_key n = it_namespace x" "ns_family n = ReplicaSafetyState"
      using k(4) by blast
    show "ReplicaSafetyState = fst (location ?r x)" using location_fst[OF n(1,2), of ?r] n(3) by simp
  qed
  moreover have "R ?D d e"
    using k(2) by (intro add_item_law[OF steps(5)])
      (simp_all add: location_fst[of vaultDirectory] secret_families bytes(4))
  moreover have "R ?D e f"
    using steps(6)
  proof (rule loop_law)
    fix x a b assume x: "x \<in> set (iv_installationStateItems c)"
      and "and_then (storageKey ?r x) (\<lambda>k. ok (store_put a InstallationState k (SBytes (it_bytes x)))) = ok b"
    then have b: "b = store_put a InstallationState (snd (location ?r x)) (SBytes (it_bytes x))"
      by (auto simp: and_then_eq_Inr storageKey_ok)
    obtain n where n: "n \<in> set NAMESPACES" "ns_key n = it_namespace x" "ns_family n = InstallationState" "\<not> ns_immutable n"
      using x k(5) by blast
    show "R ?D a b"
      unfolding b location_at[OF n(1,2)] snd_conv
      using put[OF n(1,4), of "it_bytes x"] n(3) bytes(5) x by simp
  qed
  moreover have "R ?D f g"
    using k(6) by (intro add_items_law[OF steps(7) bytes(6)])
      (auto simp: location_fst[of clientSecret] location_fst[of epochSecret] secret_families)
  moreover have "R ?D g db'" using delete_items_law[OF steps(8)] by simp
  ultimately show ?thesis using seq by blast
qed

lemma op_law: "run_op op db = ok db' \<Longrightarrow> R (deleted_by op) db db'"
  by (cases op)
    (auto simp: and_then_eq_Inr intro: putMutable_law putImmutable_op_law wrapping_law
      dest!: initial_law replica_law installation_law execution_law retirement_law)

lemma run_law:
  assumes "\<forall>op \<in> set ops. deleted_by op \<subseteq> D"
  shows "R D db (run_ops db ops)"
  using assms
proof (induction ops arbitrary: db)
  case (Cons op ops)
  have "R D db (apply_op db op)"
    using op_law[of op db] weaken[of "deleted_by op" _ _ D] Cons.prems same
    by (auto simp: apply_op_def split: sum.splits)
  moreover have "R D (apply_op db op) (run_ops (apply_op db op) ops)"
    using Cons by simp
  ultimately show ?case using seq by (simp add: run_ops_def)
qed (simp add: run_ops_def same)

end

section \<open>Immutable items and stored values\<close>

definition immutable_location :: "storage_family \<times> storage_key \<Rightarrow> bool" where
  "immutable_location l \<longleftrightarrow>
     (case l of (family, r, ns, s, i) \<Rightarrow> \<exists>d \<in> set NAMESPACES. ns_key d = ns \<and> ns_immutable d)"

definition keeps_immutable :: "(storage_family \<times> storage_key) set \<Rightarrow> database \<Rightarrow> database \<Rightarrow> bool" where
  "keeps_immutable D db db' \<longleftrightarrow>
     (\<forall>l v. immutable_location l \<longrightarrow> l \<notin> D \<longrightarrow> mapGet db l = Some v \<longrightarrow> mapGet db' l = Some v)"

lemma namespace_unique: "d \<in> set NAMESPACES \<Longrightarrow> e \<in> set NAMESPACES \<Longrightarrow> ns_key d = ns_key e \<Longrightarrow> d = e"
  using namespace_keys_distinct by (auto simp: distinct_map dest: inj_onD)

interpretation stable: database_law keeps_immutable
proof unfold_locales
  fix d D db r s i and bs :: bytes
  assume d: "d \<in> set NAMESPACES" "\<not> ns_immutable d"
  then have "\<not> immutable_location (ns_family d, r, ns_key d, s, i)"
    using namespace_unique by (fastforce simp: immutable_location_def)
  then show "keeps_immutable D db (mapSet db (ns_family d, r, ns_key d, s, i) (SBytes bs))"
    by (auto simp: keeps_immutable_def update_conv')
next
  fix D E a b
  assume "keeps_immutable D a b" "D \<subseteq> E"
  then show "keeps_immutable E a b" unfolding keeps_immutable_def by blast
qed (auto simp: keeps_immutable_def update_conv' delete_conv')

text \<open>A stored value is in the store of its namespace, and readable.\<close>

fun value_ok :: "string \<Rightarrow> stored \<Rightarrow> bool" where
  "value_ok ns (SBytes bs) = (bs \<noteq> [])"
| "value_ok ns (SCryptoKey g) = (ns = ns_key installationWrappingKey)"
| "value_ok ns SOther = False"

definition db_wf :: "database \<Rightarrow> bool" where
  "db_wf db \<longleftrightarrow>
     (\<forall>family r ns s i v. mapGet db (family, r, ns, s, i) = Some v \<longrightarrow>
        (\<exists>d \<in> set NAMESPACES. ns_key d = ns \<and> family = ns_family d) \<and> value_ok ns v)"

lemma db_wf_put:
  assumes "db_wf db" "d \<in> set NAMESPACES" "value_ok (ns_key d) v"
  shows "db_wf (mapSet db (ns_family d, r, ns_key d, s, i) v)"
  using assms unfolding db_wf_def by (auto simp: update_conv')

interpretation wf: database_law "\<lambda>D db db'. db_wf db \<longrightarrow> db_wf db'"
proof unfold_locales
  fix db r s i D g
  show "db_wf db \<longrightarrow> db_wf (mapSet db (TrustedSecrets, r, ns_key installationWrappingKey, s, i) (SCryptoKey g))"
    using db_wf_put[of db installationWrappingKey "SCryptoKey g" r s i]
    by (simp add: installationWrappingKey_def[THEN arg_cong, of ns_family])
next
  fix l :: "storage_family \<times> storage_key" and db
  show "db_wf db \<longrightarrow> db_wf (AList.delete l db)" by (auto simp: db_wf_def delete_conv')
qed (auto intro: db_wf_put)

lemma db_wf_empty: "db_wf []" by (simp add: db_wf_def)

lemma storageKey_error: "storageKey realm item = throw e \<Longrightarrow> \<exists>m. e = TypeError m"
  by (auto simp: storageKey_def and_then_def assertKeyComponent_def guard_not_def descriptor_def
      storageRealmKey_def split: sum.splits option.splits if_splits)

lemma getBytes_wf:
  assumes "db_wf db" "it_namespace item \<noteq> ns_key installationWrappingKey"
  shows "getBytes realm item db = throw (CodedError ''STORAGE_SCHEMA_INVALID'' m) \<longleftrightarrow> False"
proof (cases "valid_item realm item")
  case True
  then show ?thesis
  proof (rule valid_item_steps)
    fix d
    assume d: "descriptor (it_namespace item) = ok d" "storageKey realm item = ok (snd (location realm item))"
      "(ns_family d, snd (location realm item)) = location realm item"
    have "value_ok (it_namespace item) v" if "mapGet db (location realm item) = Some v" for v
      using assms(1) that by (simp add: db_wf_def location_def)
    then show ?thesis
      using assms(2)
      by (cases "mapGet db (location realm item)"; cases "the (mapGet db (location realm item))")
        (auto simp: getBytes_def d in_transaction_def Let_def)
  qed
next
  case False
  then obtain e where e: "storageKey realm item = throw e"
    by (cases "storageKey realm item") (auto simp: storageKey_ok)
  show ?thesis
  proof (cases "descriptor (it_namespace item)")
    case (Inl f)
    then show ?thesis by (auto simp: getBytes_def descriptor_def split: option.splits)
  next
    case (Inr d)
    then show ?thesis using storageKey_error[OF e] by (auto simp: getBytes_def e in_transaction_def)
  qed
qed

section \<open>What a Replica mutation leaves\<close>

abbreviation entry_of :: "storage_realm \<Rightarrow> namespace_bytes \<Rightarrow> (storage_family \<times> storage_key) \<times> stored" where
  "entry_of realm item \<equiv> (location realm item, SBytes (it_bytes item))"

lemma put_items_get:
  assumes "foldM (put_item realm) db items = ok db'" "distinct (map (location realm) items)"
  shows "mapGet db' l = (mapGet db ++ map_of (map (entry_of realm) items)) l"
  using assms
proof (induction items arbitrary: db)
  case (Cons x xs)
  have "map_of (map (entry_of realm) xs) (location realm x) = None"
    using Cons.prems(2) by (auto simp: map_of_eq_None_iff image_iff)
  with Cons show ?case
    by (auto simp: and_then_eq_Inr put_item_ok update_conv' map_add_def split: option.splits)
qed simp

lemma immutable_items_get:
  assumes "foldM (putImmutableInTransaction realm) db items = ok db'" "distinct (map (location realm) items)"
  shows "mapGet db' l = (mapGet db ++ map_of (map (entry_of realm) items)) l"
  using assms
proof (induction items arbitrary: db)
  case (Cons x xs)
  have "map_of (map (entry_of realm) xs) (location realm x) = None"
    using Cons.prems(2) by (auto simp: map_of_eq_None_iff image_iff)
  with Cons show ?case
    by (auto simp: and_then_eq_Inr putImmutable_item_ok update_conv' map_add_def split: option.splits)
qed simp

lemma delete_items_get:
  assumes "foldM (delete_item realm) db items = ok db'"
  shows "mapGet db' l = (if l \<in> location realm ` set items then None else mapGet db l)"
  using assms
  by (induction items arbitrary: db) (auto simp: and_then_eq_Inr delete_item_ok delete_conv')

lemma put_items_total:
  "list_all (valid_item realm) items \<Longrightarrow> \<exists>db'. foldM (put_item realm) db items = ok db'"
  by (induction items arbitrary: db) (auto simp: and_then_eq_Inr put_item_ok)

lemma delete_items_total:
  "list_all (valid_item realm) items \<Longrightarrow> \<exists>db'. foldM (delete_item realm) db items = ok db'"
  by (induction items arbitrary: db) (auto simp: and_then_eq_Inr delete_item_ok)

lemma immutable_items_total:
  assumes "list_all (valid_item realm) items" "distinct (map (location realm) items)"
  shows "(\<exists>db'. foldM (putImmutableInTransaction realm) db items = ok db') \<longleftrightarrow>
    (\<forall>item \<in> set items. mapGet db (location realm item) \<in> {None, Some (SBytes (it_bytes item))})"
  using assms
proof (induction items arbitrary: db)
  case (Cons x xs)
  let ?ok = "\<lambda>db. \<forall>item \<in> set xs. mapGet db (location realm item) \<in> {None, Some (SBytes (it_bytes item))}"
  have other: "?ok (mapSet db (location realm x) v) = ?ok db" for db v
    using Cons.prems(2) by (auto simp: update_conv' image_iff) metis+
  have "(\<exists>db'. foldM (putImmutableInTransaction realm) db (x # xs) = ok db') \<longleftrightarrow>
      mapGet db (location realm x) = None \<and>
        (\<exists>db'. foldM (putImmutableInTransaction realm)
           (mapSet db (location realm x) (SBytes (it_bytes x))) xs = ok db') \<or>
      mapGet db (location realm x) = Some (SBytes (it_bytes x)) \<and>
        (\<exists>db'. foldM (putImmutableInTransaction realm) db xs = ok db')"
    using Cons.prems(1) by (auto simp: and_then_eq_Inr putImmutable_item_ok)
  with Cons.IH Cons.prems other show ?case by auto
qed simp

text \<open>The state of the database a commit was prepared for.\<close>

definition context_unchanged :: "replica_mutation_commit \<Rightarrow> database \<Rightarrow> bool" where
  "context_unchanged c db \<longleftrightarrow>
     mapGet db (location (rm_realm c) (rm_nextReplicaState c)) = Some (SBytes (rm_expectedReplicaState c)) \<and>
     (\<forall>item \<in> set (rm_expectedAbsentItems c). mapGet db (location (rm_realm c) item) = None) \<and>
     (\<forall>item \<in> set (rm_expectedMutableItems c).
        mapGet db (location (rm_realm c) item) = Some (SBytes (it_bytes item))) \<and>
     (\<forall>item \<in> set (rm_immutableItems c).
        mapGet db (location (rm_realm c) item) \<in> {None, Some (SBytes (it_bytes item))})"

definition after_commit :: "replica_mutation_commit \<Rightarrow> database \<Rightarrow> storage_family \<times> storage_key \<Rightarrow> stored option" where
  "after_commit c db l =
     (if l \<in> location (rm_realm c) ` set (rm_deletedItems c) then None
      else (mapGet db ++ map_of (map (entry_of (rm_realm c)) (written_items c))) l)"

lemma assert_absent_ok:
  assumes "list_all (valid_item realm) items"
  shows "assert_absent realm e db items = ok u \<longleftrightarrow> (\<forall>item \<in> set items. mapGet db (location realm item) = None)"
  using assms
  unfolding assert_absent_def checks_ok set_map ball_simps list_all_iff
    item_access[where f = "\<lambda>l. guard_not (mapGet db l \<noteq> None) e"]
  by (simp only: guard_not_eq_Inr) auto

lemma assert_unchanged_ok:
  assumes "list_all (valid_item realm) items"
  shows "assert_unchanged realm e db items = ok u \<longleftrightarrow>
    (\<forall>item \<in> set items. mapGet db (location realm item) = Some (SBytes (it_bytes item)))"
proof -
  have "(case mapGet db l of Some (SBytes bs) \<Rightarrow> guard_not (\<not> bytesEqual bs (it_bytes item)) e | _ \<Rightarrow> throw e) = ok () \<longleftrightarrow>
      mapGet db l = Some (SBytes (it_bytes item))" for l and item :: namespace_bytes
    by (auto split: option.splits stored.splits)
  then show ?thesis
    using assms unfolding assert_unchanged_def checks_ok
    by (auto simp: list_all_iff
        item_access[where f = "\<lambda>l. case mapGet db l of Some (SBytes bs) \<Rightarrow> guard_not (\<not> bytesEqual bs (it_bytes _)) e
          | _ \<Rightarrow> throw e"])
qed

lemma commitReplicaMutation_steps:
  assumes "replica_checks c = ok ()"
  shows "commitReplicaMutation c db = ok db' \<longleftrightarrow>
    mapGet db (location (rm_realm c) (rm_nextReplicaState c)) = Some (SBytes (rm_expectedReplicaState c)) \<and>
    (\<forall>item \<in> set (rm_expectedAbsentItems c). mapGet db (location (rm_realm c) item) = None) \<and>
    (\<forall>item \<in> set (rm_expectedMutableItems c).
       mapGet db (location (rm_realm c) item) = Some (SBytes (it_bytes item))) \<and>
    (\<exists>a b d. foldM (putImmutableInTransaction (rm_realm c)) db (rm_immutableItems c) = ok a \<and>
       foldM (put_item (rm_realm c)) a (rm_mutableItems c) = ok b \<and>
       foldM (delete_item (rm_realm c)) b (rm_deletedItems c) = ok d \<and>
       db' = mapSet d (location (rm_realm c) (rm_nextReplicaState c)) (SBytes (it_bytes (rm_nextReplicaState c))))"
proof -
  let ?r = "rm_realm c" and ?n = "rm_nextReplicaState c"
  note k = assms[unfolded replica_checks_ok]
  have key: "storageKey ?r ?n = ok (snd (location ?r ?n))" using k by (simp add: storageKey_ok)
  have "it_namespace ?n = ns_key replicaState" using k by blast
  then have "fst (location ?r ?n) = ReplicaSafetyState"
    using location_fst[of replicaState ?n ?r] by (simp add: secret_families)
  then have fam: "(ReplicaSafetyState, snd (location ?r ?n)) = location ?r ?n" by (simp add: prod_eq_iff)
  have cas: "(case mapGet db (location ?r ?n) of
      Some (SBytes bs) \<Rightarrow> guard_not (\<not> bytesEqual bs (rm_expectedReplicaState c)) e | _ \<Rightarrow> throw e) = ok () \<longleftrightarrow>
      mapGet db (location ?r ?n) = Some (SBytes (rm_expectedReplicaState c))" for e
    by (auto split: option.splits stored.splits)
  have valid: "list_all (valid_item ?r) (rm_expectedAbsentItems c)"
    "list_all (valid_item ?r) (rm_expectedMutableItems c)" using k by blast+
  show ?thesis
    unfolding commitReplicaMutation_def Let_def assms key and_then_Inr in_transaction_ok and_then_eq_Inr fam
    by (auto simp: cas assert_absent_ok[OF valid(1)] assert_unchanged_ok[OF valid(2)])
qed

lemma commitReplicaMutation_ready:
  "(\<exists>db'. commitReplicaMutation c db = ok db') \<longleftrightarrow> replica_checks c = ok () \<and> context_unchanged c db"
proof (cases "replica_checks c = ok ()")
  case True
  let ?r = "rm_realm c"
  note k = True[unfolded replica_checks_ok]
  have valid: "list_all (valid_item ?r) (rm_immutableItems c)" "list_all (valid_item ?r) (rm_mutableItems c)"
    "list_all (valid_item ?r) (rm_deletedItems c)" "distinct (map (location ?r) (rm_immutableItems c))"
    using k by (auto simp: list_all_iff comp_def)
  have "(\<exists>db' a b d. foldM (putImmutableInTransaction ?r) db (rm_immutableItems c) = ok a \<and>
       foldM (put_item ?r) a (rm_mutableItems c) = ok b \<and> foldM (delete_item ?r) b (rm_deletedItems c) = ok d \<and>
       db' = mapSet d (location ?r (rm_nextReplicaState c)) (SBytes (it_bytes (rm_nextReplicaState c)))) \<longleftrightarrow>
    (\<exists>a. foldM (putImmutableInTransaction ?r) db (rm_immutableItems c) = ok a)"
    using put_items_total[OF valid(2)] delete_items_total[OF valid(3)] by metis
  then show ?thesis
    using immutable_items_total[OF valid(1,4)] True
    unfolding commitReplicaMutation_steps[OF True] context_unchanged_def by blast
next
  case False
  then show ?thesis by (auto simp: commitReplicaMutation_def Let_def and_then_eq_Inr)
qed

lemma commitReplicaMutation_get:
  assumes "commitReplicaMutation c db = ok db'"
  shows "mapGet db' l = after_commit c db l"
proof -
  let ?r = "rm_realm c" and ?n = "rm_nextReplicaState c"
  have checked: "replica_checks c = ok ()" using assms commitReplicaMutation_ready by blast
  note k = checked[unfolded replica_checks_ok]
  obtain a b d where steps: "foldM (putImmutableInTransaction ?r) db (rm_immutableItems c) = ok a"
      "foldM (put_item ?r) a (rm_mutableItems c) = ok b" "foldM (delete_item ?r) b (rm_deletedItems c) = ok d"
      "db' = mapSet d (location ?r ?n) (SBytes (it_bytes ?n))"
    using assms unfolding commitReplicaMutation_steps[OF checked] by blast
  have dist: "distinct (map (location ?r) (written_items c) @ map (location ?r) (rm_deletedItems c))"
    using k by (simp add: comp_def)
  then have "distinct (map (location ?r) (rm_immutableItems c))" "distinct (map (location ?r) (rm_mutableItems c))"
    and fresh: "location ?r ?n \<notin> location ?r ` set (rm_deletedItems c)"
      "location ?r ?n \<notin> location ?r ` set (rm_immutableItems c @ rm_mutableItems c)"
      "location ?r ` set (rm_immutableItems c) \<inter> location ?r ` set (rm_mutableItems c) = {}"
    by auto
  then have "mapGet d l = (if l \<in> location ?r ` set (rm_deletedItems c) then None
      else (mapGet db ++ map_of (map (entry_of ?r) (rm_immutableItems c)) ++
        map_of (map (entry_of ?r) (rm_mutableItems c))) l)"
    unfolding delete_items_get[OF steps(3)] using put_items_get[OF steps(2)] immutable_items_get[OF steps(1)]
    by (simp add: map_add_def split: option.splits)
  moreover have "map_of (map (entry_of ?r) (rm_immutableItems c)) ++ map_of (map (entry_of ?r) (rm_mutableItems c)) =
      map_of (map (entry_of ?r) (rm_immutableItems c @ rm_mutableItems c))"
    unfolding map_append map_of_append
    by (rule map_add_comm) (use fresh(3) in \<open>simp add: dom_map_of_conv_image_fst image_image\<close>)
  ultimately have d: "mapGet d l = (if l \<in> location ?r ` set (rm_deletedItems c) then None
      else (mapGet db ++ map_of (map (entry_of ?r) (rm_immutableItems c @ rm_mutableItems c))) l)"
    by (simp only: map_add_assoc[symmetric])
  have "map_of (map (entry_of ?r) (written_items c)) =
      (map_of (map (entry_of ?r) (rm_immutableItems c @ rm_mutableItems c)))(location ?r ?n \<mapsto> SBytes (it_bytes ?n))"
    by simp
  then show ?thesis
    using fresh(1) by (simp only: steps(4) after_commit_def update_conv' map_add_upd fun_upd_apply d) auto
qed

section \<open>Properties\<close>

text \<open>
  C38. Immutable items never change: whatever sequence of operations runs on the database,
  accepted or rejected, an item of an immutable namespace keeps its bytes as long as no operation
  names it for deletion.
\<close>

theorem immutable_items_stable:
  assumes "d \<in> set NAMESPACES" and "ns_immutable d"
    and "mapGet db (ns_family d, r, ns_key d, s, i) = Some v"
    and "\<forall>op \<in> set ops. (ns_family d, r, ns_key d, s, i) \<notin> deleted_by op"
  shows "mapGet (run_ops db ops) (ns_family d, r, ns_key d, s, i) = Some v"
proof -
  let ?l = "(ns_family d, r, ns_key d, s, i)"
  have "keeps_immutable (- {?l}) db (run_ops db ops)"
    using assms(4) by (intro stable.run_law) auto
  moreover have "immutable_location ?l" using assms(1,2) by (auto simp: immutable_location_def)
  ultimately show ?thesis using assms(3) unfolding keeps_immutable_def by blast
qed

text \<open>A small database, and attempts to replace the Record it holds.\<close>

definition demo_record :: namespace_bytes where
  "demo_record = \<lparr>it_namespace = ns_key vaultRecord, it_scopeKey = ''v'', it_itemKey = ''r'', it_bytes = [1]\<rparr>"

definition demo_state :: "bytes \<Rightarrow> namespace_bytes" where
  "demo_state bs = \<lparr>it_namespace = ns_key replicaState, it_scopeKey = ''v'', it_itemKey = ''current'', it_bytes = bs\<rparr>"

definition demo_db :: database where
  "demo_db = [((VaultRecords, ''Normal:default'', ns_key vaultRecord, ''v'', ''r''), SBytes [1]),
     ((ReplicaSafetyState, ''Normal:default'', ns_key replicaState, ''v'', ''current''), SBytes [7])]"

definition demo_commit :: "bytes \<Rightarrow> bytes \<Rightarrow> replica_mutation_commit" where
  "demo_commit expected next =
     \<lparr>rm_realm = NORMAL_STORAGE_REALM, rm_expectedReplicaState = expected, rm_expectedAbsentItems = [],
      rm_expectedMutableItems = [], rm_nextReplicaState = demo_state next,
      rm_immutableItems = [demo_record\<lparr>it_itemKey := ''s''\<rparr>], rm_mutableItems = [], rm_deletedItems = []\<rparr>"

definition demo_ops :: "db_op list" where
  "demo_ops =
     [PutImmutable NORMAL_STORAGE_REALM (demo_record\<lparr>it_bytes := [2]\<rparr>),
      PutMutable NORMAL_STORAGE_REALM (demo_record\<lparr>it_bytes := [2]\<rparr>),
      CommitReplicaMutation (demo_commit [7] [8])]"

theorem immutable_items_stable_witness:
  "mapGet (run_ops demo_db demo_ops) (ns_family vaultRecord, ''Normal:default'', ns_key vaultRecord, ''v'', ''r'') =
     Some (SBytes [1])"
proof (rule immutable_items_stable)
  show "vaultRecord \<in> set NAMESPACES" by (simp add: NAMESPACES_def)
  show "ns_immutable vaultRecord" by (simp add: vaultRecord_def)
  show "mapGet demo_db (ns_family vaultRecord, ''Normal:default'', ns_key vaultRecord, ''v'', ''r'') = Some (SBytes [1])"
    by (simp add: demo_db_def vaultRecord_def)
  show "\<forall>op \<in> set demo_ops.
      (ns_family vaultRecord, ''Normal:default'', ns_key vaultRecord, ''v'', ''r'') \<notin> deleted_by op"
    by (simp add: demo_ops_def demo_commit_def)
qed

text \<open>
  C39. A Replica mutation is an exact compare-and-swap. It succeeds if and only if its items pass the
  checks and the database still is what it was prepared for: the Replica state holds the expected
  bytes, the items expected to be absent are absent, those expected to be unchanged are unchanged,
  and no immutable item has other bytes. When it succeeds, every item written has its new
  bytes, every item named for deletion is gone, and every other item of every store is as it was.
\<close>

theorem replica_mutation_exact:
  "((\<exists>db'. commitReplicaMutation c db = ok db') \<longleftrightarrow> replica_checks c = ok () \<and> context_unchanged c db) \<and>
   (\<forall>db' l. commitReplicaMutation c db = ok db' \<longrightarrow> mapGet db' l = after_commit c db l)"
  using commitReplicaMutation_ready commitReplicaMutation_get by blast

lemma demo_namespaces:
  "vaultRecord \<in> set NAMESPACES" "ns_immutable vaultRecord" "ns_family vaultRecord = VaultRecords"
  "ns_key vaultRecord \<noteq> ns_key replicaState"
  by (simp_all add: NAMESPACES_def vaultRecord_def replicaState_def)

lemma demo_locations:
  "location realm (demo_state bs) = (ReplicaSafetyState, realm_key realm, ns_key replicaState, ''v'', ''current'')"
  "location realm (demo_record\<lparr>it_itemKey := i\<rparr>) = (VaultRecords, realm_key realm, ns_key vaultRecord, ''v'', i)"
  using location_fst[of replicaState "demo_state bs" realm] demo_namespaces
    location_fst[of vaultRecord "demo_record\<lparr>it_itemKey := i\<rparr>" realm]
  by (simp_all add: location_def demo_state_def demo_record_def secret_families)

lemma demo_commit_checked: "replica_checks (demo_commit [7] [8]) = ok ()"
proof -
  have c: "component_ok ''v''" "component_ok ''s''" "component_ok ''current''" "realm_id_ok (realm_id NORMAL_STORAGE_REALM)"
    by code_simp+
  have v: "valid_item NORMAL_STORAGE_REALM (demo_state bs)" "valid_item NORMAL_STORAGE_REALM (demo_record\<lparr>it_itemKey := ''s''\<rparr>)" for bs
    using c demo_namespaces by (auto simp: valid_item_def demo_state_def demo_record_def)
  have i: "immutable_item (demo_record\<lparr>it_itemKey := ''s''\<rparr>)"
    using demo_namespaces by (auto simp: immutable_item_def demo_record_def)
  show ?thesis
    unfolding replica_checks_ok using v i
    by (simp add: demo_commit_def demo_locations) (simp add: demo_state_def demo_record_def)
qed

lemma demo_commit_unchanged: "context_unchanged (demo_commit [7] [8]) demo_db"
proof -
  have "realm_key NORMAL_STORAGE_REALM = ''Normal:default''" by code_simp
  then show ?thesis
    using demo_namespaces
    by (simp add: context_unchanged_def demo_commit_def demo_locations demo_db_def)
qed

theorem replica_mutation_exact_witness:
  "\<exists>db'. commitReplicaMutation (demo_commit [7] [8]) demo_db = ok db' \<and>
     mapGet db' (ReplicaSafetyState, ''Normal:default'', ns_key replicaState, ''v'', ''current'') = Some (SBytes [8])"
proof -
  let ?l = "(ReplicaSafetyState, ''Normal:default'', ns_key replicaState, ''v'', ''current'')"
  obtain db' where db': "commitReplicaMutation (demo_commit [7] [8]) demo_db = ok db'"
    using replica_mutation_exact[of "demo_commit [7] [8]" demo_db] demo_commit_checked demo_commit_unchanged by blast
  then have "mapGet db' ?l = after_commit (demo_commit [7] [8]) demo_db ?l"
    using replica_mutation_exact[of "demo_commit [7] [8]" demo_db] by blast
  moreover have "realm_key NORMAL_STORAGE_REALM = ''Normal:default''" by code_simp
  then have "after_commit (demo_commit [7] [8]) demo_db ?l = Some (SBytes [8])"
    by (simp add: after_commit_def demo_commit_def demo_locations) (simp add: demo_state_def)
  ultimately show ?thesis using db' by auto
qed

text \<open>
  No lost update: of two Replica mutations prepared on the same Replica state, the second fails
  once the first has replaced that state, whatever else they write.
\<close>

theorem replica_mutations_exclude:
  assumes "commitReplicaMutation a db = ok db'"
    and "location (rm_realm b) (rm_nextReplicaState b) = location (rm_realm a) (rm_nextReplicaState a)"
    and "rm_expectedReplicaState b \<noteq> it_bytes (rm_nextReplicaState a)"
  shows "commitReplicaMutation b db' \<noteq> ok db''"
proof
  assume "commitReplicaMutation b db' = ok db''"
  then have "context_unchanged b db'" using commitReplicaMutation_ready by blast
  then have "mapGet db' (location (rm_realm a) (rm_nextReplicaState a)) = Some (SBytes (rm_expectedReplicaState b))"
    using assms(2) by (simp add: context_unchanged_def)
  moreover have "replica_checks a = ok ()" using assms(1) commitReplicaMutation_ready by blast
  then have "location (rm_realm a) (rm_nextReplicaState a) \<notin> location (rm_realm a) ` set (rm_deletedItems a)"
    "location (rm_realm a) (rm_nextReplicaState a) \<notin> location (rm_realm a) ` set (rm_immutableItems a @ rm_mutableItems a)"
    by (auto simp: replica_checks_ok)
  then have "mapGet db' (location (rm_realm a) (rm_nextReplicaState a)) = Some (SBytes (it_bytes (rm_nextReplicaState a)))"
    using commitReplicaMutation_get[OF assms(1)] by (simp add: after_commit_def)
  ultimately show False using assms(3) by simp
qed

end
