(* ===== verification/Local_State.thy ===== *)
theory Local_State
  imports Storage_Laws Garbage_Collection
begin

text \<open>
  What an installation keeps locally (\<open>runtime/vault/canonical-local-state.ts\<close> and
  \<open>crypto/installation-wrap.ts\<close>): the Replica state, logical resolutions, the Vault Directory,
  the selection and the secrets, their canonical encodings and the AES-KW wrapping that protects
  them. AES-KW itself and the two libsodium functions that derive
  public keys are parameters. The lemmas show that unwrapping returns what was wrapped and only in
  the context it was wrapped for, and that the largest values can be wrapped but not unwrapped.
\<close>

section \<open>Data\<close>

definition LOCAL_STATE_FORMAT :: int where "LOCAL_STATE_FORMAT = 1"

record replica_state =
  rs_vaultId :: bytes
  rs_generationId :: bytes
  rs_causalFrontier :: "bytes list"
  rs_authorityFrontier :: "bytes list"
  rs_continuityRecordIds :: "bytes list"
  rs_baselineId :: bytes
  rs_currentKeyEpochId :: bytes
  rs_requiredFeatureSetId :: bytes
  rs_authoringClientCredentialId :: "bytes option"
  rs_memberId :: "bytes option"
  rs_lifecycle :: int
  rs_preservationRoots :: "bytes list"
  rs_garbageCollectionFences :: "gc_fence list"
  rs_adoption :: "bytes option"

record vault_directory_entry =
  vd_vaultId :: bytes
  vd_generationId :: bytes
  vd_label :: "string option"
  vd_selectedClientCredentialId :: "bytes option"

record client_secret_state =
  cs_vaultId :: bytes
  cs_memberId :: bytes
  cs_clientCredentialId :: bytes
  cs_signingPublicKey :: bytes
  cs_signingSecretKey :: bytes
  cs_wrappingPublicKey :: bytes
  cs_wrappingPrivateKey :: bytes

record epoch_secret_state =
  es_vaultId :: bytes
  es_keyEpochId :: bytes
  es_displayNumber :: int
  es_key :: bytes

section \<open>Replica state\<close>

definition exactBytes :: "cvalue \<Rightarrow> nat \<Rightarrow> string \<Rightarrow> bytes res" where
  "exactBytes value len field =
     (case value of
        CBytes bs \<Rightarrow>
          (if length bs \<noteq> len
           then throw (TypeError (field @ '' must contain exactly '' @ nat_str len @ '' bytes''))
           else ok bs)
      | _ \<Rightarrow> throw (TypeError (field @ '' must contain exactly '' @ nat_str len @ '' bytes'')))"

definition indexedMap :: "cvalue list \<Rightarrow> cmap res" where
  "indexedMap values = canonicalMap (map (\<lambda>i. (int i, values ! i)) [0..<length values])"

definition null_or :: "('a \<Rightarrow> cvalue) \<Rightarrow> 'a option \<Rightarrow> cvalue" where
  "null_or f x = (case x of None \<Rightarrow> CNull | Some v \<Rightarrow> f v)"

definition garbageCollectionFenceValue :: "gc_fence \<Rightarrow> cmap res" where
  "garbageCollectionFenceValue fence =
     canonicalMap [(0, CBytes (fence_artifactId fence)), (1, CBytes (fence_storageItemId fence))]"

definition garbageCollectionFenceValues :: "platform \<Rightarrow> gc_fence list \<Rightarrow> cvalue list res" where
  "garbageCollectionFenceValues P fences =
     (let artifactKeys = map (\<lambda>f. key (fence_artifactId f)) fences in
      and_then (guard_not (card (set artifactKeys) \<noteq> length artifactKeys)
        (TypeError ''Garbage Collection fences contain a duplicate Artifact ID'')) (\<lambda>_.
      and_then (traverse (\<lambda>f. and_then (garbageCollectionFenceValue f) (\<lambda>m. ok (CMap m))) fences)
        (canonicalSet P)))"

definition decode_fence :: "nat \<Rightarrow> cvalue \<Rightarrow> gc_fence res" where
  "decode_fence index entry =
     (let name = ''Garbage Collection fence '' @ nat_str index in
      and_then (exactMap entry (num_keys 2) name) (\<lambda>fence.
      and_then (with_field fence 0 (\<lambda>v. identifierValue v ArtifactId (name @ '' Artifact ID''))) (\<lambda>artifactId.
      and_then (with_field fence 1 (\<lambda>v. identifierValue v StorageItemId (name @ '' Storage Item ID''))) (\<lambda>storageItemId.
      ok \<lparr>fence_artifactId = artifactId, fence_storageItemId = storageItemId\<rparr>))))"

definition decodeGarbageCollectionFences :: "platform \<Rightarrow> cvalue \<Rightarrow> gc_fence list res" where
  "decodeGarbageCollectionFences P value =
     and_then (arrayValue value ''Garbage Collection fences'') (\<lambda>encoded.
     and_then (traverse_i decode_fence 0 encoded) (\<lambda>fences.
     and_then (encodeCanonicalValue P (CArray encoded)) (\<lambda>given.
     and_then (garbageCollectionFenceValues P fences) (\<lambda>values.
     and_then (encodeCanonicalValue P (CArray values)) (\<lambda>expected.
     if \<not> bytesEqual given expected
     then throw (TypeError ''Garbage Collection fences must be a sorted duplicate-free canonical set'')
     else ok fences)))))"

definition encodeCanonicalReplicaState :: "platform \<Rightarrow> replica_state \<Rightarrow> bytes res" where
  "encodeCanonicalReplicaState P state =
     and_then (canonicalSet P (map CBytes (rs_causalFrontier state))) (\<lambda>causal.
     and_then (canonicalSet P (map CBytes (rs_authorityFrontier state))) (\<lambda>authority.
     and_then (canonicalSet P (map CBytes (rs_continuityRecordIds state))) (\<lambda>continuity.
     and_then (canonicalSet P (map CBytes (rs_preservationRoots state))) (\<lambda>roots.
     and_then (garbageCollectionFenceValues P (rs_garbageCollectionFences state)) (\<lambda>fences.
     and_then (case rs_adoption state of None \<Rightarrow> ok CNull
       | Some i \<Rightarrow> and_then (indexedMap [CNum 1, CBytes i]) (\<lambda>m. ok (CMap m))) (\<lambda>adoption.
     and_then (indexedMap
       [CNum LOCAL_STATE_FORMAT, CBytes (rs_vaultId state), CBytes (rs_generationId state), CArray causal,
        CArray authority, CArray continuity, CBytes (rs_baselineId state),
        CBytes (rs_currentKeyEpochId state), CBytes (rs_requiredFeatureSetId state),
        null_or CBytes (rs_authoringClientCredentialId state), null_or CBytes (rs_memberId state),
        CNum (rs_lifecycle state), CArray roots, CArray fences, adoption]) (\<lambda>m.
     encodeCanonicalValue P (CMap m))))))))"

definition parseAdoption :: "cvalue \<Rightarrow> bytes res" where
  "parseAdoption value =
     and_then (exactMap value (num_keys 2) ''Vacuum Adoption'') (\<lambda>adoption.
     and_then (with_field adoption 0 (\<lambda>v. exactCode v 1 ''Vacuum Adoption format'')) (\<lambda>_.
     with_field adoption 1 (\<lambda>v. identifierValue v VaultRecordId ''Vacuum Adoption Event Record ID'')))"

definition parseReplicaState :: "platform \<Rightarrow> cmap \<Rightarrow> replica_state res" where
  "parseReplicaState P m =
     and_then (with_field m 1 (\<lambda>v. identifierValue v VaultId ''Replica State Vault ID'')) (\<lambda>f1.
     and_then (with_field m 2 (\<lambda>v. identifierValue v GenerationId ''Replica State Generation ID'')) (\<lambda>f2.
     and_then (with_field m 3 (\<lambda>v. idSetValue P v VaultRecordId ''Causal Frontier'' True)) (\<lambda>f3.
     and_then (with_field m 4 (\<lambda>v. idSetValue P v VaultRecordId ''Authority Frontier'' True)) (\<lambda>f4.
     and_then (with_field m 5 (\<lambda>v. idSetValue P v VaultRecordId ''Continuity Record IDs'' True)) (\<lambda>f5.
     and_then (with_field m 6 (\<lambda>v. identifierValue v VaultRecordId ''Active Baseline ID'')) (\<lambda>f6.
     and_then (with_field m 7 (\<lambda>v. identifierValue v KeyEpochId ''Current Key Epoch ID'')) (\<lambda>f7.
     and_then (with_field m 8 (\<lambda>v. identifierValue v RequiredFeatureSetId ''Required Feature Set ID'')) (\<lambda>f8.
     and_then (with_field m 9 (\<lambda>v. nullable v (\<lambda>v.
       identifierValue v ClientCredentialId ''Authoring Client Credential ID''))) (\<lambda>f9.
     and_then (with_field m 10 (\<lambda>v. nullable v (\<lambda>v. identifierValue v MemberId ''Replica Member ID''))) (\<lambda>f10.
     and_then (with_field m 11 (\<lambda>v. oneOfCodes v [1, 2] ''Replica lifecycle'')) (\<lambda>f11.
     and_then (with_field m 12 (\<lambda>v. idSetValue P v VaultRecordId ''Local preservation roots'' False)) (\<lambda>f12.
     and_then (with_field m 13 (decodeGarbageCollectionFences P)) (\<lambda>f13.
     and_then (with_field m 14 (\<lambda>v. nullable v parseAdoption)) (\<lambda>f14.
     ok \<lparr>rs_vaultId = f1, rs_generationId = f2, rs_causalFrontier = f3, rs_authorityFrontier = f4,
         rs_continuityRecordIds = f5, rs_baselineId = f6, rs_currentKeyEpochId = f7,
         rs_requiredFeatureSetId = f8, rs_authoringClientCredentialId = f9, rs_memberId = f10,
         rs_lifecycle = f11, rs_preservationRoots = f12, rs_garbageCollectionFences = f13,
         rs_adoption = f14\<rparr>))))))))))))))"

definition decodeCanonicalReplicaState :: "platform \<Rightarrow> bytes \<Rightarrow> replica_state res" where
  "decodeCanonicalReplicaState P bs =
     and_then (decodeCanonicalValue P bs) (\<lambda>value.
     and_then (exactMap value (num_keys 15) ''Canonical Replica State'') (\<lambda>m.
     and_then (field_ok m 0 (\<lambda>v. exactCode v LOCAL_STATE_FORMAT ''Replica State format'')) (\<lambda>_.
     and_then (parseReplicaState P m) (\<lambda>state.
     and_then (guard_not (case rs_adoption state of None \<Rightarrow> False
         | Some i \<Rightarrow> \<not> list_ex (\<lambda>recordId. bytesEqual recordId i) (rs_continuityRecordIds state))
       (TypeError ''Vacuum Adoption is inconsistent with accepted Replica Safety State'')) (\<lambda>_.
     and_then (encodeCanonicalReplicaState P state) (\<lambda>encoded.
     if \<not> bytesEqual encoded bs
     then throw (TypeError ''Canonical Replica State bytes are not canonical'') else ok state))))))"

section \<open>Logical resolutions\<close>

definition encodeLogicalResolution :: "platform \<Rightarrow> logical_resolution \<Rightarrow> bytes res" where
  "encodeLogicalResolution P r =
     (if length (lr_logicalId r) \<noteq> 32 then throw (TypeError ''Logical ID must contain 32 bytes'')
      else and_then (indexedMap
        [CNum LOCAL_STATE_FORMAT, CBytes (lr_vaultId r), CNum (int (lr_kind r)), CBytes (lr_logicalId r),
         CBytes (lr_storageItemId r), CBytes (lr_keyEpochId r), CNum (int (lr_availability r))]) (\<lambda>m.
      encodeCanonicalValue P (CMap m)))"

definition decodeLogicalResolution :: "platform \<Rightarrow> bytes \<Rightarrow> logical_resolution res" where
  "decodeLogicalResolution P bs =
     and_then (decodeCanonicalValue P bs) (\<lambda>value.
     and_then (exactMap value (num_keys 7) ''Logical Resolution'') (\<lambda>m.
     and_then (field_ok m 0 (\<lambda>v. exactCode v LOCAL_STATE_FORMAT ''Logical Resolution format'')) (\<lambda>_.
     and_then (with_field m 1 (\<lambda>v. identifierValue v VaultId ''Resolution Vault ID'')) (\<lambda>f1.
     and_then (with_field m 2 (\<lambda>v. oneOfCodes v [1, 2, 3, 4, 5] ''Logical kind'')) (\<lambda>f2.
     and_then (with_field m 3 (\<lambda>v. exactBytes v 32 ''Logical ID'')) (\<lambda>f3.
     and_then (with_field m 4 (\<lambda>v. identifierValue v StorageItemId ''Storage Item ID'')) (\<lambda>f4.
     and_then (with_field m 5 (\<lambda>v. identifierValue v KeyEpochId ''Resolution Key Epoch ID'')) (\<lambda>f5.
     and_then (with_field m 6 (\<lambda>v. oneOfCodes v [1, 2, 3, 4] ''Local availability'')) (\<lambda>f6.
     let r = \<lparr>lr_vaultId = f1, lr_kind = nat f2, lr_logicalId = f3, lr_storageItemId = f4,
         lr_keyEpochId = f5, lr_availability = nat f6\<rparr> in
     and_then (encodeLogicalResolution P r) (\<lambda>encoded.
     if \<not> bytesEqual encoded bs then throw (TypeError ''Logical Resolution bytes are not canonical'')
     else ok r))))))))))"

section \<open>Directory, selection and secrets\<close>

definition encodeVaultDirectoryEntry :: "platform \<Rightarrow> vault_directory_entry \<Rightarrow> bytes res" where
  "encodeVaultDirectoryEntry P value =
     and_then (indexedMap
       [CNum LOCAL_STATE_FORMAT, CBytes (vd_vaultId value), CBytes (vd_generationId value),
        null_or CText (vd_label value), null_or CBytes (vd_selectedClientCredentialId value)]) (\<lambda>m.
     encodeCanonicalValue P (CMap m))"

definition decodeVaultDirectoryEntry :: "platform \<Rightarrow> bytes \<Rightarrow> vault_directory_entry res" where
  "decodeVaultDirectoryEntry P bs =
     and_then (decodeCanonicalValue P bs) (\<lambda>v.
     and_then (exactMap v (num_keys 5) ''Vault Directory entry'') (\<lambda>m.
     and_then (field_ok m 0 (\<lambda>v. exactCode v LOCAL_STATE_FORMAT ''Vault Directory format'')) (\<lambda>_.
     and_then (with_field m 1 (\<lambda>v. identifierValue v VaultId ''Directory Vault ID'')) (\<lambda>f1.
     and_then (with_field m 2 (\<lambda>v. identifierValue v GenerationId ''Directory Generation ID'')) (\<lambda>f2.
     and_then (with_field m 3 (\<lambda>v. nullable v (\<lambda>l.
       textValue l ''Vault label'' (default_text\<lparr>maxUtf8Bytes := Some 1024\<rparr>)))) (\<lambda>f3.
     and_then (with_field m 4 (\<lambda>v. nullable v (\<lambda>v.
       identifierValue v ClientCredentialId ''Selected Client Credential ID''))) (\<lambda>f4.
     let value = \<lparr>vd_vaultId = f1, vd_generationId = f2, vd_label = f3, vd_selectedClientCredentialId = f4\<rparr> in
     and_then (encodeVaultDirectoryEntry P value) (\<lambda>encoded.
     if \<not> bytesEqual encoded bs then throw (TypeError ''Vault Directory bytes are not canonical'')
     else ok value))))))))"

definition encodeInstallationSelection :: "platform \<Rightarrow> bytes \<Rightarrow> bytes res" where
  "encodeInstallationSelection P vaultId =
     and_then (indexedMap [CNum LOCAL_STATE_FORMAT, CBytes vaultId]) (\<lambda>m. encodeCanonicalValue P (CMap m))"

definition decodeInstallationSelection :: "platform \<Rightarrow> bytes \<Rightarrow> bytes res" where
  "decodeInstallationSelection P bs =
     and_then (decodeCanonicalValue P bs) (\<lambda>v.
     and_then (exactMap v (num_keys 2) ''Installation Selection'') (\<lambda>m.
     and_then (field_ok m 0 (\<lambda>v. exactCode v LOCAL_STATE_FORMAT ''Installation Selection format'')) (\<lambda>_.
     and_then (with_field m 1 (\<lambda>v. identifierValue v VaultId ''Selected Vault ID'')) (\<lambda>vaultId.
     and_then (encodeInstallationSelection P vaultId) (\<lambda>encoded.
     if \<not> bytesEqual encoded bs then throw (TypeError ''Installation Selection bytes are not canonical'')
     else ok vaultId)))))"

definition encodeClientSecretState :: "platform \<Rightarrow> client_secret_state \<Rightarrow> bytes res" where
  "encodeClientSecretState P value =
     and_then (indexedMap
       [CNum LOCAL_STATE_FORMAT, CBytes (cs_vaultId value), CBytes (cs_memberId value),
        CBytes (cs_clientCredentialId value), CBytes (cs_signingPublicKey value),
        CBytes (cs_signingSecretKey value), CBytes (cs_wrappingPublicKey value),
        CBytes (cs_wrappingPrivateKey value)]) (\<lambda>m.
     encodeCanonicalValue P (CMap m))"

text \<open>
  \<open>sign_public\<close> and \<open>base_point\<close> are libsodium's \<open>crypto_sign_ed25519_sk_to_pk\<close> and
  \<open>crypto_scalarmult_base\<close>.
\<close>

definition decodeClientSecretState ::
  "platform \<Rightarrow> (bytes \<Rightarrow> bytes) \<Rightarrow> (bytes \<Rightarrow> bytes) \<Rightarrow> bytes \<Rightarrow> client_secret_state res" where
  "decodeClientSecretState P sign_public base_point bs =
     and_then (decodeCanonicalValue P bs) (\<lambda>v.
     and_then (exactMap v (num_keys 8) ''Client Secret State'') (\<lambda>m.
     and_then (field_ok m 0 (\<lambda>v. exactCode v LOCAL_STATE_FORMAT ''Client Secret format'')) (\<lambda>_.
     and_then (with_field m 1 (\<lambda>v. identifierValue v VaultId ''Client Secret Vault ID'')) (\<lambda>f1.
     and_then (with_field m 2 (\<lambda>v. identifierValue v MemberId ''Client Secret Member ID'')) (\<lambda>f2.
     and_then (with_field m 3 (\<lambda>v. identifierValue v ClientCredentialId ''Client Secret Credential ID'')) (\<lambda>f3.
     and_then (with_field m 4 (\<lambda>v. exactBytes v 32 ''Client signing public key'')) (\<lambda>f4.
     and_then (with_field m 5 (\<lambda>v. exactBytes v 64 ''Client signing secret key'')) (\<lambda>f5.
     and_then (with_field m 6 (\<lambda>v. exactBytes v 32 ''Client wrapping public key'')) (\<lambda>f6.
     and_then (with_field m 7 (\<lambda>v. exactBytes v 32 ''Client wrapping private key'')) (\<lambda>f7.
     let value = \<lparr>cs_vaultId = f1, cs_memberId = f2, cs_clientCredentialId = f3, cs_signingPublicKey = f4,
         cs_signingSecretKey = f5, cs_wrappingPublicKey = f6, cs_wrappingPrivateKey = f7\<rparr> in
     if \<not> bytesEqual (sign_public (cs_signingSecretKey value)) (cs_signingPublicKey value) \<or>
        \<not> bytesEqual (base_point (cs_wrappingPrivateKey value)) (cs_wrappingPublicKey value)
     then throw (TypeError ''Client Secret public and private keys do not match'')
     else and_then (encodeClientSecretState P value) (\<lambda>encoded.
       if \<not> bytesEqual encoded bs then throw (TypeError ''Client Secret bytes are not canonical'')
       else ok value)))))))))))"

definition encodeEpochSecretState :: "platform \<Rightarrow> epoch_secret_state \<Rightarrow> bytes res" where
  "encodeEpochSecretState P value =
     and_then (guard_not (\<not> isSafeInteger (es_displayNumber value) \<or> es_displayNumber value < 0)
       (TypeError ''Key Epoch display number must be nonnegative'')) (\<lambda>_.
     and_then (keyEpochId P (es_vaultId value) (es_key value)) (\<lambda>expected.
     and_then (guard_not (\<not> bytesEqual expected (es_keyEpochId value))
       (TypeError ''Epoch Secret key does not match its Key Epoch ID'')) (\<lambda>_.
     and_then (indexedMap
       [CNum LOCAL_STATE_FORMAT, CBytes (es_vaultId value), CBytes (es_keyEpochId value),
        CNum (es_displayNumber value), CBytes (es_key value)]) (\<lambda>m.
     encodeCanonicalValue P (CMap m)))))"

definition decodeEpochSecretState :: "platform \<Rightarrow> bytes \<Rightarrow> epoch_secret_state res" where
  "decodeEpochSecretState P bs =
     and_then (decodeCanonicalValue P bs) (\<lambda>v.
     and_then (exactMap v (num_keys 5) ''Epoch Secret State'') (\<lambda>m.
     and_then (field_ok m 0 (\<lambda>v. exactCode v LOCAL_STATE_FORMAT ''Epoch Secret format'')) (\<lambda>_.
     and_then (with_field m 1 (\<lambda>v. identifierValue v VaultId ''Epoch Secret Vault ID'')) (\<lambda>f1.
     and_then (with_field m 2 (\<lambda>v. identifierValue v KeyEpochId ''Epoch Secret Key Epoch ID'')) (\<lambda>f2.
     and_then (with_field m 3 (\<lambda>v. nonnegativeInteger v ''Key Epoch display number'')) (\<lambda>f3.
     and_then (with_field m 4 (\<lambda>v. exactBytes v 32 ''Key Epoch Key'')) (\<lambda>f4.
     let value = \<lparr>es_vaultId = f1, es_keyEpochId = f2, es_displayNumber = f3, es_key = f4\<rparr> in
     and_then (keyEpochId P f1 f4) (\<lambda>expected.
     and_then (guard_not (\<not> bytesEqual expected f2)
       (TypeError ''Epoch Secret key does not match its Key Epoch ID'')) (\<lambda>_.
     and_then (encodeEpochSecretState P value) (\<lambda>encoded.
     if \<not> bytesEqual encoded bs then throw (TypeError ''Epoch Secret bytes are not canonical'')
     else ok value))))))))))"

section \<open>Installation wrapping\<close>

definition INSTALLATION_WRAPPED_VALUE_FORMAT :: int where "INSTALLATION_WRAPPED_VALUE_FORMAT = 1"
definition MAX_INSTALLATION_VALUE_BYTES :: nat where "MAX_INSTALLATION_VALUE_BYTES = 16 * 1024 * 1024"

text \<open>
  An installation wrapping key: its public attributes and what AES-KW does under it.
  \<open>wrapKey\<close> and \<open>unwrapKey\<close> reject with a \<open>DOMException\<close>.
\<close>

record wrapping_key =
  wk_key :: crypto_key
  wk_wrap :: "bytes \<Rightarrow> bytes res"
  wk_unwrap :: "bytes \<Rightarrow> bytes res"

definition validateWrappingKey :: "crypto_key \<Rightarrow> unit res" where
  "validateWrappingKey k =
     guard_not (ck_extractable k \<or> ck_algorithm k \<noteq> ''AES-KW'' \<or> ''wrapKey'' \<notin> set (ck_usages k) \<or>
         ''unwrapKey'' \<notin> set (ck_usages k))
       (TypeError ''Installation wrapping key must be non-exportable AES-KW'')"

definition decodeUint32 :: "bytes \<Rightarrow> nat" where
  "decodeUint32 bs =
     2 ^ 24 * unat (bs ! 0) + 2 ^ 16 * unat (bs ! 1) + 2 ^ 8 * unat (bs ! 2) + unat (bs ! 3)"

definition variableBytes :: "cvalue \<Rightarrow> string \<Rightarrow> bytes res" where
  "variableBytes value field =
     (case value of CBytes bs \<Rightarrow> ok bs | _ \<Rightarrow> throw (TypeError (field @ '' must be bytes'')))"

definition padding_length :: "nat \<Rightarrow> nat" where
  "padding_length framedLength = (8 - framedLength mod 8) mod 8"

text \<open>\<open>entropy n\<close> is what \<open>crypto.getRandomValues\<close> fills an array of \<open>n\<close> bytes with.\<close>

definition wrapInstallationBytes ::
  "platform \<Rightarrow> wrapping_key \<Rightarrow> (nat \<Rightarrow> bytes) \<Rightarrow> string \<Rightarrow> bytes \<Rightarrow> bytes \<Rightarrow> bytes option \<Rightarrow> bytes res" where
  "wrapInstallationBytes P k entropy domain ctx bs padding =
     and_then (validateWrappingKey (wk_key k)) (\<lambda>_.
     and_then (assertCanonicalScopedKey domain) (\<lambda>_.
     and_then (guard_not (length ctx > 4096) (TypeError ''Installation context is too large'')) (\<lambda>_.
     and_then (guard_not (length bs < 1 \<or> length bs > MAX_INSTALLATION_VALUE_BYTES)
       (TypeError ''Installation value is outside the accepted bounds'')) (\<lambda>_.
     and_then (canonicalMap [(0, CNum INSTALLATION_WRAPPED_VALUE_FORMAT), (1, CText domain),
       (2, CBytes ctx), (3, CBytes bs)]) (\<lambda>m.
     and_then (encodeCanonicalValue P (CMap m)) (\<lambda>payload.
     let framedLength = 4 + length payload; paddingLength = padding_length framedLength in
     and_then (case padding of
         Some p \<Rightarrow> byteString (CBytes p) paddingLength ''Installation padding''
       | None \<Rightarrow> ok (entropy paddingLength)) (\<lambda>pad.
     and_then (uint32be (int (length payload))) (\<lambda>len.
     let plaintext = len @ payload @ pad in
     and_then (guard_not (length plaintext < 16) (TypeError ''Installation value is too small to wrap'')) (\<lambda>_.
     wk_wrap k plaintext)))))))))"

definition unwrapInstallationBytes ::
  "platform \<Rightarrow> wrapping_key \<Rightarrow> string \<Rightarrow> bytes \<Rightarrow> bytes \<Rightarrow> bytes res" where
  "unwrapInstallationBytes P k domain ctx wrapped =
     and_then (validateWrappingKey (wk_key k)) (\<lambda>_.
     and_then (assertCanonicalScopedKey domain) (\<lambda>_.
     and_then (guard_not (length wrapped < 24 \<or> length wrapped mod 8 \<noteq> 0 \<or>
         length wrapped > MAX_INSTALLATION_VALUE_BYTES + 4096)
       (TypeError ''Wrapped installation value is outside the accepted bounds'')) (\<lambda>_.
     and_then (wk_unwrap k wrapped) (\<lambda>plaintext.
     and_then (guard_not (length plaintext < 4) (TypeError ''Wrapped installation value is truncated'')) (\<lambda>_.
     let payloadLength = decodeUint32 plaintext in
     and_then (guard_not (payloadLength < 1 \<or> int payloadLength > int (length plaintext) - 4)
       (TypeError ''Wrapped installation payload length is invalid'')) (\<lambda>_.
     and_then (decodeCanonicalValue P (take payloadLength (drop 4 plaintext))) (\<lambda>value.
     and_then (exactMap value (num_keys 4) ''Wrapped installation value'') (\<lambda>m.
     and_then (field_ok m 0 (\<lambda>v. exactCode v INSTALLATION_WRAPPED_VALUE_FORMAT
       ''Installation value format'')) (\<lambda>_.
     and_then (with_field m 1 (\<lambda>v. textValue v ''Installation value domain''
       (default_text\<lparr>maxUtf8Bytes := Some 256\<rparr>))) (\<lambda>found.
     and_then (assertCanonicalScopedKey found) (\<lambda>_.
     and_then (with_field m 2 (\<lambda>v. variableBytes v ''Installation value context'')) (\<lambda>found_ctx.
     and_then (with_field m 3 (\<lambda>v. variableBytes v ''Installation value bytes'')) (\<lambda>bs.
     and_then (guard_not (found \<noteq> domain \<or> \<not> bytesEqual found_ctx ctx)
       (TypeError ''Wrapped installation value belongs to another context'')) (\<lambda>_.
     and_then (guard_not (length bs < 1 \<or> length bs > MAX_INSTALLATION_VALUE_BYTES)
       (TypeError ''Installation value is outside the accepted bounds'')) (\<lambda>_.
     ok bs)))))))))))))))"

section \<open>Wrapped items\<close>

definition canonicalLocalStorageContext :: "bytes \<Rightarrow> bytes \<Rightarrow> bytes res" where
  "canonicalLocalStorageContext vaultId identity =
     transcript ''awsm:local-storage-context:v1'' [vaultId, identity]"

definition prepareWrappedLocalStateItem ::
  "platform \<Rightarrow> wrapping_key \<Rightarrow> (nat \<Rightarrow> bytes) \<Rightarrow> storage_item \<Rightarrow> string \<Rightarrow> bytes \<Rightarrow> bytes \<Rightarrow> namespace_bytes res" where
  "prepareWrappedLocalStateItem P k entropy item domain ctx bs =
     and_then (wrapInstallationBytes P k entropy domain ctx bs None) (\<lambda>wrapped.
     ok \<lparr>it_namespace = it_namespace item, it_scopeKey = it_scopeKey item, it_itemKey = it_itemKey item,
         it_bytes = wrapped\<rparr>)"

definition openWrappedLocalState ::
  "platform \<Rightarrow> wrapping_key \<Rightarrow> string \<Rightarrow> bytes \<Rightarrow> bytes \<Rightarrow> bytes \<Rightarrow> bytes res" where
  "openWrappedLocalState P k domain vaultId identity wrapped =
     and_then (canonicalLocalStorageContext vaultId identity) (\<lambda>ctx.
     unwrapInstallationBytes P k domain ctx wrapped)"

section \<open>Unwrapping returns what was wrapped\<close>

lemma indexedMap_ok:
  assumes "int (length vs) \<le> 2 ^ 53"
  shows "indexedMap vs = ok m \<longleftrightarrow> m = map (\<lambda>i. (KNum (int i), vs ! i)) [0..<length vs]"
  using assms by (auto simp: indexedMap_def canonicalMap_ok comp_def isSafeInteger_def distinct_map inj_on_def)

lemma decodeUint32_big_endian:
  assumes "0 \<le> v" "v < 2 ^ 32"
  shows "decodeUint32 (big_endian 4 v @ rest) = nat v"
proof -
  have b: "unat (word_of_int x :: byte) = nat (x mod 256)" for x
    by (simp add: unat_eq_nat_uint uint_word_of_int)
  have e: "(big_endian 4 v @ rest) ! i = word_of_int (v div 256 ^ (3 - i))" if "i < 4" for i
    using that by (simp add: big_endian_def nth_append)
  have "int (decodeUint32 (big_endian 4 v @ rest)) =
      2 ^ 24 * (v div 2 ^ 24 mod 256) + 2 ^ 16 * (v div 2 ^ 16 mod 256) + 2 ^ 8 * (v div 2 ^ 8 mod 256) + v mod 256"
    unfolding decodeUint32_def by (simp add: e b)
  also have "\<dots> = v"
  proof -
    define a b c where "a = v div 2 ^ 8" and "b = a div 2 ^ 8" and "c = b div 2 ^ 8"
    have d: "v div 2 ^ 16 = b" "v div 2 ^ 24 = c"
      by (simp_all add: a_def b_def c_def zdiv_zmult2_eq[symmetric])
    have "0 \<le> c" "c < 256" using assms by (auto simp: a_def b_def c_def)
    then have "c mod 256 = c" by simp
    moreover have "v = 256 * a + v mod 256" "a = 256 * b + a mod 256" "b = 256 * c + b mod 256"
      by (simp_all add: a_def b_def c_def)
    moreover have "v div 2 ^ 8 = a" by (simp add: a_def)
    ultimately show ?thesis unfolding d by simp
  qed
  finally show ?thesis using assms(1) by (metis nat_int)
qed

definition wrapped_map :: "string \<Rightarrow> bytes \<Rightarrow> bytes \<Rightarrow> cmap" where
  "wrapped_map domain ctx bs = [(KNum 0, CNum 1), (KNum 1, CText domain), (KNum 2, CBytes ctx), (KNum 3, CBytes bs)]"

lemma scoped_key_text:
  assumes "SCOPED_KEY d"
  shows "d \<noteq> []" "length d \<le> 128" "\<not> list_ex (prohibited_control opts) d"
proof -
  obtain c cs where d: "d = c # cs" "lower_letter c" "length cs \<le> 127" "scoped_tail cs"
    using assms by (auto simp: SCOPED_KEY_def split: list.splits)
  have tail: "scoped_tail cs \<Longrightarrow> x \<in> set cs \<Longrightarrow> lower_alnum x \<or> key_separator x" for x
    by (induction cs) auto
  have "lower_alnum x \<or> key_separator x" if "x \<in> set d" for x
    using that d tail[of x] by (auto simp: lower_alnum_def)
  then show "\<not> list_ex (prohibited_control opts) d"
    by (fastforce simp: list_ex_iff prohibited_control_def lower_alnum_def lower_letter_def key_separator_def)
  show "d \<noteq> []" "length d \<le> 128" using d by simp_all
qed

text \<open>What \<open>wrapInstallationBytes\<close> hands to AES-KW.\<close>

lemma wrapInstallationBytes_ok:
  assumes "wrapInstallationBytes P k entropy domain ctx bs None = ok w"
  obtains payload where "validateWrappingKey (wk_key k) = ok ()" "SCOPED_KEY domain" "CHR ''.'' \<in> set domain"
    "bs \<noteq> []" "length bs \<le> MAX_INSTALLATION_VALUE_BYTES"
    "canonical P (CMap (wrapped_map domain ctx bs))" "payload = cbor_encode P (CMap (wrapped_map domain ctx bs))"
    "length payload < 2 ^ 32" "16 \<le> 4 + length payload + length (entropy (padding_length (4 + length payload)))"
    "wk_wrap k (big_endian 4 (int (length payload)) @ payload @ entropy (padding_length (4 + length payload))) = ok w"
proof -
  have m: "canonicalMap [(0, CNum INSTALLATION_WRAPPED_VALUE_FORMAT), (1, CText domain), (2, CBytes ctx),
      (3, CBytes bs)] = ok (wrapped_map domain ctx bs)"
    by (simp add: canonicalMap_ok isSafeInteger_def wrapped_map_def INSTALLATION_WRAPPED_VALUE_FORMAT_def)
  let ?payload = "cbor_encode P (CMap (wrapped_map domain ctx bs))"
  have "validateWrappingKey (wk_key k) = ok () \<and> SCOPED_KEY domain \<and> CHR ''.'' \<in> set domain \<and>
      bs \<noteq> [] \<and> length bs \<le> MAX_INSTALLATION_VALUE_BYTES \<and> canonical P (CMap (wrapped_map domain ctx bs)) \<and>
      length ?payload < 2 ^ 32 \<and>
      16 \<le> 4 + length ?payload + length (entropy (padding_length (4 + length ?payload))) \<and>
      wk_wrap k (big_endian 4 (int (length ?payload)) @ ?payload @ entropy (padding_length (4 + length ?payload))) = ok w"
    using assms
    unfolding wrapInstallationBytes_def m and_then_Inr
    by (auto simp: and_then_eq_Inr encodeCanonicalValue_ok assertCanonicalScopedKey_ok Let_def uint32be_def
        not_less simp del: canonical.simps split: if_splits)
  then show thesis using that by blast
qed

lemma unwrap_payload:
  assumes "canonical P (CMap (wrapped_map domain ctx bs))" "SCOPED_KEY domain" "CHR ''.'' \<in> set domain"
    and "bs \<noteq> []" "length bs \<le> MAX_INSTALLATION_VALUE_BYTES"
    and "validateWrappingKey (wk_key k) = ok ()"
    and "payload = cbor_encode P (CMap (wrapped_map domain ctx bs))" "length payload < 2 ^ 32" "payload \<noteq> []"
    and "cbor_decode P payload = Inr (CMap (wrapped_map domain ctx bs))"
    and "wk_unwrap k w = ok (big_endian 4 (int (length payload)) @ payload @ pad)"
    and "24 \<le> length w" "length w mod 8 = 0" "length w \<le> MAX_INSTALLATION_VALUE_BYTES + 4096"
  shows "unwrapInstallationBytes P k domain' ctx' w = ok x \<longleftrightarrow> domain' = domain \<and> ctx' = ctx \<and> x = bs"
proof -
  let ?m = "wrapped_map domain ctx bs" and ?p = "big_endian 4 (int (length payload)) @ payload @ pad"
  have n: "decodeUint32 ?p = length payload"
    using decodeUint32_big_endian[of "int (length payload)" "payload @ pad"] assms(8) by simp
  have d: "decodeCanonicalValue P payload = ok (CMap ?m)"
    using assms(1,7,10) by (simp only: decodeCanonicalValue_ok)
  have fields: "exactMap (CMap ?m) (num_keys 4) f = ok ?m"
      "field_ok ?m 0 (\<lambda>v. exactCode v INSTALLATION_WRAPPED_VALUE_FORMAT f) = ok ()"
      "with_field ?m 1 (\<lambda>v. textValue v f (default_text\<lparr>maxUtf8Bytes := Some 256\<rparr>)) = ok domain"
      "with_field ?m 2 (\<lambda>v. variableBytes v f) = ok ctx" "with_field ?m 3 (\<lambda>v. variableBytes v f) = ok bs" for f
    using scoped_key_text[OF assms(2)]
    by (auto simp: schema_ok wrapped_map_def num_keys_def eval_nat_numeral variableBytes_def isSafeInteger_def
        INSTALLATION_WRAPPED_VALUE_FORMAT_def)
  have scoped: "assertCanonicalScopedKey domain = ok domain" using assms(2,3) by (simp add: assertCanonicalScopedKey_ok)
  have bounds: "\<not> (length w < 24 \<or> length w mod 8 \<noteq> 0 \<or> length w > MAX_INSTALLATION_VALUE_BYTES + 4096)"
    "\<not> length ?p < 4" "\<not> (length payload < 1 \<or> int (length payload) > int (length ?p) - 4)"
    "\<not> (length bs < 1 \<or> length bs > MAX_INSTALLATION_VALUE_BYTES)"
    using assms(4,5,9,12,13,14) by (auto simp: Suc_le_eq)
  show ?thesis
    unfolding unwrapInstallationBytes_def assms(6) assms(11) and_then_Inr Let_def n
    using assms(4,5,9,12,13,14)
    by (simp add: and_then_eq_Inr bounds d fields scoped) (auto simp: scoped)
qed

lemma padded_length: "(m + padding_length m) mod 8 = 0" "padding_length m < 8"
proof -
  show "(m + padding_length m) mod 8 = 0"
  proof (cases "m mod 8 = 0")
    case False
    then have "padding_length m = 8 - m mod 8" by (simp add: padding_length_def)
    moreover have "m = 8 * (m div 8) + m mod 8" "m mod 8 < 8" by simp_all
    moreover have "m + p = 8 * (q + 1)" if "p = 8 - r" "m = 8 * q + r" "r < 8" for p q r :: nat
      using that by simp
    ultimately have "m + padding_length m = 8 * (m div 8 + 1)" by blast
    then show ?thesis by (simp only: mod_mult_self1_is_0)
  qed (simp add: padding_length_def)
  show "padding_length m < 8" by (simp add: padding_length_def)
qed

text \<open>
  Local secrets come back only where they belong: bytes that \<open>wrapInstallationBytes\<close> protected
  are returned by \<open>unwrapInstallationBytes\<close> exactly under the domain and the context they were
  wrapped with, for an AES-KW that inverts itself and adds eight bytes, a strict decoder that
  reads the frame back, and a wrapped value within the size limit.
\<close>

theorem wrap_roundtrip:
  assumes w: "wrapInstallationBytes P k entropy domain ctx bs None = ok w"
    and aes: "\<And>p. wk_wrap k p = ok w \<Longrightarrow> wk_unwrap k w = ok p \<and> length w = length p + 8"
    and random: "\<And>n. length (entropy n) = n"
    and decoder: "cbor_decode P (cbor_encode P (CMap (wrapped_map domain ctx bs))) = Inr (CMap (wrapped_map domain ctx bs))"
    and fits: "length w \<le> MAX_INSTALLATION_VALUE_BYTES + 4096"
  shows "unwrapInstallationBytes P k domain' ctx' w = ok x \<longleftrightarrow> domain' = domain \<and> ctx' = ctx \<and> x = bs"
  using w
proof (rule wrapInstallationBytes_ok)
  fix payload
  assume h: "validateWrappingKey (wk_key k) = ok ()" "SCOPED_KEY domain" "CHR ''.'' \<in> set domain"
    "bs \<noteq> []" "length bs \<le> MAX_INSTALLATION_VALUE_BYTES"
    "canonical P (CMap (wrapped_map domain ctx bs))" "payload = cbor_encode P (CMap (wrapped_map domain ctx bs))"
    "length payload < 2 ^ 32" "16 \<le> 4 + length payload + length (entropy (padding_length (4 + length payload)))"
    "wk_wrap k (big_endian 4 (int (length payload)) @ payload @ entropy (padding_length (4 + length payload))) = ok w"
  note a = aes[OF h(10)]
  have l: "length w = 4 + length payload + padding_length (4 + length payload) + 8"
    using a random by simp
  have ne: "payload \<noteq> []" using h(9) padded_length(2)[of 4] random by (cases payload) auto
  have "24 \<le> length w" using l h(9) random by simp
  moreover have "length w mod 8 = 0" unfolding l mod_add_self2 by (rule padded_length(1))
  ultimately show ?thesis
    using unwrap_payload[OF h(6,2,3,4,5,1,7,8) ne _ a[THEN conjunct1]] decoder fits h(7) by simp
qed

section \<open>A value that can be wrapped and not unwrapped\<close>

text \<open>
  The limit of \<open>unwrapInstallationBytes\<close> leaves 4096 bytes for the frame, the context included,
  while \<open>wrapInstallationBytes\<close> admits a context of 4096 bytes besides a value of the maximal size.
\<close>

lemma length_cbor_map:
  "length (cbor_reference (CMap es)) = length (cbor_head 5 (length es)) +
     sum_list (map (\<lambda>e. length (cbor_key (fst e)) + length (cbor_reference (snd e))) es)"
proof -
  let ?l = "map (\<lambda>e. (cbor_key (fst e), cbor_reference (snd e))) es"
  have "sum_list (map (\<lambda>e. length (fst e @ snd e)) (sort_by (\<lambda>l r. compareBytes (fst l) (fst r)) ?l)) =
      sum_list (map (\<lambda>e. length (fst e @ snd e)) ?l)"
    by (simp only: sum_mset_sum_list[symmetric] mset_map mset_sort_by)
  then show ?thesis by (simp add: length_concat comp_def)
qed

definition demo_wrapping_key :: wrapping_key where
  "demo_wrapping_key =
     \<lparr>wk_key = \<lparr>ck_extractable = False, ck_algorithm = ''AES-KW'', ck_usages = [''wrapKey'', ''unwrapKey'']\<rparr>,
      wk_wrap = (\<lambda>p. ok (replicate 8 0 @ p)), wk_unwrap = (\<lambda>w. ok (drop 8 w))\<rparr>"

lemma length_cbor_head: "n < 2 ^ 32 \<Longrightarrow> 1 \<le> length (cbor_head m n)" "n < 2 ^ 32 \<Longrightarrow> length (cbor_head m n) \<le> 5"
  by (simp_all add: cbor_head_def Let_def)

lemma wrapped_length:
  assumes "length ctx = 4096" "length bs = MAX_INSTALLATION_VALUE_BYTES" "length domain < 2 ^ 32"
  shows "MAX_INSTALLATION_VALUE_BYTES + 4096 < length (cbor_reference (CMap (wrapped_map domain ctx bs)))"
    "length (cbor_reference (CMap (wrapped_map domain ctx bs))) \<le> MAX_INSTALLATION_VALUE_BYTES + 4196 + length domain"
proof -
  let ?h = "\<lambda>m n. length (cbor_head m n)"
  have e: "length (cbor_reference (CMap (wrapped_map domain ctx bs))) =
      ?h 5 4 + (?h 0 0 + ?h 0 1) + (?h 0 1 + (?h 3 (length domain) + length domain)) +
      (?h 0 2 + (?h 2 4096 + 4096)) + (?h 0 3 + (?h 2 (length bs) + length bs))"
    unfolding length_cbor_map
    using assms(1) by (simp add: wrapped_map_def cbor_int_def utf8_def) (simp add: eval_nat_numeral)
  have b: "length bs < 2 ^ 32" using assms(2) by (simp add: MAX_INSTALLATION_VALUE_BYTES_def)
  have c: "1 \<le> ?h 5 4" by (rule length_cbor_head) simp
  have d: "?h 5 4 \<le> 5" "?h 0 0 \<le> 5" "?h 0 1 \<le> 5" "?h 0 2 \<le> 5" "?h 0 3 \<le> 5" "?h 2 4096 \<le> 5"
    "?h 3 (length domain) \<le> 5" "?h 2 (length bs) \<le> 5"
    using assms(3) b by (intro length_cbor_head(2); simp)+
  show "MAX_INSTALLATION_VALUE_BYTES + 4096 < length (cbor_reference (CMap (wrapped_map domain ctx bs)))"
    "length (cbor_reference (CMap (wrapped_map domain ctx bs))) \<le> MAX_INSTALLATION_VALUE_BYTES + 4196 + length domain"
    unfolding e using c d assms(2) by linarith+
qed

lemma wrapped_not_unwrapped:
  assumes "length ctx = 4096" "length bs = MAX_INSTALLATION_VALUE_BYTES"
  shows "\<exists>w. wrapInstallationBytes ref_platform demo_wrapping_key (\<lambda>n. replicate n 0) ''a.b'' ctx bs None = ok w \<and>
    unwrapInstallationBytes ref_platform demo_wrapping_key ''a.b'' ctx w =
      throw (TypeError ''Wrapped installation value is outside the accepted bounds'')"
proof -
  let ?p = "cbor_reference (CMap (wrapped_map ''a.b'' ctx bs))"
  let ?w = "replicate 8 0 @ big_endian 4 (int (length ?p)) @ ?p @ replicate (padding_length (4 + length ?p)) 0"
  have m: "canonicalMap [(0, CNum INSTALLATION_WRAPPED_VALUE_FORMAT), (1, CText ''a.b''), (2, CBytes ctx),
      (3, CBytes bs)] = ok (wrapped_map ''a.b'' ctx bs)"
    by (simp add: canonicalMap_ok isSafeInteger_def wrapped_map_def INSTALLATION_WRAPPED_VALUE_FORMAT_def)
  have e: "encodeCanonicalValue ref_platform (CMap (wrapped_map ''a.b'' ctx bs)) = ok ?p"
    by (simp add: encodeCanonicalValue_ok del: cbor_reference.simps)
      (simp add: wrapped_map_def isSafeInteger_def)
  have l: "MAX_INSTALLATION_VALUE_BYTES + 4096 < length ?p" "length ?p \<le> MAX_INSTALLATION_VALUE_BYTES + 4196 + 3"
    using wrapped_length[OF assms, of "''a.b''"] by simp_all
  have u: "uint32be (int (length ?p)) = ok (big_endian 4 (int (length ?p)))"
    using l(2) by (simp add: uint32be_def isSafeInteger_def MAX_INSTALLATION_VALUE_BYTES_def del: cbor_reference.simps)
  have k: "validateWrappingKey (wk_key demo_wrapping_key) = ok ()" "assertCanonicalScopedKey ''a.b'' = ok ''a.b''"
    by (simp_all add: validateWrappingKey_def demo_wrapping_key_def assertCanonicalScopedKey_ok SCOPED_KEY_def
        lower_letter_def lower_alnum_def key_separator_def)
  have bounds: "\<not> (length bs < 1 \<or> length bs > MAX_INSTALLATION_VALUE_BYTES)" "\<not> length ctx > 4096"
    using assms by (auto simp: MAX_INSTALLATION_VALUE_BYTES_def)
  have "wrapInstallationBytes ref_platform demo_wrapping_key (\<lambda>n. replicate n 0) ''a.b'' ctx bs None = ok ?w"
    unfolding wrapInstallationBytes_def k and_then_Inr m e Let_def u option.case
    using bounds l(1) by (simp add: demo_wrapping_key_def del: cbor_reference.simps)
  moreover have "MAX_INSTALLATION_VALUE_BYTES + 4096 < length ?w" using l(1) by (simp del: cbor_reference.simps)
  then have "unwrapInstallationBytes ref_platform demo_wrapping_key ''a.b'' ctx ?w =
      throw (TypeError ''Wrapped installation value is outside the accepted bounds'')"
    unfolding unwrapInstallationBytes_def k and_then_Inr by (simp only: guard_not_simps simp_thms and_then_Inl)
  ultimately show ?thesis by blast
qed

end
