(* ===== verification/Collection_Service.thy ===== *)
theory Collection_Service
  imports Reachability Collection_Job Local_State
begin

text \<open>
  Local Garbage Collection as it runs (\<open>runtime/storage/garbage-collection-service.ts\<close> and the
  inventory of \<open>garbage-collection-inventory.ts\<close>): planning, the commit that deletes the compact
  items and fences the Artifacts, the claim of the Job, the removal of the stored bytes and the commit
  that ends the Job. A run is an action on the database and the Artifact store, so that what was
  committed before an exception stays. The lemmas show that a cleanup that was interrupted anywhere
  between the fence and its last commit is completed by the next run.
\<close>

section \<open>State\<close>

text \<open>The Artifact store holds the stored bytes by their Storage Item ID.\<close>

record world =
  w_db :: database
  w_artifacts :: "bytes list"

record opened_vault =
  ov_replicaState :: replica_state
  ov_storageBytes :: bytes
  ov_wrappingKey :: wrapping_key

record gc_inventory =
  iv_resolutions :: "logical_resolution list"
  iv_compactItems :: "compact_item list"
  iv_epochSecretIds :: "bytes list"

record collection_outcome =
  oc_counts :: terminal_outcome
  oc_removedArtifactStorageItemIds :: "bytes list"

text \<open>
  The fields of the service: what the constructor takes from its dependencies. \<open>gs_replay\<close> is
  \<open>CanonicalReplayService.replay\<close>; the trace, the inventory and the wrapping of the Replica state
  can be injected and default to the functions below.
\<close>

record gc_service =
  gs_platform :: platform
  gs_realm :: storage_realm
  gs_collate :: "string comparer"
  gs_replay :: "database \<Rightarrow> bytes \<Rightarrow> opened_vault res"
  gs_collectReachability :: "database \<Rightarrow> opened_vault \<Rightarrow> reachability res"
  gs_loadInventory :: "database \<Rightarrow> opened_vault \<Rightarrow> gc_inventory res"
  gs_wrapReplicaState :: "replica_state \<Rightarrow> opened_vault \<Rightarrow> namespace_bytes res"

definition leaseDurationMs :: int where "leaseDurationMs = 30000"

section \<open>Actions\<close>

type_synonym 'a action = "world \<Rightarrow> 'a res \<times> world"

definition bind_action :: "'a action \<Rightarrow> ('a \<Rightarrow> 'b action) \<Rightarrow> 'b action" where
  "bind_action m f w = (case m w of (Inl e, w') \<Rightarrow> (Inl e, w') | (Inr x, w') \<Rightarrow> f x w')"

definition lift_action :: "'a res \<Rightarrow> 'a action" where
  "lift_action r w = (r, w)"

definition commit_action :: "replica_mutation_commit \<Rightarrow> unit action" where
  "commit_action c w =
     (case commitReplicaMutation c (w_db w) of
        Inl e \<Rightarrow> (Inl e, w)
      | Inr db' \<Rightarrow> (Inr (), w\<lparr>w_db := db'\<rparr>))"

definition remove_action :: "bytes \<Rightarrow> unit action" where
  "remove_action storageItemId w = (Inr (), w\<lparr>w_artifacts := filter (\<lambda>i. i \<noteq> storageItemId) (w_artifacts w)\<rparr>)"

primrec each_action :: "('a \<Rightarrow> unit action) \<Rightarrow> 'a list \<Rightarrow> unit action" where
  "each_action f [] = lift_action (Inr ())"
| "each_action f (x # xs) = bind_action (f x) (\<lambda>_. each_action f xs)"

section \<open>Inventory\<close>

definition COMPACT_NAMESPACES :: "(string \<times> nat \<times> identifier_kind) list" where
  "COMPACT_NAMESPACES =
     [(ns_key vaultRecord, 1, VaultRecordId), (ns_key keyEnvelope, 2, KeyEnvelopeId),
      (ns_key vaultObject, 3, VaultObjectId), (ns_key featureManifest, 4, FeatureManifestId)]"

text \<open>\<open>/^(?<kind>[1-5]):(?<logicalId>[0-9a-f]{64})$/u\<close>\<close>

definition resolution_item_key :: "string \<Rightarrow> (nat \<times> string) option" where
  "resolution_item_key s =
     (case s of
        k # c # rest \<Rightarrow>
          (case hex_digit k of
             Some n \<Rightarrow>
               (if 1 \<le> n \<and> n \<le> 5 \<and> c = CHR '':'' \<and> length rest = 64 \<and> list_all (\<lambda>d. hex_digit d \<noteq> None) rest
                then Some (n, rest) else None)
           | None \<Rightarrow> None)
      | _ \<Rightarrow> None)"

definition inventory_resolution ::
  "platform \<Rightarrow> opened_vault \<Rightarrow> namespace_bytes \<Rightarrow> logical_resolution res" where
  "inventory_resolution P vault item =
     (case resolution_item_key (it_itemKey item) of
        None \<Rightarrow> throw (TypeError ''Logical Resolution storage key is invalid'')
      | Some (kind, hex) \<Rightarrow>
          and_then (identifierFromStorageKey VaultRecordId hex) (\<lambda>logicalId.
          and_then (openWrappedLocalState P (ov_wrappingKey vault) ''awsm.local.logical-resolution''
            (rs_vaultId (ov_replicaState vault)) logicalId (it_bytes item)) (\<lambda>plaintext.
          and_then (decodeLogicalResolution P plaintext) (\<lambda>resolution.
          and_then (same_bytes (lr_vaultId resolution) (rs_vaultId (ov_replicaState vault))
            ''Logical Resolution Vault ID'') (\<lambda>_.
          and_then (guard_not (lr_kind resolution \<noteq> kind)
            (TypeError ''Logical Resolution kind does not match its storage key'')) (\<lambda>_.
          and_then (same_bytes (lr_logicalId resolution) logicalId ''Logical Resolution identity'') (\<lambda>_.
          ok resolution)))))))"

definition loadReplicaGarbageCollectionInventory ::
  "platform \<Rightarrow> storage_realm \<Rightarrow> string comparer \<Rightarrow> database \<Rightarrow> opened_vault \<Rightarrow> gc_inventory res" where
  "loadReplicaGarbageCollectionInventory P realm collate db vault =
     (let vaultKey = key (rs_vaultId (ov_replicaState vault)) in
      and_then (listBytes collate realm (ns_key logicalResolution) vaultKey db) (\<lambda>storedResolutions.
      and_then (traverse (inventory_resolution P vault) storedResolutions) (\<lambda>resolutions.
      and_then (traverse (\<lambda>(ns, kind, idKind).
          and_then (listBytes collate realm ns vaultKey db) (\<lambda>items.
          traverse (\<lambda>item. and_then (identifierFromStorageKey idKind (it_itemKey item)) (\<lambda>i.
            ok \<lparr>ci_kind = kind, ci_logicalId = i\<rparr>)) items)) COMPACT_NAMESPACES) (\<lambda>compact.
      and_then (listBytes collate realm (ns_key epochSecret) vaultKey db) (\<lambda>secrets.
      and_then (traverse (\<lambda>item. identifierFromStorageKey KeyEpochId (it_itemKey item)) secrets) (\<lambda>epochs.
      ok \<lparr>iv_resolutions = sortLogical lr_kind lr_logicalId resolutions,
          iv_compactItems = sortLogical ci_kind ci_logicalId (concat compact),
          iv_epochSecretIds = sort_by compareBytes epochs\<rparr>))))))"

section \<open>Defaults of the service\<close>

definition decodeRecord :: "platform \<Rightarrow> bytes \<Rightarrow> vault_record res" where
  "decodeRecord P bs =
     and_then (decodeCanonicalValue P bs) (\<lambda>value.
     case value of
       CMap m \<Rightarrow>
         (if mapGet m (KNum 6) = Some (CNum 1) then and_then (decodeVaultEvent P bs) (\<lambda>e. ok (EventRecord e))
          else if mapGet m (KNum 6) = Some (CNum 2)
          then and_then (decodeVaultBaseline P bs) (\<lambda>b. ok (BaselineRecord b))
          else throw (TypeError ''Garbage Collection Record kind is unsupported''))
     | _ \<Rightarrow> throw (TypeError ''Garbage Collection Record is not a map''))"

text \<open>
  \<open>open_item kind id namespace payloadType\<close> is \<open>CanonicalVaultService.openResolvedCompactItem\<close> on
  the opened Vault; the maps of the source only avoid opening an item twice.
\<close>

definition reachabilityInput ::
  "platform \<Rightarrow> (nat \<Rightarrow> bytes \<Rightarrow> string \<Rightarrow> nat \<Rightarrow> bytes res) \<Rightarrow> bytes \<Rightarrow> replica_state \<Rightarrow> gc_reach_input" where
  "reachabilityInput P open_item vaultId state =
     \<lparr>gr_vaultId = vaultId, gr_generationId = rs_generationId state,
      gr_requiredFeatureSetId = rs_requiredFeatureSetId state, gr_baselineId = rs_baselineId state,
      gr_causalFrontier = rs_causalFrontier state, gr_authorityFrontier = rs_authorityFrontier state,
      gr_continuityRecordIds = rs_continuityRecordIds state,
      gr_preservationRoots = rs_preservationRoots state, gr_adopted = (rs_adoption state \<noteq> None),
      gr_loadRecord = (\<lambda>i.
        and_then (open_item 1 i (ns_key vaultRecord) 1) (\<lambda>payload.
        and_then (decodeRecord P payload) (\<lambda>record.
        and_then (same_bytes (vr_recordId record) i ''Garbage Collection Record ID'') (\<lambda>_. ok (Some record))))),
      gr_loadObject = (\<lambda>i.
        and_then (open_item 3 i (ns_key vaultObject) 2) (\<lambda>payload.
        and_then (decodeVaultObject P payload) (\<lambda>object.
        and_then (same_bytes (ob_objectId object) i ''Garbage Collection Object ID'') (\<lambda>_. ok (Some object))))),
      gr_loadFeatureManifest = Some (\<lambda>i.
        and_then (open_item 4 i (ns_key featureManifest) 3) (\<lambda>payload. ok (Some payload)))\<rparr>"

definition wrapReplicaState ::
  "platform \<Rightarrow> (nat \<Rightarrow> bytes) \<Rightarrow> replica_state \<Rightarrow> opened_vault \<Rightarrow> namespace_bytes res" where
  "wrapReplicaState P entropy state vault =
     and_then (canonicalLocalStorageContext (rs_vaultId state) (rs_generationId state)) (\<lambda>ctx.
     and_then (encodeCanonicalReplicaState P state) (\<lambda>bs.
     prepareWrappedLocalStateItem P (ov_wrappingKey vault) entropy
       \<lparr>it_namespace = ns_key replicaState, it_scopeKey = key (rs_vaultId state), it_itemKey = ''current''\<rparr>
       ''awsm.local.replica-state'' ctx bs))"

section \<open>Jobs\<close>

definition stored_job :: "gc_service \<Rightarrow> bytes \<Rightarrow> namespace_bytes \<Rightarrow> (namespace_bytes \<times> gc_job) res" where
  "stored_job S vaultId item =
     and_then (decodeReplicaGarbageCollectionJob (gs_platform S) (it_bytes item)) (\<lambda>job.
     and_then (same_bytes (job_vaultId job) vaultId ''Garbage Collection Job Vault ID'') (\<lambda>_.
     if it_itemKey item \<noteq> jobId job
     then throw (TypeError ''Garbage Collection Job storage identity does not match'')
     else ok (item, job)))"

definition list_jobs :: "gc_service \<Rightarrow> bytes \<Rightarrow> database \<Rightarrow> namespace_bytes list res" where
  "list_jobs S vaultId db =
     listBytes (gs_collate S) (gs_realm S) (ns_key replicaGarbageCollectionJob) (key vaultId) db"

definition loadTerminalJobs :: "gc_service \<Rightarrow> bytes \<Rightarrow> database \<Rightarrow> namespace_bytes list res" where
  "loadTerminalJobs S vaultId db =
     and_then (list_jobs S vaultId db) (\<lambda>items.
     and_then (traverse (\<lambda>item.
       and_then (stored_job S vaultId item) (\<lambda>(item, job).
       if job_state job \<noteq> 3
       then throw (CodedError ''GARBAGE_COLLECTION_FENCED''
         ''Garbage Collection has an active Job without its safety fences.'')
       else ok item)) items) (\<lambda>jobs.
     if length jobs > 1
     then throw (CodedError ''GARBAGE_COLLECTION_FENCED''
       ''Garbage Collection has multiple terminal Jobs for one Vault.'')
     else ok jobs))"

definition cleanupJob ::
  "platform \<Rightarrow> bytes \<Rightarrow> gc_plan \<Rightarrow> int \<Rightarrow> string \<Rightarrow> gc_job option res" where
  "cleanupJob P vaultId plan now newJobId =
     (if length (artifactCleanupCandidates plan) = 0 then ok None
      else and_then (replicaGarbageCollectionIdempotencyKey P vaultId (artifactCleanupCandidates plan)) (\<lambda>k.
        ok (Some \<lparr>jobId = newJobId, job_vaultId = vaultId, idempotencyKey = k, createdAtMs = now,
          job_state = 1, job_stage = 1, attempt = 0, lease = None, cancellationRequested = False,
          compactOutcome = \<lparr>co_removedCompactItemCount = int (length (deleteCompactItems plan)),
            co_removedResolutionCount = int (length (deleteResolutions plan)),
            co_removedEpochSecretCount = int (length (deleteEpochSecretIds plan))\<rparr>,
          terminalOutcome = None, job_candidates = artifactCleanupCandidates plan\<rparr>)))"

definition candidate_fence :: "artifact_candidate \<Rightarrow> gc_fence" where
  "candidate_fence c = \<lparr>fence_artifactId = ca_artifactId c, fence_storageItemId = ca_storageItemId c\<rparr>"

definition fenceKey :: "gc_fence \<Rightarrow> string" where
  "fenceKey f = key (fence_artifactId f) @ '':'' @ key (fence_storageItemId f)"

definition physical_ids :: "string comparer \<Rightarrow> gc_job \<Rightarrow> bytes list" where
  "physical_ids collate job =
     sort_by (\<lambda>left right. collate (key left) (key right))
       (mapValues (mapFrom (map (\<lambda>c. (key (ca_storageItemId c), ca_storageItemId c)) (job_candidates job))))"

section \<open>Cleanup\<close>

definition planned_candidate :: "gc_plan \<Rightarrow> artifact_candidate \<Rightarrow> bool" where
  "planned_candidate plan candidate =
     (case mapGet (mapFrom (map (\<lambda>c. (key (ca_artifactId c), c)) (artifactCleanupCandidates plan)))
         (key (ca_artifactId candidate)) of
        None \<Rightarrow> False
      | Some planned \<Rightarrow>
          bytesEqual (ca_storageItemId planned) (ca_storageItemId candidate) \<and>
          bytesEqual (ca_keyEpochId planned) (ca_keyEpochId candidate))"

definition cleanup_checks :: "opened_vault \<Rightarrow> gc_job \<Rightarrow> gc_plan \<Rightarrow> int \<Rightarrow> unit res" where
  "cleanup_checks vault job plan now =
     checks
       [guard_not (sort (map fenceKey (rs_garbageCollectionFences (ov_replicaState vault))) \<noteq>
            sort (map (\<lambda>c. fenceKey (candidate_fence c)) (job_candidates job)))
          (CodedError ''GARBAGE_COLLECTION_FENCED'' ''Garbage Collection Job candidates do not match its fences.''),
        guard_not (list_ex (\<lambda>c. \<not> planned_candidate plan c) (job_candidates job))
          (CodedError ''GARBAGE_COLLECTION_CONTEXT_CHANGED''
            ''Garbage Collection cleanup identity is no longer unreachable.''),
        guard_not (job_state job = 2 \<and> (case lease job of None \<Rightarrow> False | Some l \<Rightarrow> expiresAtMs l > now))
          (CodedError ''GARBAGE_COLLECTION_BUSY'' ''Replica Garbage Collection is already running.'')]"

definition running_job :: "gc_job \<Rightarrow> int \<Rightarrow> string \<Rightarrow> gc_job" where
  "running_job job now owner =
     job\<lparr>job_state := 2, attempt := attempt job + 1,
       lease := Some \<lparr>ownerId = owner, expiresAtMs = now + leaseDurationMs\<rparr>, terminalOutcome := None\<rparr>"

definition job_item :: "bytes \<Rightarrow> string \<Rightarrow> bytes \<Rightarrow> namespace_bytes" where
  "job_item vaultId i bs =
     \<lparr>it_namespace = ns_key replicaGarbageCollectionJob, it_scopeKey = key vaultId, it_itemKey = i, it_bytes = bs\<rparr>"

definition replica_item :: "bytes \<Rightarrow> bytes \<Rightarrow> namespace_bytes" where
  "replica_item vaultId bs =
     \<lparr>it_namespace = ns_key replicaState, it_scopeKey = key vaultId, it_itemKey = ''current'', it_bytes = bs\<rparr>"

definition claim_commit ::
  "gc_service \<Rightarrow> bytes \<Rightarrow> opened_vault \<Rightarrow> gc_job \<Rightarrow> bytes \<Rightarrow> bytes \<Rightarrow> replica_mutation_commit" where
  "claim_commit S vaultId vault job jobBytes runningBytes =
     \<lparr>rm_realm = gs_realm S, rm_expectedReplicaState = ov_storageBytes vault, rm_expectedAbsentItems = [],
      rm_expectedMutableItems = [job_item vaultId (jobId job) jobBytes],
      rm_nextReplicaState = replica_item vaultId (ov_storageBytes vault), rm_immutableItems = [],
      rm_mutableItems = [job_item vaultId (jobId job) runningBytes], rm_deletedItems = []\<rparr>"

definition retained_epochs :: "opened_vault \<Rightarrow> gc_job \<Rightarrow> gc_inventory \<Rightarrow> logical_resolution list \<Rightarrow> string set" where
  "retained_epochs vault job inventory removed =
     (let candidateArtifactKeys = set (map (\<lambda>c. key (ca_artifactId c)) (job_candidates job));
          compactResolutionKeys = set (map (\<lambda>r. logicalKey (lr_kind r) (lr_logicalId r)) removed) in
      insert (key (rs_currentKeyEpochId (ov_replicaState vault)))
        (set (map (\<lambda>r. key (lr_keyEpochId r))
          (filter (\<lambda>r. \<not> (logicalKey (lr_kind r) (lr_logicalId r) \<in> compactResolutionKeys \<or>
              lr_kind r = 5 \<and> key (lr_logicalId r) \<in> candidateArtifactKeys)) (iv_resolutions inventory)))))"

definition final_epochs ::
  "opened_vault \<Rightarrow> gc_job \<Rightarrow> gc_inventory \<Rightarrow> logical_resolution list \<Rightarrow> bytes list \<Rightarrow> bytes list" where
  "final_epochs vault job inventory removed removedEpochs =
     filter (\<lambda>e. key e \<in> set (map (\<lambda>c. key (ca_keyEpochId c)) (job_candidates job)) \<and>
         key e \<notin> retained_epochs vault job inventory removed \<and> key e \<notin> set (map key removedEpochs))
       (iv_epochSecretIds inventory)"

definition cleanup_outcome :: "string comparer \<Rightarrow> gc_job \<Rightarrow> bytes list \<Rightarrow> terminal_outcome" where
  "cleanup_outcome collate job epochs =
     \<lparr>to_removedCompactItemCount = co_removedCompactItemCount (compactOutcome job),
      to_removedResolutionCount = co_removedResolutionCount (compactOutcome job) + int (length (job_candidates job)),
      to_removedEpochSecretCount = co_removedEpochSecretCount (compactOutcome job) + int (length epochs),
      to_removedArtifactCount = int (length (physical_ids collate job))\<rparr>"

definition cleanup_deletions :: "bytes \<Rightarrow> gc_job \<Rightarrow> bytes list \<Rightarrow> storage_item list" where
  "cleanup_deletions vaultId job epochs =
     map (\<lambda>c. \<lparr>it_namespace = ns_key logicalResolution, it_scopeKey = key vaultId,
       it_itemKey = ''5:'' @ key (ca_artifactId c)\<rparr>) (job_candidates job) @
     map (\<lambda>e. \<lparr>it_namespace = ns_key epochSecret, it_scopeKey = key vaultId, it_itemKey = key e\<rparr>) epochs"

definition finish_commit ::
  "gc_service \<Rightarrow> bytes \<Rightarrow> opened_vault \<Rightarrow> gc_job \<Rightarrow> bytes \<Rightarrow> bytes \<Rightarrow> namespace_bytes \<Rightarrow> bytes list \<Rightarrow>
     replica_mutation_commit" where
  "finish_commit S vaultId vault job runningBytes succeededBytes next epochs =
     \<lparr>rm_realm = gs_realm S, rm_expectedReplicaState = ov_storageBytes vault, rm_expectedAbsentItems = [],
      rm_expectedMutableItems = [job_item vaultId (jobId job) runningBytes],
      rm_nextReplicaState = next, rm_immutableItems = [],
      rm_mutableItems = [job_item vaultId (jobId job) succeededBytes],
      rm_deletedItems = cleanup_deletions vaultId job epochs\<rparr>"

definition runCleanup ::
  "gc_service \<Rightarrow> bytes \<Rightarrow> opened_vault \<Rightarrow> gc_job \<Rightarrow> bytes \<Rightarrow> gc_inventory \<Rightarrow> gc_plan \<Rightarrow>
     logical_resolution list \<Rightarrow> bytes list \<Rightarrow> int \<Rightarrow> string \<Rightarrow> collection_outcome action" where
  "runCleanup S vaultId vault job jobBytes inventory plan removed removedEpochs now owner =
     (let physicalIds = physical_ids (gs_collate S) job; running = running_job job now owner in
      bind_action (lift_action (cleanup_checks vault job plan now)) (\<lambda>_.
      bind_action (lift_action (encodeReplicaGarbageCollectionJob (gs_platform S) running)) (\<lambda>runningBytes.
      bind_action (commit_action (claim_commit S vaultId vault job jobBytes runningBytes)) (\<lambda>_.
      bind_action (each_action remove_action physicalIds) (\<lambda>_.
      let epochs = final_epochs vault job inventory removed removedEpochs in
      bind_action (lift_action (gs_wrapReplicaState S
        ((ov_replicaState vault)\<lparr>rs_garbageCollectionFences := []\<rparr>) vault)) (\<lambda>next.
      let outcome = cleanup_outcome (gs_collate S) job epochs;
          succeeded = running\<lparr>job_state := 3, lease := None, terminalOutcome := Some outcome\<rparr> in
      bind_action (lift_action (encodeReplicaGarbageCollectionJob (gs_platform S) succeeded)) (\<lambda>succeededBytes.
      bind_action (commit_action (finish_commit S vaultId vault job runningBytes succeededBytes next epochs)) (\<lambda>_.
      lift_action (ok \<lparr>oc_counts = outcome, oc_removedArtifactStorageItemIds = physicalIds\<rparr>)))))))))"

definition plan_for :: "opened_vault \<Rightarrow> reachability \<Rightarrow> gc_inventory \<Rightarrow> gc_plan res" where
  "plan_for vault reachable inventory =
     planReplicaGarbageCollection
       \<lparr>currentKeyEpochId = rs_currentKeyEpochId (ov_replicaState vault), gi_reachability = reachable,
        gi_resolutions = iv_resolutions inventory, gi_compactItems = iv_compactItems inventory,
        gi_epochSecretIds = iv_epochSecretIds inventory\<rparr>"

definition resumeCleanup ::
  "gc_service \<Rightarrow> bytes \<Rightarrow> opened_vault \<Rightarrow> int \<Rightarrow> string \<Rightarrow> collection_outcome action" where
  "resumeCleanup S vaultId vault now owner w =
     bind_action (lift_action (and_then (list_jobs S vaultId (w_db w)) (traverse (stored_job S vaultId)))) (\<lambda>decodedJobs.
     let activeJobs = filter (\<lambda>(item, job). job_state job \<noteq> 3) decodedJobs in
     bind_action (lift_action (guard_not (length activeJobs \<noteq> 1 \<or> length decodedJobs \<noteq> 1)
       (CodedError ''GARBAGE_COLLECTION_FENCED''
         ''Garbage Collection fences do not have one resumable local Job.''))) (\<lambda>_.
     let (item, job) = hd activeJobs in
     bind_action (lift_action (gs_collectReachability S (w_db w) vault)) (\<lambda>reachable.
     bind_action (lift_action (gs_loadInventory S (w_db w) vault)) (\<lambda>inventory.
     bind_action (lift_action (plan_for vault reachable inventory)) (\<lambda>plan.
     runCleanup S vaultId vault job (it_bytes item) inventory plan [] [] now owner))))) w"

section \<open>Collection\<close>

definition compactNamespace :: "nat \<Rightarrow> string" where
  "compactNamespace kind =
     (if kind = 1 then ns_key vaultRecord else if kind = 2 then ns_key keyEnvelope
      else if kind = 3 then ns_key vaultObject else if kind = 4 then ns_key featureManifest
      else ''undefined'')"

definition plan_deletions :: "bytes \<Rightarrow> gc_plan \<Rightarrow> storage_item list" where
  "plan_deletions vaultId plan =
     (let vaultKey = key vaultId in
      map (\<lambda>item. \<lparr>it_namespace = compactNamespace (ci_kind item), it_scopeKey = vaultKey,
        it_itemKey = key (ci_logicalId item)\<rparr>) (deleteCompactItems plan) @
      map (\<lambda>r. \<lparr>it_namespace = ns_key logicalResolution, it_scopeKey = vaultKey,
        it_itemKey = nat_str (lr_kind r) @ '':'' @ key (lr_logicalId r)\<rparr>) (deleteResolutions plan) @
      map (\<lambda>e. \<lparr>it_namespace = ns_key epochSecret, it_scopeKey = vaultKey, it_itemKey = key e\<rparr>)
        (deleteEpochSecretIds plan))"

definition install_commit ::
  "gc_service \<Rightarrow> bytes \<Rightarrow> opened_vault \<Rightarrow> gc_plan \<Rightarrow> namespace_bytes list \<Rightarrow> namespace_bytes \<Rightarrow>
     (gc_job \<times> bytes) option \<Rightarrow> replica_mutation_commit" where
  "install_commit S vaultId vault plan priorTerminalJobs next job =
     \<lparr>rm_realm = gs_realm S, rm_expectedReplicaState = ov_storageBytes vault, rm_expectedAbsentItems = [],
      rm_expectedMutableItems = priorTerminalJobs, rm_nextReplicaState = next, rm_immutableItems = [],
      rm_mutableItems = (case job of None \<Rightarrow> [] | Some (j, bs) \<Rightarrow> [job_item vaultId (jobId j) bs]),
      rm_deletedItems = plan_deletions vaultId plan @ map identity_of priorTerminalJobs\<rparr>"

text \<open>
  \<open>newJobId\<close> and \<open>owner\<close> are the values of the two calls of \<open>randomUuid\<close>, \<open>created\<close> and \<open>now\<close> those of
  the two calls of \<open>now\<close>.
\<close>

definition collect ::
  "gc_service \<Rightarrow> bytes \<Rightarrow> int \<Rightarrow> int \<Rightarrow> string \<Rightarrow> string \<Rightarrow> collection_outcome action" where
  "collect S vaultId created now newJobId owner w =
     bind_action (lift_action (gs_replay S (w_db w) vaultId)) (\<lambda>vault.
     bind_action (lift_action (same_bytes (rs_vaultId (ov_replicaState vault)) vaultId
       ''Garbage Collection Vault ID'')) (\<lambda>_.
     if length (rs_garbageCollectionFences (ov_replicaState vault)) > 0
     then resumeCleanup S vaultId vault now owner
     else
       bind_action (lift_action (loadTerminalJobs S vaultId (w_db w))) (\<lambda>terminalJobs.
       bind_action (lift_action (gs_collectReachability S (w_db w) vault)) (\<lambda>reachable.
       bind_action (lift_action (gs_loadInventory S (w_db w) vault)) (\<lambda>inventory.
       bind_action (lift_action (plan_for vault reachable inventory)) (\<lambda>plan.
       bind_action (lift_action (cleanupJob (gs_platform S) vaultId plan created newJobId)) (\<lambda>job.
       let fenced = (ov_replicaState vault)\<lparr>rs_garbageCollectionFences :=
             map candidate_fence (artifactCleanupCandidates plan)\<rparr> in
       bind_action (lift_action (case job of
           None \<Rightarrow> ok (replica_item vaultId (ov_storageBytes vault))
         | Some _ \<Rightarrow> gs_wrapReplicaState S fenced vault)) (\<lambda>next.
       bind_action (lift_action (case job of
           None \<Rightarrow> ok None
         | Some j \<Rightarrow> and_then (encodeReplicaGarbageCollectionJob (gs_platform S) j) (\<lambda>bs. ok (Some (j, bs)))))
         (\<lambda>job.
       bind_action (lift_action (guard_not (case job of None \<Rightarrow> False
           | Some (j, _) \<Rightarrow> list_ex (\<lambda>item. it_itemKey item = jobId j) terminalJobs)
         (TypeError ''Garbage Collection Job identity collides with retained state''))) (\<lambda>_.
       let prior = (case job of None \<Rightarrow> [] | Some _ \<Rightarrow> terminalJobs) in
       bind_action (if plan_deletions vaultId plan \<noteq> [] \<or> job \<noteq> None
         then commit_action (install_commit S vaultId vault plan prior next job)
         else lift_action (ok ())) (\<lambda>_.
       case job of
         Some (j, bs) \<Rightarrow>
           runCleanup S vaultId (vault\<lparr>ov_replicaState := fenced, ov_storageBytes := it_bytes next\<rparr>) j bs
             inventory plan (deleteResolutions plan) (deleteEpochSecretIds plan) now owner
       | None \<Rightarrow>
           lift_action (ok \<lparr>oc_counts =
             \<lparr>to_removedCompactItemCount = int (length (deleteCompactItems plan)),
              to_removedResolutionCount = int (length (deleteResolutions plan)),
              to_removedEpochSecretCount = int (length (deleteEpochSecretIds plan)),
              to_removedArtifactCount = 0\<rparr>, oc_removedArtifactStorageItemIds = []\<rparr>)))))))))))) w"

end
