(* ===== verification/Service_Laws.thy ===== *)
theory Service_Laws
  imports Collection_Service
begin

text \<open>
  What a Garbage Collection run guarantees when an earlier run was interrupted: the service of theory
  \<open>Collection_Service\<close> on the database of theory \<open>Storage\<close>. A run that was cut off after it claimed the
  Job, with any number of Artifacts removed, leaves a state from which the next run completes the cleanup.
\<close>

section \<open>Keys of the service\<close>

definition plain :: "string \<Rightarrow> bool" where
  "plain s \<longleftrightarrow> (\<forall>c \<in> set s. 0x20 \<le> (of_char c :: nat) \<and> (of_char c :: nat) < 0x7f)"

lemma plain_component:
  assumes "plain s" "1 \<le> length s" "length s \<le> 1024"
  shows "component_ok s"
proof -
  have "utf16_units c = 1" if "c \<in> set s" for c
    using assms(1) that by (force simp: utf16_units_def plain_def)
  then have "map utf16_units s = replicate (length s) 1" by (auto simp: list_eq_iff_nth_eq)
  then have "utf16_length s = length s" by (simp add: utf16_length_def sum_list_replicate)
  moreover have "\<not> list_ex control_character s"
    using assms(1) by (force simp: list_ex_iff control_character_def plain_def)
  ultimately show ?thesis using assms(2,3) by (auto simp: component_ok_def)
qed

lemma digit_plain:
  assumes "n < 16"
  shows "plain [digit_char n]"
proof -
  have "digit_char n \<in> set ''0123456789abcdef''"
    unfolding digit_char_def by (rule nth_mem) (use assms in simp)
  then show ?thesis by (auto simp: plain_def)
qed

lemma plain_append [simp]: "plain (a @ b) \<longleftrightarrow> plain a \<and> plain b" "plain []"
  by (auto simp: plain_def)

lemma key_plain: "plain (key b)" "length (key b) = 2 * length b"
proof -
  have "plain (hex_byte x)" for x
  proof -
    have "unat x < 256" using unsigned_less[of x, where 'a = nat] by simp
    then have "plain ([digit_char (unat x div 16)] @ [digit_char (unat x mod 16)])"
      unfolding plain_append by (simp add: digit_plain)
    then show ?thesis by (simp add: hex_byte_def)
  qed
  then show "plain (key b)" by (induction b) (simp_all add: key_Cons)
  show "length (key b) = 2 * length b" by (induction b) (simp_all add: key_Cons hex_byte_def)
qed

lemma id_component: "id32 b \<Longrightarrow> component_ok (key b)" "id32 b \<Longrightarrow> component_ok (''5:'' @ key b)"
  using key_plain[of b] by (auto intro!: plain_component simp: plain_def)

lemma uuid_component: "UUID s \<Longrightarrow> component_ok s"
  using UUID_chars[of s]
  by (intro plain_component) (auto simp: plain_def lower_hex_def Let_def)

section \<open>Items of the service\<close>

abbreviation job_location :: "gc_service \<Rightarrow> bytes \<Rightarrow> string \<Rightarrow> storage_family \<times> storage_key" where
  "job_location S vaultId i \<equiv>
     (ExecutionState, realm_key (gs_realm S), ns_key replicaGarbageCollectionJob, key vaultId, i)"

abbreviation replica_location :: "gc_service \<Rightarrow> bytes \<Rightarrow> storage_family \<times> storage_key" where
  "replica_location S vaultId \<equiv>
     (ReplicaSafetyState, realm_key (gs_realm S), ns_key replicaState, key vaultId, ''current'')"

abbreviation resolution_location :: "gc_service \<Rightarrow> bytes \<Rightarrow> bytes \<Rightarrow> storage_family \<times> storage_key" where
  "resolution_location S vaultId i \<equiv>
     (ReplicaSafetyState, realm_key (gs_realm S), ns_key logicalResolution, key vaultId, ''5:'' @ key i)"

abbreviation epoch_location :: "gc_service \<Rightarrow> bytes \<Rightarrow> bytes \<Rightarrow> storage_family \<times> storage_key" where
  "epoch_location S vaultId i \<equiv>
     (TrustedSecrets, realm_key (gs_realm S), ns_key epochSecret, key vaultId, key i)"

lemma service_families:
  "ns_family replicaGarbageCollectionJob = ExecutionState" "ns_family logicalResolution = ReplicaSafetyState"
  "\<not> ns_immutable replicaGarbageCollectionJob"
  by (simp_all add: replicaGarbageCollectionJob_def logicalResolution_def)

lemma item_locations [simp]:
  "location (gs_realm S) (job_item vaultId i bs) = job_location S vaultId i"
  "location (gs_realm S) (replica_item vaultId bs) = replica_location S vaultId"
  "location (gs_realm S) \<lparr>it_namespace = ns_key logicalResolution, it_scopeKey = key vaultId,
     it_itemKey = ''5:'' @ key a\<rparr> = resolution_location S vaultId a"
  "location (gs_realm S) \<lparr>it_namespace = ns_key epochSecret, it_scopeKey = key vaultId, it_itemKey = key e\<rparr> =
     epoch_location S vaultId e"
  by (simp_all add: location_def job_item_def replica_item_def secret_families service_families)

lemmas resolution_location_simp [simp] = item_locations(3)[simplified]

lemma item_fields [simp]:
  "it_namespace (replica_item vaultId bs) = ns_key replicaState" "it_bytes (replica_item vaultId bs) = bs"
  "it_bytes (job_item vaultId i bs) = bs" "it_itemKey (job_item vaultId i bs) = i"
  by (simp_all add: replica_item_def job_item_def)

lemma namespaces_differ [simp]:
  "ns_key replicaGarbageCollectionJob \<noteq> ns_key replicaState"
  "ns_key logicalResolution \<noteq> ns_key replicaState" "ns_key replicaState \<noteq> ns_key logicalResolution"
  by (simp_all add: replicaGarbageCollectionJob_def logicalResolution_def replicaState_def)

definition realm_ok :: "gc_service \<Rightarrow> bool" where
  "realm_ok S \<longleftrightarrow> realm_id_ok (realm_id (gs_realm S))"

lemma current_component: "component_ok ''current''"
  by (intro plain_component) (simp_all add: plain_def)

lemma items_valid:
  assumes "realm_ok S" "id32 vaultId"
  shows "UUID i \<Longrightarrow> valid_item (gs_realm S) (job_item vaultId i bs)"
    "valid_item (gs_realm S) (replica_item vaultId bs)"
    "id32 a \<Longrightarrow> valid_item (gs_realm S) \<lparr>it_namespace = ns_key logicalResolution, it_scopeKey = key vaultId,
       it_itemKey = ''5:'' @ key a\<rparr>"
    "id32 a \<Longrightarrow> valid_item (gs_realm S) \<lparr>it_namespace = ns_key epochSecret, it_scopeKey = key vaultId,
       it_itemKey = key a\<rparr>"
  using assms id_component[of vaultId] id_component[of a] uuid_component[of i] current_component
  by (auto simp: valid_item_def realm_ok_def job_item_def replica_item_def intro: namespaces_member)

lemma items_mutable: "mutable_item (job_item vaultId i bs)"
  unfolding mutable_item_def job_item_def using service_families namespaces_member by force

section \<open>Stored Jobs\<close>

text \<open>No commit stores two entries under one key.\<close>

interpretation distinct_keys: database_law "\<lambda>D db db'. distinct (mapKeys db) \<longrightarrow> distinct (mapKeys db')"
  by unfold_locales (auto simp: distinct_update distinct_delete)

lemma single_entry:
  assumes "distinct xs" "\<And>e. e \<in> set xs \<longleftrightarrow> e = a"
  shows "xs = [a]"
proof (cases xs)
  case (Cons y ys)
  have y: "y = a" using assms(2)[of y] Cons by simp
  have "e \<notin> set ys" for e
  proof
    assume "e \<in> set ys"
    then have "e = a" using assms(2)[of e] Cons by simp
    with \<open>e \<in> set ys\<close> show False using assms(1) Cons y by simp
  qed
  then have "ys = []" by (cases ys) auto
  with Cons y show ?thesis by simp
qed (use assms(2)[of a] in simp)

lemma list_jobs_single:
  assumes "distinct (mapKeys db)" "realm_ok S" "id32 vaultId"
    and "\<And>i v. mapGet db (job_location S vaultId i) = Some v \<longleftrightarrow> i = j \<and> v = SBytes bs"
  shows "list_jobs S vaultId db = ok [job_item vaultId j bs]"
proof -
  let ?entry = "((realm_key (gs_realm S), ns_key replicaGarbageCollectionJob, key vaultId, j), SBytes bs)"
  let ?mine = "\<lambda>((r, n, s, i), v). r = realm_key (gs_realm S) \<and> n = ns_key replicaGarbageCollectionJob \<and> s = key vaultId"
  let ?l = "filter ?mine (cursor db ExecutionState)"
  have mem: "e \<in> set ?l \<longleftrightarrow> e = ?entry" for e
  proof -
    obtain r n s i v where e: "e = ((r, n, s, i), v)" by (metis prod.collapse)
    have "e \<in> set (cursor db ExecutionState) \<longleftrightarrow> ((ExecutionState, (r, n, s, i)), v) \<in> set db"
      unfolding e cursor_def by force
    also have "\<dots> \<longleftrightarrow> mapGet db (ExecutionState, (r, n, s, i)) = Some v"
      using assms(1) by (simp add: map_of_eq_Some_iff)
    finally show ?thesis using assms(4) by (auto simp: e)
  qed
  have "distinct (map (\<lambda>e. (snd (fst e), snd e)) (filter (\<lambda>e. fst (fst e) = ExecutionState) db))"
  proof -
    have "distinct (filter (\<lambda>e. fst (fst e) = ExecutionState) db)"
      using assms(1) by (intro distinct_filter) (simp add: distinct_map)
    then show ?thesis by (auto simp: distinct_map inj_on_def prod_eq_iff)
  qed
  then have "distinct ?l" unfolding cursor_def by (intro distinct_filter) simp
  then have "?l = [?entry]" using mem by (rule single_entry)
  moreover have "storageRealmKey (gs_realm S) = ok (realm_key (gs_realm S))"
    using assms(2) by (simp add: storageRealmKey_def realm_ok_def realm_key_def)
  moreover have "assertKeyComponent ''Scope key'' (key vaultId) = ok ()"
    using id_component[OF assms(3)] by (simp add: assertKeyComponent_def)
  moreover have "descriptor (ns_key replicaGarbageCollectionJob) = ok replicaGarbageCollectionJob" by simp
  ultimately show ?thesis
    unfolding list_jobs_def listBytes_def by (simp add: service_families in_transaction_def job_item_def)
qed

section \<open>The Job of a run\<close>

lemma physical_values:
  fixes f :: "'a \<Rightarrow> bytes" and cs :: "'a list"
  defines "m \<equiv> mapFrom (map (\<lambda>c. (key (f c), f c)) cs)"
  shows "set (mapValues m) = f ` set cs" "distinct (mapValues m)"
proof -
  have sub: "e \<in> set m \<Longrightarrow> fst e = key (snd e) \<and> snd e \<in> f ` set cs" for e
    using mapFrom_subset[of "map (\<lambda>c. (key (f c), f c)) cs"] by (auto simp: m_def)
  have keys: "fst ` set m = key ` f ` set cs"
    using mapFrom_keys[of "map (\<lambda>c. (key (f c), f c)) cs"] by (simp add: m_def image_image)
  show "set (mapValues m) = f ` set cs"
  proof
    show "set (mapValues m) \<subseteq> f ` set cs" using sub by auto
    show "f ` set cs \<subseteq> set (mapValues m)"
    proof
      fix x assume "x \<in> f ` set cs"
      then have "key x \<in> fst ` set m" using keys by blast
      then obtain e where "e \<in> set m" "key x = fst e" by auto
      with sub[of e] show "x \<in> set (mapValues m)" by force
    qed
  qed
  have "distinct (mapKeys m)" unfolding m_def by (rule mapFrom_distinct)
  moreover have "mapKeys m = map key (mapValues m)" using sub by (simp add: list_eq_iff_nth_eq)
  ultimately show "distinct (mapValues m)" by (simp only: distinct_map_key)
qed

lemma physical_ids_facts:
  "set (physical_ids collate job) = ca_storageItemId ` set (job_candidates job)"
  "length (physical_ids collate job) = card (ca_storageItemId ` set (job_candidates job))"
  using physical_values[of ca_storageItemId "job_candidates job"]
  by (simp_all only: physical_ids_def set_sort_by length_sort_by distinct_card[symmetric])

lemma final_epochs_facts:
  fixes job inventory vault removed removedEpochs
  assumes "distinct (iv_epochSecretIds inventory)" "list_all valid_candidate (job_candidates job)"
  defines "es \<equiv> final_epochs vault job inventory removed removedEpochs"
  shows "distinct es" "e \<in> set es \<Longrightarrow> id32 e" "length es \<le> card (ca_keyEpochId ` set (job_candidates job))"
proof -
  have sub: "set es \<subseteq> ca_keyEpochId ` set (job_candidates job)"
    by (auto simp: es_def final_epochs_def image_image)
  show d: "distinct es" using assms(1) by (simp add: es_def final_epochs_def)
  show "e \<in> set es \<Longrightarrow> id32 e" using sub assms(2) by (auto simp: list_all_iff valid_candidate_def)
  show "length es \<le> card (ca_keyEpochId ` set (job_candidates job))"
    using card_mono[OF _ sub] distinct_card[OF d] by simp
qed

text \<open>When a run at \<open>now\<close> may claim a Job, and the numbers it would write stay safe integers.\<close>

definition claimable :: "platform \<Rightarrow> gc_job \<Rightarrow> int \<Rightarrow> string \<Rightarrow> bool" where
  "claimable P job now owner \<longleftrightarrow>
     (\<forall>l. lease job = Some l \<longrightarrow> expiresAtMs l \<le> now) \<and> UUID owner \<and> nfc P owner = owner \<and>
     0 \<le> now \<and> createdAtMs job < now + 30000 \<and> now + 30000 \<le> 2 ^ 53 - 1 \<and> attempt job + 1 \<le> 2 ^ 53 - 1 \<and>
     co_removedResolutionCount (compactOutcome job) + int (length (job_candidates job)) \<le> 2 ^ 53 - 1 \<and>
     co_removedEpochSecretCount (compactOutcome job) + int (length (job_candidates job)) \<le> 2 ^ 53 - 1"

definition succeeded_job :: "gc_job \<Rightarrow> int \<Rightarrow> string \<Rightarrow> terminal_outcome \<Rightarrow> gc_job" where
  "succeeded_job job now owner outcome =
     (running_job job now owner)\<lparr>job_state := 3, lease := None, terminalOutcome := Some outcome\<rparr>"

lemma running_job_fields [simp]:
  "jobId (running_job job now owner) = jobId job" "job_vaultId (running_job job now owner) = job_vaultId job"
  "idempotencyKey (running_job job now owner) = idempotencyKey job"
  "createdAtMs (running_job job now owner) = createdAtMs job" "job_state (running_job job now owner) = 2"
  "job_stage (running_job job now owner) = job_stage job" "attempt (running_job job now owner) = attempt job + 1"
  "lease (running_job job now owner) = Some \<lparr>ownerId = owner, expiresAtMs = now + 30000\<rparr>"
  "cancellationRequested (running_job job now owner) = cancellationRequested job"
  "compactOutcome (running_job job now owner) = compactOutcome job"
  "terminalOutcome (running_job job now owner) = None"
  "job_candidates (running_job job now owner) = job_candidates job"
  by (simp_all add: running_job_def leaseDurationMs_def)

lemma running_job_valid:
  assumes "job_valid P job" "claimable P job now owner"
  shows "job_valid P (running_job job now owner)" "lease_valid (lease (running_job job now owner))"
  using assms
  by (auto simp: job_valid_def stage_consistent_def counts_consistent_def safe_numbers_def claimable_def
      lease_valid_def isSafeInteger_def Let_def)

lemma succeeded_job_valid:
  assumes "job_valid P job" "claimable P job now owner" "job_candidates job \<noteq> []"
    and "length epochs \<le> card (ca_keyEpochId ` set (job_candidates job))"
  shows "job_valid P (succeeded_job job now owner (cleanup_outcome collate job epochs))"
proof -
  let ?o = "cleanup_outcome collate job epochs"
  have c: "card (f ` set (job_candidates job)) \<le> length (job_candidates job)" for f :: "artifact_candidate \<Rightarrow> bytes"
    using card_image_le[of "set (job_candidates job)" f] card_length[of "job_candidates job"] by simp
  have v: "counts_consistent job" "safe_numbers job" "stage_consistent job"
    using assms(1) by (simp_all add: job_valid_def)
  have "counts_consistent (succeeded_job job now owner ?o)"
    using v(1) assms(4)
    by (simp add: counts_consistent_def succeeded_job_def cleanup_outcome_def physical_ids_facts Let_def)
  moreover have "safe_numbers (succeeded_job job now owner ?o)"
    using v(1,2) assms(2,4) c[of ca_keyEpochId] c[of ca_storageItemId]
    by (auto simp: safe_numbers_def counts_consistent_def succeeded_job_def cleanup_outcome_def claimable_def
        physical_ids_facts isSafeInteger_def Let_def)
  moreover have "stage_consistent (succeeded_job job now owner ?o)"
    using v(3) by (auto simp: stage_consistent_def succeeded_job_def)
  ultimately show ?thesis using assms(1) by (simp add: job_valid_def succeeded_job_def)
qed

text \<open>Both can be written.\<close>

lemma run_jobs_encode:
  assumes "decodeReplicaGarbageCollectionJob P bs = ok job" "claimable P job now owner"
    and "length epochs \<le> card (ca_keyEpochId ` set (job_candidates job))"
  shows "\<exists>b. encodeReplicaGarbageCollectionJob P (running_job job now owner) = ok b"
    "\<exists>b. encodeReplicaGarbageCollectionJob P
       (succeeded_job job now owner (cleanup_outcome collate job epochs)) = ok b"
proof -
  note d = decodeJob_valid[OF assms(1)]
  obtain cands where cands: "candidateValues P (job_candidates job) = ok cands" "canonical P (CMap (job_map job cands))"
    using d(1) by (auto simp: encodeJob_ok)
  have s: "job_valid P (succeeded_job job now owner (cleanup_outcome collate job epochs))"
    by (rule succeeded_job_valid[OF d(2) assms(2) d(3) assms(3)])
  note r = running_job_valid[OF d(2) assms(2)]
  have same: "jobId (succeeded_job job now owner o') = jobId job" "job_candidates (succeeded_job job now owner o') = job_candidates job"
    "lease (succeeded_job job now owner o') = None" for o'
    by (simp_all add: succeeded_job_def)
  have n: "nfc P (jobId job) = jobId job" "canonical_all P cands"
    using cands(2) by (simp_all add: job_map_def)
  have num: "isSafeInteger 1" "isSafeInteger 2" "isSafeInteger 3" by (simp_all add: isSafeInteger_def)
  have canon: "canonical P (CMap (job_map j cands))"
    if "job_valid P j" "jobId j = jobId job" "lease_valid (lease j)"
      "\<And>l. lease j = Some l \<Longrightarrow> nfc P (ownerId l) = ownerId l" for j
    using that n num
    by (auto simp: job_map_def job_valid_def stage_consistent_def safe_numbers_def lease_valid_def lease_value_def
        compact_value_def compactOutcomeEntries_def terminal_value_def split: option.splits)
  show "\<exists>b. encodeReplicaGarbageCollectionJob P (running_job job now owner) = ok b"
    using r cands(1) canon[OF r(1)] assms(2) by (auto simp: encodeJob_ok claimable_def)
  show "\<exists>b. encodeReplicaGarbageCollectionJob P
       (succeeded_job job now owner (cleanup_outcome collate job epochs)) = ok b"
    using s cands(1) canon[OF s] by (auto simp: encodeJob_ok same lease_valid_def)
qed

section \<open>The commits of a run\<close>

text \<open>
  A fenced world with its one Job: the state in which \<open>collect\<close> resumes. \<open>next\<close> is the wrapped Replica
  state without fences.
\<close>

definition resumable ::
  "gc_service \<Rightarrow> bytes \<Rightarrow> opened_vault \<Rightarrow> gc_job \<Rightarrow> bytes \<Rightarrow> gc_inventory \<Rightarrow> gc_plan \<Rightarrow> bytes \<Rightarrow> world \<Rightarrow> bool" where
  "resumable S vaultId vault job jobBytes inventory plan next w \<longleftrightarrow>
     realm_ok S \<and> id32 vaultId \<and> distinct (mapKeys (w_db w)) \<and> (\<forall>m. cbor_encode (gs_platform S) (CMap m) \<noteq> []) \<and>
     gs_replay S (w_db w) vaultId = ok vault \<and> rs_vaultId (ov_replicaState vault) = vaultId \<and>
     mset (rs_garbageCollectionFences (ov_replicaState vault)) = mset (map candidate_fence (job_candidates job)) \<and>
     ov_storageBytes vault \<noteq> [] \<and>
     mapGet (w_db w) (replica_location S vaultId) = Some (SBytes (ov_storageBytes vault)) \<and>
     (\<forall>i v. mapGet (w_db w) (job_location S vaultId i) = Some v \<longleftrightarrow> i = jobId job \<and> v = SBytes jobBytes) \<and>
     decodeReplicaGarbageCollectionJob (gs_platform S) jobBytes = ok job \<and> job_vaultId job = vaultId \<and>
     job_state job \<noteq> 3 \<and>
     (\<exists>reachable. gs_collectReachability S (w_db w) vault = ok reachable \<and>
        gs_loadInventory S (w_db w) vault = ok inventory \<and> plan_for vault reachable inventory = ok plan) \<and>
     list_all (planned_candidate plan) (job_candidates job) \<and>
     gs_wrapReplicaState S ((ov_replicaState vault)\<lparr>rs_garbageCollectionFences := []\<rparr>) vault =
       ok (replica_item vaultId next) \<and> next \<noteq> []"

lemma plan_epochs_distinct: "plan_for vault reachable inventory = ok plan \<Longrightarrow> distinct (iv_epochSecretIds inventory)"
  unfolding plan_for_def planReplicaGarbageCollection_def Let_def
  by (auto simp: and_then_eq_Inr uniqueIds_ok)

lemma encoded_nonempty:
  assumes "encodeReplicaGarbageCollectionJob P j = ok b" "\<forall>m. cbor_encode P (CMap m) \<noteq> []"
  shows "b \<noteq> []"
  using assms by (auto simp: encodeJob_ok)

lemma claim_checks:
  assumes "realm_ok S" "id32 vaultId" "UUID (jobId job)" "ov_storageBytes vault \<noteq> []" "a \<noteq> []" "b \<noteq> []"
  shows "replica_checks (claim_commit S vaultId vault job a b) = ok ()"
  using assms items_valid[OF assms(1,2)] items_mutable
  unfolding replica_checks_ok claim_commit_def
  by simp

lemma cleanup_deletions_locations:
  "map (location (gs_realm S)) (cleanup_deletions vaultId job epochs) =
     map (\<lambda>c. resolution_location S vaultId (ca_artifactId c)) (job_candidates job) @ map (epoch_location S vaultId) epochs"
  by (simp add: cleanup_deletions_def comp_def)

lemma finish_checks:
  assumes "realm_ok S" "id32 vaultId" "UUID (jobId job)" "next \<noteq> []" "a \<noteq> []" "b \<noteq> []"
    and "distinct (map ca_artifactId (job_candidates job))" "list_all valid_candidate (job_candidates job)"
    and "distinct epochs" "\<And>e. e \<in> set epochs \<Longrightarrow> id32 e"
  shows "replica_checks (finish_commit S vaultId vault job a b (replica_item vaultId next) epochs) = ok ()"
proof -
  let ?d = "cleanup_deletions vaultId job epochs"
  have "list_all (valid_item (gs_realm S)) ?d"
    using items_valid(3,4)[OF assms(1,2)] assms(8,10)
    by (auto simp: cleanup_deletions_def list_all_iff valid_candidate_def)
  moreover have "distinct (map (location (gs_realm S)) ?d)"
    using assms(7,9) unfolding cleanup_deletions_locations by (auto simp: distinct_map inj_on_def)
  moreover have "replica_location S vaultId \<notin> set (map (location (gs_realm S)) ?d)"
    "job_location S vaultId (jobId job) \<notin> set (map (location (gs_realm S)) ?d)"
    unfolding cleanup_deletions_locations by auto
  ultimately show ?thesis
    using assms(3-6) items_valid(1,2)[OF assms(1,2)] items_mutable
    unfolding replica_checks_ok finish_commit_def by simp
qed

lemma removals: "each_action remove_action xs w = (Inr (), w\<lparr>w_artifacts := filter (\<lambda>i. i \<notin> set xs) (w_artifacts w)\<rparr>)"
proof (induction xs arbitrary: w)
  case (Cons i xs)
  have "remove_action i w = (Inr (), w\<lparr>w_artifacts := filter (\<lambda>j. j \<noteq> i) (w_artifacts w)\<rparr>)"
    by (simp add: remove_action_def)
  then show ?case by (simp add: bind_action_def Cons)
qed (simp add: lift_action_def)

lemma claim_succeeds:
  assumes r: "resumable S vaultId vault job jobBytes inventory plan next w" and b: "b \<noteq> []"
  obtains db1 where "commitReplicaMutation (claim_commit S vaultId vault job jobBytes b) (w_db w) = ok db1"
    "\<And>l. mapGet db1 l = (if l = job_location S vaultId (jobId job) then Some (SBytes b) else mapGet (w_db w) l)"
    "distinct (mapKeys db1)"
proof -
  let ?c = "claim_commit S vaultId vault job jobBytes b"
  have h: "realm_ok S" "id32 vaultId" "ov_storageBytes vault \<noteq> []"
    "mapGet (w_db w) (replica_location S vaultId) = Some (SBytes (ov_storageBytes vault))"
    "mapGet (w_db w) (job_location S vaultId (jobId job)) = Some (SBytes jobBytes)"
    "decodeReplicaGarbageCollectionJob (gs_platform S) jobBytes = ok job" "distinct (mapKeys (w_db w))"
    "\<forall>m. cbor_encode (gs_platform S) (CMap m) \<noteq> []"
    using r by (simp_all add: resumable_def)
  note d = decodeJob_valid[OF h(6)]
  have u: "UUID (jobId job)" using d(2) by (simp add: job_valid_def)
  have a: "jobBytes \<noteq> []" using encoded_nonempty[OF d(1) h(8)] .
  have "replica_checks ?c = ok ()" by (rule claim_checks[OF h(1,2) u h(3) a b])
  moreover have "context_unchanged ?c (w_db w)"
    using h(4,5) by (simp add: context_unchanged_def claim_commit_def)
  ultimately obtain db1 where c: "commitReplicaMutation ?c (w_db w) = ok db1"
    using commitReplicaMutation_ready by blast
  have "mapGet db1 l = (if l = job_location S vaultId (jobId job) then Some (SBytes b) else mapGet (w_db w) l)" for l
    unfolding commitReplicaMutation_get[OF c] using h(4)
    by (auto simp: after_commit_def claim_commit_def map_add_def)
  moreover have "distinct (mapKeys db1)" using distinct_keys.replica_law[OF c] h(7) by blast
  ultimately show thesis using that c by blast
qed

definition succeeded_bytes ::
  "gc_service \<Rightarrow> gc_job \<Rightarrow> int \<Rightarrow> string \<Rightarrow> bytes list \<Rightarrow> bytes \<Rightarrow> bool" where
  "succeeded_bytes S job now owner epochs bs \<longleftrightarrow>
     encodeReplicaGarbageCollectionJob (gs_platform S)
       (succeeded_job job now owner (cleanup_outcome (gs_collate S) job epochs)) = ok bs"

lemma finish_succeeds:
  assumes r: "resumable S vaultId vault job jobBytes inventory plan next w" and b: "a \<noteq> []" "b \<noteq> []"
    and db1: "\<And>l. mapGet db1 l = (if l = job_location S vaultId (jobId job) then Some (SBytes a) else mapGet (w_db w) l)"
  defines "epochs \<equiv> final_epochs vault job inventory [] []"
  obtains db2 where
    "commitReplicaMutation (finish_commit S vaultId vault job a b (replica_item vaultId next) epochs) db1 = ok db2"
    "mapGet db2 (replica_location S vaultId) = Some (SBytes next)"
    "mapGet db2 (job_location S vaultId (jobId job)) = Some (SBytes b)"
    "\<And>c. c \<in> set (job_candidates job) \<Longrightarrow> mapGet db2 (resolution_location S vaultId (ca_artifactId c)) = None"
    "\<And>l. l \<notin> set (map (location (gs_realm S)) (cleanup_deletions vaultId job epochs)) \<Longrightarrow>
       l \<noteq> replica_location S vaultId \<Longrightarrow> l \<noteq> job_location S vaultId (jobId job) \<Longrightarrow>
       mapGet db2 l = mapGet (w_db w) l"
proof -
  let ?c = "finish_commit S vaultId vault job a b (replica_item vaultId next) epochs"
  have h: "realm_ok S" "id32 vaultId" "next \<noteq> []"
    "mapGet (w_db w) (replica_location S vaultId) = Some (SBytes (ov_storageBytes vault))"
    "decodeReplicaGarbageCollectionJob (gs_platform S) jobBytes = ok job"
    and plan: "\<exists>reachable. plan_for vault reachable inventory = ok plan"
    using r by (auto simp: resumable_def)
  note d = decodeJob_valid[OF h(5)]
  have u: "UUID (jobId job)" using d(2) by (simp add: job_valid_def)
  have dist: "distinct (iv_epochSecretIds inventory)" using plan plan_epochs_distinct by blast
  note e = final_epochs_facts[OF dist d(5), where vault = vault and removed = "[]" and removedEpochs = "[]", folded epochs_def]
  have "replica_checks ?c = ok ()" by (rule finish_checks[OF h(1,2) u h(3) b d(4,5) e(1,2)])
  moreover have "context_unchanged ?c db1"
    using h(4) by (simp add: context_unchanged_def finish_commit_def db1)
  ultimately obtain db2 where c: "commitReplicaMutation ?c db1 = ok db2"
    using commitReplicaMutation_ready by blast
  let ?D = "set (map (location (gs_realm S)) (cleanup_deletions vaultId job epochs))"
  have out: "replica_location S vaultId \<notin> ?D" "job_location S vaultId (jobId job) \<notin> ?D"
    unfolding cleanup_deletions_locations by auto
  have g: "mapGet db2 l = (if l \<in> ?D then None else if l = replica_location S vaultId then Some (SBytes next)
      else if l = job_location S vaultId (jobId job) then Some (SBytes b) else mapGet db1 l)" for l
    unfolding commitReplicaMutation_get[OF c] after_commit_def finish_commit_def
    by (auto simp: map_add_def)
  have "mapGet db2 (resolution_location S vaultId (ca_artifactId x)) = None" if "x \<in> set (job_candidates job)" for x
    unfolding g cleanup_deletions_locations using that by auto
  then show thesis using that[OF c] g out db1 by simp
qed

section \<open>Resuming\<close>

lemma fences_match:
  assumes "mset fences = mset (map candidate_fence cs)"
  shows "sort (map fenceKey fences) = sort (map (\<lambda>c. fenceKey (candidate_fence c)) cs)"
proof -
  have "mset (map fenceKey fences) = mset (map (\<lambda>c. fenceKey (candidate_fence c)) cs)"
    using assms by (simp add: image_mset.compositionality comp_def)
  then show ?thesis by (metis sorted_list_of_multiset_mset)
qed

lemma resumed_checks:
  assumes r: "resumable S vaultId vault job jobBytes inventory plan next w"
    and c: "claimable (gs_platform S) job now owner"
  shows "cleanup_checks vault job plan now = ok ()"
proof -
  have "sort (map fenceKey (rs_garbageCollectionFences (ov_replicaState vault))) =
      sort (map (\<lambda>c. fenceKey (candidate_fence c)) (job_candidates job))"
    using r by (intro fences_match) (simp add: resumable_def)
  moreover have "\<not> list_ex (\<lambda>c. \<not> planned_candidate plan c) (job_candidates job)"
    using r by (simp add: resumable_def list_all_iff list_ex_iff)
  moreover have "\<not> (case lease job of None \<Rightarrow> False | Some l \<Rightarrow> expiresAtMs l > now)"
    using c by (auto simp: claimable_def split: option.splits)
  ultimately show ?thesis by (simp add: cleanup_checks_def)
qed

text \<open>The run of a cleanup from a resumable world, step by step.\<close>

lemma runCleanup_steps:
  assumes "cleanup_checks vault job plan now = ok ()"
    and "encodeReplicaGarbageCollectionJob (gs_platform S) (running_job job now owner) = ok a"
    and "commitReplicaMutation (claim_commit S vaultId vault job jobBytes a) (w_db w) = ok db1"
    and "gs_wrapReplicaState S ((ov_replicaState vault)\<lparr>rs_garbageCollectionFences := []\<rparr>) vault = ok next"
    and "succeeded_bytes S job now owner (final_epochs vault job inventory removed removedEpochs) b"
    and "commitReplicaMutation (finish_commit S vaultId vault job a b next
       (final_epochs vault job inventory removed removedEpochs)) db1 = ok db2"
  shows "runCleanup S vaultId vault job jobBytes inventory plan removed removedEpochs now owner w =
    (ok \<lparr>oc_counts = cleanup_outcome (gs_collate S) job (final_epochs vault job inventory removed removedEpochs),
       oc_removedArtifactStorageItemIds = physical_ids (gs_collate S) job\<rparr>,
     w\<lparr>w_db := db2, w_artifacts := filter (\<lambda>i. i \<notin> set (physical_ids (gs_collate S) job)) (w_artifacts w)\<rparr>)"
  using assms
  by (simp add: runCleanup_def Let_def bind_action_def lift_action_def commit_action_def removals
      succeeded_bytes_def succeeded_job_def)

lemma resume_completes:
  assumes r: "resumable S vaultId vault job jobBytes inventory plan next w"
    and c: "claimable (gs_platform S) job now owner"
  obtains out w' b where "collect S vaultId created now newJobId owner w = (ok out, w')"
    "mapGet (w_db w') (replica_location S vaultId) = Some (SBytes next)"
    "succeeded_bytes S job now owner (final_epochs vault job inventory [] []) b"
    "mapGet (w_db w') (job_location S vaultId (jobId job)) = Some (SBytes b)"
    "\<And>c. c \<in> set (job_candidates job) \<Longrightarrow>
       ca_storageItemId c \<notin> set (w_artifacts w') \<and>
       mapGet (w_db w') (resolution_location S vaultId (ca_artifactId c)) = None"
    "\<And>i. i \<in> set (w_artifacts w) \<Longrightarrow> i \<notin> ca_storageItemId ` set (job_candidates job) \<Longrightarrow> i \<in> set (w_artifacts w')"
proof -
  let ?P = "gs_platform S" and ?es = "final_epochs vault job inventory [] []"
  have h: "realm_ok S" "id32 vaultId" "distinct (mapKeys (w_db w))"
    "gs_replay S (w_db w) vaultId = ok vault" "rs_vaultId (ov_replicaState vault) = vaultId"
    "\<And>i v. mapGet (w_db w) (job_location S vaultId i) = Some v \<longleftrightarrow> i = jobId job \<and> v = SBytes jobBytes"
    "decodeReplicaGarbageCollectionJob ?P jobBytes = ok job" "job_vaultId job = vaultId" "job_state job \<noteq> 3"
    "gs_wrapReplicaState S ((ov_replicaState vault)\<lparr>rs_garbageCollectionFences := []\<rparr>) vault =
       ok (replica_item vaultId next)"
    "\<forall>m. cbor_encode ?P (CMap m) \<noteq> []"
    "mset (rs_garbageCollectionFences (ov_replicaState vault)) = mset (map candidate_fence (job_candidates job))"
    using r by (simp_all add: resumable_def)
  obtain reachable where plan: "gs_collectReachability S (w_db w) vault = ok reachable"
      "gs_loadInventory S (w_db w) vault = ok inventory" "plan_for vault reachable inventory = ok plan"
    using r by (auto simp: resumable_def)
  note d = decodeJob_valid[OF h(7)]
  note e = final_epochs_facts[OF plan_epochs_distinct[OF plan(3)] d(5),
      where vault = vault and removed = "[]" and removedEpochs = "[]"]
  obtain a where a: "encodeReplicaGarbageCollectionJob ?P (running_job job now owner) = ok a"
    using run_jobs_encode(1)[OF h(7) c e(3)] by blast
  obtain b where b: "succeeded_bytes S job now owner ?es b"
    using run_jobs_encode(2)[OF h(7) c e(3)] by (auto simp: succeeded_bytes_def)
  have ne: "a \<noteq> []" "b \<noteq> []"
    using encoded_nonempty[OF a h(11)] encoded_nonempty[OF b[unfolded succeeded_bytes_def] h(11)] by blast+
  obtain db1 where db1: "commitReplicaMutation (claim_commit S vaultId vault job jobBytes a) (w_db w) = ok db1"
      "\<And>l. mapGet db1 l = (if l = job_location S vaultId (jobId job) then Some (SBytes a) else mapGet (w_db w) l)"
    using claim_succeeds[OF r ne(1)] by metis
  obtain db2 where db2: "commitReplicaMutation (finish_commit S vaultId vault job a b (replica_item vaultId next) ?es) db1 = ok db2"
      "mapGet db2 (replica_location S vaultId) = Some (SBytes next)"
      "mapGet db2 (job_location S vaultId (jobId job)) = Some (SBytes b)"
      "\<And>c. c \<in> set (job_candidates job) \<Longrightarrow> mapGet db2 (resolution_location S vaultId (ca_artifactId c)) = None"
    using finish_succeeds[OF r ne db1(2)] by metis
  let ?w = "w\<lparr>w_db := db2, w_artifacts := filter (\<lambda>i. i \<notin> set (physical_ids (gs_collate S) job)) (w_artifacts w)\<rparr>"
  note run = runCleanup_steps[OF resumed_checks[OF r c] a db1(1) h(10) b db2(1)]
  have "stored_job S vaultId (job_item vaultId (jobId job) jobBytes) = ok (job_item vaultId (jobId job) jobBytes, job)"
    using h(7,8) by (simp add: stored_job_def same_bytes_def)
  moreover have "list_jobs S vaultId (w_db w) = ok [job_item vaultId (jobId job) jobBytes]"
    by (rule list_jobs_single[OF h(3,1,2,6)])
  moreover have "rs_garbageCollectionFences (ov_replicaState vault) \<noteq> []"
    using h(12) d(3) by auto
  ultimately have "\<exists>out. collect S vaultId created now newJobId owner w = (ok out, ?w)"
    using h(4,5,9) plan run
    by (simp add: collect_def bind_action_def lift_action_def same_bytes_def resumeCleanup_def Let_def)
  then obtain out where "collect S vaultId created now newJobId owner w = (ok out, ?w)" by blast
  then show thesis
    using that[of out ?w b] db2(2-4) b physical_ids_facts(1)[of "gs_collate S" job] by simp
qed

section \<open>Interruption\<close>

text \<open>
  A run that stops after its claim was committed and \<open>n\<close> of the stored Artifacts were removed: the first part
  of \<open>runCleanup\<close>. The rest of the run is \<open>finish_cleanup\<close>.
\<close>

definition interrupted_cleanup ::
  "gc_service \<Rightarrow> bytes \<Rightarrow> opened_vault \<Rightarrow> gc_job \<Rightarrow> bytes \<Rightarrow> int \<Rightarrow> string \<Rightarrow> nat \<Rightarrow> bytes action" where
  "interrupted_cleanup S vaultId vault job jobBytes now owner n =
     bind_action (lift_action (encodeReplicaGarbageCollectionJob (gs_platform S) (running_job job now owner))) (\<lambda>a.
     bind_action (commit_action (claim_commit S vaultId vault job jobBytes a)) (\<lambda>_.
     bind_action (each_action remove_action (take n (physical_ids (gs_collate S) job))) (\<lambda>_.
     lift_action (ok a))))"

definition finish_cleanup ::
  "gc_service \<Rightarrow> bytes \<Rightarrow> opened_vault \<Rightarrow> gc_job \<Rightarrow> int \<Rightarrow> string \<Rightarrow> bytes list \<Rightarrow> bytes \<Rightarrow> collection_outcome action" where
  "finish_cleanup S vaultId vault job now owner epochs runningBytes =
     bind_action (lift_action (gs_wrapReplicaState S
       ((ov_replicaState vault)\<lparr>rs_garbageCollectionFences := []\<rparr>) vault)) (\<lambda>next.
     bind_action (lift_action (encodeReplicaGarbageCollectionJob (gs_platform S)
       (succeeded_job job now owner (cleanup_outcome (gs_collate S) job epochs)))) (\<lambda>succeededBytes.
     bind_action (commit_action (finish_commit S vaultId vault job runningBytes succeededBytes next epochs)) (\<lambda>_.
     lift_action (ok \<lparr>oc_counts = cleanup_outcome (gs_collate S) job epochs,
       oc_removedArtifactStorageItemIds = physical_ids (gs_collate S) job\<rparr>))))"

lemma runCleanup_split:
  assumes "cleanup_checks vault job plan now = ok ()"
  shows "runCleanup S vaultId vault job jobBytes inventory plan removed removedEpochs now owner w =
    bind_action (interrupted_cleanup S vaultId vault job jobBytes now owner n) (\<lambda>a.
    bind_action (each_action remove_action (drop n (physical_ids (gs_collate S) job))) (\<lambda>_.
    finish_cleanup S vaultId vault job now owner (final_epochs vault job inventory removed removedEpochs) a)) w"
proof -
  have "\<not> (i \<in> set (take n xs) \<or> i \<in> set (drop n xs)) \<longleftrightarrow> i \<notin> set xs" for i and xs :: "bytes list"
    by (metis Un_iff append_take_drop_id set_append)
  then have "filter (\<lambda>i. i \<notin> set (drop n xs)) (filter (\<lambda>i. i \<notin> set (take n xs)) ys) = filter (\<lambda>i. i \<notin> set xs) ys"
    for xs ys :: "bytes list"
    by (simp add: conj_commute)
  then show ?thesis
    using assms
    by (simp add: runCleanup_def interrupted_cleanup_def finish_cleanup_def Let_def bind_action_def lift_action_def
        removals succeeded_job_def commit_action_def split: sum.splits)
qed

text \<open>
  Replay, the trace and the inventory do not depend on the execution state, and the decoder returns the
  candidates of a Job in the order they are stored.
\<close>

definition ignores_jobs :: "gc_service \<Rightarrow> bool" where
  "ignores_jobs S \<longleftrightarrow>
     (\<forall>db db'. (\<forall>f k. f \<noteq> ExecutionState \<longrightarrow> mapGet db (f, k) = mapGet db' (f, k)) \<longrightarrow>
        gs_replay S db = gs_replay S db' \<and> gs_collectReachability S db = gs_collectReachability S db' \<and>
        gs_loadInventory S db = gs_loadInventory S db')"

definition decodes_back :: "platform \<Rightarrow> gc_job \<Rightarrow> bool" where
  "decodes_back P job \<longleftrightarrow>
     (let m = CMap (job_map job (map candidate_value (job_candidates job))) in
      candidateValues P (job_candidates job) = ok (map candidate_value (job_candidates job)) \<and>
      cbor_decode P (cbor_encode P m) = Inr m)"

lemma decodes_back_roundtrip:
  assumes "decodes_back P job" "encodeReplicaGarbageCollectionJob P job = ok a"
  shows "decodeReplicaGarbageCollectionJob P a = ok job"
  using assms by (intro job_roundtrip) (auto simp: decodes_back_def Let_def encodeJob_ok)

lemma interrupted_resumable:
  assumes r: "resumable S vaultId vault job jobBytes inventory plan next w" and s: "ignores_jobs S"
    and i: "interrupted_cleanup S vaultId vault job jobBytes now owner n w = (ok a, w1)"
    and d: "decodes_back (gs_platform S) (running_job job now owner)"
  shows "resumable S vaultId vault (running_job job now owner) a inventory plan next w1"
    "w_artifacts w1 = filter (\<lambda>i. i \<notin> set (take n (physical_ids (gs_collate S) job))) (w_artifacts w)"
proof -
  obtain db1 where e: "encodeReplicaGarbageCollectionJob (gs_platform S) (running_job job now owner) = ok a"
      and c: "commitReplicaMutation (claim_commit S vaultId vault job jobBytes a) (w_db w) = ok db1"
      and w1: "w1 = w\<lparr>w_db := db1, w_artifacts :=
        filter (\<lambda>i. i \<notin> set (take n (physical_ids (gs_collate S) job))) (w_artifacts w)\<rparr>"
    using i
    by (auto simp: interrupted_cleanup_def bind_action_def lift_action_def commit_action_def removals split: sum.splits)
  have "a \<noteq> []" using encoded_nonempty[OF e] r by (simp add: resumable_def)
  then obtain db where "commitReplicaMutation (claim_commit S vaultId vault job jobBytes a) (w_db w) = ok db"
      "\<And>l. mapGet db l = (if l = job_location S vaultId (jobId job) then Some (SBytes a) else mapGet (w_db w) l)"
      "distinct (mapKeys db)"
    by (rule claim_succeeds[OF r]) blast
  then have g: "\<And>l. mapGet db1 l = (if l = job_location S vaultId (jobId job) then Some (SBytes a) else mapGet (w_db w) l)"
    and k: "distinct (mapKeys db1)"
    using c by auto
  have "gs_replay S db1 = gs_replay S (w_db w) \<and> gs_collectReachability S db1 = gs_collectReachability S (w_db w) \<and>
      gs_loadInventory S db1 = gs_loadInventory S (w_db w)"
    using s[unfolded ignores_jobs_def, rule_format, of db1 "w_db w"] g by simp
  then show "resumable S vaultId vault (running_job job now owner) a inventory plan next w1"
    using r g k w1 decodes_back_roundtrip[OF d e] by (simp add: resumable_def) blast
  show "w_artifacts w1 = filter (\<lambda>i. i \<notin> set (take n (physical_ids (gs_collate S) job))) (w_artifacts w)"
    by (simp add: w1)
qed

lemma interrupted_returns:
  assumes r: "resumable S vaultId vault job jobBytes inventory plan next w"
    and c: "claimable (gs_platform S) job now owner"
  shows "\<exists>a w1. interrupted_cleanup S vaultId vault job jobBytes now owner n w = (ok a, w1)"
proof -
  have d: "decodeReplicaGarbageCollectionJob (gs_platform S) jobBytes = ok job"
    "\<forall>m. cbor_encode (gs_platform S) (CMap m) \<noteq> []"
    using r by (simp_all add: resumable_def)
  obtain a where a: "encodeReplicaGarbageCollectionJob (gs_platform S) (running_job job now owner) = ok a"
    using run_jobs_encode(1)[OF d(1) c, of "[]"] by auto
  obtain db1 where "commitReplicaMutation (claim_commit S vaultId vault job jobBytes a) (w_db w) = ok db1"
    using claim_succeeds[OF r encoded_nonempty[OF a d(2)]] by metis
  with a show ?thesis
    by (simp add: interrupted_cleanup_def bind_action_def lift_action_def commit_action_def removals)
qed


section \<open>A witness\<close>

definition resumed_job :: gc_job where
  "resumed_job = demo_job\<lparr>job_state := 1, attempt := 0, terminalOutcome := None\<rparr>"

definition resumed_claim :: gc_job where
  "resumed_claim = running_job resumed_job 2000 ''11111111-89ab-4cde-8f01-23456789abcd''"

definition job_value :: "gc_job \<Rightarrow> cvalue" where
  "job_value job = CMap (job_map job (map candidate_value (job_candidates job)))"

definition resumed_platform :: platform where
  "resumed_platform = ref_platform\<lparr>cbor_decode := (\<lambda>bs.
     if bs = cbor_reference (job_value resumed_job) then Inr (job_value resumed_job)
     else if bs = cbor_reference (job_value resumed_claim) then Inr (job_value resumed_claim)
     else Inl ''unsupported'')\<rparr>"

definition resumed_vault :: opened_vault where
  "resumed_vault = \<lparr>ov_replicaState =
     \<lparr>rs_vaultId = replicate 32 7, rs_generationId = replicate 32 6, rs_causalFrontier = [],
      rs_authorityFrontier = [], rs_continuityRecordIds = [], rs_baselineId = replicate 32 4,
      rs_currentKeyEpochId = replicate 32 3, rs_requiredFeatureSetId = replicate 32 2,
      rs_authoringClientCredentialId = None, rs_memberId = None, rs_lifecycle = 1, rs_preservationRoots = [],
      rs_garbageCollectionFences = map candidate_fence demo_candidates, rs_adoption = None\<rparr>,
    ov_storageBytes = [1],
    ov_wrappingKey = \<lparr>wk_key = \<lparr>ck_extractable = False, ck_algorithm = ''AES-GCM'', ck_usages = []\<rparr>, wk_wrap = ok, wk_unwrap = ok\<rparr>\<rparr>"

definition resumed_inventory :: gc_inventory where
  "resumed_inventory =
     \<lparr>iv_resolutions = map (\<lambda>c. \<lparr>lr_vaultId = replicate 32 7, lr_kind = 5, lr_logicalId = ca_artifactId c,
        lr_storageItemId = ca_storageItemId c, lr_keyEpochId = ca_keyEpochId c, lr_availability = 1\<rparr>) demo_candidates,
      iv_compactItems = [], iv_epochSecretIds = [replicate 32 3, replicate 32 5]\<rparr>"

definition resumed_plan :: gc_plan where
  "resumed_plan =
     \<lparr>deleteCompactItems = [], deleteResolutions = [], deleteEpochSecretIds = [],
      artifactCleanupCandidates = demo_candidates, artifactCleanupStorageItemIds = [replicate 32 9],
      retainedArtifactStorageItemIds = []\<rparr>"

definition nothing_reachable :: reachability where
  "nothing_reachable =
     \<lparr>typedLogicalRoots = [], recordIds = [], vaultObjectIds = [], keyEnvelopeIds = [],
      featureManifestIds = [], artifactIds = []\<rparr>"

definition resumed_service :: gc_service where
  "resumed_service =
     \<lparr>gs_platform = resumed_platform, gs_realm = \<lparr>realm_kind = Test, realm_id = ''a''\<rparr>,
      gs_collate = (\<lambda>a b. if a < b then - 1 else if a = b then 0 else 1),
      gs_replay = (\<lambda>db vaultId. ok resumed_vault),
      gs_collectReachability = (\<lambda>db vault. ok nothing_reachable),
      gs_loadInventory = (\<lambda>db vault. ok resumed_inventory),
      gs_wrapReplicaState = (\<lambda>state vault. ok (replica_item (rs_vaultId state) [2]))\<rparr>"

definition resumed_world :: world where
  "resumed_world =
     \<lparr>w_db = [(replica_location resumed_service (replicate 32 7), SBytes [1]),
        (job_location resumed_service (replicate 32 7) (jobId resumed_job),
         SBytes (cbor_reference (job_value resumed_job)))],
      w_artifacts = [replicate 32 8, replicate 32 9]\<rparr>"

lemma resumed_planned: "plan_for resumed_vault nothing_reachable resumed_inventory = ok resumed_plan"
  by code_simp

lemma resumed_candidates: "list_all (planned_candidate resumed_plan) demo_candidates"
  by code_simp

lemma resumed_encodes:
  "\<not> isl (encodeReplicaGarbageCollectionJob resumed_platform resumed_job)"
  by code_simp

lemma resumed_decodes_back: "decodes_back resumed_platform resumed_job" "decodes_back resumed_platform resumed_claim"
proof -
  have p: "cbor_encode resumed_platform = cbor_reference" by (simp add: resumed_platform_def)
  have c: "job_candidates resumed_job = demo_candidates" "job_candidates resumed_claim = demo_candidates"
    by (simp_all add: resumed_job_def resumed_claim_def demo_job_def)
  have o: "candidateValues resumed_platform demo_candidates = ok (map candidate_value demo_candidates)" by code_simp
  have d: "cbor_decode resumed_platform (cbor_reference (job_value resumed_job)) = Inr (job_value resumed_job)"
    by (simp add: resumed_platform_def)
  have "job_state resumed_job = 1" "job_state resumed_claim = 2"
    by (simp_all add: resumed_job_def resumed_claim_def)
  have ne: "cbor_reference (job_value resumed_claim) \<noteq> cbor_reference (job_value resumed_job)" by code_simp
  have d': "cbor_decode resumed_platform (cbor_reference (job_value resumed_claim)) = Inr (job_value resumed_claim)"
    using ne by (simp add: resumed_platform_def)
  show "decodes_back resumed_platform resumed_job" using o d by (simp add: decodes_back_def c p job_value_def Let_def)
  show "decodes_back resumed_platform resumed_claim" using o d' by (simp add: decodes_back_def c p job_value_def Let_def)
qed

lemma resumed_resumable:
  "resumable resumed_service (replicate 32 7) resumed_vault resumed_job (cbor_reference (job_value resumed_job))
     resumed_inventory resumed_plan [2] resumed_world"
proof -
  obtain b where b: "encodeReplicaGarbageCollectionJob resumed_platform resumed_job = ok b"
    using resumed_encodes by (cases "encodeReplicaGarbageCollectionJob resumed_platform resumed_job") auto
  have p: "cbor_encode resumed_platform = cbor_reference" by (simp add: resumed_platform_def)
  have "b = cbor_reference (job_value resumed_job)"
    using b resumed_decodes_back(1) by (auto simp: encodeJob_ok decodes_back_def Let_def p job_value_def)
  then have d: "decodeReplicaGarbageCollectionJob resumed_platform (cbor_reference (job_value resumed_job)) = ok resumed_job"
    using decodes_back_roundtrip[OF resumed_decodes_back(1) b] by simp
  have c: "job_candidates resumed_job = demo_candidates" by (simp add: resumed_job_def demo_job_def)
  have r: "realm_ok resumed_service" by code_simp
  have n: "cbor_reference (CMap m) \<noteq> []" for m by (simp add: cbor_head_def Let_def)
  show ?thesis
    unfolding resumable_def
    using d r n resumed_planned resumed_candidates
    by (auto simp: resumed_service_def resumed_world_def resumed_vault_def resumed_job_def demo_job_def c p)
qed


end
