(* ===== verification/Authority_Events.thy ===== *)
theory Authority_Events
  imports Vault_Record Reducers
begin

text \<open>
  The authority facts of \<open>runtime/projection/canonical-authority-replay.ts\<close>: the data of the Authority
  State, the facts each Authority Event states, their parsers, the checks of Key Envelope slots against the
  Authority State, and the verification of the signatures inside the bodies. Signature verification and SHA-256
  are the platform parameter. A Key Envelope slot is the record \<^typ>\<open>slot_summary\<close> of the body validators.
\<close>

section \<open>Authority State\<close>

record client_credential =
  cl_clientCredentialId :: bytes
  cl_memberId :: bytes
  cl_signingPublicKey :: bytes
  cl_wrappingPublicKey :: bytes

record authority_client_credential = client_credential +
  cl_active :: bool

definition with_active :: "'a client_credential_scheme \<Rightarrow> bool \<Rightarrow> authority_client_credential" where
  "with_active c active =
     \<lparr>cl_clientCredentialId = cl_clientCredentialId c, cl_memberId = cl_memberId c,
      cl_signingPublicKey = cl_signingPublicKey c, cl_wrappingPublicKey = cl_wrappingPublicKey c,
      cl_active = active\<rparr>"

record recovery_credential =
  rv_recoveryCredentialId :: bytes
  rv_memberId :: bytes
  rv_revision :: int
  rv_signingPublicKey :: bytes
  rv_wrappingPublicKey :: bytes

record authority_recovery_credential = recovery_credential +
  rv_effective :: bool

definition with_effective :: "'a recovery_credential_scheme \<Rightarrow> bool \<Rightarrow> authority_recovery_credential" where
  "with_effective c effective =
     \<lparr>rv_recoveryCredentialId = rv_recoveryCredentialId c, rv_memberId = rv_memberId c,
      rv_revision = rv_revision c, rv_signingPublicKey = rv_signingPublicKey c,
      rv_wrappingPublicKey = rv_wrappingPublicKey c, rv_effective = effective\<rparr>"

record key_epoch =
  ke_keyEpochId :: bytes
  ke_displayNumber :: int

record authority_key_epoch = key_epoch +
  ke_current :: bool

record authority_feature_manifest =
  afm_id :: bytes
  afm_bytes :: bytes
  afm_manifest :: feature_manifest

record authority_invitation =
  ain_invitationId :: bytes
  ain_issuerMemberId :: bytes
  ain_capabilities :: cvalue
  ain_redemptionVerifier :: bytes
  ain_cancellationVerifier :: bytes
  ain_redemptionAuthorityId :: bytes
  ain_receiptVerificationKey :: bytes
  ain_creationRecordId :: bytes

record invitation_candidate =
  ic_headRecordId :: bytes
  ic_outcome :: int
  ic_authorityReceiptId :: bytes
  ic_joinRequestId :: "bytes option"
  ic_memberId :: "bytes option"

record invitation_conflict =
  icf_invitationId :: bytes
  icf_candidates :: "invitation_candidate list"

record administrator_candidate =
  adc_headRecordId :: bytes
  adc_administrator :: bool

record administrator_conflict =
  adf_memberId :: bytes
  adf_candidates :: "administrator_candidate list"

record recovery_candidate =
  rvc_headRecordId :: bytes
  rvc_recoveryCredentialId :: bytes

record recovery_conflict =
  rvf_memberId :: bytes
  rvf_candidates :: "recovery_candidate list"

record epoch_candidate =
  kec_headRecordId :: bytes
  kec_keyEpochId :: bytes

record epoch_conflict =
  kef_candidates :: "epoch_candidate list"

record feature_set_conflict =
  fsc_candidateRecordIds :: "bytes list"
  fsc_manifestIds :: "bytes list"

datatype fence_kind =
    MemberRemoval
  | ClientCredentialRemoval
  | InvitationConflictFence
  | KeyEpochConflictFence
  | FeatureSetIncompatibility

fun fence_name :: "fence_kind \<Rightarrow> string" where
  "fence_name MemberRemoval = ''member-removal''"
| "fence_name ClientCredentialRemoval = ''client-credential-removal''"
| "fence_name InvitationConflictFence = ''invitation-conflict''"
| "fence_name KeyEpochConflictFence = ''key-epoch-conflict''"
| "fence_name FeatureSetIncompatibility = ''feature-set-incompatibility''"

record write_fence =
  wf_kind :: fence_kind
  wf_subjectId :: bytes
  wf_causeRecordIds :: "bytes list"

record authority_state =
  activeMemberIds :: "bytes list"
  administratorIds :: "bytes list"
  administratorConflicts :: "administrator_conflict list"
  activeInvitations :: "authority_invitation list"
  invitationConflicts :: "invitation_conflict list"
  recoveryCredentials :: "authority_recovery_credential list"
  recoveryConflicts :: "recovery_conflict list"
  keyEpochs :: "authority_key_epoch list"
  keyEpochConflicts :: "epoch_conflict list"
  keyEnvelopeSlots :: "slot_summary list"
  as_requiredFeatureSetId :: bytes
  featureManifests :: "authority_feature_manifest list"
  featureSetConflict :: "feature_set_conflict option"
  writeFences :: "write_fence list"
  clientCredentials :: "(string, authority_client_credential) jmap"
  lifecycle :: int

section \<open>Facts of the Events\<close>

record accepted_invitation =
  acc_invitationId :: bytes
  acc_memberId :: bytes
  acc_clientCredential :: client_credential
  acc_recoveryCredential :: recovery_credential
  acc_administrator :: bool
  acc_joinRequestId :: bytes
  acc_authorityReceiptId :: bytes
  acc_capabilitiesBytes :: bytes
  acc_joinRequestPrefixBytes :: bytes
  acc_clientPossessionSignature :: bytes
  acc_recoveryPossessionSignature :: bytes
  acc_redemptionSignature :: bytes
  acc_receiptPrefixBytes :: bytes
  acc_receiptSignature :: bytes
  acc_envelopeSlots :: "slot_summary list"

record cancelled_invitation =
  can_invitationId :: bytes
  can_cancellationRequestId :: bytes
  can_authorityReceiptId :: bytes
  can_authorityChallenge :: bytes
  can_cancellationSignature :: bytes
  can_receiptPrefixBytes :: bytes
  can_receiptSignature :: bytes

record invitation_resolution =
  res_invitationId :: bytes
  res_conflictingReceiptIds :: "bytes list"
  res_conflictingRecordIds :: "bytes list"
  res_outcome :: int
  res_selectedJoinRequestId :: "bytes option"

record resolved_invitation = invitation_resolution +
  res_rejectedConsumedRecordIds :: "bytes list"

record client_enrollment =
  enr_memberId :: bytes
  enr_clientCredential :: client_credential
  enr_authorizationKind :: int
  enr_recoveryCredentialId :: "bytes option"
  enr_recoveryAuthorization :: "bytes option"
  enr_proposalBytes :: bytes
  enr_proposalPrefixBytes :: bytes
  enr_possessionSignature :: bytes
  enr_envelopeSlots :: "slot_summary list"

record recovery_replacement =
  rpl_memberId :: bytes
  rpl_replacedRecoveryCredentialIds :: "bytes list"
  rpl_recoveryCredential :: recovery_credential
  rpl_replacementCredentialBytes :: bytes
  rpl_envelopeSlotsBytes :: bytes
  rpl_envelopeSlots :: "slot_summary list"
  rpl_possessionSignature :: bytes

record epoch_transition =
  kt_parentKeyEpochIds :: "bytes list"
  kt_keyEpochId :: bytes
  kt_displayNumber :: int
  kt_envelopeSlots :: "slot_summary list"

record key_delivery =
  kd_envelopeSlots :: "slot_summary list"

record feature_activation =
  fa_previousFeatureSetId :: bytes
  fa_addedManifests :: "authority_feature_manifest list"
  fa_resultingFeatureSetId :: bytes

section \<open>Helpers\<close>

definition containsId :: "bytes list \<Rightarrow> bytes \<Rightarrow> bool" where
  "containsId values candidate = list_ex (\<lambda>v. bytesEqual v candidate) values"

definition canonicalNumericPrefix :: "cmap \<Rightarrow> nat \<Rightarrow> cmap res" where
  "canonicalNumericPrefix value lastKey =
     and_then (traverse (\<lambda>i. and_then (mapValue value (int i)) (\<lambda>v. ok (int i, v))) [0..<lastKey + 1])
       canonicalMap"

definition prefix_bytes :: "platform \<Rightarrow> cmap \<Rightarrow> nat \<Rightarrow> bytes res" where
  "prefix_bytes P value lastKey =
     and_then (canonicalNumericPrefix value lastKey) (\<lambda>m. encodeCanonicalValue P (CMap m))"

definition bytes_at :: "cmap \<Rightarrow> int \<Rightarrow> nat \<Rightarrow> string \<Rightarrow> bytes res" where
  "bytes_at m k len field = with_field m k (\<lambda>v. byteString v len field)"

text \<open>A signature of the bodies, verified over a transcript.\<close>

definition verified :: "platform \<Rightarrow> bytes \<Rightarrow> string \<Rightarrow> bytes list \<Rightarrow> bytes \<Rightarrow> bool res" where
  "verified P signature label parts publicKey =
     and_then (transcript label parts) (\<lambda>message. ok (verify_detached P signature message publicKey))"

section \<open>Key Envelope slots\<close>

definition revision_text :: "int option \<Rightarrow> string" where
  "revision_text r = (case r of None \<Rightarrow> ''null'' | Some n \<Rightarrow> int_str n)"

definition target_key :: "bytes \<Rightarrow> int \<Rightarrow> bytes \<Rightarrow> int option \<Rightarrow> string" where
  "target_key epoch kind credential revision =
     key epoch @ '':'' @ int_str kind @ '':'' @ key credential @ '':'' @ revision_text revision"

definition envelopeSlotTargetKey :: "slot_summary \<Rightarrow> string" where
  "envelopeSlotTargetKey s =
     target_key (sl_keyEpochId s) (sl_targetKind s) (sl_targetCredentialId s) (sl_targetRevision s)"

definition parse_envelope_slot :: "string \<Rightarrow> nat \<Rightarrow> cvalue \<Rightarrow> slot_summary res" where
  "parse_envelope_slot field index entry =
     (let name = indexed field index in
      and_then (exactMap entry (num_keys 5) name) (\<lambda>m.
      and_then (with_field m 1 (\<lambda>v. oneOfCodes v [1, 2] (name @ '' target kind''))) (\<lambda>targetKind.
      and_then (id_at m 0 KeyEpochId (name @ '' Key Epoch ID'')) (\<lambda>epochId.
      and_then (id_at m 2 (if targetKind = 1 then RecoveryCredentialId else ClientCredentialId)
        (name @ '' target Credential ID'')) (\<lambda>credentialId.
      and_then (with_field m 3 (\<lambda>v. nullable v (\<lambda>r. nonnegativeInteger r (name @ '' target revision''))))
        (\<lambda>revision.
      and_then (id_at m 4 KeyEnvelopeId (name @ '' Key Envelope ID'')) (\<lambda>envelopeId.
      ok \<lparr>sl_keyEpochId = epochId, sl_targetKind = targetKind, sl_targetCredentialId = credentialId,
          sl_targetRevision = revision, sl_keyEnvelopeId = envelopeId\<rparr>)))))))"

definition parseEnvelopeSlots :: "platform \<Rightarrow> cvalue \<Rightarrow> string \<Rightarrow> slot_summary list res" where
  "parseEnvelopeSlots P value field =
     and_then (canonicalSetValue P value field (\<lambda>_ entry. ok entry) True)
       (traverse_i (parse_envelope_slot field) 0)"

definition validateExactEnvelopeTargetSet :: "slot_summary list \<Rightarrow> string list \<Rightarrow> string \<Rightarrow> unit res" where
  "validateExactEnvelopeTargetSet envelopes expected message =
     (let actual = set (map envelopeSlotTargetKey envelopes) in
      guard_not (length envelopes \<noteq> card (set expected) \<or> card actual \<noteq> card (set expected) \<or>
          list_ex (\<lambda>s. s \<notin> actual) expected)
        (TypeError message))"

definition bind_envelope :: "string \<Rightarrow> (string, string) jmap \<Rightarrow> slot_summary \<Rightarrow> (string, string) jmap res" where
  "bind_envelope field targets s =
     (let envelopeId = key (sl_keyEnvelopeId s); target = envelopeSlotTargetKey s in
      and_then (guard_not (case mapGet targets envelopeId of None \<Rightarrow> False | Some t \<Rightarrow> t \<noteq> target)
        (TypeError (field @ '' rebinds a Key Envelope identity''))) (\<lambda>_.
      ok (mapSet targets envelopeId target)))"

definition validateEnvelopeIdentityBindings ::
  "slot_summary list \<Rightarrow> authority_state \<Rightarrow> string \<Rightarrow> unit res" where
  "validateEnvelopeIdentityBindings envelopes authority field =
     and_then (foldM (bind_envelope field)
       (mapFrom (map (\<lambda>s. (key (sl_keyEnvelopeId s), envelopeSlotTargetKey s)) (keyEnvelopeSlots authority)))
       envelopes) (\<lambda>_. ok ())"

section \<open>Invitations\<close>

definition capability_issuer :: "nat \<Rightarrow> cvalue \<Rightarrow> bytes res" where
  "capability_issuer index value =
     (let name = indexed ''Invitation capability'' index in
      and_then (exactMap value (num_keys 5) name) (\<lambda>capability.
      id_at capability 1 MemberId (name @ '' issuer'')))"

text \<open>The loop over the capabilities, with the issuer found so far.\<close>

primrec one_issuer :: "nat \<Rightarrow> bytes option \<Rightarrow> cvalue list \<Rightarrow> bytes option res" where
  "one_issuer index found [] = ok found"
| "one_issuer index found (value # rest) =
     and_then (capability_issuer index value) (\<lambda>issuer.
     and_then (guard_not (case found of None \<Rightarrow> False | Some i \<Rightarrow> \<not> bytesEqual i issuer)
       (TypeError ''Invitation capabilities do not have one issuer Member'')) (\<lambda>_.
     one_issuer (Suc index) (Some issuer) rest))"

definition invitationCreation :: "platform \<Rightarrow> authenticated_event \<Rightarrow> authority_invitation res" where
  "invitationCreation P event =
     and_then (exactMap (ev_body event) (num_keys 6) ''Invitation Creation Event body'') (\<lambda>body.
     and_then (with_field body 1 (\<lambda>v. canonicalSetValue P v ''Invitation capabilities'' (\<lambda>_ entry. ok entry) True))
       (\<lambda>capabilityValues.
     and_then (one_issuer 0 None capabilityValues) (\<lambda>issuer.
     case issuer of
       None \<Rightarrow> throw (TypeError ''Invitation has no capability issuer'')
     | Some issuerMemberId \<Rightarrow>
         and_then (id_at body 0 InvitationId ''Invitation ID'') (\<lambda>invitationId.
         and_then (mapValue body 1) (\<lambda>caps.
         and_then (bytes_at body 2 32 ''Invitation Redemption verifier'') (\<lambda>redemption.
         and_then (bytes_at body 3 32 ''Invitation Cancellation verifier'') (\<lambda>cancellation.
         and_then (bytes_at body 4 32 ''Invitation Redemption Authority ID'') (\<lambda>authorityId.
         and_then (bytes_at body 5 32 ''Invitation receipt verification key'') (\<lambda>receiptKey.
         ok \<lparr>ain_invitationId = invitationId, ain_issuerMemberId = issuerMemberId, ain_capabilities = caps,
             ain_redemptionVerifier = redemption, ain_cancellationVerifier = cancellation,
             ain_redemptionAuthorityId = authorityId, ain_receiptVerificationKey = receiptKey,
             ain_creationRecordId = ev_recordId event\<rparr>)))))))))"

text \<open>\<open>some\<close> with a callback that may throw stops at the first true answer.\<close>

primrec grants_administrator :: "nat \<Rightarrow> cvalue list \<Rightarrow> bool res" where
  "grants_administrator index [] = ok False"
| "grants_administrator index (value # rest) =
     and_then (exactMap value (num_keys 5) (indexed ''Granted capability'' index)) (\<lambda>capability.
     and_then (mapValue capability 3) (\<lambda>action.
     if action = CText ''awsm.vault.administrator'' then ok True else grants_administrator (Suc index) rest))"

definition proposed_client :: "cmap \<Rightarrow> bytes \<Rightarrow> client_credential res" where
  "proposed_client certificateMap memberId =
     and_then (id_at certificateMap 0 ClientCredentialId ''Proposed Client Credential ID'') (\<lambda>i.
     and_then (bytes_at certificateMap 2 32 ''Proposed Client signing public key'') (\<lambda>signing.
     and_then (bytes_at certificateMap 3 32 ''Proposed Client wrapping public key'') (\<lambda>wrapping.
     ok \<lparr>cl_clientCredentialId = i, cl_memberId = memberId, cl_signingPublicKey = signing,
         cl_wrappingPublicKey = wrapping\<rparr>)))"

definition recovery_from :: "cmap \<Rightarrow> bytes \<Rightarrow> string \<Rightarrow> recovery_credential res" where
  "recovery_from descriptor memberId name =
     and_then (id_at descriptor 0 RecoveryCredentialId (name @ '' Recovery Credential ID'')) (\<lambda>i.
     and_then (with_field descriptor 2 (\<lambda>v. nonnegativeInteger v (name @ '' Recovery revision''))) (\<lambda>revision.
     and_then (bytes_at descriptor 3 32 (name @ '' Recovery signing public key'')) (\<lambda>signing.
     and_then (bytes_at descriptor 4 32 (name @ '' Recovery wrapping public key'')) (\<lambda>wrapping.
     ok \<lparr>rv_recoveryCredentialId = i, rv_memberId = memberId, rv_revision = revision,
         rv_signingPublicKey = signing, rv_wrappingPublicKey = wrapping\<rparr>))))"

definition parseInvitationAcceptance :: "platform \<Rightarrow> authenticated_event \<Rightarrow> accepted_invitation res" where
  "parseInvitationAcceptance P event =
     and_then (exactMap (ev_body event) (num_keys 3) ''Invitation Acceptance Event body'') (\<lambda>body.
     and_then (with_field body 0 (\<lambda>v. exactMap v (num_keys 8) ''Invitation Join Request'')) (\<lambda>joinMap.
     and_then (with_field body 1 (\<lambda>v. exactMap v (num_keys 8) ''Invitation Acceptance Proposal'')) (\<lambda>proposalMap.
     and_then (with_field body 2 (\<lambda>v. exactMap v (num_keys 6) ''Consumed Invitation receipt'')) (\<lambda>receiptMap.
     and_then (id_at joinMap 2 MemberId ''Proposed Member ID'') (\<lambda>memberId.
     and_then (with_field joinMap 3 (\<lambda>v. exactMap v (num_keys 4) ''Proposed Client Certificate'')) (\<lambda>certificateMap.
     and_then (with_field joinMap 4 (\<lambda>v. exactMap v (num_keys 5) ''Proposed Recovery Credential'')) (\<lambda>recoveryMap.
     and_then (with_field joinMap 1 (\<lambda>v.
       canonicalSetValue P v ''Granted portable capabilities'' (\<lambda>_ entry. ok entry) True)) (\<lambda>granted.
     and_then (grants_administrator 0 granted) (\<lambda>administrator.
     and_then (with_field proposalMap 7 (\<lambda>v. parseEnvelopeSlots P v ''Invitation Acceptance Envelope slots''))
       (\<lambda>envelopes.
     and_then (id_at joinMap 0 InvitationId ''Invitation ID'') (\<lambda>invitationId.
     and_then (proposed_client certificateMap memberId) (\<lambda>client.
     and_then (recovery_from recoveryMap memberId ''Proposed'') (\<lambda>recovery.
     and_then (bytes_at proposalMap 1 32 ''Invitation Join Request ID'') (\<lambda>joinRequestId.
     and_then (bytes_at receiptMap 4 32 ''Invitation Authority receipt ID'') (\<lambda>receiptId.
     and_then (with_field joinMap 1 (encodeCanonicalValue P)) (\<lambda>capabilitiesBytes.
     and_then (prefix_bytes P joinMap 4) (\<lambda>joinPrefix.
     and_then (bytes_at joinMap 5 64 ''Invitation Client possession signature'') (\<lambda>clientSignature.
     and_then (bytes_at joinMap 6 64 ''Invitation Recovery possession signature'') (\<lambda>recoverySignature.
     and_then (bytes_at joinMap 7 64 ''Invitation Redemption signature'') (\<lambda>redemptionSignature.
     and_then (prefix_bytes P receiptMap 4) (\<lambda>receiptPrefix.
     and_then (bytes_at receiptMap 5 64 ''Invitation receipt signature'') (\<lambda>receiptSignature.
     ok \<lparr>acc_invitationId = invitationId, acc_memberId = memberId, acc_clientCredential = client,
         acc_recoveryCredential = recovery, acc_administrator = administrator,
         acc_joinRequestId = joinRequestId, acc_authorityReceiptId = receiptId,
         acc_capabilitiesBytes = capabilitiesBytes, acc_joinRequestPrefixBytes = joinPrefix,
         acc_clientPossessionSignature = clientSignature, acc_recoveryPossessionSignature = recoverySignature,
         acc_redemptionSignature = redemptionSignature, acc_receiptPrefixBytes = receiptPrefix,
         acc_receiptSignature = receiptSignature, acc_envelopeSlots = envelopes\<rparr>))))))))))))))))))))))"

definition verifyInvitationAcceptance ::
  "platform \<Rightarrow> accepted_invitation \<Rightarrow> authority_invitation \<Rightarrow> unit res" where
  "verifyInvitationAcceptance P acceptance invitation =
     (let invalid = TypeError ''Invitation Acceptance possession or receipt signature is invalid'' in
      and_then (transcript ''awsm:invitation-join-request:v1'' [acc_joinRequestPrefixBytes acceptance]) (\<lambda>joinProof.
      and_then (guard_not
        (\<not> verify_detached P (acc_clientPossessionSignature acceptance) joinProof
             (cl_signingPublicKey (acc_clientCredential acceptance)) \<or>
         \<not> verify_detached P (acc_recoveryPossessionSignature acceptance) joinProof
             (rv_signingPublicKey (acc_recoveryCredential acceptance)) \<or>
         \<not> verify_detached P (acc_redemptionSignature acceptance) joinProof (ain_redemptionVerifier invitation))
        invalid) (\<lambda>_.
      and_then (verified P (acc_receiptSignature acceptance) ''awsm:invitation-receipt:v1''
        [acc_receiptPrefixBytes acceptance] (ain_receiptVerificationKey invitation)) (\<lambda>b.
      guard_not (\<not> b) invalid))))"

definition validateInvitationAcceptanceSlots :: "accepted_invitation \<Rightarrow> authority_state \<Rightarrow> unit res" where
  "validateInvitationAcceptanceSlots acceptance authority =
     and_then (validateExactEnvelopeTargetSet (acc_envelopeSlots acceptance)
       (concat (map (\<lambda>epoch.
          [target_key (ke_keyEpochId epoch) 1 (rv_recoveryCredentialId (acc_recoveryCredential acceptance))
             (Some (rv_revision (acc_recoveryCredential acceptance))),
           target_key (ke_keyEpochId epoch) 2 (cl_clientCredentialId (acc_clientCredential acceptance)) None])
         (keyEpochs authority)))
       ''Invitation Acceptance Envelope slots are not the complete target set'') (\<lambda>_.
     validateEnvelopeIdentityBindings (acc_envelopeSlots acceptance) authority ''Invitation Acceptance'')"

definition parseInvitationCancellation :: "platform \<Rightarrow> authenticated_event \<Rightarrow> cancelled_invitation res" where
  "parseInvitationCancellation P event =
     and_then (exactMap (ev_body event) (num_keys 2) ''Invitation Cancellation Event body'') (\<lambda>body.
     and_then (with_field body 0 (\<lambda>v. exactMap v (num_keys 3) ''Invitation Cancellation Request'')) (\<lambda>requestMap.
     and_then (with_field body 1 (\<lambda>v. exactMap v (num_keys 6) ''Cancelled Invitation receipt'')) (\<lambda>receiptMap.
     and_then (id_at requestMap 0 InvitationId ''Cancelled Invitation ID'') (\<lambda>invitationId.
     and_then (bytes_at receiptMap 2 32 ''Cancellation Request ID'') (\<lambda>requestId.
     and_then (bytes_at receiptMap 4 32 ''Cancellation Authority receipt ID'') (\<lambda>receiptId.
     and_then (bytes_at requestMap 1 32 ''Invitation Cancellation authority challenge'') (\<lambda>challenge.
     and_then (bytes_at requestMap 2 64 ''Invitation Cancellation signature'') (\<lambda>signature.
     and_then (prefix_bytes P receiptMap 4) (\<lambda>receiptPrefix.
     and_then (bytes_at receiptMap 5 64 ''Invitation Cancellation receipt signature'') (\<lambda>receiptSignature.
     ok \<lparr>can_invitationId = invitationId, can_cancellationRequestId = requestId,
         can_authorityReceiptId = receiptId, can_authorityChallenge = challenge,
         can_cancellationSignature = signature, can_receiptPrefixBytes = receiptPrefix,
         can_receiptSignature = receiptSignature\<rparr>))))))))))"

definition verifyInvitationCancellation ::
  "platform \<Rightarrow> cancelled_invitation \<Rightarrow> authority_invitation \<Rightarrow> unit res" where
  "verifyInvitationCancellation P cancellation invitation =
     (let invalid = TypeError ''Invitation Cancellation request or receipt signature is invalid'' in
      and_then (verified P (can_cancellationSignature cancellation) ''awsm:invitation-cancel-request:v1''
        [can_invitationId cancellation, can_authorityChallenge cancellation]
        (ain_cancellationVerifier invitation)) (\<lambda>request_ok.
      and_then (guard_not (\<not> request_ok) invalid) (\<lambda>_.
      and_then (verified P (can_receiptSignature cancellation) ''awsm:invitation-receipt:v1''
        [can_receiptPrefixBytes cancellation] (ain_receiptVerificationKey invitation)) (\<lambda>receipt_ok.
      guard_not (\<not> receipt_ok) invalid))))"

definition parseInvitationResolution :: "platform \<Rightarrow> authenticated_event \<Rightarrow> invitation_resolution res" where
  "parseInvitationResolution P event =
     and_then (exactMap (ev_body event) (num_keys 5) ''Invitation Conflict Resolution body'') (\<lambda>body.
     and_then (with_field body 3 (\<lambda>v. oneOfCodes v [1, 2] ''Invitation resolution outcome'')) (\<lambda>outcome.
     and_then (with_field body 4 (\<lambda>v. nullable v (\<lambda>b.
       byteString b 32 ''Selected Invitation Join Request ID''))) (\<lambda>selected.
     and_then (guard_not ((outcome = 1) \<noteq> (selected \<noteq> None))
       (TypeError ''Invitation Resolution outcome does not match its selected request'')) (\<lambda>_.
     and_then (id_at body 0 InvitationId ''Resolved Invitation ID'') (\<lambda>invitationId.
     and_then (with_field body 1 (\<lambda>v. canonicalSetValue P v ''Conflicting Invitation receipt IDs''
       (\<lambda>_ entry. and_then (byteString entry 32 ''Invitation receipt ID'') (\<lambda>b. ok (CBytes b))) True)) (\<lambda>receipts.
     and_then (with_field body 2 (\<lambda>v. idSetValue P v VaultRecordId ''Conflicting Invitation Record IDs'' True))
       (\<lambda>records.
     ok \<lparr>res_invitationId = invitationId, res_conflictingReceiptIds = map bytes_of receipts,
         res_conflictingRecordIds = records, res_outcome = outcome,
         res_selectedJoinRequestId = selected\<rparr>)))))))"

section \<open>Client Credentials\<close>

definition parseClientCredentialEnrollment :: "platform \<Rightarrow> authenticated_event \<Rightarrow> client_enrollment res" where
  "parseClientCredentialEnrollment P event =
     and_then (exactMap (ev_body event) (num_keys 4) ''Client Credential Enrollment body'') (\<lambda>body.
     and_then (mapValue body 0) (\<lambda>proposalValue.
     and_then (exactMap proposalValue (num_keys 6) ''Client Credential Enrollment Proposal'') (\<lambda>proposalMap.
     and_then (id_at proposalMap 1 MemberId ''Enrollment Member ID'') (\<lambda>memberId.
     and_then (with_field proposalMap 3 (\<lambda>v. exactMap v (num_keys 4) ''Proposed Client Certificate'')) (\<lambda>certificateMap.
     and_then (with_field proposalMap 4 (\<lambda>v.
       parseEnvelopeSlots P v ''Client Credential Enrollment Envelope slots'')) (\<lambda>envelopes.
     and_then (with_field body 1 (\<lambda>v. oneOfCodes v [1, 2] ''Enrollment authorization kind'')) (\<lambda>kind.
     and_then (with_field body 2 (\<lambda>v. nullable v (\<lambda>entry.
       identifierValue entry RecoveryCredentialId ''Authorizing Recovery Credential ID''))) (\<lambda>recoveryId.
     and_then (with_field body 3 (\<lambda>v. nullable v (\<lambda>entry.
       byteString entry 64 ''Recovery enrollment authorization''))) (\<lambda>authorization.
     and_then (guard_not ((kind = 2) \<noteq> (recoveryId \<noteq> None \<and> authorization \<noteq> None))
       (TypeError ''Recovery authorization fields do not match enrollment kind'')) (\<lambda>_.
     and_then (proposed_client certificateMap memberId) (\<lambda>client.
     and_then (encodeCanonicalValue P proposalValue) (\<lambda>proposalBytes.
     and_then (prefix_bytes P proposalMap 4) (\<lambda>proposalPrefix.
     and_then (bytes_at proposalMap 5 64 ''Proposed Client possession signature'') (\<lambda>signature.
     ok \<lparr>enr_memberId = memberId, enr_clientCredential = client, enr_authorizationKind = kind,
         enr_recoveryCredentialId = recoveryId, enr_recoveryAuthorization = authorization,
         enr_proposalBytes = proposalBytes, enr_proposalPrefixBytes = proposalPrefix,
         enr_possessionSignature = signature, enr_envelopeSlots = envelopes\<rparr>))))))))))))))"

definition verifyClientCredentialEnrollmentPossession :: "platform \<Rightarrow> client_enrollment \<Rightarrow> unit res" where
  "verifyClientCredentialEnrollmentPossession P enrollment =
     and_then (verified P (enr_possessionSignature enrollment) ''awsm:client-enrollment-proposal:v1''
       [enr_proposalPrefixBytes enrollment] (cl_signingPublicKey (enr_clientCredential enrollment))) (\<lambda>b.
     guard_not (\<not> b) (TypeError ''Client Credential Enrollment possession signature is invalid''))"

definition verifyRecoveryClientCredentialEnrollment ::
  "platform \<Rightarrow> client_enrollment \<Rightarrow> authority_state \<Rightarrow> unit res" where
  "verifyRecoveryClientCredentialEnrollment P enrollment authority =
     (case (enr_recoveryCredentialId enrollment, enr_recoveryAuthorization enrollment) of
        (Some recoveryId, Some authorization) \<Rightarrow>
          (case find (\<lambda>c. bytesEqual (rv_recoveryCredentialId c) recoveryId) (recoveryCredentials authority) of
             Some recovery \<Rightarrow>
               and_then (guard_not (\<not> rv_effective recovery \<or>
                   \<not> bytesEqual (rv_memberId recovery) (enr_memberId enrollment))
                 (TypeError ''Client Enrollment Recovery Credential is not effective for the Member'')) (\<lambda>_.
               and_then (transcript ''awsm:client-enrollment-proposal-id:v1'' [enr_proposalBytes enrollment]) (\<lambda>t.
               and_then (verified P authorization ''awsm:recovery-client-enrollment-authorization:v1''
                 [sha256 P t] (rv_signingPublicKey recovery)) (\<lambda>b.
               guard_not (\<not> b) (TypeError ''Client Enrollment Recovery authorization is invalid''))))
           | None \<Rightarrow> throw (TypeError ''Client Enrollment Recovery Credential is not effective for the Member''))
      | _ \<Rightarrow> throw (TypeError ''Recovery-authorized Enrollment is missing its authorization''))"

definition validateClientCredentialEnrollmentSlots :: "client_enrollment \<Rightarrow> authority_state \<Rightarrow> unit res" where
  "validateClientCredentialEnrollmentSlots enrollment authority =
     and_then (validateExactEnvelopeTargetSet (enr_envelopeSlots enrollment)
       (map (\<lambda>epoch. target_key (ke_keyEpochId epoch) 2
          (cl_clientCredentialId (enr_clientCredential enrollment)) None) (keyEpochs authority))
       ''Client Credential Enrollment Envelope slots are not the complete set'') (\<lambda>_.
     validateEnvelopeIdentityBindings (enr_envelopeSlots enrollment) authority ''Client Enrollment'')"

section \<open>Recovery Credentials\<close>

definition parseRecoveryCredentialReplacement ::
  "platform \<Rightarrow> authenticated_event \<Rightarrow> recovery_replacement res" where
  "parseRecoveryCredentialReplacement P event =
     and_then (exactMap (ev_body event) (num_keys 5) ''Recovery Credential Replacement body'') (\<lambda>body.
     and_then (id_at body 0 MemberId ''Recovery Replacement Member ID'') (\<lambda>memberId.
     and_then (mapValue body 2) (\<lambda>descriptorValue.
     and_then (exactMap descriptorValue (num_keys 5) ''Replacement Recovery Credential'') (\<lambda>descriptorMap.
     and_then (mapValue body 3) (\<lambda>slotsValue.
     and_then (with_field body 1 (\<lambda>v.
       idSetValue P v RecoveryCredentialId ''Replaced Recovery Credential IDs'' True)) (\<lambda>replaced.
     and_then (recovery_from descriptorMap memberId ''Replacement'') (\<lambda>recovery.
     and_then (encodeCanonicalValue P descriptorValue) (\<lambda>descriptorBytes.
     and_then (encodeCanonicalValue P slotsValue) (\<lambda>slotsBytes.
     and_then (parseEnvelopeSlots P slotsValue ''Recovery Replacement Envelope slots'') (\<lambda>envelopes.
     and_then (bytes_at body 4 64 ''Recovery replacement possession signature'') (\<lambda>signature.
     ok \<lparr>rpl_memberId = memberId, rpl_replacedRecoveryCredentialIds = replaced,
         rpl_recoveryCredential = recovery, rpl_replacementCredentialBytes = descriptorBytes,
         rpl_envelopeSlotsBytes = slotsBytes, rpl_envelopeSlots = envelopes,
         rpl_possessionSignature = signature\<rparr>)))))))))))"

definition verifyRecoveryCredentialReplacement ::
  "platform \<Rightarrow> recovery_replacement \<Rightarrow> authenticated_event \<Rightarrow> unit res" where
  "verifyRecoveryCredentialReplacement P replacement event =
     and_then (canonicalSet P (map CBytes (cx_authorityParentRecordIds event))) (\<lambda>parentSet.
     and_then (encodeCanonicalValue P (CArray parentSet)) (\<lambda>parentBytes.
     and_then (verified P (rpl_possessionSignature replacement) ''awsm:recovery-replacement-possession:v1''
       [cx_vaultId event, rpl_memberId replacement, parentBytes, rpl_replacementCredentialBytes replacement,
        rpl_envelopeSlotsBytes replacement] (rv_signingPublicKey (rpl_recoveryCredential replacement))) (\<lambda>b.
     guard_not (\<not> b) (TypeError ''Recovery Credential Replacement possession signature is invalid''))))"

definition validateRecoveryCredentialReplacementSlots ::
  "recovery_replacement \<Rightarrow> authority_state \<Rightarrow> unit res" where
  "validateRecoveryCredentialReplacementSlots replacement authority =
     and_then (validateExactEnvelopeTargetSet (rpl_envelopeSlots replacement)
       (map (\<lambda>epoch. target_key (ke_keyEpochId epoch) 1
          (rv_recoveryCredentialId (rpl_recoveryCredential replacement))
          (Some (rv_revision (rpl_recoveryCredential replacement)))) (keyEpochs authority))
       ''Recovery Replacement Envelope slots are not the complete set'') (\<lambda>_.
     validateEnvelopeIdentityBindings (rpl_envelopeSlots replacement) authority ''Recovery Replacement'')"

section \<open>Key Epochs and features\<close>

definition parseKeyEpochTransition :: "platform \<Rightarrow> authenticated_event \<Rightarrow> epoch_transition res" where
  "parseKeyEpochTransition P event =
     and_then (exactMap (ev_body event) (num_keys 4) ''Key Epoch Transition body'') (\<lambda>body.
     and_then (with_field body 0 (\<lambda>v. idSetValue P v KeyEpochId ''Parent Key Epoch IDs'' True)) (\<lambda>parentIds.
     and_then (id_at body 1 KeyEpochId ''New Key Epoch ID'') (\<lambda>epochId.
     and_then (with_field body 2 (\<lambda>v. nonnegativeInteger v ''Key Epoch display number'')) (\<lambda>displayNumber.
     and_then (with_field body 3 (\<lambda>v. parseEnvelopeSlots P v ''Key Epoch Transition Envelope slots'')) (\<lambda>envelopes.
     ok \<lparr>kt_parentKeyEpochIds = parentIds, kt_keyEpochId = epochId, kt_displayNumber = displayNumber,
         kt_envelopeSlots = envelopes\<rparr>)))))"

definition validateKeyEpochTransitionSlots :: "epoch_transition \<Rightarrow> authority_state \<Rightarrow> unit res" where
  "validateKeyEpochTransitionSlots transition authority =
     and_then (validateExactEnvelopeTargetSet (kt_envelopeSlots transition)
       (map (\<lambda>c. target_key (kt_keyEpochId transition) 1 (rv_recoveryCredentialId c) (Some (rv_revision c)))
          (filter rv_effective (recoveryCredentials authority)) @
        map (\<lambda>c. target_key (kt_keyEpochId transition) 2 (cl_clientCredentialId c) None)
          (filter cl_active (mapValues (clientCredentials authority))))
       ''Key Epoch Transition Envelope slots are not the exact eligible target set'') (\<lambda>_.
     validateEnvelopeIdentityBindings (kt_envelopeSlots transition) authority ''Key Epoch Transition'')"

definition parseKeyDelivery :: "platform \<Rightarrow> authenticated_event \<Rightarrow> key_delivery res" where
  "parseKeyDelivery P event =
     and_then (exactMap (ev_body event) (num_keys 1) ''Key Delivery body'') (\<lambda>body.
     and_then (with_field body 0 (\<lambda>v. parseEnvelopeSlots P v ''Key Delivery Envelope slots'')) (\<lambda>envelopes.
     ok \<lparr>kd_envelopeSlots = envelopes\<rparr>))"

definition delivery_eligible :: "authority_state \<Rightarrow> slot_summary \<Rightarrow> bool" where
  "delivery_eligible authority s =
     (let hasEpoch = list_ex (\<lambda>e. bytesEqual (ke_keyEpochId e) (sl_keyEpochId s)) (keyEpochs authority) in
      if hasEpoch \<and> sl_targetKind s = 1
      then sl_targetRevision s \<noteq> None \<and>
        list_ex (\<lambda>c. rv_effective c \<and> Some (rv_revision c) = sl_targetRevision s \<and>
          bytesEqual (rv_recoveryCredentialId c) (sl_targetCredentialId s) \<and>
          containsId (activeMemberIds authority) (rv_memberId c)) (recoveryCredentials authority)
      else if hasEpoch \<and> sl_targetKind s = 2
      then sl_targetRevision s = None \<and>
        list_ex (\<lambda>c. cl_active c \<and> bytesEqual (cl_clientCredentialId c) (sl_targetCredentialId s) \<and>
          containsId (activeMemberIds authority) (cl_memberId c)) (mapValues (clientCredentials authority))
      else False)"

definition delivery_step :: "authority_state \<Rightarrow> string list \<Rightarrow> slot_summary \<Rightarrow> string list res" where
  "delivery_step authority targetKeys s =
     (let targetKey = envelopeSlotTargetKey s in
      and_then (guard_not (\<not> delivery_eligible authority s)
        (TypeError ''Key Delivery target is not currently eligible'')) (\<lambda>_.
      and_then (guard_not (targetKey \<in> set targetKeys)
        (TypeError ''Key Delivery contains more than one Envelope for one target'')) (\<lambda>_.
      and_then (guard_not (list_ex (\<lambda>existing.
          bytesEqual (sl_keyEnvelopeId existing) (sl_keyEnvelopeId s) \<and>
          envelopeSlotTargetKey existing = targetKey) (keyEnvelopeSlots authority))
        (TypeError ''Key Delivery Envelope slot is already present'')) (\<lambda>_.
      ok (targetKey # targetKeys)))))"

definition validateKeyDelivery :: "key_delivery \<Rightarrow> authority_state \<Rightarrow> unit res" where
  "validateKeyDelivery delivery authority =
     and_then (foldM (delivery_step authority) [] (kd_envelopeSlots delivery)) (\<lambda>_.
     validateEnvelopeIdentityBindings (kd_envelopeSlots delivery) authority ''Key Delivery'')"

definition authorityFeatureManifest :: "platform \<Rightarrow> bytes \<Rightarrow> authority_feature_manifest res" where
  "authorityFeatureManifest P bs =
     and_then (featureManifestId P bs) (\<lambda>i.
     and_then (decodeFeatureManifest P bs) (\<lambda>manifest.
     ok \<lparr>afm_id = i, afm_bytes = bs, afm_manifest = manifest\<rparr>))"

definition complete_manifest :: "cvalue \<Rightarrow> cvalue res" where
  "complete_manifest value =
     (case value of CBytes b \<Rightarrow> ok (CBytes b)
      | _ \<Rightarrow> throw (TypeError ''Added Feature Manifest must be complete bytes''))"

definition parseFeatureActivation :: "platform \<Rightarrow> authenticated_event \<Rightarrow> feature_activation res" where
  "parseFeatureActivation P event =
     and_then (exactMap (ev_body event) (num_keys 3) ''Feature Activation body'') (\<lambda>body.
     and_then (id_at body 0 RequiredFeatureSetId ''Previous Required Feature Set ID'') (\<lambda>previous.
     and_then (with_field body 1 (\<lambda>v.
       canonicalSetValue P v ''Added Feature Manifests'' (\<lambda>_. complete_manifest) True)) (\<lambda>added.
     and_then (traverse (\<lambda>v. authorityFeatureManifest P (bytes_of v)) added) (\<lambda>manifests.
     and_then (id_at body 2 RequiredFeatureSetId ''Resulting Required Feature Set ID'') (\<lambda>resulting.
     ok \<lparr>fa_previousFeatureSetId = previous, fa_addedManifests = manifests,
         fa_resultingFeatureSetId = resulting\<rparr>)))))"

section \<open>Requirements of an Event\<close>

definition event_envelope_slots :: "platform \<Rightarrow> authenticated_event \<Rightarrow> slot_summary list res" where
  "event_envelope_slots P event =
     (if ev_type event = 6 then and_then (parseInvitationAcceptance P event) (\<lambda>a. ok (acc_envelopeSlots a))
      else if ev_type event = 9 then and_then (parseClientCredentialEnrollment P event) (\<lambda>e. ok (enr_envelopeSlots e))
      else if ev_type event = 11 then and_then (parseRecoveryCredentialReplacement P event) (\<lambda>r. ok (rpl_envelopeSlots r))
      else if ev_type event = 12 then and_then (parseKeyEpochTransition P event) (\<lambda>t. ok (kt_envelopeSlots t))
      else if ev_type event = 13 then and_then (parseKeyDelivery P event) (\<lambda>d. ok (kd_envelopeSlots d))
      else ok [])"

definition canonicalAuthorityKeyEnvelopeRequirements ::
  "platform \<Rightarrow> authenticated_event \<Rightarrow> (bytes \<times> bytes) list res" where
  "canonicalAuthorityKeyEnvelopeRequirements P event =
     (if ev_family event \<noteq> 1 then ok []
      else and_then (event_envelope_slots P event) (\<lambda>envelopes.
        ok (map (\<lambda>s. (sl_keyEnvelopeId s, sl_keyEpochId s)) envelopes)))"

definition canonicalAuthorityFeatureManifestRequirements ::
  "platform \<Rightarrow> authenticated_event \<Rightarrow> authority_feature_manifest list res" where
  "canonicalAuthorityFeatureManifestRequirements P event =
     (if ev_family event = 1 \<and> ev_type event = 14
      then and_then (parseFeatureActivation P event) (\<lambda>a. ok (fa_addedManifests a))
      else ok [])"

end
