(* ===== verification/Authority_State.thy ===== *)
theory Authority_State
  imports Authority_Events
begin

text \<open>
  The class \<open>CanonicalAuthorityReplay\<close> of \<open>runtime/projection/canonical-authority-replay.ts\<close>, first part: its
  fields and \<open>stateAt\<close>, which computes the Authority State at a frontier from the anchor state and the
  accepted Events below the frontier. The method is one long function; every paragraph of it is a definition
  here, in the order of the source, and \<open>stateAt\<close> composes them.
\<close>

section \<open>The replay\<close>

text \<open>
  \<open>#anchorEnvelopeSlots\<close> and \<open>#anchorFeatureManifests\<close> are fields of the anchor state. A set of the source
  whose order is never read is a list.
\<close>

record authority_replay =
  ar_vaultId :: bytes
  ar_anchorRecordId :: bytes
  ar_anchorState :: authority_state
  ar_anchorCauseRecordIds :: "bytes list"
  ar_supportedFeatureManifestIds :: "string list"
  ar_graph :: causal_graph
  ar_events :: "authenticated_event list"
  ar_acceptedInvitations :: "(string, accepted_invitation) jmap"
  ar_cancelledInvitations :: "(string, cancelled_invitation) jmap"
  ar_resolvedInvitations :: "(string, resolved_invitation) jmap"
  ar_clientEnrollments :: "(string, client_enrollment) jmap"
  ar_recoveryReplacements :: "(string, recovery_replacement) jmap"
  ar_keyEpochTransitions :: "(string, epoch_transition) jmap"
  ar_keyDeliveries :: "(string, key_delivery) jmap"
  ar_featureActivations :: "(string, feature_activation) jmap"

definition isIncluded :: "authority_replay \<Rightarrow> bytes \<Rightarrow> bytes list \<Rightarrow> bool" where
  "isIncluded R recordId frontier =
     list_ex (\<lambda>root. bytesEqual recordId root \<or> isAncestor (ar_graph R) recordId root) frontier"

definition events_at :: "authority_replay \<Rightarrow> bytes list \<Rightarrow> authenticated_event list" where
  "events_at R frontier = filter (\<lambda>e. isIncluded R (ev_recordId e) frontier) (ar_events R)"

definition authority_events_at :: "authority_replay \<Rightarrow> bytes list \<Rightarrow> authenticated_event list" where
  "authority_events_at R frontier = filter (\<lambda>e. ev_family e = 1) (events_at R frontier)"

definition fact_of :: "(string, 'f) jmap \<Rightarrow> authenticated_event \<Rightarrow> string \<Rightarrow> 'f res" where
  "fact_of facts event message =
     (case mapGet facts (key (ev_recordId event)) of
        None \<Rightarrow> throw (TypeError message)
      | Some f \<Rightarrow> ok f)"

abbreviation accepted_fact :: "authority_replay \<Rightarrow> authenticated_event \<Rightarrow> accepted_invitation res" where
  "accepted_fact R e \<equiv> fact_of (ar_acceptedInvitations R) e ''Invitation Acceptance state is missing''"

abbreviation cancelled_fact :: "authority_replay \<Rightarrow> authenticated_event \<Rightarrow> cancelled_invitation res" where
  "cancelled_fact R e \<equiv> fact_of (ar_cancelledInvitations R) e ''Invitation Cancellation state is missing''"

abbreviation replacement_fact :: "authority_replay \<Rightarrow> authenticated_event \<Rightarrow> recovery_replacement res" where
  "replacement_fact R e \<equiv>
     fact_of (ar_recoveryReplacements R) e ''Recovery Credential Replacement state is missing''"

abbreviation activation_fact :: "authority_replay \<Rightarrow> authenticated_event \<Rightarrow> feature_activation res" where
  "activation_fact R e \<equiv> fact_of (ar_featureActivations R) e ''Feature Activation state is missing''"

section \<open>Invitations that ended\<close>

record terminal_fact = invitation_candidate +
  tf_causeId :: bytes
  tf_invitationId :: bytes
  tf_acceptance :: "accepted_invitation option"

definition anchor_terminal_facts :: "authority_state \<Rightarrow> (string, terminal_fact list) jmap" where
  "anchor_terminal_facts anchor =
     mapFrom (map (\<lambda>conflict. (key (icf_invitationId conflict),
       map (\<lambda>c. \<lparr>ic_headRecordId = ic_headRecordId c, ic_outcome = ic_outcome c,
         ic_authorityReceiptId = ic_authorityReceiptId c, ic_joinRequestId = ic_joinRequestId c,
         ic_memberId = ic_memberId c, tf_causeId = ic_headRecordId c,
         tf_invitationId = icf_invitationId conflict, tf_acceptance = None\<rparr>) (icf_candidates conflict)))
       (invitationConflicts anchor))"

definition terminal_fact_of :: "authority_replay \<Rightarrow> authenticated_event \<Rightarrow> terminal_fact option res" where
  "terminal_fact_of R event =
     (if ev_type event = 6 then
        and_then (accepted_fact R event) (\<lambda>a.
        ok (Some \<lparr>ic_headRecordId = ev_recordId event, ic_outcome = 1,
          ic_authorityReceiptId = acc_authorityReceiptId a, ic_joinRequestId = Some (acc_joinRequestId a),
          ic_memberId = Some (acc_memberId a), tf_causeId = ev_recordId event,
          tf_invitationId = acc_invitationId a, tf_acceptance = Some a\<rparr>))
      else if ev_type event = 7 then
        and_then (cancelled_fact R event) (\<lambda>c.
        ok (Some \<lparr>ic_headRecordId = ev_recordId event, ic_outcome = 2,
          ic_authorityReceiptId = can_authorityReceiptId c, ic_joinRequestId = None,
          ic_memberId = None, tf_causeId = ev_recordId event,
          tf_invitationId = can_invitationId c, tf_acceptance = None\<rparr>))
      else ok None)"

definition terminal_facts :: "authority_replay \<Rightarrow> bytes list \<Rightarrow> (string, terminal_fact list) jmap res" where
  "terminal_facts R frontier =
     foldM (\<lambda>m e. and_then (terminal_fact_of R e) (\<lambda>f.
         ok (case f of None \<Rightarrow> m | Some terminal \<Rightarrow> group_push (\<lambda>f. key (tf_invitationId f)) m terminal)))
       (anchor_terminal_facts (ar_anchorState R)) (authority_events_at R frontier)"

type_synonym resolution_head = "bytes \<times> resolved_invitation"

definition invitation_resolutions ::
  "authority_replay \<Rightarrow> bytes list \<Rightarrow> (string, resolution_head list) jmap res" where
  "invitation_resolutions R frontier =
     foldM (\<lambda>m e. and_then (fact_of (ar_resolvedInvitations R) e ''Invitation Resolution state is missing'') (\<lambda>r.
         ok (group_push (\<lambda>h. key (res_invitationId (snd h))) m (ev_recordId e, r))))
       [] (filter (\<lambda>e. ev_type e = 8) (authority_events_at R frontier))"

definition effective_resolutions ::
  "authority_replay \<Rightarrow> (string, resolution_head list) jmap \<Rightarrow> (string, resolution_head) jmap res" where
  "effective_resolutions R groups =
     traverse (\<lambda>(invitationKey, resolutions).
       and_then (causalMaxima fst resolutions (ar_graph R)) (\<lambda>heads.
       if length heads \<noteq> 1
       then throw (TypeError ''Concurrent Invitation Conflict Resolutions cannot yet be reduced'')
       else ok (invitationKey, hd heads))) groups"

record resolved_fence =
  rf_invitationId :: bytes
  rf_causeRecordIds :: "bytes list"
  rf_dischargeRecordId :: bytes

record settlement =
  se_effectiveAcceptances :: "string list"
  se_conflicts :: "invitation_conflict list"
  se_resolvedFences :: "resolved_fence list"

definition candidate_of :: "terminal_fact \<Rightarrow> invitation_candidate" where
  "candidate_of f =
     \<lparr>ic_headRecordId = ic_headRecordId f, ic_outcome = ic_outcome f,
      ic_authorityReceiptId = ic_authorityReceiptId f, ic_joinRequestId = ic_joinRequestId f,
      ic_memberId = ic_memberId f\<rparr>"

text \<open>The key of an outcome; spreading a missing identifier throws.\<close>

definition outcome_key :: "terminal_fact \<Rightarrow> string res" where
  "outcome_key f =
     (if ic_outcome f = 1
      then (case (ic_joinRequestId f, ic_memberId f) of
              (Some j, Some m) \<Rightarrow> ok (''1:'' @ key j @ '':'' @ key m)
            | _ \<Rightarrow> throw (TypeError ''object null is not iterable (cannot read property Symbol(Symbol.iterator))''))
      else ok ''2'')"

definition joined_with :: "bytes \<Rightarrow> 'a invitation_candidate_scheme \<Rightarrow> bool" where
  "joined_with request c =
     (ic_outcome c = 1 \<and> (case ic_joinRequestId c of None \<Rightarrow> False | Some j \<Rightarrow> bytesEqual j request))"

definition selected_acceptances :: "resolved_invitation \<Rightarrow> terminal_fact list \<Rightarrow> string list res" where
  "selected_acceptances resolution heads =
     (case res_selectedJoinRequestId resolution of
        None \<Rightarrow> ok []
      | Some request \<Rightarrow>
          let selectedHeads = filter (joined_with request) heads in
          if selectedHeads = []
          then throw (TypeError ''Invitation Resolution selected candidate is unavailable'')
          else ok (map (\<lambda>h. key (ic_headRecordId h)) selectedHeads))"

definition settle_resolved ::
  "authority_replay \<Rightarrow> bytes \<Rightarrow> resolution_head \<Rightarrow> terminal_fact list \<Rightarrow> settlement \<Rightarrow> settlement res" where
  "settle_resolved R invitationId resolved heads S =
     (let (causeId, resolution) = resolved in
      and_then (guard_not (list_ex (\<lambda>h. \<not> isAncestor (ar_graph R) (ic_headRecordId h) causeId) heads)
        (TypeError ''Invitation Resolution is concurrent with a terminal candidate'')) (\<lambda>_.
      and_then (selected_acceptances resolution heads) (\<lambda>selected.
      ok (S\<lparr>se_effectiveAcceptances := se_effectiveAcceptances S @ selected,
        se_resolvedFences := se_resolvedFences S @
          (if length (res_rejectedConsumedRecordIds resolution) > 0
           then [\<lparr>rf_invitationId = invitationId, rf_causeRecordIds = res_rejectedConsumedRecordIds resolution,
             rf_dischargeRecordId = causeId\<rparr>] else [])\<rparr>))))"

definition settle_unresolved :: "bytes \<Rightarrow> terminal_fact list \<Rightarrow> settlement \<Rightarrow> settlement res" where
  "settle_unresolved invitationId heads S =
     and_then (traverse outcome_key heads) (\<lambda>outcomes.
     if card (set outcomes) > 1
     then ok (S\<lparr>se_conflicts := se_conflicts S @
       [\<lparr>icf_invitationId = invitationId, icf_candidates = map candidate_of heads\<rparr>]\<rparr>)
     else ok (S\<lparr>se_effectiveAcceptances := se_effectiveAcceptances S @
       map (\<lambda>h. key (ic_headRecordId h)) (filter (\<lambda>h. ic_outcome h = 1) heads)\<rparr>))"

definition settle_invitation ::
  "authority_replay \<Rightarrow> (string, resolution_head) jmap \<Rightarrow> settlement \<Rightarrow> terminal_fact list \<Rightarrow> settlement res" where
  "settle_invitation R resolutions S facts =
     and_then (causalMaxima tf_causeId facts (ar_graph R)) (\<lambda>maxima.
     let heads = sort_by (\<lambda>l r. compareBytes (ic_headRecordId l) (ic_headRecordId r)) maxima in
     case heads of
       [] \<Rightarrow> throw (TypeError ''Invitation terminal state is empty'')
     | first # _ \<Rightarrow>
         (case mapGet resolutions (key (tf_invitationId first)) of
            Some resolved \<Rightarrow> settle_resolved R (tf_invitationId first) resolved heads S
          | None \<Rightarrow> settle_unresolved (tf_invitationId first) heads S))"

definition settled_invitations :: "authority_replay \<Rightarrow> bytes list \<Rightarrow> settlement res" where
  "settled_invitations R frontier =
     and_then (terminal_facts R frontier) (\<lambda>facts.
     and_then (invitation_resolutions R frontier) (\<lambda>groups.
     and_then (effective_resolutions R groups) (\<lambda>resolutions.
     and_then (foldM (settle_invitation R resolutions)
       \<lparr>se_effectiveAcceptances = [], se_conflicts = [], se_resolvedFences = []\<rparr> (mapValues facts)) (\<lambda>S.
     ok (S\<lparr>se_conflicts := sort_by (\<lambda>l r. compareBytes (icf_invitationId l) (icf_invitationId r))
       (se_conflicts S)\<rparr>)))))"

section \<open>Members and Administrators\<close>

record administrator_fact =
  adt_memberId :: bytes
  adt_causeId :: bytes
  adt_administrator :: bool

record membership =
  mb_activeMembers :: "(string, bytes) jmap"
  mb_permanentMemberRequests :: "(string, string) jmap"
  mb_administratorFacts :: "administrator_fact list"
  mb_explicitlyClosed :: bool

definition anchor_membership :: "authority_replay \<Rightarrow> membership" where
  "anchor_membership R =
     (let anchor = ar_anchorState R in
      \<lparr>mb_activeMembers = mapFrom (map (\<lambda>m. (key m, m)) (activeMemberIds anchor)),
       mb_permanentMemberRequests = mapFrom (map (\<lambda>m. (key m, ''anchor'')) (activeMemberIds anchor)),
       mb_administratorFacts =
         map (\<lambda>m. \<lparr>adt_memberId = m, adt_causeId = ar_anchorRecordId R, adt_administrator = True\<rparr>)
           (administratorIds anchor) @
         concat (map (\<lambda>c. map (\<lambda>a. \<lparr>adt_memberId = adf_memberId c, adt_causeId = adc_headRecordId a,
           adt_administrator = adc_administrator a\<rparr>) (adf_candidates c)) (administratorConflicts anchor)),
       mb_explicitlyClosed = (lifecycle anchor = 2)\<rparr>)"

definition target_member :: "authenticated_event \<Rightarrow> nat \<Rightarrow> string \<Rightarrow> bytes res" where
  "target_member event n name =
     and_then (exactMap (ev_body event) (num_keys n) name) (\<lambda>body.
     id_at body 0 MemberId ''Target Member ID'')"

definition admit_member ::
  "string list \<Rightarrow> authenticated_event \<Rightarrow> accepted_invitation \<Rightarrow> membership \<Rightarrow> membership res" where
  "admit_member effective event acceptance M =
     (let memberKey = key (acc_memberId acceptance); requestKey = key (acc_joinRequestId acceptance) in
      and_then (guard_not (case mapGet (mb_permanentMemberRequests M) memberKey of
          None \<Rightarrow> False | Some prior \<Rightarrow> prior \<noteq> requestKey)
        (TypeError ''Invitation Acceptance reuses a permanent Member identity'')) (\<lambda>_.
      let M = M\<lparr>mb_permanentMemberRequests := mapSet (mb_permanentMemberRequests M) memberKey requestKey\<rparr> in
      if key (ev_recordId event) \<notin> set effective then ok M
      else ok (M\<lparr>mb_activeMembers := mapSet (mb_activeMembers M) memberKey (acc_memberId acceptance),
        mb_administratorFacts := mb_administratorFacts M @
          (if acc_administrator acceptance
           then [\<lparr>adt_memberId = acc_memberId acceptance, adt_causeId = ev_recordId event,
             adt_administrator = True\<rparr>] else [])\<rparr>)))"

definition membership_step ::
  "authority_replay \<Rightarrow> string list \<Rightarrow> membership \<Rightarrow> authenticated_event \<Rightarrow> membership res" where
  "membership_step R effective M event =
     (if ev_family event = 1 \<and> ev_type event = 6 then
        and_then (accepted_fact R event) (\<lambda>acceptance. admit_member effective event acceptance M)
      else if ev_family event = 1 \<and> ev_type event = 2 then
        and_then (target_member event 1 ''Membership End Event body'') (\<lambda>memberId.
        ok (M\<lparr>mb_activeMembers := AList.delete (key memberId) (mb_activeMembers M)\<rparr>))
      else if ev_family event = 1 \<and> (ev_type event = 3 \<or> ev_type event = 4) then
        and_then (target_member event 2 ''Administrator role Event body'') (\<lambda>memberId.
        ok (M\<lparr>mb_administratorFacts := mb_administratorFacts M @
          [\<lparr>adt_memberId = memberId, adt_causeId = ev_recordId event,
            adt_administrator = (ev_type event = 3)\<rparr>]\<rparr>))
      else if ev_family event = 3 \<and> ev_type event = 2 then ok (M\<lparr>mb_explicitlyClosed := True\<rparr>)
      else ok M)"

definition membership_at :: "authority_replay \<Rightarrow> string list \<Rightarrow> bytes list \<Rightarrow> membership res" where
  "membership_at R effective frontier =
     foldM (membership_step R effective) (anchor_membership R) (events_at R frontier)"

definition administrator_step ::
  "authority_replay \<Rightarrow> (string, bytes) jmap \<Rightarrow> bytes list \<times> administrator_conflict list \<Rightarrow>
     administrator_fact list \<Rightarrow> (bytes list \<times> administrator_conflict list) res" where
  "administrator_step R active result facts =
     (case facts of
        [] \<Rightarrow> ok result
      | first # _ \<Rightarrow>
          (let memberId = adt_memberId first; (administrators, conflicts) = result in
           if \<not> mapHas active (key memberId) then ok result
           else and_then (causalMaxima adt_causeId facts (ar_graph R)) (\<lambda>heads.
             if list_ex adt_administrator heads \<and> list_ex (\<lambda>h. \<not> adt_administrator h) heads
             then ok (administrators, conflicts @ [\<lparr>adf_memberId = memberId, adf_candidates =
               sort_by (\<lambda>l r. compareBytes (adc_headRecordId l) (adc_headRecordId r))
                 (map (\<lambda>h. \<lparr>adc_headRecordId = adt_causeId h, adc_administrator = adt_administrator h\<rparr>) heads)\<rparr>])
             else if (case heads of [] \<Rightarrow> False | h # _ \<Rightarrow> adt_administrator h)
             then ok (administrators @ [memberId], conflicts)
             else ok result)))"

definition administrators_of ::
  "authority_replay \<Rightarrow> membership \<Rightarrow> (bytes list \<times> administrator_conflict list) res" where
  "administrators_of R M =
     and_then (foldM (administrator_step R (mb_activeMembers M)) ([], [])
       (mapValues (group_by (\<lambda>f. key (adt_memberId f)) (mb_administratorFacts M)))) (\<lambda>(ids, conflicts).
     ok (sort_by compareBytes ids, sort_by (\<lambda>l r. compareBytes (adf_memberId l) (adf_memberId r)) conflicts))"

section \<open>Active Invitations\<close>

definition create_invitation ::
  "platform \<Rightarrow> (string, authority_invitation) jmap \<times> (string, bytes) jmap \<Rightarrow> authenticated_event \<Rightarrow>
     ((string, authority_invitation) jmap \<times> (string, bytes) jmap) res" where
  "create_invitation P result event =
     (let (active, bodies) = result in
      and_then (invitationCreation P event) (\<lambda>invitation.
      let invitationKey = key (ain_invitationId invitation) in
      and_then (encodeCanonicalValue P (ev_body event)) (\<lambda>bodyBytes.
      and_then (guard_not (case mapGet bodies invitationKey of
          None \<Rightarrow> False | Some prior \<Rightarrow> \<not> bytesEqual prior bodyBytes)
        (TypeError ''Invitation ID has incompatible authenticated creation facts'')) (\<lambda>_.
      ok (mapSet active invitationKey invitation, mapSet bodies invitationKey bodyBytes)))))"

definition end_invitation ::
  "authority_replay \<Rightarrow> (string, authority_invitation) jmap \<Rightarrow> authenticated_event \<Rightarrow>
     (string, authority_invitation) jmap res" where
  "end_invitation R active event =
     (if ev_type event = 6 then
        and_then (accepted_fact R event) (\<lambda>a. ok (AList.delete (key (acc_invitationId a)) active))
      else if ev_type event = 7 then
        and_then (cancelled_fact R event) (\<lambda>c. ok (AList.delete (key (can_invitationId c)) active))
      else ok active)"

definition invitations_at ::
  "platform \<Rightarrow> authority_replay \<Rightarrow> bytes list \<Rightarrow> (string, authority_invitation) jmap res" where
  "invitations_at P R frontier =
     and_then (foldM (create_invitation P)
       (mapFrom (map (\<lambda>i. (key (ain_invitationId i), i)) (activeInvitations (ar_anchorState R))), [])
       (filter (\<lambda>e. ev_type e = 5) (authority_events_at R frontier))) (\<lambda>(active, _).
     foldM (end_invitation R) active (authority_events_at R frontier))"

section \<open>Credentials\<close>

definition target_credential :: "authenticated_event \<Rightarrow> bytes res" where
  "target_credential event =
     and_then (exactMap (ev_body event) (num_keys 1) ''Client Credential End Event body'') (\<lambda>body.
     id_at body 0 ClientCredentialId ''Target Client Credential ID'')"

definition ended_credentials :: "authority_replay \<Rightarrow> bytes list \<Rightarrow> string list res" where
  "ended_credentials R frontier =
     traverse (\<lambda>e. and_then (target_credential e) (\<lambda>i. ok (key i)))
       (filter (\<lambda>e. ev_type e = 10) (authority_events_at R frontier))"

definition recovery_fence_key :: "bytes \<Rightarrow> bytes \<Rightarrow> string" where
  "recovery_fence_key memberId recoveryCredentialId = key memberId @ '':'' @ key recoveryCredentialId"

definition recovery_fence_causes :: "authority_replay \<Rightarrow> bytes list \<Rightarrow> (string, bytes list) jmap res" where
  "recovery_fence_causes R frontier =
     foldM (\<lambda>m e. and_then (replacement_fact R e) (\<lambda>replacement.
         ok (foldl (\<lambda>m i. let k = recovery_fence_key (rpl_memberId replacement) i in
             mapSet m k ((case mapGet m k of None \<Rightarrow> [] | Some causes \<Rightarrow> causes) @ [ev_recordId e]))
           m (rpl_replacedRecoveryCredentialIds replacement))))
       [] (filter (\<lambda>e. ev_type e = 11) (authority_events_at R frontier))"

text \<open>
  Enrollments authorized by a Recovery Credential that a Replacement not above the Enrollment replaced.
\<close>

definition dominated_enrollment ::
  "authority_replay \<Rightarrow> (string, bytes list) jmap \<Rightarrow> authenticated_event \<Rightarrow> bool" where
  "dominated_enrollment R causes event =
     (case mapGet (ar_clientEnrollments R) (key (ev_recordId event)) of
        None \<Rightarrow> False
      | Some enrollment \<Rightarrow>
          (case enr_recoveryCredentialId enrollment of
             None \<Rightarrow> False
           | Some i \<Rightarrow>
               enr_authorizationKind enrollment = 2 \<and>
               (case mapGet causes (recovery_fence_key (enr_memberId enrollment) i) of
                  None \<Rightarrow> False
                | Some ids \<Rightarrow> list_ex (\<lambda>c. \<not> isAncestor (ar_graph R) (ev_recordId event) c) ids)))"

definition dominated_enrollments ::
  "authority_replay \<Rightarrow> (string, bytes list) jmap \<Rightarrow> bytes list \<Rightarrow> string list" where
  "dominated_enrollments R causes frontier =
     map (\<lambda>e. key (ev_recordId e))
       (filter (\<lambda>e. ev_type e = 9 \<and> dominated_enrollment R causes e) (authority_events_at R frontier))"

record credential_ledger =
  lg_clientCredentials :: "(string, authority_client_credential) jmap"
  lg_recoveryCandidates :: "(string, recovery_credential) jmap"
  lg_recoveryCauseIds :: "(string, bytes) jmap"
  lg_replacedRecoveryCredentialIds :: "string list"

definition addClientCredential ::
  "(string, bytes) jmap \<Rightarrow> string list \<Rightarrow> 'a client_credential_scheme \<Rightarrow> bool \<Rightarrow>
     (string, authority_client_credential) jmap \<Rightarrow> (string, authority_client_credential) jmap res" where
  "addClientCredential activeMembers endedCredentialIds credential eligible clients =
     (let credentialKey = key (cl_clientCredentialId credential);
          active = (eligible \<and> mapHas activeMembers (key (cl_memberId credential)) \<and>
            credentialKey \<notin> set endedCredentialIds) in
      case mapGet clients credentialKey of
        Some existing \<Rightarrow>
          (if \<not> bytesEqual (cl_memberId existing) (cl_memberId credential) \<or>
              \<not> bytesEqual (cl_signingPublicKey existing) (cl_signingPublicKey credential) \<or>
              \<not> bytesEqual (cl_wrappingPublicKey existing) (cl_wrappingPublicKey credential)
           then throw (TypeError ''Authority State reuses a Client Credential identity'')
           else if active \<and> \<not> cl_active existing
           then ok (mapSet clients credentialKey (existing\<lparr>cl_active := True\<rparr>))
           else ok clients)
      | None \<Rightarrow> ok (mapSet clients credentialKey (with_active credential active)))"

definition addRecoveryCredential ::
  "recovery_credential \<Rightarrow> bytes \<Rightarrow> credential_ledger \<Rightarrow> credential_ledger res" where
  "addRecoveryCredential credential causeId L =
     (let credentialKey = key (rv_recoveryCredentialId credential) in
      case mapGet (lg_recoveryCandidates L) credentialKey of
        Some existing \<Rightarrow>
          (if \<not> bytesEqual (rv_memberId existing) (rv_memberId credential) \<or>
              rv_revision existing \<noteq> rv_revision credential \<or>
              \<not> bytesEqual (rv_signingPublicKey existing) (rv_signingPublicKey credential) \<or>
              \<not> bytesEqual (rv_wrappingPublicKey existing) (rv_wrappingPublicKey credential)
           then throw (TypeError ''Authority State reuses a Recovery Credential identity'')
           else ok L)
      | None \<Rightarrow>
          ok (L\<lparr>lg_recoveryCandidates := mapSet (lg_recoveryCandidates L) credentialKey credential,
            lg_recoveryCauseIds := mapSet (lg_recoveryCauseIds L) credentialKey causeId\<rparr>))"

definition add_client ::
  "(string, bytes) jmap \<Rightarrow> string list \<Rightarrow> 'a client_credential_scheme \<Rightarrow> bool \<Rightarrow> credential_ledger \<Rightarrow>
     credential_ledger res" where
  "add_client activeMembers endedCredentialIds credential eligible L =
     and_then (addClientCredential activeMembers endedCredentialIds credential eligible (lg_clientCredentials L))
       (\<lambda>clients. ok (L\<lparr>lg_clientCredentials := clients\<rparr>))"

definition anchor_recovery :: "authority_recovery_credential \<Rightarrow> recovery_credential" where
  "anchor_recovery c =
     \<lparr>rv_recoveryCredentialId = rv_recoveryCredentialId c, rv_memberId = rv_memberId c,
      rv_revision = rv_revision c, rv_signingPublicKey = rv_signingPublicKey c,
      rv_wrappingPublicKey = rv_wrappingPublicKey c\<rparr>"

definition anchor_recovery_cause :: "authority_replay \<Rightarrow> bytes \<Rightarrow> bytes" where
  "anchor_recovery_cause R i =
     (case find (\<lambda>c. bytesEqual (rvc_recoveryCredentialId c) i)
         (concat (map rvf_candidates (recoveryConflicts (ar_anchorState R)))) of
        Some c \<Rightarrow> rvc_headRecordId c
      | None \<Rightarrow> ar_anchorRecordId R)"

definition anchor_ledger ::
  "authority_replay \<Rightarrow> (string, bytes) jmap \<Rightarrow> string list \<Rightarrow> credential_ledger res" where
  "anchor_ledger R activeMembers ended =
     and_then (foldM (\<lambda>L c. add_client activeMembers ended c True L)
       \<lparr>lg_clientCredentials = [], lg_recoveryCandidates = [], lg_recoveryCauseIds = [],
        lg_replacedRecoveryCredentialIds = []\<rparr> (mapValues (clientCredentials (ar_anchorState R)))) (\<lambda>L.
     foldM (\<lambda>L c. addRecoveryCredential (anchor_recovery c)
       (anchor_recovery_cause R (rv_recoveryCredentialId c)) L) L (recoveryCredentials (ar_anchorState R)))"

definition credential_step ::
  "authority_replay \<Rightarrow> (string, bytes) jmap \<Rightarrow> string list \<Rightarrow> string list \<Rightarrow> credential_ledger \<Rightarrow>
     authenticated_event \<Rightarrow> credential_ledger res" where
  "credential_step R activeMembers ended dominated L event =
     (if ev_type event = 9 then
        and_then (fact_of (ar_clientEnrollments R) event ''Client Credential Enrollment state is missing'') (\<lambda>e.
        add_client activeMembers ended (enr_clientCredential e) (key (ev_recordId event) \<notin> set dominated) L)
      else if ev_type event = 6 then
        and_then (accepted_fact R event) (\<lambda>a.
        and_then (add_client activeMembers ended (acc_clientCredential a) True L) (\<lambda>L.
        addRecoveryCredential (acc_recoveryCredential a) (ev_recordId event) L))
      else if ev_type event \<noteq> 11 then ok L
      else
        and_then (replacement_fact R event) (\<lambda>r.
        and_then (addRecoveryCredential (rpl_recoveryCredential r) (ev_recordId event) L) (\<lambda>L.
        ok (L\<lparr>lg_replacedRecoveryCredentialIds :=
          lg_replacedRecoveryCredentialIds L @ map key (rpl_replacedRecoveryCredentialIds r)\<rparr>))))"

definition credentials_at ::
  "authority_replay \<Rightarrow> (string, bytes) jmap \<Rightarrow> bytes list \<Rightarrow> credential_ledger res" where
  "credentials_at R activeMembers frontier =
     and_then (ended_credentials R frontier) (\<lambda>ended.
     and_then (recovery_fence_causes R frontier) (\<lambda>causes.
     let dominated = dominated_enrollments R causes frontier in
     and_then (anchor_ledger R activeMembers ended) (\<lambda>L.
     foldM (credential_step R activeMembers ended dominated) L (authority_events_at R frontier))))"

definition recovery_credentials_of ::
  "(string, bytes) jmap \<Rightarrow> credential_ledger \<Rightarrow> authority_recovery_credential list" where
  "recovery_credentials_of activeMembers L =
     map (\<lambda>c. with_effective c (mapHas activeMembers (key (rv_memberId c)) \<and>
         key (rv_recoveryCredentialId c) \<notin> set (lg_replacedRecoveryCredentialIds L)))
       (mapValues (lg_recoveryCandidates L))"

definition recovery_conflict_of ::
  "credential_ledger \<Rightarrow> authority_recovery_credential list \<Rightarrow> recovery_conflict res" where
  "recovery_conflict_of L credentials =
     (case credentials of
        [] \<Rightarrow> throw (TypeError ''Recovery Conflict has no Member'')
      | first # _ \<Rightarrow>
          and_then (traverse (\<lambda>c. case mapGet (lg_recoveryCauseIds L) (key (rv_recoveryCredentialId c)) of
              None \<Rightarrow> throw (TypeError ''Recovery Conflict candidate has no authority Cause'')
            | Some causeId \<Rightarrow> ok \<lparr>rvc_headRecordId = causeId,
                rvc_recoveryCredentialId = rv_recoveryCredentialId c\<rparr>) credentials) (\<lambda>candidates.
          ok \<lparr>rvf_memberId = rv_memberId first, rvf_candidates =
            sort_by (\<lambda>l r. compareBytes (rvc_headRecordId l) (rvc_headRecordId r)) candidates\<rparr>))"

definition recovery_conflicts_of ::
  "credential_ledger \<Rightarrow> authority_recovery_credential list \<Rightarrow> recovery_conflict list res" where
  "recovery_conflicts_of L credentials =
     and_then (traverse (recovery_conflict_of L)
       (filter (\<lambda>cs. length cs > 1)
         (mapValues (group_by (\<lambda>c. key (rv_memberId c)) (filter rv_effective credentials))))) (\<lambda>conflicts.
     ok (sort_by (\<lambda>l r. compareBytes (rvf_memberId l) (rvf_memberId r)) conflicts))"

section \<open>Key Epochs and Key Envelope slots\<close>

record epoch_ledger =
  el_candidates :: "(string, key_epoch \<times> bytes) jmap"
  el_replaced :: "string list"

definition anchor_epoch_cause :: "authority_replay \<Rightarrow> bytes \<Rightarrow> bytes" where
  "anchor_epoch_cause R i =
     (case find (\<lambda>c. bytesEqual (kec_keyEpochId c) i)
         (concat (map kef_candidates (keyEpochConflicts (ar_anchorState R)))) of
        Some c \<Rightarrow> kec_headRecordId c
      | None \<Rightarrow> ar_anchorRecordId R)"

definition anchor_epochs :: "authority_replay \<Rightarrow> epoch_ledger" where
  "anchor_epochs R =
     \<lparr>el_candidates = mapFrom (map (\<lambda>e. (key (ke_keyEpochId e),
        (\<lparr>ke_keyEpochId = ke_keyEpochId e, ke_displayNumber = ke_displayNumber e\<rparr>,
         anchor_epoch_cause R (ke_keyEpochId e)))) (keyEpochs (ar_anchorState R))),
      el_replaced = map (\<lambda>e. key (ke_keyEpochId e)) (filter (\<lambda>e. \<not> ke_current e) (keyEpochs (ar_anchorState R)))\<rparr>"

definition epoch_step :: "authority_replay \<Rightarrow> epoch_ledger \<Rightarrow> authenticated_event \<Rightarrow> epoch_ledger res" where
  "epoch_step R L event =
     and_then (fact_of (ar_keyEpochTransitions R) event ''Key Epoch Transition state is missing'') (\<lambda>t.
     and_then (guard_not (mapHas (el_candidates L) (key (kt_keyEpochId t)))
       (TypeError ''Authority State reuses a Key Epoch identity'')) (\<lambda>_.
     ok \<lparr>el_candidates = mapSet (el_candidates L) (key (kt_keyEpochId t))
         (\<lparr>ke_keyEpochId = kt_keyEpochId t, ke_displayNumber = kt_displayNumber t\<rparr>, ev_recordId event),
       el_replaced = el_replaced L @ map key (kt_parentKeyEpochIds t)\<rparr>))"

definition epochs_at :: "authority_replay \<Rightarrow> bytes list \<Rightarrow> epoch_ledger res" where
  "epochs_at R frontier =
     foldM (epoch_step R) (anchor_epochs R) (filter (\<lambda>e. ev_type e = 12) (authority_events_at R frontier))"

definition key_epochs_of :: "epoch_ledger \<Rightarrow> authority_key_epoch list" where
  "key_epochs_of L =
     sort_by (\<lambda>l r. compareBytes (ke_keyEpochId l) (ke_keyEpochId r))
       (map (\<lambda>(e, _). \<lparr>ke_keyEpochId = ke_keyEpochId e, ke_displayNumber = ke_displayNumber e,
           ke_current = (key (ke_keyEpochId e) \<notin> set (el_replaced L))\<rparr>) (mapValues (el_candidates L)))"

definition epoch_conflicts_of :: "epoch_ledger \<Rightarrow> epoch_conflict list" where
  "epoch_conflicts_of L =
     (let current = filter (\<lambda>(e, _). key (ke_keyEpochId e) \<notin> set (el_replaced L)) (mapValues (el_candidates L)) in
      if length current > 1
      then [\<lparr>kef_candidates = sort_by (\<lambda>l r. compareBytes (kec_headRecordId l) (kec_headRecordId r))
        (map (\<lambda>(e, causeId). \<lparr>kec_headRecordId = causeId, kec_keyEpochId = ke_keyEpochId e\<rparr>) current)\<rparr>]
      else [])"

definition add_slot :: "(string, slot_summary) jmap \<Rightarrow> slot_summary \<Rightarrow> (string, slot_summary) jmap res" where
  "add_slot known s =
     (let slotId = key (sl_keyEnvelopeId s) in
      case mapGet known slotId of
        Some existing \<Rightarrow>
          (if envelopeSlotTargetKey existing \<noteq> envelopeSlotTargetKey s
           then throw (TypeError ''Authority State rebinds a Key Envelope identity'')
           else ok known)
      | None \<Rightarrow> ok (mapSet known slotId s))"

definition event_slots :: "authority_replay \<Rightarrow> authenticated_event \<Rightarrow> slot_summary list" where
  "event_slots R event =
     (let k = key (ev_recordId event) in
      if ev_type event = 6 then (case mapGet (ar_acceptedInvitations R) k of None \<Rightarrow> [] | Some a \<Rightarrow> acc_envelopeSlots a)
      else if ev_type event = 9 then (case mapGet (ar_clientEnrollments R) k of None \<Rightarrow> [] | Some e \<Rightarrow> enr_envelopeSlots e)
      else if ev_type event = 11 then (case mapGet (ar_recoveryReplacements R) k of None \<Rightarrow> [] | Some r \<Rightarrow> rpl_envelopeSlots r)
      else if ev_type event = 12 then (case mapGet (ar_keyEpochTransitions R) k of None \<Rightarrow> [] | Some t \<Rightarrow> kt_envelopeSlots t)
      else if ev_type event = 13 then (case mapGet (ar_keyDeliveries R) k of None \<Rightarrow> [] | Some d \<Rightarrow> kd_envelopeSlots d)
      else [])"

definition slots_at :: "authority_replay \<Rightarrow> bytes list \<Rightarrow> slot_summary list res" where
  "slots_at R frontier =
     and_then (foldM add_slot [] (keyEnvelopeSlots (ar_anchorState R))) (\<lambda>known.
     and_then (foldM (\<lambda>known e. foldM add_slot known (event_slots R e)) known (authority_events_at R frontier))
       (\<lambda>known.
     ok (sort_by (\<lambda>l r. compareBytes (sl_keyEnvelopeId l) (sl_keyEnvelopeId r)) (mapValues known))))"

section \<open>Required features\<close>

definition add_manifests ::
  "authority_replay \<Rightarrow> authenticated_event list \<Rightarrow> (string, authority_feature_manifest) jmap res" where
  "add_manifests R events =
     foldM (\<lambda>m e. and_then (activation_fact R e) (\<lambda>a.
         ok (foldl (\<lambda>m x. mapSet m (key (afm_id x)) x) m (fa_addedManifests a))))
       (mapFrom (map (\<lambda>x. (key (afm_id x), x)) (featureManifests (ar_anchorState R)))) events"

definition in_id_order :: "(string, authority_feature_manifest) jmap \<Rightarrow> authority_feature_manifest list" where
  "in_id_order m = sort_by (\<lambda>l r. compareBytes (afm_id l) (afm_id r)) (mapValues m)"

record feature_result =
  fr_requiredFeatureSetId :: bytes
  fr_manifests :: "authority_feature_manifest list"
  fr_conflict :: "feature_set_conflict option"

fun is_type_error :: "js_error \<Rightarrow> bool" where
  "is_type_error (TypeError m) = True"
| "is_type_error (CanonicalValueError m) = True"
| "is_type_error e = False"

definition incompatible_features ::
  "platform \<Rightarrow> authority_replay \<Rightarrow> authenticated_event list \<Rightarrow> authority_feature_manifest list \<Rightarrow> feature_result res" where
  "incompatible_features P R featureEvents manifests =
     and_then (causalMaxima ev_recordId featureEvents (ar_graph R)) (\<lambda>maxima.
     let heads = sort_by (\<lambda>l r. compareBytes (ev_recordId l) (ev_recordId r)) maxima;
         commonEvents = filter (\<lambda>e. list_all (\<lambda>h. bytesEqual (ev_recordId e) (ev_recordId h) \<or>
           isAncestor (ar_graph R) (ev_recordId e) (ev_recordId h)) heads) featureEvents in
     and_then (add_manifests R commonEvents) (\<lambda>effective.
     and_then (requiredFeatureSetId P (map afm_manifest (in_id_order effective))) (\<lambda>featureSetId.
     ok \<lparr>fr_requiredFeatureSetId = featureSetId, fr_manifests = in_id_order effective,
         fr_conflict = Some \<lparr>fsc_candidateRecordIds = map ev_recordId heads,
           fsc_manifestIds = map afm_id (filter (\<lambda>m. \<not> mapHas effective (key (afm_id m))) manifests)\<rparr>\<rparr>)))"

definition features_at :: "platform \<Rightarrow> authority_replay \<Rightarrow> bytes list \<Rightarrow> feature_result res" where
  "features_at P R frontier =
     (let featureEvents = filter (\<lambda>e. ev_type e = 14) (authority_events_at R frontier) in
      and_then (add_manifests R featureEvents) (\<lambda>m.
      let manifests = in_id_order m in
      case requiredFeatureSetId P (map afm_manifest manifests) of
        Inr featureSetId \<Rightarrow>
          ok \<lparr>fr_requiredFeatureSetId = featureSetId, fr_manifests = manifests, fr_conflict = None\<rparr>
      | Inl error \<Rightarrow>
          (if \<not> is_type_error error \<or> length featureEvents < 2 then throw error
           else incompatible_features P R featureEvents manifests)))"

section \<open>Write fences\<close>

definition hasDescendantKeyEpochTransition :: "authority_replay \<Rightarrow> bytes list \<Rightarrow> bytes list \<Rightarrow> bool" where
  "hasDescendantKeyEpochTransition R frontier cutoffRecordIds =
     list_ex (\<lambda>e. ev_type e = 12 \<and>
         list_all (\<lambda>c. isAncestor (ar_graph R) c (ev_recordId e)) cutoffRecordIds)
       (authority_events_at R frontier)"

type_synonym fences = "(string, write_fence) jmap"

definition fence_key :: "fence_kind \<Rightarrow> bytes \<Rightarrow> string" where
  "fence_key kind subjectId = fence_name kind @ '':'' @ key subjectId"

definition set_fence :: "fence_kind \<Rightarrow> bytes \<Rightarrow> bytes list \<Rightarrow> fences \<Rightarrow> fences" where
  "set_fence kind subjectId causes m =
     mapSet m (fence_key kind subjectId)
       \<lparr>wf_kind = kind, wf_subjectId = subjectId, wf_causeRecordIds = causes\<rparr>"

definition conflict_fences ::
  "authority_replay \<Rightarrow> bytes list \<Rightarrow> feature_result \<Rightarrow> epoch_conflict list \<Rightarrow> settlement \<Rightarrow> fences" where
  "conflict_fences R frontier features epochConflicts S =
     (let anchored = mapFrom (map (\<lambda>f. (fence_key (wf_kind f) (wf_subjectId f), f)) (writeFences (ar_anchorState R)));
          featured = (case fr_conflict features of
              None \<Rightarrow> anchored
            | Some c \<Rightarrow> set_fence FeatureSetIncompatibility (ar_vaultId R) (fsc_candidateRecordIds c) anchored);
          epochs = foldl (\<lambda>m c. set_fence KeyEpochConflictFence (ar_vaultId R)
              (map kec_headRecordId (kef_candidates c)) m) featured epochConflicts;
          conflicts = foldl (\<lambda>m c.
              let causes = sort_by compareBytes (map ic_headRecordId (filter (\<lambda>x. ic_outcome x = 1) (icf_candidates c)))
              in if length causes = 0 then m else set_fence InvitationConflictFence (icf_invitationId c) causes m)
            epochs (se_conflicts S)
      in foldl (\<lambda>m f.
          if hasDescendantKeyEpochTransition R frontier [rf_dischargeRecordId f] then m
          else set_fence InvitationConflictFence (rf_invitationId f) (sort_by compareBytes (rf_causeRecordIds f)) m)
        conflicts (se_resolvedFences S))"

definition extend_fence :: "fence_kind \<Rightarrow> bytes \<Rightarrow> bytes \<Rightarrow> fences \<Rightarrow> fences" where
  "extend_fence kind subjectId recordId m =
     set_fence kind subjectId (sort_by compareBytes
       ((case mapGet m (fence_key kind subjectId) of None \<Rightarrow> [] | Some f \<Rightarrow> wf_causeRecordIds f) @ [recordId])) m"

definition client_of ::
  "(string, authority_client_credential) jmap \<Rightarrow> bytes \<Rightarrow> string \<Rightarrow> authority_client_credential res" where
  "client_of clients i message =
     (case mapGet clients (key i) of None \<Rightarrow> throw (TypeError message) | Some c \<Rightarrow> ok c)"

definition removal_fence ::
  "(string, authority_client_credential) jmap \<Rightarrow> fences \<Rightarrow> authenticated_event \<Rightarrow> fences res" where
  "removal_fence clients m event =
     (if ev_type event = 2 then
        and_then (client_of clients (ev_signerCredentialId event) ''Membership End signer has no Credential'') (\<lambda>signer.
        and_then (target_member event 1 ''Membership End Event body'') (\<lambda>memberId.
        if bytesEqual (cl_memberId signer) memberId then ok m
        else ok (extend_fence MemberRemoval memberId (ev_recordId event) m)))
      else if ev_type event = 10 then
        and_then (client_of clients (ev_signerCredentialId event)
          ''Client Credential End signer has no Credential'') (\<lambda>signer.
        and_then (target_credential event) (\<lambda>credentialId.
        and_then (client_of clients credentialId ''Client Credential End target has no Credential'') (\<lambda>target.
        if bytesEqual (cl_memberId signer) (cl_memberId target) then ok m
        else ok (extend_fence ClientCredentialRemoval credentialId (ev_recordId event) m))))
      else ok m)"

definition discharged :: "authority_replay \<Rightarrow> bytes list \<Rightarrow> write_fence \<Rightarrow> bool" where
  "discharged R frontier f =
     ((wf_kind f = MemberRemoval \<or> wf_kind f = ClientCredentialRemoval) \<and>
      list_ex (\<lambda>c. hasDescendantKeyEpochTransition R frontier [c]) (wf_causeRecordIds f))"

definition fences_at ::
  "authority_replay \<Rightarrow> bytes list \<Rightarrow> feature_result \<Rightarrow> epoch_conflict list \<Rightarrow> settlement \<Rightarrow>
     (string, authority_client_credential) jmap \<Rightarrow> write_fence list res" where
  "fences_at R frontier features epochConflicts S clients =
     and_then (foldM (removal_fence clients) (conflict_fences R frontier features epochConflicts S)
       (authority_events_at R frontier)) (\<lambda>m.
     ok (sort_by (\<lambda>l r. compareBytes (wf_subjectId l) (wf_subjectId r))
       (filter (\<lambda>f. \<not> discharged R frontier f) (mapValues m))))"

section \<open>The Authority State at a frontier\<close>

definition computed_state :: "platform \<Rightarrow> authority_replay \<Rightarrow> bytes list \<Rightarrow> authority_state res" where
  "computed_state P R frontier =
     and_then (settled_invitations R frontier) (\<lambda>S.
     and_then (membership_at R (se_effectiveAcceptances S) frontier) (\<lambda>M.
     and_then (administrators_of R M) (\<lambda>(administrators, adminConflicts).
     and_then (invitations_at P R frontier) (\<lambda>invitations.
     and_then (credentials_at R (mb_activeMembers M) frontier) (\<lambda>L.
     let recoveries = recovery_credentials_of (mb_activeMembers M) L in
     and_then (recovery_conflicts_of L recoveries) (\<lambda>recConflicts.
     and_then (epochs_at R frontier) (\<lambda>E.
     and_then (slots_at R frontier) (\<lambda>envelopes.
     and_then (features_at P R frontier) (\<lambda>F.
     and_then (fences_at R frontier F (epoch_conflicts_of E) S (lg_clientCredentials L)) (\<lambda>fences.
     ok \<lparr>activeMemberIds = sort_by compareBytes (mapValues (mb_activeMembers M)),
         administratorIds = administrators, administratorConflicts = adminConflicts,
         activeInvitations = sort_by (\<lambda>l r. compareBytes (ain_invitationId l) (ain_invitationId r))
           (mapValues invitations),
         invitationConflicts = se_conflicts S,
         recoveryCredentials = sort_by (\<lambda>l r. compareBytes (rv_recoveryCredentialId l) (rv_recoveryCredentialId r))
           recoveries,
         recoveryConflicts = recConflicts, keyEpochs = key_epochs_of E,
         keyEpochConflicts = epoch_conflicts_of E, keyEnvelopeSlots = envelopes,
         as_requiredFeatureSetId = fr_requiredFeatureSetId F, featureManifests = fr_manifests F,
         featureSetConflict = fr_conflict F, writeFences = fences,
         clientCredentials = lg_clientCredentials L,
         lifecycle = (if mb_explicitlyClosed M \<or> (length administrators = 0 \<and> length adminConflicts = 0)
           then 2 else 1)\<rparr>))))))))))"

definition stateAt :: "platform \<Rightarrow> authority_replay \<Rightarrow> bytes list \<Rightarrow> authority_state res" where
  "stateAt P R frontier =
     (if length frontier = 0 \<or> list_ex (\<lambda>i. \<not> has_record (ar_graph R) i) frontier
      then throw (TypeError ''Authority Frontier references an unknown Record'')
      else if \<not> list_ex (\<lambda>e. ev_family e = 1 \<or> ev_family e = 3) (events_at R frontier)
      then ok (ar_anchorState R)
      else computed_state P R frontier)"

end
