(* ===== verification/Authority_Replay.thy ===== *)
theory Authority_Replay
  imports Authority_State
begin

text \<open>
  The class \<open>CanonicalAuthorityReplay\<close> of \<open>runtime/projection/canonical-authority-replay.ts\<close>, second part: the
  constructor and \<open>validateAndAccept\<close>, which checks an Event against the Authority State at its Authority
  Parents and records what it states. A caller abandons a replay whose \<open>validateAndAccept\<close> threw, so an
  exception carries no replay. The lemmas relate the state before and after an accepted Event.
\<close>

section \<open>Construction\<close>

definition anchor_causes :: "authority_state \<Rightarrow> bytes list" where
  "anchor_causes anchor =
     map ain_creationRecordId (activeInvitations anchor) @
     concat (map (\<lambda>c. map ic_headRecordId (icf_candidates c)) (invitationConflicts anchor)) @
     concat (map (\<lambda>c. map rvc_headRecordId (rvf_candidates c)) (recoveryConflicts anchor)) @
     concat (map (\<lambda>c. map kec_headRecordId (kef_candidates c)) (keyEpochConflicts anchor)) @
     concat (map (\<lambda>c. map adc_headRecordId (adf_candidates c)) (administratorConflicts anchor)) @
     concat (map wf_causeRecordIds (writeFences anchor))"

definition anchor_cause_ids :: "bytes \<Rightarrow> authority_state \<Rightarrow> bytes list" where
  "anchor_cause_ids anchorRecordId anchor =
     sort_by compareBytes (mapValues (mapFrom (map (\<lambda>i. (key i, i))
       (filter (\<lambda>i. \<not> bytesEqual i anchorRecordId) (anchor_causes anchor)))))"

definition new_replay ::
  "authenticated_event \<Rightarrow> bytes \<Rightarrow> authority_state \<Rightarrow> bytes list \<Rightarrow> authority_replay res" where
  "new_replay genesis anchorRecordId anchorState supported =
     (let causes = anchor_cause_ids anchorRecordId anchorState in
      and_then (foldM (\<lambda>g i. add_record g i []) new_graph causes) (\<lambda>g.
      and_then (add_record g anchorRecordId causes) (\<lambda>g.
      ok \<lparr>ar_vaultId = cx_vaultId genesis, ar_anchorRecordId = anchorRecordId, ar_anchorState = anchorState,
          ar_anchorCauseRecordIds = causes, ar_supportedFeatureManifestIds = map key supported,
          ar_graph = g, ar_events = [], ar_acceptedInvitations = [], ar_cancelledInvitations = [],
          ar_resolvedInvitations = [], ar_clientEnrollments = [], ar_recoveryReplacements = [],
          ar_keyEpochTransitions = [], ar_keyDeliveries = [], ar_featureActivations = []\<rparr>)))"

definition hasRecord :: "authority_replay \<Rightarrow> bytes \<Rightarrow> bool" where
  "hasRecord R recordId = has_record (ar_graph R) recordId"

definition reachableRecordIds :: "platform \<Rightarrow> authority_replay \<Rightarrow> bytes list \<Rightarrow> bytes list res" where
  "reachableRecordIds P R frontier =
     and_then (stateAt P R frontier) (\<lambda>_.
     ok (sort_by compareBytes (ar_anchorCauseRecordIds R @ [ar_anchorRecordId R] @
       map ev_recordId (events_at R frontier))))"

definition acceptAuthorityNode :: "authority_replay \<Rightarrow> authenticated_event \<Rightarrow> authority_replay res" where
  "acceptAuthorityNode R event =
     and_then (add_record (ar_graph R) (ev_recordId event) (cx_authorityParentRecordIds event)) (\<lambda>g.
     ok (R\<lparr>ar_graph := g, ar_events := ar_events R @ [event]\<rparr>))"

section \<open>The signer\<close>

definition context_checks :: "authority_replay \<Rightarrow> authority_state \<Rightarrow> authenticated_event \<Rightarrow> unit res" where
  "context_checks R parentState event =
     checks
       [guard_not (lifecycle parentState = 2)
          (TypeError ''An Event cannot descend from Closed Authority State''),
        guard_not (featureSetConflict parentState \<noteq> None)
          (TypeError ''An Event cannot descend from an incompatible Required Feature Set''),
        guard_not (list_ex (\<lambda>m. key (afm_id m) \<notin> set (ar_supportedFeatureManifestIds R)) (featureManifests parentState))
          (TypeError ''Runtime does not support the complete Required Feature Set''),
        guard_not (\<not> bytesEqual (cx_requiredFeatureSetId event) (as_requiredFeatureSetId parentState))
          (TypeError ''Vault Event Required Feature Set does not match its Authority Parents'')]"

definition event_enrollment :: "platform \<Rightarrow> authenticated_event \<Rightarrow> client_enrollment option res" where
  "event_enrollment P event =
     (if ev_family event = 1 \<and> ev_type event = 9
      then and_then (parseClientCredentialEnrollment P event) (\<lambda>e. ok (Some e))
      else ok None)"

definition event_signer ::
  "authority_state \<Rightarrow> client_enrollment option \<Rightarrow> authenticated_event \<Rightarrow> authority_client_credential res" where
  "event_signer parentState enrollment event =
     (case enrollment of
        Some e \<Rightarrow>
          if enr_authorizationKind e = 2
          then and_then (guard_not (\<not> bytesEqual (ev_signerCredentialId event)
              (cl_clientCredentialId (enr_clientCredential e)))
            (TypeError ''Recovery-authorized Enrollment signer is not the proposed Credential'')) (\<lambda>_.
            ok (with_active (enr_clientCredential e) False))
          else (case mapGet (clientCredentials parentState) (key (ev_signerCredentialId event)) of
              Some c \<Rightarrow> (if cl_active c then ok c
                else throw (TypeError ''Vault Event signer is not an active Client Credential''))
            | None \<Rightarrow> throw (TypeError ''Vault Event signer is not an active Client Credential''))
      | None \<Rightarrow>
          (case mapGet (clientCredentials parentState) (key (ev_signerCredentialId event)) of
             Some c \<Rightarrow> (if cl_active c then ok c
               else throw (TypeError ''Vault Event signer is not an active Client Credential''))
           | None \<Rightarrow> throw (TypeError ''Vault Event signer is not an active Client Credential'')))"

definition by_administrator :: "authority_state \<Rightarrow> 'a client_credential_scheme \<Rightarrow> string \<Rightarrow> unit res" where
  "by_administrator parentState signer message =
     guard_not (\<not> containsId (administratorIds parentState) (cl_memberId signer)) (TypeError message)"

section \<open>Members, roles and Credentials\<close>

definition check_membership_end ::
  "authority_state \<Rightarrow> authority_client_credential \<Rightarrow> authenticated_event \<Rightarrow> unit res" where
  "check_membership_end parentState signer event =
     and_then (target_member event 1 ''Membership End Event body'') (\<lambda>memberId.
     and_then (guard_not (\<not> containsId (activeMemberIds parentState) memberId)
       (TypeError ''Membership End target is not an active Member'')) (\<lambda>_.
     guard_not (\<not> bytesEqual (cl_memberId signer) memberId \<and>
         \<not> containsId (administratorIds parentState) (cl_memberId signer))
       (TypeError ''Membership End signer is not authorized for the target Member'')))"

definition check_role_change ::
  "authority_state \<Rightarrow> bytes \<Rightarrow> bytes list \<Rightarrow> bool \<Rightarrow> unit res" where
  "check_role_change parentState memberId resolvedRecordIds grants =
     (case find (\<lambda>c. bytesEqual (adf_memberId c) memberId) (administratorConflicts parentState) of
        None \<Rightarrow>
          and_then (guard_not (length resolvedRecordIds \<noteq> 0)
            (TypeError ''Ordinary Administrator role change cannot resolve Record IDs'')) (\<lambda>_.
          guard_not (grants = containsId (administratorIds parentState) memberId)
            (TypeError ''Administrator role change does not change the target state''))
      | Some conflict \<Rightarrow>
          guard_not (\<not> sameIdSet resolvedRecordIds (map adc_headRecordId (adf_candidates conflict)))
            (TypeError ''Administrator role resolution does not name every candidate''))"

definition check_administrator_role ::
  "platform \<Rightarrow> authority_state \<Rightarrow> authority_client_credential \<Rightarrow> authenticated_event \<Rightarrow> unit res" where
  "check_administrator_role P parentState signer event =
     and_then (exactMap (ev_body event) (num_keys 2) ''Administrator role Event body'') (\<lambda>body.
     and_then (id_at body 0 MemberId ''Target Member ID'') (\<lambda>memberId.
     and_then (with_field body 1 (\<lambda>v. idSetValue P v VaultRecordId ''Resolved Administrator Record IDs'' False))
       (\<lambda>resolvedRecordIds.
     and_then (by_administrator parentState signer ''Administrator role Event signer is not an Administrator'') (\<lambda>_.
     and_then (guard_not (\<not> containsId (activeMemberIds parentState) memberId)
       (TypeError ''Administrator role target is not an active Member'')) (\<lambda>_.
     check_role_change parentState memberId resolvedRecordIds (ev_type event = 3))))))"

definition check_credential_end ::
  "authority_state \<Rightarrow> authority_client_credential \<Rightarrow> authenticated_event \<Rightarrow> unit res" where
  "check_credential_end parentState signer event =
     and_then (target_credential event) (\<lambda>credentialId.
     case mapGet (clientCredentials parentState) (key credentialId) of
       None \<Rightarrow> throw (TypeError ''Client Credential End target is not active'')
     | Some target \<Rightarrow>
         and_then (guard_not (\<not> cl_active target)
           (TypeError ''Client Credential End target is not active'')) (\<lambda>_.
         guard_not (\<not> bytesEqual (cl_clientCredentialId signer) credentialId \<and>
             \<not> bytesEqual (cl_memberId signer) (cl_memberId target) \<and>
             \<not> containsId (administratorIds parentState) (cl_memberId signer))
           (TypeError ''Client Credential End signer is not authorized for the target'')))"

definition accept_enrollment ::
  "platform \<Rightarrow> authority_replay \<Rightarrow> authority_state \<Rightarrow> authority_client_credential \<Rightarrow> client_enrollment option \<Rightarrow>
     authenticated_event \<Rightarrow> authority_replay res" where
  "accept_enrollment P R parentState signer enrollment event =
     (case enrollment of
        None \<Rightarrow> throw (TypeError ''Client Enrollment state is missing'')
      | Some e \<Rightarrow>
          and_then (guard_not (\<not> containsId (activeMemberIds parentState) (enr_memberId e))
            (TypeError ''Client Enrollment target is not an active Member'')) (\<lambda>_.
          and_then (guard_not (enr_authorizationKind e = 1 \<and> \<not> bytesEqual (enr_memberId e) (cl_memberId signer))
            (TypeError ''Client Enrollment signer does not belong to the target Member'')) (\<lambda>_.
          and_then (guard_not (mapHas (clientCredentials parentState)
              (key (cl_clientCredentialId (enr_clientCredential e))))
            (TypeError ''Client Enrollment reuses a Client Credential identity'')) (\<lambda>_.
          and_then (verifyClientCredentialEnrollmentPossession P e) (\<lambda>_.
          and_then (if enr_authorizationKind e = 2
            then verifyRecoveryClientCredentialEnrollment P e parentState else ok ()) (\<lambda>_.
          and_then (validateClientCredentialEnrollmentSlots e parentState) (\<lambda>_.
          ok (R\<lparr>ar_clientEnrollments := mapSet (ar_clientEnrollments R) (key (ev_recordId event)) e\<rparr>))))))))"

definition accept_replacement ::
  "platform \<Rightarrow> authority_replay \<Rightarrow> authority_state \<Rightarrow> authority_client_credential \<Rightarrow> authenticated_event \<Rightarrow>
     authority_replay res" where
  "accept_replacement P R parentState signer event =
     and_then (parseRecoveryCredentialReplacement P event) (\<lambda>r.
     and_then (guard_not (\<not> bytesEqual (rpl_memberId r) (cl_memberId signer))
       (TypeError ''Recovery Credential Replacement signer is not the target Member'')) (\<lambda>_.
     let effective = filter (\<lambda>c. rv_effective c \<and> bytesEqual (rv_memberId c) (rpl_memberId r))
           (recoveryCredentials parentState) in
     and_then (guard_not (\<not> sameIdSet (rpl_replacedRecoveryCredentialIds r) (map rv_recoveryCredentialId effective))
       (TypeError ''Recovery Replacement does not name every effective Credential'')) (\<lambda>_.
     and_then (guard_not (list_ex (\<lambda>c. bytesEqual (rv_recoveryCredentialId c)
         (rv_recoveryCredentialId (rpl_recoveryCredential r))) (recoveryCredentials parentState))
       (TypeError ''Recovery Replacement reuses a Recovery Credential identity'')) (\<lambda>_.
     and_then (guard_not (rv_revision (rpl_recoveryCredential r) \<noteq>
         foldl (\<lambda>maximum c. max maximum (rv_revision c)) (- 1) effective + 1)
       (TypeError ''Recovery Replacement revision does not follow its effective heads'')) (\<lambda>_.
     and_then (verifyRecoveryCredentialReplacement P r event) (\<lambda>_.
     and_then (validateRecoveryCredentialReplacementSlots r parentState) (\<lambda>_.
     ok (R\<lparr>ar_recoveryReplacements := mapSet (ar_recoveryReplacements R) (key (ev_recordId event)) r\<rparr>))))))))"

section \<open>Invitations\<close>

definition active_invitation :: "authority_state \<Rightarrow> bytes \<Rightarrow> authority_invitation option" where
  "active_invitation parentState i = find (\<lambda>x. bytesEqual (ain_invitationId x) i) (activeInvitations parentState)"

definition check_invitation_creation ::
  "platform \<Rightarrow> authority_state \<Rightarrow> authority_client_credential \<Rightarrow> authenticated_event \<Rightarrow> unit res" where
  "check_invitation_creation P parentState signer event =
     and_then (by_administrator parentState signer ''Invitation Creation signer is not an Administrator'') (\<lambda>_.
     and_then (invitationCreation P event) (\<lambda>invitation.
     and_then (guard_not (\<not> bytesEqual (ain_issuerMemberId invitation) (cl_memberId signer))
       (TypeError ''Invitation capability issuer is not the signing Administrator'')) (\<lambda>_.
     guard_not (active_invitation parentState (ain_invitationId invitation) \<noteq> None)
       (TypeError ''Invitation ID is already active''))))"

definition accept_acceptance ::
  "platform \<Rightarrow> authority_replay \<Rightarrow> authority_state \<Rightarrow> authenticated_event \<Rightarrow> authority_replay res" where
  "accept_acceptance P R parentState event =
     and_then (parseInvitationAcceptance P event) (\<lambda>a.
     case active_invitation parentState (acc_invitationId a) of
       None \<Rightarrow> throw (TypeError ''Invitation Acceptance does not name an Active Invitation'')
     | Some invitation \<Rightarrow>
         and_then (guard_not (list_ex (\<lambda>c. bytesEqual (cl_memberId c) (acc_memberId a))
             (mapValues (clientCredentials parentState)))
           (TypeError ''Invitation Acceptance reuses a permanent Member identity'')) (\<lambda>_.
         and_then (guard_not (mapHas (clientCredentials parentState)
               (key (cl_clientCredentialId (acc_clientCredential a))) \<or>
             list_ex (\<lambda>c. bytesEqual (rv_recoveryCredentialId c)
               (rv_recoveryCredentialId (acc_recoveryCredential a))) (recoveryCredentials parentState))
           (TypeError ''Invitation Acceptance reuses an existing authority identity'')) (\<lambda>_.
         and_then (encodeCanonicalValue P (ain_capabilities invitation)) (\<lambda>granted.
         and_then (guard_not (\<not> bytesEqual granted (acc_capabilitiesBytes a))
           (TypeError ''Invitation Acceptance capabilities differ from the Invitation'')) (\<lambda>_.
         and_then (verifyInvitationAcceptance P a invitation) (\<lambda>_.
         and_then (validateInvitationAcceptanceSlots a parentState) (\<lambda>_.
         ok (R\<lparr>ar_acceptedInvitations := mapSet (ar_acceptedInvitations R) (key (ev_recordId event)) a\<rparr>))))))))"

definition accept_cancellation ::
  "platform \<Rightarrow> authority_replay \<Rightarrow> authority_state \<Rightarrow> authenticated_event \<Rightarrow> authority_replay res" where
  "accept_cancellation P R parentState event =
     and_then (parseInvitationCancellation P event) (\<lambda>c.
     case active_invitation parentState (can_invitationId c) of
       None \<Rightarrow> throw (TypeError ''Invitation Cancellation does not name an Active Invitation'')
     | Some invitation \<Rightarrow>
         and_then (verifyInvitationCancellation P c invitation) (\<lambda>_.
         ok (R\<lparr>ar_cancelledInvitations := mapSet (ar_cancelledInvitations R) (key (ev_recordId event)) c\<rparr>)))"

definition resolution_selects :: "invitation_resolution \<Rightarrow> invitation_candidate \<Rightarrow> bool" where
  "resolution_selects r c =
     (case res_selectedJoinRequestId r of None \<Rightarrow> False | Some request \<Rightarrow> joined_with request c)"

definition rejected_records :: "invitation_resolution \<Rightarrow> invitation_candidate list \<Rightarrow> bytes list" where
  "rejected_records r candidates =
     map ic_headRecordId (filter (\<lambda>c. ic_outcome c = 1 \<and> \<not> resolution_selects r c) candidates)"

definition accept_resolution ::
  "platform \<Rightarrow> authority_replay \<Rightarrow> authority_state \<Rightarrow> authority_client_credential \<Rightarrow> authenticated_event \<Rightarrow>
     authority_replay res" where
  "accept_resolution P R parentState signer event =
     and_then (by_administrator parentState signer
       ''Invitation Conflict Resolution signer is not an Administrator'') (\<lambda>_.
     and_then (parseInvitationResolution P event) (\<lambda>r.
     case find (\<lambda>c. bytesEqual (icf_invitationId c) (res_invitationId r)) (invitationConflicts parentState) of
       None \<Rightarrow> throw (TypeError ''Invitation Conflict Resolution has no current Conflict'')
     | Some conflict \<Rightarrow>
         let candidates = icf_candidates conflict; selected = filter (resolution_selects r) candidates in
         and_then (guard_not (\<not> sameIdSet (res_conflictingReceiptIds r) (map ic_authorityReceiptId candidates) \<or>
             \<not> sameIdSet (res_conflictingRecordIds r) (map ic_headRecordId candidates))
           (TypeError ''Invitation Conflict Resolution does not name every candidate'')) (\<lambda>_.
         and_then (guard_not (res_outcome r = 1 \<and> length selected = 0 \<or> res_outcome r = 2 \<and> length selected \<noteq> 0)
           (TypeError ''Invitation Conflict Resolution selected candidate is invalid'')) (\<lambda>_.
         and_then (guard_not (res_outcome r = 1 \<and>
             \<not> list_ex (\<lambda>c. mapHas (ar_acceptedInvitations R) (key (ic_headRecordId c))) selected)
           (TypeError ''Invitation Conflict Resolution selected Acceptance is unavailable'')) (\<lambda>_.
         ok (R\<lparr>ar_resolvedInvitations := mapSet (ar_resolvedInvitations R) (key (ev_recordId event))
           \<lparr>res_invitationId = res_invitationId r, res_conflictingReceiptIds = res_conflictingReceiptIds r,
            res_conflictingRecordIds = res_conflictingRecordIds r, res_outcome = res_outcome r,
            res_selectedJoinRequestId = res_selectedJoinRequestId r,
            res_rejectedConsumedRecordIds = rejected_records r candidates\<rparr>\<rparr>))))))"

section \<open>Key Epochs and features\<close>

definition accept_transition ::
  "platform \<Rightarrow> authority_replay \<Rightarrow> authority_state \<Rightarrow> authority_client_credential \<Rightarrow> authenticated_event \<Rightarrow>
     authority_replay res" where
  "accept_transition P R parentState signer event =
     and_then (by_administrator parentState signer ''Key Epoch Transition signer is not an Administrator'') (\<lambda>_.
     and_then (guard_not (length (invitationConflicts parentState) > 0)
       (TypeError ''Key Epoch Transition cannot precede Invitation Conflict Resolution'')) (\<lambda>_.
     and_then (parseKeyEpochTransition P event) (\<lambda>t.
     let currentEpochs = filter ke_current (keyEpochs parentState) in
     and_then (guard_not (\<not> sameIdSet (kt_parentKeyEpochIds t) (map ke_keyEpochId currentEpochs))
       (TypeError ''Key Epoch Transition does not name every effective Epoch head'')) (\<lambda>_.
     and_then (guard_not (list_ex (\<lambda>e. bytesEqual (ke_keyEpochId e) (kt_keyEpochId t)) (keyEpochs parentState))
       (TypeError ''Key Epoch Transition reuses a Key Epoch identity'')) (\<lambda>_.
     and_then (guard_not (kt_displayNumber t \<noteq>
         foldl (\<lambda>maximum e. max maximum (ke_displayNumber e)) (- 1) currentEpochs + 1)
       (TypeError ''Key Epoch display number does not follow its effective heads'')) (\<lambda>_.
     and_then (validateKeyEpochTransitionSlots t parentState) (\<lambda>_.
     ok (R\<lparr>ar_keyEpochTransitions := mapSet (ar_keyEpochTransitions R) (key (ev_recordId event)) t\<rparr>))))))))"

definition accept_delivery ::
  "platform \<Rightarrow> authority_replay \<Rightarrow> authority_state \<Rightarrow> authenticated_event \<Rightarrow> authority_replay res" where
  "accept_delivery P R parentState event =
     and_then (parseKeyDelivery P event) (\<lambda>d.
     and_then (validateKeyDelivery d parentState) (\<lambda>_.
     ok (R\<lparr>ar_keyDeliveries := mapSet (ar_keyDeliveries R) (key (ev_recordId event)) d\<rparr>)))"

definition accept_activation ::
  "platform \<Rightarrow> authority_replay \<Rightarrow> authority_state \<Rightarrow> authority_client_credential \<Rightarrow> authenticated_event \<Rightarrow>
     authority_replay res" where
  "accept_activation P R parentState signer event =
     and_then (by_administrator parentState signer ''Feature Activation signer is not an Administrator'') (\<lambda>_.
     and_then (parseFeatureActivation P event) (\<lambda>a.
     and_then (guard_not (\<not> bytesEqual (fa_previousFeatureSetId a) (as_requiredFeatureSetId parentState))
       (TypeError ''Feature Activation previous set does not match its Authority Parents'')) (\<lambda>_.
     and_then (requiredFeatureSetId P (map afm_manifest (featureManifests parentState) @
       map afm_manifest (fa_addedManifests a))) (\<lambda>resulting.
     and_then (guard_not (\<not> bytesEqual (fa_resultingFeatureSetId a) resulting)
       (TypeError ''Feature Activation resulting set is invalid'')) (\<lambda>_.
     ok (R\<lparr>ar_featureActivations := mapSet (ar_featureActivations R) (key (ev_recordId event)) a\<rparr>))))))"

section \<open>Accepting an Event\<close>

definition accept_authority ::
  "platform \<Rightarrow> authority_replay \<Rightarrow> authority_state \<Rightarrow> authority_client_credential \<Rightarrow> client_enrollment option \<Rightarrow>
     authenticated_event \<Rightarrow> authority_replay res" where
  "accept_authority P R parentState signer enrollment event =
     (if ev_type event = 2 then and_then (check_membership_end parentState signer event) (\<lambda>_. ok R)
      else if ev_type event = 3 \<or> ev_type event = 4
      then and_then (check_administrator_role P parentState signer event) (\<lambda>_. ok R)
      else if ev_type event = 10 then and_then (check_credential_end parentState signer event) (\<lambda>_. ok R)
      else if ev_type event = 5 then and_then (check_invitation_creation P parentState signer event) (\<lambda>_. ok R)
      else if ev_type event = 6 then accept_acceptance P R parentState event
      else if ev_type event = 7 then accept_cancellation P R parentState event
      else if ev_type event = 8 then accept_resolution P R parentState signer event
      else if ev_type event = 9 then accept_enrollment P R parentState signer enrollment event
      else if ev_type event = 11 then accept_replacement P R parentState signer event
      else if ev_type event = 12 then accept_transition P R parentState signer event
      else if ev_type event = 13 then accept_delivery P R parentState event
      else if ev_type event = 14 then accept_activation P R parentState signer event
      else throw (TypeError ''This replay slice cannot yet reduce this Authority Event type''))"

definition accept_lifecycle ::
  "authority_state \<Rightarrow> authority_client_credential \<Rightarrow> authenticated_event \<Rightarrow> unit res" where
  "accept_lifecycle parentState signer event =
     and_then (guard_not (ev_type event \<noteq> 1 \<and> ev_type event \<noteq> 2)
       (TypeError ''This replay slice cannot yet reduce this Lifecycle Event type'')) (\<lambda>_.
     by_administrator parentState signer
       (if ev_type event = 1 then ''Vacuum signer is not an Administrator''
        else ''Explicit Closure signer is not an Administrator''))"

definition validateAndAccept ::
  "platform \<Rightarrow> authority_replay \<Rightarrow> authenticated_event \<Rightarrow> authority_replay res" where
  "validateAndAccept P R event =
     and_then (stateAt P R (cx_authorityParentRecordIds event)) (\<lambda>parentState.
     and_then (context_checks R parentState event) (\<lambda>_.
     and_then (event_enrollment P event) (\<lambda>enrollment.
     and_then (event_signer parentState enrollment event) (\<lambda>signer.
     and_then (verifyVaultEventSignature P event (cl_signingPublicKey signer)) (\<lambda>valid.
     and_then (guard_not (\<not> valid) (TypeError ''Vault Event signature is invalid'')) (\<lambda>_.
     if ev_family event = 1
     then and_then (accept_authority P R parentState signer enrollment event) (\<lambda>R. acceptAuthorityNode R event)
     else if ev_family event = 3
     then and_then (accept_lifecycle parentState signer event) (\<lambda>_. acceptAuthorityNode R event)
     else ok R))))))"

end
