(* ===== verification/Authority_Checkpoint.thy ===== *)
theory Authority_Checkpoint
  imports Authority_Replay
begin

text \<open>
  Model of \<open>runtime/projection/canonical-authority-checkpoint.ts\<close>: the Authority State as the value a Baseline
  carries. Decoding gives the anchor state of a replay, encoding the checkpoint of the Baseline a Vacuum
  creates.
\<close>

section \<open>Decoding the parts\<close>

definition numbered :: "string \<Rightarrow> nat \<Rightarrow> string" where
  "numbered field index = field @ '' '' @ nat_str index"

definition decodeSet ::
  "platform \<Rightarrow> cvalue \<Rightarrow> string \<Rightarrow> (nat \<Rightarrow> cvalue \<Rightarrow> 'a res) \<Rightarrow> bool \<Rightarrow> 'a list res" where
  "decodeSet P value field decode nonempty =
     and_then (canonicalSetValue P value field (\<lambda>_ entry. ok entry) nonempty) (traverse_i decode 0)"

primrec checkpoint_issuer :: "nat \<Rightarrow> bytes option \<Rightarrow> cvalue list \<Rightarrow> bytes option res" where
  "checkpoint_issuer index issuer [] = ok issuer"
| "checkpoint_issuer index issuer (value # rest) =
     (let name = numbered ''Checkpoint Invitation capability'' index in
      and_then (exactMap value (num_keys 5) name) (\<lambda>capability.
      and_then (id_at capability 1 MemberId (name @ '' issuer'')) (\<lambda>candidate.
      and_then (guard_not (case issuer of None \<Rightarrow> False | Some i \<Rightarrow> \<not> bytesEqual i candidate)
        (TypeError ''Checkpoint Invitation capabilities do not have one issuer'')) (\<lambda>_.
      checkpoint_issuer (Suc index) (Some candidate) rest))))"

definition invitationIssuer :: "platform \<Rightarrow> cvalue \<Rightarrow> bytes res" where
  "invitationIssuer P caps =
     and_then (canonicalSetValue P caps ''Checkpoint Invitation capabilities'' (\<lambda>_ entry. ok entry) True)
       (\<lambda>values.
     and_then (checkpoint_issuer 0 None values) (\<lambda>issuer.
     case issuer of
       None \<Rightarrow> throw (TypeError ''Checkpoint Invitation has no issuer'')
     | Some i \<Rightarrow> ok i))"

definition decode_certificate ::
  "bytes list \<Rightarrow> nat \<Rightarrow> cvalue \<Rightarrow> (cvalue \<times> authority_client_credential list) res" where
  "decode_certificate active index value =
     (let name = numbered ''Client Certificate'' index in
      and_then (exactMap value (num_keys 4) name) (\<lambda>m.
      and_then (id_at m 0 ClientCredentialId (name @ '' ID'')) (\<lambda>i.
      and_then (id_at m 1 MemberId (name @ '' Member ID'')) (\<lambda>memberId.
      and_then (guard_not (\<not> list_ex (\<lambda>c. bytesEqual c memberId) active)
        (TypeError ''Checkpoint Client Certificate belongs to an inactive Member'')) (\<lambda>_.
      and_then (bytes_at m 2 32 (name @ '' signing key'')) (\<lambda>signing.
      and_then (bytes_at m 3 32 (name @ '' wrapping key'')) (\<lambda>wrapping.
      ok (value, [\<lparr>cl_clientCredentialId = i, cl_memberId = memberId, cl_signingPublicKey = signing,
        cl_wrappingPublicKey = wrapping, cl_active = True\<rparr>]))))))))"

definition decode_recovery :: "bytes list \<Rightarrow> nat \<Rightarrow> cvalue \<Rightarrow> authority_recovery_credential res" where
  "decode_recovery active index value =
     (let name = numbered ''Recovery Credential'' index in
      and_then (exactMap value (num_keys 5) name) (\<lambda>m.
      and_then (id_at m 1 MemberId (name @ '' Member ID'')) (\<lambda>memberId.
      and_then (guard_not (\<not> list_ex (\<lambda>c. bytesEqual c memberId) active)
        (TypeError ''Checkpoint Recovery Credential belongs to an inactive Member'')) (\<lambda>_.
      and_then (id_at m 0 RecoveryCredentialId (name @ '' ID'')) (\<lambda>i.
      and_then (with_field m 2 (\<lambda>v. nonnegativeInteger v (name @ '' revision''))) (\<lambda>revision.
      and_then (bytes_at m 3 32 (name @ '' signing key'')) (\<lambda>signing.
      and_then (bytes_at m 4 32 (name @ '' wrapping key'')) (\<lambda>wrapping.
      ok \<lparr>rv_recoveryCredentialId = i, rv_memberId = memberId, rv_revision = revision,
        rv_signingPublicKey = signing, rv_wrappingPublicKey = wrapping, rv_effective = True\<rparr>))))))))"

definition decode_invitation :: "platform \<Rightarrow> nat \<Rightarrow> cvalue \<Rightarrow> authority_invitation res" where
  "decode_invitation P index value =
     (let name = numbered ''Active Invitation'' index in
      and_then (exactMap value (num_keys 7) name) (\<lambda>m.
      and_then (mapValue m 3) (\<lambda>caps.
      and_then (id_at m 0 InvitationId (name @ '' ID'')) (\<lambda>i.
      and_then (invitationIssuer P caps) (\<lambda>issuer.
      and_then (bytes_at m 1 32 (name @ '' redemption verifier'')) (\<lambda>redemption.
      and_then (bytes_at m 2 32 (name @ '' cancellation verifier'')) (\<lambda>cancellation.
      and_then (id_at m 4 VaultRecordId (name @ '' creation Record'')) (\<lambda>creation.
      and_then (bytes_at m 5 32 (name @ '' redemption authority ID'')) (\<lambda>authorityId.
      and_then (bytes_at m 6 32 (name @ '' receipt verification key'')) (\<lambda>receiptKey.
      ok \<lparr>ain_invitationId = i, ain_issuerMemberId = issuer, ain_capabilities = caps,
        ain_redemptionVerifier = redemption, ain_cancellationVerifier = cancellation,
        ain_redemptionAuthorityId = authorityId, ain_receiptVerificationKey = receiptKey,
        ain_creationRecordId = creation\<rparr>))))))))))"

definition decode_epoch :: "nat \<Rightarrow> cvalue \<Rightarrow> authority_key_epoch res" where
  "decode_epoch index value =
     (let name = numbered ''Key Epoch summary'' index in
      and_then (exactMap value (num_keys 3) name) (\<lambda>m.
      and_then (id_at m 0 KeyEpochId (name @ '' ID'')) (\<lambda>i.
      and_then (with_field m 1 (\<lambda>v. nonnegativeInteger v (name @ '' display number''))) (\<lambda>n.
      and_then (with_field m 2 (\<lambda>v. booleanValue v (name @ '' current marker''))) (\<lambda>current.
      ok \<lparr>ke_keyEpochId = i, ke_displayNumber = n, ke_current = current\<rparr>)))))"

definition decode_slot :: "nat \<Rightarrow> cvalue \<Rightarrow> slot_summary res" where
  "decode_slot index value =
     (let name = numbered ''Checkpoint Key Envelope slot'' index in
      and_then (exactMap value (num_keys 5) name) (\<lambda>m.
      and_then (with_field m 1 (\<lambda>v. oneOfCodes v [1, 2] (name @ '' target kind''))) (\<lambda>kind.
      and_then (with_field m 3 (\<lambda>v. nullable v (\<lambda>r. nonnegativeInteger r (name @ '' target revision''))))
        (\<lambda>revision.
      and_then (guard_not ((kind = 1) \<noteq> (revision \<noteq> None))
        (TypeError ''Checkpoint Key Envelope target revision does not match its kind'')) (\<lambda>_.
      and_then (id_at m 0 KeyEpochId (name @ '' Epoch ID'')) (\<lambda>epochId.
      and_then (id_at m 2 (if kind = 1 then RecoveryCredentialId else ClientCredentialId)
        (name @ '' target Credential ID'')) (\<lambda>credentialId.
      and_then (id_at m 4 KeyEnvelopeId (name @ '' ID'')) (\<lambda>envelopeId.
      ok \<lparr>sl_keyEpochId = epochId, sl_targetKind = kind, sl_targetCredentialId = credentialId,
        sl_targetRevision = revision, sl_keyEnvelopeId = envelopeId\<rparr>))))))))"

section \<open>Decoding conflicts and fences\<close>

datatype authority_conflict =
    ConflictedInvitation invitation_conflict
  | ConflictedRecovery recovery_conflict
  | ConflictedEpoch epoch_conflict
  | ConflictedAdministrator administrator_conflict

definition conflict_name :: "nat \<Rightarrow> nat \<Rightarrow> string" where
  "conflict_name index candidateIndex = numbered (numbered ''Authority Conflict'' index @ '' candidate'') candidateIndex"

definition decode_invitation_candidate :: "nat \<Rightarrow> nat \<Rightarrow> cvalue \<Rightarrow> invitation_candidate res" where
  "decode_invitation_candidate index candidateIndex value =
     (let name = conflict_name index candidateIndex in
      and_then (exactMap value (num_keys 5) name) (\<lambda>m.
      and_then (with_field m 1 (\<lambda>v. oneOfCodes v [1, 2] (name @ '' outcome''))) (\<lambda>outcome.
      and_then (with_field m 3 (\<lambda>v. nullable v (\<lambda>r. byteString r 32 (name @ '' Join Request ID'')))) (\<lambda>request.
      and_then (with_field m 4 (\<lambda>v. nullable v (\<lambda>r. identifierValue r MemberId (name @ '' Member ID'')))) (\<lambda>memberId.
      and_then (guard_not ((outcome = 1) \<noteq> (request \<noteq> None \<and> memberId \<noteq> None))
        (TypeError ''Invitation Conflict candidate outcome is inconsistent'')) (\<lambda>_.
      and_then (id_at m 0 VaultRecordId (name @ '' head'')) (\<lambda>headId.
      and_then (bytes_at m 2 32 (name @ '' receipt ID'')) (\<lambda>receiptId.
      ok \<lparr>ic_headRecordId = headId, ic_outcome = outcome, ic_authorityReceiptId = receiptId,
        ic_joinRequestId = request, ic_memberId = memberId\<rparr>))))))))"

definition decode_recovery_candidate :: "nat \<Rightarrow> nat \<Rightarrow> cvalue \<Rightarrow> recovery_candidate res" where
  "decode_recovery_candidate index candidateIndex value =
     (let name = conflict_name index candidateIndex in
      and_then (exactMap value (num_keys 2) name) (\<lambda>m.
      and_then (id_at m 0 VaultRecordId (name @ '' head'')) (\<lambda>headId.
      and_then (id_at m 1 RecoveryCredentialId (name @ '' Credential ID'')) (\<lambda>i.
      ok \<lparr>rvc_headRecordId = headId, rvc_recoveryCredentialId = i\<rparr>))))"

definition decode_epoch_candidate :: "nat \<Rightarrow> nat \<Rightarrow> cvalue \<Rightarrow> epoch_candidate res" where
  "decode_epoch_candidate index candidateIndex value =
     (let name = conflict_name index candidateIndex in
      and_then (exactMap value (num_keys 2) name) (\<lambda>m.
      and_then (id_at m 0 VaultRecordId (name @ '' head'')) (\<lambda>headId.
      and_then (id_at m 1 KeyEpochId (name @ '' Epoch ID'')) (\<lambda>i.
      ok \<lparr>kec_headRecordId = headId, kec_keyEpochId = i\<rparr>))))"

definition decode_administrator_candidate :: "nat \<Rightarrow> nat \<Rightarrow> cvalue \<Rightarrow> administrator_candidate res" where
  "decode_administrator_candidate index candidateIndex value =
     (let name = conflict_name index candidateIndex in
      and_then (exactMap value (num_keys 2) name) (\<lambda>m.
      and_then (id_at m 0 VaultRecordId (name @ '' head'')) (\<lambda>headId.
      and_then (with_field m 1 (\<lambda>v. booleanValue v (name @ '' state''))) (\<lambda>b.
      ok \<lparr>adc_headRecordId = headId, adc_administrator = b\<rparr>))))"

definition decode_candidates ::
  "platform \<Rightarrow> nat \<Rightarrow> cmap \<Rightarrow> (nat \<Rightarrow> nat \<Rightarrow> cvalue \<Rightarrow> 'a res) \<Rightarrow> 'a list res" where
  "decode_candidates P index m decode =
     with_field m 2 (\<lambda>v. decodeSet P v (numbered ''Authority Conflict'' index @ '' candidates'') (decode index) True)"

definition decode_conflict :: "platform \<Rightarrow> bytes \<Rightarrow> nat \<Rightarrow> cvalue \<Rightarrow> (cvalue \<times> authority_conflict list) res" where
  "decode_conflict P vaultId index value =
     (let name = numbered ''Authority Conflict'' index in
      and_then (exactMap value (num_keys 3) name) (\<lambda>m.
      and_then (with_field m 0 (\<lambda>v. oneOfCodes v [1, 2, 3, 4] (name @ '' kind''))) (\<lambda>kind.
      if kind = 1 then
        and_then (id_at m 1 InvitationId (name @ '' Invitation ID'')) (\<lambda>i.
        and_then (decode_candidates P index m decode_invitation_candidate) (\<lambda>cs.
        ok (value, [ConflictedInvitation \<lparr>icf_invitationId = i, icf_candidates = cs\<rparr>])))
      else if kind = 2 then
        and_then (id_at m 1 MemberId (name @ '' Member ID'')) (\<lambda>i.
        and_then (decode_candidates P index m decode_recovery_candidate) (\<lambda>cs.
        ok (value, [ConflictedRecovery \<lparr>rvf_memberId = i, rvf_candidates = cs\<rparr>])))
      else if kind = 3 then
        and_then (id_at m 1 VaultId (name @ '' Vault ID'')) (\<lambda>i.
        and_then (guard_not (\<not> bytesEqual i vaultId)
          (TypeError ''Key Epoch Conflict belongs to another Vault'')) (\<lambda>_.
        and_then (decode_candidates P index m decode_epoch_candidate) (\<lambda>cs.
        ok (value, [ConflictedEpoch \<lparr>kef_candidates = cs\<rparr>]))))
      else
        and_then (id_at m 1 MemberId (name @ '' Member ID'')) (\<lambda>i.
        and_then (decode_candidates P index m decode_administrator_candidate) (\<lambda>cs.
        ok (value, [ConflictedAdministrator \<lparr>adf_memberId = i, adf_candidates = cs\<rparr>]))))))"

fun invitation_part :: "authority_conflict \<Rightarrow> invitation_conflict option" where
  "invitation_part (ConflictedInvitation c) = Some c" | "invitation_part _ = None"

fun recovery_part :: "authority_conflict \<Rightarrow> recovery_conflict option" where
  "recovery_part (ConflictedRecovery c) = Some c" | "recovery_part _ = None"

fun epoch_part :: "authority_conflict \<Rightarrow> epoch_conflict option" where
  "epoch_part (ConflictedEpoch c) = Some c" | "epoch_part _ = None"

fun administrator_part :: "authority_conflict \<Rightarrow> administrator_conflict option" where
  "administrator_part (ConflictedAdministrator c) = Some c" | "administrator_part _ = None"

definition decodeFenceKind :: "cvalue \<Rightarrow> fence_kind res" where
  "decodeFenceKind value =
     and_then (oneOfCodes value [1, 2, 3, 4] ''Authority fence kind'') (\<lambda>code.
     ok (if code = 1 then MemberRemoval else if code = 2 then ClientCredentialRemoval
         else if code = 3 then InvitationConflictFence else KeyEpochConflictFence))"

fun fence_subject :: "fence_kind \<Rightarrow> identifier_kind" where
  "fence_subject MemberRemoval = MemberId"
| "fence_subject ClientCredentialRemoval = ClientCredentialId"
| "fence_subject InvitationConflictFence = InvitationId"
| "fence_subject _ = VaultId"

definition decode_fence :: "platform \<Rightarrow> bytes \<Rightarrow> nat \<Rightarrow> cvalue \<Rightarrow> write_fence res" where
  "decode_fence P vaultId index value =
     (let name = numbered ''Authority fence'' index in
      and_then (exactMap value (num_keys 3) name) (\<lambda>m.
      and_then (with_field m 0 decodeFenceKind) (\<lambda>kind.
      and_then (id_at m 1 (fence_subject kind) (name @ '' subject ID'')) (\<lambda>i.
      and_then (guard_not (kind = KeyEpochConflictFence \<and> \<not> bytesEqual i vaultId)
        (TypeError ''Key Epoch fence belongs to another Vault'')) (\<lambda>_.
      and_then (with_field m 2 (\<lambda>v. idSetValue P v VaultRecordId (name @ '' cause Record IDs'') True)) (\<lambda>causes.
      ok \<lparr>wf_kind = kind, wf_subjectId = i, wf_causeRecordIds = causes\<rparr>))))))"

section \<open>Decoding\<close>

record checkpoint_input =
  cp_vaultId :: bytes
  cp_checkpoint :: cvalue
  cp_requiredFeatureSetId :: bytes
  cp_featureManifests :: "authority_feature_manifest list"
  cp_lifecycle :: int

definition decodeCanonicalAuthorityCheckpoint :: "platform \<Rightarrow> checkpoint_input \<Rightarrow> authority_state res" where
  "decodeCanonicalAuthorityCheckpoint P input =
     and_then (exactMap (cp_checkpoint input) (num_keys 10) ''Authority checkpoint'') (\<lambda>m.
     and_then (with_field m 0 (\<lambda>v. exactCode v 1 ''Authority checkpoint format'')) (\<lambda>_.
     and_then (with_field m 1 (\<lambda>v. idSetValue P v MemberId ''Active Member IDs'' True)) (\<lambda>active.
     and_then (with_field m 2 (\<lambda>v. idSetValue P v MemberId ''Administrator Member IDs'' True)) (\<lambda>administrators.
     and_then (guard_not (list_ex (\<lambda>a. \<not> list_ex (\<lambda>i. bytesEqual i a) active) administrators)
       (TypeError ''Every checkpointed Administrator must be an Active Member'')) (\<lambda>_.
     and_then (with_field m 3 (\<lambda>v. canonicalSetCollect P v ''Client Certificates'' (decode_certificate active) True))
       (\<lambda>(_, clients).
     and_then (with_field m 4 (\<lambda>v. decodeSet P v ''Recovery Credentials'' (decode_recovery active) True)) (\<lambda>recoveries.
     and_then (with_field m 5 (\<lambda>v. decodeSet P v ''Active Invitations'' (decode_invitation P) False)) (\<lambda>invitations.
     and_then (with_field m 6 (\<lambda>v. decodeSet P v ''Key Epoch summaries'' decode_epoch True)) (\<lambda>epochs.
     and_then (with_field m 7 (\<lambda>v. decodeSet P v ''Checkpoint Key Envelope slots'' decode_slot True)) (\<lambda>envelopes.
     and_then (with_field m 8 (\<lambda>v. canonicalSetCollect P v ''Active Authority Conflicts''
       (decode_conflict P (cp_vaultId input)) False)) (\<lambda>(_, conflicts).
     and_then (with_field m 9 (\<lambda>v. decodeSet P v ''Active Authority fences'' (decode_fence P (cp_vaultId input)) False))
       (\<lambda>fences.
     and_then (requiredFeatureSetId P (map afm_manifest (cp_featureManifests input))) (\<lambda>featureSetId.
     and_then (guard_not (\<not> bytesEqual featureSetId (cp_requiredFeatureSetId input))
       (TypeError ''Checkpoint Feature Manifests do not match the Required Feature Set'')) (\<lambda>_.
     ok \<lparr>activeMemberIds = active, administratorIds = administrators,
         administratorConflicts = List.map_filter administrator_part conflicts,
         activeInvitations = invitations,
         invitationConflicts = List.map_filter invitation_part conflicts,
         recoveryCredentials = recoveries, recoveryConflicts = List.map_filter recovery_part conflicts,
         keyEpochs = epochs, keyEpochConflicts = List.map_filter epoch_part conflicts,
         keyEnvelopeSlots = envelopes, as_requiredFeatureSetId = cp_requiredFeatureSetId input,
         featureManifests = cp_featureManifests input, featureSetConflict = None, writeFences = fences,
         clientCredentials = mapFrom (map (\<lambda>c. (key (cl_clientCredentialId c), c)) clients),
         lifecycle = cp_lifecycle input\<rparr>))))))))))))))"

section \<open>Encoding\<close>

definition value_map :: "(int \<times> cvalue) list \<Rightarrow> cvalue res" where
  "value_map entries = and_then (canonicalMap entries) (\<lambda>m. ok (CMap m))"

definition value_set :: "platform \<Rightarrow> cvalue list \<Rightarrow> cvalue res" where
  "value_set P vs = and_then (canonicalSet P vs) (\<lambda>ws. ok (CArray ws))"

definition value_ids :: "platform \<Rightarrow> bytes list \<Rightarrow> cvalue res" where
  "value_ids P ids = value_set P (map CBytes ids)"

definition or_null :: "('a \<Rightarrow> cvalue) \<Rightarrow> 'a option \<Rightarrow> cvalue" where
  "or_null f x = (case x of None \<Rightarrow> CNull | Some y \<Rightarrow> f y)"

fun fenceKind :: "fence_kind \<Rightarrow> int res" where
  "fenceKind MemberRemoval = ok 1"
| "fenceKind ClientCredentialRemoval = ok 2"
| "fenceKind InvitationConflictFence = ok 3"
| "fenceKind KeyEpochConflictFence = ok 4"
| "fenceKind FeatureSetIncompatibility =
     throw (TypeError ''An incompatible Required Feature Set cannot be checkpointed'')"

definition certificate_value :: "authority_client_credential \<Rightarrow> cvalue res" where
  "certificate_value c =
     value_map [(0, CBytes (cl_clientCredentialId c)), (1, CBytes (cl_memberId c)),
       (2, CBytes (cl_signingPublicKey c)), (3, CBytes (cl_wrappingPublicKey c))]"

definition recovery_value :: "authority_recovery_credential \<Rightarrow> cvalue res" where
  "recovery_value c =
     value_map [(0, CBytes (rv_recoveryCredentialId c)), (1, CBytes (rv_memberId c)), (2, CNum (rv_revision c)),
       (3, CBytes (rv_signingPublicKey c)), (4, CBytes (rv_wrappingPublicKey c))]"

definition invitation_value :: "authority_invitation \<Rightarrow> cvalue res" where
  "invitation_value i =
     value_map [(0, CBytes (ain_invitationId i)), (1, CBytes (ain_redemptionVerifier i)),
       (2, CBytes (ain_cancellationVerifier i)), (3, ain_capabilities i), (4, CBytes (ain_creationRecordId i)),
       (5, CBytes (ain_redemptionAuthorityId i)), (6, CBytes (ain_receiptVerificationKey i))]"

definition epoch_value :: "authority_key_epoch \<Rightarrow> cvalue res" where
  "epoch_value e =
     value_map [(0, CBytes (ke_keyEpochId e)), (1, CNum (ke_displayNumber e)), (2, CBool (ke_current e))]"

definition slot_value :: "slot_summary \<Rightarrow> cvalue res" where
  "slot_value s =
     value_map [(0, CBytes (sl_keyEpochId s)), (1, CNum (sl_targetKind s)), (2, CBytes (sl_targetCredentialId s)),
       (3, or_null CNum (sl_targetRevision s)), (4, CBytes (sl_keyEnvelopeId s))]"

definition conflict_value :: "platform \<Rightarrow> int \<Rightarrow> bytes \<Rightarrow> ('a \<Rightarrow> cvalue res) \<Rightarrow> 'a list \<Rightarrow> cvalue res" where
  "conflict_value P kind subject candidate candidates =
     and_then (traverse candidate candidates) (\<lambda>vs.
     and_then (value_set P vs) (\<lambda>members.
     value_map [(0, CNum kind), (1, CBytes subject), (2, members)]))"

definition invitation_candidate_value :: "invitation_candidate \<Rightarrow> cvalue res" where
  "invitation_candidate_value c =
     value_map [(0, CBytes (ic_headRecordId c)), (1, CNum (ic_outcome c)), (2, CBytes (ic_authorityReceiptId c)),
       (3, or_null CBytes (ic_joinRequestId c)), (4, or_null CBytes (ic_memberId c))]"

definition recovery_candidate_value :: "recovery_candidate \<Rightarrow> cvalue res" where
  "recovery_candidate_value c = value_map [(0, CBytes (rvc_headRecordId c)), (1, CBytes (rvc_recoveryCredentialId c))]"

definition epoch_candidate_value :: "epoch_candidate \<Rightarrow> cvalue res" where
  "epoch_candidate_value c = value_map [(0, CBytes (kec_headRecordId c)), (1, CBytes (kec_keyEpochId c))]"

definition administrator_candidate_value :: "administrator_candidate \<Rightarrow> cvalue res" where
  "administrator_candidate_value c = value_map [(0, CBytes (adc_headRecordId c)), (1, CBool (adc_administrator c))]"

definition conflict_values :: "platform \<Rightarrow> bytes \<Rightarrow> authority_state \<Rightarrow> cvalue list res" where
  "conflict_values P vaultId st =
     and_then (traverse (\<lambda>c. conflict_value P 1 (icf_invitationId c) invitation_candidate_value (icf_candidates c))
       (invitationConflicts st)) (\<lambda>invitations.
     and_then (traverse (\<lambda>c. conflict_value P 2 (rvf_memberId c) recovery_candidate_value (rvf_candidates c))
       (recoveryConflicts st)) (\<lambda>recoveries.
     and_then (traverse (\<lambda>c. conflict_value P 3 vaultId epoch_candidate_value (kef_candidates c))
       (keyEpochConflicts st)) (\<lambda>epochs.
     and_then (traverse (\<lambda>c. conflict_value P 4 (adf_memberId c) administrator_candidate_value (adf_candidates c))
       (administratorConflicts st)) (\<lambda>administrators.
     ok (invitations @ recoveries @ epochs @ administrators)))))"

definition fence_value :: "platform \<Rightarrow> write_fence \<Rightarrow> cvalue res" where
  "fence_value P f =
     and_then (fenceKind (wf_kind f)) (\<lambda>kind.
     and_then (value_ids P (wf_causeRecordIds f)) (\<lambda>causes.
     value_map [(0, CNum kind), (1, CBytes (wf_subjectId f)), (2, causes)]))"

definition encodeCanonicalAuthorityCheckpoint :: "platform \<Rightarrow> bytes \<Rightarrow> authority_state \<Rightarrow> cvalue res" where
  "encodeCanonicalAuthorityCheckpoint P vaultId st =
     and_then (guard_not (lifecycle st \<noteq> 1)
       (TypeError ''A Closed Authority State cannot become a continuing Baseline'')) (\<lambda>_.
     and_then (guard_not (featureSetConflict st \<noteq> None)
       (TypeError ''An incompatible Required Feature Set cannot be checkpointed'')) (\<lambda>_.
     let eligible = (\<lambda>memberId. key memberId \<in> key ` set (activeMemberIds st)) in
     and_then (traverse certificate_value
       (filter (\<lambda>c. cl_active c \<and> eligible (cl_memberId c)) (mapValues (clientCredentials st)))) (\<lambda>certificates.
     and_then (traverse recovery_value
       (filter (\<lambda>c. rv_effective c \<and> eligible (rv_memberId c)) (recoveryCredentials st))) (\<lambda>recoveries.
     and_then (traverse invitation_value (activeInvitations st)) (\<lambda>invitations.
     and_then (traverse epoch_value (keyEpochs st)) (\<lambda>epochs.
     and_then (traverse slot_value (keyEnvelopeSlots st)) (\<lambda>envelopes.
     and_then (conflict_values P vaultId st) (\<lambda>conflicts.
     and_then (traverse (fence_value P) (writeFences st)) (\<lambda>fences.
     and_then (value_ids P (activeMemberIds st)) (\<lambda>members.
     and_then (value_ids P (administratorIds st)) (\<lambda>administrators.
     and_then (value_set P certificates) (\<lambda>certificates.
     and_then (value_set P recoveries) (\<lambda>recoveries.
     and_then (value_set P invitations) (\<lambda>invitations.
     and_then (value_set P epochs) (\<lambda>epochs.
     and_then (value_set P envelopes) (\<lambda>envelopes.
     and_then (value_set P conflicts) (\<lambda>conflicts.
     and_then (value_set P fences) (\<lambda>fences.
     value_map [(0, CNum 1), (1, members), (2, administrators), (3, certificates), (4, recoveries),
       (5, invitations), (6, epochs), (7, envelopes), (8, conflicts), (9, fences)]))))))))))))))))))"

end
