(* ===== verification/Vault_Open.thy ===== *)
theory Vault_Open
  imports Authority_Checkpoint Local_State
begin

text \<open>
  Model of \<open>runtime/vault/canonical-open.ts\<close>: what must hold before a stored Vault is opened. The Authority State
  of Genesis is rebuilt from its body, the Continuity Proof is replayed from it, and the Baseline, the Replica
  State and the local secrets are compared with the result. The resolver of Key Envelopes and Feature Manifests
  is an argument of the code and stays one here; the caller discards the returned Key Envelope bytes.
\<close>

section \<open>Comparisons\<close>

definition sameSet :: "bytes list \<Rightarrow> bytes list \<Rightarrow> string \<Rightarrow> unit res" where
  "sameSet left right field =
     guard_not (length left \<noteq> length right \<or>
         list_ex (\<lambda>candidate. \<not> list_ex (\<lambda>value. bytesEqual candidate value) right) left)
       (TypeError (field @ '' does not match''))"

definition same_dependencies ::
  "platform \<Rightarrow> typed_dependency list \<Rightarrow> typed_dependency list \<Rightarrow> string \<Rightarrow> unit res" where
  "same_dependencies P left right field =
     and_then (dependencySet P left) (\<lambda>l.
     and_then (dependencySet P right) (\<lambda>r.
     sameCanonical P (CArray l) (CArray r) field))"

text \<open>\<open>sameCanonical(mapValue(m, k), canonicalSet(values), field)\<close>\<close>

definition same_set_at :: "platform \<Rightarrow> cmap \<Rightarrow> int \<Rightarrow> cvalue list \<Rightarrow> string \<Rightarrow> unit res" where
  "same_set_at P m k vs field =
     with_field m k (\<lambda>v. and_then (canonicalSet P vs) (\<lambda>ws. sameCanonical P v (CArray ws) field))"

section \<open>The first Client\<close>

record initial_client =
  icl_memberId :: bytes
  icl_clientCredentialId :: bytes
  icl_signingPublicKey :: bytes
  icl_wrappingPublicKey :: bytes

definition initialVaultClientAuthority :: "authenticated_event \<Rightarrow> initial_client res" where
  "initialVaultClientAuthority genesis =
     and_then (exactMap (ev_body genesis) (num_keys 7) ''Genesis body'') (\<lambda>genesisBody.
     and_then (id_at genesisBody 1 MemberId ''Genesis first Member ID'') (\<lambda>memberId.
     and_then (with_field genesisBody 2 (\<lambda>v. exactMap v (num_keys 4) ''Genesis Client Certificate'')) (\<lambda>cert.
     and_then (id_at cert 1 MemberId ''Certificate Member ID'') (\<lambda>certificateMemberId.
     and_then (same certificateMemberId memberId ''Certificate Member ID'') (\<lambda>_.
     and_then (id_at cert 0 ClientCredentialId ''Genesis Client Credential ID'') (\<lambda>credentialId.
     and_then (bytes_at cert 2 32 ''Client signing public key'') (\<lambda>signing.
     and_then (bytes_at cert 3 32 ''Client wrapping public key'') (\<lambda>wrapping.
     ok \<lparr>icl_memberId = memberId, icl_clientCredentialId = credentialId, icl_signingPublicKey = signing,
         icl_wrappingPublicKey = wrapping\<rparr>))))))))"

definition baselineVaultLabel :: "vault_baseline \<Rightarrow> string option res" where
  "baselineVaultLabel baseline =
     and_then (exactMap (bl_body baseline) (num_keys 6) ''Vault Baseline body'') (\<lambda>body.
     and_then (with_field body 2 (\<lambda>v. exactMap v (num_keys 10) ''Content checkpoint'')) (\<lambda>content.
     and_then (with_field content 1 (\<lambda>v. exactMap v (num_keys 2) ''Vault label'')) (\<lambda>label.
     with_field label 0 (\<lambda>v. nullable v (\<lambda>value.
       textValue value ''Vault label'' (default_text\<lparr>maxUtf8Bytes := Some 1024\<rparr>))))))"

section \<open>The local Client\<close>

definition credential_matches :: "client_secret_state \<Rightarrow> bytes \<Rightarrow> authority_client_credential \<Rightarrow> bool" where
  "credential_matches secret memberId c \<longleftrightarrow>
     cl_active c \<and> bytesEqual (cl_memberId c) memberId \<and>
     bytesEqual (cl_signingPublicKey c) (cs_signingPublicKey secret) \<and>
     bytesEqual (cl_wrappingPublicKey c) (cs_wrappingPublicKey secret)"

definition validateLocalClientAuthority ::
  "bytes \<Rightarrow> authority_state \<Rightarrow> bytes option \<Rightarrow> bytes option \<Rightarrow> client_secret_state option \<Rightarrow> unit res" where
  "validateLocalClientAuthority vaultId authority credentialId member stored =
     (case (credentialId, member) of
        (None, None) \<Rightarrow> ok ()
      | (Some i, Some memberId) \<Rightarrow>
          (case stored of
             None \<Rightarrow> throw (TypeError ''Authoring Replica has no local Client Secret'')
           | Some secret \<Rightarrow>
               and_then (checks [same (cs_vaultId secret) vaultId ''Client Secret Vault ID'',
                   same (cs_clientCredentialId secret) i ''Stored Client Credential'',
                   same (cs_memberId secret) memberId ''Stored Client Member'']) (\<lambda>_.
               guard_not (case find (\<lambda>c. bytesEqual (cl_clientCredentialId c) i) (mapValues (clientCredentials authority)) of
                   None \<Rightarrow> True | Some c \<Rightarrow> \<not> credential_matches secret memberId c)
                 (TypeError ''Local Client Secret does not match active Authority State'')))
      | _ \<Rightarrow> throw (TypeError ''Replica local Client authority is incomplete''))"

section \<open>Genesis\<close>

definition genesis_transcript ::
  "platform \<Rightarrow> authenticated_event \<Rightarrow> bytes \<Rightarrow> bytes \<Rightarrow> cmap \<Rightarrow> cmap \<Rightarrow> bytes \<Rightarrow> bytes res" where
  "genesis_transcript P genesis baselineId memberId cert recovery epochId =
     and_then (encodeCanonicalValue P (CMap cert)) (\<lambda>certificateBytes.
     and_then (encodeCanonicalValue P (CMap recovery)) (\<lambda>recoveryBytes.
     transcript ''awsm:genesis-possession-proof:v1''
       [cx_vaultId genesis, cx_generationId genesis, baselineId, memberId, certificateBytes, recoveryBytes, epochId,
        cx_requiredFeatureSetId genesis]))"

definition genesis_signatures ::
  "platform \<Rightarrow> authenticated_event \<Rightarrow> cmap \<Rightarrow> bytes \<Rightarrow> bytes \<Rightarrow> bytes \<Rightarrow> unit res" where
  "genesis_signatures P genesis possession message clientKey recoveryKey =
     (let invalid = TypeError ''Genesis signatures are invalid'' in
      and_then (bytes_at possession 0 64 ''Genesis Client proof'') (\<lambda>clientProof.
      and_then (guard_not (\<not> verify_detached P clientProof message clientKey) invalid) (\<lambda>_.
      and_then (bytes_at possession 1 64 ''Genesis Recovery proof'') (\<lambda>recoveryProof.
      and_then (guard_not (\<not> verify_detached P recoveryProof message recoveryKey) invalid) (\<lambda>_.
      and_then (verifyVaultEventSignature P genesis clientKey) (\<lambda>valid.
      guard_not (\<not> valid) invalid))))))"

definition genesis_root :: "authenticated_event \<Rightarrow> unit res" where
  "genesis_root genesis =
     checks [guard_not (ev_family genesis \<noteq> 1 \<or> ev_type genesis \<noteq> 1) (TypeError ''Initial authority root is not Genesis''),
       guard_not (length (cx_parentRecordIds genesis) \<noteq> 0 \<or> length (cx_authorityParentRecordIds genesis) \<noteq> 0)
         (TypeError ''Genesis must be parentless'')]"

definition initial_slot :: "bytes \<Rightarrow> bytes \<Rightarrow> bytes \<Rightarrow> int \<Rightarrow> slot_summary \<Rightarrow> bool" where
  "initial_slot epochId recoveryCredentialId clientCredentialId revision s \<longleftrightarrow>
     bytesEqual (sl_keyEpochId s) epochId \<and>
     (sl_targetKind s = 1 \<and> bytesEqual (sl_targetCredentialId s) recoveryCredentialId \<and> sl_targetRevision s = Some revision \<or>
      sl_targetKind s = 2 \<and> bytesEqual (sl_targetCredentialId s) clientCredentialId \<and> sl_targetRevision s = None)"

definition genesisAuthorityState ::
  "platform \<Rightarrow> bytes \<Rightarrow> authenticated_event \<Rightarrow> authority_state \<Rightarrow> authority_feature_manifest list \<Rightarrow> authority_state res" where
  "genesisAuthorityState P vaultId genesis currentBaselineAuthority initialFeatureManifests =
     and_then (genesis_root genesis) (\<lambda>_.
     and_then (same (cx_vaultId genesis) vaultId ''Genesis Vault ID'') (\<lambda>_.
     and_then (exactMap (ev_body genesis) (num_keys 7) ''Genesis body'') (\<lambda>body.
     and_then (id_at body 0 VaultRecordId ''Genesis Baseline ID'') (\<lambda>baselineId.
     and_then (same_dependencies P (ev_dependencies genesis) [dependency DepVaultBaseline baselineId]
       ''Genesis dependency'') (\<lambda>_.
     and_then (id_at body 1 MemberId ''Genesis first Member ID'') (\<lambda>memberId.
     and_then (with_field body 2 (\<lambda>v. exactMap v (num_keys 4) ''Genesis Client Certificate'')) (\<lambda>cert.
     and_then (with_field body 3 (\<lambda>v. exactMap v (num_keys 5) ''Genesis Recovery Credential'')) (\<lambda>recovery.
     and_then (id_at cert 0 ClientCredentialId ''Genesis Client Credential ID'') (\<lambda>clientCredentialId.
     and_then (id_at cert 1 MemberId ''Genesis Client Member ID'') (\<lambda>certificateMemberId.
     and_then (same certificateMemberId memberId ''Genesis Client Member ID'') (\<lambda>_.
     and_then (bytes_at cert 2 32 ''Genesis Client signing public key'') (\<lambda>clientSigning.
     and_then (bytes_at cert 3 32 ''Genesis Client wrapping public key'') (\<lambda>clientWrapping.
     and_then (id_at recovery 0 RecoveryCredentialId ''Genesis Recovery Credential ID'') (\<lambda>recoveryCredentialId.
     and_then (id_at recovery 1 MemberId ''Genesis Recovery Member ID'') (\<lambda>recoveryMemberId.
     and_then (same recoveryMemberId memberId ''Genesis Recovery Member ID'') (\<lambda>_.
     and_then (with_field recovery 2 (\<lambda>v. exactCode v 0 ''Genesis Recovery revision'')) (\<lambda>revision.
     and_then (bytes_at recovery 3 32 ''Genesis Recovery signing public key'') (\<lambda>recoverySigning.
     and_then (bytes_at recovery 4 32 ''Genesis Recovery wrapping public key'') (\<lambda>recoveryWrapping.
     and_then (id_at body 4 KeyEpochId ''Genesis Key Epoch ID'') (\<lambda>epochId.
     and_then (id_at body 5 RequiredFeatureSetId ''Genesis Feature Set ID'') (\<lambda>featureSetId.
     and_then (same featureSetId (cx_requiredFeatureSetId genesis) ''Genesis Feature Set ID'') (\<lambda>_.
     and_then (requiredFeatureSetId P (map afm_manifest initialFeatureManifests)) (\<lambda>baseSetId.
     and_then (same (cx_requiredFeatureSetId genesis) baseSetId ''Genesis base Required Feature Set'') (\<lambda>_.
     and_then (same clientCredentialId (ev_signerCredentialId genesis) ''Genesis signer Credential'') (\<lambda>_.
     and_then (with_field body 6 (\<lambda>v. exactMap v (num_keys 2) ''Genesis creation proof'')) (\<lambda>possession.
     and_then (genesis_transcript P genesis baselineId memberId cert recovery epochId) (\<lambda>message.
     and_then (genesis_signatures P genesis possession message clientSigning recoverySigning) (\<lambda>_.
     let initialSlots = filter (initial_slot epochId recoveryCredentialId clientCredentialId revision)
           (keyEnvelopeSlots currentBaselineAuthority) in
     and_then (guard_not (length initialSlots \<noteq> 2 \<or> \<not> list_ex (\<lambda>s. sl_targetKind s = 1) initialSlots \<or>
         \<not> list_ex (\<lambda>s. sl_targetKind s = 2) initialSlots)
       (TypeError ''Current Baseline does not retain both Genesis Key Envelope slots'')) (\<lambda>_.
     ok \<lparr>activeMemberIds = [memberId], administratorIds = [memberId], administratorConflicts = [],
         activeInvitations = [], invitationConflicts = [],
         recoveryCredentials = [\<lparr>rv_recoveryCredentialId = recoveryCredentialId, rv_memberId = memberId,
           rv_revision = revision, rv_signingPublicKey = recoverySigning, rv_wrappingPublicKey = recoveryWrapping,
           rv_effective = True\<rparr>],
         recoveryConflicts = [],
         keyEpochs = [\<lparr>ke_keyEpochId = epochId, ke_displayNumber = 0, ke_current = True\<rparr>],
         keyEpochConflicts = [], keyEnvelopeSlots = initialSlots,
         as_requiredFeatureSetId = cx_requiredFeatureSetId genesis, featureManifests = initialFeatureManifests,
         featureSetConflict = None, writeFences = [],
         clientCredentials = [(key clientCredentialId,
           \<lparr>cl_clientCredentialId = clientCredentialId, cl_memberId = memberId, cl_signingPublicKey = clientSigning,
            cl_wrappingPublicKey = clientWrapping, cl_active = True\<rparr>)],
         lifecycle = 1\<rparr>)))))))))))))))))))))))))))))"

section \<open>The Continuity Proof\<close>

definition is_genesis :: "authenticated_event \<Rightarrow> bool" where
  "is_genesis event \<longleftrightarrow> ev_family event = 1 \<and> ev_type event = 1"

definition is_vacuum :: "authenticated_event \<Rightarrow> bool" where
  "is_vacuum event \<longleftrightarrow> ev_family event = 3 \<and> ev_type event = 1"

definition proof_ready :: "authority_replay \<Rightarrow> authenticated_event \<Rightarrow> bool" where
  "proof_ready R event \<longleftrightarrow>
     length (cx_authorityParentRecordIds event) > 0 \<and> list_all (hasRecord R) (cx_authorityParentRecordIds event)"

definition ready_events :: "authority_replay \<Rightarrow> authenticated_event list \<Rightarrow> authenticated_event list" where
  "ready_events R pending =
     sort_by (\<lambda>left right. compareBytes (ev_recordId left) (ev_recordId right)) (filter (proof_ready R) pending)"

text \<open>
  Each round accepts the Events that were ready at its start and takes them out of the pending ones, so the
  number of pending Events shrinks until the loop ends.
\<close>

function proof_loop :: "platform \<Rightarrow> authority_replay \<Rightarrow> authenticated_event list \<Rightarrow> authority_replay res" where
  "proof_loop P R pending =
     (if pending = [] then ok R
      else if ready_events R pending = []
      then throw (TypeError ''Continuity Proof has a missing or cyclic Authority Parent'')
      else and_then (foldM (validateAndAccept P) R (ready_events R pending)) (\<lambda>R'.
        proof_loop P R' (filter (\<lambda>e. \<not> proof_ready R e) pending)))"
  by pat_completeness auto

lemma sort_by_Nil_iff [simp]: "sort_by cmp xs = [] \<longleftrightarrow> xs = []"
  by (metis length_0_conv length_sort_by)

termination proof_loop
  by (relation "measure (\<lambda>(P, R, pending). length pending)")
    (auto simp: ready_events_def filter_empty_conv intro!: length_filter_less)

declare proof_loop.simps [simp del]

definition replayContinuityProof ::
  "platform \<Rightarrow> authority_state \<Rightarrow> authenticated_event \<Rightarrow> authenticated_event list \<Rightarrow> authority_replay res" where
  "replayContinuityProof P initialAuthority genesis continuityEvents =
     (let genesisEvents = filter is_genesis continuityEvents in
      and_then (guard_not
          (length genesisEvents \<noteq> 1 \<or> \<not> bytesEqual (ev_recordId (hd genesisEvents)) (ev_recordId genesis) \<or>
           list_ex (\<lambda>e. ev_family e = 2) continuityEvents)
          (TypeError ''Continuity Proof must contain one Genesis and only authority semantics'')) (\<lambda>_.
      and_then (traverse (canonicalAuthorityFeatureManifestRequirements P) continuityEvents) (\<lambda>requirements.
      and_then (new_replay genesis (ev_recordId genesis) initialAuthority
          (map afm_id (featureManifests initialAuthority) @ map afm_id (concat requirements))) (\<lambda>R.
      proof_loop P R (filter (\<lambda>e. \<not> bytesEqual (ev_recordId e) (ev_recordId genesis)) continuityEvents)))))"

section \<open>Dependencies of the proof\<close>

record dependency_resolver =
  resolveKeyEnvelope :: "bytes \<Rightarrow> bytes \<Rightarrow> bytes res"
  resolveFeatureManifest :: "bytes \<Rightarrow> bytes res"

definition retain ::
  "(string, bytes \<times> bytes) jmap \<Rightarrow> bytes \<times> bytes \<Rightarrow> (string, bytes \<times> bytes) jmap res" where
  "retain requirements requirement =
     (case mapGet requirements (key (fst requirement)) of
        Some prior \<Rightarrow>
          and_then (same (snd prior) (snd requirement) ''Key Envelope requirement Epoch'') (\<lambda>_. ok requirements)
      | None \<Rightarrow> ok (mapSet requirements (key (fst requirement)) requirement))"

definition slot_requirement :: "slot_summary \<Rightarrow> bytes \<times> bytes" where
  "slot_requirement s = (sl_keyEnvelopeId s, sl_keyEpochId s)"

definition retain_events ::
  "platform \<Rightarrow> authenticated_event list \<Rightarrow> (string, bytes \<times> bytes) jmap \<Rightarrow> (string, bytes \<times> bytes) jmap res" where
  "retain_events P events requirements =
     foldM (\<lambda>m e. and_then (canonicalAuthorityKeyEnvelopeRequirements P e) (foldM retain m)) requirements events"

text \<open>Feature Manifests by identity; the message names what the bytes belong to.\<close>

definition retain_manifest ::
  "string \<Rightarrow> (string, authority_feature_manifest) jmap \<Rightarrow> authority_feature_manifest \<Rightarrow>
     (string, authority_feature_manifest) jmap res" where
  "retain_manifest field requirements requirement =
     (case mapGet requirements (key (afm_id requirement)) of
        Some prior \<Rightarrow> and_then (same (afm_bytes prior) (afm_bytes requirement) field) (\<lambda>_. ok requirements)
      | None \<Rightarrow> ok (mapSet requirements (key (afm_id requirement)) requirement))"

definition retain_event_manifests ::
  "platform \<Rightarrow> string \<Rightarrow> authenticated_event list \<Rightarrow> (string, authority_feature_manifest) jmap \<Rightarrow>
     (string, authority_feature_manifest) jmap res" where
  "retain_event_manifests P field events requirements =
     foldM (\<lambda>m e. and_then (canonicalAuthorityFeatureManifestRequirements P e) (foldM (retain_manifest field) m))
       requirements events"

definition resolve_manifest ::
  "platform \<Rightarrow> dependency_resolver \<Rightarrow> (string, bytes) jmap \<Rightarrow> authority_feature_manifest \<Rightarrow> (string, bytes) jmap res" where
  "resolve_manifest P resolver resolved requirement =
     (let requirementKey = key (afm_id requirement) in
      and_then (case mapGet resolved requirementKey of
          Some bs \<Rightarrow> ok (bs, resolved)
        | None \<Rightarrow> and_then (resolveFeatureManifest resolver (afm_id requirement)) (\<lambda>bs.
            ok (bs, mapSet resolved requirementKey bs))) (\<lambda>(bs, resolved).
      and_then (featureManifestId P bs) (\<lambda>i.
      and_then (same i (afm_id requirement) ''Resolved Feature Manifest ID'') (\<lambda>_.
      and_then (same bs (afm_bytes requirement) ''Resolved Feature Manifest bytes'') (\<lambda>_.
      and_then (decodeFeatureManifest P bs) (\<lambda>_.
      ok resolved))))))"

definition resolveContinuityDependencies ::
  "platform \<Rightarrow> authority_state \<Rightarrow> authority_state \<Rightarrow> authority_feature_manifest list \<Rightarrow> authenticated_event list \<Rightarrow>
     dependency_resolver \<Rightarrow> (string, bytes) jmap \<Rightarrow> unit res" where
  "resolveContinuityDependencies P initialAuthority baselineAuthority baselineFeatureManifests continuityEvents
     resolver resolved =
     and_then (foldM retain [] (map slot_requirement (keyEnvelopeSlots initialAuthority))) (\<lambda>m.
     and_then (foldM retain m (map slot_requirement (keyEnvelopeSlots baselineAuthority))) (\<lambda>m.
     and_then (retain_events P continuityEvents m) (\<lambda>requirements.
     let ordered = sort_by (\<lambda>l r. compareBytes (fst l) (fst r)) (mapValues requirements) in
     and_then (traverse (\<lambda>(i, epoch). resolveKeyEnvelope resolver i epoch) ordered) (\<lambda>_.
     and_then (foldM (retain_manifest ''Feature Manifest requirement bytes'') [] baselineFeatureManifests) (\<lambda>f.
     and_then (retain_event_manifests P ''Feature Manifest requirement bytes'' continuityEvents f) (\<lambda>f.
     let orderedFeatures = sort_by (\<lambda>l r. compareBytes (afm_id l) (afm_id r)) (mapValues f) in
     and_then (foldM (resolve_manifest P resolver) resolved orderedFeatures) (\<lambda>_.
     ok ())))))))"

section \<open>The initial Vault\<close>

record initial_input =
  in_baseline :: vault_baseline
  in_genesis :: authenticated_event
  in_replicaState :: replica_state
  in_clientSecret :: "client_secret_state option"
  in_epochSecret :: epoch_secret_state
  in_featureManifestIds :: "bytes list"
  in_requireInitialReplicaState :: bool

definition initial_identities :: "initial_input \<Rightarrow> unit res" where
  "initial_identities I =
     (let b = in_baseline I; g = in_genesis I; r = in_replicaState I; e = in_epochSecret I in
      checks [same (bl_vaultId b) (rs_vaultId r) ''Baseline Vault ID'',
        same (cx_vaultId g) (rs_vaultId r) ''Genesis Vault ID'',
        same (bl_generationId b) (rs_generationId r) ''Baseline Generation ID'',
        same (cx_generationId g) (rs_generationId r) ''Genesis Generation ID'',
        same (bl_recordId b) (rs_baselineId r) ''Active Baseline ID'',
        same (es_vaultId e) (rs_vaultId r) ''Epoch Secret Vault ID'',
        same (es_keyEpochId e) (rs_currentKeyEpochId r) ''Current Key Epoch ID''])"

definition initial_frontiers :: "initial_input \<Rightarrow> unit res" where
  "initial_frontiers I =
     (let g = in_genesis I; r = in_replicaState I in
      if \<not> in_requireInitialReplicaState I then ok ()
      else and_then (guard_not (length (rs_causalFrontier r) \<noteq> 1 \<or> length (rs_authorityFrontier r) \<noteq> 1 \<or>
             length (rs_continuityRecordIds r) \<noteq> 1)
           (TypeError ''Initial Replica State must recognize exactly Genesis'')) (\<lambda>_.
         and_then (same (hd (rs_causalFrontier r)) (ev_recordId g) ''Causal Frontier'') (\<lambda>_.
         same (hd (rs_authorityFrontier r)) (ev_recordId g) ''Authority Frontier'')))"

definition initial_local_client :: "initial_input \<Rightarrow> bytes \<Rightarrow> bytes \<Rightarrow> unit res" where
  "initial_local_client I clientCredentialId firstMemberId =
     (let r = in_replicaState I in
      case in_clientSecret I of
        None \<Rightarrow> guard_not (rs_authoringClientCredentialId r \<noteq> None \<or> rs_memberId r \<noteq> None)
          (TypeError ''A Replica without a local Client Secret cannot claim local authority'')
      | Some secret \<Rightarrow>
          checks [same (cs_vaultId secret) (rs_vaultId r) ''Client Secret Vault ID'',
            same clientCredentialId (cs_clientCredentialId secret) ''Stored Client Credential'',
            same firstMemberId (cs_memberId secret) ''Stored Client member'',
            (case rs_authoringClientCredentialId r of None \<Rightarrow> ok ()
             | Some i \<Rightarrow> same clientCredentialId i ''Authoring Credential''),
            (case rs_memberId r of None \<Rightarrow> ok () | Some i \<Rightarrow> same firstMemberId i ''Replica member'')])"

definition initial_slot_step ::
  "bytes \<Rightarrow> bytes \<Rightarrow> bytes \<Rightarrow> bool \<times> bool \<Rightarrow> nat \<times> cvalue \<Rightarrow> (bool \<times> bool) res" where
  "initial_slot_step initialEpochId recoveryCredentialId clientCredentialId saw entry =
     (let name = numbered ''Initial Key Envelope slot'' (fst entry); sawClient = fst saw; sawRecovery = snd saw in
      and_then (exactMap (snd entry) (num_keys 5) name) (\<lambda>m.
      and_then (id_at m 0 KeyEpochId ''Slot Key Epoch ID'') (\<lambda>epochId.
      and_then (same epochId initialEpochId ''Slot Key Epoch ID'') (\<lambda>_.
      and_then (with_field m 1 (\<lambda>v. oneOfCodes v [1, 2] ''Slot target kind'')) (\<lambda>targetKind.
      and_then (with_field m 3 (\<lambda>v. nullable v (\<lambda>r. exactCode r 0 ''Initial Recovery revision''))) (\<lambda>targetRevision.
      and_then (if targetKind = 1
          then and_then (guard_not (sawRecovery \<or> targetRevision \<noteq> Some 0)
              (TypeError ''Initial Recovery Key Envelope slot is duplicated or malformed'')) (\<lambda>_.
            and_then (id_at m 2 RecoveryCredentialId ''Slot Recovery Credential ID'') (\<lambda>i.
            and_then (same i recoveryCredentialId ''Slot Recovery Credential ID'') (\<lambda>_.
            ok (sawClient, True))))
          else and_then (guard_not (sawClient \<or> targetRevision \<noteq> None)
              (TypeError ''Initial Client Key Envelope slot is duplicated or malformed'')) (\<lambda>_.
            and_then (id_at m 2 ClientCredentialId ''Slot Client Credential ID'') (\<lambda>i.
            and_then (same i clientCredentialId ''Slot Client Credential ID'') (\<lambda>_.
            ok (True, sawRecovery))))) (\<lambda>saw.
      and_then (id_at m 4 KeyEnvelopeId ''Slot Key Envelope ID'') (\<lambda>_.
      ok saw))))))))"

definition initial_slots :: "bytes \<Rightarrow> bytes \<Rightarrow> bytes \<Rightarrow> cvalue \<Rightarrow> unit res" where
  "initial_slots initialEpochId recoveryCredentialId clientCredentialId slotValues =
     (case slotValues of
        CArray vs \<Rightarrow>
          and_then (guard_not (length vs \<noteq> 2)
            (TypeError ''Initial authority must contain exactly two Key Envelope slots'')) (\<lambda>_.
          and_then (foldM (initial_slot_step initialEpochId recoveryCredentialId clientCredentialId) (False, False)
            (zip [0..<length vs] vs)) (\<lambda>(sawClient, sawRecovery).
          guard_not (\<not> sawClient \<or> \<not> sawRecovery)
            (TypeError ''Initial authority is missing a required Key Envelope slot'')))
      | _ \<Rightarrow> throw (TypeError ''Initial authority must contain exactly two Key Envelope slots''))"

definition canonicalMapForEpoch :: "bytes \<Rightarrow> cvalue res" where
  "canonicalMapForEpoch epochId = value_map [(0, CBytes epochId), (1, CNum 0), (2, CBool True)]"

definition initial_checkpoint ::
  "platform \<Rightarrow> initial_input \<Rightarrow> bytes \<Rightarrow> cmap \<Rightarrow> cmap \<Rightarrow> bytes \<Rightarrow> bytes \<Rightarrow> bytes \<Rightarrow> unit res" where
  "initial_checkpoint P I firstMemberId clientCertificate recoveryMap initialEpochId recoveryCredentialId
     clientCredentialId =
     and_then (exactMap (bl_body (in_baseline I)) (num_keys 6) ''Initial Baseline body'') (\<lambda>baselineBody.
     and_then (field_ok baselineBody 0 (\<lambda>v. exactCode v 1 ''Baseline body format'')) (\<lambda>_.
     and_then (field_ok baselineBody 1 (\<lambda>v. exactCode v 1 ''Initial Baseline kind'')) (\<lambda>_.
     and_then (with_field baselineBody 3 (\<lambda>v. exactMap v (num_keys 10) ''Initial authority checkpoint'')) (\<lambda>authority.
     and_then (same_set_at P authority 1 [CBytes firstMemberId] ''Initial members'') (\<lambda>_.
     and_then (same_set_at P authority 2 [CBytes firstMemberId] ''Initial Administrators'') (\<lambda>_.
     and_then (same_set_at P authority 3 [CMap clientCertificate] ''Initial Client Certificates'') (\<lambda>_.
     and_then (same_set_at P authority 4 [CMap recoveryMap] ''Initial Recovery Credentials'') (\<lambda>_.
     and_then (mapValue authority 6) (\<lambda>epochs.
     and_then (canonicalMapForEpoch initialEpochId) (\<lambda>epoch.
     and_then (canonicalSet P [epoch]) (\<lambda>expected.
     and_then (sameCanonical P epochs (CArray expected) ''Initial Key Epoch'') (\<lambda>_.
     and_then (with_field authority 7 (initial_slots initialEpochId recoveryCredentialId clientCredentialId)) (\<lambda>_.
     and_then (dependencySet P (bl_dependencies (in_baseline I))) (\<lambda>declared.
     and_then (vaultBaselineDependencyRequirements P (bl_body (in_baseline I))) (\<lambda>requirements.
     and_then (dependencySet P (requirements @ map (dependency DepFeatureManifest) (in_featureManifestIds I)))
       (\<lambda>required.
     sameCanonical P (CArray declared) (CArray required) ''Initial Baseline dependency closure''))))))))))))))))"

definition validateInitialVaultAuthority :: "platform \<Rightarrow> initial_input \<Rightarrow> unit res" where
  "validateInitialVaultAuthority P I =
     (let b = in_baseline I; g = in_genesis I; r = in_replicaState I; e = in_epochSecret I in
      and_then (genesis_root g) (\<lambda>_.
      and_then (initial_identities I) (\<lambda>_.
      and_then (initial_frontiers I) (\<lambda>_.
      and_then (guard_not (\<not> list_ex (\<lambda>i. bytesEqual i (ev_recordId g)) (rs_continuityRecordIds r))
        (TypeError ''The Continuity Proof does not retain Genesis'')) (\<lambda>_.
      and_then (same (cx_requiredFeatureSetId g) (bl_requiredFeatureSetId b) ''Genesis Required Feature Set'') (\<lambda>_.
      and_then (same (cx_requiredFeatureSetId g) (rs_requiredFeatureSetId r) ''Replica Required Feature Set'') (\<lambda>_.
      and_then (exactMap (ev_body g) (num_keys 7) ''Genesis body'') (\<lambda>genesisBody.
      and_then (id_at genesisBody 0 VaultRecordId ''Genesis Baseline ID'') (\<lambda>baselineId.
      and_then (same baselineId (bl_recordId b) ''Genesis Baseline ID'') (\<lambda>_.
      and_then (id_at genesisBody 1 MemberId ''Genesis first Member ID'') (\<lambda>firstMemberId.
      and_then (with_field genesisBody 2 (\<lambda>v. exactMap v (num_keys 4) ''Genesis Client Certificate'')) (\<lambda>cert.
      and_then (with_field genesisBody 3 (\<lambda>v. exactMap v (num_keys 5) ''Genesis Recovery Credential'')) (\<lambda>recovery.
      and_then (id_at cert 0 ClientCredentialId ''Genesis Client Credential ID'') (\<lambda>clientCredentialId.
      and_then (initialVaultClientAuthority g) (\<lambda>initialClient.
      and_then (same clientCredentialId (ev_signerCredentialId g) ''Genesis signer Credential'') (\<lambda>_.
      and_then (same clientCredentialId (icl_clientCredentialId initialClient) ''Genesis Client Credential'') (\<lambda>_.
      and_then (same firstMemberId (icl_memberId initialClient) ''Genesis first Member'') (\<lambda>_.
      and_then (initial_local_client I clientCredentialId firstMemberId) (\<lambda>_.
      and_then (id_at cert 1 MemberId ''Certificate Member ID'') (\<lambda>certificateMemberId.
      and_then (same certificateMemberId firstMemberId ''Certificate Member ID'') (\<lambda>_.
      and_then (id_at recovery 1 MemberId ''Recovery Member ID'') (\<lambda>recoveryMemberId.
      and_then (same recoveryMemberId firstMemberId ''Recovery Member ID'') (\<lambda>_.
      and_then (field_ok recovery 2 (\<lambda>v. exactCode v 0 ''Initial Recovery Credential revision'')) (\<lambda>_.
      and_then (bytes_at cert 2 32 ''Client signing public key'') (\<lambda>signing.
      and_then (same signing (icl_signingPublicKey initialClient) ''Client signing public key'') (\<lambda>_.
      and_then (bytes_at cert 3 32 ''Client wrapping public key'') (\<lambda>wrapping.
      and_then (same wrapping (icl_wrappingPublicKey initialClient) ''Client wrapping public key'') (\<lambda>_.
      and_then (bytes_at recovery 3 32 ''Recovery signing public key'') (\<lambda>recoverySigning.
      and_then (id_at recovery 0 RecoveryCredentialId ''Genesis Recovery Credential ID'') (\<lambda>recoveryCredentialId.
      and_then (id_at genesisBody 4 KeyEpochId ''Genesis Key Epoch ID'') (\<lambda>initialEpochId.
      and_then (same initialEpochId (es_keyEpochId e) ''Genesis Key Epoch ID'') (\<lambda>_.
      and_then (id_at genesisBody 5 RequiredFeatureSetId ''Genesis Feature Set ID'') (\<lambda>featureSetId.
      and_then (same featureSetId (cx_requiredFeatureSetId g) ''Genesis Feature Set ID'') (\<lambda>_.
      and_then (with_field genesisBody 6 (\<lambda>v. exactMap v (num_keys 2) ''Genesis creation proof'')) (\<lambda>possession.
      and_then (genesis_transcript P g (bl_recordId b) firstMemberId cert recovery initialEpochId) (\<lambda>message.
      and_then (genesis_signatures P g possession message (icl_signingPublicKey initialClient) recoverySigning) (\<lambda>_.
      initial_checkpoint P I firstMemberId cert recovery initialEpochId recoveryCredentialId clientCredentialId)))))))))))))))))))))))))))))))))))))"

section \<open>The chain of Vacuum Events\<close>

record vacuum_boundary =
  vb_event :: authenticated_event
  vb_predecessorFrontier :: "bytes list"
  vb_predecessorStateDigest :: bytes
  vb_successorStateDigest :: bytes
  vb_successorBaselineId :: bytes

definition read_boundary ::
  "platform \<Rightarrow> bytes \<Rightarrow> bytes \<Rightarrow> authenticated_event \<Rightarrow> (bytes \<times> vacuum_boundary) res" where
  "read_boundary P vaultId predecessorGenerationId vacuumEvent =
     and_then (checks [same (cx_vaultId vacuumEvent) vaultId ''Vacuum Vault ID'',
         same (cx_generationId vacuumEvent) predecessorGenerationId ''Vacuum predecessor Generation'']) (\<lambda>_.
     and_then (exactMap (ev_body vacuumEvent) (num_keys 7) ''Vacuum Event body'') (\<lambda>eventBody.
     and_then (id_at eventBody 0 GenerationId ''Vacuum predecessor Generation ID'') (\<lambda>signedPredecessor.
     and_then (with_field eventBody 1 (\<lambda>v. idSetValue P v VaultRecordId ''Vacuum predecessor Frontier'' True))
       (\<lambda>predecessorFrontier.
     and_then (same signedPredecessor predecessorGenerationId ''Vacuum predecessor Generation ID'') (\<lambda>_.
     and_then (sameSet (cx_parentRecordIds vacuumEvent) predecessorFrontier ''Vacuum causal parents'') (\<lambda>_.
     and_then (id_at eventBody 2 GenerationId ''Vacuum successor Generation ID'') (\<lambda>successorGenerationId.
     and_then (guard_not (bytesEqual predecessorGenerationId successorGenerationId)
       (TypeError ''Vacuum successor Generation ID is not fresh'')) (\<lambda>_.
     and_then (id_at eventBody 3 VaultRecordId ''Vacuum successor Baseline ID'') (\<lambda>successorBaselineId.
     and_then (same_dependencies P (ev_dependencies vacuumEvent) [dependency DepVaultBaseline successorBaselineId]
       ''Vacuum dependency'') (\<lambda>_.
     and_then (bytes_at eventBody 4 32 ''Vacuum predecessor state digest'') (\<lambda>predecessorStateDigest.
     and_then (bytes_at eventBody 5 32 ''Vacuum successor state digest'') (\<lambda>successorStateDigest.
     and_then (bytes_at eventBody 6 32 ''Vacuum omission digest'') (\<lambda>_.
     ok (successorGenerationId, \<lparr>vb_event = vacuumEvent, vb_predecessorFrontier = predecessorFrontier,
       vb_predecessorStateDigest = predecessorStateDigest, vb_successorStateDigest = successorStateDigest,
       vb_successorBaselineId = successorBaselineId\<rparr>))))))))))))))"

text \<open>
  Each round follows the one Vacuum Event of the current Generation; the result is the last Generation and
  boundary.
\<close>

definition of_generation :: "bytes \<Rightarrow> authenticated_event \<Rightarrow> bool" where
  "of_generation generationId event = bytesEqual (cx_generationId event) generationId"

function vacuum_chain ::
  "platform \<Rightarrow> bytes \<Rightarrow> bytes \<Rightarrow> vacuum_boundary option \<Rightarrow> authenticated_event list \<Rightarrow>
     (bytes \<times> vacuum_boundary option) res" where
  "vacuum_chain P vaultId generationId latest remaining =
     (if remaining = [] then ok (generationId, latest)
      else case filter (of_generation generationId) remaining of
             [vacuumEvent] \<Rightarrow>
               and_then (read_boundary P vaultId generationId vacuumEvent) (\<lambda>(successor, boundary).
               vacuum_chain P vaultId successor (Some boundary)
                 (filter (\<lambda>e. \<not> of_generation generationId e) remaining))
           | _ \<Rightarrow> throw (TypeError ''Vacuum Continuity Proof is not one deterministic Generation chain''))"
  by pat_completeness auto

lemma filter_rest_shorter: "filter Q xs = [x] \<Longrightarrow> length (filter (\<lambda>e. \<not> Q e) xs) < length xs"
  using sum_length_filter_compl[of Q xs] by simp

termination vacuum_chain
  by (relation "measure (\<lambda>(P, v, g, l, remaining). length remaining)") (auto simp: filter_rest_shorter)

declare vacuum_chain.simps [simp del]

section \<open>The successor of a Vacuum\<close>

definition successor_commitment :: "platform \<Rightarrow> cmap \<Rightarrow> vacuum_boundary \<Rightarrow> unit res" where
  "successor_commitment P successorBody boundary =
     and_then (with_field successorBody 5 (\<lambda>v. exactMap v (num_keys 3) ''Successor predecessor commitment''))
       (\<lambda>predecessor.
     and_then (id_at predecessor 0 GenerationId (kind_label GenerationId)) (\<lambda>generationId.
     and_then (same generationId (cx_generationId (vb_event boundary)) ''Committed predecessor Generation'') (\<lambda>_.
     and_then (with_field predecessor 1 (\<lambda>v. idSetValue P v VaultRecordId ''Committed predecessor Frontier'' True))
       (\<lambda>frontier.
     and_then (sameSet frontier (vb_predecessorFrontier boundary) ''Committed predecessor Frontier'') (\<lambda>_.
     and_then (bytes_at predecessor 2 32 ''Committed predecessor state digest'') (\<lambda>digest.
     same digest (vb_predecessorStateDigest boundary) ''Committed predecessor state digest''))))))"

definition successor_state :: "platform \<Rightarrow> cmap \<Rightarrow> vacuum_boundary \<Rightarrow> unit res" where
  "successor_state P successorBody boundary =
     and_then (mapValue successorBody 2) (\<lambda>content.
     and_then (mapValue successorBody 3) (\<lambda>authority.
     and_then (mapValue successorBody 4) (\<lambda>life.
     and_then (value_map [(0, content), (1, authority), (2, life)]) (\<lambda>selected.
     and_then (encodeCanonicalValue P selected) (\<lambda>encoded.
     and_then (transcript ''awsm:vacuum-successor-state:v1'' [encoded]) (\<lambda>t.
     same (sha256 P t) (vb_successorStateDigest boundary) ''Vacuum successor state digest''))))))"

definition successor_identities ::
  "vault_baseline \<Rightarrow> replica_state \<Rightarrow> bytes \<Rightarrow> bytes \<Rightarrow> vacuum_boundary \<Rightarrow> unit res" where
  "successor_identities b r adoption generationId boundary =
     checks [same generationId (bl_generationId b) ''Current successor Generation'',
       same (bl_recordId b) (rs_baselineId r) ''Active successor Baseline ID'',
       same (ev_recordId (vb_event boundary)) adoption ''Latest adopted Vacuum Event'',
       same (vb_successorBaselineId boundary) (bl_recordId b) ''Current successor Baseline'',
       same (bl_vaultId b) (rs_vaultId r) ''Successor Baseline Vault ID'',
       same (bl_requiredFeatureSetId b) (rs_requiredFeatureSetId r) ''Successor Required Feature Set'']"

definition validate_successor ::
  "platform \<Rightarrow> authority_replay \<Rightarrow> vault_baseline \<Rightarrow> replica_state \<Rightarrow> bytes \<Rightarrow> bytes \<Rightarrow> vacuum_boundary \<Rightarrow> unit res" where
  "validate_successor P R b r adoption generationId boundary =
     and_then (successor_identities b r adoption generationId boundary) (\<lambda>_.
     and_then (exactMap (bl_body b) (num_keys 6) ''Successor Baseline body'') (\<lambda>successorBody.
     and_then (field_ok successorBody 1 (\<lambda>v. exactCode v 2 ''Successor Baseline kind'')) (\<lambda>_.
     and_then (stateAt P R [ev_recordId (vb_event boundary)]) (\<lambda>boundaryAuthority.
     and_then (mapValue successorBody 3) (\<lambda>authority.
     and_then (encodeCanonicalAuthorityCheckpoint P (rs_vaultId r) boundaryAuthority) (\<lambda>expected.
     and_then (sameCanonical P authority expected ''Successor authority state'') (\<lambda>_.
     and_then (mapValue successorBody 4) (\<lambda>life.
     and_then (value_map [(0, CNum (lifecycle boundaryAuthority))]) (\<lambda>expectedLife.
     and_then (sameCanonical P life expectedLife ''Successor lifecycle state'') (\<lambda>_.
     and_then (successor_commitment P successorBody boundary) (\<lambda>_.
     and_then (successor_state P successorBody boundary) (\<lambda>_.
     and_then (dependencySet P (bl_dependencies b)) (\<lambda>declared.
     and_then (vaultBaselineDependencyRequirements P (bl_body b)) (\<lambda>requirements.
     and_then (dependencySet P (requirements @
         map (\<lambda>m. dependency DepFeatureManifest (afm_id m)) (featureManifests boundaryAuthority))) (\<lambda>required.
     sameCanonical P (CArray declared) (CArray required) ''Successor Baseline dependency closure'')))))))))))))))"

section \<open>The current Vault\<close>

record current_input =
  cu_baseline :: vault_baseline
  cu_genesis :: authenticated_event
  cu_continuityEvents :: "authenticated_event list"
  cu_replicaState :: replica_state
  cu_clientSecret :: "client_secret_state option"
  cu_epochSecret :: epoch_secret_state
  cu_resolver :: dependency_resolver

definition baseline_manifest_step ::
  "platform \<Rightarrow> dependency_resolver \<Rightarrow> (string, authority_feature_manifest) jmap \<Rightarrow>
     (string, bytes) jmap \<times> authority_feature_manifest list \<Rightarrow> typed_dependency \<Rightarrow>
     ((string, bytes) jmap \<times> authority_feature_manifest list) res" where
  "baseline_manifest_step P resolver proofManifests st d =
     (if dep_type d \<noteq> DEPENDENCY_TYPES DepFeatureManifest then ok st
      else case mapGet proofManifests (key (dep_id d)) of
        Some m \<Rightarrow> ok (fst st, snd st @ [m])
      | None \<Rightarrow>
          and_then (resolveFeatureManifest resolver (dep_id d)) (\<lambda>bs.
          and_then (featureManifestId P bs) (\<lambda>i.
          and_then (same i (dep_id d) ''Baseline Feature Manifest ID'') (\<lambda>_.
          and_then (decodeFeatureManifest P bs) (\<lambda>manifest.
          ok (mapSet (fst st) (key (dep_id d)) bs,
            snd st @ [\<lparr>afm_id = dep_id d, afm_bytes = bs, afm_manifest = manifest\<rparr>]))))))"

text \<open>The Authority State at Genesis and the replay of the Continuity Proof from it.\<close>

record proof_result =
  pr_resolved :: "(string, bytes) jmap"
  pr_baselineManifests :: "authority_feature_manifest list"
  pr_baselineAuthority :: authority_state
  pr_initialAuthority :: authority_state
  pr_replay :: authority_replay

definition replay_proof :: "platform \<Rightarrow> current_input \<Rightarrow> cmap \<Rightarrow> proof_result res" where
  "replay_proof P I baselineBody =
     (let b = cu_baseline I; r = cu_replicaState I in
      and_then (retain_event_manifests P ''Continuity Feature Manifest bytes'' (cu_continuityEvents I) [])
        (\<lambda>proofManifests.
      and_then (foldM (baseline_manifest_step P (cu_resolver I) proofManifests) ([], []) (bl_dependencies b))
        (\<lambda>(resolved, baselineManifests).
      and_then (mapValue baselineBody 3) (\<lambda>checkpoint.
      and_then (decodeCanonicalAuthorityCheckpoint P
          \<lparr>cp_vaultId = rs_vaultId r, cp_checkpoint = checkpoint, cp_requiredFeatureSetId = bl_requiredFeatureSetId b,
           cp_featureManifests = baselineManifests, cp_lifecycle = 1\<rparr>) (\<lambda>baselineAuthority.
      and_then (genesisAuthorityState P (rs_vaultId r) (cu_genesis I) baselineAuthority
          (filter (\<lambda>m. \<not> mapHas proofManifests (key (afm_id m))) baselineManifests)) (\<lambda>initialAuthority.
      and_then (replayContinuityProof P initialAuthority (cu_genesis I) (cu_continuityEvents I)) (\<lambda>R.
      ok \<lparr>pr_resolved = resolved, pr_baselineManifests = baselineManifests, pr_baselineAuthority = baselineAuthority,
          pr_initialAuthority = initialAuthority, pr_replay = R\<rparr>)))))))"

definition current_state_checks ::
  "platform \<Rightarrow> current_input \<Rightarrow> authority_replay \<Rightarrow> authority_state \<Rightarrow> unit res" where
  "current_state_checks P I R currentAuthority =
     (let r = cu_replicaState I in
      and_then (same (as_requiredFeatureSetId currentAuthority) (rs_requiredFeatureSetId r)
        ''Replica Required Feature Set'') (\<lambda>_.
      and_then (guard_not (lifecycle currentAuthority \<noteq> rs_lifecycle r)
        (TypeError ''Replica lifecycle does not match current Authority State'')) (\<lambda>_.
      and_then (guard_not (\<not> list_ex (\<lambda>e. ke_current e \<and> bytesEqual (ke_keyEpochId e) (rs_currentKeyEpochId r))
          (keyEpochs currentAuthority))
        (TypeError ''Replica current Key Epoch is not an accepted Authority head'')) (\<lambda>_.
      and_then (validateLocalClientAuthority (rs_vaultId r) currentAuthority (rs_authoringClientCredentialId r)
        (rs_memberId r) (cu_clientSecret I)) (\<lambda>_.
      and_then (reachableRecordIds P R (rs_authorityFrontier r)) (\<lambda>reachable.
      and_then (sameSet (map ev_recordId (cu_continuityEvents I)) reachable
        ''Continuity Proof reachable Record set'') (\<lambda>_.
      sameSet (rs_continuityRecordIds r) (map ev_recordId (cu_continuityEvents I))
        ''Continuity Proof Record set'')))))))"

definition initial_vault :: "platform \<Rightarrow> current_input \<Rightarrow> cmap \<Rightarrow> bytes \<Rightarrow> proof_result \<Rightarrow> unit res" where
  "initial_vault P I genesisBody initialKeyEpochId proved =
     (let b = cu_baseline I in
      and_then (validateInitialVaultAuthority P
        \<lparr>in_baseline = b, in_genesis = cu_genesis I,
         in_replicaState = (cu_replicaState I)
           \<lparr>rs_generationId := bl_generationId b, rs_baselineId := bl_recordId b,
            rs_currentKeyEpochId := initialKeyEpochId, rs_requiredFeatureSetId := bl_requiredFeatureSetId b,
            rs_authoringClientCredentialId := None, rs_memberId := None, rs_lifecycle := 1, rs_adoption := None\<rparr>,
         in_clientSecret = None,
         in_epochSecret = (cu_epochSecret I)\<lparr>es_keyEpochId := initialKeyEpochId, es_displayNumber := 0\<rparr>,
         in_featureManifestIds = map afm_id (pr_baselineManifests proved),
         in_requireInitialReplicaState = False\<rparr>) (\<lambda>_.
      and_then (guard_not (list_ex is_vacuum (cu_continuityEvents I))
        (TypeError ''Initial Vault authority has an unexpected Vacuum boundary'')) (\<lambda>_.
      and_then (id_at genesisBody 0 VaultRecordId ''Genesis Baseline ID'') (\<lambda>baselineId.
      guard_not (\<not> bytesEqual (bl_recordId b) baselineId)
        (TypeError ''Initial Vault authority has an unexpected Vacuum boundary'')))))"

definition adopted_vault :: "platform \<Rightarrow> current_input \<Rightarrow> bytes \<Rightarrow> authority_replay \<Rightarrow> unit res" where
  "adopted_vault P I adoption R =
     (let vacuumEvents = filter is_vacuum (cu_continuityEvents I) in
      and_then (guard_not (length vacuumEvents = 0)
        (TypeError ''Vacuum Adoption has no authenticated boundary chain'')) (\<lambda>_.
      and_then (vacuum_chain P (rs_vaultId (cu_replicaState I)) (cx_generationId (cu_genesis I)) None vacuumEvents)
        (\<lambda>(generationId, latest).
      case latest of
        None \<Rightarrow> throw (TypeError ''Vacuum Adoption has no latest authenticated boundary'')
      | Some boundary \<Rightarrow>
          validate_successor P R (cu_baseline I) (cu_replicaState I) adoption generationId boundary)))"

definition validateCurrentVaultAuthority :: "platform \<Rightarrow> current_input \<Rightarrow> unit res" where
  "validateCurrentVaultAuthority P I =
     (let b = cu_baseline I; r = cu_replicaState I; e = cu_epochSecret I in
      and_then (checks [same (es_vaultId e) (rs_vaultId r) ''Epoch Secret Vault ID'',
          same (es_keyEpochId e) (rs_currentKeyEpochId r) ''Current Key Epoch ID'']) (\<lambda>_.
      and_then (exactMap (ev_body (cu_genesis I)) (num_keys 7) ''Genesis body'') (\<lambda>genesisBody.
      and_then (id_at genesisBody 4 KeyEpochId ''Genesis Key Epoch ID'') (\<lambda>initialKeyEpochId.
      and_then (exactMap (bl_body b) (num_keys 6) ''Current Baseline body'') (\<lambda>baselineBody.
      and_then (replay_proof P I baselineBody) (\<lambda>proved.
      and_then (stateAt P (pr_replay proved) (rs_authorityFrontier r)) (\<lambda>currentAuthority.
      and_then (current_state_checks P I (pr_replay proved) currentAuthority) (\<lambda>_.
      and_then (case rs_adoption r of
          None \<Rightarrow> initial_vault P I genesisBody initialKeyEpochId proved
        | Some adoption \<Rightarrow> adopted_vault P I adoption (pr_replay proved)) (\<lambda>_.
      resolveContinuityDependencies P (pr_initialAuthority proved) (pr_baselineAuthority proved)
        (pr_baselineManifests proved) (cu_continuityEvents I) (cu_resolver I) (pr_resolved proved))))))))))"

end
