(* ===== verification/Authority_Laws.thy ===== *)
theory Authority_Laws
  imports Authority_Replay
begin

text \<open>
  Why an accepted authority Event is authorized: for each acceptance check of Authority_Replay a lemma that says
  when it returns, and for each Event type who may sign it and what its body must name.
\<close>

section \<open>Who may sign\<close>

lemma containsId_iff [simp]: "containsId xs x \<longleftrightarrow> x \<in> set xs"
  by (auto simp: containsId_def list_ex_iff)

lemma by_administrator_ok [simp]:
  "by_administrator st signer m = ok u \<longleftrightarrow> cl_memberId signer \<in> set (administratorIds st)"
  by (simp add: by_administrator_def)

lemma context_checks_ok:
  "context_checks R st e = ok u \<longleftrightarrow>
     lifecycle st \<noteq> 2 \<and> featureSetConflict st = None \<and>
     (\<forall>m \<in> set (featureManifests st). key (afm_id m) \<in> set (ar_supportedFeatureManifestIds R)) \<and>
     cx_requiredFeatureSetId e = as_requiredFeatureSetId st"
  by (auto simp: context_checks_def list_ex_iff and_then_eq_Inr)

lemma event_signer_ok:
  "event_signer st enrollment e = ok signer \<longleftrightarrow>
     (case enrollment of
        Some x \<Rightarrow>
          if enr_authorizationKind x = 2
          then cl_clientCredentialId (enr_clientCredential x) = ev_signerCredentialId e \<and>
            signer = with_active (enr_clientCredential x) False
          else mapGet (clientCredentials st) (key (ev_signerCredentialId e)) = Some signer \<and> cl_active signer
      | None \<Rightarrow> mapGet (clientCredentials st) (key (ev_signerCredentialId e)) = Some signer \<and> cl_active signer)"
  by (auto simp: event_signer_def and_then_eq_Inr split: option.splits if_splits)

definition administrator_only :: "authenticated_event \<Rightarrow> bool" where
  "administrator_only e \<longleftrightarrow> ev_family e = 3 \<or> ev_family e = 1 \<and> ev_type e \<in> {3, 4, 5, 8, 12, 14}"

lemma accept_authority_administrator:
  assumes "accept_authority P R st signer enrollment e = ok R'" "ev_type e \<in> {3, 4, 5, 8, 12, 14}"
  shows "cl_memberId signer \<in> set (administratorIds st)"
  using assms
  by (auto simp: accept_authority_def check_administrator_role_def check_invitation_creation_def
      accept_resolution_def accept_transition_def accept_activation_def and_then_eq_Inr)

text \<open>The authorization of an Enrollment signed by the proposed Credential itself.\<close>

definition recovery_authorized :: "platform \<Rightarrow> authority_state \<Rightarrow> authenticated_event \<Rightarrow> bool" where
  "recovery_authorized P st e \<longleftrightarrow>
     (\<exists>x rec. parseClientCredentialEnrollment P e = ok x \<and> enr_authorizationKind x = 2 \<and>
        cl_clientCredentialId (enr_clientCredential x) = ev_signerCredentialId e \<and>
        \<not> mapHas (clientCredentials st) (key (ev_signerCredentialId e)) \<and>
        enr_memberId x \<in> set (activeMemberIds st) \<and> rec \<in> set (recoveryCredentials st) \<and> rv_effective rec \<and>
        rv_memberId rec = enr_memberId x \<and>
        enr_recoveryCredentialId x = Some (rv_recoveryCredentialId rec))"

lemma accept_enrollment_recovery:
  assumes "accept_enrollment P R st signer (Some x) e = ok R'" "enr_authorizationKind x = 2"
  shows "enr_memberId x \<in> set (activeMemberIds st) \<and>
    \<not> mapHas (clientCredentials st) (key (cl_clientCredentialId (enr_clientCredential x))) \<and>
    (\<exists>rec. rec \<in> set (recoveryCredentials st) \<and> rv_effective rec \<and> rv_memberId rec = enr_memberId x \<and>
        enr_recoveryCredentialId x = Some (rv_recoveryCredentialId rec))"
  using assms
  by (auto simp: accept_enrollment_def and_then_eq_Inr verifyRecoveryClientCredentialEnrollment_def
      find_Some_iff split: option.splits dest!: nth_mem)

lemma validateAndAccept_steps:
  assumes "validateAndAccept P R e = ok R'"
  obtains st enrollment signer where "stateAt P R (cx_authorityParentRecordIds e) = ok st"
    "context_checks R st e = ok ()" "event_enrollment P e = ok enrollment"
    "event_signer st enrollment e = ok signer"
    "verifyVaultEventSignature P e (cl_signingPublicKey signer) = ok True"
    "if ev_family e = 1
     then \<exists>R1. accept_authority P R st signer enrollment e = ok R1 \<and> acceptAuthorityNode R1 e = ok R'
     else if ev_family e = 3
     then accept_lifecycle st signer e = ok () \<and> acceptAuthorityNode R e = ok R'
     else R' = R"
proof -
  obtain st u enrollment signer valid where h: "stateAt P R (cx_authorityParentRecordIds e) = ok st"
    "context_checks R st e = ok u" "event_enrollment P e = ok enrollment"
    "event_signer st enrollment e = ok signer"
    "verifyVaultEventSignature P e (cl_signingPublicKey signer) = ok valid" "valid"
    and rest: "(if ev_family e = 1
     then and_then (accept_authority P R st signer enrollment e) (\<lambda>R. acceptAuthorityNode R e)
     else if ev_family e = 3
     then and_then (accept_lifecycle st signer e) (\<lambda>_. acceptAuthorityNode R e)
     else ok R) = ok R'"
    using assms unfolding validateAndAccept_def and_then_eq_Inr guard_not_eq_Inr by blast
  show thesis
    by (rule that[OF h(1) _ h(3,4)]) (use h rest in \<open>auto simp: and_then_eq_Inr\<close>)
qed

lemma accepted_signer:
  assumes "event_enrollment P e = ok enrollment" "event_signer st enrollment e = ok signer"
    and "ev_family e = 1 \<longrightarrow> (\<exists>R1. accept_authority P R st signer enrollment e = ok R1)"
  shows "mapGet (clientCredentials st) (key (ev_signerCredentialId e)) = Some signer \<and> cl_active signer \<or>
    ev_family e = 1 \<and> ev_type e = 9 \<and> recovery_authorized P st e"
proof (cases "\<exists>x. enrollment = Some x \<and> enr_authorizationKind x = 2")
  case True
  then obtain x where x: "enrollment = Some x" "enr_authorizationKind x = 2" by blast
  have e: "ev_family e = 1" "ev_type e = 9" "parseClientCredentialEnrollment P e = ok x"
    using assms(1) x by (auto simp: event_enrollment_def and_then_eq_Inr split: if_splits)
  obtain R1 where "accept_enrollment P R st signer (Some x) e = ok R1"
    using assms(3) e x(1) by (auto simp: accept_authority_def)
  from accept_enrollment_recovery[OF this x(2)] have "recovery_authorized P st e"
    using e(3) x assms(2) unfolding recovery_authorized_def
    by (auto simp: event_signer_ok)
  then show ?thesis using e by simp
next
  case False
  then show ?thesis using assms(2) by (auto simp: event_signer_ok split: option.splits)
qed

section \<open>Growth of the graph\<close>

text \<open>A graph without Baselines in which every parent is known.\<close>

definition closed_graph :: "causal_graph \<Rightarrow> bool" where
  "closed_graph g \<longleftrightarrow> graph_inv g \<and> baselineRootByCause g = [] \<and>
     (\<forall>k. \<forall>p \<in> set (parents_of (parents g) k). has_record g p)"

lemma closed_has: "closed_graph g \<Longrightarrow> has_record g i \<longleftrightarrow> mapHas (parents g) (key i)"
  by (simp add: closed_graph_def has_record_def)

lemma closed_ancestor: "closed_graph g \<Longrightarrow> isAncestor g a b \<longleftrightarrow> (key a, key b) \<in> (parent_rel g)\<^sup>+"
  by (auto simp: closed_graph_def isAncestor_reach causal_target_def graph_inv_def acyclic_def)

lemma closed_path_source:
  assumes "closed_graph g" "(key a, k) \<in> (parent_rel g)\<^sup>+"
  shows "has_record g a"
proof -
  obtain y where "(key a, y) \<in> parent_rel g" using assms(2) by (meson tranclD)
  then show ?thesis using assms(1) by (auto simp: parent_rel_iff closed_graph_def)
qed

lemma closed_ancestor_known: "closed_graph g \<Longrightarrow> isAncestor g a b \<Longrightarrow> has_record g a \<and> has_record g b"
  using closed_path_source closed_ancestor parent_path_target closed_has by metis

lemma grow_edges:
  assumes "add_record g r ps = ok g'" "\<not> has_record g r"
  shows "parent_rel g' = parent_rel g \<union> key ` set ps \<times> {key r}"
  using add_record_ok[OF assms(1)] assms(2) parent_rel_set[of g r ps]
  by (auto simp: has_record_def)

lemma grow_closed:
  assumes "closed_graph g" "add_record g r ps = ok g'" "\<not> has_record g r" "\<forall>p \<in> set ps. has_record g p"
  shows "closed_graph g'" "has_record g' i \<longleftrightarrow> has_record g i \<or> i = r"
proof -
  have g': "g' = g\<lparr>parents := mapSet (parents g) (key r) ps\<rparr>"
    using add_record_ok(2)[OF assms(2)] assms(3) by (auto simp: has_record_def)
  have roots: "baselineRootByCause g' = []" using assms(1) g' by (simp add: closed_graph_def)
  show has: "has_record g' i \<longleftrightarrow> has_record g i \<or> i = r" for i
    using add_record_has[OF assms(2)] roots assms(1) by (auto simp: has_record_def closed_graph_def)
  show "closed_graph g'"
    unfolding closed_graph_def
    using graph_inv_add[OF _ assms(2)] assms(1,4) roots g' has
    by (auto simp: closed_graph_def parents_of_set)
qed

lemma grow_ancestor:
  assumes c: "closed_graph g" and a: "add_record g r ps = ok g'" "\<not> has_record g r" "\<forall>p \<in> set ps. has_record g p"
  shows "has_record g b \<Longrightarrow> isAncestor g' x b \<longleftrightarrow> isAncestor g x b"
    "isAncestor g' x r \<longleftrightarrow> (\<exists>p \<in> set ps. x = p \<or> isAncestor g x p)"
proof -
  let ?E = "parent_rel g" and ?A = "key ` set ps"
  have e: "parent_rel g' = ?E \<union> ?A \<times> {key r}" by (rule grow_edges[OF a(1,2)])
  have c': "closed_graph g'" by (rule grow_closed(1)[OF c a])
  have out: "(key r, y) \<in> ?E\<^sup>* \<Longrightarrow> y = key r" for y
    using closed_path_source[OF c, of r y] a(2) by (auto simp: rtrancl_eq_or_trancl)
  have into: "(x, key r) \<notin> ?E\<^sup>+" for x
    using parent_path_target[of x "key r" g] a(2) by (auto simp: has_record_def)
  have mono: "(x, y) \<in> ?E\<^sup>* \<Longrightarrow> (x, y) \<in> (parent_rel g')\<^sup>*" for x y
    unfolding e by (meson rtrancl_mono subsetD sup_ge1)
  have old: "(x, y) \<in> (parent_rel g')\<^sup>+ \<longleftrightarrow> (x, y) \<in> ?E\<^sup>+" if "y \<noteq> key r" for x y
    using trancl_into_sink[of x y ?E ?A "key r"] out[of y] that
    unfolding e by (auto intro: trancl_mono)
  show "has_record g b \<Longrightarrow> isAncestor g' x b \<longleftrightarrow> isAncestor g x b"
    using old[of "key b" "key x"] a(2) by (auto simp: closed_ancestor[OF c] closed_ancestor[OF c'])
  have "(key x, key r) \<in> (parent_rel g')\<^sup>+ \<longleftrightarrow> (\<exists>p \<in> set ps. (key x, key p) \<in> ?E\<^sup>*)"
  proof
    assume "(key x, key r) \<in> (parent_rel g')\<^sup>+"
    then obtain y where y: "(key x, y) \<in> (parent_rel g')\<^sup>*" "(y, key r) \<in> parent_rel g'" by (meson tranclD2)
    then obtain p where p: "p \<in> set ps" "y = key p"
      using into[of y] unfolding e by blast
    have "key p \<noteq> key r" using p a(2,3) by auto
    then show "\<exists>p \<in> set ps. (key x, key p) \<in> ?E\<^sup>*"
      using y(1) p old[of "key p" "key x"] by (auto simp: rtrancl_eq_or_trancl)
  next
    assume "\<exists>p \<in> set ps. (key x, key p) \<in> ?E\<^sup>*"
    then obtain p where "p \<in> set ps" "(key x, key p) \<in> (parent_rel g')\<^sup>*" using mono by blast
    then show "(key x, key r) \<in> (parent_rel g')\<^sup>+"
      by (intro rtrancl_into_trancl1[of _ "key p"]) (auto simp: e)
  qed
  then show "isAncestor g' x r \<longleftrightarrow> (\<exists>p \<in> set ps. x = p \<or> isAncestor g x p)"
    by (auto simp: closed_ancestor[OF c] closed_ancestor[OF c'] rtrancl_eq_or_trancl)
qed

section \<open>Growth of a replay\<close>

text \<open>Two replays whose facts agree except at one Record.\<close>

definition same_facts :: "string \<Rightarrow> authority_replay \<Rightarrow> authority_replay \<Rightarrow> bool" where
  "same_facts r R R' \<longleftrightarrow>
     ar_vaultId R' = ar_vaultId R \<and> ar_anchorRecordId R' = ar_anchorRecordId R \<and>
     ar_anchorState R' = ar_anchorState R \<and> ar_anchorCauseRecordIds R' = ar_anchorCauseRecordIds R \<and>
     ar_supportedFeatureManifestIds R' = ar_supportedFeatureManifestIds R \<and>
     (\<forall>k. k \<noteq> r \<longrightarrow>
        mapGet (ar_acceptedInvitations R') k = mapGet (ar_acceptedInvitations R) k \<and>
        mapGet (ar_cancelledInvitations R') k = mapGet (ar_cancelledInvitations R) k \<and>
        mapGet (ar_resolvedInvitations R') k = mapGet (ar_resolvedInvitations R) k \<and>
        mapGet (ar_clientEnrollments R') k = mapGet (ar_clientEnrollments R) k \<and>
        mapGet (ar_recoveryReplacements R') k = mapGet (ar_recoveryReplacements R) k \<and>
        mapGet (ar_keyEpochTransitions R') k = mapGet (ar_keyEpochTransitions R) k \<and>
        mapGet (ar_keyDeliveries R') k = mapGet (ar_keyDeliveries R) k \<and>
        mapGet (ar_featureActivations R') k = mapGet (ar_featureActivations R) k)"

text \<open>What an Event must have left in the maps of the replay.\<close>

definition recorded :: "authority_replay \<Rightarrow> authenticated_event \<Rightarrow> bool" where
  "recorded R e \<longleftrightarrow> (ev_family e = 1 \<longrightarrow>
     (ev_type e = 6 \<longrightarrow> mapHas (ar_acceptedInvitations R) (key (ev_recordId e))) \<and>
     (ev_type e = 7 \<longrightarrow> mapHas (ar_cancelledInvitations R) (key (ev_recordId e))) \<and>
     (ev_type e = 8 \<longrightarrow> mapHas (ar_resolvedInvitations R) (key (ev_recordId e))) \<and>
     (ev_type e = 9 \<longrightarrow> mapHas (ar_clientEnrollments R) (key (ev_recordId e))) \<and>
     (ev_type e = 11 \<longrightarrow> mapHas (ar_recoveryReplacements R) (key (ev_recordId e))) \<and>
     (ev_type e = 12 \<longrightarrow> mapHas (ar_keyEpochTransitions R) (key (ev_recordId e))) \<and>
     (ev_type e = 13 \<longrightarrow> mapHas (ar_keyDeliveries R) (key (ev_recordId e))) \<and>
     (ev_type e = 14 \<longrightarrow> mapHas (ar_featureActivations R) (key (ev_recordId e))))"

lemma same_facts_refl [simp]: "same_facts r R R" by (simp add: same_facts_def)

lemma mapHas_set [simp]: "mapHas (mapSet m k v) i \<longleftrightarrow> i = k \<or> mapHas m i"
  by (auto simp: mapHas_iff update_conv')

lemmas accept_defs = accept_authority_def accept_acceptance_def accept_cancellation_def accept_resolution_def
  accept_enrollment_def accept_replacement_def accept_transition_def accept_delivery_def accept_activation_def

lemma accept_effects:
  "accept_acceptance P R st e = ok R1 \<Longrightarrow> \<exists>a. R1 = R\<lparr>ar_acceptedInvitations := mapSet (ar_acceptedInvitations R) (key (ev_recordId e)) a\<rparr>"
  "accept_cancellation P R st e = ok R1 \<Longrightarrow> \<exists>c. R1 = R\<lparr>ar_cancelledInvitations := mapSet (ar_cancelledInvitations R) (key (ev_recordId e)) c\<rparr>"
  "accept_resolution P R st signer e = ok R1 \<Longrightarrow> \<exists>c. R1 = R\<lparr>ar_resolvedInvitations := mapSet (ar_resolvedInvitations R) (key (ev_recordId e)) c\<rparr>"
  "accept_enrollment P R st signer enr e = ok R1 \<Longrightarrow> \<exists>c. enr = Some c \<and> R1 = R\<lparr>ar_clientEnrollments := mapSet (ar_clientEnrollments R) (key (ev_recordId e)) c\<rparr>"
  "accept_replacement P R st signer e = ok R1 \<Longrightarrow> \<exists>c. R1 = R\<lparr>ar_recoveryReplacements := mapSet (ar_recoveryReplacements R) (key (ev_recordId e)) c\<rparr>"
  "accept_transition P R st signer e = ok R1 \<Longrightarrow> \<exists>c. parseKeyEpochTransition P e = ok c \<and> R1 = R\<lparr>ar_keyEpochTransitions := mapSet (ar_keyEpochTransitions R) (key (ev_recordId e)) c\<rparr>"
  "accept_delivery P R st e = ok R1 \<Longrightarrow> \<exists>c. R1 = R\<lparr>ar_keyDeliveries := mapSet (ar_keyDeliveries R) (key (ev_recordId e)) c\<rparr>"
  "accept_activation P R st signer e = ok R1 \<Longrightarrow> \<exists>c. R1 = R\<lparr>ar_featureActivations := mapSet (ar_featureActivations R) (key (ev_recordId e)) c\<rparr>"
  by (auto simp: accept_defs and_then_eq_Inr Let_def split: option.splits if_splits)

lemma accept_authority_frame:
  assumes "accept_authority P R st signer enrollment e = ok R1" "ev_family e = 1"
  shows "same_facts (key (ev_recordId e)) R R1 \<and> ar_graph R1 = ar_graph R \<and> ar_events R1 = ar_events R \<and> recorded R1 e"
  using assms
  by (auto simp: accept_authority_def and_then_eq_Inr same_facts_def recorded_def update_conv'
      dest!: accept_effects split: if_splits)

definition grows :: "authority_replay \<Rightarrow> authenticated_event \<Rightarrow> authority_replay \<Rightarrow> bool" where
  "grows R e R' \<longleftrightarrow>
     closed_graph (ar_graph R) \<and> \<not> has_record (ar_graph R) (ev_recordId e) \<and>
     (\<forall>p \<in> set (cx_authorityParentRecordIds e). has_record (ar_graph R) p) \<and>
     add_record (ar_graph R) (ev_recordId e) (cx_authorityParentRecordIds e) = ok (ar_graph R') \<and>
     ar_events R' = ar_events R @ [e] \<and> same_facts (key (ev_recordId e)) R R'"

lemma stateAt_known:
  assumes "stateAt P R f = ok st"
  shows "f \<noteq> []" "\<forall>i \<in> set f. has_record (ar_graph R) i"
  using assms by (auto simp: stateAt_def list_ex_iff split: if_splits)

lemma accepted_grows:
  assumes "validateAndAccept P R e = ok R'" "closed_graph (ar_graph R)" "\<not> has_record (ar_graph R) (ev_recordId e)"
  shows "grows R e R' \<and> recorded R' e \<or> ev_family e \<noteq> 1 \<and> ev_family e \<noteq> 3 \<and> R' = R"
proof -
  obtain st enrollment signer where st: "stateAt P R (cx_authorityParentRecordIds e) = ok st"
    and b: "if ev_family e = 1
     then \<exists>R1. accept_authority P R st signer enrollment e = ok R1 \<and> acceptAuthorityNode R1 e = ok R'
     else if ev_family e = 3
     then accept_lifecycle st signer e = ok () \<and> acceptAuthorityNode R e = ok R'
     else R' = R"
    by (rule validateAndAccept_steps[OF assms(1)])
  note known = stateAt_known(2)[OF st]
  have node: "grows R e R' \<and> recorded R' e"
    if n: "same_facts (key (ev_recordId e)) R R1" "ar_graph R1 = ar_graph R" "ar_events R1 = ar_events R"
      "recorded R1 e" "acceptAuthorityNode R1 e = ok R'" for R1
  proof -
    obtain g where g: "add_record (ar_graph R) (ev_recordId e) (cx_authorityParentRecordIds e) = ok g"
        "R' = R1\<lparr>ar_graph := g, ar_events := ar_events R @ [e]\<rparr>"
      using n(2,3,5) by (auto simp: acceptAuthorityNode_def and_then_eq_Inr)
    have "same_facts (key (ev_recordId e)) R R'" using n(1) by (simp add: same_facts_def g(2))
    moreover have "recorded R' e" using n(4) by (simp add: recorded_def g(2))
    ultimately show ?thesis using g assms(2,3) known by (simp add: grows_def)
  qed
  show ?thesis
    using b node node[of R] accept_authority_frame[of P R st signer enrollment e]
    by (auto simp: recorded_def split: if_splits)
qed

text \<open>The Events below a frontier that was known do not change; those below the new Record do as its parents say.\<close>

lemma grows_included:
  assumes "grows R e R'"
  shows "has_record (ar_graph R) b \<Longrightarrow> isAncestor (ar_graph R') x b \<longleftrightarrow> isAncestor (ar_graph R) x b"
    "has_record (ar_graph R') i \<longleftrightarrow> has_record (ar_graph R) i \<or> i = ev_recordId e"
    "closed_graph (ar_graph R')"
    "(\<forall>i \<in> set f. has_record (ar_graph R) i) \<Longrightarrow> isIncluded R' x f \<longleftrightarrow> isIncluded R x f"
    "isIncluded R' x [ev_recordId e] \<longleftrightarrow> x = ev_recordId e \<or> isIncluded R x (cx_authorityParentRecordIds e)"
proof -
  have h: "closed_graph (ar_graph R)" "add_record (ar_graph R) (ev_recordId e) (cx_authorityParentRecordIds e) = ok (ar_graph R')"
    "\<not> has_record (ar_graph R) (ev_recordId e)" "\<forall>p \<in> set (cx_authorityParentRecordIds e). has_record (ar_graph R) p"
    using assms by (auto simp: grows_def)
  note a = grow_ancestor[OF h] and c = grow_closed[OF h]
  show "has_record (ar_graph R) b \<Longrightarrow> isAncestor (ar_graph R') x b \<longleftrightarrow> isAncestor (ar_graph R) x b" by (rule a(1))
  show "has_record (ar_graph R') i \<longleftrightarrow> has_record (ar_graph R) i \<or> i = ev_recordId e" by (rule c(2))
  show "closed_graph (ar_graph R')" by (rule c(1))
  show "isIncluded R' x f \<longleftrightarrow> isIncluded R x f" if "\<forall>i \<in> set f. has_record (ar_graph R) i"
    using that a(1) by (auto simp: isIncluded_def list_ex_iff)
  show "isIncluded R' x [ev_recordId e] \<longleftrightarrow> x = ev_recordId e \<or> isIncluded R x (cx_authorityParentRecordIds e)"
    using a(2) by (auto simp: isIncluded_def list_ex_iff)
qed

lemma included_known:
  assumes "closed_graph (ar_graph R)" "\<forall>i \<in> set f. has_record (ar_graph R) i" "isIncluded R x f"
  shows "has_record (ar_graph R) x"
  using assms closed_ancestor_known by (fastforce simp: isIncluded_def list_ex_iff)

lemma grows_events_at:
  assumes g: "grows R e R'" and f: "\<forall>i \<in> set f. has_record (ar_graph R) i"
  shows "events_at R' f = events_at R f" "authority_events_at R' f = authority_events_at R f"
proof -
  have "\<not> isIncluded R (ev_recordId e) f"
    using included_known[OF _ f] g by (auto simp: grows_def)
  then show "events_at R' f = events_at R f"
    using g grows_included(4)[OF g f] by (simp add: events_at_def grows_def)
  then show "authority_events_at R' f = authority_events_at R f" by (simp add: authority_events_at_def)
qed

section \<open>Reachable replays\<close>

definition replay_inv :: "authority_replay \<Rightarrow> bool" where
  "replay_inv R \<longleftrightarrow>
     closed_graph (ar_graph R) \<and> has_record (ar_graph R) (ar_anchorRecordId R) \<and>
     (\<forall>i \<in> set (anchor_causes (ar_anchorState R)). has_record (ar_graph R) i) \<and>
     (\<forall>e \<in> set (ar_events R). has_record (ar_graph R) (ev_recordId e) \<and> recorded R e)"

text \<open>
  A replay evolves by accepting Events. Both callers accept an Event once: the replay of a Vault visits a
  Record once, and a Continuity Proof removes an Event when it is accepted.
\<close>

inductive replay_step :: "platform \<Rightarrow> authority_replay \<Rightarrow> authority_replay \<Rightarrow> bool" for P where
  accepted: "\<not> has_record (ar_graph R) (ev_recordId e) \<Longrightarrow> validateAndAccept P R e = ok R' \<Longrightarrow> replay_step P R R'"

inductive reachable_replay :: "platform \<Rightarrow> authority_replay \<Rightarrow> bool" for P where
  start: "new_replay genesis anchorId anchorState supported = ok R \<Longrightarrow> reachable_replay P R"
| step: "reachable_replay P R \<Longrightarrow> replay_step P R R' \<Longrightarrow> reachable_replay P R'"

lemma anchor_known:
  assumes "replay_inv R"
  shows "c \<in> set (invitationConflicts (ar_anchorState R)) \<Longrightarrow> x \<in> set (icf_candidates c) \<Longrightarrow>
      has_record (ar_graph R) (ic_headRecordId x)"
    "d \<in> set (administratorConflicts (ar_anchorState R)) \<Longrightarrow> y \<in> set (adf_candidates d) \<Longrightarrow>
      has_record (ar_graph R) (adc_headRecordId y)"
proof -
  have i: "has_record (ar_graph R) i" if "i \<in> set (anchor_causes (ar_anchorState R))" for i
    using assms that by (simp add: replay_inv_def)
  show "c \<in> set (invitationConflicts (ar_anchorState R)) \<Longrightarrow> x \<in> set (icf_candidates c) \<Longrightarrow>
      has_record (ar_graph R) (ic_headRecordId x)"
    by (rule i) (auto simp: anchor_causes_def)
  show "d \<in> set (administratorConflicts (ar_anchorState R)) \<Longrightarrow> y \<in> set (adf_candidates d) \<Longrightarrow>
      has_record (ar_graph R) (adc_headRecordId y)"
    by (rule i) (auto simp: anchor_causes_def)
qed

lemma recorded_same:
  assumes "same_facts r R R'" "key (ev_recordId e) \<noteq> r"
  shows "recorded R' e \<longleftrightarrow> recorded R e"
  using assms by (simp add: recorded_def same_facts_def mapHas_iff)

lemma grows_inv:
  assumes inv: "replay_inv R" and g: "grows R e R'" and e: "recorded R' e"
  shows "replay_inv R'"
proof -
  have s: "same_facts (key (ev_recordId e)) R R'" "ar_events R' = ar_events R @ [e]"
    "\<not> has_record (ar_graph R) (ev_recordId e)"
    using g by (auto simp: grows_def)
  have "recorded R' x \<and> has_record (ar_graph R') (ev_recordId x)" if "x \<in> set (ar_events R)" for x
  proof -
    have x: "has_record (ar_graph R) (ev_recordId x)" "recorded R x" using inv that by (auto simp: replay_inv_def)
    then have "key (ev_recordId x) \<noteq> key (ev_recordId e)" using s(3) by auto
    then show ?thesis using x recorded_same[OF s(1)] grows_included(2)[OF g] by simp
  qed
  then show ?thesis
    using inv e s grows_included(2,3)[OF g] by (auto simp: replay_inv_def same_facts_def)
qed

lemma anchor_cause_ids_set: "set (anchor_cause_ids r st) = set (anchor_causes st) - {r}"
proof -
  have "set (mapValues (mapFrom (map (\<lambda>i. (key i, i)) xs))) = set xs" for xs :: "bytes list"
  proof -
    have "set (mapValues (mapFrom (map (\<lambda>i. (key i, i)) xs))) \<subseteq> set xs"
      using mapFrom_subset[of "map (\<lambda>i. (key i, i)) xs"] by force
    moreover have "x \<in> set (mapValues (mapFrom (map (\<lambda>i. (key i, i)) xs)))" if x: "x \<in> set xs" for x
    proof -
      have "key x \<in> set (mapKeys (mapFrom (map (\<lambda>i. (key i, i)) xs)))"
        unfolding mapFrom_keys using x by force
      then obtain p where p: "p \<in> set (mapFrom (map (\<lambda>i. (key i, i)) xs))" "fst p = key x" by auto
      then have "p \<in> set (map (\<lambda>i. (key i, i)) xs)" using mapFrom_subset by blast
      then have "snd p = x" using p(2) by auto
      then show ?thesis using p(1) by force
    qed
    ultimately show ?thesis by blast
  qed
  then show ?thesis by (auto simp: anchor_cause_ids_def)
qed

lemma add_roots:
  assumes "foldM (\<lambda>g i. add_record g i []) g xs = ok g'" "closed_graph g"
  shows "closed_graph g' \<and> (\<forall>i. has_record g' i \<longleftrightarrow> has_record g i \<or> i \<in> set xs)"
  using assms
proof (induction xs arbitrary: g)
  case (Cons x xs)
  obtain h where h: "add_record g x [] = ok h" "foldM (\<lambda>g i. add_record g i []) h xs = ok g'"
    using Cons.prems(1) by (auto simp: and_then_eq_Inr)
  have "closed_graph h \<and> (\<forall>i. has_record h i \<longleftrightarrow> has_record g i \<or> i = x)"
  proof (cases "has_record g x")
    case True
    then have "h = g" using add_record_ok[OF h(1)] by blast
    then show ?thesis using Cons.prems(2) True by auto
  next
    case False
    then show ?thesis using grow_closed[OF Cons.prems(2) h(1)] by simp
  qed
  then show ?case using Cons.IH[OF h(2)] by auto
qed simp

lemma new_replay_inv:
  assumes "new_replay genesis anchorId anchorState supported = ok R"
  shows "replay_inv R"
proof -
  obtain g g' where g: "foldM (\<lambda>g i. add_record g i []) new_graph (anchor_cause_ids anchorId anchorState) = ok g"
      "add_record g anchorId (anchor_cause_ids anchorId anchorState) = ok g'"
    and R: "ar_graph R = g'" "ar_anchorRecordId R = anchorId" "ar_anchorState R = anchorState" "ar_events R = []"
    using assms by (auto simp: new_replay_def Let_def and_then_eq_Inr)
  have "closed_graph new_graph" using graph_inv_start by (simp add: closed_graph_def new_graph_def parents_of_def)
  from add_roots[OF g(1) this] have c: "closed_graph g" "\<And>i. has_record g i \<longleftrightarrow> i \<in> set (anchor_causes anchorState) - {anchorId}"
    by (auto simp: anchor_cause_ids_set has_record_def new_graph_def)
  note h = grow_closed[OF c(1) g(2)]
  have "closed_graph g' \<and> has_record g' anchorId \<and> (\<forall>i \<in> set (anchor_causes anchorState). has_record g' i)"
    using h c(2) by (auto simp: anchor_cause_ids_set)
  then show ?thesis by (simp add: replay_inv_def R)
qed

lemma reachable_inv: "reachable_replay P R \<Longrightarrow> replay_inv R"
proof (induction rule: reachable_replay.induct)
  case (step R R')
  from step.hyps(2) show ?case
  proof cases
    case (accepted e)
    have "closed_graph (ar_graph R)" using step.IH by (simp add: replay_inv_def)
    from accepted_grows[OF accepted(2) this accepted(1)] show ?thesis
      using grows_inv[OF step.IH] step.IH by blast
  qed
qed (rule new_replay_inv)

section \<open>States of the past\<close>

lemma foldM_cong:
  assumes "s = t" "xs = ys" "\<And>s x. x \<in> set ys \<Longrightarrow> f s x = g s x"
  shows "foldM f s xs = foldM g t ys"
  using assms(3) unfolding assms(1,2) by (induction ys arbitrary: t) (auto intro: and_then_cong)

lemma traverse_cong: "(\<And>x. x \<in> set xs \<Longrightarrow> f x = g x) \<Longrightarrow> traverse f xs = traverse g xs"
  by (induction xs) (auto intro: and_then_cong)

text \<open>An Event was accepted, and \<open>f\<close> is a frontier that was known before.\<close>

definition stable_at :: "authority_replay \<Rightarrow> authenticated_event \<Rightarrow> authority_replay \<Rightarrow> bytes list \<Rightarrow> bool" where
  "stable_at R e R' f \<longleftrightarrow> replay_inv R \<and> grows R e R' \<and> (\<forall>i \<in> set f. has_record (ar_graph R) i)"

lemma stable_events:
  assumes "stable_at R e R' f"
  shows "events_at R' f = events_at R f" "authority_events_at R' f = authority_events_at R f"
    "ar_anchorState R' = ar_anchorState R" "ar_anchorRecordId R' = ar_anchorRecordId R" "ar_vaultId R' = ar_vaultId R"
    "x \<in> set (events_at R f) \<Longrightarrow> has_record (ar_graph R) (ev_recordId x)"
    "x \<in> set (authority_events_at R f) \<Longrightarrow> has_record (ar_graph R) (ev_recordId x)"
    "has_record (ar_graph R) b \<Longrightarrow> isAncestor (ar_graph R') a b \<longleftrightarrow> isAncestor (ar_graph R) a b"
  using assms grows_events_at[of R e R' f] grows_included(1)[of R e R' b a]
  by (auto simp: stable_at_def replay_inv_def events_at_def authority_events_at_def grows_def same_facts_def)

lemma stable_lookup:
  assumes "stable_at R e R' f" "has_record (ar_graph R) i"
  shows "mapGet (ar_acceptedInvitations R') (key i) = mapGet (ar_acceptedInvitations R) (key i)"
    "mapGet (ar_cancelledInvitations R') (key i) = mapGet (ar_cancelledInvitations R) (key i)"
    "mapGet (ar_resolvedInvitations R') (key i) = mapGet (ar_resolvedInvitations R) (key i)"
    "mapGet (ar_clientEnrollments R') (key i) = mapGet (ar_clientEnrollments R) (key i)"
    "mapGet (ar_recoveryReplacements R') (key i) = mapGet (ar_recoveryReplacements R) (key i)"
    "mapGet (ar_keyEpochTransitions R') (key i) = mapGet (ar_keyEpochTransitions R) (key i)"
    "mapGet (ar_keyDeliveries R') (key i) = mapGet (ar_keyDeliveries R) (key i)"
    "mapGet (ar_featureActivations R') (key i) = mapGet (ar_featureActivations R) (key i)"
proof -
  have "key i \<noteq> key (ev_recordId e)" using assms by (auto simp: stable_at_def grows_def)
  moreover have "same_facts (key (ev_recordId e)) R R'" using assms(1) by (simp add: stable_at_def grows_def)
  ultimately show "mapGet (ar_acceptedInvitations R') (key i) = mapGet (ar_acceptedInvitations R) (key i)"
    "mapGet (ar_cancelledInvitations R') (key i) = mapGet (ar_cancelledInvitations R) (key i)"
    "mapGet (ar_resolvedInvitations R') (key i) = mapGet (ar_resolvedInvitations R) (key i)"
    "mapGet (ar_clientEnrollments R') (key i) = mapGet (ar_clientEnrollments R) (key i)"
    "mapGet (ar_recoveryReplacements R') (key i) = mapGet (ar_recoveryReplacements R) (key i)"
    "mapGet (ar_keyEpochTransitions R') (key i) = mapGet (ar_keyEpochTransitions R) (key i)"
    "mapGet (ar_keyDeliveries R') (key i) = mapGet (ar_keyDeliveries R) (key i)"
    "mapGet (ar_featureActivations R') (key i) = mapGet (ar_featureActivations R) (key i)"
    by (simp_all add: same_facts_def)
qed

lemma stable_maxima:
  assumes "stable_at R e R' f" "\<And>c. c \<in> set cs \<Longrightarrow> has_record (ar_graph R) (cid c)"
  shows "causalMaxima cid cs (ar_graph R') = causalMaxima cid cs (ar_graph R)"
proof -
  have has: "has_record (ar_graph R') (cid c) = has_record (ar_graph R) (cid c)" if "c \<in> set cs" for c
    using grows_included(2)[of R e R'] assms that by (auto simp: stable_at_def)
  have "foldM (index_fact cid (ar_graph R')) [] cs = foldM (index_fact cid (ar_graph R)) [] cs"
    by (intro foldM_cong refl) (simp add: index_fact_def has Let_def)
  moreover have "superseded cid (ar_graph R') cs c = superseded cid (ar_graph R) cs c" for c
    using stable_events(8)[OF assms(1)] assms(2) by (auto simp: superseded_def list_ex_iff)
  ultimately show ?thesis by (simp add: causalMaxima_def)
qed

definition every_value :: "('a \<Rightarrow> bool) \<Rightarrow> (string, 'a list) jmap \<Rightarrow> bool" where
  "every_value Q m \<longleftrightarrow> (\<forall>xs \<in> set (mapValues m). \<forall>x \<in> set xs. Q x)"

lemma every_value_empty [simp]: "every_value Q []" by (simp add: every_value_def)

lemma every_value_push:
  assumes "every_value Q m" "Q y"
  shows "every_value Q (group_push k m y)"
  unfolding every_value_def
proof
  fix xs assume "xs \<in> set (mapValues (group_push k m y))"
  then obtain q where q: "(q, xs) \<in> set (group_push k m y)" by auto
  let ?old = "case mapGet m (k y) of None \<Rightarrow> [] | Some entries \<Rightarrow> entries"
  have old: "\<forall>x \<in> set ?old. Q x"
  proof (cases "mapGet m (k y)")
    case (Some entries)
    then have "entries \<in> set (mapValues m)" using map_of_SomeD by force
    then show ?thesis using assms(1) Some by (auto simp: every_value_def)
  qed simp
  have "(q, xs) \<in> set m \<or> xs = ?old @ [y]"
    using q unfolding group_push_def by (induction m) (auto split: if_splits)
  then show "\<forall>x \<in> set xs. Q x" using assms old by (force simp: every_value_def)
qed

lemma stable_terminal_facts:
  assumes s: "stable_at R e R' f"
  shows "terminal_facts R' f = terminal_facts R f"
    "terminal_facts R f = ok m \<Longrightarrow>
       every_value (\<lambda>x. has_record (ar_graph R) (tf_causeId x) \<and> ic_headRecordId x = tf_causeId x) m"
proof -
  have "terminal_fact_of R' x = terminal_fact_of R x" if "x \<in> set (authority_events_at R f)" for x
    using stable_lookup[OF s stable_events(7)[OF s that]] by (simp add: terminal_fact_of_def fact_of_def)
  then show "terminal_facts R' f = terminal_facts R f"
    unfolding terminal_facts_def stable_events[OF s] by (intro foldM_cong refl) simp
  assume m: "terminal_facts R f = ok m"
  let ?Q = "\<lambda>x. has_record (ar_graph R) (tf_causeId x) \<and> ic_headRecordId x = tf_causeId x"
  show "every_value ?Q m"
  proof (rule foldM_invariant[OF m[unfolded terminal_facts_def]])
    have "set (anchor_terminal_facts (ar_anchorState R)) \<subseteq> set (map (\<lambda>conflict. (key (icf_invitationId conflict),
       map (\<lambda>c. \<lparr>ic_headRecordId = ic_headRecordId c, ic_outcome = ic_outcome c,
         ic_authorityReceiptId = ic_authorityReceiptId c, ic_joinRequestId = ic_joinRequestId c,
         ic_memberId = ic_memberId c, tf_causeId = ic_headRecordId c,
         tf_invitationId = icf_invitationId conflict, tf_acceptance = None\<rparr>) (icf_candidates conflict)))
       (invitationConflicts (ar_anchorState R)))"
      unfolding anchor_terminal_facts_def by (rule mapFrom_subset)
    moreover have "\<forall>c \<in> set (invitationConflicts (ar_anchorState R)). \<forall>x \<in> set (icf_candidates c). has_record (ar_graph R) (ic_headRecordId x)"
      using s anchor_known(1) by (simp add: stable_at_def)
    ultimately show "every_value ?Q (anchor_terminal_facts (ar_anchorState R))"
      unfolding every_value_def by fastforce
  next
    fix m x m' assume x: "x \<in> set (authority_events_at R f)"
      and m: "every_value ?Q m"
      and step: "and_then (terminal_fact_of R x) (\<lambda>f. ok (case f of None \<Rightarrow> m
         | Some terminal \<Rightarrow> group_push (\<lambda>f. key (tf_invitationId f)) m terminal)) = ok m'"
    obtain t where t: "terminal_fact_of R x = ok t" "m' = (case t of None \<Rightarrow> m
         | Some terminal \<Rightarrow> group_push (\<lambda>f. key (tf_invitationId f)) m terminal)"
      using step by (auto simp: and_then_eq_Inr)
    have "?Q y" if "t = Some y" for y
      using t(1) that stable_events(7)[OF s x]
      by (auto simp: terminal_fact_of_def and_then_eq_Inr split: if_splits)
    then show "every_value ?Q m'"
      using t(2) m every_value_push[OF m] by (cases t) auto
  qed
qed

lemma stable_resolutions:
  assumes s: "stable_at R e R' f"
  shows "invitation_resolutions R' f = invitation_resolutions R f"
    "invitation_resolutions R f = ok m \<Longrightarrow> every_value (\<lambda>x. has_record (ar_graph R) (fst x)) m"
proof -
  have l: "fact_of (ar_resolvedInvitations R') x n = fact_of (ar_resolvedInvitations R) x n"
    if "x \<in> set (authority_events_at R f)" for x n
    using stable_lookup[OF s stable_events(7)[OF s that]] by (simp add: fact_of_def)
  show "invitation_resolutions R' f = invitation_resolutions R f"
    unfolding invitation_resolutions_def stable_events[OF s] by (intro foldM_cong refl) (simp add: l)
  assume m: "invitation_resolutions R f = ok m"
  show "every_value (\<lambda>x. has_record (ar_graph R) (fst x)) m"
  proof (rule foldM_invariant[OF m[unfolded invitation_resolutions_def]])
    fix m x m' assume x: "x \<in> set (filter (\<lambda>e. ev_type e = 8) (authority_events_at R f))"
      and m: "every_value (\<lambda>x. has_record (ar_graph R) (fst x)) m"
      and step: "and_then (fact_of (ar_resolvedInvitations R) x ''Invitation Resolution state is missing'')
         (\<lambda>r. ok (group_push (\<lambda>h. key (res_invitationId (snd h))) m (ev_recordId x, r))) = ok m'"
    have "has_record (ar_graph R) (ev_recordId x)" using stable_events(7)[OF s] x by simp
    moreover obtain r where "m' = group_push (\<lambda>h. key (res_invitationId (snd h))) m (ev_recordId x, r)"
      using step by (auto simp: and_then_eq_Inr)
    ultimately show "every_value (\<lambda>x. has_record (ar_graph R) (fst x)) m'"
      using m by (simp add: every_value_push)
  qed (simp add: every_value_def)
qed

lemma stable_effective:
  assumes s: "stable_at R e R' f" and m: "every_value (\<lambda>x. has_record (ar_graph R) (fst x)) m"
  shows "effective_resolutions R' m = effective_resolutions R m"
    "effective_resolutions R m = ok q \<Longrightarrow> \<forall>x \<in> set (mapValues q). has_record (ar_graph R) (fst x)"
proof -
  show "effective_resolutions R' m = effective_resolutions R m"
    unfolding effective_resolutions_def
    by (intro traverse_cong) (use m in \<open>fastforce simp: every_value_def stable_maxima[OF s] split: prod.splits\<close>)
  assume q: "effective_resolutions R m = ok q"
  show "\<forall>x \<in> set (mapValues q). has_record (ar_graph R) (fst x)"
  proof
    fix x assume "x \<in> set (mapValues q)"
    then obtain k where "(k, x) \<in> set q" by auto
    then obtain i where i: "i < length q" "q ! i = (k, x)" by (auto simp: in_set_conv_nth)
    have l: "list_all2 (\<lambda>p y. (case p of (k, rs) \<Rightarrow> and_then (causalMaxima fst rs (ar_graph R)) (\<lambda>heads.
        if length heads \<noteq> 1 then throw (TypeError ''Concurrent Invitation Conflict Resolutions cannot yet be reduced'')
        else ok (k, hd heads))) = ok y) m q"
      using q by (simp add: effective_resolutions_def traverse_eq_Inr)
    obtain k' rs where p: "m ! i = (k', rs)" by fastforce
    have "i < length m" using l i by (simp add: list_all2_lengthD)
    then have "(k', rs) \<in> set m" using p nth_mem by metis
    moreover obtain heads where "causalMaxima fst rs (ar_graph R) = ok heads" "length heads = 1" "x = hd heads"
      using list_all2_nthD2[OF l i(1)] i(2) p by (auto simp: and_then_eq_Inr split: if_splits)
    moreover from this have "x \<in> set rs"
      using hd_in_set[of heads] by (cases "heads = []") (auto simp: causalMaxima_ok)
    ultimately show "has_record (ar_graph R) (fst x)" using m by (force simp: every_value_def)
  qed
qed

lemma stable_settlement:
  assumes s: "stable_at R e R' f"
  shows "settled_invitations R' f = settled_invitations R f"
proof -
  have "settle_invitation R' q S facts = settle_invitation R q S facts"
    if q: "\<forall>x \<in> set (mapValues q). has_record (ar_graph R) (fst x)"
      and known: "\<forall>x \<in> set facts. has_record (ar_graph R) (tf_causeId x)" for q S facts
  proof -
    have "settle_resolved R' i resolved heads S = settle_resolved R i resolved heads S"
      if "mapGet q k = Some resolved" for i resolved heads k
    proof -
      have "has_record (ar_graph R) (fst resolved)" using q map_of_SomeD[OF that] by force
      then show ?thesis
        using stable_events(8)[OF s] by (cases resolved) (simp add: settle_resolved_def)
    qed
    then show ?thesis
      using known by (simp add: settle_invitation_def stable_maxima[OF s] Let_def cong: list.case_cong option.case_cong)
  qed
  then have "foldM (settle_invitation R' q) S (mapValues m) = foldM (settle_invitation R q) S (mapValues m)"
    if "\<forall>x \<in> set (mapValues q). has_record (ar_graph R) (fst x)"
      "every_value (\<lambda>x. has_record (ar_graph R) (tf_causeId x) \<and> ic_headRecordId x = tf_causeId x) m" for q S m
    by (intro foldM_cong refl) (use that in \<open>auto simp: every_value_def\<close>)
  then show ?thesis
    unfolding settled_invitations_def
    using stable_terminal_facts[OF s] stable_resolutions[OF s] stable_effective[OF s]
    by (auto intro!: and_then_cong)
qed

lemma stable_membership:
  assumes s: "stable_at R e R' f"
  shows "membership_at R' effective f = membership_at R effective f"
    "membership_at R effective f = ok M \<Longrightarrow> \<forall>x \<in> set (mb_administratorFacts M). has_record (ar_graph R) (adt_causeId x)"
proof -
  have "membership_step R' effective M x = membership_step R effective M x" if "x \<in> set (events_at R f)" for M x
    using stable_lookup[OF s stable_events(6)[OF s that]] by (simp add: membership_step_def fact_of_def)
  moreover have "anchor_membership R' = anchor_membership R"
    by (simp add: anchor_membership_def stable_events[OF s])
  ultimately show "membership_at R' effective f = membership_at R effective f"
    unfolding membership_at_def by (intro foldM_cong stable_events(1)[OF s])
  assume M: "membership_at R effective f = ok M"
  show "\<forall>x \<in> set (mb_administratorFacts M). has_record (ar_graph R) (adt_causeId x)"
  proof (rule foldM_invariant[OF M[unfolded membership_at_def]])
    have "has_record (ar_graph R) (ar_anchorRecordId R)" using s by (simp add: stable_at_def replay_inv_def)
    moreover have "\<And>d y. d \<in> set (administratorConflicts (ar_anchorState R)) \<Longrightarrow> y \<in> set (adf_candidates d) \<Longrightarrow>
        has_record (ar_graph R) (adc_headRecordId y)"
      using s anchor_known(2) by (simp add: stable_at_def)
    ultimately show "\<forall>x \<in> set (mb_administratorFacts (anchor_membership R)). has_record (ar_graph R) (adt_causeId x)"
      by (auto simp: anchor_membership_def Let_def)
  next
    fix M x M' assume x: "x \<in> set (events_at R f)"
      and M: "\<forall>x \<in> set (mb_administratorFacts M). has_record (ar_graph R) (adt_causeId x)"
      and step: "membership_step R effective M x = ok M'"
    have "set (mb_administratorFacts M') \<subseteq> set (mb_administratorFacts M) \<union> {y. adt_causeId y = ev_recordId x}"
      using step
      by (auto simp: membership_step_def admit_member_def and_then_eq_Inr Let_def split: if_splits)
    then show "\<forall>x \<in> set (mb_administratorFacts M'). has_record (ar_graph R) (adt_causeId x)"
      using M stable_events(6)[OF s x] by auto
  qed
qed

lemma every_value_group_by: "\<forall>x \<in> set xs. Q x \<Longrightarrow> every_value Q (group_by k xs)"
proof -
  have "every_value Q m \<Longrightarrow> \<forall>x \<in> set xs. Q x \<Longrightarrow> every_value Q (foldl (group_push k) m xs)" for m
    by (induction xs arbitrary: m) (auto simp: every_value_push)
  then show "\<forall>x \<in> set xs. Q x \<Longrightarrow> every_value Q (group_by k xs)"
    unfolding group_by_def using every_value_empty by blast
qed

lemma stable_administrators:
  assumes s: "stable_at R e R' f" and "\<forall>x \<in> set (mb_administratorFacts M). has_record (ar_graph R) (adt_causeId x)"
  shows "administrators_of R' M = administrators_of R M"
proof -
  have "administrator_step R' a r facts = administrator_step R a r facts"
    if "\<forall>x \<in> set facts. has_record (ar_graph R) (adt_causeId x)" for a r facts
  proof -
    have "causalMaxima adt_causeId facts (ar_graph R') = causalMaxima adt_causeId facts (ar_graph R)"
      using that by (intro stable_maxima[OF s]) blast
    then show ?thesis unfolding administrator_step_def by presburger
  qed
  then have "foldM (administrator_step R' a) r (mapValues m) = foldM (administrator_step R a) r (mapValues m)"
    if "every_value (\<lambda>x. has_record (ar_graph R) (adt_causeId x)) m" for a r m
    by (intro foldM_cong refl) (use that in \<open>auto simp: every_value_def\<close>)
  then show ?thesis
    unfolding administrators_of_def using every_value_group_by[OF assms(2)] by simp
qed

lemma stable_invitations:
  assumes s: "stable_at R e R' f"
  shows "invitations_at P R' f = invitations_at P R f"
proof -
  have "end_invitation R' m x = end_invitation R m x" if "x \<in> set (authority_events_at R f)" for m x
    using stable_lookup[OF s stable_events(7)[OF s that]] by (simp add: end_invitation_def fact_of_def)
  then show ?thesis
    unfolding invitations_at_def stable_events[OF s] by (simp cong: foldM_cong)
qed

lemma stable_recovery_causes:
  assumes s: "stable_at R e R' f"
  shows "recovery_fence_causes R' f = recovery_fence_causes R f"
    "recovery_fence_causes R f = ok m \<Longrightarrow> every_value (has_record (ar_graph R)) m"
proof -
  have "fact_of (ar_recoveryReplacements R') x n = fact_of (ar_recoveryReplacements R) x n"
    if "x \<in> set (authority_events_at R f)" for x n
    using stable_lookup[OF s stable_events(7)[OF s that]] by (simp add: fact_of_def)
  then show "recovery_fence_causes R' f = recovery_fence_causes R f"
    unfolding recovery_fence_causes_def stable_events[OF s] by (intro foldM_cong refl) simp
  assume m: "recovery_fence_causes R f = ok m"
  show "every_value (has_record (ar_graph R)) m"
  proof (rule foldM_invariant[OF m[unfolded recovery_fence_causes_def]])
    fix m x m' assume x: "x \<in> set (filter (\<lambda>e. ev_type e = 11) (authority_events_at R f))"
      and m: "every_value (has_record (ar_graph R)) m"
      and step: "and_then (replacement_fact R x) (\<lambda>replacement.
         ok (foldl (\<lambda>m i. let k = recovery_fence_key (rpl_memberId replacement) i in
             mapSet m k ((case mapGet m k of None \<Rightarrow> [] | Some causes \<Rightarrow> causes) @ [ev_recordId x]))
           m (rpl_replacedRecoveryCredentialIds replacement))) = ok m'"
    have r: "has_record (ar_graph R) (ev_recordId x)" using stable_events(7)[OF s] x by simp
    have "every_value (has_record (ar_graph R)) m \<Longrightarrow> every_value (has_record (ar_graph R))
        (foldl (\<lambda>m i. mapSet m (k i) ((case mapGet m (k i) of None \<Rightarrow> [] | Some causes \<Rightarrow> causes) @ [ev_recordId x])) m ids)"
      for m ids and k :: "bytes \<Rightarrow> string"
    proof (induction ids arbitrary: m)
      case (Cons i ids)
      have "every_value (has_record (ar_graph R)) (group_push (\<lambda>_. k i) m (ev_recordId x))"
        by (rule every_value_push[OF Cons.prems]) (rule r)
      then show ?case using Cons.IH by (simp add: group_push_def)
    qed simp
    then show "every_value (has_record (ar_graph R)) m'"
      using step m by (auto simp: and_then_eq_Inr Let_def)
  qed (simp add: every_value_def)
qed

lemma stable_credentials:
  assumes s: "stable_at R e R' f"
  shows "credentials_at R' active f = credentials_at R active f"
proof -
  have d: "dominated_enrollments R' m f = dominated_enrollments R m f"
    if m: "every_value (has_record (ar_graph R)) m" for m
  proof -
    have "dominated_enrollment R' m x = dominated_enrollment R m x" if x: "x \<in> set (authority_events_at R f)" for x
    proof -
      have "list_ex (\<lambda>c. \<not> isAncestor (ar_graph R') (ev_recordId x) c) ids =
          list_ex (\<lambda>c. \<not> isAncestor (ar_graph R) (ev_recordId x) c) ids" if "mapGet m k = Some ids" for ids k
      proof -
        have "\<forall>c \<in> set ids. has_record (ar_graph R) c"
          using m map_of_SomeD[OF that] by (force simp: every_value_def)
        then show ?thesis using stable_events(8)[OF s] by (auto simp: list_ex_iff)
      qed
      then show ?thesis
        using stable_lookup[OF s stable_events(7)[OF s x]]
        by (auto simp: dominated_enrollment_def split: option.splits)
    qed
    then show ?thesis
      unfolding dominated_enrollments_def stable_events[OF s] by (simp cong: filter_cong)
  qed
  have c: "credential_step R' a n q L x = credential_step R a n q L x" if "x \<in> set (authority_events_at R f)" for a n q L x
    using stable_lookup[OF s stable_events(7)[OF s that]] by (simp add: credential_step_def fact_of_def)
  have "ended_credentials R' f = ended_credentials R f" by (simp add: ended_credentials_def stable_events[OF s])
  moreover have "anchor_ledger R' a n = anchor_ledger R a n" for a n
    unfolding anchor_ledger_def anchor_recovery_cause_def stable_events[OF s] ..
  ultimately show ?thesis
    unfolding credentials_at_def Let_def stable_events[OF s]
    by (auto intro!: and_then_cong foldM_cong simp: stable_recovery_causes[OF s] d c)
qed

lemma stable_epochs:
  assumes s: "stable_at R e R' f"
  shows "epochs_at R' f = epochs_at R f"
proof -
  have "epoch_step R' L x = epoch_step R L x" if "x \<in> set (authority_events_at R f)" for L x
    using stable_lookup[OF s stable_events(7)[OF s that]] by (simp add: epoch_step_def fact_of_def)
  moreover have "anchor_epochs R' = anchor_epochs R"
    unfolding anchor_epochs_def anchor_epoch_cause_def stable_events[OF s] ..
  ultimately show ?thesis
    unfolding epochs_at_def stable_events[OF s] by (intro foldM_cong refl) simp_all
qed

lemma stable_slots:
  assumes s: "stable_at R e R' f"
  shows "slots_at R' f = slots_at R f"
proof -
  have "event_slots R' x = event_slots R x" if "x \<in> set (authority_events_at R f)" for x
    using stable_lookup[OF s stable_events(7)[OF s that]] by (simp add: event_slots_def Let_def)
  then show ?thesis
    unfolding slots_at_def stable_events[OF s] by (intro and_then_cong foldM_cong refl) simp_all
qed

lemma stable_features:
  assumes s: "stable_at R e R' f"
  shows "features_at P R' f = features_at P R f"
proof -
  have m: "add_manifests R' es = add_manifests R es" if "set es \<subseteq> set (authority_events_at R f)" for es
  proof -
    have "fact_of (ar_featureActivations R') x n = fact_of (ar_featureActivations R) x n" if "x \<in> set es" for x n
      using stable_lookup[OF s stable_events(7)[OF s]] that \<open>set es \<subseteq> _\<close> by (auto simp: fact_of_def)
    then show ?thesis unfolding add_manifests_def stable_events[OF s] by (simp cong: foldM_cong)
  qed
  have "incompatible_features P R' es ms = incompatible_features P R es ms"
    if es: "set es \<subseteq> set (authority_events_at R f)" for es ms
  proof -
    have known: "x \<in> set es \<Longrightarrow> has_record (ar_graph R) (ev_recordId x)" for x
      using es stable_events(7)[OF s] by blast
    have "filter (\<lambda>x. list_all (\<lambda>h. bytesEqual (ev_recordId x) (ev_recordId h) \<or>
          isAncestor (ar_graph R') (ev_recordId x) (ev_recordId h)) heads) es =
        filter (\<lambda>x. list_all (\<lambda>h. bytesEqual (ev_recordId x) (ev_recordId h) \<or>
          isAncestor (ar_graph R) (ev_recordId x) (ev_recordId h)) heads) es" if "set heads \<subseteq> set es" for heads
      using that known stable_events(8)[OF s] by (intro filter_cong refl list_all_cong) (metis subsetD)
    moreover have "set (sort_by c maxima) \<subseteq> set es" if "causalMaxima ev_recordId es (ar_graph R) = ok maxima" for c maxima
      using that by (auto simp: causalMaxima_ok)
    ultimately show ?thesis
      unfolding incompatible_features_def Let_def
      by (intro and_then_cong stable_maxima[OF s] known) (use es in \<open>auto intro!: arg_cong2[where f = and_then] m\<close>)
  qed
  then show ?thesis
    unfolding features_at_def Let_def stable_events[OF s] using m
    by (auto intro!: and_then_cong split: sum.splits)
qed

lemma stable_fences:
  assumes s: "stable_at R e R' f"
  shows "fences_at R' f F E S clients = fences_at R f F E S clients"
proof -
  have "hasDescendantKeyEpochTransition R' f cs = hasDescendantKeyEpochTransition R f cs" for cs
    using stable_events(7,8)[OF s]
    by (auto simp: hasDescendantKeyEpochTransition_def stable_events[OF s] list_ex_iff list_all_iff)
  then show ?thesis
    unfolding fences_at_def conflict_fences_def discharged_def stable_events[OF s] by simp
qed

lemma stable_state:
  assumes s: "stable_at R e R' f"
  shows "stateAt P R' f = stateAt P R f"
proof -
  have "computed_state P R' f = computed_state P R f"
    unfolding computed_state_def stable_settlement[OF s] stable_membership(1)[OF s] stable_invitations[OF s]
      stable_credentials[OF s] stable_epochs[OF s] stable_slots[OF s] stable_features[OF s] stable_fences[OF s]
    by (intro and_then_cong refl) (simp add: stable_administrators[OF s stable_membership(2)[OF s]])
  moreover have "list_ex (\<lambda>i. \<not> has_record (ar_graph R') i) f = list_ex (\<lambda>i. \<not> has_record (ar_graph R) i) f"
    using s grows_included(2)[of R e R'] by (auto simp: list_ex_iff stable_at_def)
  ultimately show ?thesis by (simp add: stateAt_def stable_events[OF s])
qed

text \<open>A step keeps the states at the frontiers known before.\<close>

lemma replay_step_stable:
  assumes "reachable_replay P R" "replay_step P R R'" "list_all (hasRecord R) f"
  shows "stateAt P R' f = stateAt P R f" "list_all (hasRecord R') f"
proof -
  note inv = reachable_inv[OF assms(1)]
  obtain e where e: "\<not> has_record (ar_graph R) (ev_recordId e)" "validateAndAccept P R e = ok R'"
    using assms(2) by cases
  consider "grows R e R'" | "R' = R" using accepted_grows[OF e(2) _ e(1)] inv by (auto simp: replay_inv_def)
  then have "stateAt P R' f = stateAt P R f \<and> list_all (hasRecord R') f"
  proof cases
    case 1
    then show ?thesis
      using stable_state[of R e R' f] grows_included(2)[OF 1] inv assms(3)
      by (auto simp: stable_at_def list_all_iff hasRecord_def)
  qed (use assms(3) in simp)
  then show "stateAt P R' f = stateAt P R f" "list_all (hasRecord R') f" by simp_all
qed

lemma reachable_steps:
  assumes "(replay_step P)\<^sup>*\<^sup>* R R'" "reachable_replay P R"
  shows "reachable_replay P R'"
  using assms by (induction rule: rtranclp_induct) (auto intro: reachable_replay.step)

end
