(* ===== verification/Authority_Invariants.thy ===== *)
theory Authority_Invariants
  imports Authority_Laws
begin

text \<open>
  The coherence of an Authority State (Administrators, Clients and Recovery Credentials belong to active Members,
  and somebody can administer a Vault that is not deleted), and its preservation by every operation that changes
  the state.
\<close>

section \<open>Coherent states\<close>

definition coherent :: "authority_state \<Rightarrow> bool" where
  "coherent st \<longleftrightarrow>
     set (administratorIds st) \<subseteq> set (activeMemberIds st) \<and>
     (\<forall>(k, c) \<in> set (clientCredentials st). cl_active c \<longrightarrow> cl_memberId c \<in> set (activeMemberIds st)) \<and>
     (\<forall>r \<in> set (recoveryCredentials st). rv_effective r \<longrightarrow> rv_memberId r \<in> set (activeMemberIds st)) \<and>
     (lifecycle st \<noteq> 2 \<longrightarrow> administratorIds st \<noteq> [] \<or> administratorConflicts st \<noteq> [])"

lemma set_mapSet: "set (mapSet m k v) \<subseteq> insert (k, v) (set m)"
  by (induction m) auto

lemma set_delete: "set (AList.delete k m) \<subseteq> set m"
  by (auto simp: AList.delete_eq)

text \<open>A map from the key of a Member to the Member.\<close>

definition member_map :: "(string, bytes) jmap \<Rightarrow> bool" where
  "member_map m \<longleftrightarrow> (\<forall>(k, i) \<in> set m. k = key i)"

lemma member_map_has: "member_map m \<Longrightarrow> mapHas m (key i) \<Longrightarrow> i \<in> set (mapValues m)"
  by (force simp: member_map_def mapHas_iff dest!: map_of_SomeD)

lemma member_map_set: "member_map m \<Longrightarrow> member_map (mapSet m (key i) i)"
  using set_mapSet[of "key i" i m] by (auto simp: member_map_def)

lemma member_map_delete: "member_map m \<Longrightarrow> member_map (AList.delete k m)"
  using set_delete by (fastforce simp: member_map_def)

lemma membership_member_map:
  assumes "membership_at R effective f = ok M"
  shows "member_map (mb_activeMembers M)"
proof (rule foldM_invariant[OF assms[unfolded membership_at_def]])
  show "member_map (mb_activeMembers (anchor_membership R))"
    using mapFrom_subset by (fastforce simp: anchor_membership_def member_map_def Let_def)
next
  fix x M M' assume "member_map (mb_activeMembers M)" "membership_step R effective M x = ok M'"
  then show "member_map (mb_activeMembers M')"
    by (auto simp: membership_step_def admit_member_def and_then_eq_Inr Let_def member_map_set member_map_delete
        split: if_splits)
qed

lemma administrators_active:
  assumes "administrators_of R M = ok (ids, conflicts)" "member_map (mb_activeMembers M)"
  shows "set ids \<subseteq> set (mapValues (mb_activeMembers M))"
proof -
  obtain ids' conflicts' where i: "foldM (administrator_step R (mb_activeMembers M)) ([], [])
      (mapValues (group_by (\<lambda>f. key (adt_memberId f)) (mb_administratorFacts M))) = ok (ids', conflicts')"
    "ids = sort_by compareBytes ids'"
    using assms(1) by (auto simp: administrators_of_def and_then_eq_Inr)
  have step: "set (fst r') \<subseteq> set (mapValues (mb_activeMembers M))"
    if r: "set (fst r) \<subseteq> set (mapValues (mb_activeMembers M))"
      and step: "administrator_step R (mb_activeMembers M) r facts = ok r'" for r r' facts
  proof (cases facts)
    case Nil
    then show ?thesis using r step by (simp add: administrator_step_def)
  next
    case (Cons first rest)
    then have "fst r' = fst r \<or>
        mapHas (mb_activeMembers M) (key (adt_memberId first)) \<and> fst r' = fst r @ [adt_memberId first]"
      using step by (cases r) (auto simp: administrator_step_def and_then_eq_Inr Let_def split: if_splits)
    then show ?thesis using r member_map_has[OF assms(2)] by auto
  qed
  have "set (fst (ids', conflicts')) \<subseteq> set (mapValues (mb_activeMembers M))"
    by (rule foldM_invariant[OF i(1)]) (simp, rule step)
  then show ?thesis by (simp add: i(2))
qed

section \<open>Credentials\<close>

text \<open>The Credentials of a ledger that are active belong to active Members and were not ended.\<close>

definition ledger_inv :: "(string, bytes) jmap \<Rightarrow> string list \<Rightarrow> credential_ledger \<Rightarrow> bool" where
  "ledger_inv active ended L \<longleftrightarrow>
     (\<forall>(k, c) \<in> set (lg_clientCredentials L).
        cl_active c \<longrightarrow> k \<notin> set ended \<and> mapHas active (key (cl_memberId c)))"

lemma ledger_inv_replaced [simp]:
  "ledger_inv active ended (L\<lparr>lg_replacedRecoveryCredentialIds := ids\<rparr>) \<longleftrightarrow> ledger_inv active ended L"
  by (simp add: ledger_inv_def)

lemma ledger_inv_client:
  assumes "add_client active ended c eligible L = ok L'" "ledger_inv active ended L"
  shows "ledger_inv active ended L'"
proof -
  let ?k = "key (cl_clientCredentialId c)" and ?m = "lg_clientCredentials L"
  have k: "ledger_inv active ended (L\<lparr>lg_clientCredentials := mapSet ?m ?k x\<rparr>)"
    if "cl_active x \<Longrightarrow> ?k \<notin> set ended \<and> mapHas active (key (cl_memberId x))" for x
    using assms(2) set_mapSet[of ?k x ?m] that by (fastforce simp: ledger_inv_def)
  obtain m where m: "addClientCredential active ended c eligible ?m = ok m" "L' = L\<lparr>lg_clientCredentials := m\<rparr>"
    using assms(1) by (auto simp: add_client_def and_then_eq_Inr)
  then have "m = ?m \<or> (\<exists>x. m = mapSet ?m ?k x \<and>
      (cl_active x \<longrightarrow> ?k \<notin> set ended \<and> mapHas active (key (cl_memberId x))))"
    by (auto simp: addClientCredential_def with_active_def Let_def split: option.splits if_splits)
  then show ?thesis using assms(2) k by (auto simp: m(2))
qed

lemma ledger_inv_recovery:
  assumes "addRecoveryCredential c i L = ok L'" "ledger_inv active ended L"
  shows "ledger_inv active ended L'"
  using assms by (auto simp: addRecoveryCredential_def Let_def ledger_inv_def split: option.splits if_splits)

lemma credentials_inv:
  assumes "credentials_at R active f = ok L"
  obtains ended where "ended_credentials R f = ok ended" "ledger_inv active ended L"
proof -
  obtain ended causes L0 where e: "ended_credentials R f = ok ended"
    and L0: "anchor_ledger R active ended = ok L0"
    and L: "foldM (credential_step R active ended (dominated_enrollments R causes f)) L0 (authority_events_at R f) = ok L"
    using assms by (auto simp: credentials_at_def and_then_eq_Inr Let_def)
  obtain L1 where L1: "foldM (\<lambda>L c. add_client active ended c True L)
       \<lparr>lg_clientCredentials = [], lg_recoveryCandidates = [], lg_recoveryCauseIds = [],
        lg_replacedRecoveryCredentialIds = []\<rparr> (mapValues (clientCredentials (ar_anchorState R))) = ok L1"
    "foldM (\<lambda>L c. addRecoveryCredential (anchor_recovery c)
       (anchor_recovery_cause R (rv_recoveryCredentialId c)) L) L1 (recoveryCredentials (ar_anchorState R)) = ok L0"
    using L0 by (auto simp: anchor_ledger_def and_then_eq_Inr)
  have "ledger_inv active ended L1"
    by (rule foldM_invariant[OF L1(1)]) (simp add: ledger_inv_def, rule ledger_inv_client)
  then have "ledger_inv active ended L0"
    by (rule foldM_invariant[OF L1(2)]) (rule ledger_inv_recovery)
  then have "ledger_inv active ended L"
  proof (rule foldM_invariant[OF L])
    fix x L L' assume "ledger_inv active ended L" "credential_step R active ended (dominated_enrollments R causes f) L x = ok L'"
    then show "ledger_inv active ended L'"
      by (auto simp: credential_step_def and_then_eq_Inr split: if_splits dest: ledger_inv_client ledger_inv_recovery)
  qed
  then show thesis using that e by blast
qed

section \<open>Every state is coherent\<close>

lemma computed_state_ok:
  assumes "computed_state P R f = ok st"
  shows "\<exists>S M L E. settled_invitations R f = ok S \<and> membership_at R (se_effectiveAcceptances S) f = ok M \<and>
    administrators_of R M = ok (administratorIds st, administratorConflicts st) \<and>
    credentials_at R (mb_activeMembers M) f = ok L \<and> epochs_at R f = ok E \<and>
    activeMemberIds st = sort_by compareBytes (mapValues (mb_activeMembers M)) \<and>
    clientCredentials st = lg_clientCredentials L \<and>
    set (recoveryCredentials st) = set (recovery_credentials_of (mb_activeMembers M) L) \<and>
    keyEpochs st = key_epochs_of E \<and> keyEpochConflicts st = epoch_conflicts_of E \<and>
    (lifecycle st \<noteq> 2 \<longrightarrow> administratorIds st \<noteq> [] \<or> administratorConflicts st \<noteq> [])"
  using assms unfolding computed_state_def and_then_eq_Inr Let_def
  by (elim exE conjE, split prod.splits) (auto simp: and_then_eq_Inr)

lemma computed_coherent:
  assumes "computed_state P R f = ok st"
  shows "coherent st"
proof -
  obtain S :: settlement and M L where M: "membership_at R (se_effectiveAcceptances S) f = ok M"
    and a: "administrators_of R M = ok (administratorIds st, administratorConflicts st)"
    and c: "credentials_at R (mb_activeMembers M) f = ok L"
    and s: "activeMemberIds st = sort_by compareBytes (mapValues (mb_activeMembers M))"
    "clientCredentials st = lg_clientCredentials L"
    "set (recoveryCredentials st) = set (recovery_credentials_of (mb_activeMembers M) L)"
    "lifecycle st \<noteq> 2 \<longrightarrow> administratorIds st \<noteq> [] \<or> administratorConflicts st \<noteq> []"
    using computed_state_ok[OF assms] by blast
  note m = membership_member_map[OF M]
  obtain ended where "ledger_inv (mb_activeMembers M) ended L" by (rule credentials_inv[OF c])
  then have "\<forall>(k, c) \<in> set (clientCredentials st). cl_active c \<longrightarrow> cl_memberId c \<in> set (activeMemberIds st)"
    using member_map_has[OF m] by (auto simp: ledger_inv_def s(1,2))
  moreover have "\<forall>r \<in> set (recoveryCredentials st). rv_effective r \<longrightarrow> rv_memberId r \<in> set (activeMemberIds st)"
    using member_map_has[OF m] by (auto simp: s(1,3) recovery_credentials_of_def with_effective_def)
  ultimately show ?thesis
    using administrators_active[OF a m] s(4) unfolding coherent_def by (simp add: s(1))
qed

lemma traverse_member: "traverse f xs = ok ys \<Longrightarrow> x \<in> set xs \<Longrightarrow> \<exists>y \<in> set ys. f x = ok y"
  by (induction xs arbitrary: ys) (auto simp: and_then_eq_Inr)

lemma stateAt_coherent:
  assumes "stateAt P R f = ok st" "coherent (ar_anchorState R)"
  shows "coherent st"
  using assms computed_coherent by (auto simp: stateAt_def split: if_splits)

text \<open>A Credential ended below a frontier is inactive at the frontier.\<close>

lemma ended_inactive:
  assumes st: "stateAt P R f = ok st" and x: "x \<in> set (authority_events_at R f)" "ev_type x = 10"
    and t: "target_credential x = ok i" and c: "mapGet (clientCredentials st) (key i) = Some c"
  shows "\<not> cl_active c"
proof -
  have "x \<in> set (events_at R f)" "ev_family x = 1" using x(1) by (auto simp: authority_events_at_def)
  then have "computed_state P R f = ok st"
    using st by (auto simp: stateAt_def list_ex_iff split: if_splits)
  then obtain M :: membership and L where L: "credentials_at R (mb_activeMembers M) f = ok L" "clientCredentials st = lg_clientCredentials L"
    using computed_state_ok by blast
  obtain ended where ended: "ended_credentials R f = ok ended" "ledger_inv (mb_activeMembers M) ended L"
    by (rule credentials_inv[OF L(1)])
  have "key i \<in> set ended"
    using traverse_member[OF ended(1)[unfolded ended_credentials_def], of x] x t by simp
  then show ?thesis using map_of_SomeD[OF c] ended(2) L(2) by (auto simp: ledger_inv_def)
qed

end
