(* ===== verification/Authority_Epochs.thy ===== *)
theory Authority_Epochs
  imports Authority_Invariants
begin

text \<open>
  The ledger of Key Epoch transitions a replay keeps: which transitions the accepted Events carry, and when they
  determine one current Key Epoch.
\<close>

section \<open>The ledger of Key Epochs\<close>

definition transition_fact :: "authority_replay \<Rightarrow> authenticated_event \<Rightarrow> epoch_transition \<Rightarrow> bool" where
  "transition_fact R x t \<longleftrightarrow> mapGet (ar_keyEpochTransitions R) (key (ev_recordId x)) = Some t"

definition transitions_in :: "authority_replay \<Rightarrow> authenticated_event list \<Rightarrow> epoch_transition set" where
  "transitions_in R xs = {t. \<exists>x \<in> set xs. transition_fact R x t}"

definition epochs_keyed :: "epoch_ledger \<Rightarrow> bool" where
  "epochs_keyed L \<longleftrightarrow> distinct (mapKeys (el_candidates L)) \<and> (\<forall>(k, e, c) \<in> set (el_candidates L). k = key (ke_keyEpochId e))"

lemma mapHas_keys: "mapHas m k \<longleftrightarrow> k \<in> set (mapKeys m)"
  by (simp add: mapHas_def)

lemma epoch_step_ok:
  "epoch_step R L x = ok L' \<longleftrightarrow> (\<exists>t. transition_fact R x t \<and> \<not> mapHas (el_candidates L) (key (kt_keyEpochId t)) \<and>
     L' = \<lparr>el_candidates = el_candidates L @ [(key (kt_keyEpochId t),
         \<lparr>ke_keyEpochId = kt_keyEpochId t, ke_displayNumber = kt_displayNumber t\<rparr>, ev_recordId x)],
       el_replaced = el_replaced L @ map key (kt_parentKeyEpochIds t)\<rparr>)"
  by (auto simp: epoch_step_def fact_of_def transition_fact_def and_then_eq_Inr mapSet_fresh split: option.splits)

lemma epoch_steps:
  assumes "foldM (epoch_step R) L xs = ok L'" "epochs_keyed L"
  shows "epochs_keyed L' \<and>
    set (mapKeys (el_candidates L')) = set (mapKeys (el_candidates L)) \<union> (\<lambda>t. key (kt_keyEpochId t)) ` transitions_in R xs \<and>
    set (el_replaced L') = set (el_replaced L) \<union> (\<Union>t \<in> transitions_in R xs. key ` set (kt_parentKeyEpochIds t))"
  using assms
proof (induction xs arbitrary: L)
  case (Cons x xs)
  obtain L1 where L1: "epoch_step R L x = ok L1" "foldM (epoch_step R) L1 xs = ok L'"
    using Cons.prems(1) by (auto simp: and_then_eq_Inr)
  obtain t where t: "transition_fact R x t" "\<not> mapHas (el_candidates L) (key (kt_keyEpochId t))"
    "L1 = \<lparr>el_candidates = el_candidates L @ [(key (kt_keyEpochId t),
         \<lparr>ke_keyEpochId = kt_keyEpochId t, ke_displayNumber = kt_displayNumber t\<rparr>, ev_recordId x)],
       el_replaced = el_replaced L @ map key (kt_parentKeyEpochIds t)\<rparr>"
    using L1(1) unfolding epoch_step_ok by blast
  have k: "epochs_keyed L1" using Cons.prems(2) t(2) by (auto simp: epochs_keyed_def t(3) mapHas_keys)
  have "transitions_in R (x # xs) = insert t (transitions_in R xs)"
    using t(1) by (auto simp: transitions_in_def transition_fact_def)
  then show ?case using Cons.IH[OF L1(2) k] by (auto simp: t(3))
qed (simp add: transitions_in_def)

lemma anchor_epochs_keyed: "epochs_keyed (anchor_epochs R)"
  using mapFrom_subset
  by (fastforce simp: epochs_keyed_def anchor_epochs_def mapFrom_distinct)

lemma anchor_epochs_known:
  "set (mapKeys (el_candidates (anchor_epochs R))) = (\<lambda>e. key (ke_keyEpochId e)) ` set (keyEpochs (ar_anchorState R))"
  unfolding anchor_epochs_def epoch_ledger.simps mapFrom_keys by (simp add: image_image)

definition transitions_at :: "authority_replay \<Rightarrow> bytes list \<Rightarrow> epoch_transition set" where
  "transitions_at R f = transitions_in R (filter (\<lambda>e. ev_type e = 12) (authority_events_at R f))"

lemma epochs_at_ok:
  assumes "epochs_at R f = ok E"
  shows "epochs_keyed E"
    "set (mapKeys (el_candidates E)) = (\<lambda>e. key (ke_keyEpochId e)) ` set (keyEpochs (ar_anchorState R)) \<union>
       (\<lambda>t. key (kt_keyEpochId t)) ` transitions_at R f"
    "set (el_replaced E) \<subseteq> (\<lambda>e. key (ke_keyEpochId e)) ` set (keyEpochs (ar_anchorState R)) \<union>
       (\<Union>t \<in> transitions_at R f. key ` set (kt_parentKeyEpochIds t))"
  using epoch_steps[OF assms[unfolded epochs_at_def] anchor_epochs_keyed]
  by (auto simp: anchor_epochs_known transitions_at_def simp del: set_map) (auto simp: anchor_epochs_def)

section \<open>The Key Epochs of a state\<close>

definition epoch_view :: "authority_key_epoch list \<Rightarrow> epoch_ledger \<Rightarrow> bool" where
  "epoch_view es E \<longleftrightarrow> distinct (map ke_keyEpochId es) \<and>
     (\<lambda>e. key (ke_keyEpochId e)) ` set es = set (mapKeys (el_candidates E)) \<and>
     (\<forall>e \<in> set es. ke_current e \<longleftrightarrow> key (ke_keyEpochId e) \<notin> set (el_replaced E))"

lemma key_epochs_view:
  assumes "epochs_keyed E"
  shows "epoch_view (key_epochs_of E) E"
proof -
  let ?f = "\<lambda>(e :: key_epoch, c :: bytes). \<lparr>ke_keyEpochId = ke_keyEpochId e, ke_displayNumber = ke_displayNumber e,
           ke_current = (key (ke_keyEpochId e) \<notin> set (el_replaced E))\<rparr>"
  have ids: "map (\<lambda>e. key (ke_keyEpochId e)) (map ?f (mapValues m)) = mapKeys m"
    if "\<forall>(k, e, c) \<in> set m. k = key (ke_keyEpochId e)" for m :: "(string, key_epoch \<times> bytes) jmap"
    using that by (induction m) auto
  have "mapKeys (el_candidates E) = map (\<lambda>e. key (ke_keyEpochId e)) (map ?f (mapValues (el_candidates E)))"
    using assms by (intro ids[symmetric]) (simp add: epochs_keyed_def)
  moreover have "distinct (mapKeys (el_candidates E))" using assms by (simp add: epochs_keyed_def)
  ultimately have d: "distinct (map (\<lambda>e. key (ke_keyEpochId e)) (map ?f (mapValues (el_candidates E))))"
    and s: "set (mapKeys (el_candidates E)) = (\<lambda>e. key (ke_keyEpochId e)) ` set (map ?f (mapValues (el_candidates E)))"
    by (metis, metis list.set_map)
  have "mset (map ke_keyEpochId (key_epochs_of E)) = mset (map ke_keyEpochId (map ?f (mapValues (el_candidates E))))"
    unfolding key_epochs_of_def by (simp only: mset_map mset_sort_by)
  moreover have "distinct (map ke_keyEpochId (map ?f (mapValues (el_candidates E))))"
    using d unfolding distinct_map by (auto simp: inj_on_def)
  ultimately have "distinct (map ke_keyEpochId (key_epochs_of E))" using mset_eq_imp_distinct_iff by blast
  then show ?thesis
    using s unfolding epoch_view_def key_epochs_of_def by auto
qed

lemma anchor_view:
  assumes "distinct (map ke_keyEpochId (keyEpochs (ar_anchorState R)))"
  shows "epoch_view (keyEpochs (ar_anchorState R)) (anchor_epochs R)"
proof -
  have "ke_current e \<longleftrightarrow> key (ke_keyEpochId e) \<notin> set (el_replaced (anchor_epochs R))"
    if "e \<in> set (keyEpochs (ar_anchorState R))" for e
    using assms that by (auto simp: anchor_epochs_def distinct_map inj_on_def)
  then show ?thesis using assms unfolding epoch_view_def anchor_epochs_known by blast
qed

lemma state_epochs:
  assumes st: "stateAt P R f = ok st" and d: "distinct (map ke_keyEpochId (keyEpochs (ar_anchorState R)))"
  shows "\<exists>E. epochs_at R f = ok E \<and> epochs_keyed E \<and> epoch_view (keyEpochs st) E"
proof (cases "list_ex (\<lambda>e. ev_family e = 1 \<or> ev_family e = 3) (events_at R f)")
  case True
  then have "computed_state P R f = ok st" using st by (auto simp: stateAt_def split: if_splits)
  then obtain E where "epochs_at R f = ok E" "keyEpochs st = key_epochs_of E" using computed_state_ok by blast
  then show ?thesis using epochs_at_ok(1) key_epochs_view by auto
next
  case False
  then have "st = ar_anchorState R" "authority_events_at R f = []"
    using st by (auto simp: stateAt_def authority_events_at_def list_ex_iff filter_empty_conv split: if_splits)
  then show ?thesis using anchor_view[OF d] anchor_epochs_keyed by (auto simp: epochs_at_def)
qed

section \<open>A transition has one successor\<close>

lemma sameIdSet_set:
  assumes "sameIdSet xs ys" "distinct ys"
  shows "set xs = set ys"
proof -
  have "set ys \<subseteq> set xs" "length xs = length ys"
    using assms(1) by (auto simp: sameIdSet_def list_all_iff split: if_splits)
  moreover have "card (set xs) \<le> card (set ys)"
    using card_length[of xs] distinct_card[OF assms(2)] calculation(2) by simp
  ultimately show ?thesis using card_seteq[of "set xs" "set ys"] by simp
qed

text \<open>What the checks of an accepted Key Epoch Transition establish.\<close>

lemma accepted_transition:
  assumes "validateAndAccept P R e = ok R'" "ev_family e = 1" "ev_type e = 12"
  shows "\<exists>st t. stateAt P R (cx_authorityParentRecordIds e) = ok st \<and> parseKeyEpochTransition P e = ok t \<and>
    transition_fact R' e t \<and>
    sameIdSet (kt_parentKeyEpochIds t) (map ke_keyEpochId (filter ke_current (keyEpochs st))) \<and>
    (\<forall>x \<in> set (keyEpochs st). ke_keyEpochId x \<noteq> kt_keyEpochId t)"
proof -
  obtain st enrollment signer R1 where st: "stateAt P R (cx_authorityParentRecordIds e) = ok st"
    and R1: "accept_authority P R st signer enrollment e = ok R1" "acceptAuthorityNode R1 e = ok R'"
    using validateAndAccept_steps[OF assms(1)] assms(2) by (metis (no_types, lifting))
  have "accept_transition P R st signer e = ok R1" using R1(1) assms(3) by (simp add: accept_authority_def)
  then obtain t where t: "parseKeyEpochTransition P e = ok t"
    "sameIdSet (kt_parentKeyEpochIds t) (map ke_keyEpochId (filter ke_current (keyEpochs st)))"
    "\<not> list_ex (\<lambda>x. ke_keyEpochId x = kt_keyEpochId t) (keyEpochs st)"
    "R1 = R\<lparr>ar_keyEpochTransitions := mapSet (ar_keyEpochTransitions R) (key (ev_recordId e)) t\<rparr>"
    by (auto simp: accept_transition_def and_then_eq_Inr Let_def)
  then have "transition_fact R' e t"
    using R1(2) by (auto simp: acceptAuthorityNode_def and_then_eq_Inr transition_fact_def update_conv')
  then show ?thesis using st t by (auto simp: list_ex_iff)
qed

text \<open>Every Epoch a Transition replaces is one of the anchor or of a Transition below it.\<close>

definition epochs_closed :: "authority_replay \<Rightarrow> bool" where
  "epochs_closed R \<longleftrightarrow>
     (\<forall>x t p. x \<in> set (ar_events R) \<longrightarrow> ev_family x = 1 \<longrightarrow> ev_type x = 12 \<longrightarrow> transition_fact R x t \<longrightarrow>
        p \<in> set (kt_parentKeyEpochIds t) \<longrightarrow>
        p \<in> ke_keyEpochId ` set (keyEpochs (ar_anchorState R)) \<or>
        (\<exists>y s. y \<in> set (ar_events R) \<and> ev_family y = 1 \<and> ev_type y = 12 \<and> transition_fact R y s \<and>
           p = kt_keyEpochId s \<and> isAncestor (ar_graph R) (ev_recordId y) (ev_recordId x)))"

lemma transitions_at_iff:
  "t \<in> transitions_at R f \<longleftrightarrow>
     (\<exists>x \<in> set (ar_events R). isIncluded R (ev_recordId x) f \<and> ev_family x = 1 \<and> ev_type x = 12 \<and> transition_fact R x t)"
  by (auto simp: transitions_at_def transitions_in_def authority_events_at_def events_at_def)

lemma included_trans:
  assumes "closed_graph (ar_graph R)" "isAncestor (ar_graph R) y x" "isIncluded R x f"
  shows "isIncluded R y f"
  using assms closed_ancestor[OF assms(1)] unfolding isIncluded_def list_ex_iff
  by (metis bytesEqual_iff trancl_trans)

lemma replaced_known:
  assumes "replay_inv R" "epochs_closed R" "epochs_at R f = ok E"
  shows "set (el_replaced E) \<subseteq> set (mapKeys (el_candidates E))"
proof
  fix k assume "k \<in> set (el_replaced E)"
  then consider "k \<in> (\<lambda>e. key (ke_keyEpochId e)) ` set (keyEpochs (ar_anchorState R))"
    | t p where "t \<in> transitions_at R f" "p \<in> set (kt_parentKeyEpochIds t)" "k = key p"
    using epochs_at_ok(3)[OF assms(3)] by blast
  then show "k \<in> set (mapKeys (el_candidates E))"
  proof cases
    case 1
    then show ?thesis using epochs_at_ok(2)[OF assms(3)] by blast
  next
    case 2
    then obtain x where x: "x \<in> set (ar_events R)" "isIncluded R (ev_recordId x) f" "ev_family x = 1"
      "ev_type x = 12" "transition_fact R x t" by (auto simp: transitions_at_iff)
    then consider "p \<in> ke_keyEpochId ` set (keyEpochs (ar_anchorState R))"
      | y s where "y \<in> set (ar_events R)" "ev_family y = 1" "ev_type y = 12" "transition_fact R y s"
        "p = kt_keyEpochId s" "isAncestor (ar_graph R) (ev_recordId y) (ev_recordId x)"
      using assms(2) 2(2) unfolding epochs_closed_def by blast
    then show ?thesis
    proof cases
      case 1
      then show ?thesis using epochs_at_ok(2)[OF assms(3)] 2(3) by blast
    next
      case (2 y s)
      then have "s \<in> transitions_at R f"
        using included_trans[of R _ _ f] x(2) assms(1) unfolding transitions_at_iff replay_inv_def by blast
      then show ?thesis using epochs_at_ok(2)[OF assms(3)] 2(5) \<open>k = key p\<close> by blast
    qed
  qed
qed

lemma grows_transition_fact:
  assumes "grows R e R'" "has_record (ar_graph R) (ev_recordId x)"
  shows "transition_fact R' x t \<longleftrightarrow> transition_fact R x t"
proof -
  have "key (ev_recordId x) \<noteq> key (ev_recordId e)" "same_facts (key (ev_recordId e)) R R'"
    using assms by (auto simp: grows_def)
  then show ?thesis by (simp add: transition_fact_def same_facts_def)
qed

lemma grows_frontier:
  assumes "grows R e R'" "replay_inv R"
  shows "events_at R' [ev_recordId e] = events_at R (cx_authorityParentRecordIds e) @ [e]"
proof -
  have "ar_events R' = ar_events R @ [e]" "\<forall>x \<in> set (ar_events R). ev_recordId x \<noteq> ev_recordId e"
    using assms by (auto simp: grows_def replay_inv_def)
  then show ?thesis
    using grows_included(5)[OF assms(1)] by (auto simp: events_at_def intro!: filter_cong)
qed

lemma transition_closed:
  assumes inv: "replay_inv R" and g: "grows R e R'" and "validateAndAccept P R e = ok R'"
    and "ev_family e = 1" "ev_type e = 12" and d: "distinct (map ke_keyEpochId (keyEpochs (ar_anchorState R)))"
    and t: "transition_fact R' e t" and p: "p \<in> set (kt_parentKeyEpochIds t)"
  shows "p \<in> ke_keyEpochId ` set (keyEpochs (ar_anchorState R)) \<or>
    (\<exists>y s. y \<in> set (ar_events R) \<and> ev_family y = 1 \<and> ev_type y = 12 \<and> transition_fact R y s \<and>
       p = kt_keyEpochId s \<and> isAncestor (ar_graph R') (ev_recordId y) (ev_recordId e))"
proof -
  let ?f = "cx_authorityParentRecordIds e"
  obtain st where st: "stateAt P R ?f = ok st"
    and same: "sameIdSet (kt_parentKeyEpochIds t) (map ke_keyEpochId (filter ke_current (keyEpochs st)))"
    using accepted_transition[OF assms(3-5)] t by (auto simp: transition_fact_def)
  obtain E where E: "epochs_at R ?f = ok E" "epoch_view (keyEpochs st) E" using state_epochs[OF st d] by blast
  then have "distinct (map ke_keyEpochId (filter ke_current (keyEpochs st)))"
    by (auto simp: epoch_view_def distinct_map inj_on_def)
  then have "p \<in> ke_keyEpochId ` set (keyEpochs st)" using sameIdSet_set[OF same] p by auto
  then have "key p \<in> set (mapKeys (el_candidates E))" using E(2) unfolding epoch_view_def by blast
  then consider "p \<in> ke_keyEpochId ` set (keyEpochs (ar_anchorState R))"
    | s where "s \<in> transitions_at R ?f" "p = kt_keyEpochId s"
    using epochs_at_ok(2)[OF E(1)] by auto
  then show ?thesis
  proof cases
    case (2 s)
    then obtain y where y: "y \<in> set (ar_events R)" "isIncluded R (ev_recordId y) ?f" "ev_family y = 1"
      "ev_type y = 12" "transition_fact R y s" by (auto simp: transitions_at_iff)
    have "ev_recordId y \<noteq> ev_recordId e" using inv g y(1) by (auto simp: grows_def replay_inv_def)
    moreover have "isIncluded R' (ev_recordId y) [ev_recordId e]" using y(2) grows_included(5)[OF g] by blast
    ultimately have "isAncestor (ar_graph R') (ev_recordId y) (ev_recordId e)" by (auto simp: isIncluded_def)
    then show ?thesis using y 2(2) by blast
  qed blast
qed

lemma grows_epochs_closed:
  assumes inv: "replay_inv R" and c: "epochs_closed R" and g: "grows R e R'" and a: "validateAndAccept P R e = ok R'"
    and d: "distinct (map ke_keyEpochId (keyEpochs (ar_anchorState R)))"
  shows "epochs_closed R'"
  unfolding epochs_closed_def
proof (intro allI impI)
  fix x t p assume x: "x \<in> set (ar_events R')" "ev_family x = 1" "ev_type x = 12" "transition_fact R' x t"
    and p: "p \<in> set (kt_parentKeyEpochIds t)"
  have events: "ar_events R' = ar_events R @ [e]" and anchor: "ar_anchorState R' = ar_anchorState R"
    using g by (auto simp: grows_def same_facts_def)
  have known: "has_record (ar_graph R) (ev_recordId y)" if "y \<in> set (ar_events R)" for y
    using inv that by (simp add: replay_inv_def)
  let ?from = "\<lambda>z. p \<in> ke_keyEpochId ` set (keyEpochs (ar_anchorState R)) \<or>
        (\<exists>y s. y \<in> set (ar_events R) \<and> ev_family y = 1 \<and> ev_type y = 12 \<and> transition_fact R y s \<and>
           p = kt_keyEpochId s \<and> isAncestor (ar_graph R') (ev_recordId y) (ev_recordId z))"
  have "?from x"
  proof (cases "x \<in> set (ar_events R)")
    case True
    then show ?thesis
      using c x p grows_transition_fact[OF g known[OF True]] grows_included(1)[OF g known[OF True]]
      unfolding epochs_closed_def by blast
  next
    case False
    then have "x = e" using x(1) events by simp
    then show ?thesis using transition_closed[OF inv g a _ _ d] x p by blast
  qed
  then show "p \<in> ke_keyEpochId ` set (keyEpochs (ar_anchorState R')) \<or>
        (\<exists>y s. y \<in> set (ar_events R') \<and> ev_family y = 1 \<and> ev_type y = 12 \<and> transition_fact R' y s \<and>
           p = kt_keyEpochId s \<and> isAncestor (ar_graph R') (ev_recordId y) (ev_recordId x))"
    using grows_transition_fact[OF g known] unfolding events anchor set_append by blast
qed

lemma reachable_epochs_closed:
  assumes "reachable_replay P R" "distinct (map ke_keyEpochId (keyEpochs (ar_anchorState R)))"
  shows "epochs_closed R"
  using assms
proof (induction rule: reachable_replay.induct)
  case (start genesis anchorId anchorState supported R)
  then show ?case by (auto simp: epochs_closed_def new_replay_def and_then_eq_Inr Let_def)
next
  case (step R R')
  note inv = reachable_inv[OF step.hyps(1)]
  from step.hyps(2) show ?case
  proof cases
    case (accepted e)
    have "closed_graph (ar_graph R)" using inv by (simp add: replay_inv_def)
    from accepted_grows[OF accepted(2) this accepted(1)] show ?thesis
    proof
      assume g: "grows R e R' \<and> recorded R' e"
      then have "ar_anchorState R' = ar_anchorState R" by (auto simp: grows_def same_facts_def)
      then show ?thesis using grows_epochs_closed[OF inv _ _ accepted(2)] g step.IH step.prems by simp
    qed (use step in auto)
  qed
qed

lemma replaced_filter:
  assumes "\<forall>(k, e, c) \<in> set m. k = key (ke_keyEpochId e)" "set (mapKeys m) \<subseteq> set r"
  shows "filter (\<lambda>(e, c). key (ke_keyEpochId e) \<notin> set r) (mapValues m) = []"
  using assms by (fastforce simp: filter_empty_conv)

lemma one_current:
  assumes "filter (\<lambda>(e, c). key (ke_keyEpochId e) \<notin> set (el_replaced L)) (mapValues (el_candidates L)) = [(e, c)]"
  shows "filter ke_current (key_epochs_of L) =
      [\<lparr>ke_keyEpochId = ke_keyEpochId e, ke_displayNumber = ke_displayNumber e, ke_current = True\<rparr>]"
    "epoch_conflicts_of L = []"
proof -
  let ?f = "\<lambda>(e :: key_epoch, c :: bytes). \<lparr>ke_keyEpochId = ke_keyEpochId e, ke_displayNumber = ke_displayNumber e,
           ke_current = (key (ke_keyEpochId e) \<notin> set (el_replaced L))\<rparr>"
  have current: "key (ke_keyEpochId e) \<notin> set (el_replaced L)"
    using filter_eq_ConsD[OF assms] by auto
  have "filter ke_current (map ?f vs) = map ?f (filter (\<lambda>(e, c). key (ke_keyEpochId e) \<notin> set (el_replaced L)) vs)" for vs
    by (induction vs) auto
  then have "mset (filter ke_current (key_epochs_of L)) = {#?f (e, c)#}"
    unfolding key_epochs_of_def by (metis (no_types, lifting) assms list.simps(8,9) mset_filter mset_single_iff mset_sort_by)
  then have "filter ke_current (key_epochs_of L) = [?f (e, c)]" using mset_single_iff by blast
  then show "filter ke_current (key_epochs_of L) =
      [\<lparr>ke_keyEpochId = ke_keyEpochId e, ke_displayNumber = ke_displayNumber e, ke_current = True\<rparr>]"
    using current by simp
  show "epoch_conflicts_of L = []" unfolding epoch_conflicts_of_def Let_def assms by simp
qed

text \<open>The ledger of Key Epochs right after an accepted Transition.\<close>

lemma transition_ledger:
  assumes "reachable_replay P R" "\<not> hasRecord R (ev_recordId e)" "validateAndAccept P R e = ok R'"
    and "ev_family e = 1" "ev_type e = 12" "distinct (map ke_keyEpochId (keyEpochs (ar_anchorState R)))"
  shows "\<exists>t L. parseKeyEpochTransition P e = ok t \<and> epochs_at R' [ev_recordId e] = ok L \<and>
    e \<in> set (events_at R' [ev_recordId e]) \<and>
    filter (\<lambda>(e, c). key (ke_keyEpochId e) \<notin> set (el_replaced L)) (mapValues (el_candidates L)) =
      [(\<lparr>ke_keyEpochId = kt_keyEpochId t, ke_displayNumber = kt_displayNumber t\<rparr>, ev_recordId e)]"
proof -
  let ?f = "cx_authorityParentRecordIds e"
  note inv = reachable_inv[OF assms(1)]
  have g: "grows R e R'"
    using accepted_grows[OF assms(3)] inv assms(2,4) by (auto simp: replay_inv_def hasRecord_def)
  obtain st t where st: "stateAt P R ?f = ok st" and t: "parseKeyEpochTransition P e = ok t" "transition_fact R' e t"
    "sameIdSet (kt_parentKeyEpochIds t) (map ke_keyEpochId (filter ke_current (keyEpochs st)))"
    "\<forall>x \<in> set (keyEpochs st). ke_keyEpochId x \<noteq> kt_keyEpochId t"
    using accepted_transition[OF assms(3-5)] by blast
  obtain E where E: "epochs_at R ?f = ok E" "epochs_keyed E" "epoch_view (keyEpochs st) E"
    using state_epochs[OF st assms(6)] by blast
  have parents: "set (kt_parentKeyEpochIds t) = ke_keyEpochId ` {x \<in> set (keyEpochs st). ke_current x}"
    using sameIdSet_set[OF t(3)] E(3) by (auto simp: epoch_view_def distinct_map inj_on_def)
  have fresh: "key (kt_keyEpochId t) \<notin> set (mapKeys (el_candidates E))"
    using t(4) E(3) unfolding epoch_view_def by (metis (no_types, lifting) imageE key_inject)
  let ?E = "\<lparr>el_candidates = el_candidates E @ [(key (kt_keyEpochId t),
         \<lparr>ke_keyEpochId = kt_keyEpochId t, ke_displayNumber = kt_displayNumber t\<rparr>, ev_recordId e)],
       el_replaced = el_replaced E @ map key (kt_parentKeyEpochIds t)\<rparr>"
  have "epoch_step R' E e = ok ?E"
    unfolding epoch_step_ok using t(2) fresh by (intro exI[of _ t]) (auto simp: mapHas_keys)
  moreover have "epochs_at R' ?f = ok E"
    using stable_epochs[of R e R' ?f] E(1) g inv by (simp add: stable_at_def grows_def)
  moreover have "events_at R' ?f = events_at R ?f" using grows_events_at(1)[OF g] g by (simp add: grows_def)
  ultimately have E': "epochs_at R' [ev_recordId e] = ok ?E"
    by (simp add: epochs_at_def grows_frontier[OF g inv] authority_events_at_def assms(4,5) foldM_append)
  have replaced: "set (mapKeys (el_candidates E)) \<subseteq> set (el_replaced ?E)"
  proof
    fix k assume "k \<in> set (mapKeys (el_candidates E))"
    then obtain x where x: "x \<in> set (keyEpochs st)" "k = key (ke_keyEpochId x)"
      using E(3) unfolding epoch_view_def by blast
    then show "k \<in> set (el_replaced ?E)"
      using E(3) parents by (cases "ke_current x") (auto simp: epoch_view_def)
  qed
  have "key (kt_keyEpochId t) \<notin> set (el_replaced ?E)"
    using replaced_known[OF inv reachable_epochs_closed[OF assms(1,6)] E(1)] fresh parents t(4) by auto
  then have "filter (\<lambda>(e, c). key (ke_keyEpochId e) \<notin> set (el_replaced ?E)) (mapValues (el_candidates ?E)) =
      [(\<lparr>ke_keyEpochId = kt_keyEpochId t, ke_displayNumber = kt_displayNumber t\<rparr>, ev_recordId e)]"
    using replaced_filter[OF _ replaced] E(2) by (simp add: epochs_keyed_def)
  moreover have "e \<in> set (events_at R' [ev_recordId e])" by (simp add: grows_frontier[OF g inv])
  ultimately show ?thesis using t(1) E' by (intro exI[of _ t] exI[of _ ?E]) simp
qed

end
