(* ===== verification/Replay_Runs.thy ===== *)
theory Replay_Runs
  imports Authority_Invariants
begin

text \<open>
  Runs of the authority replay: a sequence of accepted Events with new identities is a path of \<open>replay_step\<close>,
  it keeps the anchor, and every Event it holds stays authorized by the states of the final replay.
\<close>

section \<open>Authorized Events\<close>

definition event_authorized :: "platform \<Rightarrow> authority_replay \<Rightarrow> authenticated_event \<Rightarrow> bool" where
  "event_authorized P R e \<longleftrightarrow>
     (\<exists>st signer. stateAt P R (cx_authorityParentRecordIds e) = ok st \<and>
       lifecycle st \<noteq> 2 \<and> featureSetConflict st = None \<and>
       cx_requiredFeatureSetId e = as_requiredFeatureSetId st \<and>
       verifyVaultEventSignature P e (cl_signingPublicKey signer) = ok True \<and>
       (mapGet (clientCredentials st) (key (ev_signerCredentialId e)) = Some signer \<and> cl_active signer \<or>
        ev_family e = 1 \<and> ev_type e = 9 \<and> recovery_authorized P st e) \<and>
       (administrator_only e \<longrightarrow> cl_memberId signer \<in> set (administratorIds st)))"

lemma accepted_authorized:
  assumes "validateAndAccept P R e = ok R'"
  shows "event_authorized P R e"
proof -
  obtain st enrollment signer where h: "stateAt P R (cx_authorityParentRecordIds e) = ok st"
      "context_checks R st e = ok ()" "event_enrollment P e = ok enrollment"
      "event_signer st enrollment e = ok signer"
      "verifyVaultEventSignature P e (cl_signingPublicKey signer) = ok True"
    and b: "if ev_family e = 1
         then \<exists>R1. accept_authority P R st signer enrollment e = ok R1 \<and> acceptAuthorityNode R1 e = ok R'
         else if ev_family e = 3
         then accept_lifecycle st signer e = ok () \<and> acceptAuthorityNode R e = ok R'
         else R' = R"
    by (rule validateAndAccept_steps[OF assms])
  have s: "mapGet (clientCredentials st) (key (ev_signerCredentialId e)) = Some signer \<and> cl_active signer \<or>
    ev_family e = 1 \<and> ev_type e = 9 \<and> recovery_authorized P st e"
    using b by (intro accepted_signer[OF h(3,4)]) auto
  have "cl_memberId signer \<in> set (administratorIds st)" if "administrator_only e"
    using that b accept_authority_administrator[of P R st signer enrollment e]
    by (auto simp: administrator_only_def accept_lifecycle_def and_then_eq_Inr)
  then show ?thesis using h s unfolding event_authorized_def by (auto simp: context_checks_ok)
qed

lemma authorized_known: "event_authorized P R e \<Longrightarrow> list_all (hasRecord R) (cx_authorityParentRecordIds e)"
  using stateAt_known(2) by (fastforce simp: event_authorized_def hasRecord_def list_all_iff)

lemma authorized_step:
  assumes "reachable_replay P R" "replay_step P R R'" "event_authorized P R e"
  shows "event_authorized P R' e"
  using assms(3) unfolding event_authorized_def
    replay_step_stable(1)[OF assms(1,2) authorized_known[OF assms(3)]] .

lemma authorized_steps:
  assumes "(replay_step P)\<^sup>*\<^sup>* R R'" "reachable_replay P R" "event_authorized P R e"
  shows "event_authorized P R' e"
  using assms(1,3)
proof (induction rule: rtranclp_induct)
  case (step S S')
  then show ?case using authorized_step[OF reachable_steps[OF step.hyps(1) assms(2)]] by blast
qed

text \<open>What one step adds to the Events and the known Records.\<close>

lemma step_cases:
  assumes "replay_inv R" "\<not> has_record (ar_graph R) (ev_recordId e)" "validateAndAccept P R e = ok R'"
  shows "set (ar_events R') \<subseteq> insert e (set (ar_events R))" "set (ar_events R) \<subseteq> set (ar_events R')"
    "ev_family e \<in> {1, 3} \<Longrightarrow> e \<in> set (ar_events R')"
    "has_record (ar_graph R') i \<Longrightarrow> has_record (ar_graph R) i \<or> i = ev_recordId e"
    "has_record (ar_graph R) i \<Longrightarrow> has_record (ar_graph R') i" "ar_anchorState R' = ar_anchorState R"
proof -
  have c: "closed_graph (ar_graph R)" using assms(1) by (simp add: replay_inv_def)
  note a = accepted_grows[OF assms(3) c assms(2)]
  show "set (ar_events R') \<subseteq> insert e (set (ar_events R))" "set (ar_events R) \<subseteq> set (ar_events R')"
    "ev_family e \<in> {1, 3} \<Longrightarrow> e \<in> set (ar_events R')" "ar_anchorState R' = ar_anchorState R"
    using a by (auto simp: grows_def same_facts_def)
  show "has_record (ar_graph R') i \<Longrightarrow> has_record (ar_graph R) i \<or> i = ev_recordId e"
    "has_record (ar_graph R) i \<Longrightarrow> has_record (ar_graph R') i"
    using a grows_included(2)[of R e R' i] by auto
qed

lemma reachable_authorized: "reachable_replay P R \<Longrightarrow> \<forall>e \<in> set (ar_events R). event_authorized P R e"
proof (induction rule: reachable_replay.induct)
  case (start genesis anchorId anchorState supported R)
  then show ?case by (auto simp: new_replay_def Let_def and_then_eq_Inr)
next
  case (step R R')
  from step.hyps(2) show ?case
  proof cases
    case (accepted e)
    note sub = step_cases(1)[OF reachable_inv[OF step.hyps(1)] accepted]
    have "event_authorized P R x" if "x \<in> set (ar_events R')" for x
      using that sub step.IH accepted_authorized[OF accepted(2)] by auto
    then show ?thesis using authorized_step[OF step.hyps(1,2)] by blast
  qed
qed

lemma anchor_preserved:
  assumes "(replay_step P)\<^sup>*\<^sup>* R0 R" "reachable_replay P R0"
  shows "ar_anchorState R = ar_anchorState R0"
  using assms(1)
proof (induction rule: rtranclp_induct)
  case (step S S')
  from step.hyps(2) show ?case
  proof cases
    case (accepted e)
    show ?thesis using step_cases(6)[OF reachable_inv[OF reachable_steps[OF step.hyps(1) assms(2)]] accepted] step.IH by simp
  qed
qed simp

section \<open>Accepting a list of Events\<close>

lemma accept_all:
  assumes "reachable_replay P R" "foldM (validateAndAccept P) R es = ok R'" "distinct (map ev_recordId es)"
    and "\<forall>e \<in> set es. \<not> has_record (ar_graph R) (ev_recordId e)"
  shows "(replay_step P)\<^sup>*\<^sup>* R R' \<and> set (ar_events R') \<subseteq> set (ar_events R) \<union> set es \<and>
    set (ar_events R) \<subseteq> set (ar_events R') \<and> (\<forall>e \<in> set es. ev_family e \<in> {1, 3} \<longrightarrow> e \<in> set (ar_events R')) \<and>
    (\<forall>e \<in> set es. event_authorized P R' e) \<and>
    (\<forall>i. has_record (ar_graph R') i \<longrightarrow> has_record (ar_graph R) i \<or> i \<in> ev_recordId ` set es)"
  using assms
proof (induction es arbitrary: R)
  case (Cons e es)
  then obtain S where S: "validateAndAccept P R e = ok S" "foldM (validateAndAccept P) S es = ok R'"
    by (auto simp: and_then_eq_Inr)
  have new: "\<not> has_record (ar_graph R) (ev_recordId e)" using Cons.prems(4) by simp
  note c = step_cases[OF reachable_inv[OF Cons.prems(1)] new S(1)]
  have step: "replay_step P R S" using new S(1) by (rule replay_step.accepted)
  then have r: "reachable_replay P S" using Cons.prems(1) by (rule reachable_replay.step[rotated])
  have "\<forall>x \<in> set es. \<not> has_record (ar_graph S) (ev_recordId x)"
    using c(4) Cons.prems(3,4) by (metis distinct.simps(2) image_eqI list.set(2) list.set_map list.simps(9) insertCI)
  note IH = Cons.IH[OF r S(2) _ this]
  have IH: "(replay_step P)\<^sup>*\<^sup>* S R'" "set (ar_events R') \<subseteq> set (ar_events S) \<union> set es"
    "set (ar_events S) \<subseteq> set (ar_events R')" "\<forall>x \<in> set es. ev_family x \<in> {1, 3} \<longrightarrow> x \<in> set (ar_events R')"
    "\<forall>x \<in> set es. event_authorized P R' x"
    "\<forall>i. has_record (ar_graph R') i \<longrightarrow> has_record (ar_graph S) i \<or> i \<in> ev_recordId ` set es"
    using IH Cons.prems(3) by simp_all
  have "event_authorized P R' e"
    by (rule authorized_steps[OF IH(1) r authorized_step[OF Cons.prems(1) step accepted_authorized[OF S(1)]]])
  moreover have "(replay_step P)\<^sup>*\<^sup>* R R'" using step IH(1) by (rule converse_rtranclp_into_rtranclp)
  moreover have "has_record (ar_graph R) i \<or> i \<in> ev_recordId ` set (e # es)" if "has_record (ar_graph R') i" for i
    using IH(6) c(4)[of i] that by auto
  ultimately show ?case using IH(2-5) c(1-3) by auto
qed auto

end
