(* ===== verification/Authority_Properties.thy ===== *)
theory Authority_Properties
  imports Authority_Epochs Replay_Runs
begin

text \<open>
  The properties of the authority replay, with one small Vault as the input of their witnesses: a Member who is
  the only Administrator, with one Client Credential and one Key Epoch, signs a Key Epoch Transition.
\<close>

section \<open>A small Vault\<close>

definition demo_id :: "8 word \<Rightarrow> bytes" where "demo_id n = replicate 32 n"

definition demo_credential :: authority_client_credential where
  "demo_credential = \<lparr>cl_clientCredentialId = demo_id 1, cl_memberId = demo_id 2, cl_signingPublicKey = demo_id 3,
     cl_wrappingPublicKey = demo_id 4, cl_active = True\<rparr>"

definition demo_state :: authority_state where
  "demo_state =
     \<lparr>activeMemberIds = [demo_id 2], administratorIds = [demo_id 2], administratorConflicts = [],
      activeInvitations = [], invitationConflicts = [], recoveryCredentials = [], recoveryConflicts = [],
      keyEpochs = [\<lparr>ke_keyEpochId = demo_id 5, ke_displayNumber = 0, ke_current = True\<rparr>],
      keyEpochConflicts = [], keyEnvelopeSlots = [], as_requiredFeatureSetId = demo_id 6, featureManifests = [],
      featureSetConflict = None, writeFences = [],
      clientCredentials = [(key (demo_id 1), demo_credential)], lifecycle = 1\<rparr>"

definition demo_authority_event :: "int \<Rightarrow> bytes \<Rightarrow> typed_dependency list \<Rightarrow> cvalue \<Rightarrow> authenticated_event" where
  "demo_authority_event n i deps body =
     (let e = \<lparr>cx_vaultId = demo_id 9, cx_requiredFeatureSetId = demo_id 6, cx_authorityParentRecordIds = [demo_id 7],
        cx_generationId = demo_id 8, cx_parentRecordIds = [demo_id 7], ev_dependencies = deps, ev_extensions = [],
        ev_family = 1, ev_type = n, ev_signerCredentialId = demo_id 1, ev_assertedAt = JNumber 0,
        ev_body = body, ev_signature = [], ev_bytes = [], ev_recordId = i\<rparr>
      in case signature_message ref_platform e of
           Inl _ \<Rightarrow> e
         | Inr message \<Rightarrow> e\<lparr>ev_signature := sign_detached ref_platform message []\<rparr>)"

definition demo_transition :: authenticated_event where
  "demo_transition = demo_authority_event 12 (demo_id 10) [dependency DepKeyEnvelope (demo_id 12)]
     (CMap [(KNum 0, CArray [CBytes (demo_id 5)]), (KNum 1, CBytes (demo_id 11)), (KNum 2, CNum 1),
       (KNum 3, CArray [CMap [(KNum 0, CBytes (demo_id 11)), (KNum 1, CNum 2), (KNum 2, CBytes (demo_id 1)),
          (KNum 3, CNull), (KNum 4, CBytes (demo_id 12))]])])"

definition demo_replay :: authority_replay where
  "demo_replay = projr (new_replay (demo_authority_event 1 (demo_id 7) [] CNull) (demo_id 7) demo_state [])"

lemma demo_reachable: "reachable_replay P demo_replay"
proof -
  have "\<not> isl (new_replay (demo_authority_event 1 (demo_id 7) [] CNull) (demo_id 7) demo_state [])" by code_simp
  then have "new_replay (demo_authority_event 1 (demo_id 7) [] CNull) (demo_id 7) demo_state [] = ok demo_replay"
    by (simp add: demo_replay_def sum.collapse(2))
  then show ?thesis by (rule reachable_replay.start)
qed

definition demo_after :: authority_replay where
  "demo_after = demo_replay
     \<lparr>ar_graph := projr (add_record (ar_graph demo_replay) (demo_id 10) [demo_id 7]),
      ar_events := [demo_transition],
      ar_keyEpochTransitions := [(key (demo_id 10),
        \<lparr>kt_parentKeyEpochIds = [demo_id 5], kt_keyEpochId = demo_id 11, kt_displayNumber = 1,
         kt_envelopeSlots = [\<lparr>sl_keyEpochId = demo_id 11, sl_targetKind = 2, sl_targetCredentialId = demo_id 1,
           sl_targetRevision = None, sl_keyEnvelopeId = demo_id 12\<rparr>]\<rparr>)]\<rparr>"

lemma demo_accepted: "validateAndAccept ref_platform demo_replay demo_transition = ok demo_after"
  by code_simp

lemma demo_known: "hasRecord demo_replay (demo_id 7)" "\<not> hasRecord demo_replay (ev_recordId demo_transition)"
  by code_simp+

section \<open>Properties\<close>





text \<open>
  C6. Every Authority State is coherent. From a coherent anchor, every state \<open>stateAt\<close> returns has only
  active Members as Administrators, active Client Credentials and effective Recovery Credentials belong to
  active Members, a Vault that is not closed has an Administrator or a conflict about one, and a Client
  Credential some Event below the frontier ended is inactive, whatever later Event names it again.
\<close>

theorem authority_state_coherent:
  assumes "coherent (ar_anchorState R)" "stateAt P R f = ok st"
  shows "coherent st \<and>
    (\<forall>x i c. x \<in> set (authority_events_at R f) \<and> ev_type x = 10 \<and> target_credential x = ok i \<and>
       mapGet (clientCredentials st) (key i) = Some c \<longrightarrow> \<not> cl_active c)"
  using stateAt_coherent[OF assms(2,1)] ended_inactive[OF assms(2)] by blast

theorem authority_state_coherent_witness:
  "\<exists>st. stateAt ref_platform demo_after [demo_id 10] = ok st \<and> coherent st"
proof -
  have "\<not> isl (stateAt ref_platform demo_after [demo_id 10])" by code_simp
  then obtain st where st: "stateAt ref_platform demo_after [demo_id 10] = ok st"
    by (cases "stateAt ref_platform demo_after [demo_id 10]") auto
  have "closed_graph (ar_graph demo_replay)" using reachable_inv[OF demo_reachable] by (simp add: replay_inv_def)
  then have "ar_anchorState demo_after = ar_anchorState demo_replay"
    using accepted_grows[OF demo_accepted] demo_known(2) by (auto simp: grows_def same_facts_def hasRecord_def)
  moreover have "coherent (ar_anchorState demo_replay)" by code_simp
  ultimately have "coherent (ar_anchorState demo_after)" by simp
  from authority_state_coherent[OF this st] st show ?thesis by blast
qed

text \<open>
  C31. A Key Epoch Transition heals the Key Epochs. When an Event of this type is accepted by a reachable
  replay, the Key Epochs at the new Record have exactly one current Epoch, the one the Event introduces with the
  display number it states, and no conflict is left, however many current Epochs there were at its parents.
\<close>

theorem key_epoch_transition_unifies:
  assumes "reachable_replay P R" "\<not> hasRecord R (ev_recordId e)" "validateAndAccept P R e = ok R'"
    and "ev_family e = 1" "ev_type e = 12" "distinct (map ke_keyEpochId (keyEpochs (ar_anchorState R)))"
  shows "\<exists>t E. parseKeyEpochTransition P e = ok t \<and> epochs_at R' [ev_recordId e] = ok E \<and>
    filter ke_current (key_epochs_of E) =
      [\<lparr>ke_keyEpochId = kt_keyEpochId t, ke_displayNumber = kt_displayNumber t, ke_current = True\<rparr>] \<and>
    epoch_conflicts_of E = [] \<and>
    (\<forall>st. stateAt P R' [ev_recordId e] = ok st \<longrightarrow> keyEpochs st = key_epochs_of E \<and> keyEpochConflicts st = [])"
proof -
  obtain t L where t: "parseKeyEpochTransition P e = ok t" "epochs_at R' [ev_recordId e] = ok L"
      "e \<in> set (events_at R' [ev_recordId e])"
    and "filter (\<lambda>(e, c). key (ke_keyEpochId e) \<notin> set (el_replaced L)) (mapValues (el_candidates L)) =
      [(\<lparr>ke_keyEpochId = kt_keyEpochId t, ke_displayNumber = kt_displayNumber t\<rparr>, ev_recordId e)]"
    using transition_ledger[OF assms] by blast
  note one = one_current[OF this(4)]
  have "keyEpochs st = key_epochs_of L \<and> keyEpochConflicts st = []" if "stateAt P R' [ev_recordId e] = ok st" for st
  proof -
    have "computed_state P R' [ev_recordId e] = ok st"
      using that t(3) assms(4) by (auto simp: stateAt_def list_ex_iff split: if_splits)
    then show ?thesis using computed_state_ok t(2) one(2) by fastforce
  qed
  then show ?thesis using t one by (intro exI[of _ t] exI[of _ L]) simp
qed

theorem key_epoch_transition_unifies_witness:
  "\<exists>E. epochs_at demo_after [demo_id 10] = ok E \<and> epoch_conflicts_of E = []"
proof -
  have e: "ev_family demo_transition = 1" "ev_type demo_transition = 12" "ev_recordId demo_transition = demo_id 10"
    by (auto simp: demo_transition_def demo_authority_event_def Let_def split: sum.splits)
  have "distinct (map ke_keyEpochId (keyEpochs (ar_anchorState demo_replay)))" by code_simp
  from key_epoch_transition_unifies[OF demo_reachable demo_known(2) demo_accepted e(1,2) this]
  show ?thesis unfolding e(3) by blast
qed

end
