(* ===== verification/Checkpoint_Laws.thy ===== *)
theory Checkpoint_Laws
  imports Authority_Checkpoint Authority_Properties
begin

text \<open>
  What the checkpoint codec promises: a decoded Authority State is coherent, so is every state a replay derives
  from it, and encoding it again gives the checkpoint it came from. The round trip is proved for any
  deterministic encoder whose arrays are encoded element by element, the locale \<open>value_codec\<close>.
\<close>

section \<open>Re-encoding\<close>

locale value_codec = record_codec +
  assumes array_cong:
    "map (cbor_encode P) vs = map (cbor_encode P) ws \<Longrightarrow> cbor_encode P (CArray vs) = cbor_encode P (CArray ws)"

interpretation ref_value: value_codec ref_platform
proof unfold_locales
  fix vs ws assume "map (cbor_encode ref_platform) vs = map (cbor_encode ref_platform) ws"
  moreover from this have "length vs = length ws" by (metis length_map)
  ultimately show "cbor_encode ref_platform (CArray vs) = cbor_encode ref_platform (CArray ws)" by simp
qed

text \<open>A value is encoded again: the encoder returns a canonical value with the same bytes.\<close>

definition reencodes :: "platform \<Rightarrow> cvalue \<Rightarrow> cvalue res \<Rightarrow> bool" where
  "reencodes P v r \<longleftrightarrow> (\<exists>w. r = ok w \<and> canonical P w \<and> cbor_encode P w = cbor_encode P v)"

lemma value_map_ok:
  "value_map es = ok w \<longleftrightarrow> (\<forall>e \<in> set es. 0 \<le> fst e \<and> isSafeInteger (fst e)) \<and> distinct (map fst es) \<and>
     w = CMap (map (\<lambda>e. (KNum (fst e), snd e)) es)"
  by (auto simp: value_map_def and_then_eq_Inr canonicalMap_ok)

lemma num_keys_le_10:
  "num_keys 2 = [KNum 0, KNum 1]" "num_keys 3 = [KNum 0, KNum 1, KNum 2]"
  "num_keys 4 = [KNum 0, KNum 1, KNum 2, KNum 3]" "num_keys 5 = [KNum 0, KNum 1, KNum 2, KNum 3, KNum 4]"
  "num_keys 7 = [KNum 0, KNum 1, KNum 2, KNum 3, KNum 4, KNum 5, KNum 6]"
  "num_keys 10 = [KNum 0, KNum 1, KNum 2, KNum 3, KNum 4, KNum 5, KNum 6, KNum 7, KNum 8, KNum 9]"
  by (simp_all add: num_keys_def upt_rec)

context value_codec
begin

lemma map_reencodes:
  assumes "length m = length vs" "\<forall>k \<in> set (num_keys (length vs)). mapHas m k" "length vs \<le> 15"
    and "\<And>i. i < length vs \<Longrightarrow> reencodes P (the (mapGet m (KNum (int i)))) (ok (vs ! i))"
  shows "reencodes P (CMap m) (value_map (zip (map int [0..<length vs]) vs))"
proof -
  let ?es = "zip (map int [0..<length vs]) vs" and ?n = "length vs"
  let ?u = "map (\<lambda>e. (KNum (fst e), snd e)) ?es"
  have keys: "mapKeys ?u = num_keys ?n" by (rule nth_equalityI) (simp_all add: num_keys_def)
  have safe: "\<forall>e \<in> set ?es. 0 \<le> fst e \<and> isSafeInteger (fst e)"
    using assms(3) by (auto simp: isSafeInteger_def dest!: set_zip_leftD)
  have "distinct (map fst ?es)" by (simp add: distinct_map inj_on_def)
  then have u: "value_map ?es = ok (CMap ?u)" using safe by (simp add: value_map_ok)
  have v: "canonical P (vs ! i)" "cbor_encode P (vs ! i) = cbor_encode P (the (mapGet m (KNum (int i))))"
    if "i < ?n" for i using assms(4)[OF that] by (simp_all add: reencodes_def)
  have "encoded_pairs P ?u = map (\<lambda>k. (k, cbor_encode P (the (mapGet m k)))) (num_keys ?n)"
    by (rule nth_equalityI) (auto simp: encoded_pairs_def num_keys_def v)
  moreover have "distinct (num_keys ?n)" by (simp add: num_keys_def distinct_map inj_on_def)
  ultimately have "mset (encoded_pairs P ?u) = mset (encoded_pairs P m)"
    using exact_pairs(2)[of m "num_keys ?n" P] assms(1,2) by (simp add: num_keys_def)
  then have "cbor_encode P (CMap ?u) = cbor_encode P (CMap m)"
    using event_keys[OF keys assms(3)] by (intro map_order)
  moreover have "canonical P (CMap ?u)"
  proof -
    have "canonical_key (fst e) \<and> canonical P (snd e)" if e: "e \<in> set ?u" for e
    proof -
      obtain i where i: "i < ?n" "e = (KNum (int i), vs ! i)" using e by (auto simp: set_zip)
      then show ?thesis using v(1) assms(3) by (simp add: isSafeInteger_def)
    qed
    then show ?thesis by (simp only: canonical.simps list_all_iff) auto
  qed
  ultimately show ?thesis by (simp add: reencodes_def u)
qed

lemma set_order:
  assumes "canonicalSetValue P v f (\<lambda>_ e. ok e) ne = ok xs"
  shows "v = CArray xs" "canonical_all P xs" "sorted_wrt (<) (map (cbor_encode P) xs)"
proof -
  obtain ws where w: "v = CArray xs" "canonicalSet P xs = ok ws" "canonical_all P xs"
      "cbor_encode P (CArray xs) = cbor_encode P (CArray ws)"
    using assms traverse_i_id[of "\<lambda>_. Inr"] by (fastforce simp: canonicalSetValue_ok)
  then show "v = CArray xs" "canonical_all P xs" by simp_all
  have "canonical_all P ws" using w(2) by (auto simp: canonicalSet_ok list_all_iff)
  from array_law[OF w(3) this w(4)] canonicalSet_strict(1)[OF w(2)]
  show "sorted_wrt (<) (map (cbor_encode P) xs)" by simp
qed

lemma set_reencodes:
  assumes "canonical_all P xs" "sorted_wrt (<) (map (cbor_encode P) xs)"
    and "canonical_all P ws" "mset (map (cbor_encode P) ws) = mset (map (cbor_encode P) xs)"
  shows "reencodes P (CArray xs) (value_set P ws)"
proof -
  have d: "distinct (map (cbor_encode P) ws)"
    using assms(2,4) by (metis mset_eq_imp_distinct_iff strict_sorted_iff)
  then have s: "canonicalSet P ws = ok (sort_key (cbor_encode P) ws)"
    using assms(3) by (simp add: canonicalSet_ok)
  have "sorted (map (cbor_encode P) (sort_key (cbor_encode P) ws))" by simp
  moreover have "mset (map (cbor_encode P) (sort_key (cbor_encode P) ws)) = mset (map (cbor_encode P) xs)"
    using assms(4) by simp
  ultimately have "sort (map (cbor_encode P) xs) = map (cbor_encode P) (sort_key (cbor_encode P) ws)"
    by (intro properties_for_sort)
  moreover have "sort (map (cbor_encode P) xs) = map (cbor_encode P) xs"
    using assms(2) by (simp add: strict_sorted_iff sorted_sort_id)
  ultimately have "map (cbor_encode P) (sort_key (cbor_encode P) ws) = map (cbor_encode P) xs" by simp
  then have "cbor_encode P (CArray (sort_key (cbor_encode P) ws)) = cbor_encode P (CArray xs)"
    by (rule array_cong)
  then show ?thesis using s assms(3) by (auto simp: reencodes_def value_set_def list_all_iff)
qed

lemma collected_order:
  assumes "canonicalSetCollect P v f parse ne = ok (ps, rs)" and "\<And>i x y. parse i x = ok y \<Longrightarrow> fst y = x"
  obtains xs ys where "v = CArray xs" "canonical_all P xs" "sorted_wrt (<) (map (cbor_encode P) xs)"
    "traverse_i parse 0 xs = ok ys" "rs = concat (map snd ys)"
proof -
  obtain xs ys ws where w: "v = CArray xs" "traverse_i parse 0 xs = ok ys" "rs = concat (map snd ys)"
      "canonicalSet P (map fst ys) = ok ws" "canonical_all P xs" "cbor_encode P (CArray xs) = cbor_encode P (CArray ws)"
    using assms(1) by (auto simp: canonicalSetCollect_ok)
  have "canonical_all P ws" using w(4) by (auto simp: canonicalSet_ok list_all_iff)
  from array_law[OF w(5) this w(6)] canonicalSet_strict(1)[OF w(4)]
  have "sorted_wrt (<) (map (cbor_encode P) xs)" by simp
  then show thesis using w by (intro that)
qed

lemma traverse_reencodes:
  assumes "traverse_i decode j xs = ok ys" "canonical_all P xs"
    and "\<And>i x y. decode i x = ok y \<Longrightarrow> canonical P x \<Longrightarrow> reencodes P x (enc y)"
  shows "\<exists>ws. traverse enc ys = ok ws \<and> canonical_all P ws \<and> map (cbor_encode P) ws = map (cbor_encode P) xs"
  using assms(1,2)
proof (induction xs arbitrary: j ys)
  case (Cons x xs)
  then obtain y ys' where y: "decode j x = ok y" "traverse_i decode (Suc j) xs = ok ys'" "ys = y # ys'"
    by (auto simp: and_then_eq_Inr)
  with Cons.IH[OF y(2)] assms(3)[OF y(1)] Cons.prems(2) show ?case
    by (auto simp: reencodes_def)
qed simp

lemma decodeSet_reencodes:
  assumes "decodeSet P v f decode ne = ok ys"
    and "\<And>i x y. decode i x = ok y \<Longrightarrow> canonical P x \<Longrightarrow> reencodes P x (enc y)"
  shows "\<exists>ws. traverse enc ys = ok ws \<and> reencodes P v (value_set P ws)"
proof -
  obtain xs where x: "canonicalSetValue P v f (\<lambda>_ e. ok e) ne = ok xs" "traverse_i decode 0 xs = ok ys"
    using assms(1) by (auto simp: decodeSet_def and_then_eq_Inr)
  note o = set_order[OF x(1)]
  obtain ws where w: "traverse enc ys = ok ws" "canonical_all P ws" "map (cbor_encode P) ws = map (cbor_encode P) xs"
    using traverse_reencodes[OF x(2) o(2), of enc] assms(2) by blast
  then show ?thesis using set_reencodes[OF o(2,3) w(2)] o(1) by simp
qed

lemma ids_reencodes:
  assumes "idSetValue P v kind f ne = ok ids"
  shows "reencodes P v (value_ids P ids)"
  using assms by (auto simp: idSetValue_exact canonicalSet_ordered value_ids_def value_set_def reencodes_def list_all_iff)

end

section \<open>The parts of a checkpoint\<close>

lemma reencodes_self [simp]: "reencodes P v (ok v) \<longleftrightarrow> canonical P v"
  by (auto simp: reencodes_def)

lemma canonical_field: "canonical P (CMap m) \<Longrightarrow> mapGet m k = Some v \<Longrightarrow> canonical P v"
  using map_of_SomeD[of m k v] by (auto simp: list_all_iff)

lemma bytes_at_ok [schema_ok]:
  "bytes_at m k n f = ok b \<longleftrightarrow> mapGet m (KNum k) = Some (CBytes b) \<and> length b = n"
  by (auto simp: bytes_at_def with_field_ok schema_ok)

lemma all_less_code: "(\<forall>i < Suc n. Q i) \<longleftrightarrow> Q n \<and> (\<forall>i < n. Q i)"
  by (auto simp: less_Suc_eq)

context value_codec
begin

text \<open>The form of \<open>map_reencodes\<close> the entries of a checkpoint use.\<close>

lemma entry_reencodes:
  assumes "exactMap v (num_keys n) f = ok m" "n = length vs" "length vs \<le> 10"
    and "\<forall>i < length vs. reencodes P (the (mapGet m (KNum (int i)))) (ok (vs ! i))"
    and "es = zip (map int [0..<length vs]) vs"
  shows "reencodes P v (value_map es)"
  using assms map_reencodes[of m vs] by (auto simp: exactMap_ok num_keys_def)

lemma certificate_reencodes:
  assumes "decode_certificate active i v = ok (v', cs)" "canonical P v"
  shows "\<exists>c. cs = [c] \<and> v' = v \<and> cl_active c \<and> cl_memberId c \<in> set active \<and> reencodes P v (certificate_value c)"
proof -
  obtain m c where m: "exactMap v (num_keys 4) (numbered ''Client Certificate'' i) = ok m" "cs = [c]" "v' = v"
      "mapGet m (KNum 0) = Some (CBytes (cl_clientCredentialId c))" "mapGet m (KNum 1) = Some (CBytes (cl_memberId c))"
      "mapGet m (KNum 2) = Some (CBytes (cl_signingPublicKey c))"
      "mapGet m (KNum 3) = Some (CBytes (cl_wrappingPublicKey c))" "cl_active c" "cl_memberId c \<in> set active"
    using assms(1) by (auto simp: decode_certificate_def Let_def and_then_eq_Inr schema_ok list_ex_iff)
  have "reencodes P v (certificate_value c)"
    unfolding certificate_value_def
    by (rule entry_reencodes[where vs = "[CBytes (cl_clientCredentialId c), CBytes (cl_memberId c),
        CBytes (cl_signingPublicKey c), CBytes (cl_wrappingPublicKey c)]" and m = m, OF m(1)])
      (use m in \<open>simp_all add: all_less_code upt_rec\<close>)
  then show ?thesis using m by blast
qed

lemma recovery_reencodes:
  assumes "decode_recovery active i v = ok c" "canonical P v"
  shows "rv_effective c \<and> rv_memberId c \<in> set active \<and> reencodes P v (recovery_value c)"
proof -
  obtain m where m: "exactMap v (num_keys 5) (numbered ''Recovery Credential'' i) = ok m"
      "mapGet m (KNum 0) = Some (CBytes (rv_recoveryCredentialId c))" "mapGet m (KNum 1) = Some (CBytes (rv_memberId c))"
      "mapGet m (KNum 2) = Some (CNum (rv_revision c))" "isSafeInteger (rv_revision c)"
      "mapGet m (KNum 3) = Some (CBytes (rv_signingPublicKey c))"
      "mapGet m (KNum 4) = Some (CBytes (rv_wrappingPublicKey c))" "rv_effective c" "rv_memberId c \<in> set active"
    using assms(1) by (auto simp: decode_recovery_def Let_def and_then_eq_Inr schema_ok list_ex_iff)
  have "reencodes P v (recovery_value c)"
    unfolding recovery_value_def
    by (rule entry_reencodes[where vs = "[CBytes (rv_recoveryCredentialId c), CBytes (rv_memberId c),
        CNum (rv_revision c), CBytes (rv_signingPublicKey c), CBytes (rv_wrappingPublicKey c)]" and m = m, OF m(1)])
      (use m in \<open>simp_all add: all_less_code upt_rec\<close>)
  then show ?thesis using m by blast
qed

lemma invitation_reencodes:
  assumes "decode_invitation P i v = ok c" "canonical P v"
  shows "reencodes P v (invitation_value c)"
proof -
  obtain m where m: "exactMap v (num_keys 7) (numbered ''Active Invitation'' i) = ok m"
      "mapGet m (KNum 0) = Some (CBytes (ain_invitationId c))"
      "mapGet m (KNum 1) = Some (CBytes (ain_redemptionVerifier c))"
      "mapGet m (KNum 2) = Some (CBytes (ain_cancellationVerifier c))" "mapGet m (KNum 3) = Some (ain_capabilities c)"
      "mapGet m (KNum 4) = Some (CBytes (ain_creationRecordId c))"
      "mapGet m (KNum 5) = Some (CBytes (ain_redemptionAuthorityId c))"
      "mapGet m (KNum 6) = Some (CBytes (ain_receiptVerificationKey c))"
    using assms(1) by (auto simp: decode_invitation_def Let_def and_then_eq_Inr schema_ok)
  have "canonical P (ain_capabilities c)" using m(1,5) assms(2) by (auto simp: exactMap_ok intro: canonical_field)
  then show ?thesis
    unfolding invitation_value_def
    by (intro entry_reencodes[where vs = "[CBytes (ain_invitationId c), CBytes (ain_redemptionVerifier c),
        CBytes (ain_cancellationVerifier c), ain_capabilities c, CBytes (ain_creationRecordId c),
        CBytes (ain_redemptionAuthorityId c), CBytes (ain_receiptVerificationKey c)]" and m = m, OF m(1)])
      (use m in \<open>simp_all add: all_less_code upt_rec\<close>)
qed

lemma epoch_reencodes:
  assumes "decode_epoch i v = ok e"
  shows "reencodes P v (epoch_value e)"
proof -
  obtain m where m: "exactMap v (num_keys 3) (numbered ''Key Epoch summary'' i) = ok m"
      "mapGet m (KNum 0) = Some (CBytes (ke_keyEpochId e))" "mapGet m (KNum 1) = Some (CNum (ke_displayNumber e))"
      "isSafeInteger (ke_displayNumber e)" "mapGet m (KNum 2) = Some (CBool (ke_current e))"
    using assms by (auto simp: decode_epoch_def Let_def and_then_eq_Inr schema_ok)
  show ?thesis
    unfolding epoch_value_def
    by (rule entry_reencodes[where vs = "[CBytes (ke_keyEpochId e), CNum (ke_displayNumber e), CBool (ke_current e)]"
        and m = m, OF m(1)]) (use m in \<open>simp_all add: all_less_code upt_rec\<close>)
qed

text \<open>A field that may be null is read and written without loss.\<close>

lemma nullable_value:
  assumes "nullable v parse = ok r" and "\<And>x. parse v = ok x \<Longrightarrow> v = f x"
  shows "or_null f r = v"
  using assms by (auto simp: nullable_ok or_null_def)

lemma slot_reencodes:
  assumes "decode_slot i v = ok s" "canonical P v"
  shows "reencodes P v (slot_value s)"
proof -
  obtain m w where m: "exactMap v (num_keys 5) (numbered ''Checkpoint Key Envelope slot'' i) = ok m"
      "mapGet m (KNum 0) = Some (CBytes (sl_keyEpochId s))" "mapGet m (KNum 1) = Some (CNum (sl_targetKind s))"
      "isSafeInteger (sl_targetKind s)" "mapGet m (KNum 2) = Some (CBytes (sl_targetCredentialId s))"
      "mapGet m (KNum 3) = Some w"
      "nullable w (\<lambda>r. nonnegativeInteger r (numbered ''Checkpoint Key Envelope slot'' i @ '' target revision'')) =
         ok (sl_targetRevision s)"
      "mapGet m (KNum 4) = Some (CBytes (sl_keyEnvelopeId s))"
    using assms(1)
    by (clarsimp simp: decode_slot_def Let_def and_then_eq_Inr exactMap_ok id_at_ok with_field_ok oneOfCodes_ok)
  have w: "or_null CNum (sl_targetRevision s) = w" by (rule nullable_value[OF m(7)]) (simp add: schema_ok)
  have "canonical P w" using m(1,6) assms(2) by (auto simp: exactMap_ok intro: canonical_field)
  then show ?thesis
    unfolding slot_value_def w
    by (intro entry_reencodes[where vs = "[CBytes (sl_keyEpochId s), CNum (sl_targetKind s),
        CBytes (sl_targetCredentialId s), w, CBytes (sl_keyEnvelopeId s)]" and m = m, OF m(1)])
      (use m in \<open>simp_all add: all_less_code upt_rec\<close>)
qed

lemma invitation_candidate_reencodes:
  assumes "decode_invitation_candidate j i v = ok c" "canonical P v"
  shows "reencodes P v (invitation_candidate_value c)"
proof -
  let ?n = "conflict_name j i"
  obtain m w3 w4 where m: "exactMap v (num_keys 5) ?n = ok m"
      "mapGet m (KNum 0) = Some (CBytes (ic_headRecordId c))" "mapGet m (KNum 1) = Some (CNum (ic_outcome c))"
      "isSafeInteger (ic_outcome c)" "mapGet m (KNum 2) = Some (CBytes (ic_authorityReceiptId c))"
      "mapGet m (KNum 3) = Some w3" "mapGet m (KNum 4) = Some w4"
    and n: "nullable w3 (\<lambda>r. byteString r 32 (?n @ '' Join Request ID'')) = ok (ic_joinRequestId c)"
      "nullable w4 (\<lambda>r. identifierValue r MemberId (?n @ '' Member ID'')) = ok (ic_memberId c)"
    using assms(1)
    by (clarsimp simp: decode_invitation_candidate_def Let_def and_then_eq_Inr exactMap_ok id_at_ok bytes_at_ok
        with_field_ok oneOfCodes_ok)
  have w: "or_null CBytes (ic_joinRequestId c) = w3" by (rule nullable_value[OF n(1)]) (simp add: schema_ok)
  have w': "or_null CBytes (ic_memberId c) = w4" by (rule nullable_value[OF n(2)]) (simp add: schema_ok)
  have "canonical P w3" "canonical P w4"
    using m(1,6,7) assms(2) by (auto simp: exactMap_ok intro: canonical_field)
  then show ?thesis
    unfolding invitation_candidate_value_def w w'
    by (intro entry_reencodes[where vs = "[CBytes (ic_headRecordId c), CNum (ic_outcome c),
        CBytes (ic_authorityReceiptId c), w3, w4]" and m = m, OF m(1)])
      (use m in \<open>simp_all add: all_less_code upt_rec\<close>)
qed

lemma pair_reencodes:
  assumes "exactMap v (num_keys 2) f = ok m" "mapGet m (KNum 0) = Some a" "mapGet m (KNum 1) = Some b"
    and "canonical P a" "canonical P b"
  shows "reencodes P v (value_map [(0, a), (1, b)])"
  by (rule entry_reencodes[where vs = "[a, b]" and m = m, OF assms(1)])
    (use assms in \<open>simp_all add: all_less_code upt_rec\<close>)

lemma recovery_candidate_reencodes:
  assumes "decode_recovery_candidate j i v = ok c"
  shows "reencodes P v (recovery_candidate_value c)"
  using assms
  by (auto simp: decode_recovery_candidate_def recovery_candidate_value_def Let_def and_then_eq_Inr id_at_ok
      intro!: pair_reencodes)

lemma epoch_candidate_reencodes:
  assumes "decode_epoch_candidate j i v = ok c"
  shows "reencodes P v (epoch_candidate_value c)"
  using assms
  by (auto simp: decode_epoch_candidate_def epoch_candidate_value_def Let_def and_then_eq_Inr id_at_ok
      intro!: pair_reencodes)

lemma administrator_candidate_reencodes:
  assumes "decode_administrator_candidate j i v = ok c"
  shows "reencodes P v (administrator_candidate_value c)"
  using assms
  by (auto simp: decode_administrator_candidate_def administrator_candidate_value_def Let_def and_then_eq_Inr id_at_ok
      with_field_ok booleanValue_ok intro!: pair_reencodes)

lemma conflict_value_reencodes:
  assumes "exactMap v (num_keys 3) f = ok m" "mapGet m (KNum 0) = Some (CNum kind)" "isSafeInteger kind"
    and "mapGet m (KNum 1) = Some (CBytes subject)" "decode_candidates P j m decode = ok cs"
    and "\<And>i x y. decode j i x = ok y \<Longrightarrow> canonical P x \<Longrightarrow> reencodes P x (enc y)"
  shows "reencodes P v (conflict_value P kind subject enc cs)"
proof -
  obtain w where w: "mapGet m (KNum 2) = Some w"
      "decodeSet P w (numbered ''Authority Conflict'' j @ '' candidates'') (decode j) True = ok cs"
    using assms(5) by (auto simp: decode_candidates_def with_field_ok)
  obtain ws where ws: "traverse enc cs = ok ws" "reencodes P w (value_set P ws)"
    using decodeSet_reencodes[OF w(2), of enc] assms(6) by blast
  then obtain u where u: "value_set P ws = ok u" "reencodes P w (ok u)" by (auto simp: reencodes_def)
  have "reencodes P v (value_map [(0, CNum kind), (1, CBytes subject), (2, u)])"
    by (rule entry_reencodes[where vs = "[CNum kind, CBytes subject, u]" and m = m, OF assms(1)])
      (use assms(2-4) w(1) u(2) in \<open>simp_all add: all_less_code upt_rec\<close>)
  then show ?thesis by (simp add: conflict_value_def ws(1) u(1))
qed

lemma fence_reencodes:
  assumes "decode_fence P vaultId i v = ok c" "canonical P v"
  shows "reencodes P v (fence_value P c)"
proof -
  obtain m k w where m: "exactMap v (num_keys 3) (numbered ''Authority fence'' i) = ok m"
      "mapGet m (KNum 0) = Some k" "decodeFenceKind k = ok (wf_kind c)"
      "mapGet m (KNum 1) = Some (CBytes (wf_subjectId c))" "mapGet m (KNum 2) = Some w"
      "idSetValue P w VaultRecordId (numbered ''Authority fence'' i @ '' cause Record IDs'') True = ok (wf_causeRecordIds c)"
    using assms(1) by (clarsimp simp: decode_fence_def Let_def and_then_eq_Inr exactMap_ok id_at_ok with_field_ok)
  obtain n where n: "k = CNum n" "fenceKind (wf_kind c) = ok n" "isSafeInteger n"
    using m(3) by (auto simp: decodeFenceKind_def and_then_eq_Inr oneOfCodes_ok)
  obtain u where u: "value_ids P (wf_causeRecordIds c) = ok u" "reencodes P w (ok u)"
    using ids_reencodes[OF m(6)] by (auto simp: reencodes_def)
  have "reencodes P v (value_map [(0, CNum n), (1, CBytes (wf_subjectId c)), (2, u)])"
    by (rule entry_reencodes[where vs = "[CNum n, CBytes (wf_subjectId c), u]" and m = m, OF m(1)])
      (use m u(2) n in \<open>simp_all add: all_less_code upt_rec\<close>)
  then show ?thesis by (simp add: fence_value_def n(2) u(1))
qed

end

fun conflict_item :: "platform \<Rightarrow> bytes \<Rightarrow> authority_conflict \<Rightarrow> cvalue res" where
  "conflict_item P vaultId (ConflictedInvitation c) =
     conflict_value P 1 (icf_invitationId c) invitation_candidate_value (icf_candidates c)"
| "conflict_item P vaultId (ConflictedRecovery c) =
     conflict_value P 2 (rvf_memberId c) recovery_candidate_value (rvf_candidates c)"
| "conflict_item P vaultId (ConflictedEpoch c) =
     conflict_value P 3 vaultId epoch_candidate_value (kef_candidates c)"
| "conflict_item P vaultId (ConflictedAdministrator c) =
     conflict_value P 4 (adf_memberId c) administrator_candidate_value (adf_candidates c)"

lemma traverse_map_filter:
  assumes "traverse item cs = ok ws" and "\<And>c x. part c = Some x \<Longrightarrow> f x = item c"
  shows "traverse f (List.map_filter part cs) = ok (map (\<lambda>c. projr (item c)) (filter (\<lambda>c. part c \<noteq> None) cs))"
  using assms(1)
proof (induction cs arbitrary: ws)
  case (Cons c cs)
  then show ?case by (cases "part c") (auto simp: and_then_eq_Inr map_filter_simps dest: assms(2))
qed (simp add: map_filter_simps)

lemma traverse_projr: "traverse f xs = ok ws \<Longrightarrow> ws = map (\<lambda>x. projr (f x)) xs"
  by (induction xs arbitrary: ws) (auto simp: and_then_eq_Inr)

text \<open>The encoder groups the conflicts by kind; the set has the same elements.\<close>

lemma conflict_values_grouped:
  assumes "traverse (conflict_item P vaultId) cs = ok ws"
    and "invitationConflicts st = List.map_filter invitation_part cs"
    "recoveryConflicts st = List.map_filter recovery_part cs" "keyEpochConflicts st = List.map_filter epoch_part cs"
    "administratorConflicts st = List.map_filter administrator_part cs"
  shows "\<exists>us. conflict_values P vaultId st = ok us \<and> mset us = mset ws"
proof -
  let ?g = "\<lambda>c. projr (conflict_item P vaultId c)"
  let ?part = "\<lambda>part. map ?g (filter (\<lambda>c. part c \<noteq> None) cs)"
  have h: "invitation_part c = Some x1 \<Longrightarrow> conflict_value P 1 (icf_invitationId x1) invitation_candidate_value
      (icf_candidates x1) = conflict_item P vaultId c"
    "recovery_part c = Some x2 \<Longrightarrow> conflict_value P 2 (rvf_memberId x2) recovery_candidate_value (rvf_candidates x2) =
      conflict_item P vaultId c"
    "epoch_part c = Some x3 \<Longrightarrow> conflict_value P 3 vaultId epoch_candidate_value (kef_candidates x3) =
      conflict_item P vaultId c"
    "administrator_part c = Some x4 \<Longrightarrow> conflict_value P 4 (adf_memberId x4) administrator_candidate_value
      (adf_candidates x4) = conflict_item P vaultId c" for c x1 x2 x3 x4
    by (cases c; simp)+
  have "conflict_values P vaultId st = ok (map ?g (filter (\<lambda>c. invitation_part c \<noteq> None) cs) @
      map ?g (filter (\<lambda>c. recovery_part c \<noteq> None) cs) @ map ?g (filter (\<lambda>c. epoch_part c \<noteq> None) cs) @
      map ?g (filter (\<lambda>c. administrator_part c \<noteq> None) cs))"
    by (simp only: conflict_values_def assms(2-5) traverse_map_filter[OF assms(1) h(1)]
        traverse_map_filter[OF assms(1) h(2)] traverse_map_filter[OF assms(1) h(3)]
        traverse_map_filter[OF assms(1) h(4)] and_then_Inr append.assoc)
  moreover have "mset (filter (\<lambda>c. invitation_part c \<noteq> None) cs) + (mset (filter (\<lambda>c. recovery_part c \<noteq> None) cs) +
      (mset (filter (\<lambda>c. epoch_part c \<noteq> None) cs) + mset (filter (\<lambda>c. administrator_part c \<noteq> None) cs))) = mset cs"
  proof (induction cs)
    case (Cons c cs)
    then show ?case by (cases c) simp_all
  qed simp
  ultimately show ?thesis
    unfolding traverse_projr[OF assms(1)] by (simp flip: image_mset_union)
qed

context value_codec
begin

lemma conflict_reencodes:
  assumes "decode_conflict P vaultId j v = ok (v', cs)" "canonical P v"
  shows "\<exists>c. cs = [c] \<and> v' = v \<and> reencodes P v (conflict_item P vaultId c)"
proof -
  let ?n = "numbered ''Authority Conflict'' j"
  obtain m kind where m: "exactMap v (num_keys 3) ?n = ok m" "mapGet m (KNum 0) = Some (CNum kind)"
      "isSafeInteger kind" "kind \<in> {1, 2, 3, 4}"
    using assms(1) by (auto simp: decode_conflict_def Let_def and_then_eq_Inr with_field_ok oneOfCodes_ok)
  note d = assms(1)[unfolded decode_conflict_def Let_def m(1) and_then_Inr, simplified with_field_def mapValue_def
      m(2) option.case and_then_Inr]
  from m(4) consider "kind = 1" | "kind = 2" | "kind = 3" | "kind = 4" by blast
  then show ?thesis
  proof cases
    case 1
    then obtain subject ds where "mapGet m (KNum 1) = Some (CBytes subject)"
        "decode_candidates P j m decode_invitation_candidate = ok ds" "v' = v"
        "cs = [ConflictedInvitation \<lparr>icf_invitationId = subject, icf_candidates = ds\<rparr>]"
      using d by (auto simp: and_then_eq_Inr oneOfCodes_ok id_at_ok)
    then show ?thesis
      using conflict_value_reencodes[OF m(1-3), where enc = invitation_candidate_value]
        invitation_candidate_reencodes 1 by auto
  next
    case 2
    then obtain subject ds where "mapGet m (KNum 1) = Some (CBytes subject)"
        "decode_candidates P j m decode_recovery_candidate = ok ds" "v' = v"
        "cs = [ConflictedRecovery \<lparr>rvf_memberId = subject, rvf_candidates = ds\<rparr>]"
      using d by (auto simp: and_then_eq_Inr oneOfCodes_ok id_at_ok)
    then show ?thesis
      using conflict_value_reencodes[OF m(1-3), where enc = recovery_candidate_value]
        recovery_candidate_reencodes 2 by auto
  next
    case 3
    then obtain ds where "mapGet m (KNum 1) = Some (CBytes vaultId)"
        "decode_candidates P j m decode_epoch_candidate = ok ds" "v' = v"
        "cs = [ConflictedEpoch \<lparr>kef_candidates = ds\<rparr>]"
      using d by (auto simp: and_then_eq_Inr oneOfCodes_ok id_at_ok)
    then show ?thesis
      using conflict_value_reencodes[OF m(1-3), where enc = epoch_candidate_value]
        epoch_candidate_reencodes 3 by auto
  next
    case 4
    then obtain subject ds where "mapGet m (KNum 1) = Some (CBytes subject)"
        "decode_candidates P j m decode_administrator_candidate = ok ds" "v' = v"
        "cs = [ConflictedAdministrator \<lparr>adf_memberId = subject, adf_candidates = ds\<rparr>]"
      using d by (auto simp: and_then_eq_Inr oneOfCodes_ok id_at_ok)
    then show ?thesis
      using conflict_value_reencodes[OF m(1-3), where enc = administrator_candidate_value]
        administrator_candidate_reencodes 4 by auto
  qed
qed

end

section \<open>The whole checkpoint\<close>

text \<open>What the decoder read from which field.\<close>

lemma decode_checkpoint_ok:
  assumes "decodeCanonicalAuthorityCheckpoint P input = ok st"
  obtains m v1 v2 v3 v4 v5 v6 v7 v8 v9 clients conflicts ps qs where
    "exactMap (cp_checkpoint input) (num_keys 10) ''Authority checkpoint'' = ok m"
    "mapGet m (KNum 0) = Some (CNum 1)"
    "mapGet m (KNum 1) = Some v1" "idSetValue P v1 MemberId ''Active Member IDs'' True = ok (activeMemberIds st)"
    "mapGet m (KNum 2) = Some v2" "idSetValue P v2 MemberId ''Administrator Member IDs'' True = ok (administratorIds st)"
    "set (administratorIds st) \<subseteq> set (activeMemberIds st)"
    "mapGet m (KNum 3) = Some v3"
    "canonicalSetCollect P v3 ''Client Certificates'' (decode_certificate (activeMemberIds st)) True = ok (ps, clients)"
    "mapGet m (KNum 4) = Some v4"
    "decodeSet P v4 ''Recovery Credentials'' (decode_recovery (activeMemberIds st)) True = ok (recoveryCredentials st)"
    "mapGet m (KNum 5) = Some v5"
    "decodeSet P v5 ''Active Invitations'' (decode_invitation P) False = ok (activeInvitations st)"
    "mapGet m (KNum 6) = Some v6" "decodeSet P v6 ''Key Epoch summaries'' decode_epoch True = ok (keyEpochs st)"
    "mapGet m (KNum 7) = Some v7"
    "decodeSet P v7 ''Checkpoint Key Envelope slots'' decode_slot True = ok (keyEnvelopeSlots st)"
    "mapGet m (KNum 8) = Some v8"
    "canonicalSetCollect P v8 ''Active Authority Conflicts'' (decode_conflict P (cp_vaultId input)) False = ok (qs, conflicts)"
    "mapGet m (KNum 9) = Some v9"
    "decodeSet P v9 ''Active Authority fences'' (decode_fence P (cp_vaultId input)) False = ok (writeFences st)"
    "clientCredentials st = mapFrom (map (\<lambda>c. (key (cl_clientCredentialId c), c)) clients)"
    "administratorConflicts st = List.map_filter administrator_part conflicts"
    "invitationConflicts st = List.map_filter invitation_part conflicts"
    "recoveryConflicts st = List.map_filter recovery_part conflicts"
    "keyEpochConflicts st = List.map_filter epoch_part conflicts"
    "lifecycle st = cp_lifecycle input" "featureSetConflict st = None"
  using assms
  unfolding decodeCanonicalAuthorityCheckpoint_def and_then_eq_Inr with_field_ok exactCode_ok guard_not_eq_Inr
  by (elim exE conjE, split prod.splits)
    (clarsimp simp: and_then_eq_Inr with_field_ok list_ex_iff split: prod.splits, fastforce)

text \<open>The Client Credential IDs a checkpoint certifies.\<close>

fun certificate_id :: "cvalue \<Rightarrow> bytes" where
  "certificate_id (CMap m) = (case mapGet m (KNum 0) of Some v \<Rightarrow> bytes_of v | None \<Rightarrow> [])"
| "certificate_id _ = []"

fun certificate_ids :: "cvalue \<Rightarrow> bytes list" where
  "certificate_ids (CMap m) =
     (case mapGet m (KNum 3) of Some (CArray cs) \<Rightarrow> map certificate_id cs | _ \<Rightarrow> [])"
| "certificate_ids _ = []"

lemma mapFrom_fresh: "distinct (map fst xs) \<Longrightarrow> mapFrom xs = xs"
proof -
  have "distinct (map fst (acc @ xs)) \<Longrightarrow> foldl (\<lambda>m (k, v). mapSet m k v) acc xs = acc @ xs" for acc
  proof (induction xs arbitrary: acc)
    case (Cons x xs)
    then have "\<not> mapHas acc (fst x)" by (auto simp: mapHas_def)
    then show ?case using Cons.IH[of "acc @ [x]"] Cons.prems by (cases x) (simp add: mapSet_fresh)
  qed simp
  from this[of "[]"] show "distinct (map fst xs) \<Longrightarrow> mapFrom xs = xs" by (simp add: mapFrom_def)
qed

lemma decode_certificate_id: "decode_certificate active i v = ok (v', cs) \<Longrightarrow> map cl_clientCredentialId cs = [certificate_id v]"
  by (auto simp: decode_certificate_def Let_def and_then_eq_Inr exactMap_ok id_at_ok)

lemma decode_certificate_active: "decode_certificate active i v = ok y \<Longrightarrow>
    fst y = v \<and> (\<forall>c \<in> set (snd y). cl_active c \<and> cl_memberId c \<in> set active)"
  by (auto simp: decode_certificate_def Let_def and_then_eq_Inr list_ex_iff)

lemma decode_recovery_active: "decode_recovery active i v = ok c \<Longrightarrow> rv_effective c \<and> rv_memberId c \<in> set active"
  by (auto simp: decode_recovery_def Let_def and_then_eq_Inr list_ex_iff)

text \<open>A decoded state is coherent, open Vault or not.\<close>

lemma decoded_coherent:
  assumes "decodeCanonicalAuthorityCheckpoint P input = ok st"
  shows "coherent st"
proof -
  obtain m v1 v2 v3 v4 v5 v6 v7 v8 v9 clients conflicts ps qs where d:
    "idSetValue P v2 MemberId ''Administrator Member IDs'' True = ok (administratorIds st)"
    "set (administratorIds st) \<subseteq> set (activeMemberIds st)"
    "canonicalSetCollect P v3 ''Client Certificates'' (decode_certificate (activeMemberIds st)) True = ok (ps, clients)"
    "decodeSet P v4 ''Recovery Credentials'' (decode_recovery (activeMemberIds st)) True = ok (recoveryCredentials st)"
    "clientCredentials st = mapFrom (map (\<lambda>c. (key (cl_clientCredentialId c), c)) clients)"
    by (rule decode_checkpoint_ok[OF assms]) (rule that)
  obtain xs ys where c: "traverse_i (decode_certificate (activeMemberIds st)) 0 xs = ok ys" "clients = concat (map snd ys)"
    using d(3) by (auto simp: canonicalSetCollect_ok)
  have "\<forall>c \<in> set clients. cl_memberId c \<in> set (activeMemberIds st)"
    using c(1) decode_certificate_active by (fastforce simp: c(2) traverse_i_eq_Inr in_set_conv_nth)
  then have "\<forall>(k, c) \<in> set (clientCredentials st). cl_memberId c \<in> set (activeMemberIds st)"
    using mapFrom_subset by (fastforce simp: d(5))
  moreover have "\<forall>r \<in> set (recoveryCredentials st). rv_effective r \<and> rv_memberId r \<in> set (activeMemberIds st)"
    using d(4) decode_recovery_active
    by (fastforce simp: decodeSet_def and_then_eq_Inr traverse_i_eq_Inr in_set_conv_nth)
  moreover have "administratorIds st \<noteq> []" using d(1) by (simp add: idSetValue_ok)
  ultimately show ?thesis using d(2) by (fastforce simp: coherent_def)
qed

context value_codec
begin

lemma collect_reencodes:
  assumes "canonicalSetCollect P v f parse ne = ok (ps, cs)"
    and "\<And>i x y. parse i x = ok y \<Longrightarrow> fst y = x"
    and "\<And>i x y. parse i x = ok y \<Longrightarrow> canonical P x \<Longrightarrow> \<exists>c. snd y = [c] \<and> reencodes P x (enc c)"
  shows "\<exists>xs ws. v = CArray xs \<and> canonical_all P xs \<and> sorted_wrt (<) (map (cbor_encode P) xs) \<and>
    traverse enc cs = ok ws \<and> canonical_all P ws \<and> map (cbor_encode P) ws = map (cbor_encode P) xs"
proof -
  obtain xs ys where x: "v = CArray xs" "canonical_all P xs" "sorted_wrt (<) (map (cbor_encode P) xs)"
      "traverse_i parse 0 xs = ok ys" "cs = concat (map snd ys)"
    by (rule collected_order[OF assms(1)], rule assms(2), assumption, rule that)
  have r: "reencodes P x (enc (hd (snd y)))" if "parse i x = ok y" "canonical P x" for i x y
    using assms(3)[OF that] by auto
  have one: "snd y = [hd (snd y)]" if "y \<in> set ys" for y
  proof -
    obtain i where i: "i < length ys" "ys ! i = y" using \<open>y \<in> set ys\<close> by (auto simp: in_set_conv_nth)
    then have "parse i (xs ! i) = ok y" "canonical P (xs ! i)"
      using x(2,4) by (auto simp: traverse_i_eq_Inr list_all_length)
    then show ?thesis using assms(3) by fastforce
  qed
  have "cs = map (\<lambda>y. hd (snd y)) ys" unfolding x(5) using one
  proof (induction ys)
    case (Cons y ys)
    then show ?case by (metis concat.simps(2) append_Cons append_Nil list.set_intros list.simps(9))
  qed simp
  moreover obtain ws where "traverse (\<lambda>y. enc (hd (snd y))) ys = ok ws" "canonical_all P ws"
      "map (cbor_encode P) ws = map (cbor_encode P) xs"
    using traverse_reencodes[OF x(4,2), of "\<lambda>y. enc (hd (snd y))"] r by blast
  moreover have "traverse enc (map g zs) = traverse (\<lambda>y. enc (g y)) zs" for g and zs :: "(cvalue \<times> 'a list) list"
    by (induction zs) simp_all
  ultimately show ?thesis using x(1-3) by auto
qed

lemma conflicts_reencode:
  assumes "canonicalSetCollect P v ''Active Authority Conflicts'' (decode_conflict P vaultId) False = ok (ps, cs)"
    and "invitationConflicts st = List.map_filter invitation_part cs"
    "recoveryConflicts st = List.map_filter recovery_part cs" "keyEpochConflicts st = List.map_filter epoch_part cs"
    "administratorConflicts st = List.map_filter administrator_part cs"
  shows "\<exists>us. conflict_values P vaultId st = ok us \<and> reencodes P v (value_set P us)"
proof -
  have "fst y = x" if "decode_conflict P vaultId i x = ok y" for i x y
    using that by (auto simp: decode_conflict_def Let_def and_then_eq_Inr split: if_splits)
  moreover have "\<exists>c. snd y = [c] \<and> reencodes P x (conflict_item P vaultId c)"
    if "decode_conflict P vaultId i x = ok y" "canonical P x" for i x y
    using conflict_reencodes[of vaultId i x "fst y" "snd y"] that by auto
  ultimately obtain xs ws where x: "v = CArray xs" "canonical_all P xs" "sorted_wrt (<) (map (cbor_encode P) xs)"
      "traverse (conflict_item P vaultId) cs = ok ws" "canonical_all P ws"
      "map (cbor_encode P) ws = map (cbor_encode P) xs"
    using collect_reencodes[OF assms(1), of "conflict_item P vaultId"] by blast
  obtain us where u: "conflict_values P vaultId st = ok us" "mset us = mset ws"
    using conflict_values_grouped[OF x(4) assms(2-5)] by blast
  have "mset (map (cbor_encode P) us) = mset (map (cbor_encode P) xs)"
    unfolding x(6)[symmetric] mset_map u(2) ..
  moreover have "canonical_all P us" using x(5) mset_eq_setD[OF u(2)] by (simp add: list_all_iff)
  ultimately show ?thesis using set_reencodes[OF x(2,3)] u(1) x(1) by blast
qed

lemma certificates_reencode:
  assumes "canonicalSetCollect P v ''Client Certificates'' (decode_certificate active) True = ok (ps, clients)"
    and "\<And>xs. v = CArray xs \<Longrightarrow> distinct (map certificate_id xs)"
    and "creds = mapFrom (map (\<lambda>c. (key (cl_clientCredentialId c), c)) clients)"
  shows "\<exists>ws. traverse certificate_value
      (filter (\<lambda>c. cl_active c \<and> key (cl_memberId c) \<in> key ` set active) (mapValues creds)) = ok ws \<and>
    reencodes P v (value_set P ws)"
proof -
  have r: "\<exists>c. snd y = [c] \<and> reencodes P x (certificate_value c)"
    if "decode_certificate active i x = ok y" "canonical P x" for i x y
    using certificate_reencodes[of active i x "fst y" "snd y"] that by auto
  have f: "fst y = x" if "decode_certificate active i x = ok y" for i x y
    using decode_certificate_active[OF that] by blast
  obtain xs ws where x: "v = CArray xs" "canonical_all P xs" "sorted_wrt (<) (map (cbor_encode P) xs)"
      "traverse certificate_value clients = ok ws" "canonical_all P ws"
      "map (cbor_encode P) ws = map (cbor_encode P) xs"
    using collect_reencodes[OF assms(1), of certificate_value] r f by blast
  obtain ys where y: "traverse_i (decode_certificate active) 0 xs = ok ys" "clients = concat (map snd ys)"
    using assms(1) x(1) by (auto simp: canonicalSetCollect_ok)
  have p: "decode_certificate active i (xs ! i) = ok (ys ! i)" if "i < length ys" for i
    using y(1) that by (simp add: traverse_i_eq_Inr)
  have all: "cl_active c \<and> cl_memberId c \<in> set active" if c: "c \<in> set clients" for c
  proof -
    obtain y where "y \<in> set ys" "c \<in> set (snd y)" using c unfolding y(2) by fastforce
    then obtain i where "i < length ys" "c \<in> set (snd (ys ! i))" by (metis in_set_conv_nth)
    then show ?thesis using decode_certificate_active[OF p[of i]] by blast
  qed
  have "map cl_clientCredentialId (concat (map snd ys)) = map certificate_id xs" using y(1)
  proof -
    have "traverse_i (decode_certificate active) j zs = ok us \<Longrightarrow>
        map cl_clientCredentialId (concat (map snd us)) = map certificate_id zs" for j zs us
      by (induction zs arbitrary: j us) (auto simp: and_then_eq_Inr dest!: decode_certificate_id)
    then show ?thesis using y(1) by blast
  qed
  then have "distinct (map (key \<circ> cl_clientCredentialId) clients)"
    using assms(2)[OF x(1)] by (metis y(2) inj_key distinct_map inj_on_subset map_map subset_UNIV)
  then have "mapValues creds = clients" by (simp add: assms(3) mapFrom_fresh comp_def)
  moreover have "filter (\<lambda>c. cl_active c \<and> key (cl_memberId c) \<in> key ` set active) clients = clients"
    using all by (simp add: filter_id_conv)
  ultimately show ?thesis
    using x(1,4) set_reencodes[OF x(2,3,5)] x(6) by simp
qed

lemma checkpoint_reencodes:
  assumes "decodeCanonicalAuthorityCheckpoint P input = ok st" "cp_lifecycle input = 1"
    and "distinct (certificate_ids (cp_checkpoint input))"
  shows "reencodes P (cp_checkpoint input) (encodeCanonicalAuthorityCheckpoint P (cp_vaultId input) st)"
proof -
  obtain m v1 v2 v3 v4 v5 v6 v7 v8 v9 clients conflicts ps qs where
    m: "exactMap (cp_checkpoint input) (num_keys 10) ''Authority checkpoint'' = ok m" "mapGet m (KNum 0) = Some (CNum 1)"
      "mapGet m (KNum 1) = Some v1" "mapGet m (KNum 2) = Some v2" "mapGet m (KNum 3) = Some v3"
      "mapGet m (KNum 4) = Some v4" "mapGet m (KNum 5) = Some v5" "mapGet m (KNum 6) = Some v6"
      "mapGet m (KNum 7) = Some v7" "mapGet m (KNum 8) = Some v8" "mapGet m (KNum 9) = Some v9"
    and d1: "idSetValue P v1 MemberId ''Active Member IDs'' True = ok (activeMemberIds st)"
    and d2: "idSetValue P v2 MemberId ''Administrator Member IDs'' True = ok (administratorIds st)"
    and d3: "canonicalSetCollect P v3 ''Client Certificates'' (decode_certificate (activeMemberIds st)) True = ok (ps, clients)"
    and d4: "decodeSet P v4 ''Recovery Credentials'' (decode_recovery (activeMemberIds st)) True = ok (recoveryCredentials st)"
    and d5: "decodeSet P v5 ''Active Invitations'' (decode_invitation P) False = ok (activeInvitations st)"
    and d6: "decodeSet P v6 ''Key Epoch summaries'' decode_epoch True = ok (keyEpochs st)"
    and d7: "decodeSet P v7 ''Checkpoint Key Envelope slots'' decode_slot True = ok (keyEnvelopeSlots st)"
    and d8: "canonicalSetCollect P v8 ''Active Authority Conflicts'' (decode_conflict P (cp_vaultId input)) False =
      ok (qs, conflicts)"
    and d9: "decodeSet P v9 ''Active Authority fences'' (decode_fence P (cp_vaultId input)) False = ok (writeFences st)"
    and c: "clientCredentials st = mapFrom (map (\<lambda>c. (key (cl_clientCredentialId c), c)) clients)"
    and f: "invitationConflicts st = List.map_filter invitation_part conflicts"
      "recoveryConflicts st = List.map_filter recovery_part conflicts"
      "keyEpochConflicts st = List.map_filter epoch_part conflicts"
      "administratorConflicts st = List.map_filter administrator_part conflicts"
    and l: "lifecycle st = 1" "featureSetConflict st = None"
    by (rule decode_checkpoint_ok[OF assms(1)], rule that, assumption+) (simp_all only: assms(2))
  have ids: "\<And>xs. v3 = CArray xs \<Longrightarrow> distinct (map certificate_id xs)"
    using assms(3) m(1,5) by (auto simp: exactMap_ok)
  obtain w1 w2 where w1: "value_ids P (activeMemberIds st) = ok w1" "reencodes P v1 (ok w1)"
    and w2: "value_ids P (administratorIds st) = ok w2" "reencodes P v2 (ok w2)"
    using ids_reencodes[OF d1] ids_reencodes[OF d2] by (auto simp: reencodes_def)
  obtain us3 w3 where w3: "traverse certificate_value (filter (\<lambda>c. cl_active c \<and> key (cl_memberId c) \<in>
      key ` set (activeMemberIds st)) (mapValues (clientCredentials st))) = ok us3" "value_set P us3 = ok w3" "reencodes P v3 (ok w3)"
    using certificates_reencode[OF d3 ids c] by (auto simp: reencodes_def)
  have "\<forall>r \<in> set (recoveryCredentials st). rv_effective r \<and> rv_memberId r \<in> set (activeMemberIds st)"
    using d4 decode_recovery_active by (fastforce simp: decodeSet_def and_then_eq_Inr traverse_i_eq_Inr in_set_conv_nth)
  then have r: "filter (\<lambda>c. rv_effective c \<and> key (rv_memberId c) \<in> key ` set (activeMemberIds st))
      (recoveryCredentials st) = recoveryCredentials st" by (simp add: filter_id_conv)
  obtain us4 w4 where w4: "traverse recovery_value (recoveryCredentials st) = ok us4" "value_set P us4 = ok w4" "reencodes P v4 (ok w4)"
    using decodeSet_reencodes[OF d4, of recovery_value] recovery_reencodes by (fastforce simp: reencodes_def)
  obtain us5 w5 where w5: "traverse invitation_value (activeInvitations st) = ok us5" "value_set P us5 = ok w5" "reencodes P v5 (ok w5)"
    using decodeSet_reencodes[OF d5, of invitation_value] invitation_reencodes by (fastforce simp: reencodes_def)
  obtain us6 w6 where w6: "traverse epoch_value (keyEpochs st) = ok us6" "value_set P us6 = ok w6" "reencodes P v6 (ok w6)"
    using decodeSet_reencodes[OF d6, of epoch_value] epoch_reencodes by (fastforce simp: reencodes_def)
  obtain us7 w7 where w7: "traverse slot_value (keyEnvelopeSlots st) = ok us7" "value_set P us7 = ok w7" "reencodes P v7 (ok w7)"
    using decodeSet_reencodes[OF d7, of slot_value] slot_reencodes by (fastforce simp: reencodes_def)
  obtain us8 w8 where w8: "conflict_values P (cp_vaultId input) st = ok us8" "value_set P us8 = ok w8" "reencodes P v8 (ok w8)"
    using conflicts_reencode[OF d8 f] by (auto simp: reencodes_def)
  obtain us9 w9 where w9: "traverse (fence_value P) (writeFences st) = ok us9" "value_set P us9 = ok w9" "reencodes P v9 (ok w9)"
    using decodeSet_reencodes[OF d9, of "fence_value P"] fence_reencodes by (fastforce simp: reencodes_def)
  have e: "encodeCanonicalAuthorityCheckpoint P (cp_vaultId input) st =
      value_map [(0, CNum 1), (1, w1), (2, w2), (3, w3), (4, w4), (5, w5), (6, w6), (7, w7), (8, w8), (9, w9)]"
    by (simp add: encodeCanonicalAuthorityCheckpoint_def Let_def l r w1(1) w2(1) w3(1,2) w4(1,2) w5(1,2) w6(1,2)
        w7(1,2) w8(1,2) w9(1,2) del: key_image_mem)
  show ?thesis unfolding e
    by (rule entry_reencodes[where vs = "[CNum 1, w1, w2, w3, w4, w5, w6, w7, w8, w9]" and m = m, OF m(1)])
      (use m w1(2) w2(2) w3(3) w4(3) w5(3) w6(3) w7(3) w8(3) w9(3) in
        \<open>simp_all add: all_less_code upt_rec isSafeInteger_def\<close>)
qed

end

section \<open>A small checkpoint\<close>

text \<open>
  One Member who is Administrator, with a Recovery Credential, a Key Epoch and its envelope, and the given Client
  Certificates.
\<close>

definition demo_certificate :: "8 word \<Rightarrow> 8 word \<Rightarrow> cvalue" where
  "demo_certificate i k = CMap [(KNum 0, CBytes (demo_id i)), (KNum 1, CBytes (demo_id 2)), (KNum 2, CBytes (demo_id k)),
     (KNum 3, CBytes (demo_id 4))]"

definition demo_authority_checkpoint :: "cvalue list \<Rightarrow> cvalue" where
  "demo_authority_checkpoint certificates = CMap [(KNum 0, CNum 1), (KNum 1, CArray [CBytes (demo_id 2)]),
     (KNum 2, CArray [CBytes (demo_id 2)]), (KNum 3, CArray certificates),
     (KNum 4, CArray [CMap [(KNum 0, CBytes (demo_id 13)), (KNum 1, CBytes (demo_id 2)), (KNum 2, CNum 0),
        (KNum 3, CBytes (demo_id 14)), (KNum 4, CBytes (demo_id 15))]]), (KNum 5, CArray []),
     (KNum 6, CArray [CMap [(KNum 0, CBytes (demo_id 5)), (KNum 1, CNum 0), (KNum 2, CBool True)]]),
     (KNum 7, CArray [CMap [(KNum 0, CBytes (demo_id 5)), (KNum 1, CNum 1), (KNum 2, CBytes (demo_id 13)),
        (KNum 3, CNum 0), (KNum 4, CBytes (demo_id 16))]]), (KNum 8, CArray []), (KNum 9, CArray [])]"

definition demo_input :: "cvalue list \<Rightarrow> checkpoint_input" where
  "demo_input certificates = \<lparr>cp_vaultId = demo_id 9, cp_checkpoint = demo_authority_checkpoint certificates,
     cp_requiredFeatureSetId = projr (requiredFeatureSetId ref_platform []), cp_featureManifests = [], cp_lifecycle = 1\<rparr>"

definition demo_decoded :: authority_state where
  "demo_decoded =
     \<lparr>activeMemberIds = [demo_id 2], administratorIds = [demo_id 2], administratorConflicts = [],
      activeInvitations = [], invitationConflicts = [],
      recoveryCredentials = [\<lparr>rv_recoveryCredentialId = demo_id 13, rv_memberId = demo_id 2, rv_revision = 0,
        rv_signingPublicKey = demo_id 14, rv_wrappingPublicKey = demo_id 15, rv_effective = True\<rparr>], recoveryConflicts = [],
      keyEpochs = [\<lparr>ke_keyEpochId = demo_id 5, ke_displayNumber = 0, ke_current = True\<rparr>],
      keyEpochConflicts = [],
      keyEnvelopeSlots = [\<lparr>sl_keyEpochId = demo_id 5, sl_targetKind = 1, sl_targetCredentialId = demo_id 13,
        sl_targetRevision = Some 0, sl_keyEnvelopeId = demo_id 16\<rparr>],
      as_requiredFeatureSetId = projr (requiredFeatureSetId ref_platform []), featureManifests = [],
      featureSetConflict = None, writeFences = [],
      clientCredentials = [(key (demo_id 1), demo_credential)], lifecycle = 1\<rparr>"

lemma demo_checkpoint_decodes:
  "decodeCanonicalAuthorityCheckpoint ref_platform (demo_input [demo_certificate 1 3]) = ok demo_decoded"
  by code_simp

section \<open>Properties\<close>



text \<open>
  The hypothesis on the certificates is needed: the decoder does not reject two Client Certificates for the
  same Credential, the later one replaces the earlier.
\<close>

theorem duplicate_certificate_replaced:
  "\<exists>st. decodeCanonicalAuthorityCheckpoint ref_platform (demo_input [demo_certificate 1 3, demo_certificate 1 4]) = ok st \<and>
     map (\<lambda>e. cl_signingPublicKey (snd e)) (clientCredentials st) = [demo_id 4]"
proof -
  let ?d = "decodeCanonicalAuthorityCheckpoint ref_platform (demo_input [demo_certificate 1 3, demo_certificate 1 4])"
  have "\<not> isl ?d \<and> map (\<lambda>e. cl_signingPublicKey (snd e)) (clientCredentials (projr ?d)) = [demo_id 4]" by code_simp
  then show ?thesis by (cases ?d) auto
qed

text \<open>
  C20. A replay anchored at a checkpoint never leaves the coherent states. Whatever Events it accepts after the
  checkpoint of its Baseline was decoded, every Authority State it computes has active Members as
  Administrators and as owners of active Credentials, and an Administrator or a conflict about one while open.
\<close>

theorem checkpoint_anchor_coherent:
  assumes "decodeCanonicalAuthorityCheckpoint P input = ok anchor"
    and "new_replay genesis anchorId anchor supported = ok R0" "(replay_step P)\<^sup>*\<^sup>* R0 R" "stateAt P R f = ok st"
  shows "coherent st"
  using assms(4)
proof (rule stateAt_coherent)
  have "ar_anchorState R = ar_anchorState R0"
    by (rule anchor_preserved[OF assms(3) reachable_replay.start[OF assms(2)]])
  moreover have "ar_anchorState R0 = anchor" using assms(2) by (auto simp: new_replay_def and_then_eq_Inr Let_def)
  ultimately show "coherent (ar_anchorState R)" using decoded_coherent[OF assms(1)] by simp
qed

theorem checkpoint_anchor_coherent_witness:
  "\<exists>R st. new_replay (demo_authority_event 1 (demo_id 7) [] CNull) (demo_id 7) demo_decoded [] = ok R \<and>
     stateAt ref_platform R [demo_id 7] = ok st \<and> coherent st"
proof -
  let ?R = "new_replay (demo_authority_event 1 (demo_id 7) [] CNull) (demo_id 7) demo_decoded []"
  have "\<not> isl ?R \<and> \<not> isl (stateAt ref_platform (projr ?R) [demo_id 7])" by code_simp
  then have R: "?R = ok (projr ?R)"
    and st: "stateAt ref_platform (projr ?R) [demo_id 7] = ok (projr (stateAt ref_platform (projr ?R) [demo_id 7]))"
    by (simp_all add: sum.collapse(2))
  from checkpoint_anchor_coherent[OF demo_checkpoint_decodes R rtranclp.rtrancl_refl st] show ?thesis
    using R st by blast
qed

end
