(* ===== verification/Vault_Laws.thy ===== *)
theory Vault_Laws
  imports Vault_Open Checkpoint_Laws Replay_Runs
begin

text \<open>
  What opening a Vault promises: the Continuity Proof is a run of the authority replay from the state Genesis
  signs, every Event of it is authorized, and an adopted Baseline carries the Authority State its Vacuum Event
  left.
\<close>

section \<open>The Continuity Proof\<close>

lemma distinct_parts:
  assumes "distinct (map f xs)"
  shows "distinct (map f (filter Q xs))" "x \<in> set xs \<Longrightarrow> \<not> Q x \<Longrightarrow> f x \<notin> f ` set (filter Q xs)"
  using assms by (auto simp: distinct_map inj_on_def)

lemma distinct_map_sort_by: "distinct (map f (sort_by cmp xs)) \<longleftrightarrow> distinct (map f xs)"
  by (metis mset_map mset_sort_by mset_eq_imp_distinct_iff)

lemma proof_loop_run:
  assumes "reachable_replay P R" "proof_loop P R pending = ok R'" "distinct (map ev_recordId pending)"
    and "\<forall>e \<in> set pending. \<not> has_record (ar_graph R) (ev_recordId e)"
  shows "(replay_step P)\<^sup>*\<^sup>* R R' \<and> set (ar_events R') \<subseteq> set (ar_events R) \<union> set pending \<and>
    set (ar_events R) \<subseteq> set (ar_events R') \<and>
    (\<forall>e \<in> set pending. event_authorized P R' e \<and> (ev_family e \<in> {1, 3} \<longrightarrow> e \<in> set (ar_events R')))"
  using assms
proof (induction P R pending rule: proof_loop.induct)
  case (1 P R pending)
  show ?case
  proof (cases "pending = []")
    case True
    then show ?thesis using "1.prems"(2) by (simp add: proof_loop.simps)
  next
    case False
    let ?ready = "ready_events R pending" and ?rest = "filter (\<lambda>e. \<not> proof_ready R e) pending"
    have set: "set ?ready = {e \<in> set pending. proof_ready R e}" by (simp add: ready_events_def)
    obtain S where r: "?ready \<noteq> []" and S: "foldM (validateAndAccept P) R ?ready = ok S" "proof_loop P S ?rest = ok R'"
      using "1.prems"(2) False
      by (subst (asm) proof_loop.simps) (auto simp: and_then_eq_Inr split: if_splits)
    have d: "distinct (map ev_recordId ?ready)"
      using distinct_parts(1)[OF "1.prems"(3)] by (simp add: ready_events_def distinct_map_sort_by)
    have new: "\<forall>e \<in> set ?ready. \<not> has_record (ar_graph R) (ev_recordId e)" using "1.prems"(4) by (simp add: set)
    note a = accept_all[OF "1.prems"(1) S(1) d new]
    then have reach: "reachable_replay P S" using reachable_steps "1.prems"(1) by blast
    have "\<not> has_record (ar_graph S) (ev_recordId e)" if "e \<in> set ?rest" for e
    proof -
      have "ev_recordId e \<notin> ev_recordId ` set ?ready"
        using distinct_parts(2)[OF "1.prems"(3), of e "proof_ready R"] that by (simp add: set)
      then show ?thesis using a that "1.prems"(4) by auto
    qed
    from "1.IH"[OF False r S(1) reach S(2) distinct_parts(1)[OF "1.prems"(3)]] this
    have IH: "(replay_step P)\<^sup>*\<^sup>* S R'" "set (ar_events R') \<subseteq> set (ar_events S) \<union> set ?rest"
      "set (ar_events S) \<subseteq> set (ar_events R')"
      "\<forall>e \<in> set ?rest. event_authorized P R' e \<and> (ev_family e \<in> {1, 3} \<longrightarrow> e \<in> set (ar_events R'))"
      by blast+
    have "event_authorized P R' e \<and> (ev_family e \<in> {1, 3} \<longrightarrow> e \<in> set (ar_events R'))" if "e \<in> set pending" for e
    proof (cases "proof_ready R e")
      case True
      then have "e \<in> set ?ready" using that by (simp add: set)
      then show ?thesis using a IH(3) authorized_steps[OF IH(1) reach] by blast
    next
      case False
      then show ?thesis using IH(4) that by simp
    qed
    moreover have "(replay_step P)\<^sup>*\<^sup>* R R'" using a IH(1) by (meson rtranclp_trans)
    ultimately show ?thesis using a IH(2,3) set by auto
  qed
qed

section \<open>Genesis\<close>

lemma guarded_verify:
  "genesis_signatures P genesis m message clientKey recoveryKey = ok u \<Longrightarrow>
     verifyVaultEventSignature P genesis clientKey = ok True"
  by (auto simp: genesis_signatures_def Let_def and_then_eq_Inr)

lemma same_set_ok [simp]: "same a b f = ok u \<longleftrightarrow> a = b"
  by (simp add: same_def)

lemma same_refl [simp]: "same a a f = ok ()"
  by (simp add: same_def)

lemma genesis_state:
  assumes "genesisAuthorityState P vaultId g b ms = ok st"
  shows "coherent st" "anchor_causes st = []" "ev_family g = 1" "ev_type g = 1" "cx_vaultId g = vaultId"
    "\<exists>c. initialVaultClientAuthority g = ok c \<and> icl_clientCredentialId c = ev_signerCredentialId g \<and>
       activeMemberIds st = [icl_memberId c] \<and> verifyVaultEventSignature P g (icl_signingPublicKey c) = ok True"
proof -
  note d = assms[unfolded genesisAuthorityState_def Let_def]
  show "coherent st"
    using d by (clarsimp simp: and_then_eq_Inr coherent_def)
  show "anchor_causes st = []"
    using d by (clarsimp simp: and_then_eq_Inr anchor_causes_def)
  show "ev_family g = 1" "ev_type g = 1" "cx_vaultId g = vaultId"
    using d by (clarsimp simp: and_then_eq_Inr genesis_root_def)+
  show "\<exists>c. initialVaultClientAuthority g = ok c \<and> icl_clientCredentialId c = ev_signerCredentialId g \<and>
       activeMemberIds st = [icl_memberId c] \<and> verifyVaultEventSignature P g (icl_signingPublicKey c) = ok True"
    using d
    by (clarsimp simp: and_then_eq_Inr initialVaultClientAuthority_def exactMap_ok with_field_ok id_at_ok bytes_at_ok
        dest!: guarded_verify)
qed

text \<open>A replay anchored without causes knows its anchor only.\<close>

lemma new_replay_records:
  assumes "new_replay g anchorId st supported = ok R" "anchor_causes st = []"
  shows "has_record (ar_graph R) i \<longleftrightarrow> i = anchorId" "ar_anchorState R = st" "ar_events R = []"
  using assms
  by (auto simp: new_replay_def anchor_cause_ids_def mapFrom_def and_then_eq_Inr add_record_def new_graph_def has_record_def
      Let_def split: if_splits option.splits)

section \<open>Opening\<close>

lemma sameSet_ok: "sameSet l r f = ok u \<longleftrightarrow> length l = length r \<and> set l \<subseteq> set r"
  by (auto simp: sameSet_def list_ex_iff)

lemma sameSet_distinct:
  assumes "sameSet l r f = ok u" "distinct l"
  shows "distinct r" "set r = set l"
proof -
  have h: "length l = length r" "set l \<subseteq> set r" using assms(1) by (simp_all add: sameSet_ok)
  have "card (set r) \<le> card (set l)" using h(1) assms(2) card_length[of r] by (simp add: distinct_card)
  then show s: "set r = set l" using h(2) by (metis List.finite_set card_seteq)
  show "distinct r" using s h(1) assms(2) by (metis card_distinct distinct_card)
qed

lemma replayed_proof:
  assumes "replayContinuityProof P st g events = ok R" "anchor_causes st = []" "distinct (map ev_recordId events)"
  shows "\<exists>R0 supported. new_replay g (ev_recordId g) st supported = ok R0 \<and> (replay_step P)\<^sup>*\<^sup>* R0 R \<and>
    set (ar_events R) \<subseteq> set events \<and>
    (\<forall>e \<in> set events. ev_recordId e = ev_recordId g \<or> event_authorized P R e \<and> (ev_family e \<in> {1, 3} \<longrightarrow> e \<in> set (ar_events R)))"
proof -
  let ?pending = "filter (\<lambda>e. \<not> bytesEqual (ev_recordId e) (ev_recordId g)) events"
  obtain supported R0 where R0: "new_replay g (ev_recordId g) st supported = ok R0" "proof_loop P R0 ?pending = ok R"
    using assms(1) by (auto simp: replayContinuityProof_def Let_def and_then_eq_Inr)
  note n = new_replay_records[OF R0(1) assms(2)]
  have "\<forall>e \<in> set ?pending. \<not> has_record (ar_graph R0) (ev_recordId e)" by (simp add: n(1))
  from proof_loop_run[OF reachable_replay.start[OF R0(1)] R0(2) distinct_parts(1)[OF assms(3)] this]
  show ?thesis using R0(1) n(3) by fastforce
qed

text \<open>What the checks of the current state establish about the local Client.\<close>

definition local_client :: "current_input \<Rightarrow> authority_state \<Rightarrow> bytes \<Rightarrow> bool" where
  "local_client I st i \<longleftrightarrow>
     (\<exists>secret c. cu_clientSecret I = Some secret \<and> c \<in> set (mapValues (clientCredentials st)) \<and>
        cl_clientCredentialId c = i \<and> cl_active c \<and> rs_memberId (cu_replicaState I) = Some (cl_memberId c) \<and>
        cl_memberId c \<in> set (activeMemberIds st) \<and> cl_signingPublicKey c = cs_signingPublicKey secret \<and>
        cl_wrappingPublicKey c = cs_wrappingPublicKey secret)"

lemma local_client_checked:
  assumes "validateLocalClientAuthority v st (rs_authoringClientCredentialId (cu_replicaState I))
      (rs_memberId (cu_replicaState I)) (cu_clientSecret I) = ok u"
    and "coherent st" "rs_authoringClientCredentialId (cu_replicaState I) = Some i"
  shows "local_client I st i"
proof -
  obtain secret c memberId where c: "cu_clientSecret I = Some secret"
      "find (\<lambda>c. bytesEqual (cl_clientCredentialId c) i) (mapValues (clientCredentials st)) = Some c"
      "credential_matches secret memberId c" "rs_memberId (cu_replicaState I) = Some memberId"
    using assms(1,3) by (auto simp: validateLocalClientAuthority_def and_then_eq_Inr split: option.splits)
  have m: "c \<in> set (mapValues (clientCredentials st))" "cl_clientCredentialId c = i"
    using c(2) by (auto simp: find_Some_iff)
  then have "cl_memberId c \<in> set (activeMemberIds st)"
    using assms(2) c(3) by (fastforce simp: coherent_def credential_matches_def)
  then show ?thesis using c m by (auto simp: local_client_def credential_matches_def)
qed

lemma opened:
  assumes "validateCurrentVaultAuthority P I = ok u"
  obtains body proved st where "bl_body (cu_baseline I) = CMap body" "replay_proof P I body = ok proved"
    "stateAt P (pr_replay proved) (rs_authorityFrontier (cu_replicaState I)) = ok st"
    "current_state_checks P I (pr_replay proved) st = ok ()"
    "\<And>a. rs_adoption (cu_replicaState I) = Some a \<Longrightarrow> adopted_vault P I a (pr_replay proved) = ok ()"
proof -
  obtain genesisBody epochId body proved st where
      h: "exactMap (bl_body (cu_baseline I)) (num_keys 6) ''Current Baseline body'' = ok body"
      "replay_proof P I body = ok proved"
      "stateAt P (pr_replay proved) (rs_authorityFrontier (cu_replicaState I)) = ok st"
      "current_state_checks P I (pr_replay proved) st = ok ()"
    and a: "(case rs_adoption (cu_replicaState I) of
          None \<Rightarrow> initial_vault P I genesisBody epochId proved
        | Some adoption \<Rightarrow> adopted_vault P I adoption (pr_replay proved)) = ok ()"
    using assms unfolding validateCurrentVaultAuthority_def Let_def by (auto simp: and_then_eq_Inr)
  show thesis using h a by (intro that) (simp_all add: exactMap_ok)
qed

lemma replay_proof_ok:
  assumes "replay_proof P I body = ok proved"
  shows "\<exists>ms. genesisAuthorityState P (rs_vaultId (cu_replicaState I)) (cu_genesis I) (pr_baselineAuthority proved) ms =
      ok (pr_initialAuthority proved)"
    "replayContinuityProof P (pr_initialAuthority proved) (cu_genesis I) (cu_continuityEvents I) = ok (pr_replay proved)"
  using assms by (auto simp: replay_proof_def Let_def and_then_eq_Inr split: prod.splits)

section \<open>The Generations\<close>

definition successor_generation :: "authenticated_event \<Rightarrow> bytes res" where
  "successor_generation e =
     and_then (exactMap (ev_body e) (num_keys 7) ''Vacuum Event body'') (\<lambda>m.
     id_at m 2 GenerationId ''Vacuum successor Generation ID'')"

fun generation_chain :: "bytes \<Rightarrow> authenticated_event list \<Rightarrow> bytes \<Rightarrow> bool" where
  "generation_chain g [] g' \<longleftrightarrow> g = g'"
| "generation_chain g (e # es) g' \<longleftrightarrow>
     cx_generationId e = g \<and> (\<exists>s. successor_generation e = ok s \<and> s \<noteq> g \<and> generation_chain s es g')"

lemma read_boundary_ok:
  assumes "read_boundary P v g e = ok (s, b)"
  shows "vb_event b = e" "successor_generation e = ok s" "s \<noteq> g" "cx_generationId e = g" "cx_vaultId e = v"
  using assms by (auto simp: read_boundary_def successor_generation_def and_then_eq_Inr)

lemma vacuum_chain_ok:
  assumes "vacuum_chain P v g latest es = ok (g', l)"
  shows "\<exists>order. mset order = mset es \<and> generation_chain g order g' \<and> (order = [] \<longrightarrow> l = latest) \<and>
    (order \<noteq> [] \<longrightarrow> (\<exists>b. l = Some b \<and> vb_event b = last order))"
  using assms
proof (induction P v g latest es rule: vacuum_chain.induct)
  case (1 P v g latest es)
  show ?case
  proof (cases "es = []")
    case True
    then show ?thesis using "1.prems" by (simp add: vacuum_chain.simps)
  next
    case False
    then obtain e s b where e: "filter (of_generation g) es = [e]" "read_boundary P v g e = ok (s, b)"
        "vacuum_chain P v s (Some b) (filter (\<lambda>e. \<not> of_generation g e) es) = ok (g', l)"
      using "1.prems" by (subst (asm) vacuum_chain.simps) (auto simp: and_then_eq_Inr split: list.splits)
    note r = read_boundary_ok[OF e(2)]
    obtain order where o: "mset order = mset (filter (\<lambda>e. \<not> of_generation g e) es)" "generation_chain s order g'"
        "order = [] \<longrightarrow> l = Some b" "order \<noteq> [] \<longrightarrow> (\<exists>b. l = Some b \<and> vb_event b = last order)"
      using "1.IH"[OF False e(1) refl e(2) refl e(3)] by blast
    have "mset es = mset (filter (of_generation g) es) + mset (filter (\<lambda>e. \<not> of_generation g e) es)"
      by (simp add: multiset_partition)
    then have "mset (e # order) = mset es" by (simp add: e(1) o(1))
    moreover have "generation_chain g (e # order) g'" using r o(2) by simp
    ultimately show ?thesis using o(3,4) r(1) by (intro exI[of _ "e # order"]) auto
  qed
qed

lemma adopted_ok:
  assumes "adopted_vault P I a R = ok u"
  obtains order b where "mset order = mset (filter is_vacuum (cu_continuityEvents I))" "order \<noteq> []"
    "generation_chain (cx_generationId (cu_genesis I)) order (bl_generationId (cu_baseline I))"
    "vb_event b = last order" "ev_recordId (last order) = a"
    "validate_successor P R (cu_baseline I) (cu_replicaState I) a (bl_generationId (cu_baseline I)) b = ok ()"
proof -
  let ?es = "filter is_vacuum (cu_continuityEvents I)"
  obtain g b where g: "?es \<noteq> []" "vacuum_chain P (rs_vaultId (cu_replicaState I)) (cx_generationId (cu_genesis I)) None ?es = ok (g, Some b)"
      "validate_successor P R (cu_baseline I) (cu_replicaState I) a g b = ok ()"
    using assms by (auto simp: adopted_vault_def Let_def and_then_eq_Inr split: option.splits)
  have i: "g = bl_generationId (cu_baseline I)" "ev_recordId (vb_event b) = a"
    using g(3) by (auto simp: validate_successor_def successor_identities_def and_then_eq_Inr)
  obtain order where "mset order = mset ?es" "generation_chain (cx_generationId (cu_genesis I)) order g"
      "order \<noteq> [] \<longrightarrow> vb_event b = last order"
    using vacuum_chain_ok[OF g(2)] by auto
  moreover from this have "order \<noteq> []" using g(1) by (metis mset_zero_iff)
  ultimately show thesis using that i g(3) by metis
qed

section \<open>A small adopted Vault\<close>

text \<open>
  Genesis and one Vacuum Event, both signed by the first Client. The reference platform signs with a prefix of
  the message and hashes by truncation, so identities, proofs and signatures begin with the ASCII codes of the
  label of their transcript.
\<close>

definition demo_features :: bytes where
  "demo_features = [97, 119, 115, 109, 58, 114, 101, 113, 117, 105, 114, 101, 100, 45, 102, 101, 97, 116, 117, 114,
       101, 45, 115, 101, 116, 45, 105, 100, 58, 118, 49] @ [0]"

definition demo_signature :: "8 word list \<Rightarrow> bytes" where
  "demo_signature len = [97, 119, 115, 109, 58, 118, 97, 117, 108, 116, 45, 101, 118, 101, 110, 116, 45, 115, 105,
       103, 110, 97, 116, 117, 114, 101, 58, 118, 49] @ [0, 0, 0, 0, 1, 0, 0, 0, 0, 0, 0] @ len @
     [174, 0, 1, 1, 88, 32] @ replicate 16 9"

definition demo_recovery :: cvalue where
  "demo_recovery = CMap [(KNum 0, CBytes (demo_id 13)), (KNum 1, CBytes (demo_id 2)), (KNum 2, CNum 0),
     (KNum 3, CBytes (demo_id 14)), (KNum 4, CBytes (demo_id 15))]"

definition demo_possession :: bytes where
  "demo_possession = [97, 119, 115, 109, 58, 103, 101, 110, 101, 115, 105, 115, 45, 112, 111, 115, 115, 101, 115,
       115, 105, 111, 110, 45, 112, 114, 111, 111, 102, 58, 118, 49] @ [0, 0, 0, 0, 8, 0, 0, 0, 0, 0, 0, 0,
       32] @ replicate 19 9"

definition demo_genesis_body :: cmap where
  "demo_genesis_body = [(KNum 0, CBytes (demo_id 20)), (KNum 1, CBytes (demo_id 2)), (KNum 2, demo_certificate 1 3),
     (KNum 3, demo_recovery), (KNum 4, CBytes (demo_id 5)), (KNum 5, CBytes demo_features),
     (KNum 6, CMap [(KNum 0, CBytes demo_possession), (KNum 1, CBytes demo_possession)])]"

definition demo_genesis :: authenticated_event where
  "demo_genesis = \<lparr>cx_vaultId = demo_id 9, cx_requiredFeatureSetId = demo_features,
       cx_authorityParentRecordIds = [],
     cx_generationId = demo_id 8, cx_parentRecordIds = [],
     ev_dependencies = [dependency DepVaultBaseline (demo_id 20)], ev_extensions = [], ev_family = 1, ev_type = 1,
     ev_signerCredentialId = demo_id 1, ev_assertedAt = JNumber 0,
     ev_body = CMap demo_genesis_body,
     ev_signature = demo_signature [2, 249], ev_bytes = [], ev_recordId = demo_id 7\<rparr>"

definition demo_vacuum :: authenticated_event where
  "demo_vacuum = \<lparr>cx_vaultId = demo_id 9, cx_requiredFeatureSetId = demo_features,
     cx_authorityParentRecordIds = [demo_id 7], cx_generationId = demo_id 8, cx_parentRecordIds = [demo_id 7],
     ev_dependencies = [dependency DepVaultBaseline (demo_id 21)], ev_extensions = [], ev_family = 3, ev_type = 1,
     ev_signerCredentialId = demo_id 1, ev_assertedAt = JNumber 0,
     ev_body = CMap [(KNum 0, CBytes (demo_id 8)), (KNum 1, CArray [CBytes (demo_id 7)]), (KNum 2,
       CBytes (demo_id 18)),
       (KNum 3, CBytes (demo_id 21)), (KNum 4, CBytes (demo_id 22)),
       (KNum 5, CBytes (([97, 119, 115, 109, 58, 118, 97, 99, 117, 117, 109, 45, 115, 117, 99, 99, 101, 115, 115,
       111, 114, 45, 115, 116, 97, 116, 101, 58, 118, 49] @ [0, 0]))), (KNum 6, CBytes (demo_id 24))],
     ev_signature = demo_signature [2, 1], ev_bytes = [], ev_recordId = demo_id 10\<rparr>"

definition demo_slot :: "int \<Rightarrow> 8 word \<Rightarrow> cvalue \<Rightarrow> 8 word \<Rightarrow> cvalue" where
  "demo_slot kind credential revision envelope = CMap [(KNum 0, CBytes (demo_id 5)), (KNum 1, CNum kind),
     (KNum 2, CBytes (demo_id credential)), (KNum 3, revision), (KNum 4, CBytes (demo_id envelope))]"

definition demo_successor_authority :: cvalue where
  "demo_successor_authority = CMap [(KNum 0, CNum 1), (KNum 1, CArray [CBytes (demo_id 2)]),
     (KNum 2, CArray [CBytes (demo_id 2)]), (KNum 3, CArray [demo_certificate 1 3]), (KNum 4, CArray [demo_recovery]),
     (KNum 5, CArray []), (KNum 6, CArray [CMap [(KNum 0, CBytes (demo_id 5)), (KNum 1, CNum 0), (KNum 2,
       CBool True)]]),
     (KNum 7, CArray [demo_slot 1 13 (CNum 0) 16, demo_slot 2 1 CNull 17]), (KNum 8, CArray []), (KNum 9, CArray [])]"

definition demo_successor_body :: cmap where
  "demo_successor_body = [(KNum 0, CNum 1), (KNum 1, CNum 2),
     (KNum 2, CMap [(KNum 0, CNum 1), (KNum 1, CMap [(KNum 0, CNull), (KNum 1, CArray [CBytes (demo_id 25)])]),
       (KNum 2, CArray []), (KNum 3, CArray []), (KNum 4, CArray []), (KNum 5, CArray []), (KNum 6, CArray []),
       (KNum 7, CArray []), (KNum 8, CArray []), (KNum 9, CArray [])]),
     (KNum 3, demo_successor_authority), (KNum 4, CMap [(KNum 0, CNum 1)]),
     (KNum 5, CMap [(KNum 0, CBytes (demo_id 8)), (KNum 1, CArray [CBytes (demo_id 7)]), (KNum 2,
       CBytes (demo_id 22))])]"

definition demo_successor :: vault_baseline where
  "demo_successor = \<lparr>bl_vaultId = demo_id 9, bl_generationId = demo_id 18,
     bl_dependencies = [dependency DepKeyEnvelope (demo_id 16), dependency DepKeyEnvelope (demo_id 17)],
     bl_requiredFeatureSetId = demo_features, bl_extensions = [], bl_body = CMap demo_successor_body,
     bl_bytes = [], bl_recordId = demo_id 21\<rparr>"

definition demo_opening :: current_input where
  "demo_opening = \<lparr>cu_baseline = demo_successor, cu_genesis = demo_genesis,
     cu_continuityEvents = [demo_genesis, demo_vacuum],
     cu_replicaState = \<lparr>rs_vaultId = demo_id 9, rs_generationId = demo_id 18, rs_causalFrontier = [demo_id 10],
       rs_authorityFrontier = [demo_id 10], rs_continuityRecordIds = [demo_id 7, demo_id 10],
       rs_baselineId = demo_id 21,
       rs_currentKeyEpochId = demo_id 5, rs_requiredFeatureSetId = demo_features,
       rs_authoringClientCredentialId = Some (demo_id 1), rs_memberId = Some (demo_id 2), rs_lifecycle = 1,
       rs_preservationRoots = [], rs_garbageCollectionFences = [], rs_adoption = Some (demo_id 10)\<rparr>,
     cu_clientSecret = Some \<lparr>cs_vaultId = demo_id 9, cs_memberId = demo_id 2,
       cs_clientCredentialId = demo_id 1,
       cs_signingPublicKey = demo_id 3, cs_signingSecretKey = [], cs_wrappingPublicKey = demo_id 4,
       cs_wrappingPrivateKey = []\<rparr>,
     cu_epochSecret = \<lparr>es_vaultId = demo_id 9, es_keyEpochId = demo_id 5, es_displayNumber = 0,
       es_key = []\<rparr>,
     cu_resolver = \<lparr>resolveKeyEnvelope = (\<lambda>_ _. ok []),
       resolveFeatureManifest = (\<lambda>i. ok i)\<rparr>\<rparr>"

text \<open>The Authority State at Genesis, which the Vacuum Event leaves as it is.\<close>

definition demo_opened :: authority_state where
  "demo_opened =
     \<lparr>activeMemberIds = [demo_id 2], administratorIds = [demo_id 2], administratorConflicts = [],
      activeInvitations = [], invitationConflicts = [],
      recoveryCredentials = [\<lparr>rv_recoveryCredentialId = demo_id 13, rv_memberId = demo_id 2, rv_revision = 0,
        rv_signingPublicKey = demo_id 14, rv_wrappingPublicKey = demo_id 15, rv_effective = True\<rparr>],
       recoveryConflicts = [],
      keyEpochs = [\<lparr>ke_keyEpochId = demo_id 5, ke_displayNumber = 0, ke_current = True\<rparr>],
      keyEpochConflicts = [],
      keyEnvelopeSlots = [\<lparr>sl_keyEpochId = demo_id 5, sl_targetKind = 1, sl_targetCredentialId = demo_id 13,
          sl_targetRevision = Some 0, sl_keyEnvelopeId = demo_id 16\<rparr>,
        \<lparr>sl_keyEpochId = demo_id 5, sl_targetKind = 2, sl_targetCredentialId = demo_id 1,
          sl_targetRevision = None, sl_keyEnvelopeId = demo_id 17\<rparr>],
      as_requiredFeatureSetId = demo_features, featureManifests = [],
      featureSetConflict = None, writeFences = [],
      clientCredentials = [(key (demo_id 1), demo_credential)], lifecycle = 1\<rparr>"

definition demo_start :: authority_replay where
  "demo_start = projr (new_replay demo_genesis (demo_id 7) demo_opened [])"

definition demo_final :: authority_replay where
  "demo_final = demo_start\<lparr>ar_graph := projr (add_record (ar_graph demo_start) (demo_id 10) [demo_id 7]),
     ar_events := [demo_vacuum]\<rparr>"

definition demo_proved :: proof_result where
  "demo_proved = \<lparr>pr_resolved = [], pr_baselineManifests = [], pr_baselineAuthority = demo_opened,
     pr_initialAuthority = demo_opened, pr_replay = demo_final\<rparr>"

definition demo_boundary :: vacuum_boundary where
  "demo_boundary = \<lparr>vb_event = demo_vacuum, vb_predecessorFrontier = [demo_id 7],
       vb_predecessorStateDigest = demo_id 22,
     vb_successorStateDigest = ([97, 119, 115, 109, 58, 118, 97, 99, 117, 117, 109, 45, 115, 117, 99, 99, 101, 115,
       115, 111, 114, 45, 115, 116, 97, 116, 101, 58, 118, 49] @ [0, 0]), vb_successorBaselineId = demo_id 21\<rparr>"

lemma demo_s1: "decodeCanonicalAuthorityCheckpoint ref_platform
    \<lparr>cp_vaultId = demo_id 9, cp_checkpoint = demo_successor_authority, cp_requiredFeatureSetId = demo_features,
     cp_featureManifests = [], cp_lifecycle = 1\<rparr> = ok demo_opened"
  by code_simp

lemma demo_s2: "genesisAuthorityState ref_platform (demo_id 9) demo_genesis demo_opened [] = ok demo_opened"
  by code_simp

lemma demo_s3: "validateAndAccept ref_platform demo_start demo_vacuum = ok demo_final"
  by code_simp

lemma demo_s4: "stateAt ref_platform demo_final [demo_id 10] = ok demo_opened"
  by code_simp

lemma demo_s5: "current_state_checks ref_platform demo_opening demo_final demo_opened = ok ()"
  by code_simp

lemma demo_s6: "read_boundary ref_platform (demo_id 9) (demo_id 8) demo_vacuum = ok (demo_id 18, demo_boundary)"
  by code_simp

lemma demo_s7: "encodeCanonicalAuthorityCheckpoint ref_platform (demo_id 9) demo_opened = ok demo_successor_authority"
  by code_simp

lemma demo_s8: "sameCanonical ref_platform demo_successor_authority demo_successor_authority ''Successor authority state'' = ok ()"
  by code_simp

lemma demo_s9: "successor_commitment ref_platform demo_successor_body demo_boundary = ok ()"
  by code_simp

lemma demo_s10: "successor_state ref_platform demo_successor_body demo_boundary = ok ()"
  by code_simp

lemma demo_s11: "vaultBaselineDependencyRequirements ref_platform (CMap demo_successor_body) =
    ok [dependency DepKeyEnvelope (demo_id 16), dependency DepKeyEnvelope (demo_id 17)]"
  by code_simp

lemma demo_s12: "resolveContinuityDependencies ref_platform demo_opened demo_opened [] [demo_genesis, demo_vacuum]
    (cu_resolver demo_opening) [] = ok ()"
  by code_simp

lemma demo_fields:
  "cu_baseline demo_opening = demo_successor" "cu_genesis demo_opening = demo_genesis"
  "cu_continuityEvents demo_opening = [demo_genesis, demo_vacuum]" "rs_vaultId (cu_replicaState demo_opening) = demo_id 9"
  "ev_body demo_genesis = CMap demo_genesis_body"
  "es_vaultId (cu_epochSecret demo_opening) = demo_id 9" "es_keyEpochId (cu_epochSecret demo_opening) = demo_id 5"
  "rs_currentKeyEpochId (cu_replicaState demo_opening) = demo_id 5"
  "rs_authorityFrontier (cu_replicaState demo_opening) = [demo_id 10]"
  "rs_adoption (cu_replicaState demo_opening) = Some (demo_id 10)"
  "rs_baselineId (cu_replicaState demo_opening) = demo_id 21"
  "rs_requiredFeatureSetId (cu_replicaState demo_opening) = demo_features"
  "rs_continuityRecordIds (cu_replicaState demo_opening) = [demo_id 7, demo_id 10]"
  "bl_body demo_successor = CMap demo_successor_body" "bl_requiredFeatureSetId demo_successor = demo_features"
  "bl_dependencies demo_successor = [dependency DepKeyEnvelope (demo_id 16), dependency DepKeyEnvelope (demo_id 17)]"
  "bl_generationId demo_successor = demo_id 18" "bl_recordId demo_successor = demo_id 21"
  "bl_vaultId demo_successor = demo_id 9" "ev_recordId demo_genesis = demo_id 7" "ev_recordId demo_vacuum = demo_id 10"
  "cx_generationId demo_genesis = demo_id 8" "cx_generationId demo_vacuum = demo_id 8"
  "\<not> is_vacuum demo_genesis" "is_vacuum demo_vacuum" "is_genesis demo_genesis" "\<not> is_genesis demo_vacuum"
  "ev_family demo_genesis = 1" "ev_type demo_genesis = 1" "ev_family demo_vacuum = 3" "ev_type demo_vacuum = 1"
  by (simp_all add: demo_opening_def demo_successor_def demo_genesis_def demo_vacuum_def is_vacuum_def is_genesis_def)

lemma demo_steps:
  "exactMap (CMap demo_genesis_body) (num_keys 7) ''Genesis body'' = ok demo_genesis_body"
  "exactMap (CMap demo_successor_body) (num_keys 6) ''Current Baseline body'' = ok demo_successor_body"
  by code_simp+

lemma demo_run:
  "id_at demo_genesis_body 4 KeyEpochId ''Genesis Key Epoch ID'' = ok (demo_id 5)"
  "proof_ready demo_start demo_vacuum" "new_replay demo_genesis (demo_id 7) demo_opened [] = ok demo_start"
  "traverse (canonicalAuthorityFeatureManifestRequirements ref_platform) [demo_genesis, demo_vacuum] = ok [[], []]"
  by code_simp+

lemma demo_id_eq: "demo_id a = demo_id b \<longleftrightarrow> a = b"
  by (simp add: demo_id_def)

lemma demo_proof: "replayContinuityProof ref_platform demo_opened demo_genesis [demo_genesis, demo_vacuum] = ok demo_final"
proof -
  have "proof_loop ref_platform demo_start [demo_vacuum] = ok demo_final"
    by (subst proof_loop.simps) (simp add: ready_events_def demo_run(2) demo_s3 proof_loop.simps[of _ _ "[]"])
  moreover have "featureManifests demo_opened = []" by (simp add: demo_opened_def)
  ultimately show ?thesis
    by (simp add: replayContinuityProof_def demo_fields demo_id_eq demo_run(3,4) del: traverse_simps)
qed

lemma demo_replayed: "replay_proof ref_platform demo_opening demo_successor_body = ok demo_proved"
proof -
  have "retain_event_manifests ref_platform ''Continuity Feature Manifest bytes'' [demo_genesis, demo_vacuum] [] = ok []"
    by (simp add: retain_event_manifests_def canonicalAuthorityFeatureManifestRequirements_def demo_fields)
  moreover have "foldM (baseline_manifest_step ref_platform (cu_resolver demo_opening) [])
      ([], []) [dependency DepKeyEnvelope (demo_id 16), dependency DepKeyEnvelope (demo_id 17)] = ok ([], [])"
    by (simp add: baseline_manifest_step_def dependency_def)
  moreover have "mapValue demo_successor_body 3 = ok demo_successor_authority"
    by (simp add: demo_successor_body_def mapValue_def)
  ultimately show ?thesis
    by (simp add: replay_proof_def demo_fields demo_s1 demo_s2 demo_proof demo_proved_def)
qed

lemma demo_chain: "vacuum_chain ref_platform (demo_id 9) (demo_id 8) None [demo_vacuum] = ok (demo_id 18, Some demo_boundary)"
  by (subst vacuum_chain.simps) (simp add: of_generation_def demo_fields demo_s6 vacuum_chain.simps[of _ _ _ _ "[]"])

lemma demo_adopted: "adopted_vault ref_platform demo_opening (demo_id 10) demo_final = ok ()"
proof -
  have b: "vb_event demo_boundary = demo_vacuum" "vb_successorBaselineId demo_boundary = demo_id 21"
    by (simp_all add: demo_boundary_def)
  have "successor_identities demo_successor (cu_replicaState demo_opening) (demo_id 10) (demo_id 18) demo_boundary = ok ()"
    by (simp add: successor_identities_def demo_fields b)
  moreover have "lifecycle demo_opened = 1" "featureManifests demo_opened = []" by (simp_all add: demo_opened_def)
  moreover have "mapValue demo_successor_body 3 = ok demo_successor_authority"
    "mapValue demo_successor_body 4 = ok (CMap [(KNum 0, CNum 1)])" "field_ok demo_successor_body 1 (\<lambda>v. exactCode v 2 ''Successor Baseline kind'') = ok ()"
    by (code_simp, code_simp, code_simp)
  moreover have "exactMap (CMap demo_successor_body) (num_keys 6) ''Successor Baseline body'' = ok demo_successor_body"
    "value_map [(0, CNum 1)] = ok (CMap [(KNum 0, CNum 1)])"
    "sameCanonical ref_platform (CMap [(KNum 0, CNum 1)]) (CMap [(KNum 0, CNum 1)]) ''Successor lifecycle state'' = ok ()"
    by code_simp+
  moreover have "and_then (dependencySet ref_platform [dependency DepKeyEnvelope (demo_id 16), dependency DepKeyEnvelope (demo_id 17)])
      (\<lambda>ws. sameCanonical ref_platform (CArray ws) (CArray ws) ''Successor Baseline dependency closure'') = ok ()"
    by code_simp
  then obtain ws where "dependencySet ref_platform [dependency DepKeyEnvelope (demo_id 16), dependency DepKeyEnvelope (demo_id 17)] = ok ws"
    "sameCanonical ref_platform (CArray ws) (CArray ws) ''Successor Baseline dependency closure'' = ok ()"
    unfolding and_then_eq_Inr by blast
  ultimately show ?thesis
    by (simp add: adopted_vault_def demo_fields demo_chain validate_successor_def b demo_s4 demo_s7 demo_s8 demo_s9
        demo_s10 demo_s11)
qed

lemma demo_opens: "validateCurrentVaultAuthority ref_platform demo_opening = ok ()"
proof -
  have p: "pr_replay demo_proved = demo_final" "pr_initialAuthority demo_proved = demo_opened"
    "pr_baselineAuthority demo_proved = demo_opened" "pr_baselineManifests demo_proved = []" "pr_resolved demo_proved = []"
    by (simp_all add: demo_proved_def)
  show ?thesis
    by (simp only: validateCurrentVaultAuthority_def Let_def demo_steps demo_run(1) and_then_Inr demo_replayed p demo_fields
        demo_s4 demo_s5 demo_adopted option.case demo_s12 checks_simps same_refl)
qed



text \<open>
  C27. An adopted Baseline continues the history. When a Vault that adopted a Vacuum opens, the Vacuum Events of
  its Continuity Proof form one chain of Generations from the one of Genesis to the one of its Baseline, the
  last is the adopted Event, and the Authority checkpoint of the Baseline is, byte for byte, the encoding of
  the Authority State that Event left, which is open.
\<close>

theorem adopted_baseline_continues:
  assumes "validateCurrentVaultAuthority P I = ok ()" "rs_adoption (cu_replicaState I) = Some a"
  shows "\<exists>order body proved st v w. mset order = mset (filter is_vacuum (cu_continuityEvents I)) \<and> order \<noteq> [] \<and>
    generation_chain (cx_generationId (cu_genesis I)) order (bl_generationId (cu_baseline I)) \<and>
    ev_recordId (last order) = a \<and>
    bl_body (cu_baseline I) = CMap body \<and> replay_proof P I body = ok proved \<and>
    stateAt P (pr_replay proved) [a] = ok st \<and> lifecycle st = 1 \<and>
    encodeCanonicalAuthorityCheckpoint P (rs_vaultId (cu_replicaState I)) st = ok w \<and>
    mapGet body (KNum 3) = Some v \<and> cbor_encode P v = cbor_encode P w"
proof -
  obtain body proved where o: "bl_body (cu_baseline I) = CMap body" "replay_proof P I body = ok proved"
      "adopted_vault P I a (pr_replay proved) = ok ()"
    using opened[OF assms(1)] assms(2) by metis
  obtain order b where order: "mset order = mset (filter is_vacuum (cu_continuityEvents I))" "order \<noteq> []"
      "generation_chain (cx_generationId (cu_genesis I)) order (bl_generationId (cu_baseline I))"
      "vb_event b = last order" "ev_recordId (last order) = a"
    and s: "validate_successor P (pr_replay proved) (cu_baseline I) (cu_replicaState I) a (bl_generationId (cu_baseline I)) b = ok ()"
    by (rule adopted_ok[OF o(3)])
  obtain st v w where w: "stateAt P (pr_replay proved) [a] = ok st" "mapGet body (KNum 3) = Some v"
      "encodeCanonicalAuthorityCheckpoint P (rs_vaultId (cu_replicaState I)) st = ok w" "cbor_encode P v = cbor_encode P w"
    using s order(4,5) o(1)
    by (auto simp: validate_successor_def and_then_eq_Inr exactMap_ok mapValue_ok sameCanonical_def encodeCanonicalValue_ok)
  have "lifecycle st = 1" using w(3) by (simp add: encodeCanonicalAuthorityCheckpoint_def and_then_eq_Inr)
  then show ?thesis using order o w by blast
qed

theorem adopted_baseline_continues_witness:
  "generation_chain (demo_id 8) [demo_vacuum] (demo_id 18)"
proof -
  have r: "rs_adoption (cu_replicaState demo_opening) = Some (demo_id 10)"
    "filter is_vacuum (cu_continuityEvents demo_opening) = [demo_vacuum]"
    "cx_generationId (cu_genesis demo_opening) = demo_id 8" "bl_generationId (cu_baseline demo_opening) = demo_id 18"
    by (simp_all add: demo_opening_def demo_genesis_def demo_vacuum_def demo_successor_def is_vacuum_def)
  from adopted_baseline_continues[OF demo_opens r(1)] show ?thesis unfolding r by auto
qed

end
