(* ===== verification/Spec2Isabelle.thy ===== *)
theory Spec2Isabelle
  imports Directed_Graph Backup Service_Laws Vault_Laws
begin

text \<open>
  A verification development for the canonical core of the awsm browser extension
  (\<open>src/apps/browser-extension/src\<close>).

  \<^bold>\<open>The program.\<close> The extension keeps Vaults of captured pages, Notes, Tags, Folders and Collections. A Vault is a
  causal graph of signed Vault Events and Baselines; every replica holds part of it, exchanges records with
  others, and computes the same state from the same set of records. Records, objects and identifiers have one
  canonical byte representation, so that digests and signatures mean the same everywhere. Who may sign an Event
  is itself computed from Events: the authority replay derives the Members, Administrators, Credentials and Key
  Epochs at every frontier. A Vacuum replaces the history by a Baseline that carries this state as a checkpoint.
  Locally everything is in one database of immutable and mutable items, and a durable Job collects what no
  accepted state needs.

  \<^bold>\<open>Conventions.\<close> An exception is \<open>Inl\<close> of an error and a returned value \<open>Inr\<close> (\<open>res\<close>, \<open>and_then\<close>, \<open>traverse\<close>,
  \<open>foldM\<close> of Prelude); a byte is an 8-bit word and a JavaScript number or bigint an integer with the tag that
  \<open>typeof\<close> sees; a JavaScript Map is an association list in insertion order; a text is the string of its UTF-8
  bytes. What the code calls outside the repository (the deterministic CBOR codec, SHA-256, Unicode
  normalisation, the URL parser and the signature library) is the record \<^typ>\<open>platform\<close>, an argument of
  every definition that uses it; key wrapping, loaders and resolvers are arguments of the functions that call
  them. A method that mutates its object returns the new object. Definitions are executable; loops are structural
  recursion or \<open>function\<close> with a measure, so every modelled function is total and no fuel is used.

  \<^bold>\<open>Records and values.\<close>
  \<^item> Prelude: results, bytes, hexadecimal keys, maps, and sorting with a comparator: \<open>domain/hash.ts\<close> and the
    helpers repeated in many files.
  \<^item> Transcript (\<open>transcript.ts\<close>): framing of byte strings is injective (C1).
  \<^item> Canonical_Value, Codec (\<open>value.ts\<close>): canonical values, maps and sets; one representation per value (C2), and
    sets do not depend on the order of their elements (C3).
  \<^item> Schema (\<open>schema.ts\<close>, \<open>identifiers.ts\<close>, \<open>dependencies.ts\<close>): the parsers each validator is built from, each with
    a lemma saying when it returns what (collection \<open>schema_ok\<close>).
  \<^item> Features, Content_Bodies, Authority_Bodies, Event_Bodies, Baseline_Body (the files of the same name): every
    body validator of every Event type with all its error branches; Required Feature Sets are coherent (C19), an
    accepted Invitation is bound to its parts (C21), an accepted Event declares exactly the dependencies its body
    requires (C22), and a Baseline declares what its checkpoints need (C23).
  \<^item> Vault_Record (\<open>record.ts\<close>): decoding and re-encoding agree (C25), decoded Events are well formed (C26), and a
    signature determines the Event (C28).
  \<^item> Vault_Object (\<open>object.ts\<close>): decoded objects re-encode to themselves (C29) and their references are exactly
    those of the body (C30).

  \<^bold>\<open>Causality and reduction.\<close>
  \<^item> Causal_Graph (\<open>reducers.ts\<close>, class CausalGraph): ancestry refines reachability (C7), is a strict order in every
    reachable graph (C8), and exactly acyclic additions are accepted (C9).
  \<^item> Reducers, Directed_Graph (\<open>reducers.ts\<close>): scalars, Note heads, observed-remove and additive sets are
    functions of the set of their candidates (C10 to C13); placements form a forest and no edge is lost (C14, C15).

  \<^bold>\<open>Authority.\<close>
  \<^item> Authority_Events, Authority_State, Authority_Replay (\<open>canonical-authority-replay.ts\<close>): the facts each Authority
    Event states, \<open>stateAt\<close> and \<open>validateAndAccept\<close> of the class \<open>CanonicalAuthorityReplay\<close>. A run of the replay is a
    path of the relation \<open>replay_step\<close>, one accepted Event a step.
  \<^item> Authority_Laws, Authority_Invariants, Authority_Epochs, Replay_Runs, Authority_Properties: an accepted Event is
    authorized by the state at its parents (C4), the state at a known frontier never changes (C5), every state
    is coherent (C6), and a Key Epoch Transition leaves one current Key Epoch (C31).
  \<^item> Authority_Checkpoint, Checkpoint_Laws (\<open>canonical-authority-checkpoint.ts\<close>): encoding a decoded checkpoint
    gives it back (C18), and a replay anchored at a decoded checkpoint only computes coherent states (C20). The
    decoder lets a second Certificate of one Credential replace the first (\<open>duplicate_certificate_replaced\<close>).
  \<^item> Vault_Open, Vault_Laws (\<open>canonical-open.ts\<close>): a Vault that opens has a Continuity Proof that is an authorized
    run from the state Genesis signs (C24), and a Baseline it adopted carries the state its Vacuum Event left
    (C27). The two loops of the file, over the Events of the proof and over the chain of Vacuum Events, end
    because each round takes an Event from those that are pending.

  \<^bold>\<open>Storage and collection.\<close>
  \<^item> Storage_Schema, Storage, Storage_Laws (\<open>canonical-schema.ts\<close>, \<open>canonical-database.ts\<close>): a database is a finite
    map from family and key to an item, a commit a function to an error or the next database. Immutable items
    keep their bytes (C38), and a Replica mutation changes exactly what it names (C39).
  \<^item> Local_State (\<open>canonical-local-state.ts\<close>, \<open>installation-wrap.ts\<close>): codecs of the local items and their wrapping.
  \<^item> Garbage_Collection, Reachability (\<open>garbage-collection-plan.ts\<close>, \<open>complete-export/reachability.ts\<close>,
    \<open>garbage-collection-reachability.ts\<close>): a plan deletes nothing reachable (C16) and everything else once (C17);
    the trace is exactly the closure of the accepted state (C32), returns when everything needed is stored and
    there are at most a million items (C33, the bound of the code), and a plan made from it keeps what any
    preserved state needs (C34).
  \<^item> Collection_Job, Collection_Service, Service_Laws (\<open>garbage-collection-job.ts\<close>, \<open>-inventory.ts\<close>, \<open>-service.ts\<close>): a
    decoded Job is bounded (C37), and a cleanup cut off anywhere after its claim is completed by the next run (C40).
  \<^item> Backup (\<open>backup/contracts.ts\<close>, \<open>backup/retention.ts\<close>): retention rejects exactly the invalid requests (C35) and
    takes a valid inventory to a valid one (C36).

  \<^bold>\<open>Interfaces.\<close> \<open>comparator_order\<close> is what the sorting functions need of a comparator, \<open>key_map\<close> what a Map keyed by
  strings promises, \<open>causal_order\<close> what clients of the causal graph need of ancestry. \<open>array_codec\<close> is what comparing
  encodings needs of the encoder (injectivity on byte strings, numbers, arrays and maps with the same keys);
  \<open>record_codec\<close> extends it with the order-independence of map encoding and \<open>value_codec\<close> with congruence on arrays;
  all three are interpreted on a CBOR encoder written out in Canonical_Value. \<open>queue_loop\<close> is the contract of the
  three loops of the reachability trace, and \<open>database_law\<close> says that a relation the four primitive writes respect
  holds across every operation of the database; it is interpreted for the stability of immutable items, the
  well-formedness of stored values and the distinctness of keys.

  \<^bold>\<open>Not modelled.\<close> The Go runtime and the Rails server (other languages), rendering and event wiring, the host and
  network adapters, and the bodies of the cryptographic calls. Of the services, those that create, fork, vacuum and
  recover a Vault or author content only orchestrate modelled parts and I/O. The loading of accepted Records before
  a replay (\<open>canonical-replay.ts\<close>), the content checkpoint of a Vacuum, the library projections and the
  synchronization state are the next parts to model; search ranks with floating-point scores and is left out.
  Asynchrony is left out: a modelled function runs without interruption between two accesses to the database, and
  the database commits are where runs of different owners meet (C39, C40).
\<close>

end
